(* ===== verification/Prelude.thy ===== *)
theory Prelude
  imports Main "HOL-Library.Word"
begin

unbundle bit_operations_syntax

text \<open>
  Shared vocabulary of the development: the program's scalar types (\<open>include/common/types.h\<close>),
  the arithmetic of \<open>size_t\<close> with its wrap-around written out, little-endian byte images of
  integers (what \<open>memcpy\<close> of a scalar and \<open>reinterpret_cast\<close> see on the supported
  platforms), and the collections of facts the component theories share.
\<close>

named_theorems sz_simps \<open>size arithmetic without wrap-around\<close>
named_theorems bytes_simps \<open>little-endian images\<close>

section \<open>Scalar types\<close>

text \<open>
  \<open>types.cpp\<close> asserts the widths at compile time: 8, 16, 32 and 64 bit integers, and a
  64 bit \<open>size_t\<close>, \<open>time_t\<close> and pointer.
\<close>

type_synonym tbyte = "8 word"
type_synonym tuint16 = "16 word"
type_synonym tuint32 = "32 word"
type_synonym tuint64 = "64 word"
type_synonym tint16 = "16 word"
type_synonym tint32 = "32 word"

section \<open>The arithmetic of size_t\<close>

text \<open>
  A value of \<open>size_t\<close> is a natural number below \<open>2 ^ 64\<close>; addition and subtraction
  wrap around.
\<close>

abbreviation size_max :: nat where
  "size_max \<equiv> 2 ^ 64"

definition sz_add :: "nat \<Rightarrow> nat \<Rightarrow> nat" where
  "sz_add a b = (a + b) mod size_max"

definition sz_sub :: "nat \<Rightarrow> nat \<Rightarrow> nat" where
  "sz_sub a b = (a + (size_max - b mod size_max)) mod size_max"

lemma sz_add_id [sz_simps]: "a + b < size_max \<Longrightarrow> sz_add a b = a + b"
  by (simp add: sz_add_def)

lemma sz_sub_id [sz_simps]: "b \<le> a \<Longrightarrow> a < size_max \<Longrightarrow> sz_sub a b = a - b"
proof -
  assume "b \<le> a" and "a < size_max"
  then have "b mod size_max = b" by simp
  then have "sz_sub a b = (a + (size_max - b)) mod size_max" by (simp add: sz_sub_def)
  also have "a + (size_max - b) = (a - b) + size_max" using \<open>b \<le> a\<close> \<open>a < size_max\<close> by simp
  also have "((a - b) + size_max) mod size_max = a - b" using \<open>a < size_max\<close> by simp
  finally show ?thesis .
qed

lemma sz_sub_wrap: "a < b \<Longrightarrow> b < size_max \<Longrightarrow> sz_sub a b = size_max - (b - a)"
  by (simp add: sz_sub_def)

lemma sz_add_bound: "sz_add a b < size_max"
  by (simp add: sz_add_def)

lemma sz_sub_bound: "sz_sub a b < size_max"
  by (simp add: sz_sub_def)

section \<open>Little-endian images\<close>

fun le_bytes :: "nat \<Rightarrow> nat \<Rightarrow> tbyte list" where
  "le_bytes 0 v = []"
| "le_bytes (Suc n) v = word_of_nat v # le_bytes n (v div 256)"

fun le_val :: "tbyte list \<Rightarrow> nat" where
  "le_val [] = 0"
| "le_val (b # bs) = unat b + 256 * le_val bs"

lemma length_le_bytes [simp, bytes_simps]: "length (le_bytes n v) = n"
  by (induction n arbitrary: v) auto

lemma unat_byte_of_nat: "unat (word_of_nat v :: tbyte) = v mod 256"
  by (simp add: unat_of_nat take_bit_eq_mod)

lemma unat_byte_less: "unat (b :: tbyte) < 256"
  using unsigned_less [of b] by simp

text \<open>What holds of the 256 bytes holds of every byte.\<close>

lemma all_bytes:
  assumes "list_all (\<lambda>n. P (word_of_nat n :: tbyte)) [0..<256]"
  shows "P b"
proof -
  have "\<forall>n \<in> {0..<256}. P (word_of_nat n :: tbyte)" using assms by (simp add: list_all_iff)
  moreover have "unat b \<in> {0..<256}" using unat_byte_less [of b] by simp
  ultimately have "P (word_of_nat (unat b))" by blast
  thus ?thesis by simp
qed

lemma bit7: "bit (b :: tbyte) 7 \<longleftrightarrow> 128 \<le> unat b"
  by (rule all_bytes) code_simp

lemma unat_of_nat_small: "n < 2 ^ LENGTH('a) \<Longrightarrow> unat (word_of_nat n :: 'a::len word) = n"
  by (simp add: unat_of_nat take_bit_eq_mod)

lemma unat_of_nat_le: "n \<le> unat (c :: 'a::len word) \<Longrightarrow> unat (word_of_nat n :: 'a word) = n"
  by (rule unat_of_nat_small) (rule le_less_trans, assumption, rule unsigned_less)

lemma le_val_le_bytes [bytes_simps]: "le_val (le_bytes n v) = v mod 256 ^ n"
proof (induction n arbitrary: v)
  case 0
  then show ?case by simp
next
  case (Suc n)
  have "v mod 256 ^ Suc n = 256 * (v div 256 mod 256 ^ n) + v mod 256"
    by (metis mod_mult2_eq power_Suc)
  then show ?case by (simp add: Suc.IH unat_byte_of_nat)
qed

lemma le_val_bound: "le_val bs < 256 ^ length bs"
proof (induction bs)
  case Nil
  then show ?case by simp
next
  case (Cons b bs)
  have "unat b < 256" by (rule unat_byte_less)
  with Cons show ?case by simp
qed

lemma le_bytes_le_val [bytes_simps]: "le_bytes (length bs) (le_val bs) = bs"
proof (induction bs)
  case Nil
  then show ?case by simp
next
  case (Cons b bs)
  have "unat (word_of_nat (unat b + 256 * le_val bs) :: tbyte) = unat b"
    unfolding unat_byte_of_nat by (simp add: unat_byte_less)
  then have "(word_of_nat (unat b + 256 * le_val bs) :: tbyte) = b"
    by (rule word_unat_eq_iff [THEN iffD2])
  then show ?case using Cons unat_byte_less [of b] by (simp del: of_nat_add of_nat_mult)
qed

section \<open>Byte-addressed memory\<close>

text \<open>
  Memory shared between processes is a map from addresses to bytes; \<open>memcpy\<close> of \<open>n\<close> bytes
  reads or writes a range of addresses, and a \<open>size_t\<close> field is the little-endian image of
  its value in eight bytes.
\<close>

type_synonym memory = "nat \<Rightarrow> tbyte"

definition rd_range :: "memory \<Rightarrow> nat \<Rightarrow> nat \<Rightarrow> tbyte list" where
  "rd_range m a n = map (\<lambda>i. m (a + i)) [0..<n]"

definition wr_range :: "memory \<Rightarrow> nat \<Rightarrow> tbyte list \<Rightarrow> memory" where
  "wr_range m a bs = (\<lambda>i. if a \<le> i \<and> i < a + length bs then bs ! (i - a) else m i)"

definition ld64 :: "memory \<Rightarrow> nat \<Rightarrow> nat" where
  "ld64 m a = le_val (rd_range m a 8)"

definition st64 :: "memory \<Rightarrow> nat \<Rightarrow> nat \<Rightarrow> memory" where
  "st64 m a v = wr_range m a (le_bytes 8 v)"

lemma length_rd_range [simp]: "length (rd_range m a n) = n"
  by (simp add: rd_range_def)

lemma rd_range_cong:
  "(\<And>i. a \<le> i \<Longrightarrow> i < a + n \<Longrightarrow> m i = m' i) \<Longrightarrow> rd_range m a n = rd_range m' a n"
  by (simp add: rd_range_def)

lemma rd_range_wr_same: "n = length bs \<Longrightarrow> rd_range (wr_range m a bs) a n = bs"
  by (rule nth_equalityI) (simp_all add: rd_range_def wr_range_def)

lemma rd_range_append: "rd_range m a (n + k) = rd_range m a n @ rd_range m (a + n) k"
  by (rule nth_equalityI) (auto simp: rd_range_def nth_append add.assoc)

lemma wr_range_outside: "i < a \<or> a + length bs \<le> i \<Longrightarrow> wr_range m a bs i = m i"
  by (auto simp: wr_range_def)

lemma wr_range_at: "j < length bs \<Longrightarrow> wr_range m a bs (a + j) = bs ! j"
  by (simp add: wr_range_def)

lemma ld64_bound: "ld64 m a < size_max"
  using le_val_bound [of "rd_range m a 8"] by (simp add: ld64_def)

lemma ld64_st64_same: "v < size_max \<Longrightarrow> ld64 (st64 m a v) a = v"
  by (simp add: ld64_def st64_def rd_range_wr_same le_val_le_bytes)

lemma st64_outside: "i < a \<or> a + 8 \<le> i \<Longrightarrow> st64 m a v i = m i"
  by (simp add: st64_def wr_range_outside)

lemma ld64_cong: "(\<And>i. a \<le> i \<Longrightarrow> i < a + 8 \<Longrightarrow> m i = m' i) \<Longrightarrow> ld64 m a = ld64 m' a"
  unfolding ld64_def by (metis rd_range_cong)

lemma ld64_st64_other: "a + 8 \<le> b \<or> b + 8 \<le> a \<Longrightarrow> ld64 (st64 m b v) a = ld64 m a"
  by (rule ld64_cong) (auto intro!: st64_outside)

lemma ld64_wr_range_other:
  "a + 8 \<le> b \<or> b + length bs \<le> a \<Longrightarrow> ld64 (wr_range m b bs) a = ld64 m a"
  by (rule ld64_cong) (auto intro!: wr_range_outside)


section \<open>Signed and unsigned readings\<close>

text \<open>A \<open>tint32\<close> read as a number that is not negative, and 16 bit values widened to 32 bits.\<close>

lemma sint32_uint:
  assumes "uint (v :: 32 word) < 2 ^ 31"
  shows "sint v = uint v"
proof -
  have "- (2 ^ 31) \<le> uint v" by (rule order_trans [OF _ uint_nonnegative]) simp
  then have "signed_take_bit 31 (uint v) = uint v"
    using assms by (simp add: signed_take_bit_int_eq_self_iff)
  then show ?thesis by (simp add: sint_uint)
qed

lemma sint_small: "n < 2 ^ 31 \<Longrightarrow> sint (word_of_nat n :: 32 word) = int n"
proof -
  assume n: "n < 2 ^ 31"
  then have "unat (word_of_nat n :: 32 word) = n" by (intro unat_of_nat_small) simp
  then have u: "uint (word_of_nat n :: 32 word) = int n" unfolding uint_nat by simp
  then have "uint (word_of_nat n :: 32 word) < 2 ^ 31" using n by simp
  then show ?thesis using u by (simp only: sint32_uint)
qed

lemma uint32_sint:
  assumes "0 \<le> sint (v :: 32 word)"
  shows "uint v = sint v"
proof -
  have "sint v < 2 ^ 31" using sint_less [of v] by simp
  then have "take_bit 32 (sint v) = sint v" using assms by (simp add: take_bit_int_eq_self_iff)
  then show ?thesis by (simp add: uint_sint)
qed

lemma uint_ucast_up16: "uint (ucast (n :: 16 word) :: 32 word) = uint n"
proof -
  have "uint n < 2 ^ 32" using uint_bounded [of n] by simp
  then have "take_bit 32 (uint n) = uint n" by (simp add: take_bit_int_eq_self_iff)
  then show ?thesis by (simp add: unsigned_ucast_eq)
qed

lemma unat_ucast_up16: "unat (ucast (n :: 16 word) :: 32 word) = unat n"
  unfolding unat_eq_nat_uint by (simp only: uint_ucast_up16)

lemma sint_ucast_up16: "sint (ucast (n :: 16 word) :: 32 word) = uint n"
  using sint32_uint [of "ucast n"] uint_ucast_up16 [of n] uint_bounded [of n] by simp

lemma uint_ucast_down16:
  assumes "0 \<le> sint (v :: 32 word)" "sint v < 65536"
  shows "uint (ucast v :: 16 word) = sint v"
proof -
  have "take_bit 16 (uint v) = uint v"
    using assms uint32_sint [OF assms(1)] by (simp add: take_bit_int_eq_self_iff)
  then show ?thesis using uint32_sint [OF assms(1)] by (simp add: unsigned_ucast_eq)
qed

lemma ucast16_of_nat: "ucast (word_of_nat n :: 32 word) = (word_of_nat n :: 16 word)"
  by (rule word_unat_eq_iff [THEN iffD2]) (simp add: unsigned_ucast_eq unsigned_of_nat take_bit_take_bit)

section \<open>Words as bytes, and buffers\<close>

definition bytes16 :: "16 word \<Rightarrow> tbyte list" where
  "bytes16 v = le_bytes 2 (unat v)"

definition bytes32 :: "32 word \<Rightarrow> tbyte list" where
  "bytes32 v = le_bytes 4 (unat v)"

definition word16_at :: "tbyte list \<Rightarrow> nat \<Rightarrow> 16 word" where
  "word16_at bs i = word_of_nat (le_val (take 2 (drop i bs)))"

definition word32_at :: "tbyte list \<Rightarrow> nat \<Rightarrow> 32 word" where
  "word32_at bs i = word_of_nat (le_val (take 4 (drop i bs)))"

lemma length_bytes16 [simp]: "length (bytes16 v) = 2"
  by (simp add: bytes16_def)

lemma length_bytes32 [simp]: "length (bytes32 v) = 4"
  by (simp add: bytes32_def)

lemma word16_bytes16 [bytes_simps]: "take 2 (drop i bs) = bytes16 v \<Longrightarrow> word16_at bs i = v"
  using unsigned_less [of v, where 'a = nat] by (simp add: word16_at_def bytes16_def le_val_le_bytes)

lemma word32_bytes32 [bytes_simps]: "take 4 (drop i bs) = bytes32 v \<Longrightarrow> word32_at bs i = v"
  using unsigned_less [of v, where 'a = nat] by (simp add: word32_at_def bytes32_def le_val_le_bytes)

text \<open>Writing a range of a buffer; \<open>None\<close> when the range is not inside it.\<close>

definition buf_write :: "'a list \<Rightarrow> nat \<Rightarrow> 'a list \<Rightarrow> 'a list option" where
  "buf_write buf off bs =
     (if off + length bs \<le> length buf then Some (take off buf @ bs @ drop (off + length bs) buf) else None)"

lemma buf_write_length: "buf_write buf off bs = Some buf' \<Longrightarrow> length buf' = length buf"
  by (auto simp: buf_write_def split: if_splits)

lemma buf_write_inside:
  "buf_write buf off bs = Some buf' \<Longrightarrow> take (length bs) (drop off buf') = bs"
  by (auto simp: buf_write_def split: if_splits)

lemma buf_write_before:
  "buf_write buf off bs = Some buf' \<Longrightarrow> i + n \<le> off \<Longrightarrow> take n (drop i buf') = take n (drop i buf)"
  by (auto simp: buf_write_def take_drop min_def split: if_splits)

lemma buf_write_after:
  "buf_write buf off bs = Some buf' \<Longrightarrow> off + length bs \<le> i \<Longrightarrow> drop i buf' = drop i buf"
  by (auto simp: buf_write_def split: if_splits)

end
