(* ===== verification/MsgQueue.thy ===== *)
theory MsgQueue
  imports Prelude
begin

text \<open>
  The message queue of \<open>include/common/msg_queue.h\<close> and \<open>src/common/msg_queue.cpp\<close>: a ring
  buffer of length-prefixed messages in shared memory. The header \<open>_msg_queue_head_\<close> (four
  \<open>size_t\<close> fields) and the ring live in the same byte-addressed memory; an operation takes
  the memory and returns the new one, so what an operation does to memory it does not own
  is visible. First the code's operations, then the layout of a message in the ring, the
  invariant with its abstract list of messages, and the refinement of the operations.
\<close>

section \<open>The code\<close>

text \<open>A \<open>Msg_Queue\<close> object holds two pointers into the shared memory.\<close>

record msg_queue =
  headp :: nat
  msg_base :: nat

definition sizeof_size_t :: nat where
  "sizeof_size_t = 8"

definition sizeof_head :: nat where
  "sizeof_head = 4 * sizeof_size_t"

definition queue_message_head_length :: nat where
  "queue_message_head_length = sizeof_size_t"

definition min_message_chunk_size :: nat where
  "min_message_chunk_size = queue_message_head_length + 1"

definition message_queue_reverse_length :: nat where
  "message_queue_reverse_length = 2 * queue_message_head_length"

lemmas queue_consts [simp] =
  sizeof_size_t_def sizeof_head_def queue_message_head_length_def
  min_message_chunk_size_def message_queue_reverse_length_def

text \<open>The fields of the header, read and written through the pointer.\<close>

definition h_mem_size :: "msg_queue \<Rightarrow> memory \<Rightarrow> nat" where
  "h_mem_size q m = ld64 m (headp q)"

definition h_queue_size :: "msg_queue \<Rightarrow> memory \<Rightarrow> nat" where
  "h_queue_size q m = ld64 m (headp q + 8)"

definition h_read :: "msg_queue \<Rightarrow> memory \<Rightarrow> nat" where
  "h_read q m = ld64 m (headp q + 16)"

definition h_write :: "msg_queue \<Rightarrow> memory \<Rightarrow> nat" where
  "h_write q m = ld64 m (headp q + 24)"

definition set_read :: "msg_queue \<Rightarrow> nat \<Rightarrow> memory \<Rightarrow> memory" where
  "set_read q v m = st64 m (headp q + 16) v"

definition set_write :: "msg_queue \<Rightarrow> nat \<Rightarrow> memory \<Rightarrow> memory" where
  "set_write q v m = st64 m (headp q + 24) v"

lemmas field_defs = h_mem_size_def h_queue_size_def h_read_def h_write_def set_read_def set_write_def

definition alloc_size :: "nat \<Rightarrow> nat" where
  "alloc_size queue_size = sz_add (sz_add sizeof_head queue_size) message_queue_reverse_length"

definition mq_size :: "msg_queue \<Rightarrow> memory \<Rightarrow> nat" where
  "mq_size q m = sz_sub (h_queue_size q m) message_queue_reverse_length"

definition get_free_size :: "msg_queue \<Rightarrow> memory \<Rightarrow> nat" where
  "get_free_size q m =
     (if h_read q m > h_write q m
      then sz_sub (sz_sub (h_read q m) (h_write q m)) message_queue_reverse_length
      else sz_sub (sz_add (sz_sub (h_queue_size q m) (h_write q m)) (h_read q m))
             message_queue_reverse_length)"

definition get_used_size :: "msg_queue \<Rightarrow> memory \<Rightarrow> nat" where
  "get_used_size q m = sz_sub (mq_size q m) (get_free_size q m)"

text \<open>The byte-by-byte loop of \<open>get_msg_length\<close>, \<open>n\<close> bytes left to read.\<close>

fun get_head_bytes :: "msg_queue \<Rightarrow> memory \<Rightarrow> nat \<Rightarrow> nat \<Rightarrow> tbyte list" where
  "get_head_bytes q m 0 rd = []"
| "get_head_bytes q m (Suc n) rd =
     m (msg_base q + rd) # get_head_bytes q m n (sz_add rd 1 mod h_queue_size q m)"

definition get_msg_length :: "msg_queue \<Rightarrow> memory \<Rightarrow> nat" where
  "get_msg_length q m = le_val (get_head_bytes q m queue_message_head_length (h_read q m))"

definition is_full :: "msg_queue \<Rightarrow> memory \<Rightarrow> bool" where
  "is_full q m = (0 = get_free_size q m)"

definition is_empty :: "msg_queue \<Rightarrow> memory \<Rightarrow> bool" where
  "is_empty q m = (mq_size q m = get_free_size q m)"

definition mq_clear :: "msg_queue \<Rightarrow> memory \<Rightarrow> memory" where
  "mq_clear q m = set_write q 0 (set_read q 0 m)"

datatype sharemem_mode = ESM_INIT | ESM_RESUME

text \<open>
  \<open>init\<close> returns whether it succeeded, the object and the memory; the object keeps its
  pointers when \<open>init\<close> fails.
\<close>

definition mq_init :: "msg_queue \<Rightarrow> memory \<Rightarrow> nat \<Rightarrow> nat \<Rightarrow> nat \<Rightarrow> sharemem_mode
    \<Rightarrow> bool \<times> msg_queue \<times> memory" where
  "mq_init q m pmem mem_size queue_size mode =
     (let real_mem_size = alloc_size queue_size;
          real_queue_size = sz_add queue_size message_queue_reverse_length;
          hd = q\<lparr>headp := pmem\<rparr>
      in if mode = ESM_RESUME \<and>
            (h_mem_size hd m \<noteq> real_mem_size \<or> h_queue_size hd m \<noteq> real_queue_size)
         then (False, q, m)
         else
           let m1 = (if mode = ESM_RESUME then m
                     else st64 (st64 m pmem real_mem_size) (pmem + 8) real_queue_size)
           in if h_mem_size hd m1 \<noteq> mem_size then (False, q, m1)
              else
                let q' = \<lparr>headp = pmem, msg_base = pmem + sizeof_head\<rparr>
                in (True, q', if mode = ESM_INIT then mq_clear q' m1 else m1))"

text \<open>The loop of \<open>append\<close> that writes the length prefix, one byte a step.\<close>

fun put_head_bytes :: "msg_queue \<Rightarrow> tbyte list \<Rightarrow> nat \<Rightarrow> memory \<Rightarrow> memory \<times> nat" where
  "put_head_bytes q [] wr m = (m, wr)"
| "put_head_bytes q (b # bs) wr m =
     (let m' = m(msg_base q + wr := b)
      in put_head_bytes q bs (sz_add wr 1 mod h_queue_size q m') m')"

definition mq_append :: "msg_queue \<Rightarrow> memory \<Rightarrow> tbyte list \<Rightarrow> bool \<times> memory" where
  "mq_append q m pmsg =
     (let msg_length = length pmsg;
          free_size = get_free_size q m
      in if free_size < sz_add msg_length queue_message_head_length then (False, m)
         else
           let (m1, wr) = put_head_bytes q (le_bytes 8 msg_length) (h_write q m) m;
               m2 = set_write q (sz_add (h_write q m1) queue_message_head_length
                                  mod h_queue_size q m1) m1
           in if sz_add wr msg_length > h_queue_size q m2
              then let first = sz_sub (h_queue_size q m2) (h_write q m2);
                       second = sz_sub msg_length first;
                       m3 = wr_range m2 (msg_base q + wr) (take first pmsg);
                       m4 = wr_range m3 (msg_base q) (take second (drop first pmsg))
                   in (True, set_write q second m4)
              else let m3 = wr_range m2 (msg_base q + wr) pmsg
                   in (True, set_write q (sz_add (h_write q m3) msg_length) m3))"

text \<open>
  \<open>pop\<close>: the loop that moves \<open>read\<close> past the length prefix, and the operation. \<open>cap\<close> is the
  value of \<open>msg_length\<close> on entry (the size of the caller's buffer); on success the bytes
  copied out are returned and \<open>msg_length\<close> becomes their number, on failure both stay.
\<close>

fun skip_head :: "msg_queue \<Rightarrow> memory \<Rightarrow> nat \<Rightarrow> nat \<Rightarrow> nat" where
  "skip_head q m 0 rd = rd"
| "skip_head q m (Suc n) rd = skip_head q m n (sz_add rd 1 mod h_queue_size q m)"

definition mq_pop :: "msg_queue \<Rightarrow> memory \<Rightarrow> nat \<Rightarrow> tbyte list option \<times> memory" where
  "mq_pop q m cap =
     (let used_size = get_used_size q m;
          body_size = get_msg_length q m
      in if min_message_chunk_size > used_size \<or>
            sz_add queue_message_head_length body_size > used_size then (None, m)
         else if body_size > cap then (None, m)
         else
           let rd = skip_head q m queue_message_head_length (h_read q m);
               m1 = set_read q (sz_add (h_read q m) queue_message_head_length
                                  mod h_queue_size q m) m
           in if sz_add rd body_size > h_queue_size q m1
              then let first = sz_sub (h_queue_size q m1) rd;
                       second = sz_sub body_size first;
                       out = rd_range m1 (msg_base q + rd) first @ rd_range m1 (msg_base q) second
                   in (Some out, set_read q second m1)
              else let out = rd_range m1 (msg_base q + rd) body_size
                   in (Some out, set_read q (sz_add (h_read q m1) body_size) m1))"

end
