(* ===== verification/MsgQueueRefine.thy ===== *)
theory MsgQueueRefine
  imports MsgQueue
begin

text \<open>
  The layout of messages in the ring of \<open>Msg_Queue\<close>, the invariant that relates a queue in
  memory to its abstract list of messages, and the refinement: \<open>append\<close> is list append
  when the ring has room, \<open>pop\<close> takes the head, and both leave all other memory alone.
\<close>

section \<open>Cells and windows of the ring\<close>

text \<open>
  The code's positions range over \<open>0..qs\<close>, both ends included: a body that ends exactly at
  the end of the ring leaves \<open>write_\<close> (and later \<open>read_\<close>) equal to \<open>queue_size_\<close>, and the
  first byte of the next length prefix goes to that cell instead of cell 0. A window is the
  set of cells that stand for \<open>t\<close> consecutive bytes from position \<open>p\<close>.
\<close>

definition cell :: "nat \<Rightarrow> nat \<Rightarrow> nat \<Rightarrow> nat" where
  "cell qs p k = (if k = 0 then p else (p + k) mod qs)"

definition win :: "nat \<Rightarrow> nat \<Rightarrow> nat \<Rightarrow> nat set" where
  "win qs p t = {c. c \<le> qs \<and> (\<exists>k<t. c mod qs = (p + k) mod qs)}"

definition next_pos :: "nat \<Rightarrow> nat \<Rightarrow> nat \<Rightarrow> nat" where
  "next_pos qs p n = (let h = (p + 8) mod qs in if h + n > qs then h + n - qs else h + n)"

lemma cell_mod: "cell qs p k mod qs = (p + k) mod qs"
  by (simp add: cell_def)

lemma cell_le: "p \<le> qs \<Longrightarrow> 0 < qs \<Longrightarrow> cell qs p k \<le> qs"
  by (auto simp: cell_def intro: less_imp_le)

lemma cell_in_win: "k < t \<Longrightarrow> p \<le> qs \<Longrightarrow> 0 < qs \<Longrightarrow> cell qs p k \<in> win qs p t"
  by (auto simp: win_def cell_le cell_mod)

lemma win_le: "c \<in> win qs p t \<Longrightarrow> c \<le> qs"
  by (simp add: win_def)

lemma win_mod: "p mod qs = p' mod qs \<Longrightarrow> win qs p t = win qs p' t"
  unfolding win_def by (metis mod_add_left_eq)

lemma win_mono: "t \<le> t' \<Longrightarrow> win qs p t \<subseteq> win qs p t'"
  unfolding win_def using less_le_trans by blast

lemma ex_less_add_iff:
  fixes P :: "nat \<Rightarrow> bool"
  shows "(\<exists>k<u + t. P k) = ((\<exists>k<u. P k) \<or> (\<exists>k<t. P (u + k)))" (is "?l = ?r")
proof
  assume ?l
  then obtain k where k: "k < u + t" "P k" by blast
  show ?r
  proof (cases "k < u")
    case False
    with k have "k - u < t" "P (u + (k - u))" by auto
    then show ?thesis by blast
  qed (use k in blast)
next
  assume ?r
  then show ?l by (metis nat_add_left_cancel_less trans_less_add1)
qed

lemma win_split: "win qs p (u + t) = win qs p u \<union> win qs (p + u) t"
  unfolding win_def by (auto simp: ex_less_add_iff add.assoc)

lemma mod_window_inj:
  fixes p :: nat
  assumes "(p + i) mod qs = (p + j) mod qs" "i < qs" "j < qs"
  shows "i = j"
proof -
  obtain a b where "p + i + qs * a = p + j + qs * b"
    using assms(1) nat_mod_eq_iff [of "p + i" qs "p + j"] by auto
  then have "i + qs * a = j + qs * b" by simp
  then have "i mod qs = j mod qs" using nat_mod_eq_iff [of i qs j] by blast
  then show ?thesis using assms by simp
qed

lemma win_disjoint:
  assumes "u + t \<le> qs"
  shows "win qs p u \<inter> win qs (p + u) t = {}"
proof -
  have False if "i < u" "j < t" "(p + i) mod qs = (p + u + j) mod qs" for i j
    using mod_window_inj [of p i qs "u + j"] that assms by (simp add: add.assoc)
  then show ?thesis unfolding win_def by fastforce
qed

lemma cell_inj:
  assumes "cell qs p i = cell qs p j" "i < qs" "j < qs"
  shows "i = j"
  using assms mod_window_inj by (metis cell_mod)

lemma next_pos_mod: "n \<le> qs \<Longrightarrow> next_pos qs p n mod qs = (p + 8 + n) mod qs"
proof (cases "(p + 8) mod qs + n > qs")
  case True
  then have "next_pos qs p n mod qs = ((p + 8) mod qs + n) mod qs"
    by (simp add: next_pos_def Let_def le_mod_geq)
  then show ?thesis by (simp add: mod_add_left_eq)
next
  case False
  then show ?thesis by (simp add: next_pos_def Let_def mod_add_left_eq)
qed

lemma next_pos_le: "n \<le> qs \<Longrightarrow> 0 < qs \<Longrightarrow> next_pos qs p n \<le> qs"
  using mod_less_divisor [of qs "p + 8"] unfolding next_pos_def Let_def by (auto simp del: mod_less_divisor)

section \<open>Messages stored in the ring\<close>

definition stored :: "memory \<Rightarrow> nat \<Rightarrow> nat \<Rightarrow> nat \<Rightarrow> tbyte list \<Rightarrow> bool" where
  "stored m b qs p x \<longleftrightarrow>
     map (\<lambda>k. m (b + cell qs p k)) [0..<8 + length x] = le_bytes 8 (length x) @ x"

fun chain :: "memory \<Rightarrow> nat \<Rightarrow> nat \<Rightarrow> nat \<Rightarrow> tbyte list list \<Rightarrow> nat \<Rightarrow> bool" where
  "chain m b qs p [] w \<longleftrightarrow> p = w"
| "chain m b qs p (x # xs) w \<longleftrightarrow>
     stored m b qs p x \<and> chain m b qs (next_pos qs p (length x)) xs w"

fun msgs_bytes :: "tbyte list list \<Rightarrow> nat" where
  "msgs_bytes [] = 0"
| "msgs_bytes (x # xs) = 8 + length x + msgs_bytes xs"

lemma msgs_bytes_append [simp]: "msgs_bytes (xs @ ys) = msgs_bytes xs + msgs_bytes ys"
  by (induction xs) auto

lemma msgs_bytes_0_iff [simp]: "msgs_bytes xs = 0 \<longleftrightarrow> xs = []"
  by (cases xs) auto

lemma stored_cong:
  assumes "\<forall>c \<in> win qs p (8 + length x). m (b + c) = m' (b + c)" "p \<le> qs" "0 < qs"
  shows "stored m b qs p x = stored m' b qs p x"
proof -
  have "map (\<lambda>k. m (b + cell qs p k)) [0..<8 + length x] =
        map (\<lambda>k. m' (b + cell qs p k)) [0..<8 + length x]"
    using assms by (auto simp: cell_in_win)
  then show ?thesis by (simp only: stored_def)
qed

lemma chain_cong:
  assumes "\<forall>c \<in> win qs p (msgs_bytes ms). m (b + c) = m' (b + c)" "p \<le> qs" "0 < qs" "msgs_bytes ms \<le> qs"
  shows "chain m b qs p ms w = chain m' b qs p ms w"
  using assms
proof (induction ms arbitrary: p)
  case Nil
  then show ?case by simp
next
  case (Cons x xs)
  let ?n = "8 + length x"
  have w: "win qs p (msgs_bytes (x # xs)) = win qs p ?n \<union> win qs (next_pos qs p (length x)) (msgs_bytes xs)"
    using Cons.prems win_split [of qs p ?n "msgs_bytes xs"]
      win_mod [of "p + ?n" qs "next_pos qs p (length x)"] next_pos_mod [of "length x" qs p]
    by (simp add: add.assoc)
  have "stored m b qs p x = stored m' b qs p x"
    using Cons.prems w by (intro stored_cong) auto
  moreover have "chain m b qs (next_pos qs p (length x)) xs w =
      chain m' b qs (next_pos qs p (length x)) xs w"
    using Cons.prems w by (intro Cons.IH) (auto intro: next_pos_le)
  ultimately show ?case by simp
qed

lemma chain_append:
  "chain m b qs p (xs @ ys) w \<longleftrightarrow> (\<exists>v. chain m b qs p xs v \<and> chain m b qs v ys w)"
  by (induction xs arbitrary: p) auto

lemma chain_end:
  assumes "chain m b qs p ms w" "p \<le> qs" "0 < qs" "msgs_bytes ms \<le> qs"
  shows "w \<le> qs \<and> w mod qs = (p + msgs_bytes ms) mod qs"
  using assms
proof (induction ms arbitrary: p)
  case Nil
  then show ?case by simp
next
  case (Cons x xs)
  have "w \<le> qs \<and> w mod qs = (next_pos qs p (length x) + msgs_bytes xs) mod qs"
    using Cons.prems by (intro Cons.IH) (auto intro: next_pos_le)
  moreover have "(next_pos qs p (length x) + msgs_bytes xs) mod qs = (p + 8 + length x + msgs_bytes xs) mod qs"
    using Cons.prems by (intro mod_add_cong) (simp_all add: next_pos_mod)
  ultimately show ?case by (simp add: add.assoc)
qed

section \<open>The loops of the code\<close>

lemma cell_Suc: "cell qs ((p + 1) mod qs) k = (p + Suc k) mod qs"
  by (simp add: cell_def mod_add_left_eq)

lemma get_head_bytes_eq:
  assumes "h_queue_size q m = qs" "0 < qs" "qs + 1 < size_max" "rd \<le> qs"
  shows "get_head_bytes q m n rd = map (\<lambda>k. m (msg_base q + cell qs rd k)) [0..<n]"
  using assms(4)
proof (induction n arbitrary: rd)
  case 0
  then show ?case by simp
next
  case (Suc n)
  have "sz_add rd 1 mod h_queue_size q m = (rd + 1) mod qs"
    using assms Suc.prems by (simp add: sz_simps)
  moreover have "(rd + 1) mod qs \<le> qs" using assms(2) by (simp add: less_imp_le)
  ultimately have "get_head_bytes q m (Suc n) rd =
      m (msg_base q + rd) # map (\<lambda>k. m (msg_base q + (rd + Suc k) mod qs)) [0..<n]"
    using Suc.IH [of "(rd + 1) mod qs"] by (simp only: get_head_bytes.simps cell_Suc)
  also have "\<dots> = map (\<lambda>k. m (msg_base q + cell qs rd k)) [0..<Suc n]"
    by (simp add: cell_def map_upt_Suc del: upt_Suc)
  finally show ?case .
qed

lemma skip_head_eq:
  assumes "h_queue_size q m = qs" "0 < qs" "qs + 1 < size_max" "rd \<le> qs"
  shows "skip_head q m (Suc n) rd = (rd + Suc n) mod qs"
  using assms(4)
proof (induction n arbitrary: rd)
  case 0
  then show ?case using assms by (simp add: sz_simps)
next
  case (Suc n)
  have "sz_add rd 1 mod h_queue_size q m = (rd + 1) mod qs"
    using assms Suc.prems by (simp add: sz_simps)
  then have "skip_head q m (Suc (Suc n)) rd = skip_head q m (Suc n) ((rd + 1) mod qs)" by simp
  also have "\<dots> = ((rd + 1) mod qs + Suc n) mod qs"
    by (rule Suc.IH) (simp add: assms(2) less_imp_le)
  also have "\<dots> = (rd + 1 + Suc n) mod qs" by (rule mod_add_left_eq)
  also have "\<dots> = (rd + Suc (Suc n)) mod qs" by simp
  finally show ?case .
qed

text \<open>Writes at or above \<open>msg_base\<close> leave the header fields alone.\<close>

definition data_eq_head :: "msg_queue \<Rightarrow> memory \<Rightarrow> memory \<Rightarrow> bool" where
  "data_eq_head q m m' \<longleftrightarrow> (\<forall>a. headp q \<le> a \<and> a < headp q + 32 \<longrightarrow> m' a = m a)"

lemma data_eq_head_fields:
  assumes "data_eq_head q m m'"
  shows "h_mem_size q m' = h_mem_size q m" "h_queue_size q m' = h_queue_size q m"
    "h_read q m' = h_read q m" "h_write q m' = h_write q m"
  using assms unfolding field_defs data_eq_head_def by (auto intro!: ld64_cong)

lemma put_head_bytes_spec:
  assumes "msg_base q = headp q + 32" "h_queue_size q m = qs" "0 < qs" "qs + 1 < size_max"
    and "wr \<le> qs" "length bs \<le> qs" "bs \<noteq> []"
  shows "\<exists>m'. put_head_bytes q bs wr m = (m', (wr + length bs) mod qs) \<and>
      (\<forall>k<length bs. m' (msg_base q + cell qs wr k) = bs ! k) \<and>
      (\<forall>a. a \<notin> (\<lambda>k. msg_base q + cell qs wr k) ` {..<length bs} \<longrightarrow> m' a = m a)"
  using assms(2,5-7)
proof (induction bs arbitrary: wr m)
  case Nil
  then show ?case by simp
next
  case (Cons b bs)
  let ?m = "m(msg_base q + wr := b)" and ?w = "(wr + 1) mod qs"
  have hq: "h_queue_size q ?m = qs"
  proof -
    have "ld64 ?m (headp q + 8) = ld64 m (headp q + 8)"
      by (rule ld64_cong) (use assms(1) in simp)
    then show ?thesis using Cons.prems(1) by (simp add: h_queue_size_def)
  qed
  have step: "put_head_bytes q (b # bs) wr m = put_head_bytes q bs ?w ?m"
    using hq Cons.prems assms by (simp add: sz_simps)
  show ?case
  proof (cases "bs = []")
    case True
    then show ?thesis using step by (auto simp: cell_def)
  next
    case False
    have w: "?w \<le> qs" using assms(3) by (simp add: less_imp_le)
    have len: "length bs \<le> qs" using Cons.prems by simp
    then obtain m' where m': "put_head_bytes q bs ?w ?m = (m', (?w + length bs) mod qs)"
        "\<forall>k<length bs. m' (msg_base q + cell qs ?w k) = bs ! k"
        "\<forall>a. a \<notin> (\<lambda>k. msg_base q + cell qs ?w k) ` {..<length bs} \<longrightarrow> m' a = ?m a"
      using Cons.IH [OF hq w len False] by blast
    have c: "cell qs ?w k = cell qs wr (Suc k)" for k
      by (simp only: cell_Suc) (simp add: cell_def)
    have "wr \<noteq> cell qs wr (Suc k)" if "k < length bs" for k
      using cell_inj [of qs wr 0 "Suc k"] that Cons.prems by (auto simp: cell_def)
    then have "msg_base q + wr \<notin> (\<lambda>k. msg_base q + cell qs ?w k) ` {..<length bs}"
      using c by auto
    then have "m' (msg_base q + wr) = b" using m'(3) by simp
    then have "\<forall>k<length (b # bs). m' (msg_base q + cell qs wr k) = (b # bs) ! k"
      using m'(2) c by (auto simp: less_Suc_eq_0_disj) (simp add: cell_def)
    moreover have "m' a = m a"
      if "a \<notin> (\<lambda>k. msg_base q + cell qs wr k) ` {..<length (b # bs)}" for a
    proof -
      have "a \<noteq> msg_base q + wr" using that by (auto simp: cell_def)
      moreover have "a \<notin> (\<lambda>k. msg_base q + cell qs ?w k) ` {..<length bs}"
        using that c by auto
      ultimately show ?thesis using m'(3) by simp
    qed
    ultimately show ?thesis using step m'(1) by (auto simp: mod_add_left_eq)
  qed
qed

lemma body_write_spec:
  assumes "h < qs" "length x \<le> qs"
    and "m' = (if h + length x > qs
           then wr_range (wr_range m (b + h) (take (qs - h) x)) b (drop (qs - h) x)
           else wr_range m (b + h) x)"
  shows "\<forall>i<length x. m' (b + (h + i) mod qs) = x ! i"
    and "\<forall>a. a \<notin> (\<lambda>i. b + (h + i) mod qs) ` {..<length x} \<longrightarrow> m' a = m a"
proof -
  have wrap: "(h + i) mod qs = (if h + i < qs then h + i else h + i - qs)" if "i < length x" for i
    using that assms(1,2) by (simp add: le_mod_geq)
  show "\<forall>i<length x. m' (b + (h + i) mod qs) = x ! i"
  proof (intro allI impI)
    fix i assume i: "i < length x"
    show "m' (b + (h + i) mod qs) = x ! i"
    proof (cases "h + i < qs")
      case True
      moreover have "\<not> b + (h + i) < b + (length x + h) - qs" using assms(2) by arith
      ultimately show ?thesis using i assms wrap [OF i]
        by (cases "h + length x > qs") (simp_all add: wr_range_def)
    next
      case False
      define j where "j = i - (qs - h)"
      have j: "i = qs - h + j" "h + length x > qs" "j < length x - (qs - h)" "(h + i) mod qs = j"
        using False i assms(1) wrap [OF i] by (auto simp: j_def)
      have "m' (b + j) = drop (qs - h) x ! j"
        using j(2,3) assms(1,3) by (simp add: wr_range_at)
      then show ?thesis using j i by simp
    qed
  qed
  show "\<forall>a. a \<notin> (\<lambda>i. b + (h + i) mod qs) ` {..<length x} \<longrightarrow> m' a = m a"
  proof (intro allI impI)
    fix a assume a: "a \<notin> (\<lambda>i. b + (h + i) mod qs) ` {..<length x}"
    have *: "a \<noteq> b + (h + i) mod qs" if "i < length x" for i
      using a that by blast
    have 1: "\<not> (b + h \<le> a \<and> a < b + h + length x \<and> a < b + qs)"
    proof
      assume as: "b + h \<le> a \<and> a < b + h + length x \<and> a < b + qs"
      then have "a - (b + h) < length x" "h + (a - (b + h)) < qs" by auto
      moreover from this have "(h + (a - (b + h))) mod qs = a - b" using as by simp
      ultimately show False using * [of "a - (b + h)"] as by simp
    qed
    have 2: "\<not> (b \<le> a \<and> a < b + (h + length x - qs))"
    proof
      assume as: "b \<le> a \<and> a < b + (h + length x - qs)"
      then have l: "a - b + qs - h < length x" "\<not> h + (a - b + qs - h) < qs"
        "h + (a - b + qs - h) - qs = a - b" using assms(1) by auto
      then have "(h + (a - b + qs - h)) mod qs = a - b" using wrap [OF l(1)] by simp
      then show False using * [OF l(1)] as by simp
    qed
    show "m' a = m a"
    proof (cases "h + length x > qs")
      case True
      have "wr_range m (b + h) (take (qs - h) x) a = m a"
        using 1 True by (intro wr_range_outside) auto
      moreover have "wr_range mm b (drop (qs - h) x) a = mm a" for mm
        using 2 True assms(1) by (intro wr_range_outside) auto
      ultimately show ?thesis using True assms(3) by simp
    next
      case False
      then have "wr_range m (b + h) x a = m a" using 1 by (intro wr_range_outside) auto
      then show ?thesis using False assms(3) by simp
    qed
  qed
qed

section \<open>The invariant and the abstract queue\<close>

definition mq_inv :: "msg_queue \<Rightarrow> memory \<Rightarrow> tbyte list list \<Rightarrow> bool" where
  "mq_inv q m ms \<longleftrightarrow>
     msg_base q = headp q + sizeof_head \<and>
     2 * h_queue_size q m < size_max \<and>
     h_read q m \<le> h_queue_size q m \<and>
     message_queue_reverse_length + msgs_bytes ms \<le> h_queue_size q m \<and>
     chain m (msg_base q) (h_queue_size q m) (h_read q m) ms (h_write q m)"

text \<open>
  The messages can be read back from the memory: \<open>t\<close> is the number of bytes in use, and a
  message takes at least eight of them.
\<close>

function ring_msgs :: "memory \<Rightarrow> nat \<Rightarrow> nat \<Rightarrow> nat \<Rightarrow> nat \<Rightarrow> tbyte list list" where
  "ring_msgs m b qs p t =
     (if t < 8 then []
      else let n = le_val (map (\<lambda>k. m (b + cell qs p k)) [0..<8])
           in if t < 8 + n then []
              else map (\<lambda>k. m (b + cell qs p k)) [8..<8 + n]
                     # ring_msgs m b qs (next_pos qs p n) (t - (8 + n)))"
  by pat_completeness auto
termination
  by (relation "measure (\<lambda>(m, b, qs, p, t). t)") auto

declare ring_msgs.simps [simp del]

definition mq_contents :: "msg_queue \<Rightarrow> memory \<Rightarrow> tbyte list list" where
  "mq_contents q m =
     ring_msgs m (msg_base q) (h_queue_size q m) (h_read q m) (get_used_size q m)"

definition mq_ok :: "msg_queue \<Rightarrow> memory \<Rightarrow> bool" where
  "mq_ok q m \<longleftrightarrow> mq_inv q m (mq_contents q m)"

definition mq_capacity :: "msg_queue \<Rightarrow> memory \<Rightarrow> nat" where
  "mq_capacity q m = mq_size q m"

lemma stored_header:
  assumes "stored m b qs p x" "length x < size_max"
  shows "le_val (map (\<lambda>k. m (b + cell qs p k)) [0..<8]) = length x"
    and "map (\<lambda>k. m (b + cell qs p k)) [8..<8 + length x] = x"
proof -
  let ?f = "\<lambda>k. m (b + cell qs p k)"
  have split: "map ?f [0..<8 + length x] = map ?f [0..<8] @ map ?f [8..<8 + length x]"
    by (metis map_append upt_add_eq_append zero_le)
  from assms(1) have eq: "map ?f [0..<8] @ map ?f [8..<8 + length x] = le_bytes 8 (length x) @ x"
    unfolding stored_def split .
  then have "map ?f [0..<8] = le_bytes 8 (length x)" and "map ?f [8..<8 + length x] = x"
    by (simp_all add: append_eq_append_conv)
  then show "le_val (map ?f [0..<8]) = length x" and "map ?f [8..<8 + length x] = x"
    using assms(2) by (simp_all add: le_val_le_bytes)
qed

lemma ring_msgs_chain:
  assumes "chain m b qs p ms w" "msgs_bytes ms < size_max"
  shows "ring_msgs m b qs p (msgs_bytes ms) = ms"
  using assms
proof (induction ms arbitrary: p)
  case Nil
  then show ?case by (simp add: ring_msgs.simps)
next
  case (Cons x xs)
  have "stored m b qs p x" "length x < size_max" using Cons.prems by auto
  note st = stored_header [OF this]
  have "ring_msgs m b qs (next_pos qs p (length x)) (msgs_bytes xs) = xs"
    using Cons.prems by (intro Cons.IH) auto
  then show ?case using st by (subst ring_msgs.simps) (simp add: Let_def)
qed

lemma chain_free:
  assumes "chain m b qs r ms w" "r \<le> qs" "16 + msgs_bytes ms \<le> qs"
  shows "if r > w then r - w = qs - msgs_bytes ms else w - r = msgs_bytes ms"
proof -
  have we: "w \<le> qs" "w mod qs = (r + msgs_bytes ms) mod qs"
    using chain_end [OF assms(1,2)] assms(3) by auto
  show ?thesis
  proof (cases "ms = []")
    case True
    then show ?thesis using assms(1) by simp
  next
    case False
    then have t: "0 < msgs_bytes ms" by (cases ms) auto
    show ?thesis
    proof (cases "r + msgs_bytes ms < qs")
      case True
      then have "w mod qs = r + msgs_bytes ms" using we by simp
      then have "w = r + msgs_bytes ms" using we(1) t by (cases "w = qs") auto
      then show ?thesis by simp
    next
      case False
      then have "(r + msgs_bytes ms) mod qs = (r + msgs_bytes ms - qs) mod qs" by (simp add: le_mod_geq)
      moreover have "r + msgs_bytes ms - qs < qs" using assms(2,3) by simp
      ultimately have "w mod qs = r + msgs_bytes ms - qs" using we(2) by simp
      then consider "w = r + msgs_bytes ms - qs" | "w = qs" "r + msgs_bytes ms = qs"
        using we(1) False by (cases "w = qs") auto
      then show ?thesis using False assms(2,3) t by cases auto
    qed
  qed
qed

lemma mq_inv_sizes:
  assumes "mq_inv q m ms"
  shows "get_free_size q m = h_queue_size q m - 16 - msgs_bytes ms"
    and "get_used_size q m = msgs_bytes ms"
    and "mq_size q m = h_queue_size q m - 16"
    and "mq_contents q m = ms"
    and "h_write q m \<le> h_queue_size q m"
    and "h_write q m mod h_queue_size q m = (h_read q m + msgs_bytes ms) mod h_queue_size q m"
proof -
  define qs r w where "qs = h_queue_size q m" and "r = h_read q m" and "w = h_write q m"
  note d = qs_def [symmetric] r_def [symmetric] w_def [symmetric]
  have i: "2 * qs < size_max" "r \<le> qs" "16 + msgs_bytes ms \<le> qs" "chain m (msg_base q) qs r ms w"
    using assms by (auto simp: mq_inv_def d)
  have e: "w \<le> qs \<and> w mod qs = (r + msgs_bytes ms) mod qs"
    using i by (intro chain_end [OF i(4)]) auto
  then show "h_write q m \<le> h_queue_size q m"
    and "h_write q m mod h_queue_size q m = (h_read q m + msgs_bytes ms) mod h_queue_size q m"
    by (simp_all add: d)
  have f: "if r > w then r - w = qs - msgs_bytes ms else w - r = msgs_bytes ms"
    using chain_free [OF i(4,2,3)] .
  show free: "get_free_size q m = h_queue_size q m - 16 - msgs_bytes ms"
    using i(1-3) e f by (auto simp: get_free_size_def d sz_simps split: if_splits)
  show size: "mq_size q m = h_queue_size q m - 16"
    using i(1,3) by (simp add: mq_size_def d sz_simps)
  show used: "get_used_size q m = msgs_bytes ms"
    using i(1,3) by (simp add: get_used_size_def free size) (simp add: d sz_simps)
  show "mq_contents q m = ms"
    using i unfolding mq_contents_def used d by (intro ring_msgs_chain) auto
qed

section \<open>Refinement of append\<close>

text \<open>Everything \<open>append\<close> writes when there is room: the new memory, in one place.\<close>

lemma set_write_fields:
  assumes "v < size_max"
  shows "h_write q (set_write q v m) = v" "h_queue_size q (set_write q v m) = h_queue_size q m"
    "h_read q (set_write q v m) = h_read q m" "h_mem_size q (set_write q v m) = h_mem_size q m"
  using assms by (simp_all add: field_defs ld64_st64_same ld64_st64_other)

lemma set_read_fields:
  assumes "v < size_max"
  shows "h_read q (set_read q v m) = v" "h_queue_size q (set_read q v m) = h_queue_size q m"
    "h_write q (set_read q v m) = h_write q m" "h_mem_size q (set_read q v m) = h_mem_size q m"
  using assms by (simp_all add: field_defs ld64_st64_same ld64_st64_other)

definition body_mem :: "memory \<Rightarrow> nat \<Rightarrow> nat \<Rightarrow> nat \<Rightarrow> tbyte list \<Rightarrow> memory" where
  "body_mem m b qs h x =
     (if h + length x > qs
      then wr_range (wr_range m (b + h) (take (qs - h) x)) b (drop (qs - h) x)
      else wr_range m (b + h) x)"

lemma body_mem_fields:
  assumes "headp q + 32 \<le> b"
  shows "h_write q (body_mem m b qs h x) = h_write q m"
    and "h_queue_size q (body_mem m b qs h x) = h_queue_size q m"
    and "h_read q (body_mem m b qs h x) = h_read q m"
  using assms by (simp_all add: body_mem_def field_defs ld64_wr_range_other)

lemma mq_append_mem:
  assumes inv: "mq_inv q m ms" and room: "msgs_bytes ms + 8 + length x + 16 \<le> h_queue_size q m"
  obtains m1 where
    "put_head_bytes q (le_bytes 8 (length x)) (h_write q m) m =
       (m1, (h_write q m + 8) mod h_queue_size q m)"
    "\<forall>k<8. m1 (msg_base q + cell (h_queue_size q m) (h_write q m) k) = le_bytes 8 (length x) ! k"
    "\<forall>a. a \<notin> (\<lambda>k. msg_base q + cell (h_queue_size q m) (h_write q m) k) ` {..<8} \<longrightarrow> m1 a = m a"
    "data_eq_head q m m1"
    "mq_append q m x =
       (True, set_write q (next_pos (h_queue_size q m) (h_write q m) (length x))
          (body_mem (set_write q ((h_write q m + 8) mod h_queue_size q m) m1) (msg_base q)
             (h_queue_size q m) ((h_write q m + 8) mod h_queue_size q m) x))"
proof -
  define qs w n h where "qs = h_queue_size q m" and "w = h_write q m" and "n = length x"
    and "h = (w + 8) mod qs"
  note d = qs_def [symmetric] w_def [symmetric] n_def [symmetric]
  have i: "msg_base q = headp q + 32" "2 * qs < size_max" "24 + n \<le> qs" "w \<le> qs"
    using inv room mq_inv_sizes(5) [OF inv] by (auto simp: mq_inv_def d)
  then have qpos: "0 < qs" and hlt: "h < qs" by (auto simp: h_def)
  obtain m1 where m1: "put_head_bytes q (le_bytes 8 n) w m = (m1, h)"
      "\<forall>k<8. m1 (msg_base q + cell qs w k) = le_bytes 8 n ! k"
      "\<forall>a. a \<notin> (\<lambda>k. msg_base q + cell qs w k) ` {..<8} \<longrightarrow> m1 a = m a"
  proof -
    have ne: "le_bytes 8 n \<noteq> []" by (metis length_le_bytes list.size(3) zero_neq_numeral)
    have "\<exists>m'. put_head_bytes q (le_bytes 8 n) w m = (m', (w + length (le_bytes 8 n)) mod qs) \<and>
      (\<forall>k<length (le_bytes 8 n). m' (msg_base q + cell qs w k) = le_bytes 8 n ! k) \<and>
      (\<forall>a. a \<notin> (\<lambda>k. msg_base q + cell qs w k) ` {..<length (le_bytes 8 n)} \<longrightarrow> m' a = m a)"
      by (rule put_head_bytes_spec) (use i qpos ne in \<open>simp_all add: d\<close>)
    then show ?thesis using that unfolding length_le_bytes h_def by blast
  qed
  have eqh: "data_eq_head q m m1"
    unfolding data_eq_head_def
  proof (intro allI impI)
    fix a assume "headp q \<le> a \<and> a < headp q + 32"
    then have "a \<notin> (\<lambda>k. msg_base q + cell qs w k) ` {..<8}" using i(1) by auto
    then show "m1 a = m a" using m1(3) by blast
  qed
  note f1 = data_eq_head_fields [OF eqh, unfolded d]
  define m2 where "m2 = set_write q h m1"
  have "h < size_max" using hlt i(2) by simp
  note f2 = set_write_fields [OF this, of q m1, folded m2_def, unfolded f1]
  have free: "\<not> get_free_size q m < sz_add n queue_message_head_length"
    using mq_inv_sizes(1) [OF inv] room i by (simp add: d sz_simps)
  have res: "mq_append q m x =
      (True, set_write q (next_pos qs w n) (body_mem m2 (msg_base q) qs h x))"
  proof (cases "h + n > qs")
    case True
    have "take (h + n - qs) (drop (qs - h) x) = drop (qs - h) x"
      using hlt by (simp add: n_def)
    moreover have "sz_sub (h_queue_size q m2) (h_write q m2) = qs - h" "sz_sub n (qs - h) = h + n - qs"
      "sz_add h n = h + n" "sz_add w 8 = w + 8"
      using f2 i hlt True by (auto simp: sz_simps)
    ultimately show ?thesis
      using free m1(1) f1 f2 True
      by (simp add: mq_append_def d m2_def [symmetric] h_def [symmetric] body_mem_def next_pos_def
          Let_def)
  next
    case False
    have "sz_add h n = h + n" "sz_add w 8 = w + 8" using i hlt by (auto simp: sz_simps)
    moreover have "h_write q (wr_range m2 (msg_base q + h) x) = h"
      using f2 i(1) by (simp add: field_defs ld64_wr_range_other)
    ultimately show ?thesis
      using free m1(1) f1 f2 False
      by (simp add: mq_append_def d m2_def [symmetric] h_def [symmetric] body_mem_def next_pos_def
          Let_def)
  qed
  show ?thesis
    by (rule that [of m1]) (use m1 eqh res in \<open>simp_all add: d h_def m2_def\<close>)
qed

text \<open>
  The refinement of \<open>append\<close>: with room it succeeds and adds the message at the end, keeps the
  invariant, and changes only the ring, its extra cell and the \<open>write_\<close> field.
\<close>

definition owned :: "msg_queue \<Rightarrow> memory \<Rightarrow> nat set" where
  "owned q m = {headp q + 16..<headp q + 32} \<union> {msg_base q..msg_base q + h_queue_size q m}"

lemma mq_append_ok:
  assumes inv: "mq_inv q m ms" and room: "msgs_bytes ms + 8 + length x + 16 \<le> h_queue_size q m"
  shows "fst (mq_append q m x) \<and> mq_inv q (snd (mq_append q m x)) (ms @ [x]) \<and>
    h_queue_size q (snd (mq_append q m x)) = h_queue_size q m \<and>
    (\<forall>a. a \<notin> owned q m \<longrightarrow> snd (mq_append q m x) a = m a)"
proof -
  define qs w r n h b where "qs = h_queue_size q m" and "w = h_write q m" and "r = h_read q m"
    and "n = length x" and "h = (w + 8) mod qs" and "b = msg_base q"
  note d = qs_def [symmetric] w_def [symmetric] r_def [symmetric] n_def [symmetric] b_def [symmetric]
    h_def [symmetric]
  have i: "b = headp q + 32" "2 * qs < size_max" "24 + n \<le> qs" "msgs_bytes ms + 24 + n \<le> qs" "w \<le> qs"
      "r \<le> qs" "chain m b qs r ms w" "w mod qs = (r + msgs_bytes ms) mod qs"
    using inv room mq_inv_sizes(5,6) [OF inv] by (auto simp: mq_inv_def d)
  then have qpos: "0 < qs" and hlt: "h < qs" by (auto simp: h_def)
  obtain m1 where m1: "\<forall>k<8. m1 (b + cell qs w k) = le_bytes 8 n ! k"
      "\<forall>a. a \<notin> (\<lambda>k. b + cell qs w k) ` {..<8} \<longrightarrow> m1 a = m a" "data_eq_head q m m1"
      "mq_append q m x = (True, set_write q (next_pos qs w n) (body_mem (set_write q h m1) b qs h x))"
    using mq_append_mem [OF inv room] unfolding d by metis
  define m2 M where "m2 = set_write q h m1" and "M = body_mem m2 b qs h x"
  define M' where "M' = set_write q (next_pos qs w n) M"
  have res: "mq_append q m x = (True, M')" using m1(4) by (simp add: M'_def M_def m2_def)
  have bw: "\<forall>k<n. M (b + (h + k) mod qs) = x ! k"
      "\<forall>a. a \<notin> (\<lambda>k. b + (h + k) mod qs) ` {..<n} \<longrightarrow> M a = m2 a"
    using body_write_spec [of h qs x M m2 b] hlt i(3) by (simp_all add: M_def body_mem_def n_def)
  have data: "M' (b + c) = M (b + c)" "m2 (b + c) = m1 (b + c)" for c
    using i(1) by (simp_all add: M'_def m2_def set_write_def st64_outside)
  have body_cell: "(h + k) mod qs = (w + 8 + k) mod qs" for k
    by (simp add: h_def mod_add_left_eq)
  have body_win: "(h + k) mod qs \<in> win qs (w + 8) n" if "k < n" for k
    using that qpos by (auto simp: win_def body_cell less_imp_le)
  have disj: "win qs w 8 \<inter> win qs (w + 8) n = {}" using i(3) by (intro win_disjoint) simp
  have hdr: "M' (b + cell qs w k) = le_bytes 8 n ! k" if "k < 8" for k
  proof -
    have "cell qs w k \<in> win qs w 8" using that i(5) qpos by (rule cell_in_win)
    then have "b + cell qs w k \<notin> (\<lambda>k. b + (h + k) mod qs) ` {..<n}"
      using disj body_win by auto
    then show ?thesis using bw(2) data m1(1) that by simp
  qed
  have body: "M' (b + cell qs w (8 + k)) = x ! k" if "k < n" for k
    using bw(1) that data by (simp add: cell_def body_cell add.assoc)
  have st: "stored M' b qs w x"
    unfolding stored_def
  proof (rule nth_equalityI)
    fix k assume "k < length (map (\<lambda>k. M' (b + cell qs w k)) [0..<8 + length x])"
    then show "map (\<lambda>k. M' (b + cell qs w k)) [0..<8 + length x] ! k = (le_bytes 8 (length x) @ x) ! k"
      using hdr body [of "k - 8"] by (cases "k < 8") (auto simp: nth_append n_def simp del: upt_Suc)
  qed simp
  have frame: "M' (b + c) = m (b + c)" if "c \<in> win qs r (msgs_bytes ms)" for c
  proof -
    have "win qs r (msgs_bytes ms) \<inter> win qs (r + msgs_bytes ms) (8 + n) = {}"
      using i(4) by (intro win_disjoint) simp
    moreover have "win qs (r + msgs_bytes ms) (8 + n) = win qs w (8 + n)"
      using i(8) by (intro win_mod) simp
    ultimately have "c \<notin> win qs w 8" "c \<notin> win qs (w + 8) n"
      using that win_split [of qs w 8 n] by auto
    then have "b + c \<notin> (\<lambda>k. b + (h + k) mod qs) ` {..<n}" "b + c \<notin> (\<lambda>k. b + cell qs w k) ` {..<8}"
      using body_win cell_in_win [OF _ i(5) qpos, of _ 8] by auto
    then show ?thesis using bw(2) data m1(2) by simp
  qed
  have "chain M' b qs r ms w"
    using i(7) chain_cong [of qs r ms M' b m w] frame i(4,6) qpos by simp
  then have ch: "chain M' b qs r (ms @ [x]) (next_pos qs w n)"
    using st by (auto simp: chain_append n_def)
  have np: "next_pos qs w n \<le> qs" using i(3) qpos by (intro next_pos_le) auto
  then have "next_pos qs w n < size_max" "h < size_max" using hlt i(2) by simp_all
  note f = set_write_fields [OF this(1), of q M, folded M'_def] set_write_fields [OF this(2), of q m1, folded m2_def]
    body_mem_fields [of q b m2 qs h x, folded M_def] data_eq_head_fields [OF m1(3)]
  have "mq_inv q M' (ms @ [x])"
    using ch f i by (simp add: mq_inv_def d)
  moreover have "M' a = m a" if "a \<notin> owned q m" for a
  proof -
    have "a \<notin> (\<lambda>k. b + (h + k) mod qs) ` {..<n}"
      using that body_win win_le unfolding owned_def d by fastforce
    moreover have "a \<notin> (\<lambda>k. b + cell qs w k) ` {..<8}"
      using that cell_le [OF i(5) qpos] unfolding owned_def d by fastforce
    moreover have "a < headp q + 24 \<or> headp q + 24 + 8 \<le> a" using that by (auto simp: owned_def)
    ultimately show ?thesis
      using bw(2) m1(2) by (simp add: M'_def m2_def set_write_def st64_outside)
  qed
  ultimately show ?thesis using res f i(1) by (simp add: d)
qed

lemma mq_append_full:
  assumes inv: "mq_inv q m ms" and full: "h_queue_size q m < msgs_bytes ms + 8 + length x + 16"
    and len: "length x + 8 < size_max"
  shows "mq_append q m x = (False, m)"
proof -
  have "get_free_size q m < sz_add (length x) queue_message_head_length"
    using mq_inv_sizes(1) [OF inv] full len inv by (simp add: sz_simps mq_inv_def)
  then show ?thesis by (simp add: mq_append_def)
qed

section \<open>Refinement of pop\<close>

text \<open>
  A single empty message is not delivered: eight bytes in use are less than
  \<open>min_message_chunk_size\<close>. It waits until another message follows it.
\<close>

fun deliverable :: "tbyte list list \<Rightarrow> bool" where
  "deliverable [] = False"
| "deliverable (x # xs) = (x \<noteq> [] \<or> xs \<noteq> [])"

lemma deliverable_bytes: "deliverable ms \<longleftrightarrow> 9 \<le> msgs_bytes ms"
proof (cases ms)
  case (Cons x xs)
  then show ?thesis by (cases x; cases xs) auto
qed simp

lemma mq_inv_head:
  assumes "mq_inv q m (x # xs)"
  shows "get_msg_length q m = length x"
proof -
  have i: "2 * h_queue_size q m < size_max" "h_read q m \<le> h_queue_size q m"
      "24 + length x \<le> h_queue_size q m"
      "stored m (msg_base q) (h_queue_size q m) (h_read q m) x"
    using assms by (auto simp: mq_inv_def)
  have "get_head_bytes q m 8 (h_read q m) =
      map (\<lambda>k. m (msg_base q + cell (h_queue_size q m) (h_read q m) k)) [0..<8]"
    by (rule get_head_bytes_eq) (use i in auto)
  moreover have "length x < size_max" using i by simp
  ultimately show ?thesis using stored_header(1) [OF i(4)] by (simp add: get_msg_length_def)
qed

lemma mq_pop_refused:
  assumes inv: "mq_inv q m ms" and ref: "\<not> deliverable ms \<or> cap < length (hd ms)"
  shows "mq_pop q m cap = (None, m)"
proof (cases "deliverable ms")
  case False
  then show ?thesis
    using mq_inv_sizes(2) [OF inv] by (simp add: mq_pop_def deliverable_bytes)
next
  case True
  then obtain x xs where ms: "ms = x # xs" by (cases ms) auto
  then have "get_msg_length q m = length x" using mq_inv_head inv by simp
  then show ?thesis using ref True ms by (auto simp: mq_pop_def Let_def)
qed

lemma stored_body:
  assumes "stored m b qs p x" "h = (p + 8) mod qs" "0 < qs" "length x \<le> qs"
  shows "(if h + length x > qs then rd_range m (b + h) (qs - h) @ rd_range m b (length x - (qs - h))
          else rd_range m (b + h) (length x)) = x"
proof -
  have h: "h < qs" using assms(2,3) by simp
  have x: "x ! k = m (b + (h + k) mod qs)" if "k < length x" for k
  proof -
    from assms(1) have "map (\<lambda>k. m (b + cell qs p k)) [0..<8 + length x] ! (8 + k) =
        (le_bytes 8 (length x) @ x) ! (8 + k)" by (simp only: stored_def)
    then have "m (b + cell qs p (8 + k)) = x ! k"
      using that by (simp add: nth_append del: upt_Suc)
    moreover have "cell qs p (8 + k) = (h + k) mod qs"
      by (simp add: cell_def assms(2) mod_add_left_eq add.assoc)
    ultimately show ?thesis by simp
  qed
  show ?thesis
  proof (rule nth_equalityI)
    show "length (if h + length x > qs then rd_range m (b + h) (qs - h) @ rd_range m b (length x - (qs - h))
          else rd_range m (b + h) (length x)) = length x" using h by auto
  next
    fix k assume "k < length (if h + length x > qs
        then rd_range m (b + h) (qs - h) @ rd_range m b (length x - (qs - h))
        else rd_range m (b + h) (length x))"
    then have k: "k < length x" using h by (auto split: if_splits)
    show "(if h + length x > qs then rd_range m (b + h) (qs - h) @ rd_range m b (length x - (qs - h))
          else rd_range m (b + h) (length x)) ! k = x ! k"
    proof (cases "h + k < qs")
      case True
      then show ?thesis using x [OF k] k h by (auto simp: rd_range_def nth_append add.assoc)
    next
      case False
      then have "(h + k) mod qs = k - (qs - h)" "h + length x > qs" "\<not> k < qs - h"
        "k - (qs - h) < length x - (qs - h)"
        using h k assms(4) by (auto simp: le_mod_geq)
      then show ?thesis using x [OF k] by (simp add: rd_range_def nth_append)
    qed
  qed
qed

lemma rd_range_set_read: "headp q + 24 \<le> a \<Longrightarrow> rd_range (set_read q v m) a n = rd_range m a n"
  by (rule rd_range_cong) (simp add: set_read_def st64_outside)

lemma mq_pop_ok:
  assumes inv: "mq_inv q m (x # xs)" and del: "deliverable (x # xs)" and cap: "length x \<le> cap"
  shows "fst (mq_pop q m cap) = Some x \<and> mq_inv q (snd (mq_pop q m cap)) xs \<and>
    h_queue_size q (snd (mq_pop q m cap)) = h_queue_size q m \<and>
    (\<forall>a. a < headp q + 16 \<or> headp q + 24 \<le> a \<longrightarrow> snd (mq_pop q m cap) a = m a)"
proof -
  define qs w r n h b where "qs = h_queue_size q m" and "w = h_write q m" and "r = h_read q m"
    and "n = length x" and "h = (r + 8) mod qs" and "b = msg_base q"
  note d = qs_def [symmetric] w_def [symmetric] r_def [symmetric] n_def [symmetric] b_def [symmetric]
    h_def [symmetric]
  have i: "b = headp q + 32" "2 * qs < size_max" "24 + n + msgs_bytes xs \<le> qs" "r \<le> qs"
      "stored m b qs r x" "chain m b qs (next_pos qs r n) xs w"
    using inv by (auto simp: mq_inv_def d)
  then have qpos: "0 < qs" and hlt: "h < qs" by (auto simp: h_def)
  have len: "get_msg_length q m = n" using mq_inv_head [OF inv] by (simp add: n_def)
  have used: "get_used_size q m = 8 + n + msgs_bytes xs"
    using mq_inv_sizes(2) [OF inv] by (simp add: n_def)
  have nine: "9 \<le> 8 + n + msgs_bytes xs" using del deliverable_bytes [of "x # xs"] by (simp add: n_def)
  have skip: "skip_head q m 8 r = h"
  proof -
    have "skip_head q m (Suc 7) r = (r + Suc 7) mod qs"
      by (rule skip_head_eq) (use i(2,4) qpos in \<open>simp_all add: d\<close>)
    then show ?thesis by (simp del: skip_head.simps add: h_def)
  qed
  define m1 where "m1 = set_read q h m"
  have hs: "h < size_max" using hlt i(2) by simp
  note f1 = set_read_fields [OF hs, of q m, folded m1_def]
  define M' where "M' = set_read q (next_pos qs r n) m1"
  have out: "(if h + n > qs then rd_range m1 (b + h) (qs - h) @ rd_range m1 b (n - (qs - h))
      else rd_range m1 (b + h) n) = x"
  proof -
    have "rd_range m1 (b + k) j = rd_range m (b + k) j" "rd_range m1 b j = rd_range m b j" for k j
      by (simp_all add: m1_def rd_range_set_read i(1))
    moreover have "length x \<le> qs" using i(3) by (simp add: n_def)
    ultimately show ?thesis using stored_body [OF i(5) h_def qpos] by (simp only: n_def)
  qed
  have chunk: "\<not> min_message_chunk_size > get_used_size q m"
    unfolding used min_message_chunk_size_def queue_message_head_length_def sizeof_size_t_def
    using nine by linarith
  have szs: "sz_add 8 n = 8 + n" "sz_add r 8 = r + 8" "sz_add h n = h + n"
    using i hlt by (simp_all add: sz_simps)
  note nine' = chunk [unfolded used] szs
  have res: "mq_pop q m cap = (Some x, M')"
  proof (cases "h + n > qs")
    case True
    have "sz_sub qs h = qs - h" "sz_sub n (qs - h) = n - (qs - h)" "n - (qs - h) = next_pos qs r n"
      using i hlt True by (auto simp: sz_simps next_pos_def h_def)
    then show ?thesis
      using nine' skip cap used len f1 out True
      by (simp add: mq_pop_def Let_def d m1_def [symmetric] M'_def)
  next
    case False
    then show ?thesis
      using nine' skip cap used len f1 out
      by (simp add: mq_pop_def Let_def d m1_def [symmetric] M'_def next_pos_def)
  qed
  have np: "next_pos qs r n \<le> qs" using i(3) qpos by (intro next_pos_le) auto
  then have nps: "next_pos qs r n < size_max" using i(2) by simp
  note f = set_read_fields [OF nps, of q m1, folded M'_def]
  have same: "M' a = m a" if "a < headp q + 16 \<or> headp q + 24 \<le> a" for a
    using that unfolding M'_def m1_def set_read_def by (elim disjE) (simp_all add: st64_outside)
  have "chain M' b qs (next_pos qs r n) xs w"
    using i(6) chain_cong [of qs "next_pos qs r n" xs M' b m w] same i(1,3) np qpos by simp
  then have "mq_inv q M' xs" using f f1 i np by (simp add: mq_inv_def d)
  then show ?thesis using res same f f1 by (simp add: d)
qed

end
