(* ===== verification/MsgFifo.thy ===== *)
theory MsgFifo
  imports MsgQueueRefine
begin

text \<open>
  What a user of a bounded message queue relies on, as an interface: an operation that adds a
  message or refuses it and one that takes the oldest message or gives none. The client's facts
  (first in first out over every sequence of operations, nothing lost, nothing invented) are
  proved once from the laws; \<open>Msg_Queue\<close> provides them over its shared memory.
\<close>

section \<open>The interface\<close>

datatype 'm fifo_op = Put 'm | Get

fun puts :: "'m fifo_op list \<Rightarrow> 'm list" where
  "puts [] = []"
| "puts (Put x # ops) = x # puts ops"
| "puts (Get # ops) = puts ops"

text \<open>A sequence of operations: the messages accepted, those delivered, and the last state.\<close>

fun fifo_run :: "('s \<Rightarrow> 'm \<Rightarrow> bool \<times> 's) \<Rightarrow> ('s \<Rightarrow> 'm option \<times> 's) \<Rightarrow> 'm fifo_op list \<Rightarrow> 's
    \<Rightarrow> 'm list \<times> 'm list \<times> 's" where
  "fifo_run enq deq [] st = ([], [], st)"
| "fifo_run enq deq (Put x # ops) st =
     (let (ok, st') = enq st x; (acc, del, st'') = fifo_run enq deq ops st'
      in (if ok then x # acc else acc, del, st''))"
| "fifo_run enq deq (Get # ops) st =
     (let (res, st') = deq st; (acc, del, st'') = fifo_run enq deq ops st'
      in (acc, (case res of None \<Rightarrow> del | Some x \<Rightarrow> x # del), st''))"

locale msg_fifo =
  fixes enq :: "'s \<Rightarrow> 'm \<Rightarrow> bool \<times> 's"
    and deq :: "'s \<Rightarrow> 'm option \<times> 's"
    and contents :: "'s \<Rightarrow> 'm list"
    and invar :: "'s \<Rightarrow> bool"
    and fair :: "'m \<Rightarrow> bool"
    and room :: "'s \<Rightarrow> 'm \<Rightarrow> bool"
    and ready :: "'s \<Rightarrow> bool"
  assumes enq_room: "invar st \<Longrightarrow> fair x \<Longrightarrow> room st x \<Longrightarrow>
      fst (enq st x) \<and> invar (snd (enq st x)) \<and> contents (snd (enq st x)) = contents st @ [x]"
    and enq_full: "invar st \<Longrightarrow> fair x \<Longrightarrow> \<not> room st x \<Longrightarrow> enq st x = (False, st)"
    and deq_ready: "invar st \<Longrightarrow> ready st \<Longrightarrow> contents st \<noteq> [] \<and>
      fst (deq st) = Some (hd (contents st)) \<and> invar (snd (deq st)) \<and>
      contents (snd (deq st)) = tl (contents st)"
    and deq_none: "invar st \<Longrightarrow> \<not> ready st \<Longrightarrow> deq st = (None, st)"
begin

lemma enq_step:
  assumes "invar st" "fair x" "enq st x = (ok, st')"
  shows "invar st' \<and> ok = room st x \<and> contents st' = contents st @ (if ok then [x] else [])"
  using enq_room [OF assms(1,2)] enq_full [OF assms(1,2)] assms by (cases "room st x") auto

lemma deq_step:
  assumes "invar st" "deq st = (res, st')"
  shows "invar st' \<and> contents st = (case res of None \<Rightarrow> [] | Some x \<Rightarrow> [x]) @ contents st'"
proof (cases "ready st")
  case True
  then have "contents st \<noteq> []" "res = Some (hd (contents st))" "contents st' = tl (contents st)"
      "invar st'"
    using deq_ready [OF assms(1)] assms(2) by auto
  then show ?thesis by simp
next
  case False
  then show ?thesis using deq_none [OF assms(1)] assms by simp
qed

lemma run_fifo:
  assumes "invar st" "list_all fair (puts ops)" "fifo_run enq deq ops st = (acc, del, st')"
  shows "invar st' \<and> contents st @ acc = del @ contents st'"
  using assms
proof (induction ops arbitrary: st acc del st')
  case Nil
  then show ?case by simp
next
  case (Cons p ops)
  show ?case
  proof (cases p)
    case (Put x)
    obtain ok st1 where e: "enq st x = (ok, st1)" by fastforce
    obtain a d s2 where r: "fifo_run enq deq ops st1 = (a, d, s2)" by (metis prod_cases3)
    have st1: "invar st1" "contents st1 = contents st @ (if ok then [x] else [])"
      using enq_step [OF _ _ e] Cons.prems Put by auto
    have "invar s2 \<and> contents st1 @ a = d @ contents s2"
      using Cons.IH [OF st1(1) _ r] Cons.prems(2) Put by simp
    then show ?thesis using Cons.prems(3) st1 e r Put by (auto split: if_splits)
  next
    case Get
    obtain res st1 where e: "deq st = (res, st1)" by fastforce
    obtain a d s2 where r: "fifo_run enq deq ops st1 = (a, d, s2)" by (metis prod_cases3)
    have st1: "invar st1" "contents st = (case res of None \<Rightarrow> [] | Some x \<Rightarrow> [x]) @ contents st1"
      using deq_step [OF _ e] Cons.prems by auto
    have "invar s2 \<and> contents st1 @ a = d @ contents s2"
      using Cons.IH [OF st1(1) _ r] Cons.prems(2) Get by simp
    then show ?thesis using Cons.prems(3) st1 e r Get by (auto split: option.splits)
  qed
qed

end

text \<open>A queue whose room is counted: each message has a weight, and the sum stays below a bound.\<close>

locale bounded_fifo = msg_fifo +
  fixes weight :: "'a \<Rightarrow> nat" and bound :: nat
  assumes room_weight: "invar st \<Longrightarrow> fair x \<Longrightarrow>
      room st x = (sum_list (map weight (contents st)) + weight x \<le> bound)"
    and within: "invar st \<Longrightarrow> sum_list (map weight (contents st)) \<le> bound"
begin

lemma room_after_get:
  assumes "invar st" "ready st" "fair x" "weight x \<le> weight (hd (contents st))"
  shows "fst (enq (snd (deq st)) x)"
proof -
  have d: "contents st \<noteq> []" "invar (snd (deq st))" "contents (snd (deq st)) = tl (contents st)"
    using deq_ready [OF assms(1,2)] by auto
  then have "sum_list (map weight (contents st)) =
      weight (hd (contents st)) + sum_list (map weight (contents (snd (deq st))))"
    by (cases "contents st") auto
  then have "room (snd (deq st)) x"
    using within [OF assms(1)] assms(4) room_weight [OF d(2) assms(3)] by simp
  then show ?thesis using enq_room [OF d(2) assms(3)] by simp
qed

lemma accepted_weight:
  assumes "invar st" "list_all fair (puts ops)" "fifo_run enq deq ops st = (acc, del, st')"
  shows "sum_list (map weight acc) \<le> bound + sum_list (map weight del)"
proof -
  have r: "invar st'" "contents st @ acc = del @ contents st'" using run_fifo [OF assms] by auto
  have "sum_list (map weight (contents st @ acc)) = sum_list (map weight (del @ contents st'))"
    by (simp only: r)
  then show ?thesis using within [OF r(1)] by simp
qed

end

section \<open>Msg_Queue provides it\<close>

text \<open>
  The invariant fixes the size the header records; the largest message that can be accepted is
  \<open>size ()\<close> less its prefix. A message longer than \<open>2 ^ 64 - 9\<close> bytes makes \<open>append\<close>'s own sum wrap.
\<close>

definition mq_valid :: "msg_queue \<Rightarrow> nat \<Rightarrow> memory \<Rightarrow> bool" where
  "mq_valid q qs m \<longleftrightarrow> mq_ok q m \<and> h_queue_size q m = qs"

definition mq_weight :: "tbyte list \<Rightarrow> nat" where
  "mq_weight x = queue_message_head_length + length x"

definition mq_fair :: "tbyte list \<Rightarrow> bool" where
  "mq_fair x \<longleftrightarrow> mq_weight x < size_max"

definition mq_room :: "msg_queue \<Rightarrow> memory \<Rightarrow> tbyte list \<Rightarrow> bool" where
  "mq_room q m x \<longleftrightarrow> sum_list (map mq_weight (mq_contents q m)) + mq_weight x \<le> mq_size q m"

definition mq_ready :: "msg_queue \<Rightarrow> nat \<Rightarrow> memory \<Rightarrow> bool" where
  "mq_ready q cap m \<longleftrightarrow> deliverable (mq_contents q m) \<and> length (hd (mq_contents q m)) \<le> cap"

lemma sum_weights: "sum_list (map mq_weight ms) = msgs_bytes ms"
  by (induction ms) (auto simp: mq_weight_def)

lemma mq_ok_I: "mq_inv q m ms \<Longrightarrow> mq_ok q m \<and> mq_contents q m = ms"
  using mq_inv_sizes(4) by (simp add: mq_ok_def)

lemma mq_valid_bytes: "mq_valid q qs m \<Longrightarrow> msgs_bytes (mq_contents q m) + 16 \<le> qs"
  by (simp add: mq_valid_def mq_ok_def mq_inv_def)

lemma mq_room_iff:
  assumes "mq_valid q qs m"
  shows "mq_room q m x \<longleftrightarrow> msgs_bytes (mq_contents q m) + 8 + length x + 16 \<le> qs"
proof -
  have "mq_size q m = qs - 16"
    using assms mq_inv_sizes(3) [of q m "mq_contents q m"] by (simp add: mq_valid_def mq_ok_def)
  then show ?thesis
    using mq_valid_bytes [OF assms] unfolding mq_room_def sum_weights by (auto simp: mq_weight_def)
qed

lemma mq_enq_room:
  assumes "mq_valid q qs m" "mq_room q m x"
  shows "fst (mq_append q m x) \<and> mq_valid q qs (snd (mq_append q m x)) \<and>
    mq_contents q (snd (mq_append q m x)) = mq_contents q m @ [x]"
proof -
  have inv: "mq_inv q m (mq_contents q m)" and size: "h_queue_size q m = qs"
    using assms(1) by (simp_all add: mq_valid_def mq_ok_def)
  have "msgs_bytes (mq_contents q m) + 8 + length x + 16 \<le> h_queue_size q m"
    using assms(2) mq_room_iff [OF assms(1)] size by simp
  note a = mq_append_ok [OF inv this]
  then have "mq_ok q (snd (mq_append q m x)) \<and> mq_contents q (snd (mq_append q m x)) = mq_contents q m @ [x]"
    by (intro mq_ok_I) simp
  then show ?thesis using a size by (simp add: mq_valid_def)
qed

lemma mq_enq_full:
  assumes "mq_valid q qs m" "mq_fair x" "\<not> mq_room q m x"
  shows "mq_append q m x = (False, m)"
  using assms mq_room_iff [OF assms(1)]
  by (intro mq_append_full [of q m "mq_contents q m"])
    (simp_all add: mq_valid_def mq_ok_def mq_fair_def mq_weight_def)

lemma mq_deq_ready:
  assumes "mq_valid q qs m" "mq_ready q cap m"
  shows "mq_contents q m \<noteq> [] \<and> fst (mq_pop q m cap) = Some (hd (mq_contents q m)) \<and>
    mq_valid q qs (snd (mq_pop q m cap)) \<and> mq_contents q (snd (mq_pop q m cap)) = tl (mq_contents q m)"
proof -
  obtain x xs where x: "mq_contents q m = x # xs"
    using assms(2) by (cases "mq_contents q m") (auto simp: mq_ready_def)
  have inv: "mq_inv q m (x # xs)" and size: "h_queue_size q m = qs"
    using assms(1) x by (simp_all add: mq_valid_def mq_ok_def)
  have "deliverable (x # xs)" "length x \<le> cap" using assms(2) x by (simp_all add: mq_ready_def)
  note p = mq_pop_ok [OF inv this]
  then have "mq_ok q (snd (mq_pop q m cap)) \<and> mq_contents q (snd (mq_pop q m cap)) = xs"
    by (intro mq_ok_I) simp
  then show ?thesis using p x size by (simp add: mq_valid_def)
qed

lemma mq_deq_none:
  assumes "mq_valid q qs m" "\<not> mq_ready q cap m"
  shows "mq_pop q m cap = (None, m)"
  using assms by (intro mq_pop_refused [of q m "mq_contents q m"])
    (auto simp: mq_valid_def mq_ok_def mq_ready_def)

lemma mq_room_weight:
  assumes "mq_valid q qs m"
  shows "mq_room q m x = (sum_list (map mq_weight (mq_contents q m)) + mq_weight x \<le> qs - 16)"
  unfolding mq_room_iff [OF assms] sum_weights
  using mq_valid_bytes [OF assms] by (auto simp: mq_weight_def)

interpretation mq: bounded_fifo "mq_append q" "\<lambda>m. mq_pop q m cap" "mq_contents q" "mq_valid q qs"
  mq_fair "mq_room q" "mq_ready q cap" mq_weight "qs - 16"
  for q :: msg_queue and cap :: nat and qs :: nat
proof unfold_locales
  fix m :: memory and x :: "tbyte list"
  assume v: "mq_valid q qs m"
  show "mq_room q m x \<Longrightarrow> fst (mq_append q m x) \<and> mq_valid q qs (snd (mq_append q m x)) \<and>
      mq_contents q (snd (mq_append q m x)) = mq_contents q m @ [x]"
    by (rule mq_enq_room [OF v])
  show "mq_fair x \<Longrightarrow> \<not> mq_room q m x \<Longrightarrow> mq_append q m x = (False, m)"
    by (rule mq_enq_full [OF v])
  show "mq_ready q cap m \<Longrightarrow> mq_contents q m \<noteq> [] \<and> fst (mq_pop q m cap) = Some (hd (mq_contents q m)) \<and>
      mq_valid q qs (snd (mq_pop q m cap)) \<and>
      mq_contents q (snd (mq_pop q m cap)) = tl (mq_contents q m)"
    by (rule mq_deq_ready [OF v])
  show "\<not> mq_ready q cap m \<Longrightarrow> mq_pop q m cap = (None, m)" by (rule mq_deq_none [OF v])
  show "mq_room q m x = (sum_list (map mq_weight (mq_contents q m)) + mq_weight x \<le> qs - 16)"
    by (rule mq_room_weight [OF v])
  show "sum_list (map mq_weight (mq_contents q m)) \<le> qs - 16"
    using mq_valid_bytes [OF v] unfolding sum_weights by simp
qed

section \<open>init\<close>

lemma mq_init_frame:
  assumes "mq_init q m pmem (alloc_size n) n ESM_INIT = (ok, q', m')"
    and "a < pmem \<or> pmem + 32 \<le> a"
  shows "m' a = m a"
proof -
  have "st64 k (pmem + c) v a = k a" if "c + 8 \<le> 32" for k c v
    using assms(2) that by (elim disjE) (simp_all add: st64_outside)
  note this [of 0, simplified] this [of 8, simplified] this [of 16, simplified] this [of 24, simplified]
  then show ?thesis using assms(1)
    by (auto simp: mq_init_def Let_def mq_clear_def set_read_def set_write_def split: if_splits)
qed

lemma mq_init_sizes:
  assumes "2 * (n + 16) + 32 < size_max"
  shows "alloc_size n = n + 48" "sz_add n message_queue_reverse_length = n + 16"
  using assms by (simp_all add: alloc_size_def sz_simps)

lemma mq_init_inv:
  assumes "2 * (n + 16) + 32 < size_max"
  shows "\<exists>m'. mq_init q m pmem (alloc_size n) n ESM_INIT = (True, \<lparr>headp = pmem, msg_base = pmem + 32\<rparr>, m') \<and>
    mq_inv \<lparr>headp = pmem, msg_base = pmem + 32\<rparr> m' [] \<and>
    h_queue_size \<lparr>headp = pmem, msg_base = pmem + 32\<rparr> m' = n + 16 \<and>
    h_mem_size \<lparr>headp = pmem, msg_base = pmem + 32\<rparr> m' = alloc_size n"
proof -
  define q' where "q' = \<lparr>headp = pmem, msg_base = pmem + 32\<rparr>"
  define m1 where "m1 = st64 (st64 m pmem (n + 48)) (pmem + 8) (n + 16)"
  have b: "n + 48 < size_max" "n + 16 < size_max" using assms by simp_all
  have e: "h_mem_size q' m1 = n + 48" "h_queue_size q' m1 = n + 16"
    using b by (simp_all add: field_defs q'_def m1_def ld64_st64_same ld64_st64_other)
  have e': "h_mem_size (q\<lparr>headp := pmem\<rparr>) m1 = n + 48" using e(1) by (simp add: field_defs q'_def)
  define m' where "m' = mq_clear q' m1"
  have i: "mq_init q m pmem (alloc_size n) n ESM_INIT = (True, q', m')"
    unfolding mq_init_def mq_init_sizes [OF assms] using e'
    by (simp add: Let_def m1_def [symmetric] m'_def q'_def)
  have f: "h_read q' m' = 0" "h_write q' m' = 0" "h_queue_size q' m' = n + 16" "h_mem_size q' m' = n + 48"
    using e set_read_fields [of 0 q' m1] set_write_fields [of 0 q' "set_read q' 0 m1"]
    by (simp_all add: m'_def mq_clear_def)
  have "mq_inv q' m' []" using f assms by (simp add: mq_inv_def) (simp add: q'_def)
  then show ?thesis using i f mq_init_sizes(1) [OF assms] by (auto simp: q'_def)
qed

end
