(* ===== verification/MsgQueueProps.thy ===== *)
theory MsgQueueProps
  imports MsgFifo
begin

text \<open>
  The properties of the shared-memory queue, stated over the code's operations: the refinement of
  \<open>append\<close> and \<open>pop\<close> to a list of messages on every branch, first in first out over any sequence
  of operations, the start and the resumption of a queue, and the byte behind the allocation that
  \<open>append\<close> may write.
\<close>

section \<open>A small queue\<close>

text \<open>A queue of 24 bytes at address 4096, as the witnesses use it.\<close>

definition demo_queue :: msg_queue where
  "demo_queue = \<lparr>headp = 4096, msg_base = 4128\<rparr>"

definition demo_memory :: "nat \<Rightarrow> memory" where
  "demo_memory p = set_write demo_queue p (set_read demo_queue p
     (st64 (st64 (\<lambda>_. 0) 4096 (alloc_size 24)) 4104 40))"

lemma demo_inv:
  assumes "p \<le> 40"
  shows "mq_inv demo_queue (demo_memory p) []" "h_queue_size demo_queue (demo_memory p) = 40"
    "h_read demo_queue (demo_memory p) = p" "h_write demo_queue (demo_memory p) = p"
    "h_mem_size demo_queue (demo_memory p) = alloc_size 24"
proof -
  define m1 where "m1 = st64 (st64 (\<lambda>_. 0) 4096 (alloc_size 24)) 4104 40"
  have "h_queue_size demo_queue m1 = 40" "h_mem_size demo_queue m1 = alloc_size 24"
    by (simp_all add: m1_def field_defs demo_queue_def ld64_st64_same ld64_st64_other alloc_size_def sz_simps)
  moreover have pb: "p < size_max" using assms by simp
  ultimately show f: "h_queue_size demo_queue (demo_memory p) = 40"
    "h_read demo_queue (demo_memory p) = p" "h_write demo_queue (demo_memory p) = p"
    "h_mem_size demo_queue (demo_memory p) = alloc_size 24"
    using set_read_fields [OF pb, of demo_queue m1] set_write_fields [OF pb, of demo_queue "set_read demo_queue p m1"]
    by (simp_all add: demo_memory_def m1_def [symmetric])
  show "mq_inv demo_queue (demo_memory p) []"
    using f assms by (simp add: mq_inv_def) (simp add: demo_queue_def)
qed

lemma demo_valid:
  assumes "p \<le> 40"
  shows "mq_valid demo_queue 40 (demo_memory p)" "mq_contents demo_queue (demo_memory p) = []"
  using mq_ok_I [OF demo_inv(1) [OF assms]] demo_inv(2) [OF assms] by (auto simp: mq_valid_def)

lemma le_bytes_first: "le_bytes 8 v ! 0 = word_of_nat v"
proof -
  have "(8::nat) = Suc 7" by simp
  then show ?thesis by (simp only: le_bytes.simps nth_Cons_0)
qed

lemma demo_room: "p \<le> 40 \<Longrightarrow> length x \<le> 16 \<Longrightarrow> mq_room demo_queue (demo_memory p) x"
  using mq_room_iff [OF demo_valid(1)] demo_valid(2) by simp

section \<open>Properties\<close>

text \<open>C1: over every sequence of appends and pops, the messages delivered are the ones accepted,
  in order: what was in the queue and what \<open>append\<close> accepted is what \<open>pop\<close> delivered followed by
  what the queue still holds, and the queue stays well formed.\<close>

theorem mq_fifo:
  assumes "mq_valid q qs m" "list_all mq_fair (puts ops)"
    and "fifo_run (mq_append q) (\<lambda>m. mq_pop q m cap) ops m = (acc, del, m')"
  shows "mq_valid q qs m' \<and> mq_contents q m @ acc = del @ mq_contents q m'"
  using assms by (rule mq.run_fifo)

theorem mq_fifo_witness:
  "\<exists>m'. fifo_run (mq_append demo_queue) (\<lambda>m. mq_pop demo_queue m 100) [Put [7, 9], Get, Get] (demo_memory 0)
      = ([[7, 9]], [[7, 9]], m') \<and> mq_contents demo_queue m' = []"
proof -
  let ?m = "demo_memory 0"
  have v: "mq_valid demo_queue 40 ?m" and c: "mq_contents demo_queue ?m = []"
    and r: "mq_room demo_queue ?m [7, 9]"
    using demo_valid [of 0] demo_room [of 0] by simp_all
  obtain m1 where m1: "mq_append demo_queue ?m [7, 9] = (True, m1)" "mq_valid demo_queue 40 m1"
      "mq_contents demo_queue m1 = [[7, 9]]"
    using mq_enq_room [OF v r] c by (metis append_Nil prod.collapse)
  have "mq_ready demo_queue 100 m1" using m1(3) by (simp add: mq_ready_def)
  note d = mq_deq_ready [OF m1(2) this, unfolded m1(3), simplified]
  obtain m2 where m2: "mq_pop demo_queue m1 100 = (Some [7, 9], m2)" "mq_valid demo_queue 40 m2"
      "mq_contents demo_queue m2 = []"
    using d by (metis prod.collapse)
  have "mq_pop demo_queue m2 100 = (None, m2)"
    using mq_deq_none [OF m2(2), of 100] m2(3) by (simp add: mq_ready_def)
  then have run: "fifo_run (mq_append demo_queue) (\<lambda>m. mq_pop demo_queue m 100) [Put [7, 9], Get, Get] ?m
      = ([[7, 9]], [[7, 9]], m2)"
    using m1 m2 by simp
  have fair: "list_all mq_fair (puts [Put [7, 9], Get, Get])" by (simp add: mq_fair_def mq_weight_def)
  show ?thesis using mq_fifo [OF v fair run] run c by (intro exI [of _ m2]) simp
qed

text \<open>C2: \<open>append\<close> refines adding at the end of a bounded list of messages: it succeeds exactly when
  the message with its prefix fits in \<open>size ()\<close> beside those held, then adds it and touches nothing
  but the cursors, the ring and one byte behind it; otherwise it returns false and changes nothing.\<close>

theorem mq_append_refines:
  assumes "mq_inv q m ms" and "8 + length x < size_max"
  shows "if msgs_bytes ms + 8 + length x \<le> mq_size q m
    then fst (mq_append q m x) \<and> mq_inv q (snd (mq_append q m x)) (ms @ [x]) \<and>
      (\<forall>a. a \<notin> owned q m \<longrightarrow> snd (mq_append q m x) a = m a)
    else mq_append q m x = (False, m)"
proof -
  have sz: "mq_size q m = h_queue_size q m - 16" "16 + msgs_bytes ms \<le> h_queue_size q m"
    using mq_inv_sizes(3) [OF assms(1)] assms(1) by (simp_all add: mq_inv_def)
  show ?thesis
  proof (cases "msgs_bytes ms + 8 + length x \<le> mq_size q m")
    case True
    then have "msgs_bytes ms + 8 + length x + 16 \<le> h_queue_size q m" using sz by simp
    from mq_append_ok [OF assms(1) this] True show ?thesis by simp
  next
    case False
    then have "h_queue_size q m < msgs_bytes ms + 8 + length x + 16" using sz by simp
    from mq_append_full [OF assms(1) this] False show ?thesis using assms(2) by simp
  qed
qed

theorem mq_append_refines_witness:
  "mq_inv demo_queue (snd (mq_append demo_queue (demo_memory 24) [1, 2, 3])) [[1, 2, 3]] \<and>
   mq_append demo_queue (demo_memory 24) (replicate 17 0) = (False, demo_memory 24)"
proof -
  have i: "mq_inv demo_queue (demo_memory 24) []" and s: "mq_size demo_queue (demo_memory 24) = 24"
    using demo_inv(1,2) [of 24] mq_inv_sizes(3) [OF demo_inv(1) [of 24]] by simp_all
  show ?thesis
    using mq_append_refines [OF i, of "[1, 2, 3]"] mq_append_refines [OF i, of "replicate 17 0"]
    by (simp add: s)
qed

text \<open>C3: \<open>pop\<close> refines taking the oldest message: when the oldest message fits the caller's buffer
  (and it is not the lone empty message) exactly its bytes are returned and removed, and only the
  \<open>read_\<close> cursor changes; in every other case nothing is returned and nothing changes.\<close>

theorem mq_pop_refines:
  assumes "mq_inv q m ms"
  shows "if ms \<noteq> [] \<and> ms \<noteq> [[]] \<and> length (hd ms) \<le> cap
    then fst (mq_pop q m cap) = Some (hd ms) \<and> mq_inv q (snd (mq_pop q m cap)) (tl ms) \<and>
      (\<forall>a. a < headp q + 16 \<or> headp q + 24 \<le> a \<longrightarrow> snd (mq_pop q m cap) a = m a)
    else mq_pop q m cap = (None, m)"
proof (cases "deliverable ms \<and> length (hd ms) \<le> cap")
  case True
  then obtain x xs where x: "ms = x # xs" by (cases ms) auto
  then have "ms \<noteq> [] \<and> ms \<noteq> [[]] \<and> length (hd ms) \<le> cap" using True by auto
  then show ?thesis using mq_pop_ok [of q m x xs cap] assms True x by simp
next
  case False
  then have "\<not> (ms \<noteq> [] \<and> ms \<noteq> [[]] \<and> length (hd ms) \<le> cap)" by (cases ms) auto
  moreover have "mq_pop q m cap = (None, m)"
    by (rule mq_pop_refused [OF assms]) (use False in auto)
  ultimately show ?thesis by simp
qed

theorem mq_pop_refines_witness:
  "\<exists>m. mq_inv demo_queue m [[5, 6], []] \<and> fst (mq_pop demo_queue m 2) = Some [5, 6] \<and>
     mq_inv demo_queue (snd (mq_pop demo_queue m 2)) [[]] \<and> mq_pop demo_queue m 1 = (None, m)"
proof -
  have i: "mq_inv demo_queue (demo_memory 40) []" and s: "h_queue_size demo_queue (demo_memory 40) = 40"
    using demo_inv(1,2) [of 40] by simp_all
  define m1 m2 where "m1 = snd (mq_append demo_queue (demo_memory 40) [5, 6])"
    and "m2 = snd (mq_append demo_queue m1 [])"
  have "mq_inv demo_queue m1 [[5, 6]] \<and> h_queue_size demo_queue m1 = 40"
    using mq_append_ok [OF i, of "[5, 6]"] by (simp add: m1_def s)
  then have "mq_inv demo_queue m2 [[5, 6], []]"
    using mq_append_ok [of demo_queue m1 "[[5, 6]]" "[]"] by (simp add: m2_def)
  then show ?thesis
    using mq_pop_refines [of demo_queue m2 "[[5, 6], []]" 2] mq_pop_refines [of demo_queue m2 "[[5, 6], []]" 1]
    by auto
qed


text \<open>a queue started fresh is empty, well formed, of the size asked for; a later \<open>init\<close> in
  resume mode over the same memory accepts it, changes no byte, and finds every message an earlier
  process left there.\<close>

theorem mq_init_resume:
  assumes "2 * (n + 16) + 32 < size_max"
  shows "\<exists>q m0. mq_init q0 m pmem (alloc_size n) n ESM_INIT = (True, q, m0) \<and> mq_inv q m0 [] \<and>
    mq_size q m0 = n \<and>
    (\<forall>m1 ms. mq_inv q m1 ms \<and> h_mem_size q m1 = h_mem_size q m0 \<and> h_queue_size q m1 = h_queue_size q m0 \<longrightarrow>
      mq_init q1 m1 pmem (alloc_size n) n ESM_RESUME = (True, q, m1) \<and> mq_contents q m1 = ms)"
proof -
  define q where "q = \<lparr>headp = pmem, msg_base = pmem + 32\<rparr>"
  obtain m0 where m0: "mq_init q0 m pmem (alloc_size n) n ESM_INIT = (True, q, m0)" "mq_inv q m0 []"
      "h_queue_size q m0 = n + 16" "h_mem_size q m0 = alloc_size n"
    using mq_init_inv [OF assms, of q0 m pmem] unfolding q_def by blast
  have "mq_init q1 m1 pmem (alloc_size n) n ESM_RESUME = (True, q, m1)"
    if "h_mem_size q m1 = alloc_size n" "h_queue_size q m1 = n + 16" for m1
  proof -
    have "h_mem_size (q1\<lparr>headp := pmem\<rparr>) m1 = alloc_size n" "h_queue_size (q1\<lparr>headp := pmem\<rparr>) m1 = n + 16"
      using that by (simp_all add: field_defs q_def)
    then show ?thesis using mq_init_sizes [OF assms] by (simp add: mq_init_def Let_def q_def)
  qed
  moreover have "mq_size q m0 = n" using mq_inv_sizes(3) [OF m0(2)] m0(3) by simp
  ultimately show ?thesis using m0 mq_inv_sizes(4) by metis
qed

theorem mq_init_resume_witness:
  "\<exists>q m0. mq_init demo_queue (\<lambda>_. 255) 64 (alloc_size 24) 24 ESM_INIT = (True, q, m0) \<and> mq_size q m0 = 24 \<and>
     mq_init demo_queue m0 64 (alloc_size 24) 24 ESM_RESUME = (True, q, m0)"
proof -
  have "2 * (24 + 16) + 32 < size_max" by simp
  from mq_init_resume [OF this, of demo_queue "\<lambda>_. 255" 64 demo_queue] show ?thesis by blast
qed

text \<open>\<open>write_\<close> may be left at \<open>queue_size_\<close> itself, when a body ends exactly at the end of the
  ring (it is only reduced at the next prefix); the next \<open>append\<close> then stores the first byte of its
  prefix at \<open>msg_base_ + queue_size_\<close>, the byte behind the \<open>alloc_size\<close> bytes of the queue's memory.\<close>

theorem mq_append_spill:
  assumes "mq_inv q m ms" "h_write q m = h_queue_size q m" "2 * h_queue_size q m + 64 < size_max"
    and "msgs_bytes ms + 8 + length x \<le> mq_size q m"
  shows "snd (mq_append q m x) (headp q + alloc_size (mq_size q m)) = word_of_nat (length x)"
proof -
  define qs where "qs = h_queue_size q m"
  have i: "msg_base q = headp q + 32" "2 * qs + 64 < size_max" "16 + msgs_bytes ms \<le> qs" "mq_size q m = qs - 16"
    using assms mq_inv_sizes(3) [OF assms(1)] by (auto simp: mq_inv_def qs_def)
  then have room: "msgs_bytes ms + 8 + length x + 16 \<le> h_queue_size q m"
    using assms(4) by (simp add: qs_def)
  have place: "headp q + alloc_size (mq_size q m) = msg_base q + qs"
    using i by (simp add: alloc_size_def sz_simps)
  define h where "h = (qs + 8) mod qs"
  obtain m1 where m1: "\<forall>k<8. m1 (msg_base q + cell qs qs k) = le_bytes 8 (length x) ! k"
      "mq_append q m x = (True, set_write q (next_pos qs qs (length x))
         (body_mem (set_write q h m1) (msg_base q) qs h x))"
    using mq_append_mem [OF assms(1) room] unfolding assms(2) qs_def [symmetric] h_def by metis
  have "m1 (msg_base q + cell qs qs 0) = le_bytes 8 (length x) ! 0" using m1(1) by (metis zero_less_numeral)
  then have first: "m1 (msg_base q + qs) = word_of_nat (length x)"
    by (simp add: cell_def le_bytes_first)
  have "h < qs" using i(3) by (auto simp: h_def)
  then have "body_mem (set_write q h m1) (msg_base q) qs h x (msg_base q + qs) = set_write q h m1 (msg_base q + qs)"
    using room by (auto simp: body_mem_def wr_range_def qs_def [symmetric])
  then show ?thesis
    using m1(2) first i(1) by (simp add: place set_write_def st64_outside)
qed

theorem mq_append_spill_witness:
  "demo_memory 40 4168 = 0 \<and> snd (mq_append demo_queue (demo_memory 40) [7, 7, 7]) (4096 + 72) = 3"
proof -
  have "mq_size demo_queue (demo_memory 40) = 24"
    using mq_inv_sizes(3) [OF demo_inv(1) [of 40]] demo_inv(2) [of 40] by simp
  then show ?thesis
    using mq_append_spill [OF demo_inv(1) [of 40], of "[7, 7, 7]"] demo_inv(2,4) [of 40]
    by (simp add: demo_queue_def alloc_size_def sz_simps demo_memory_def set_write_def set_read_def st64_outside)
qed

end
