(* ===== verification/ShareMemory.thy ===== *)
theory ShareMemory
  imports MsgQueue
begin

text \<open>
  The shared memory block of \<open>include/common/share_memory.h\<close>, \<open>src/common/share_memory.cpp\<close> and the
  wrappers of \<open>src/common/share_memory_api.cpp\<close> (the branch compiled on Linux). The System V
  calls are parameters: a record of functions over a state of the operating system of any type.
  The segments handed out by \<open>create_segment\<close> lie one behind the other in the block.
\<close>

section \<open>The calls of the operating system\<close>

record 'w shm_os =
  shmget :: "'w \<Rightarrow> tuint32 \<Rightarrow> nat \<Rightarrow> nat \<Rightarrow> int \<times> 'w"
  shmat :: "'w \<Rightarrow> int \<Rightarrow> nat \<times> 'w"
  shmdt :: "'w \<Rightarrow> nat \<Rightarrow> 'w"
  shmctl_rmid :: "'w \<Rightarrow> int \<Rightarrow> 'w"

definition INVALID_SM_HANDLE :: int where
  "INVALID_SM_HANDLE = - 1"

text \<open>The flag bits of \<open>shmget\<close>: \<open>IPC_CREAT\<close> is octal 1000, \<open>IPC_EXCL\<close> octal 2000, the mode octal 666.\<close>

definition IPC_CREAT :: nat where "IPC_CREAT = 512"
definition IPC_EXCL :: nat where "IPC_EXCL = 1024"
definition shm_mode_bits :: nat where "shm_mode_bits = 438"

definition CreateShareMem :: "'w shm_os \<Rightarrow> 'w \<Rightarrow> tuint32 \<Rightarrow> nat \<Rightarrow> int \<times> 'w" where
  "CreateShareMem os w uiKey uiSize = shmget os w uiKey uiSize (IPC_CREAT OR IPC_EXCL OR shm_mode_bits)"

definition OpenShareMem :: "'w shm_os \<Rightarrow> 'w \<Rightarrow> tuint32 \<Rightarrow> nat \<Rightarrow> int \<times> 'w" where
  "OpenShareMem os w uiKey uiSize = shmget os w uiKey uiSize shm_mode_bits"

definition MapShareMem :: "'w shm_os \<Rightarrow> 'w \<Rightarrow> int \<Rightarrow> nat \<times> 'w" where
  "MapShareMem os w h = shmat os w h"

definition UnMapShareMem :: "'w shm_os \<Rightarrow> 'w \<Rightarrow> nat \<Rightarrow> 'w" where
  "UnMapShareMem os w p = shmdt os w p"

definition CloseShareMem :: "'w shm_os \<Rightarrow> 'w \<Rightarrow> int \<Rightarrow> 'w" where
  "CloseShareMem os w h = shmctl_rmid os w h"

section \<open>Share_Memory\<close>

record share_memory =
  m_uiKey :: tuint32
  m_uiSize :: nat
  m_uiOffset :: nat
  m_hShareMemHandle :: int
  m_pMemBase :: nat
  m_enmMode :: sharemem_mode

text \<open>The object's own size: 4 + 4 (padding) + 8 + 8 + 4 + 4 (padding) + 8 + 4 + 4 (padding).\<close>

definition sizeof_Share_Memory :: nat where
  "sizeof_Share_Memory = 48"

definition Share_Memory_new :: share_memory where
  "Share_Memory_new = \<lparr>m_uiKey = 0, m_uiSize = 0, m_uiOffset = sizeof_Share_Memory,
     m_hShareMemHandle = INVALID_SM_HANDLE, m_pMemBase = 0, m_enmMode = ESM_INIT\<rparr>"

definition sm_get_free_size :: "share_memory \<Rightarrow> nat" where
  "sm_get_free_size sm = sz_sub (m_uiSize sm) (m_uiOffset sm)"

definition sm_get_used_size :: "share_memory \<Rightarrow> nat" where
  "sm_get_used_size sm = m_uiOffset sm"

definition get_mode :: "share_memory \<Rightarrow> sharemem_mode" where
  "get_mode sm = m_enmMode sm"

definition attach_share_memory ::
    "'w shm_os \<Rightarrow> 'w \<Rightarrow> share_memory \<Rightarrow> tuint32 \<Rightarrow> nat \<Rightarrow> bool \<times> share_memory \<times> 'w" where
  "attach_share_memory os w sm uiKey uiSize =
     (if uiSize \<le> 0 then (False, sm, w)
      else
        let uiRealSize = sz_add uiSize sizeof_Share_Memory;
            (handle0, w1) = OpenShareMem os w uiKey uiRealSize;
            (handle, enmMode, w2) =
              (if INVALID_SM_HANDLE = handle0
               then let (h, w') = CreateShareMem os w1 uiKey uiRealSize in (h, ESM_INIT, w')
               else (handle0, ESM_RESUME, w1))
        in if INVALID_SM_HANDLE = handle then (False, sm, w2)
           else
             let enmMode' = (if uiKey \<noteq> m_uiKey sm \<or> uiRealSize \<noteq> m_uiSize sm then ESM_INIT else enmMode);
                 (base, w3) = MapShareMem os w2 handle;
                 sm1 = sm\<lparr>m_pMemBase := base\<rparr>
             in if 0 = m_pMemBase sm1 then (False, sm1, w3)
                else (True, sm1\<lparr>m_hShareMemHandle := handle, m_uiKey := uiKey, m_uiSize := uiRealSize,
                        m_enmMode := enmMode', m_uiOffset := sizeof_Share_Memory\<rparr>, w3))"

definition detach_share_memory :: "'w shm_os \<Rightarrow> 'w \<Rightarrow> share_memory \<Rightarrow> share_memory \<times> 'w" where
  "detach_share_memory os w sm =
     (let (sm1, w1) = (if m_pMemBase sm \<noteq> 0
            then (sm\<lparr>m_pMemBase := 0\<rparr>, UnMapShareMem os w (m_pMemBase sm)) else (sm, w))
      in if m_hShareMemHandle sm1 \<noteq> INVALID_SM_HANDLE
         then (sm1\<lparr>m_hShareMemHandle := INVALID_SM_HANDLE\<rparr>, CloseShareMem os w1 (m_hShareMemHandle sm1))
         else (sm1, w1))"

text \<open>\<open>create_segment\<close> returns the address, 0 for the null pointer.\<close>

definition create_segment :: "share_memory \<Rightarrow> nat \<Rightarrow> nat \<times> share_memory" where
  "create_segment sm uiSize =
     (if m_pMemBase sm = 0 then (0, sm)
      else if uiSize \<le> 0 then (0, sm)
      else if uiSize > sm_get_free_size sm then (0, sm)
      else (m_pMemBase sm + m_uiOffset sm, sm\<lparr>m_uiOffset := sz_add (m_uiOffset sm) uiSize\<rparr>))"

section \<open>The block\<close>

text \<open>An attached block: mapped, and its offset inside its size.\<close>

definition sm_attached :: "share_memory \<Rightarrow> bool" where
  "sm_attached sm \<longleftrightarrow> m_pMemBase sm \<noteq> 0 \<and> sizeof_Share_Memory \<le> m_uiOffset sm \<and>
     m_uiOffset sm \<le> m_uiSize sm \<and> m_uiSize sm < size_max"

lemma attach_attached:
  assumes "attach_share_memory os w sm key n = (True, sm', w')" "n + 48 < size_max"
  shows "sm_attached sm'" "m_uiSize sm' = n + 48" "m_uiOffset sm' = 48" "m_uiKey sm' = key"
    "get_mode sm' = ESM_RESUME \<Longrightarrow> m_uiKey sm = key \<and> m_uiSize sm = n + 48 \<and>
       fst (OpenShareMem os w key (n + 48)) \<noteq> INVALID_SM_HANDLE"
  using assms
  by (auto simp: attach_share_memory_def Let_def sm_attached_def sizeof_Share_Memory_def sz_simps get_mode_def
      split: if_splits prod.splits)

lemma attach_fresh_mode:
  assumes "attach_share_memory os w Share_Memory_new key n = (True, sm', w')" "n + 48 < size_max"
    and "0 < n"
  shows "get_mode sm' = ESM_INIT"
  using attach_attached(5) [OF assms(1,2)] assms(3)
  by (cases "get_mode sm'") (auto simp: Share_Memory_new_def)

lemma create_segment_step:
  assumes "sm_attached sm"
  shows "create_segment sm n =
    (if 0 < n \<and> m_uiOffset sm + n \<le> m_uiSize sm
     then (m_pMemBase sm + m_uiOffset sm, sm\<lparr>m_uiOffset := m_uiOffset sm + n\<rparr>) else (0, sm))"
proof -
  have "sm_get_free_size sm = m_uiSize sm - m_uiOffset sm"
    using assms by (simp add: sm_get_free_size_def sz_simps sm_attached_def)
  moreover have "m_uiOffset sm + n \<le> m_uiSize sm \<Longrightarrow> sz_add (m_uiOffset sm) n = m_uiOffset sm + n"
    using assms by (simp add: sz_simps sm_attached_def)
  ultimately show ?thesis using assms by (auto simp: create_segment_def sm_attached_def)
qed

lemma create_segment_attached: "sm_attached sm \<Longrightarrow> sm_attached (snd (create_segment sm n))"
  unfolding create_segment_step by (simp add: sm_attached_def)

text \<open>A sequence of requests: the segments given out, each with its address and its size.\<close>

fun create_segments :: "share_memory \<Rightarrow> nat list \<Rightarrow> (nat \<times> nat) list \<times> share_memory" where
  "create_segments sm [] = ([], sm)"
| "create_segments sm (n # ns) =
     (let (p, sm1) = create_segment sm n; (ps, sm2) = create_segments sm1 ns
      in (if p = 0 then ps else (p, n) # ps, sm2))"

text \<open>Segments that follow each other from \<open>a\<close> to \<open>b\<close> without overlap.\<close>

fun tiles :: "nat \<Rightarrow> (nat \<times> nat) list \<Rightarrow> nat \<Rightarrow> bool" where
  "tiles a [] b \<longleftrightarrow> a = b"
| "tiles a ((p, n) # ps) b \<longleftrightarrow> p = a \<and> 0 < n \<and> tiles (a + n) ps b"

lemma tiles_sum: "tiles a ps b \<Longrightarrow> b = a + sum_list (map snd ps)"
  by (induction a ps b rule: tiles.induct) auto

lemma create_segments_tiles:
  assumes "sm_attached sm" "create_segments sm ns = (ps, sm')"
  shows "sm_attached sm' \<and> tiles (m_pMemBase sm + m_uiOffset sm) ps (m_pMemBase sm + m_uiOffset sm') \<and>
    m_pMemBase sm' = m_pMemBase sm \<and> m_uiSize sm' = m_uiSize sm"
  using assms
proof (induction ns arbitrary: sm ps sm')
  case Nil
  then show ?case by simp
next
  case (Cons n ns)
  obtain p sm1 where s1: "create_segment sm n = (p, sm1)" by fastforce
  obtain qs sm2 where s2: "create_segments sm1 ns = (qs, sm2)" by fastforce
  have a1: "sm_attached sm1" using create_segment_attached [OF Cons.prems(1), of n] s1 by simp
  note ih = Cons.IH [OF a1 s2]
  show ?case
  proof (cases "0 < n \<and> m_uiOffset sm + n \<le> m_uiSize sm")
    case True
    then have "p = m_pMemBase sm + m_uiOffset sm" "sm1 = sm\<lparr>m_uiOffset := m_uiOffset sm + n\<rparr>"
      using create_segment_step [OF Cons.prems(1), of n] s1 by simp_all
    moreover have "p \<noteq> 0" using calculation(1) Cons.prems(1) by (simp add: sm_attached_def)
    ultimately show ?thesis using Cons.prems(2) s1 s2 ih True by (auto simp: add.assoc)
  next
    case False
    then have "p = 0" "sm1 = sm" using create_segment_step [OF Cons.prems(1), of n] s1 by (auto split: if_splits)
    then show ?thesis using Cons.prems(2) s1 s2 ih by auto
  qed
qed


section \<open>Properties\<close>

lemma tiles_props:
  "tiles a ps b \<Longrightarrow> (\<forall>(p, n) \<in> set ps. a \<le> p \<and> p + n \<le> b) \<and>
    (\<forall>i < j. j < length ps \<longrightarrow> fst (ps ! i) + snd (ps ! i) \<le> fst (ps ! j))"
proof (induction a ps b arbitrary: j rule: tiles.induct)
  case (1 a b)
  then show ?case by simp
next
  case (2 a p n ps b)
  have t: "p = a" "tiles (a + n) ps b" using "2.prems" by auto
  have ih: "\<forall>(q, k) \<in> set ps. a + n \<le> q \<and> q + k \<le> b" using "2.IH" t by blast
  have le: "a + n \<le> b" using tiles_sum [OF t(2)] by simp
  have "fst (((p, n) # ps) ! i) + snd (((p, n) # ps) ! i) \<le> fst (((p, n) # ps) ! j)"
    if "i < j" "j < length ((p, n) # ps)" for i
  proof (cases i)
    case 0
    obtain j' where j: "j = Suc j'" using \<open>i < j\<close> by (cases j) auto
    then have "ps ! j' \<in> set ps" using that(2) by simp
    then have "a + n \<le> fst (ps ! j')" using ih by fastforce
    then show ?thesis using 0 j t(1) by simp
  next
    case (Suc i')
    obtain j' where "j = Suc j'" using \<open>i < j\<close> by (cases j) auto
    then show ?thesis using "2.IH" [OF t(2), of j'] that Suc by auto
  qed
  then show ?case using ih le t(1) by force
qed

text \<open>C40: the segments given out by any sequence of \<open>create_segment\<close> calls on an attached block lie
  inside the block behind its reserved head, none overlaps another, and the space in use is exactly
  the head and the segments; a refused request takes nothing.\<close>

theorem segments_disjoint:
  assumes "attach_share_memory os w sm0 key len = (True, sm, w')" "len + 48 < size_max"
    and "create_segments sm ns = (ps, sm')"
  shows "(\<forall>(p, n) \<in> set ps. m_pMemBase sm + 48 \<le> p \<and> p + n \<le> m_pMemBase sm + (len + 48)) \<and>
    (\<forall>i < j. j < length ps \<longrightarrow> fst (ps ! i) + snd (ps ! i) \<le> fst (ps ! j)) \<and>
    sm_get_used_size sm' = 48 + sum_list (map snd ps)"
proof -
  note a = attach_attached(1-3) [OF assms(1,2)]
  note t = create_segments_tiles [OF a(1) assms(3)]
  have tl: "tiles (m_pMemBase sm + 48) ps (m_pMemBase sm + m_uiOffset sm')" using t a(3) by simp
  have "m_uiOffset sm' \<le> len + 48" using t a(2) by (simp add: sm_attached_def)
  then have "\<forall>(p, n) \<in> set ps. m_pMemBase sm + 48 \<le> p \<and> p + n \<le> m_pMemBase sm + (len + 48)"
    using tiles_props [OF tl] by fastforce
  moreover have "m_uiOffset sm' = 48 + sum_list (map snd ps)" using tiles_sum [OF tl] by simp
  ultimately show ?thesis using tiles_props [OF tl, of j] by (simp add: sm_get_used_size_def)
qed

text \<open>An operating system for the witnesses: no block exists yet, a new one is mapped at 65536.\<close>

definition demo_os :: "unit shm_os" where
  "demo_os = \<lparr>shmget = (\<lambda>w key n flags. (if flags = shm_mode_bits then - 1 else 5, w)),
     shmat = (\<lambda>w h. (65536, w)), shmdt = (\<lambda>w p. w), shmctl_rmid = (\<lambda>w h. w)\<rparr>"

lemma demo_attach:
  assumes "0 < n" "n + 48 < size_max"
  shows "attach_share_memory demo_os () Share_Memory_new 7 n =
    (True, \<lparr>m_uiKey = 7, m_uiSize = n + 48, m_uiOffset = 48, m_hShareMemHandle = 5, m_pMemBase = 65536,
       m_enmMode = ESM_INIT\<rparr>, ())"
proof -
  have "(IPC_CREAT OR IPC_EXCL OR shm_mode_bits) \<noteq> shm_mode_bits"
    by (simp add: IPC_CREAT_def IPC_EXCL_def shm_mode_bits_def)
  then show ?thesis
    using assms by (simp add: attach_share_memory_def OpenShareMem_def CreateShareMem_def MapShareMem_def
      demo_os_def Share_Memory_new_def INVALID_SM_HANDLE_def sizeof_Share_Memory_def sz_simps)
qed

theorem segments_disjoint_witness:
  "\<exists>ps sm'. create_segments (fst (snd (attach_share_memory demo_os () Share_Memory_new 7 100))) [40, 0, 70, 60]
      = (ps, sm') \<and> ps = [(65584, 40), (65624, 60)] \<and> sm_get_used_size sm' = 148"
proof -
  have at: "attach_share_memory demo_os () Share_Memory_new 7 100 =
    (True, \<lparr>m_uiKey = 7, m_uiSize = 148, m_uiOffset = 48, m_hShareMemHandle = 5, m_pMemBase = 65536,
       m_enmMode = ESM_INIT\<rparr>, ())"
    using demo_attach [of 100] by simp
  have run: "\<exists>sm'. create_segments \<lparr>m_uiKey = 7, m_uiSize = 148, m_uiOffset = 48, m_hShareMemHandle = 5,
      m_pMemBase = 65536, m_enmMode = ESM_INIT\<rparr> [40, 0, 70, 60] = ([(65584, 40), (65624, 60)], sm')"
    by (simp add: create_segment_def sm_get_free_size_def sz_simps)
  then obtain sm' where sm': "create_segments \<lparr>m_uiKey = 7, m_uiSize = 148, m_uiOffset = 48,
      m_hShareMemHandle = 5, m_pMemBase = 65536, m_enmMode = ESM_INIT\<rparr> [40, 0, 70, 60]
      = ([(65584, 40), (65624, 60)], sm')" by blast
  show ?thesis using segments_disjoint [OF at _ sm'] sm' at by simp
qed

text \<open>an object that has just been constructed always attaches in the mode that initialises the
  memory, also when the block already exists, because the mode is kept only when key and size equal
  those the object itself had before; a restarted process can never resume a block.\<close>

theorem attach_never_resumes:
  assumes "attach_share_memory os w Share_Memory_new key len = (True, sm, w')" "0 < len"
    and "len + 48 < size_max"
  shows "get_mode sm = ESM_INIT"
  using attach_fresh_mode [OF assms(1,3,2)] .

text \<open>An operating system in which the block exists, with handle 3.\<close>

definition demo_os_existing :: "unit shm_os" where
  "demo_os_existing = demo_os\<lparr>shmget := (\<lambda>w key n flags. (3, w))\<rparr>"

theorem attach_never_resumes_witness:
  "fst (attach_share_memory demo_os_existing () Share_Memory_new 7 100) \<and>
   fst (OpenShareMem demo_os_existing () 7 148) = 3 \<and>
   get_mode (fst (snd (attach_share_memory demo_os_existing () Share_Memory_new 7 100))) = ESM_INIT"
proof -
  have "fst (attach_share_memory demo_os_existing () Share_Memory_new 7 100)"
    by (simp add: attach_share_memory_def OpenShareMem_def CreateShareMem_def MapShareMem_def demo_os_existing_def
      demo_os_def Share_Memory_new_def INVALID_SM_HANDLE_def sizeof_Share_Memory_def sz_simps)
  then obtain sm where sm: "attach_share_memory demo_os_existing () Share_Memory_new 7 100 = (True, sm, ())"
    by (cases "attach_share_memory demo_os_existing () Share_Memory_new 7 100") auto
  have "get_mode sm = ESM_INIT" using attach_never_resumes [OF sm] by simp
  then show ?thesis using sm by (simp add: OpenShareMem_def demo_os_existing_def)
qed

end
