(* ===== verification/MsgChannel.thy ===== *)
theory MsgChannel
  imports ShareMemory MsgFifo
begin

text \<open>
  The two-way channel of \<open>include/common/msg_channel.h\<close> and \<open>src/common/msg_channel.cpp\<close>: a shared memory
  block with an input and an output queue. A null address that is used as a queue's header is
  the value \<open>None\<close> (the process is killed). The two directions are shown not to disturb each other.
\<close>

section \<open>The code\<close>

record message_channel =
  m_kShareMemory :: share_memory
  m_kMsgOutput :: msg_queue
  m_kMsgInput :: msg_queue

text \<open>A \<open>tint32\<close> passed as a \<open>size_t\<close> is sign extended.\<close>

definition size_of_tint32 :: "tint32 \<Rightarrow> nat" where
  "size_of_tint32 n = unat (scast n :: 64 word)"

definition MessageChannel_delete :: "'w shm_os \<Rightarrow> 'w \<Rightarrow> message_channel \<Rightarrow> message_channel \<times> 'w" where
  "MessageChannel_delete os w ch =
     (let (sm, w1) = detach_share_memory os w (m_kShareMemory ch) in (ch\<lparr>m_kShareMemory := sm\<rparr>, w1))"

definition queue_init_at :: "msg_queue \<Rightarrow> memory \<Rightarrow> nat \<Rightarrow> nat \<Rightarrow> nat \<Rightarrow> sharemem_mode
    \<Rightarrow> (bool \<times> msg_queue \<times> memory) option" where
  "queue_init_at q m pmem mem_size queue_size mode =
     (if pmem = 0 then None else Some (mq_init q m pmem mem_size queue_size mode))"

definition InitMessageQueue :: "'w shm_os \<Rightarrow> 'w \<Rightarrow> message_channel \<Rightarrow> memory \<Rightarrow> tuint32 \<Rightarrow> tint32 \<Rightarrow> tint32
    \<Rightarrow> (bool \<times> message_channel \<times> memory \<times> 'w) option" where
  "InitMessageQueue os w ch m unKey nInputSize nOutputSize =
     (let tAllocInputSize = alloc_size (size_of_tint32 nInputSize);
          tAllocOutputSize = alloc_size (size_of_tint32 nOutputSize);
          (attached, sm1, w1) = attach_share_memory os w (m_kShareMemory ch) unKey
             (sz_add tAllocInputSize tAllocOutputSize);
          (pInputMem, sm2) = create_segment sm1 tAllocInputSize
      in case queue_init_at (m_kMsgInput ch) m pInputMem tAllocInputSize (size_of_tint32 nInputSize)
           (get_mode sm2) of
           None \<Rightarrow> None
         | Some (ok, qi, m1) \<Rightarrow>
             if \<not> ok then Some (False, ch\<lparr>m_kShareMemory := sm2, m_kMsgInput := qi\<rparr>, m1, w1)
             else
               let (pOutputMem, sm3) = create_segment sm2 tAllocOutputSize
               in case queue_init_at (m_kMsgOutput ch) m1 pOutputMem tAllocOutputSize
                    (size_of_tint32 nOutputSize) (get_mode sm3) of
                    None \<Rightarrow> None
                  | Some (ok', qo, m2) \<Rightarrow>
                      Some (ok', ch\<lparr>m_kShareMemory := sm3, m_kMsgInput := qi, m_kMsgOutput := qo\<rparr>, m2, w1))"

text \<open>
  The four transfers. A message is a byte list, its length the \<open>tuint16\<close> argument; the receiving
  ones get the size of the caller's buffer and return the bytes with the new value of \<open>usMsgSize\<close>.
\<close>

definition SendMessageInput :: "message_channel \<Rightarrow> memory \<Rightarrow> tbyte list \<Rightarrow> bool \<times> memory" where
  "SendMessageInput ch m msg = mq_append (m_kMsgInput ch) m msg"

definition SendMessageOutput :: "message_channel \<Rightarrow> memory \<Rightarrow> tbyte list \<Rightarrow> bool \<times> memory" where
  "SendMessageOutput ch m msg = mq_append (m_kMsgOutput ch) m msg"

definition RecvMessageOutput :: "message_channel \<Rightarrow> memory \<Rightarrow> tuint16 \<Rightarrow> (tbyte list \<times> tuint16) option \<times> memory" where
  "RecvMessageOutput ch m usMsgSize =
     (case mq_pop (m_kMsgOutput ch) m (unat usMsgSize) of
        (Some bytes, m') \<Rightarrow> (Some (bytes, word_of_nat (length bytes)), m')
      | (None, m') \<Rightarrow> (None, m'))"

definition RecvMessasgeInput :: "message_channel \<Rightarrow> memory \<Rightarrow> tuint16 \<Rightarrow> (tbyte list \<times> tuint16) option \<times> memory" where
  "RecvMessasgeInput ch m usMsgSize =
     (case mq_pop (m_kMsgInput ch) m (unat usMsgSize) of
        (Some bytes, m') \<Rightarrow> (Some (bytes, word_of_nat (length bytes)), m')
      | (None, m') \<Rightarrow> (None, m'))"

section \<open>The two queues side by side\<close>

lemma mq_inv_cong:
  assumes "\<And>a. headp q + 8 \<le> a \<Longrightarrow> a \<le> msg_base q + h_queue_size q m \<Longrightarrow> m' a = m a"
    and "mq_inv q m ms"
  shows "mq_inv q m' ms" "h_queue_size q m' = h_queue_size q m"
proof -
  have b: "msg_base q = headp q + 32" and bd: "h_read q m \<le> h_queue_size q m"
      "16 + msgs_bytes ms \<le> h_queue_size q m"
    using assms(2) by (simp_all add: mq_inv_def)
  have ch: "chain m (msg_base q) (h_queue_size q m) (h_read q m) ms (h_write q m)"
    using assms(2) unfolding mq_inv_def by (elim conjE)
  have "ld64 m' (headp q + c) = ld64 m (headp q + c)" if "8 \<le> c" "c \<le> 24" for c
    by (rule ld64_cong) (use that b in \<open>auto intro!: assms(1)\<close>)
  from this [of 8] this [of 16] this [of 24]
  have f: "h_queue_size q m' = h_queue_size q m" "h_read q m' = h_read q m" "h_write q m' = h_write q m"
    by (simp_all add: field_defs)
  have "m (msg_base q + c) = m' (msg_base q + c)" if "c \<le> h_queue_size q m" for c
    using assms(1) [of "msg_base q + c"] that b by simp
  then have "chain m' (msg_base q) (h_queue_size q m) (h_read q m) ms (h_write q m)"
    using ch chain_cong [of "h_queue_size q m" "h_read q m" ms m "msg_base q" m' "h_write q m"] win_le bd
    by simp
  then show "mq_inv q m' ms" "h_queue_size q m' = h_queue_size q m"
    using assms(2) f by (simp_all add: mq_inv_def)
qed

lemma mq_inv_empty_cong:
  assumes "\<And>a. a < msg_base q + h_queue_size q m \<Longrightarrow> m' a = m a" and "mq_inv q m []"
  shows "mq_inv q m' []" "h_queue_size q m' = h_queue_size q m"
proof -
  have b: "msg_base q = headp q + 32" using assms(2) by (simp add: mq_inv_def)
  have "ld64 m' (headp q + c) = ld64 m (headp q + c)" if "c \<le> 24" for c
    by (rule ld64_cong) (use that b in \<open>auto intro!: assms(1)\<close>)
  from this [of 8] this [of 16] this [of 24]
  have f: "h_queue_size q m' = h_queue_size q m" "h_read q m' = h_read q m" "h_write q m' = h_write q m"
    by (simp_all add: field_defs)
  then show "mq_inv q m' []" "h_queue_size q m' = h_queue_size q m"
    using assms(2) by (simp_all add: mq_inv_def)
qed

text \<open>
  What the channel's memory holds: both queues are well formed, and the output queue's header
  starts where the input queue's allocation ends.
\<close>

definition channel_inv :: "message_channel \<Rightarrow> nat \<Rightarrow> memory \<Rightarrow> tbyte list list \<Rightarrow> tbyte list list \<Rightarrow> bool" where
  "channel_inv ch qs m ins outs \<longleftrightarrow>
     mq_inv (m_kMsgInput ch) m ins \<and> mq_inv (m_kMsgOutput ch) m outs \<and>
     h_queue_size (m_kMsgInput ch) m = qs \<and>
     headp (m_kMsgOutput ch) = msg_base (m_kMsgInput ch) + qs"

definition input_room :: "message_channel \<Rightarrow> nat \<Rightarrow> tbyte list list \<Rightarrow> tbyte list \<Rightarrow> bool" where
  "input_room ch qs ins x \<longleftrightarrow> msgs_bytes ins + 8 + length x + 16 \<le> qs"

lemma channel_send_input:
  assumes inv: "channel_inv ch qs m ins outs" and len: "length x < 65536"
  shows "channel_inv ch qs (snd (SendMessageInput ch m x))
    (if fst (SendMessageInput ch m x) then ins @ [x] else ins) outs"
proof (cases "input_room ch qs ins x")
  case True
  let ?qi = "m_kMsgInput ch" and ?qo = "m_kMsgOutput ch"
  have i: "mq_inv ?qi m ins" "mq_inv ?qo m outs" "h_queue_size ?qi m = qs" "headp ?qo = msg_base ?qi + qs"
      "msg_base ?qi = headp ?qi + 32"
    using inv by (auto simp: channel_inv_def mq_inv_def)
  note a = mq_append_ok [OF i(1), of x, folded SendMessageInput_def]
  have r: "fst (SendMessageInput ch m x)" "mq_inv ?qi (snd (SendMessageInput ch m x)) (ins @ [x])"
      "h_queue_size ?qi (snd (SendMessageInput ch m x)) = qs"
      "\<forall>b. b \<notin> owned ?qi m \<longrightarrow> snd (SendMessageInput ch m x) b = m b"
    using a True i(3) by (auto simp: input_room_def SendMessageInput_def)
  have "mq_inv ?qo (snd (SendMessageInput ch m x)) outs"
  proof (rule mq_inv_cong(1) [OF _ i(2)])
    fix b assume "headp ?qo + 8 \<le> b"
    then have "b \<notin> owned ?qi m" using i by (auto simp: owned_def)
    then show "snd (SendMessageInput ch m x) b = m b" using r(4) by blast
  qed
  then show ?thesis using r i by (simp add: channel_inv_def)
next
  case False
  then have "SendMessageInput ch m x = (False, m)"
    using inv len mq_append_full [of "m_kMsgInput ch" m ins x]
    by (simp add: channel_inv_def SendMessageInput_def input_room_def)
  then show ?thesis using inv by simp
qed

lemma channel_send_output:
  assumes inv: "channel_inv ch qs m ins outs" and len: "length x < 65536"
  shows "channel_inv ch qs (snd (SendMessageOutput ch m x))
    ins (if fst (SendMessageOutput ch m x) then outs @ [x] else outs)"
proof (cases "msgs_bytes outs + 8 + length x + 16 \<le> h_queue_size (m_kMsgOutput ch) m")
  case True
  let ?qi = "m_kMsgInput ch" and ?qo = "m_kMsgOutput ch"
  have i: "mq_inv ?qi m ins" "mq_inv ?qo m outs" "h_queue_size ?qi m = qs" "headp ?qo = msg_base ?qi + qs"
      "msg_base ?qi = headp ?qi + 32" "msg_base ?qo = headp ?qo + 32"
    using inv by (auto simp: channel_inv_def mq_inv_def)
  have r: "fst (SendMessageOutput ch m x)" "mq_inv ?qo (snd (SendMessageOutput ch m x)) (outs @ [x])"
      "\<forall>b. b \<notin> owned ?qo m \<longrightarrow> snd (SendMessageOutput ch m x) b = m b"
    using mq_append_ok [OF i(2) True] by (auto simp: SendMessageOutput_def)
  have e: "snd (SendMessageOutput ch m x) b = m b" if "b \<le> msg_base ?qi + h_queue_size ?qi m" for b
  proof -
    have "b \<notin> owned ?qo m" using i that by (auto simp: owned_def)
    then show ?thesis using r(3) by blast
  qed
  have "mq_inv ?qi (snd (SendMessageOutput ch m x)) ins"
    "h_queue_size ?qi (snd (SendMessageOutput ch m x)) = h_queue_size ?qi m"
    using mq_inv_cong [OF _ i(1), of "snd (SendMessageOutput ch m x)"] e by blast+
  then show ?thesis using r i by (simp add: channel_inv_def)
next
  case False
  then have "SendMessageOutput ch m x = (False, m)"
    using inv len mq_append_full [of "m_kMsgOutput ch" m outs x]
    by (simp add: channel_inv_def SendMessageOutput_def)
  then show ?thesis using inv by simp
qed


lemma mq_pop_frame:
  assumes "mq_inv q m ms" "a < headp q + 16 \<or> headp q + 24 \<le> a"
  shows "snd (mq_pop q m cap) a = m a"
proof (cases "deliverable ms \<and> length (hd ms) \<le> cap")
  case True
  then obtain x xs where "ms = x # xs" by (cases ms) auto
  then have x: "mq_inv q m (x # xs)" "deliverable (x # xs)" "length x \<le> cap"
    using assms(1) True by simp_all
  from mq_pop_ok [OF x] have "\<forall>a. a < headp q + 16 \<or> headp q + 24 \<le> a \<longrightarrow> snd (mq_pop q m cap) a = m a"
    by blast
  then show ?thesis using assms(2) by blast
next
  case False
  then show ?thesis using mq_pop_refused [OF assms(1), of cap] by auto
qed

lemma mq_pop_result:
  assumes "mq_inv q m ms" "mq_pop q m cap = (res, m')"
  shows "case res of None \<Rightarrow> m' = m | Some x \<Rightarrow> length x \<le> cap \<and> (\<exists>xs. ms = x # xs \<and> mq_inv q m' xs \<and>
    h_queue_size q m' = h_queue_size q m)"
proof (cases "deliverable ms \<and> length (hd ms) \<le> cap")
  case True
  then obtain x xs where "ms = x # xs" by (cases ms) auto
  then show ?thesis using mq_pop_ok [of q m x xs cap] assms True by simp
next
  case False
  then show ?thesis using mq_pop_refused [OF assms(1), of cap] assms(2) by auto
qed

lemma channel_recv_input:
  assumes inv: "channel_inv ch qs m ins outs" and r: "RecvMessasgeInput ch m cap = (res, m')"
  shows "case res of None \<Rightarrow> m' = m
    | Some (x, n) \<Rightarrow> unat n = length x \<and> (\<exists>xs. ins = x # xs \<and> channel_inv ch qs m' xs outs)"
proof -
  let ?qi = "m_kMsgInput ch" and ?qo = "m_kMsgOutput ch"
  have i: "mq_inv ?qi m ins" "mq_inv ?qo m outs" "h_queue_size ?qi m = qs" "headp ?qo = msg_base ?qi + qs"
      "msg_base ?qi = headp ?qi + 32"
    using inv by (auto simp: channel_inv_def mq_inv_def)
  obtain p m1 where p: "mq_pop ?qi m (unat cap) = (p, m1)" by fastforce
  have o1: "mq_inv ?qo m1 outs"
    by (rule mq_inv_cong(1) [OF _ i(2)]) (use mq_pop_frame [OF i(1), of _ "unat cap"] p i in auto)
  then show ?thesis
    using mq_pop_result [OF i(1) p] r p i o1
    by (auto simp: RecvMessasgeInput_def channel_inv_def unat_of_nat_le split: option.splits)
qed

lemma channel_recv_output:
  assumes inv: "channel_inv ch qs m ins outs" and r: "RecvMessageOutput ch m cap = (res, m')"
  shows "case res of None \<Rightarrow> m' = m
    | Some (x, n) \<Rightarrow> unat n = length x \<and> (\<exists>xs. outs = x # xs \<and> channel_inv ch qs m' ins xs)"
proof -
  let ?qi = "m_kMsgInput ch" and ?qo = "m_kMsgOutput ch"
  have i: "mq_inv ?qi m ins" "mq_inv ?qo m outs" "h_queue_size ?qi m = qs" "headp ?qo = msg_base ?qi + qs"
      "msg_base ?qi = headp ?qi + 32"
    using inv by (auto simp: channel_inv_def mq_inv_def)
  obtain p m1 where p: "mq_pop ?qo m (unat cap) = (p, m1)" by fastforce
  have o1: "mq_inv ?qi m1 ins" "h_queue_size ?qi m1 = qs"
    using mq_inv_cong [OF _ i(1), of m1] mq_pop_frame [OF i(2), of _ "unat cap"] p i by auto
  then show ?thesis
    using mq_pop_result [OF i(2) p] r p i o1
    by (auto simp: RecvMessageOutput_def channel_inv_def unat_of_nat_le split: option.splits)
qed

section \<open>Traffic in both directions\<close>

datatype channel_op = SendIn "tbyte list" | SendOut "tbyte list" | RecvIn tuint16 | RecvOut tuint16

datatype channel_event =
  InAccepted "tbyte list" | InDelivered "tbyte list" | OutAccepted "tbyte list" | OutDelivered "tbyte list"

fun channel_step :: "message_channel \<Rightarrow> channel_op \<Rightarrow> memory \<Rightarrow> channel_event list \<times> memory" where
  "channel_step ch (SendIn x) m =
     (let (ok, m') = SendMessageInput ch m x in (if ok then [InAccepted x] else [], m'))"
| "channel_step ch (SendOut x) m =
     (let (ok, m') = SendMessageOutput ch m x in (if ok then [OutAccepted x] else [], m'))"
| "channel_step ch (RecvIn cap) m =
     (let (res, m') = RecvMessasgeInput ch m cap in (case res of None \<Rightarrow> [] | Some (x, n) \<Rightarrow> [InDelivered x], m'))"
| "channel_step ch (RecvOut cap) m =
     (let (res, m') = RecvMessageOutput ch m cap in (case res of None \<Rightarrow> [] | Some (x, n) \<Rightarrow> [OutDelivered x], m'))"

fun channel_run :: "message_channel \<Rightarrow> channel_op list \<Rightarrow> memory \<Rightarrow> channel_event list \<times> memory" where
  "channel_run ch [] m = ([], m)"
| "channel_run ch (p # ps) m =
     (let (es, m1) = channel_step ch p m; (es', m2) = channel_run ch ps m1 in (es @ es', m2))"

fun op_sendable :: "channel_op \<Rightarrow> bool" where
  "op_sendable (SendIn x) = (length x < 65536)"
| "op_sendable (SendOut x) = (length x < 65536)"
| "op_sendable (RecvIn n) = True"
| "op_sendable (RecvOut n) = True"

definition in_sent :: "channel_event list \<Rightarrow> tbyte list list" where
  "in_sent es = concat (map (\<lambda>e. case e of InAccepted x \<Rightarrow> [x] | _ \<Rightarrow> []) es)"

definition in_got :: "channel_event list \<Rightarrow> tbyte list list" where
  "in_got es = concat (map (\<lambda>e. case e of InDelivered x \<Rightarrow> [x] | _ \<Rightarrow> []) es)"

definition out_sent :: "channel_event list \<Rightarrow> tbyte list list" where
  "out_sent es = concat (map (\<lambda>e. case e of OutAccepted x \<Rightarrow> [x] | _ \<Rightarrow> []) es)"

definition out_got :: "channel_event list \<Rightarrow> tbyte list list" where
  "out_got es = concat (map (\<lambda>e. case e of OutDelivered x \<Rightarrow> [x] | _ \<Rightarrow> []) es)"

lemmas event_defs = in_sent_def in_got_def out_sent_def out_got_def

lemma event_logs_append:
  "in_sent (es @ es') = in_sent es @ in_sent es'" "in_got (es @ es') = in_got es @ in_got es'"
  "out_sent (es @ es') = out_sent es @ out_sent es'" "out_got (es @ es') = out_got es @ out_got es'"
  by (simp_all add: event_defs)

lemma channel_step_fifo:
  assumes "channel_inv ch qs m ins outs" "op_sendable p" "channel_step ch p m = (es, m')"
  shows "\<exists>ins' outs'. channel_inv ch qs m' ins' outs' \<and> ins @ in_sent es = in_got es @ ins' \<and>
    outs @ out_sent es = out_got es @ outs'"
proof (cases p)
  case (SendIn x)
  then show ?thesis
    using channel_send_input [OF assms(1), of x] assms(2,3)
    by (auto simp: event_defs split: prod.splits if_splits)
next
  case (SendOut x)
  then show ?thesis
    using channel_send_output [OF assms(1), of x] assms(2,3)
    by (auto simp: event_defs split: prod.splits if_splits)
next
  case (RecvIn cap)
  obtain res m1 where r: "RecvMessasgeInput ch m cap = (res, m1)" by fastforce
  show ?thesis
    using channel_recv_input [OF assms(1) r] assms(1,3) r RecvIn
    by (cases res) (auto simp: event_defs)
next
  case (RecvOut cap)
  obtain res m1 where r: "RecvMessageOutput ch m cap = (res, m1)" by fastforce
  show ?thesis
    using channel_recv_output [OF assms(1) r] assms(1,3) r RecvOut
    by (cases res) (auto simp: event_defs)
qed

lemma channel_run_fifo:
  assumes "channel_inv ch qs m ins outs" "list_all op_sendable ps" "channel_run ch ps m = (es, m')"
  shows "\<exists>ins' outs'. channel_inv ch qs m' ins' outs' \<and> ins @ in_sent es = in_got es @ ins' \<and>
    outs @ out_sent es = out_got es @ outs'"
  using assms
proof (induction ps arbitrary: m ins outs es m')
  case Nil
  then show ?case by (auto simp: event_defs)
next
  case (Cons p ps)
  obtain e1 m1 where s1: "channel_step ch p m = (e1, m1)" by fastforce
  obtain e2 m2 where s2: "channel_run ch ps m1 = (e2, m2)" by fastforce
  obtain i1 o1 where 1: "channel_inv ch qs m1 i1 o1" "ins @ in_sent e1 = in_got e1 @ i1"
      "outs @ out_sent e1 = out_got e1 @ o1"
    using channel_step_fifo [OF Cons.prems(1) _ s1] Cons.prems(2) by auto
  obtain i2 o2 where 2: "channel_inv ch qs m2 i2 o2" "i1 @ in_sent e2 = in_got e2 @ i2"
      "o1 @ out_sent e2 = out_got e2 @ o2"
    using Cons.IH [OF 1(1) _ s2] Cons.prems(2) by auto
  have "es = e1 @ e2" "m' = m2" using Cons.prems(3) s1 s2 by auto
  then show ?case using 1 2 by (metis append.assoc event_logs_append)
qed


section \<open>InitMessageQueue\<close>

lemma size_of_tint32_nonneg: "0 \<le> sint n \<Longrightarrow> size_of_tint32 n = nat (sint n) \<and> size_of_tint32 n < 2 ^ 31"
proof -
  assume n: "0 \<le> sint n"
  have b: "sint n < 2 ^ 31" using sint_less [of n] by simp
  have "uint (word_of_int (sint n) :: 64 word) = sint n"
    unfolding uint_word_of_int using n b by (intro mod_pos_pos_trivial) auto
  then have "size_of_tint32 n = nat (sint n)"
    unfolding size_of_tint32_def unat_eq_nat_uint scast_eq by (simp only:)
  then show ?thesis using n b by simp
qed

lemma InitMessageQueue_fresh:
  assumes att: "attach_share_memory os w (m_kShareMemory ch) key
      (sz_add (alloc_size (size_of_tint32 ni)) (alloc_size (size_of_tint32 no))) = (True, sm1, w1)"
    and md: "get_mode sm1 = ESM_INIT" and n: "0 \<le> sint ni" "0 \<le> sint no"
  shows "\<exists>ch' m'. InitMessageQueue os w ch m key ni no = Some (True, ch', m', w1) \<and>
    channel_inv ch' (size_of_tint32 ni + 16) m' [] [] \<and>
    mq_size (m_kMsgInput ch') m' = size_of_tint32 ni \<and> mq_size (m_kMsgOutput ch') m' = size_of_tint32 no \<and>
    headp (m_kMsgInput ch') = m_pMemBase sm1 + 48"
proof -
  define ki ko where "ki = size_of_tint32 ni" and "ko = size_of_tint32 no"
  note d = ki_def [symmetric] ko_def [symmetric]
  have k: "ki < 2 ^ 31" "ko < 2 ^ 31" using n size_of_tint32_nonneg unfolding ki_def ko_def by blast+
  then have kk: "2 * (ki + 16) + 32 < size_max" "2 * (ko + 16) + 32 < size_max" by simp_all
  have al: "alloc_size ki = ki + 48" "alloc_size ko = ko + 48"
    using mq_init_sizes(1) [OF kk(1)] mq_init_sizes(1) [OF kk(2)] .
  have tot: "sz_add (ki + 48) (ko + 48) = ki + ko + 96" using k by (simp add: sz_simps)
  have at: "attach_share_memory os w (m_kShareMemory ch) key (ki + ko + 96) = (True, sm1, w1)"
    using att by (simp add: d al tot)
  have "ki + ko + 96 + 48 < size_max" using k by simp
  note a = attach_attached(1-3) [OF at this]
  define b where "b = m_pMemBase sm1"
  define sm2 where "sm2 = sm1\<lparr>m_uiOffset := 48 + (ki + 48)\<rparr>"
  define sm3 where "sm3 = sm2\<lparr>m_uiOffset := 48 + (ki + 48) + (ko + 48)\<rparr>"
  have c1: "create_segment sm1 (ki + 48) = (b + 48, sm2)"
    using create_segment_step [OF a(1), of "ki + 48"] a by (simp add: b_def sm2_def)
  then have a2: "sm_attached sm2" using create_segment_attached [OF a(1), of "ki + 48"] by simp
  have c2: "create_segment sm2 (ko + 48) = (b + 48 + (ki + 48), sm3)"
    using create_segment_step [OF a2, of "ko + 48"] a by (simp add: b_def sm2_def sm3_def)
  have bpos: "b \<noteq> 0" using a(1) by (simp add: b_def sm_attached_def)
  have modes: "get_mode sm2 = ESM_INIT" "get_mode sm3 = ESM_INIT"
    using md by (simp_all add: sm2_def sm3_def get_mode_def)
  define qi qo where "qi = \<lparr>headp = b + 48, msg_base = b + 48 + 32\<rparr>"
    and "qo = \<lparr>headp = b + 48 + (ki + 48), msg_base = b + 48 + (ki + 48) + 32\<rparr>"
  obtain m1 where m1: "mq_init (m_kMsgInput ch) m (b + 48) (ki + 48) ki ESM_INIT = (True, qi, m1)"
      "mq_inv qi m1 []" "h_queue_size qi m1 = ki + 16"
    using mq_init_inv [OF kk(1), of "m_kMsgInput ch" m "b + 48", unfolded al] unfolding qi_def by blast
  obtain m2 where m2: "mq_init (m_kMsgOutput ch) m1 (b + 48 + (ki + 48)) (ko + 48) ko ESM_INIT = (True, qo, m2)"
      "mq_inv qo m2 []" "h_queue_size qo m2 = ko + 16"
    using mq_init_inv [OF kk(2), of "m_kMsgOutput ch" m1 "b + 48 + (ki + 48)", unfolded al] unfolding qo_def
    by blast
  have run: "InitMessageQueue os w ch m key ni no =
      Some (True, ch\<lparr>m_kShareMemory := sm3, m_kMsgInput := qi, m_kMsgOutput := qo\<rparr>, m2, w1)"
    using at c1 c2 m1(1) m2(1) bpos modes
    by (simp add: InitMessageQueue_def d al tot Let_def queue_init_at_def)
  have fr: "m2 x = m1 x" if "x < b + 48 + (ki + 48)" for x
    using mq_init_frame [of "m_kMsgOutput ch" m1 "b + 48 + (ki + 48)" ko True qo m2 x] m2(1) that
    by (simp add: al)
  have "m2 x = m1 x" if "x < msg_base qi + h_queue_size qi m1" for x
    using fr that m1(3) by (simp add: qi_def)
  then have qi2: "mq_inv qi m2 []" "h_queue_size qi m2 = ki + 16"
    using mq_inv_empty_cong [OF _ m1(2), of m2] m1(3) by simp_all
  then show ?thesis
    using run m2 mq_inv_sizes(3) [OF qi2(1)] mq_inv_sizes(3) [OF m2(2)] qi2
    by (simp add: channel_inv_def d) (simp add: qi_def qo_def b_def)
qed


section \<open>Properties\<close>

text \<open>C4: over any interleaving of the four transfers on a channel, each direction is first in
  first out and neither disturbs the other, although an append to the input queue may write the
  first byte of the output queue's header.\<close>

theorem channel_duplex:
  assumes "channel_inv ch qs m ins outs" "list_all op_sendable ps" "channel_run ch ps m = (es, m')"
  shows "\<exists>ins' outs'. channel_inv ch qs m' ins' outs' \<and> ins @ in_sent es = in_got es @ ins' \<and>
    outs @ out_sent es = out_got es @ outs'"
  using assms by (rule channel_run_fifo)

text \<open>A channel of two queues of 24 bytes.\<close>

definition demo_channel :: "(bool \<times> message_channel \<times> memory \<times> unit) option" where
  "demo_channel = InitMessageQueue demo_os ()
     \<lparr>m_kShareMemory = Share_Memory_new, m_kMsgOutput = \<lparr>headp = 0, msg_base = 0\<rparr>,
      m_kMsgInput = \<lparr>headp = 0, msg_base = 0\<rparr>\<rparr> (\<lambda>_. 0) 7 24 24"

lemma demo_sizes: "size_of_tint32 24 = 24" "alloc_size 24 = 72"
  by (simp_all add: size_of_tint32_def alloc_size_def sz_simps)

lemma demo_channel_attach:
  "attach_share_memory demo_os () Share_Memory_new 7
     (sz_add (alloc_size (size_of_tint32 24)) (alloc_size (size_of_tint32 24))) =
    (True, \<lparr>m_uiKey = 7, m_uiSize = 192, m_uiOffset = 48, m_hShareMemHandle = 5, m_pMemBase = 65536,
       m_enmMode = ESM_INIT\<rparr>, ())"
  using demo_attach [of 144] by (simp add: demo_sizes sz_simps)

lemma demo_channel_inv:
  "\<exists>ch m. demo_channel = Some (True, ch, m, ()) \<and> channel_inv ch 40 m [] [] \<and> headp (m_kMsgInput ch) = 65584"
  using InitMessageQueue_fresh [where ni = 24 and no = 24 and os = demo_os and key = 7 and
      ch = "\<lparr>m_kShareMemory = Share_Memory_new, m_kMsgOutput = \<lparr>headp = 0, msg_base = 0\<rparr>,
      m_kMsgInput = \<lparr>headp = 0, msg_base = 0\<rparr>\<rparr>" and m = "\<lambda>_. 0" and w = "()"] demo_channel_attach
  by (simp add: get_mode_def demo_channel_def demo_sizes) blast

theorem channel_duplex_witness:
  "\<exists>ch m m'. demo_channel = Some (True, ch, m, ()) \<and>
     channel_run ch [SendIn [1], RecvIn 10, RecvOut 9] m = ([InAccepted [1], InDelivered [1]], m') \<and>
     channel_inv ch 40 m' [] []"
proof -
  obtain ch m where c: "demo_channel = Some (True, ch, m, ())" "channel_inv ch 40 m [] []"
    using demo_channel_inv by blast
  let ?qi = "m_kMsgInput ch"
  have i: "mq_inv ?qi m []" "h_queue_size ?qi m = 40" using c(2) by (simp_all add: channel_inv_def)
  obtain m1 where s1: "SendMessageInput ch m [1] = (True, m1)"
    using mq_append_ok [OF i(1), of "[1]"] i(2)
    by (cases "mq_append ?qi m [1]") (simp add: SendMessageInput_def)
  have c1: "channel_inv ch 40 m1 [[1]] []" using channel_send_input [OF c(2), of "[1]"] s1 by simp
  have i1: "mq_inv ?qi m1 [[1]]" using c1 by (simp add: channel_inv_def)
  obtain m2 where p2: "mq_pop ?qi m1 10 = (Some [1], m2)"
    using mq_pop_ok [OF i1, of 10] by (cases "mq_pop ?qi m1 10") simp
  then have s2: "RecvMessasgeInput ch m1 10 = (Some ([1], 1), m2)" by (simp add: RecvMessasgeInput_def)
  have c2: "channel_inv ch 40 m2 [] []" using channel_recv_input [OF c1 s2] by simp
  have s4: "RecvMessageOutput ch m2 9 = (None, m2)"
    using mq_pop_refused [of "m_kMsgOutput ch" m2 "[]" 9] c2 by (simp add: RecvMessageOutput_def channel_inv_def)
  have run: "channel_run ch [SendIn [1], RecvIn 10, RecvOut 9] m = ([InAccepted [1], InDelivered [1]], m2)"
    using s1 s2 s4 by simp
  have "\<exists>ins' outs'. channel_inv ch 40 m2 ins' outs' \<and> [[1]] = [[1]] @ ins' \<and> [] = outs'"
    using channel_duplex [OF c(2) _ run] by (simp add: event_defs)
  then show ?thesis using c run by auto
qed

text \<open>a channel set up on a freshly mapped block has two empty, well formed queues of the sizes
  asked for, placed one behind the other in the block.\<close>

theorem channel_start:
  assumes "attach_share_memory os w (m_kShareMemory ch) key
      (sz_add (alloc_size (size_of_tint32 ni)) (alloc_size (size_of_tint32 no))) = (True, sm1, w1)"
    and "get_mode sm1 = ESM_INIT" "0 \<le> sint ni" "0 \<le> sint no"
  shows "\<exists>ch' m'. InitMessageQueue os w ch m key ni no = Some (True, ch', m', w1) \<and>
    channel_inv ch' (size_of_tint32 ni + 16) m' [] [] \<and>
    mq_size (m_kMsgInput ch') m' = size_of_tint32 ni \<and> mq_size (m_kMsgOutput ch') m' = size_of_tint32 no \<and>
    headp (m_kMsgInput ch') = m_pMemBase sm1 + 48"
  using assms by (rule InitMessageQueue_fresh)

theorem channel_start_witness:
  "\<exists>ch' m'. InitMessageQueue demo_os () \<lparr>m_kShareMemory = Share_Memory_new,
       m_kMsgOutput = \<lparr>headp = 0, msg_base = 0\<rparr>, m_kMsgInput = \<lparr>headp = 0, msg_base = 0\<rparr>\<rparr> (\<lambda>_. 9) 7 24 24 =
       Some (True, ch', m', ()) \<and> mq_size (m_kMsgOutput ch') m' = 24"
  using channel_start [where ni = 24 and no = 24 and os = demo_os and key = 7 and
      ch = "\<lparr>m_kShareMemory = Share_Memory_new, m_kMsgOutput = \<lparr>headp = 0, msg_base = 0\<rparr>,
      m_kMsgInput = \<lparr>headp = 0, msg_base = 0\<rparr>\<rparr>" and m = "\<lambda>_. 9" and w = "()"] demo_channel_attach
  by (simp add: get_mode_def demo_sizes) blast

text \<open>\<open>InitMessageQueue\<close> does not look at the result of \<open>attach_share_memory\<close>: when the block
  cannot be opened or created, a new channel uses the null address as a queue header.\<close>

theorem channel_attach_refused:
  assumes "m_kShareMemory ch = Share_Memory_new"
    and "\<And>k n fl v. fst (shmget os v k n fl) = INVALID_SM_HANDLE"
  shows "InitMessageQueue os w ch m key ni no = None"
proof -
  define n where "n = sz_add (alloc_size (size_of_tint32 ni)) (alloc_size (size_of_tint32 no))"
  have inv: "\<exists>v'. shmget os v k l fl = (INVALID_SM_HANDLE, v')" for v k l fl
    using assms(2) [of v k l fl] by (cases "shmget os v k l fl") auto
  obtain w1 where w1: "OpenShareMem os w key (sz_add n sizeof_Share_Memory) = (INVALID_SM_HANDLE, w1)"
    using inv unfolding OpenShareMem_def by blast
  obtain w2 where w2: "CreateShareMem os w1 key (sz_add n sizeof_Share_Memory) = (INVALID_SM_HANDLE, w2)"
    using inv unfolding CreateShareMem_def by blast
  have "\<exists>w'. attach_share_memory os w Share_Memory_new key n = (False, Share_Memory_new, w')"
    using w1 w2 by (cases "n \<le> 0") (simp_all add: attach_share_memory_def)
  then obtain w' where "attach_share_memory os w Share_Memory_new key n = (False, Share_Memory_new, w')" by blast
  moreover have "create_segment Share_Memory_new l = (0, Share_Memory_new)" for l
    by (simp add: create_segment_def Share_Memory_new_def)
  ultimately show ?thesis
    by (simp add: InitMessageQueue_def assms(1) n_def [symmetric] queue_init_at_def)
qed

definition demo_os_refusing :: "unit shm_os" where
  "demo_os_refusing = demo_os\<lparr>shmget := (\<lambda>w key n flags. (- 1, w))\<rparr>"

theorem channel_attach_refused_witness:
  "InitMessageQueue demo_os_refusing () \<lparr>m_kShareMemory = Share_Memory_new,
     m_kMsgOutput = \<lparr>headp = 0, msg_base = 0\<rparr>, m_kMsgInput = \<lparr>headp = 0, msg_base = 0\<rparr>\<rparr> (\<lambda>_. 0) 7 24 24 = None"
  by (rule channel_attach_refused) (simp_all add: demo_os_refusing_def INVALID_SM_HANDLE_def)

end
