(* ===== verification/MessageCodec.thy ===== *)
theory MessageCodec
  imports Prelude
begin

text \<open>
  Service messages: \<open>include/common/message.h\<close> and \<open>src/common/message.cpp\<close>. A message's head is
  copied field by field into the buffer, the body is placed behind \<open>sizeof (MessageHead)\<close> bytes,
  which is more than the fields take. A concrete message class is a record of its virtual
  functions; the login messages of \<open>test/MessageTest.cpp\<close> are two of them, over protobuf
  functions that are parameters.
\<close>

section \<open>MessageHead\<close>

record message_head =
  mh_nSize :: tint32
  mh_usMessageID :: tuint16
  m_nSrcServiceType :: tint16
  m_nScrServiceID :: tint16
  m_nDstServiceType :: tint16
  m_nDstServiceID :: tint16

definition MessageHead_new :: message_head where
  "MessageHead_new = \<lparr>mh_nSize = 0, mh_usMessageID = 0, m_nSrcServiceType = - 1, m_nScrServiceID = - 1,
     m_nDstServiceType = - 1, m_nDstServiceID = - 1\<rparr>"

text \<open>Pointer to the virtual functions (8), the fields (14), rounded up to the alignment of 8.\<close>

definition sizeof_MessageHead :: nat where
  "sizeof_MessageHead = 24"

text \<open>\<open>Encode\<close>: the bytes it stores at \<open>pBuff\<close>, \<open>None\<close> when it returns false.\<close>

definition MessageHead_Encode :: "message_head \<Rightarrow> tuint16 \<Rightarrow> tbyte list option" where
  "MessageHead_Encode mh nBufSize =
     (if unat nBufSize < sizeof_MessageHead then None
      else Some (bytes32 (mh_nSize mh) @ bytes16 (mh_usMessageID mh) @ bytes16 (m_nSrcServiceType mh) @
             bytes16 (m_nScrServiceID mh) @ bytes16 (m_nDstServiceType mh) @ bytes16 (m_nDstServiceID mh)))"

text \<open>
  \<open>Decode\<close> with \<open>buf\<close> the bytes that may be read at \<open>pBuff\<close>; \<open>None\<close> when the copies read past
  them. The result is the returned value and the head.
\<close>

definition MessageHead_Decode :: "message_head \<Rightarrow> tbyte list \<Rightarrow> tint32 \<Rightarrow> (bool \<times> message_head) option" where
  "MessageHead_Decode mh buf nSize =
     (if sint nSize < 4 + 2 then Some (False, mh)
      else if length buf < 14 then None
      else Some (True, \<lparr>mh_nSize = word32_at buf 0, mh_usMessageID = word16_at buf 4,
             m_nSrcServiceType = word16_at buf 6, m_nScrServiceID = word16_at buf 8,
             m_nDstServiceType = word16_at buf 10, m_nDstServiceID = word16_at buf 12\<rparr>))"

lemma head_bytes_length: "MessageHead_Encode mh n = Some bs \<Longrightarrow> length bs = 14"
  by (auto simp: MessageHead_Encode_def split: if_splits)

lemma head_decode_bytes:
  assumes "MessageHead_Encode mh n = Some bs" "take 14 buf = bs" "6 \<le> sint nSize"
  shows "MessageHead_Decode mh0 buf nSize = Some (True, mh)"
proof -
  have b: "take 14 buf = bytes32 (mh_nSize mh) @ bytes16 (mh_usMessageID mh) @ bytes16 (m_nSrcServiceType mh) @
      bytes16 (m_nScrServiceID mh) @ bytes16 (m_nDstServiceType mh) @ bytes16 (m_nDstServiceID mh)"
    using assms(1,2) by (auto simp: MessageHead_Encode_def split: if_splits)
  have "length (take 14 buf) = 14" using head_bytes_length [OF assms(1)] assms(2) by simp
  then have l: "\<not> length buf < 14" by simp
  have t: "take k (drop i buf) = take k (drop i (take 14 buf))" if "i + k \<le> 14" for i k
    using that by (simp add: take_drop min_def)
  have "word32_at buf 0 = mh_nSize mh" by (rule word32_bytes32) (subst t, simp, simp add: b)
  moreover have "word16_at buf 4 = mh_usMessageID mh" by (rule word16_bytes16) (subst t, simp, simp add: b)
  moreover have "word16_at buf 6 = m_nSrcServiceType mh" by (rule word16_bytes16) (subst t, simp, simp add: b)
  moreover have "word16_at buf 8 = m_nScrServiceID mh" by (rule word16_bytes16) (subst t, simp, simp add: b)
  moreover have "word16_at buf 10 = m_nDstServiceType mh" by (rule word16_bytes16) (subst t, simp, simp add: b)
  moreover have "word16_at buf 12 = m_nDstServiceID mh" by (rule word16_bytes16) (subst t, simp, simp add: b)
  ultimately show ?thesis using assms(3) l by (simp add: MessageHead_Decode_def)
qed

section \<open>Message classes\<close>

text \<open>
  The virtual functions of a class derived from \<open>Message\<close>. \<open>Encode\<close> gets the size of the buffer and
  gives its result, the bytes stored in the buffer and the new value of \<open>nBufSize\<close>; \<open>Decode\<close> gets
  the bytes, of which it is told the number.
\<close>

record 'm message_class =
  GetMessageID :: "'m \<Rightarrow> tuint16"
  msg_Encode :: "'m \<Rightarrow> tuint16 \<Rightarrow> bool \<times> tbyte list \<times> tuint16"
  msg_Decode :: "'m \<Rightarrow> tbyte list \<Rightarrow> bool \<times> 'm"

definition MESSAGE_BUF_SIZE :: nat where
  "MESSAGE_BUF_SIZE = 65535"

record message_encoder =
  m_szMsgBuf :: "tbyte list"
  m_usMsgSize :: tuint16

text \<open>A new encoder: the buffer holds what the storage held, but for its first byte.\<close>

definition MessageEncoder_Clear :: "message_encoder \<Rightarrow> message_encoder" where
  "MessageEncoder_Clear en = en\<lparr>m_szMsgBuf := (m_szMsgBuf en)[0 := 0], m_usMsgSize := 0\<rparr>"

definition MessageEncoder_new :: "tbyte list \<Rightarrow> message_encoder" where
  "MessageEncoder_new storage = MessageEncoder_Clear \<lparr>m_szMsgBuf = storage, m_usMsgSize = 0\<rparr>"

definition MessageEncoder_GetBuff :: "message_encoder \<Rightarrow> tbyte list" where
  "MessageEncoder_GetBuff en = m_szMsgBuf en"

definition MessageEncoder_GetSize :: "message_encoder \<Rightarrow> tuint16" where
  "MessageEncoder_GetSize en = m_usMsgSize en"

text \<open>\<open>MessageEncoder::Encode\<close>; \<open>None\<close> when the class writes outside the encoder's buffer.\<close>

definition MessageEncoder_Encode :: "'m message_class \<Rightarrow> message_encoder \<Rightarrow> 'm option \<Rightarrow> message_head
    \<Rightarrow> (bool \<times> message_encoder \<times> message_head) option" where
  "MessageEncoder_Encode cls en pkMessage rkHead =
     (case pkMessage of
        None \<Rightarrow> Some (False, en, rkHead)
      | Some msg \<Rightarrow>
          let (ok, body, nMessageLen) = msg_Encode cls msg (word_of_nat (MESSAGE_BUF_SIZE - sizeof_MessageHead))
          in case buf_write (m_szMsgBuf en) sizeof_MessageHead body of
               None \<Rightarrow> None
             | Some buf1 \<Rightarrow>
                 if \<not> ok then Some (False, en\<lparr>m_szMsgBuf := buf1\<rparr>, rkHead)
                 else
                   let mh1 = rkHead\<lparr>mh_usMessageID := GetMessageID cls msg, mh_nSize := ucast nMessageLen\<rparr>;
                       usHeadLen = word_of_nat sizeof_MessageHead
                   in case MessageHead_Encode mh1 usHeadLen of
                        None \<Rightarrow> Some (False, en\<lparr>m_szMsgBuf := buf1\<rparr>, mh1)
                      | Some hb \<Rightarrow>
                          (case buf_write buf1 0 hb of
                             None \<Rightarrow> None
                           | Some buf2 \<Rightarrow>
                               Some (True, \<lparr>m_szMsgBuf = buf2, m_usMsgSize = usHeadLen + nMessageLen\<rparr>, mh1)))"

section \<open>The login messages\<close>

text \<open>The functions of a protobuf message used by the sources.\<close>

record 'd protobuf =
  ByteSize :: "'d \<Rightarrow> tint32"
  SerializePartialToArray :: "'d \<Rightarrow> tint32 \<Rightarrow> bool \<times> tbyte list"
  ParseFromArray :: "'d \<Rightarrow> tbyte list \<Rightarrow> bool \<times> 'd"

text \<open>Their documented behaviour for a message: when the array is large enough, exactly \<open>ByteSize\<close> bytes are written.\<close>

definition protobuf_writes :: "'d protobuf \<Rightarrow> 'd \<Rightarrow> bool" where
  "protobuf_writes pb d \<longleftrightarrow> (\<forall>n. 0 \<le> sint (ByteSize pb d) \<and>
     (if sint (ByteSize pb d) \<le> sint n
      then fst (SerializePartialToArray pb d n) \<and> int (length (snd (SerializePartialToArray pb d n))) = sint (ByteSize pb d)
      else SerializePartialToArray pb d n = (False, [])))"

definition MSG_NH_REQ_LOGIN :: tuint16 where "MSG_NH_REQ_LOGIN = 1"
definition MSG_HN_RET_LOGIN :: tuint16 where "MSG_HN_RET_LOGIN = 2"

definition M_REQ_Login_Encode :: "'d protobuf \<Rightarrow> 'd \<Rightarrow> tuint16 \<Rightarrow> bool \<times> tbyte list \<times> tuint16" where
  "M_REQ_Login_Encode pb d nBufSize =
     (let (ok, bs) = SerializePartialToArray pb d (ucast nBufSize)
      in if \<not> ok then (False, bs, nBufSize) else (True, bs, ucast (ByteSize pb d)))"

definition M_REQ_Login_Decode :: "'d protobuf \<Rightarrow> 'd \<Rightarrow> tbyte list \<Rightarrow> bool \<times> 'd" where
  "M_REQ_Login_Decode pb d bs = (let (ok, d') = ParseFromArray pb d bs in if \<not> ok then (False, d') else (True, d'))"

definition M_RET_Login_Encode :: "'d protobuf \<Rightarrow> 'd \<Rightarrow> tuint16 \<Rightarrow> bool \<times> tbyte list \<times> tuint16" where
  "M_RET_Login_Encode pb d nBufSize =
     (let (ok, bs) = SerializePartialToArray pb d (ucast nBufSize)
      in if \<not> ok then (False, bs, nBufSize) else (True, bs, ucast (ByteSize pb d)))"

definition M_RET_Login_Decode :: "'d protobuf \<Rightarrow> 'd \<Rightarrow> tbyte list \<Rightarrow> bool \<times> 'd" where
  "M_RET_Login_Decode pb d bs = (let (ok, d') = ParseFromArray pb d bs in if \<not> ok then (False, d') else (True, d'))"

definition M_REQ_Login :: "'d protobuf \<Rightarrow> 'd message_class" where
  "M_REQ_Login pb = \<lparr>GetMessageID = (\<lambda>_. MSG_NH_REQ_LOGIN), msg_Encode = M_REQ_Login_Encode pb,
     msg_Decode = M_REQ_Login_Decode pb\<rparr>"

definition M_RET_Login :: "'d protobuf \<Rightarrow> 'd message_class" where
  "M_RET_Login pb = \<lparr>GetMessageID = (\<lambda>_. MSG_HN_RET_LOGIN), msg_Encode = M_RET_Login_Encode pb,
     msg_Decode = M_RET_Login_Decode pb\<rparr>"


section \<open>What the encoder relies on, and what it gives\<close>

text \<open>A class keeps inside the space it is given and reports what it used.\<close>

definition encodes_within :: "'m message_class \<Rightarrow> 'm \<Rightarrow> bool" where
  "encodes_within cls msg \<longleftrightarrow> (\<forall>n ok bs n'. msg_Encode cls msg n = (ok, bs, n') \<longrightarrow>
     length bs \<le> unat n \<and> (ok \<longrightarrow> unat n' = length bs))"

lemma login_within:
  assumes "protobuf_writes pb d"
  shows "encodes_within (M_REQ_Login pb) d" "encodes_within (M_RET_Login pb) d"
proof -
  have *: "length bs \<le> unat n \<and> (ok \<longrightarrow> unat n' = length bs)"
    if "M_REQ_Login_Encode pb d n = (ok, bs, n')" for n ok bs n'
  proof -
    obtain ok1 bs1 where s1: "SerializePartialToArray pb d (ucast n) = (ok1, bs1)" by fastforce
    have k: "0 \<le> sint (ByteSize pb d)" using assms by (simp add: protobuf_writes_def)
    have c: "if sint (ByteSize pb d) \<le> uint n then ok1 \<and> int (length bs1) = sint (ByteSize pb d)
        else ok1 = False \<and> bs1 = []"
      using assms [unfolded protobuf_writes_def, THEN spec, of "ucast n", unfolded sint_ucast_up16 s1]
      by (simp split: if_splits)
    show ?thesis
    proof (cases "sint (ByteSize pb d) \<le> uint n")
      case True
      then have "uint (ucast (ByteSize pb d) :: tuint16) = sint (ByteSize pb d)"
        using k uint_bounded [of n] by (intro uint_ucast_down16) auto
      then have "uint (ucast (ByteSize pb d) :: tuint16) = int (length bs1)" using c True by simp
      then have "unat (ucast (ByteSize pb d) :: tuint16) = length bs1" unfolding uint_nat by (simp only: of_nat_eq_iff)
      moreover have "int (length bs1) \<le> uint n" using c True by simp
      then have "length bs1 \<le> unat n" unfolding uint_nat by (simp only: of_nat_le_iff)
      ultimately show ?thesis using c True s1 that by (simp add: M_REQ_Login_Encode_def)
    next
      case False
      then show ?thesis using c s1 that by (simp add: M_REQ_Login_Encode_def)
    qed
  qed
  then show "encodes_within (M_REQ_Login pb) d" by (auto simp: encodes_within_def M_REQ_Login_def)
  have "M_RET_Login_Encode pb d n = M_REQ_Login_Encode pb d n" for d n
    by (simp add: M_RET_Login_Encode_def M_REQ_Login_Encode_def)
  then show "encodes_within (M_RET_Login pb) d" using * by (auto simp: encodes_within_def M_RET_Login_def)
qed

lemma encoder_ok:
  assumes "encodes_within cls msg" "length (m_szMsgBuf en) = MESSAGE_BUF_SIZE"
    and "msg_Encode cls msg (word_of_nat (MESSAGE_BUF_SIZE - sizeof_MessageHead)) = (True, body, n')"
    and "mh1 = mh\<lparr>mh_usMessageID := GetMessageID cls msg, mh_nSize := ucast n'\<rparr>"
  shows "\<exists>en'. MessageEncoder_Encode cls en (Some msg) mh = Some (True, en', mh1) \<and>
    length (m_szMsgBuf en') = MESSAGE_BUF_SIZE \<and>
    unat (m_usMsgSize en') = sizeof_MessageHead + length body \<and>
    take (length body) (drop sizeof_MessageHead (m_szMsgBuf en')) = body \<and>
    Some (take 14 (m_szMsgBuf en')) = MessageHead_Encode mh1 24"
proof -
  have cap: "unat (word_of_nat (MESSAGE_BUF_SIZE - sizeof_MessageHead) :: tuint16) = 65511"
    by (simp add: MESSAGE_BUF_SIZE_def sizeof_MessageHead_def)
  have b: "length body \<le> 65511" "unat n' = length body"
    using assms(1,3) cap unfolding encodes_within_def by metis+
  obtain buf1 where buf1: "buf_write (m_szMsgBuf en) 24 body = Some buf1"
    using b assms(2) by (simp add: buf_write_def MESSAGE_BUF_SIZE_def)
  obtain hb where hb: "MessageHead_Encode mh1 24 = Some hb"
    by (simp add: MessageHead_Encode_def sizeof_MessageHead_def)
  have lb: "length buf1 = 65535" using buf_write_length [OF buf1] assms(2) by (simp add: MESSAGE_BUF_SIZE_def)
  obtain buf2 where buf2: "buf_write buf1 0 hb = Some buf2"
    using lb head_bytes_length [OF hb] by (simp add: buf_write_def)
  have "MessageEncoder_Encode cls en (Some msg) mh =
      Some (True, \<lparr>m_szMsgBuf = buf2, m_usMsgSize = 24 + n'\<rparr>, mh1)"
    using buf1 hb buf2 assms(3,4) by (simp add: MessageEncoder_Encode_def Let_def sizeof_MessageHead_def)
  moreover have "unat (24 + n') = 24 + length body"
    using b by (simp add: unat_plus_if' )
  moreover have "drop 24 buf2 = drop 24 buf1"
    using buf_write_after [OF buf2] head_bytes_length [OF hb] by simp
  moreover have "take (length body) (drop 24 buf1) = body" using buf_write_inside [OF buf1] .
  moreover have "take 14 buf2 = hb" using buf_write_inside [OF buf2] head_bytes_length [OF hb] by simp
  moreover have "length buf2 = 65535" using buf_write_length [OF buf2] lb by simp
  ultimately show ?thesis using hb by (simp add: sizeof_MessageHead_def MESSAGE_BUF_SIZE_def)
qed

section \<open>Properties\<close>

text \<open>C27: what \<open>MessageEncoder::Encode\<close> produces for a class that stays inside the buffer it is given:
  the encoder's buffer decodes to the caller's head with the message's id and the body's length in
  it, the body stands behind the head, and the size is the head's and the body's; when the class
  refuses, the encoder refuses, and neither head nor size changes.\<close>

theorem message_encode_decode:
  assumes "encodes_within cls msg" "length (m_szMsgBuf en) = MESSAGE_BUF_SIZE"
    and "msg_Encode cls msg (word_of_nat (MESSAGE_BUF_SIZE - sizeof_MessageHead)) = (ok, body, n')"
  shows "\<exists>en' mh'. MessageEncoder_Encode cls en (Some msg) mh = Some (ok, en', mh') \<and>
    (if ok
     then mh' = mh\<lparr>mh_usMessageID := GetMessageID cls msg, mh_nSize := ucast n'\<rparr> \<and>
       unat (mh_nSize mh') = length body \<and>
       unat (MessageEncoder_GetSize en') = sizeof_MessageHead + length body \<and>
       MessageHead_Decode mh0 (MessageEncoder_GetBuff en') (ucast (MessageEncoder_GetSize en')) = Some (True, mh') \<and>
       take (length body) (drop sizeof_MessageHead (MessageEncoder_GetBuff en')) = body
     else mh' = mh \<and> MessageEncoder_GetSize en' = MessageEncoder_GetSize en)"
proof (cases ok)
  case True
  define mh1 where "mh1 = mh\<lparr>mh_usMessageID := GetMessageID cls msg, mh_nSize := ucast n'\<rparr>"
  have a3: "msg_Encode cls msg (word_of_nat (MESSAGE_BUF_SIZE - sizeof_MessageHead)) = (True, body, n')"
    using assms(3) True by simp
  obtain en' where e: "MessageEncoder_Encode cls en (Some msg) mh = Some (True, en', mh1)"
      "unat (m_usMsgSize en') = sizeof_MessageHead + length body"
      "take (length body) (drop sizeof_MessageHead (m_szMsgBuf en')) = body"
      "Some (take 14 (m_szMsgBuf en')) = MessageHead_Encode mh1 24"
    using encoder_ok [OF assms(1,2) a3 mh1_def] by blast
  have "6 \<le> sint (ucast (m_usMsgSize en') :: tint32)"
    using e(2) by (simp add: sint_ucast_up16 uint_nat sizeof_MessageHead_def)
  then have "MessageHead_Decode mh0 (m_szMsgBuf en') (ucast (m_usMsgSize en')) = Some (True, mh1)"
    using head_decode_bytes e(4) by metis
  moreover have "unat n' = length body" using assms(1,3) True unfolding encodes_within_def by blast
  moreover have "unat (ucast n' :: tint32) = unat n'"
    by (rule unat_ucast_up16)
  moreover have "unat (mh_nSize mh1) = unat (ucast n' :: tint32)" by (simp add: mh1_def)
  ultimately show ?thesis
    unfolding MessageEncoder_GetBuff_def MessageEncoder_GetSize_def mh1_def [symmetric]
    by (intro exI [of _ en'] exI [of _ mh1]) (simp only: True if_True e)
next
  case False
  have "unat (word_of_nat (MESSAGE_BUF_SIZE - sizeof_MessageHead) :: tuint16) = 65511"
    by (simp add: MESSAGE_BUF_SIZE_def sizeof_MessageHead_def)
  then have "length body \<le> 65511" using assms(1,3) unfolding encodes_within_def by metis
  then have "buf_write (m_szMsgBuf en) 24 body \<noteq> None"
    using assms(2) by (simp add: buf_write_def MESSAGE_BUF_SIZE_def)
  then show ?thesis using False assms(3)
    by (auto simp: MessageEncoder_Encode_def Let_def sizeof_MessageHead_def MessageEncoder_GetSize_def)
qed

text \<open>A protobuf message that is a list of bytes, written as it is.\<close>

definition demo_protobuf :: "tbyte list protobuf" where
  "demo_protobuf = \<lparr>ByteSize = (\<lambda>d. word_of_nat (length (take 70000 d))),
     SerializePartialToArray = (\<lambda>d n. if int (length (take 70000 d)) \<le> sint n then (True, take 70000 d) else (False, [])),
     ParseFromArray = (\<lambda>d bs. (True, bs))\<rparr>"

lemma demo_protobuf_writes: "protobuf_writes demo_protobuf d"
proof -
  have "sint (word_of_nat (length (take 70000 (d :: tbyte list))) :: tint32) = int (length (take 70000 d))" for d
  proof -
    have "length (take 70000 d) < 2 ^ 31" by simp
    then have "unat (word_of_nat (length (take 70000 d)) :: tint32) = length (take 70000 d)"
      by (intro unat_of_nat_small) simp
    then show ?thesis using sint32_uint [of "word_of_nat (length (take 70000 d))"] by (simp add: uint_nat)
  qed
  then show ?thesis by (simp add: protobuf_writes_def demo_protobuf_def)
qed

theorem message_encode_decode_witness:
  "\<exists>en' mh'. MessageEncoder_Encode (M_REQ_Login demo_protobuf) (MessageEncoder_new (replicate 65535 9)) (Some [1, 2, 3])
      (MessageHead_new\<lparr>m_nDstServiceID := 4\<rparr>) = Some (True, en', mh') \<and> unat (mh_nSize mh') = 3 \<and>
    unat (MessageEncoder_GetSize en') = 27 \<and> take 3 (drop 24 (MessageEncoder_GetBuff en')) = [1, 2, 3]"
proof -
  have s: "sint (65511 :: tint32) = 65511" by simp
  have e: "msg_Encode (M_REQ_Login demo_protobuf) [1, 2, 3] (word_of_nat (MESSAGE_BUF_SIZE - sizeof_MessageHead))
      = (True, [1, 2, 3], 3)"
    by (simp add: M_REQ_Login_def M_REQ_Login_Encode_def demo_protobuf_def MESSAGE_BUF_SIZE_def sizeof_MessageHead_def)
  have l: "length (m_szMsgBuf (MessageEncoder_new (replicate 65535 9))) = MESSAGE_BUF_SIZE"
    by (simp add: MessageEncoder_new_def MessageEncoder_Clear_def MESSAGE_BUF_SIZE_def)
  from message_encode_decode [OF login_within(1) [OF demo_protobuf_writes] l e,
      of "MessageHead_new\<lparr>m_nDstServiceID := 4\<rparr>" MessageHead_new]
  obtain en' mh' where "MessageEncoder_Encode (M_REQ_Login demo_protobuf) (MessageEncoder_new (replicate 65535 9))
        (Some [1, 2, 3]) (MessageHead_new\<lparr>m_nDstServiceID := 4\<rparr>) = Some (True, en', mh')"
      "unat (mh_nSize mh') = length [1 :: tbyte, 2, 3]"
      "unat (MessageEncoder_GetSize en') = sizeof_MessageHead + length [1 :: tbyte, 2, 3]"
      "take (length [1 :: tbyte, 2, 3]) (drop sizeof_MessageHead (MessageEncoder_GetBuff en')) = [1, 2, 3]"
    by (simp only: if_True) blast
  then show ?thesis by (intro exI [of _ en'] exI [of _ mh']) (simp add: sizeof_MessageHead_def numeral_3_eq_3)
qed

end
