(* ===== verification/PacketCodec.thy ===== *)
theory PacketCodec
  imports MessageCodec
begin

text \<open>
  Network packets: \<open>include/network/packet.h\<close> and \<open>src/network/packet.cpp\<close>. The head is two 16 bit
  values, high byte first. \<open>Decode\<close> combines plain \<open>char\<close>s, which are signed on the supported
  platforms, in \<open>int\<close> arithmetic; the model keeps the sign extension.
\<close>

section \<open>PacketHead\<close>

record packet_head =
  m_usPacketSize :: tuint16
  m_nPacketID :: tuint16

definition PacketHead_new :: packet_head where
  "PacketHead_new = \<lparr>m_usPacketSize = 0, m_nPacketID = - 1\<rparr>"

definition PacketHead_GetSize :: tint16 where
  "PacketHead_GetSize = 2 + 2"

text \<open>\<open>Encode\<close>: the four bytes stored at \<open>pBuff\<close>, \<open>None\<close> when it returns false.\<close>

definition PacketHead_Encode :: "packet_head \<Rightarrow> tuint16 \<Rightarrow> tbyte list option" where
  "PacketHead_Encode ph nBufSize =
     (if int (unat nBufSize) < sint PacketHead_GetSize then None
      else Some [ucast (drop_bit 8 (m_usPacketSize ph)), ucast (m_usPacketSize ph),
                 ucast (drop_bit 8 (m_nPacketID ph)), ucast (m_nPacketID ph)])"

text \<open>
  \<open>pBuff [1] | ((tint16) pBuff [0] << 8)\<close>: both operands are sign extended to \<open>int\<close>, the result is
  cut to 16 bits.
\<close>

definition char_to_int :: "tbyte \<Rightarrow> tint32" where
  "char_to_int c = scast c"

definition head_field :: "tbyte \<Rightarrow> tbyte \<Rightarrow> tuint16" where
  "head_field hi lo = ucast (char_to_int lo OR push_bit 8 (char_to_int hi))"

definition PacketHead_Decode :: "packet_head \<Rightarrow> tbyte list \<Rightarrow> tint32 \<Rightarrow> (bool \<times> packet_head) option" where
  "PacketHead_Decode ph buf nSize =
     (if sint nSize < sint PacketHead_GetSize then Some (False, ph)
      else if length buf < 4 then None
      else Some (True, \<lparr>m_usPacketSize = head_field (buf ! 0) (buf ! 1),
                        m_nPacketID = head_field (buf ! 2) (buf ! 3)\<rparr>))"

section \<open>Packet classes and the encoder\<close>

record 'p packet_class =
  GetPacketID :: "'p \<Rightarrow> tuint16"
  pkt_GetSize :: "'p \<Rightarrow> tint32"
  pkt_Encode :: "'p \<Rightarrow> tint32 \<Rightarrow> bool \<times> tbyte list \<times> tint32"
  pkt_Decode :: "'p \<Rightarrow> tbyte list \<Rightarrow> tint32 \<Rightarrow> bool \<times> 'p"

definition PACKET_BUF_SIZE :: nat where
  "PACKET_BUF_SIZE = 65535"

record packet_encoder =
  pe_szBuf :: "tbyte list"
  pe_usSize :: tuint16

definition PacketEncoder_Clear :: "packet_encoder \<Rightarrow> packet_encoder" where
  "PacketEncoder_Clear en = en\<lparr>pe_szBuf := (pe_szBuf en)[0 := 0], pe_usSize := 0\<rparr>"

definition PacketEncoder_new :: "tbyte list \<Rightarrow> packet_encoder" where
  "PacketEncoder_new storage = PacketEncoder_Clear \<lparr>pe_szBuf = storage, pe_usSize = 0\<rparr>"

definition PacketEncoder_GetBuff :: "packet_encoder \<Rightarrow> tbyte list" where
  "PacketEncoder_GetBuff en = pe_szBuf en"

definition PacketEncoder_GetSize :: "packet_encoder \<Rightarrow> tuint16" where
  "PacketEncoder_GetSize en = pe_usSize en"

text \<open>\<open>None\<close> when the packet's class writes behind the encoder's buffer.\<close>

definition PacketEncoder_Encode :: "'p packet_class \<Rightarrow> packet_encoder \<Rightarrow> 'p \<Rightarrow> (bool \<times> packet_encoder) option" where
  "PacketEncoder_Encode cls en p =
     (let kHead = PacketHead_new\<lparr>m_nPacketID := GetPacketID cls p,
                    m_usPacketSize := ucast (pkt_GetSize cls p + scast PacketHead_GetSize)\<rparr>;
          usHeadLen = PacketHead_GetSize
      in case PacketHead_Encode kHead usHeadLen of
           None \<Rightarrow> Some (False, en)
         | Some hb \<Rightarrow>
             (case buf_write (pe_szBuf en) 0 hb of
                None \<Rightarrow> None
              | Some buf1 \<Rightarrow>
                  let nPacketLen0 = word_of_nat PACKET_BUF_SIZE - scast PacketHead_GetSize;
                      (ok, body, nPacketLen) = pkt_Encode cls p nPacketLen0
                  in case buf_write buf1 4 body of
                       None \<Rightarrow> None
                     | Some buf2 \<Rightarrow>
                         if \<not> ok then Some (False, en\<lparr>pe_szBuf := buf2\<rparr>)
                         else Some (True, \<lparr>pe_szBuf = buf2, pe_usSize = usHeadLen + ucast nPacketLen\<rparr>)))"

text \<open>The login packets of \<open>test/PacketTest.cpp\<close>; their \<open>Encode\<close> ignores the size of the buffer.\<close>

definition PACKET_CG_LOGIN :: tuint16 where "PACKET_CG_LOGIN = 1"
definition PACKET_GC_LOGIN :: tuint16 where "PACKET_GC_LOGIN = 2"

definition P_Login_Encode :: "'d protobuf \<Rightarrow> 'd \<Rightarrow> tint32 \<Rightarrow> bool \<times> tbyte list \<times> tint32" where
  "P_Login_Encode pb d nBufSize =
     (let (ok, bs) = SerializePartialToArray pb d (ByteSize pb d)
      in if \<not> ok then (False, bs, nBufSize) else (True, bs, ByteSize pb d))"

definition P_Login_Decode :: "'d protobuf \<Rightarrow> 'd \<Rightarrow> tbyte list \<Rightarrow> tint32 \<Rightarrow> bool \<times> 'd" where
  "P_Login_Decode pb d buf sSize =
     (let (ok, d') = ParseFromArray pb d (take (nat (sint sSize)) buf) in if \<not> ok then (False, d') else (True, d'))"

definition P_LoginRet_Encode :: "'d protobuf \<Rightarrow> 'd \<Rightarrow> tint32 \<Rightarrow> bool \<times> tbyte list \<times> tint32" where
  "P_LoginRet_Encode pb d nBufSize =
     (let (ok, bs) = SerializePartialToArray pb d (ByteSize pb d)
      in if \<not> ok then (False, bs, nBufSize) else (True, bs, ByteSize pb d))"

definition P_LoginRet_Decode :: "'d protobuf \<Rightarrow> 'd \<Rightarrow> tbyte list \<Rightarrow> tint32 \<Rightarrow> bool \<times> 'd" where
  "P_LoginRet_Decode pb d buf sSize =
     (let (ok, d') = ParseFromArray pb d (take (nat (sint sSize)) buf) in if \<not> ok then (False, d') else (True, d'))"

definition P_Login :: "'d protobuf \<Rightarrow> 'd packet_class" where
  "P_Login pb = \<lparr>GetPacketID = (\<lambda>_. PACKET_CG_LOGIN), pkt_GetSize = ByteSize pb,
     pkt_Encode = P_Login_Encode pb, pkt_Decode = P_Login_Decode pb\<rparr>"

definition P_LoginRet :: "'d protobuf \<Rightarrow> 'd packet_class" where
  "P_LoginRet pb = \<lparr>GetPacketID = (\<lambda>_. PACKET_GC_LOGIN), pkt_GetSize = ByteSize pb,
     pkt_Encode = P_LoginRet_Encode pb, pkt_Decode = P_LoginRet_Decode pb\<rparr>"

section \<open>Facts\<close>

lemma head_size_values: "sint PacketHead_GetSize = 4" "unat PacketHead_GetSize = 4"
  by (simp_all add: PacketHead_GetSize_def)

text \<open>Bit by bit: the low byte's top bit covers the whole high byte.\<close>

lemma head_field_bit:
  "n < 16 \<Longrightarrow> bit (head_field hi lo) n = (if n < 8 then bit lo n else bit lo 7 \<or> bit hi (n - 8))"
  by (auto simp: head_field_def char_to_int_def bit_or_iff bit_push_bit_iff bit_unsigned_iff bit_word_scast_iff
      unsigned_or_eq dest: bit_imp_le_length)

lemma head_field_split:
  fixes v :: tuint16
  shows "head_field (ucast (drop_bit 8 v)) (ucast v) = (if bit v 7 then v OR 0xFF00 else v)"
proof (rule bit_word_eqI)
  fix n assume n: "n < LENGTH(16)"
  have ff: "bit (0xFF00 :: tuint16) n = (8 \<le> n)"
  proof -
    have "(0xFF00 :: tuint16) = push_bit 8 (mask 8)" by (simp add: mask_eq_exp_minus_1)
    then show ?thesis using n by (simp only: bit_push_bit_iff bit_mask_iff) auto
  qed
  have lo: "bit (ucast v :: tbyte) k = bit v k" if "k < 8" for k
    using that by (simp add: bit_ucast_iff)
  have hi: "bit (ucast (drop_bit 8 v) :: tbyte) k = bit v (8 + k)" if "k < 8" for k
    using that by (simp add: bit_ucast_iff bit_drop_bit_eq)
  show "bit (head_field (ucast (drop_bit 8 v)) (ucast v)) n = bit (if bit v 7 then v OR 0xFF00 else v) n"
  proof (cases "n < 8")
    case True
    then show ?thesis using n ff lo [of n] by (simp add: head_field_bit bit_or_iff)
  next
    case False
    then show ?thesis using n ff lo [of 7] hi [of "n - 8"] by (auto simp: head_field_bit bit_or_iff)
  qed
qed


lemma login_encode:
  assumes "protobuf_writes pb d"
  obtains body where "pkt_Encode (P_Login pb) d n = (True, body, ByteSize pb d)"
    "int (length body) = sint (ByteSize pb d)" "0 \<le> sint (ByteSize pb d)"
proof -
  have w: "0 \<le> sint (ByteSize pb d)" "fst (SerializePartialToArray pb d (ByteSize pb d))"
      "int (length (snd (SerializePartialToArray pb d (ByteSize pb d)))) = sint (ByteSize pb d)"
    using assms unfolding protobuf_writes_def by auto
  then show ?thesis
    by (intro that [of "snd (SerializePartialToArray pb d (ByteSize pb d))"])
      (auto simp: P_Login_def P_Login_Encode_def split: prod.splits)
qed

lemma P_Login_class: "pkt_Encode (P_Login pb) = P_Login_Encode pb" "pkt_GetSize (P_Login pb) = ByteSize pb"
  "GetPacketID (P_Login pb) d = PACKET_CG_LOGIN"
  by (simp_all add: P_Login_def)

lemma P_LoginRet_class: "pkt_Encode (P_LoginRet pb) = P_Login_Encode pb" "pkt_GetSize (P_LoginRet pb) = ByteSize pb"
  "GetPacketID (P_LoginRet pb) d = PACKET_GC_LOGIN"
  by (simp_all add: P_LoginRet_def fun_eq_iff P_LoginRet_Encode_def P_Login_Encode_def)

text \<open>For every class that encodes as the login packets do.\<close>

lemma class_frame:
  assumes "protobuf_writes pb d" "length (pe_szBuf en) = PACKET_BUF_SIZE"
    and "pkt_Encode cls = P_Login_Encode pb" "pkt_GetSize cls = ByteSize pb"
  shows "if sint (ByteSize pb d) \<le> 65531
    then \<exists>en' body hb. PacketEncoder_Encode cls en d = Some (True, en') \<and>
      pkt_Encode cls d 65531 = (True, body, ByteSize pb d) \<and>
      PacketHead_Encode \<lparr>m_usPacketSize = word_of_nat (4 + length body), m_nPacketID = GetPacketID cls d\<rparr> 4 = Some hb \<and>
      take (4 + length body) (PacketEncoder_GetBuff en') = hb @ body \<and>
      unat (PacketEncoder_GetSize en') = 4 + length body
    else PacketEncoder_Encode cls en d = None"
proof -
  obtain body where b: "pkt_Encode cls d 65531 = (True, body, ByteSize pb d)"
      "int (length body) = sint (ByteSize pb d)" "0 \<le> sint (ByteSize pb d)"
    using login_encode [OF assms(1), of 65531] assms(3) by (metis P_Login_class)
  have len: "word_of_nat PACKET_BUF_SIZE - scast PacketHead_GetSize = (65531 :: tint32)"
    by (simp add: PACKET_BUF_SIZE_def PacketHead_GetSize_def)
  have bw: "ByteSize pb d = word_of_nat (length body)"
  proof -
    have "of_int (sint (ByteSize pb d)) = ByteSize pb d" by (simp only: of_int_sint scast_id)
    then show ?thesis unfolding b(2) [symmetric] by (simp only: of_int_of_nat_eq)
  qed
  have sz: "ucast (pkt_GetSize cls d + scast PacketHead_GetSize) = (word_of_nat (4 + length body) :: tuint16)"
    using ucast16_of_nat [of "length body + 4"] by (simp add: assms(4) bw PacketHead_GetSize_def add.commute)
  define kHead where "kHead = \<lparr>m_usPacketSize = word_of_nat (4 + length body), m_nPacketID = GetPacketID cls d\<rparr>"
  obtain hb where hb: "PacketHead_Encode kHead 4 = Some hb" "length hb = 4"
    by (auto simp: PacketHead_Encode_def head_size_values)
  obtain buf1 where buf1: "buf_write (pe_szBuf en) 0 hb = Some buf1" "length buf1 = 65535"
    using hb(2) assms(2) buf_write_length by (fastforce simp: buf_write_def PACKET_BUF_SIZE_def)
  have kh: "PacketHead_new\<lparr>m_nPacketID := GetPacketID cls d,
      m_usPacketSize := ucast (pkt_GetSize cls d + scast PacketHead_GetSize)\<rparr> = kHead"
    unfolding sz by (simp add: kHead_def PacketHead_new_def)
  have run: "PacketEncoder_Encode cls en d = (case buf_write buf1 4 body of None \<Rightarrow> None
      | Some buf2 \<Rightarrow> Some (True, \<lparr>pe_szBuf = buf2, pe_usSize = 4 + ucast (ByteSize pb d)\<rparr>))"
    using b(1) hb(1) buf1(1) unfolding PacketEncoder_Encode_def Let_def kh len
    by (cases "buf_write buf1 4 body") (simp_all add: PacketHead_GetSize_def)
  show ?thesis
  proof (cases "sint (ByteSize pb d) \<le> 65531")
    case True
    then have l: "length body \<le> 65531" using b(2) by simp
    obtain buf2 where buf2: "buf_write buf1 4 body = Some buf2"
      using l buf1(2) by (simp add: buf_write_def)
    have h2: "take 4 buf2 = hb"
      using buf_write_before [OF buf2, of 0 4] buf_write_inside [OF buf1(1)] hb(2) by simp
    have t2: "take (length body) (drop 4 buf2) = body" by (rule buf_write_inside [OF buf2])
    have "take (4 + length body) buf2 = take 4 buf2 @ take (length body) (drop 4 buf2)" by (rule take_add)
    then have fr: "take (4 + length body) buf2 = hb @ body" using h2 t2 by (simp only:)
    have "(4 :: tuint16) + ucast (ByteSize pb d) = word_of_nat (4 + length body)"
      unfolding bw ucast16_of_nat by simp
    then have gs: "unat ((4 :: tuint16) + ucast (ByteSize pb d)) = 4 + length body"
      using l unat_of_nat_small [of "4 + length body", where 'a = 16] by (simp only:) simp
    have "PacketEncoder_Encode cls en d =
        Some (True, \<lparr>pe_szBuf = buf2, pe_usSize = 4 + ucast (ByteSize pb d)\<rparr>)"
      using run buf2 by simp
    then show ?thesis using True b(1) hb(1) fr gs unfolding kHead_def
      by (auto simp: PacketEncoder_GetBuff_def PacketEncoder_GetSize_def)
  next
    case False
    then have "buf_write buf1 4 body = None" using b(2) buf1(2) by (simp add: buf_write_def)
    then show ?thesis using False run by simp
  qed
qed

lemma login_frame:
  assumes "protobuf_writes pb d" "length (pe_szBuf en) = PACKET_BUF_SIZE"
  shows "if sint (ByteSize pb d) \<le> 65531
    then \<exists>en' body hb. PacketEncoder_Encode (P_Login pb) en d = Some (True, en') \<and>
      pkt_Encode (P_Login pb) d 65531 = (True, body, ByteSize pb d) \<and>
      PacketHead_Encode \<lparr>m_usPacketSize = word_of_nat (4 + length body), m_nPacketID = PACKET_CG_LOGIN\<rparr> 4 = Some hb \<and>
      take (4 + length body) (PacketEncoder_GetBuff en') = hb @ body \<and>
      unat (PacketEncoder_GetSize en') = 4 + length body
    else PacketEncoder_Encode (P_Login pb) en d = None"
  using class_frame [OF assms P_Login_class(1,2)] by (simp only: P_Login_class)

section \<open>Properties\<close>

definition on_the_wire :: "tuint16 \<Rightarrow> tuint16" where
  "on_the_wire v = (if bit v 7 then v OR 0xFF00 else v)"

text \<open>C29: decoding what \<open>PacketHead::Encode\<close> wrote gives size and id back exactly when bit 7 of the value
  is clear (or its high byte is 0xFF already); otherwise the sign extension of the low byte has
  replaced the high byte by 0xFF.\<close>

theorem packet_head_decode:
  assumes "PacketHead_Encode ph n = Some bs" "4 \<le> sint k"
  shows "PacketHead_Decode ph0 (bs @ rest) k =
    Some (True, \<lparr>m_usPacketSize = on_the_wire (m_usPacketSize ph), m_nPacketID = on_the_wire (m_nPacketID ph)\<rparr>)"
  using assms
  by (auto simp: PacketHead_Encode_def PacketHead_Decode_def head_size_values on_the_wire_def head_field_split
      split: if_splits)

theorem packet_head_decode_witness:
  "\<exists>bs. PacketHead_Encode \<lparr>m_usPacketSize = 300, m_nPacketID = 1\<rparr> 4 = Some bs \<and>
     PacketHead_Decode PacketHead_new bs 4 = Some (True, \<lparr>m_usPacketSize = 300, m_nPacketID = 1\<rparr>) \<and>
   (\<exists>bs'. PacketHead_Encode \<lparr>m_usPacketSize = 132, m_nPacketID = 1\<rparr> 4 = Some bs' \<and>
     PacketHead_Decode PacketHead_new bs' 4 = Some (True, \<lparr>m_usPacketSize = 0xFF84, m_nPacketID = 1\<rparr>))"
proof -
  have e: "\<exists>bs. PacketHead_Encode ph 4 = Some bs" for ph
    by (simp add: PacketHead_Encode_def head_size_values)
  obtain b1 b2 where b: "PacketHead_Encode \<lparr>m_usPacketSize = 300, m_nPacketID = 1\<rparr> 4 = Some b1"
      "PacketHead_Encode \<lparr>m_usPacketSize = 132, m_nPacketID = 1\<rparr> 4 = Some b2"
    using e by blast
  have v: "on_the_wire 300 = 300" "on_the_wire 132 = 0xFF84" "on_the_wire 1 = 1"
    by (simp_all add: on_the_wire_def)
  have k: "4 \<le> sint (4 :: tint32)" by simp
  show ?thesis
    using packet_head_decode [OF b(1) k, of PacketHead_new "[]"] packet_head_decode [OF b(2) k, of PacketHead_new "[]"] b v
    by auto
qed

text \<open>C28: the frame of a login packet: the encoder's buffer starts with the head, whose size field
  counts the head's four bytes as well as the body, the body follows, and \<open>GetSize\<close> is the sum; a
  body too long for the buffer is written behind its end.\<close>

theorem packet_frame:
  assumes "protobuf_writes pb d" "length (pe_szBuf en) = PACKET_BUF_SIZE"
  shows "if sint (ByteSize pb d) \<le> 65531
    then \<exists>en' body hb. PacketEncoder_Encode (P_Login pb) en d = Some (True, en') \<and>
      pkt_Encode (P_Login pb) d 65531 = (True, body, ByteSize pb d) \<and>
      PacketHead_Encode \<lparr>m_usPacketSize = word_of_nat (4 + length body), m_nPacketID = PACKET_CG_LOGIN\<rparr> 4 = Some hb \<and>
      take (4 + length body) (PacketEncoder_GetBuff en') = hb @ body \<and>
      unat (PacketEncoder_GetSize en') = 4 + length body
    else PacketEncoder_Encode (P_Login pb) en d = None"
  by (rule login_frame [OF assms])

theorem packet_frame_witness:
  "\<exists>en' hb. PacketEncoder_Encode (P_Login demo_protobuf) (PacketEncoder_new (replicate 65535 0)) [8, 9] = Some (True, en') \<and>
     PacketHead_Encode \<lparr>m_usPacketSize = 6, m_nPacketID = 1\<rparr> 4 = Some hb \<and>
     take 6 (PacketEncoder_GetBuff en') = hb @ [8, 9] \<and> unat (PacketEncoder_GetSize en') = 6"
proof -
  have l: "length (pe_szBuf (PacketEncoder_new (replicate 65535 0))) = PACKET_BUF_SIZE"
    by (simp add: PacketEncoder_new_def PacketEncoder_Clear_def PACKET_BUF_SIZE_def)
  have s: "sint (ByteSize demo_protobuf [8, 9]) = 2" by (simp add: demo_protobuf_def)
  have p: "pkt_Encode (P_Login demo_protobuf) [8, 9] 65531 = (True, body, ByteSize demo_protobuf [8, 9]) \<Longrightarrow> body = [8, 9]" for body
    by (simp add: P_Login_def P_Login_Encode_def demo_protobuf_def)
  from packet_frame [OF demo_protobuf_writes [of "[8, 9]"] l] s
  obtain en' body hb where "PacketEncoder_Encode (P_Login demo_protobuf) (PacketEncoder_new (replicate 65535 0)) [8, 9] = Some (True, en')"
      "pkt_Encode (P_Login demo_protobuf) [8, 9] 65531 = (True, body, ByteSize demo_protobuf [8, 9])"
      "PacketHead_Encode \<lparr>m_usPacketSize = word_of_nat (4 + length body), m_nPacketID = PACKET_CG_LOGIN\<rparr> 4 = Some hb"
      "take (4 + length body) (PacketEncoder_GetBuff en') = hb @ body"
      "unat (PacketEncoder_GetSize en') = 4 + length body"
    by auto
  with p [of body] show ?thesis by (simp add: PACKET_CG_LOGIN_def)
qed

end
