(* ===== verification/Text.thy ===== *)
theory Text
  imports Prelude
begin

text \<open>
  Text output: what the sources use of \<open>snprintf\<close>. Decimal and hexadecimal numbers, padding with
  zeros as in \<open>%04d\<close> and \<open>%02x\<close>, and the truncation to the size of the buffer. Strings are lists of
  characters; a C string ends at its terminating NUL, which the models leave out.
\<close>

definition digit_char :: "nat \<Rightarrow> char" where
  "digit_char d = (if d < 10 then char_of (48 + d) else char_of (87 + d))"

text \<open>Digits in a base, the last digit first.\<close>

fun digits_rev :: "nat \<Rightarrow> nat \<Rightarrow> nat list" where
  "digits_rev b n = (if b < 2 \<or> n < b then [n] else (n mod b) # digits_rev b (n div b))"

declare digits_rev.simps [simp del]

definition show_nat :: "nat \<Rightarrow> string" where
  "show_nat n = map digit_char (rev (digits_rev 10 n))"

definition show_hex :: "nat \<Rightarrow> string" where
  "show_hex n = map digit_char (rev (digits_rev 16 n))"

definition show_int :: "int \<Rightarrow> string" where
  "show_int i = (if i < 0 then CHR ''-'' # show_nat (nat (- i)) else show_nat (nat i))"

definition zero_pad :: "nat \<Rightarrow> string \<Rightarrow> string" where
  "zero_pad w s = replicate (w - length s) (CHR ''0'') @ s"

text \<open>\<open>%0wd\<close>: the sign, if any, stands before the zeros and counts for the width.\<close>

definition fmt_0d :: "nat \<Rightarrow> int \<Rightarrow> string" where
  "fmt_0d w i = (if i < 0 then CHR ''-'' # zero_pad (w - 1) (show_nat (nat (- i))) else zero_pad w (show_nat (nat i)))"

text \<open>\<open>%.wd\<close>: at least \<open>w\<close> digits.\<close>

definition fmt_prec_d :: "nat \<Rightarrow> int \<Rightarrow> string" where
  "fmt_prec_d w i = (if i < 0 then CHR ''-'' # zero_pad w (show_nat (nat (- i))) else zero_pad w (show_nat (nat i)))"

definition fmt_02x :: "nat \<Rightarrow> string" where
  "fmt_02x n = zero_pad 2 (show_hex n)"

text \<open>The string \<open>snprintf\<close> leaves in a buffer of \<open>n\<close> bytes, \<open>n\<close> not 0.\<close>

definition snprintf_text :: "nat \<Rightarrow> string \<Rightarrow> string" where
  "snprintf_text n s = take (n - 1) s"

lemma digits_rev_bound: "2 \<le> b \<Longrightarrow> d \<in> set (digits_rev b n) \<Longrightarrow> d < b"
proof (induction b n rule: digits_rev.induct)
  case (1 b n)
  then show ?case by (subst (asm) digits_rev.simps) (auto split: if_splits)
qed

lemma digits_rev_value:
  "2 \<le> b \<Longrightarrow> foldr (\<lambda>d v. d + b * v) (digits_rev b n) 0 = n"
proof (induction b n rule: digits_rev.induct)
  case (1 b n)
  show ?case
  proof (cases "n < b")
    case True
    then show ?thesis by (subst digits_rev.simps) simp
  next
    case False
    then show ?thesis using 1 by (subst digits_rev.simps) simp
  qed
qed

lemma digits_rev_length: "2 \<le> b \<Longrightarrow> n < b ^ k \<Longrightarrow> 0 < k \<Longrightarrow> length (digits_rev b n) \<le> k"
proof (induction k arbitrary: n)
  case 0
  then show ?case by simp
next
  case (Suc k)
  show ?case
  proof (cases "n < b")
    case True
    then show ?thesis by (subst digits_rev.simps) simp
  next
    case False
    then have "0 < k" using Suc.prems by (cases k) auto
    moreover have "n div b < b ^ k" using Suc.prems by (simp add: less_mult_imp_div_less mult.commute)
    ultimately show ?thesis using False Suc by (subst digits_rev.simps) simp
  qed
qed

lemma show_nat_length: "n < 10 ^ k \<Longrightarrow> 0 < k \<Longrightarrow> length (show_nat n) \<le> k"
  using digits_rev_length [of 10 n k] by (simp add: show_nat_def)

lemma zero_pad_length: "length s \<le> w \<Longrightarrow> length (zero_pad w s) = w"
  by (simp add: zero_pad_def)

lemma fmt_0d_length: "0 \<le> i \<Longrightarrow> i < 10 ^ w \<Longrightarrow> 0 < w \<Longrightarrow> length (fmt_0d w i) = w"
proof -
  assume i: "0 \<le> i" "i < 10 ^ w" "0 < w"
  then have "nat i < 10 ^ w" by (simp add: nat_less_iff)
  then show ?thesis using show_nat_length [of "nat i" w] i by (simp add: fmt_0d_def zero_pad_length)
qed

end
