(* ===== verification/Exceptions.thy ===== *)
theory Exceptions
  imports Text
begin

text \<open>
  The assertion and exception macros of \<open>include/common/exception.h\<close> with \<open>_do_assert_\<close> of
  \<open>src/common/exception.cpp\<close>, and the bounds-checked vector of \<open>include/common/std_ex.h\<close>. A computation
  is a function from the log of failed checks to an outcome and the longer log.
\<close>

section \<open>Outcomes\<close>

datatype exn = StdException string | StringException string | CharException string | OtherException

datatype 'a outcome = Ok 'a | Raised exn

record tm =
  tm_year :: int
  tm_mon :: int
  tm_mday :: int
  tm_hour :: int
  tm_min :: int
  tm_sec :: int
  tm_wday :: int

text \<open>A failed check: the text for the file and the console, the time stamp, and the file's name.\<close>

record assert_entry =
  ae_file :: string
  ae_text :: string
  ae_time :: string

type_synonym 'a checked = "assert_entry list \<Rightarrow> 'a outcome \<times> assert_entry list"

text \<open>Where a check stands: \<open>__FILE__\<close>, \<open>__LINE__\<close>, \<open>__FUNCTION_NAME__\<close>; the clock is a parameter.\<close>

record place =
  pl_file :: string
  pl_line :: nat
  pl_func :: string

definition newline :: string where "newline = [char_of (10 :: nat)]"

definition assert_text :: "place \<Rightarrow> string \<Rightarrow> string \<Rightarrow> bool \<Rightarrow> string" where
  "assert_text pl expr msg bReThrow = snprintf_text 1024
     (newline @ ''['' @ (if bReThrow then ''Assert'' else ''Verify'') @ '']'' @ newline @
      ''['' @ pl_file pl @ ''][''  @ show_nat (pl_line pl) @ ''][''  @ pl_func pl @ ''][''  @ expr @ '']'' @ newline @
      ''['' @ msg @ '']'')"

definition assert_time :: "tm \<Rightarrow> string" where
  "assert_time ltm = snprintf_text 128
     (''('' @ fmt_prec_d 4 (tm_year ltm + 1900) @ ''-'' @ fmt_prec_d 2 (tm_mon ltm + 1) @ ''-'' @ fmt_prec_d 2 (tm_mday ltm) @
      ''_'' @ fmt_prec_d 2 (tm_hour ltm) @ '':'' @ fmt_prec_d 2 (tm_min ltm) @ '':'' @ fmt_prec_d 2 (tm_sec ltm) @ '')'')"

definition assert_file :: "tm \<Rightarrow> string" where
  "assert_file ltm = snprintf_text 256
     (''./assert.'' @ fmt_prec_d 4 (tm_year ltm + 1900) @ ''-'' @ fmt_prec_d 2 (tm_mon ltm + 1) @ ''-'' @
      fmt_prec_d 2 (tm_mday ltm) @ ''-'' @ fmt_prec_d 2 (tm_hour ltm) @ ''.log'')"

definition do_assert :: "tm \<Rightarrow> place \<Rightarrow> string \<Rightarrow> string \<Rightarrow> bool \<Rightarrow> unit checked" where
  "do_assert ltm pl szExpr szMsg bReThrow log =
     (let entry = \<lparr>ae_file = assert_file ltm, ae_text = assert_text pl szExpr szMsg bReThrow,
                    ae_time = assert_time ltm\<rparr>
      in (if bReThrow then Raised OtherException else Ok (), log @ [entry]))"

section \<open>The macros\<close>

definition AssertEx :: "tm \<Rightarrow> place \<Rightarrow> bool \<Rightarrow> string \<Rightarrow> string \<Rightarrow> unit checked" where
  "AssertEx ltm pl b expr msg log = (if \<not> b then do_assert ltm pl expr msg True log else (Ok (), log))"

definition VerifyEx :: "tm \<Rightarrow> place \<Rightarrow> bool \<Rightarrow> string \<Rightarrow> string \<Rightarrow> unit checked" where
  "VerifyEx ltm pl b expr msg log = (if \<not> b then do_assert ltm pl expr msg False log else (Ok (), log))"

fun exn_text :: "place \<Rightarrow> exn \<Rightarrow> string" where
  "exn_text pl (StdException s) = s"
| "exn_text pl (StringException s) = s"
| "exn_text pl (CharException s) = s"
| "exn_text pl OtherException = pl_func pl"

text \<open>
  \<open>__ENTER_FUNCTION body __LEAVE_FUNCTION\<close>: a raised exception is logged and raised again as the
  number 1; what follows the block runs only when nothing was raised (\<open>Ok None\<close>), or not at all
  when the body returned a value (\<open>Ok (Some v)\<close>).
\<close>

definition enter_function :: "tm \<Rightarrow> place \<Rightarrow> 'a option checked \<Rightarrow> 'a checked \<Rightarrow> 'a checked" where
  "enter_function ltm pl body rest log =
     (case body log of
        (Ok (Some v), log1) \<Rightarrow> (Ok v, log1)
      | (Ok None, log1) \<Rightarrow> rest log1
      | (Raised e, log1) \<Rightarrow>
          (case AssertEx ltm pl False ''false'' (exn_text pl e) log1 of
             (Raised e', log2) \<Rightarrow> (Raised e', log2)
           | (Ok _, log2) \<Rightarrow> rest log2))"

definition enter_project :: "tm \<Rightarrow> place \<Rightarrow> 'a option checked \<Rightarrow> 'a checked \<Rightarrow> 'a checked" where
  "enter_project ltm pl body rest log =
     (case body log of
        (Ok (Some v), log1) \<Rightarrow> (Ok v, log1)
      | (Ok None, log1) \<Rightarrow> rest log1
      | (Raised e, log1) \<Rightarrow>
          (case VerifyEx ltm pl False ''false'' (exn_text pl e) log1 of
             (Raised e', log2) \<Rightarrow> (Raised e', log2)
           | (Ok _, log2) \<Rightarrow> rest log2))"

text \<open>\<open>__ENTER_PROTECT_EX body __CATCH_PROJECT_EX handler __LEAVE_PROJECT_EX\<close>.\<close>

definition enter_protect_ex :: "tm \<Rightarrow> place \<Rightarrow> 'a option checked \<Rightarrow> 'a option checked \<Rightarrow> 'a checked \<Rightarrow> 'a checked" where
  "enter_protect_ex ltm pl body handler rest log =
     (case body log of
        (Ok (Some v), log1) \<Rightarrow> (Ok v, log1)
      | (Ok None, log1) \<Rightarrow> rest log1
      | (Raised e, log1) \<Rightarrow>
          (case VerifyEx ltm pl False ''false'' (exn_text pl e) log1 of
             (Raised e', log2) \<Rightarrow> (Raised e', log2)
           | (Ok _, log2) \<Rightarrow>
               (case handler log2 of
                  (Ok (Some v), log3) \<Rightarrow> (Ok v, log3)
                | (Ok None, log3) \<Rightarrow> rest log3
                | (Raised e', log3) \<Rightarrow> (Raised e', log3))))"

lemmas macro_defs = AssertEx_def VerifyEx_def do_assert_def enter_function_def enter_project_def
  enter_protect_ex_def

section \<open>bsvector\<close>

text \<open>\<open>operator []\<close>: the element, or the exception of the failed check.\<close>

definition bsvector_at :: "'a list \<Rightarrow> nat \<Rightarrow> 'a outcome" where
  "bsvector_at v i = (if \<not> (0 \<le> i \<and> i < length v) then Raised OtherException else Ok (v ! i))"

section \<open>Properties\<close>

text \<open>an exception inside \<open>__ENTER_FUNCTION\<close> always leaves the function as the exception of the
  number 1, after exactly one entry was logged for it, and nothing behind the block runs; inside
  \<open>__ENTER_PROJECT\<close> it is logged once and the code behind the block runs; without an exception both
  are transparent.\<close>

theorem exception_macros:
  "(case body log of
      (Raised e, log1) \<Rightarrow>
        (\<exists>en. enter_function ltm pl body rest log = (Raised OtherException, log1 @ [en])) \<and>
        (\<exists>en. enter_project ltm pl body rest log = rest (log1 @ [en])) \<and>
        (\<exists>en. enter_protect_ex ltm pl body (\<lambda>l. (Ok None, l)) rest log = rest (log1 @ [en]))
    | (Ok None, log1) \<Rightarrow>
        enter_function ltm pl body rest log = rest log1 \<and> enter_project ltm pl body rest log = rest log1 \<and>
        enter_protect_ex ltm pl body handler rest log = rest log1
    | (Ok (Some v), log1) \<Rightarrow>
        enter_function ltm pl body rest log = (Ok v, log1) \<and> enter_project ltm pl body rest log = (Ok v, log1) \<and>
        enter_protect_ex ltm pl body handler rest log = (Ok v, log1))"
  by (cases "body log") (auto simp: macro_defs split: outcome.splits option.splits)

end
