(* ===== verification/TimeEx.thy ===== *)
theory TimeEx
  imports Exceptions
begin

text \<open>
  Clock and calendar: \<open>include/common/time_ex.h\<close>, \<open>src/common/time_ex.cpp\<close>. The system's clock is a
  parameter: seconds since 1970, the \<open>gettimeofday\<close> pair, and the broken-down local time of a
  second count. The product of \<open>ticktime\<close> is computed in doubles and truncated, which is exact for
  the dates a \<open>double\<close> holds; the model uses the integer value.
\<close>

record 'w clock_os =
  os_time :: "'w \<Rightarrow> int"
  os_gettimeofday :: "'w \<Rightarrow> int \<times> int"
  os_localtime :: "'w \<Rightarrow> int \<Rightarrow> tm"
  os_usleep :: "'w \<Rightarrow> tuint32 \<Rightarrow> 'w"

definition Sleep_ms :: "'w clock_os \<Rightarrow> 'w \<Rightarrow> tuint32 \<Rightarrow> 'w" where
  "Sleep_ms os w nMilSec = os_usleep os w (nMilSec * 1000)"

definition ansitime :: "'w clock_os \<Rightarrow> 'w \<Rightarrow> int" where
  "ansitime os w = os_time os w"

definition localtime_of :: "'w clock_os \<Rightarrow> 'w \<Rightarrow> int \<Rightarrow> tm" where
  "localtime_of os w t1 = os_localtime os w t1"

definition ticktime :: "'w clock_os \<Rightarrow> 'w \<Rightarrow> tuint64" where
  "ticktime os w = (let (sec, usec) = os_gettimeofday os w in word_of_int (sec * 1000 + usec div 1000))"

text \<open>The buffer of a formatting function: a null pointer, or the string left in it.\<close>

definition date_text :: "tm \<Rightarrow> string" where
  "date_text result =
     fmt_0d 4 (tm_year result + 1900) @ ''-'' @ fmt_0d 2 (tm_mon result + 1) @ ''-'' @ fmt_0d 2 (tm_mday result)"

definition get_string_date_time :: "'w clock_os \<Rightarrow> 'w \<Rightarrow> int \<Rightarrow> bool \<Rightarrow> nat \<Rightarrow> string option" where
  "get_string_date_time os w time is_null nSize =
     (if is_null then None
      else
        let result = localtime_of os w time
        in Some (snprintf_text nSize
             (date_text result @ '' '' @ fmt_0d 2 (tm_hour result) @ '':'' @ fmt_0d 2 (tm_min result) @ '':'' @
              fmt_0d 2 (tm_sec result))))"

definition get_string_current_date :: "'w clock_os \<Rightarrow> 'w \<Rightarrow> bool \<Rightarrow> nat \<Rightarrow> string option" where
  "get_string_current_date os w is_null nSize =
     (if is_null then None
      else Some (snprintf_text nSize (date_text (localtime_of os w (ansitime os w)))))"

definition get_string_current_date_time :: "'w clock_os \<Rightarrow> 'w \<Rightarrow> bool \<Rightarrow> nat \<Rightarrow> string option" where
  "get_string_current_date_time os w is_null nSize = get_string_date_time os w (ansitime os w) is_null nSize"

record time_data =
  m_nYear :: int
  m_nMon :: int
  m_nDay :: int
  m_nHour :: int
  m_nMin :: int
  m_nSec :: int
  m_nWeekDay :: int
  m_nAnsiTime :: int
  m_nMiliSec :: tuint64

definition get_time_info :: "'w clock_os \<Rightarrow> 'w \<Rightarrow> bool \<times> time_data" where
  "get_time_info os w =
     (let t = ansitime os w;
          result = localtime_of os w t
      in (True, \<lparr>m_nYear = tm_year result + 1900, m_nMon = tm_mon result + 1, m_nDay = tm_mday result,
            m_nHour = tm_hour result, m_nMin = tm_min result, m_nSec = tm_sec result,
            m_nWeekDay = tm_wday result, m_nAnsiTime = t, m_nMiliSec = ticktime os w\<rparr>))"

text \<open>A calendar date as \<open>localtime_r\<close> gives it for the years of four digits.\<close>

definition tm_valid :: "tm \<Rightarrow> bool" where
  "tm_valid t \<longleftrightarrow> - 1900 \<le> tm_year t \<and> tm_year t < 8100 \<and> 0 \<le> tm_mon t \<and> tm_mon t \<le> 11 \<and>
     1 \<le> tm_mday t \<and> tm_mday t \<le> 31 \<and> 0 \<le> tm_hour t \<and> tm_hour t \<le> 23 \<and>
     0 \<le> tm_min t \<and> tm_min t \<le> 59 \<and> 0 \<le> tm_sec t \<and> tm_sec t \<le> 60 \<and> 0 \<le> tm_wday t \<and> tm_wday t \<le> 6"

lemma date_text_length: "tm_valid t \<Longrightarrow> length (date_text t) = 10"
  by (simp add: date_text_def tm_valid_def fmt_0d_length)

lemma date_time_length:
  assumes "tm_valid (localtime_of os w time)" "20 \<le> nSize"
  obtains s where "get_string_date_time os w time False nSize = Some s" "length s = 19"
  using assms date_text_length [OF assms(1)]
  by (simp add: get_string_date_time_def snprintf_text_def tm_valid_def fmt_0d_length Let_def)

lemma time_info_ranges:
  assumes "tm_valid (localtime_of os w (ansitime os w))"
  shows "1 \<le> m_nMon (snd (get_time_info os w)) \<and> m_nMon (snd (get_time_info os w)) \<le> 12 \<and>
    0 \<le> m_nMin (snd (get_time_info os w)) \<and> m_nMin (snd (get_time_info os w)) \<le> 59"
  using assms by (simp add: get_time_info_def Let_def tm_valid_def)

end
