(* ===== verification/Timer.thy ===== *)
theory Timer
  imports TimeEx
begin

text \<open>
  Alarm and interval timers: \<open>include/common/timer_ex.h\<close>, \<open>src/common/timer_ex.cpp\<close>. An alarm is packed in
  one 32 bit word: a flag and a value for each of month, week day, day, hour and minute. The
  callback works on a state of any type; calling an empty one raises an exception.
\<close>

section \<open>The packed alarm\<close>

definition TCM_MONTH_FLAG :: tuint32 where "TCM_MONTH_FLAG = push_bit 27 1"
definition TCM_WEEK_FLAG :: tuint32 where "TCM_WEEK_FLAG = push_bit 26 1"
definition TCM_DAY_FLAG :: tuint32 where "TCM_DAY_FLAG = push_bit 25 1"
definition TCM_HOUR_FLAG :: tuint32 where "TCM_HOUR_FLAG = push_bit 24 1"
definition TCM_MINUTE_FLAG :: tuint32 where "TCM_MINUTE_FLAG = push_bit 23 1"
definition TCM_MONTH :: tuint32 where "TCM_MONTH = 0x780000"
definition TCM_WEEK :: tuint32 where "TCM_WEEK = 0x70000"
definition TCM_DAY :: tuint32 where "TCM_DAY = 0xF800"
definition TCM_HOUR :: tuint32 where "TCM_HOUR = 0x7C0"
definition TCM_MINUTE :: tuint32 where "TCM_MINUTE = 0x3F"

definition TCM_ALL :: tuint32 where
  "TCM_ALL = TCM_MONTH_FLAG OR TCM_WEEK_FLAG OR TCM_DAY_FLAG OR TCM_HOUR_FLAG OR TCM_MINUTE_FLAG OR
     TCM_MONTH OR TCM_WEEK OR TCM_DAY OR TCM_HOUR OR TCM_MINUTE"

lemmas tcm_defs = TCM_MONTH_FLAG_def TCM_WEEK_FLAG_def TCM_DAY_FLAG_def TCM_HOUR_FLAG_def TCM_MINUTE_FLAG_def
  TCM_MONTH_def TCM_WEEK_def TCM_DAY_def TCM_HOUR_def TCM_MINUTE_def

section \<open>TimerEx\<close>

record 'w timer =
  m_funCallback :: "(time_data \<Rightarrow> 'w \<Rightarrow> unit outcome \<times> 'w) option"
  m_kLastTrigger :: time_data
  m_nClock :: tuint32
  m_nInterval :: tint32

definition TimerEx_new :: "'c clock_os \<Rightarrow> 'c \<Rightarrow> 'w timer" where
  "TimerEx_new os c = \<lparr>m_funCallback = None, m_kLastTrigger = snd (get_time_info os c), m_nClock = 0, m_nInterval = 0\<rparr>"

definition SetAlarmMonth :: "tint32 \<Rightarrow> 'w timer \<Rightarrow> 'w timer" where
  "SetAlarmMonth nMonth t =
     (if sint nMonth \<ge> 1 \<and> sint nMonth \<le> 12
      then t\<lparr>m_nClock := (m_nClock t AND (TCM_ALL AND NOT TCM_MONTH) OR push_bit 19 nMonth) OR TCM_MONTH_FLAG\<rparr>
      else t\<lparr>m_nClock := m_nClock t AND (TCM_ALL AND NOT TCM_MONTH_FLAG)\<rparr>)"

definition SetAlarmWeek :: "tint32 \<Rightarrow> 'w timer \<Rightarrow> 'w timer" where
  "SetAlarmWeek nWeek t =
     (if sint nWeek \<ge> 0 \<and> sint nWeek \<le> 6
      then t\<lparr>m_nClock := (m_nClock t AND (TCM_ALL AND NOT TCM_WEEK) OR push_bit 16 nWeek) OR TCM_WEEK_FLAG\<rparr>
      else t\<lparr>m_nClock := m_nClock t AND (TCM_ALL AND NOT TCM_WEEK_FLAG)\<rparr>)"

definition SetAlarmDay :: "tint32 \<Rightarrow> 'w timer \<Rightarrow> 'w timer" where
  "SetAlarmDay nDay t =
     (if sint nDay \<ge> 1 \<and> sint nDay \<le> 31
      then t\<lparr>m_nClock := (m_nClock t AND (TCM_ALL AND NOT TCM_DAY) OR push_bit 11 nDay) OR TCM_DAY_FLAG\<rparr>
      else t\<lparr>m_nClock := m_nClock t AND (TCM_ALL AND NOT TCM_DAY_FLAG)\<rparr>)"

definition SetAlarmHour :: "tint32 \<Rightarrow> 'w timer \<Rightarrow> 'w timer" where
  "SetAlarmHour nHour t =
     (if sint nHour \<ge> 0 \<and> sint nHour \<le> 23
      then t\<lparr>m_nClock := (m_nClock t AND (TCM_ALL AND NOT TCM_HOUR) OR push_bit 6 nHour) OR TCM_HOUR_FLAG\<rparr>
      else t\<lparr>m_nClock := m_nClock t AND (TCM_ALL AND NOT TCM_HOUR_FLAG)\<rparr>)"

definition SetAlarmMinute :: "tint32 \<Rightarrow> 'w timer \<Rightarrow> 'w timer" where
  "SetAlarmMinute nMinute t =
     (if sint nMinute \<ge> 0 \<and> sint nMinute \<le> 59
      then t\<lparr>m_nClock := (m_nClock t AND (TCM_ALL AND NOT TCM_MINUTE) OR nMinute) OR TCM_MINUTE_FLAG\<rparr>
      else t\<lparr>m_nClock := m_nClock t AND (TCM_ALL AND NOT TCM_MINUTE_FLAG)\<rparr>)"

definition SetAlarmTime :: "tint32 \<Rightarrow> tint32 \<Rightarrow> tint32 \<Rightarrow> tint32 \<Rightarrow> tint32 \<Rightarrow> 'w timer \<Rightarrow> 'w timer" where
  "SetAlarmTime nMonth nDay nWeek nHour nMinute t =
     SetAlarmMinute nMinute (SetAlarmHour nHour (SetAlarmDay nDay (SetAlarmWeek nWeek (SetAlarmMonth nMonth t))))"

definition GetAlarmMonth :: "'w timer \<Rightarrow> tint32" where
  "GetAlarmMonth t = drop_bit 19 (m_nClock t AND TCM_MONTH)"

definition GetAlarmWeek :: "'w timer \<Rightarrow> tint32" where
  "GetAlarmWeek t = drop_bit 16 (m_nClock t AND TCM_WEEK)"

definition GetAlarmDay :: "'w timer \<Rightarrow> tint32" where
  "GetAlarmDay t = drop_bit 11 (m_nClock t AND TCM_DAY)"

definition GetAlarmHour :: "'w timer \<Rightarrow> tint32" where
  "GetAlarmHour t = drop_bit 6 (m_nClock t AND TCM_HOUR)"

definition GetAlarmMinute :: "'w timer \<Rightarrow> tint32" where
  "GetAlarmMinute t = m_nClock t AND TCM_MINUTE"

definition SetInterval :: "tint32 \<Rightarrow> 'w timer \<Rightarrow> 'w timer" where
  "SetInterval nMiliSec t = (if sint nMiliSec > 0 then t\<lparr>m_nInterval := nMiliSec\<rparr> else t)"

definition GetInterval :: "'w timer \<Rightarrow> tint32" where
  "GetInterval t = m_nInterval t"

definition SetCallBack :: "(time_data \<Rightarrow> 'w \<Rightarrow> unit outcome \<times> 'w) \<Rightarrow> 'w timer \<Rightarrow> 'w timer" where
  "SetCallBack f t = t\<lparr>m_funCallback := Some f\<rparr>"

text \<open>Calling the \<open>boost::function\<close>: an empty one throws \<open>bad_function_call\<close>.\<close>

definition call_back :: "'w timer \<Rightarrow> time_data \<Rightarrow> 'w \<Rightarrow> unit outcome \<times> 'w" where
  "call_back t now w =
     (case m_funCallback t of None \<Rightarrow> (Raised (StdException ''call to empty boost::function''), w)
      | Some f \<Rightarrow> f now w)"

text \<open>The two halves of \<open>Tick\<close>: the interval, then the alarm.\<close>

definition tick_interval :: "'w timer \<Rightarrow> time_data \<Rightarrow> 'w \<Rightarrow> unit outcome \<times> 'w timer \<times> 'w" where
  "tick_interval t now w =
     (if sint (m_nInterval t) > 0 \<and>
         sint (m_nMiliSec now - m_nMiliSec (m_kLastTrigger t)) \<ge> sint (m_nInterval t)
      then case call_back t now w of
             (Raised e, w1) \<Rightarrow> (Raised e, t, w1)
           | (Ok _, w1) \<Rightarrow> (Ok (), t\<lparr>m_kLastTrigger := now\<rparr>, w1)
      else (Ok (), t, w))"

definition same_minute :: "time_data \<Rightarrow> time_data \<Rightarrow> bool" where
  "same_minute a b \<longleftrightarrow> m_nMon a = m_nMon b \<and> m_nWeekDay a = m_nWeekDay b \<and> m_nDay a = m_nDay b \<and>
     m_nHour a = m_nHour b \<and> m_nMin a = m_nMin b"

definition alarm_due :: "'w timer \<Rightarrow> time_data \<Rightarrow> bool" where
  "alarm_due t now \<longleftrightarrow>
     (m_nClock t AND TCM_MONTH_FLAG \<noteq> 0 \<longrightarrow> sint (GetAlarmMonth t) = m_nMon now) \<and>
     (m_nClock t AND TCM_WEEK_FLAG \<noteq> 0 \<longrightarrow> sint (GetAlarmWeek t) = m_nWeekDay now) \<and>
     (m_nClock t AND TCM_DAY_FLAG \<noteq> 0 \<longrightarrow> sint (GetAlarmDay t) = m_nDay now) \<and>
     (m_nClock t AND TCM_HOUR_FLAG \<noteq> 0 \<longrightarrow> sint (GetAlarmHour t) = m_nHour now) \<and>
     (m_nClock t AND TCM_MINUTE_FLAG \<noteq> 0 \<longrightarrow> sint (GetAlarmMinute t) = m_nMin now)"

definition tick_alarm :: "'w timer \<Rightarrow> time_data \<Rightarrow> 'w \<Rightarrow> unit outcome \<times> 'w timer \<times> 'w" where
  "tick_alarm t now w =
     (if m_nClock t > 0 \<and> \<not> same_minute (m_kLastTrigger t) now \<and> alarm_due t now
      then case call_back t now w of
             (Raised e, w1) \<Rightarrow> (Raised e, t, w1)
           | (Ok _, w1) \<Rightarrow> (Ok (), t\<lparr>m_kLastTrigger := now\<rparr>, w1)
      else (Ok (), t, w))"

definition TimerEx_Tick :: "'w timer \<Rightarrow> time_data \<Rightarrow> 'w \<Rightarrow> unit outcome \<times> 'w timer \<times> 'w" where
  "TimerEx_Tick t now w =
     (case tick_interval t now w of
        (Raised e, t1, w1) \<Rightarrow> (Raised e, t1, w1)
      | (Ok _, t1, w1) \<Rightarrow> tick_alarm t1 now w1)"

end
