(* ===== verification/TimerFacts.thy ===== *)
theory TimerFacts
  imports Timer
begin

text \<open>
  Facts on the timers: the packed alarm is an array of independent fields, each with its flag; a
  tick fires by the clock's flags, once a minute; clearing an alarm clears its flags only.
\<close>

section \<open>Fields of a word\<close>

definition field_put :: "nat \<Rightarrow> nat \<Rightarrow> nat \<Rightarrow> tuint32 \<Rightarrow> tuint32 \<Rightarrow> tuint32" where
  "field_put k n f c v = (c AND (mask 28 AND NOT (push_bit k (mask n))) OR push_bit k v) OR push_bit f 1"

definition field_get :: "nat \<Rightarrow> nat \<Rightarrow> tuint32 \<Rightarrow> tuint32" where
  "field_get k n c = take_bit n (drop_bit k c)"

lemma tcm_masks:
  "TCM_MONTH = push_bit 19 (mask 4)" "TCM_WEEK = push_bit 16 (mask 3)" "TCM_DAY = push_bit 11 (mask 5)"
  "TCM_HOUR = push_bit 6 (mask 5)" "TCM_MINUTE = push_bit 0 (mask 6)" "TCM_ALL = mask 28"
  by (simp_all add: tcm_defs TCM_ALL_def mask_eq_exp_minus_1)

lemma field_put_bit:
  assumes "i < 32" "v = take_bit n v" "f < 28" "k + n \<le> 28"
  shows "bit (field_put k n f c v) i =
    (i = f \<or> (if k \<le> i \<and> i < k + n then bit v (i - k) else i < 28 \<and> bit c i))"
proof -
  have v: "bit v j \<Longrightarrow> j < n" for j using assms(2) by (metis bit_take_bit_iff)
  show ?thesis
    using assms
    by (auto simp: field_put_def bit_or_iff bit_and_iff bit_not_iff bit_push_bit_iff bit_mask_iff bit_exp_iff
      dest!: v)
qed

lemma field_get_bit: "i < 32 \<Longrightarrow> bit (field_get k n c) i = (i < n \<and> bit c (k + i))"
  by (simp add: field_get_def bit_take_bit_iff bit_drop_bit_eq)

lemma field_get_put_same:
  assumes "v = take_bit n v" "f < 28" "k + n \<le> 28" "f < k \<or> k + n \<le> f"
  shows "field_get k n (field_put k n f c v) = v"
proof (rule bit_word_eqI)
  fix i assume "i < LENGTH(32)"
  then have i: "i < 32" by simp
  have v: "bit v i \<Longrightarrow> i < n" using assms(1) by (metis bit_take_bit_iff)
  show "bit (field_get k n (field_put k n f c v)) i = bit v i"
  proof (cases "i < n")
    case True
    then have "k + i < 32" using assms(3) by simp
    then show ?thesis using True i assms by (auto simp: field_get_bit field_put_bit)
  next
    case False
    then show ?thesis using v i by (auto simp: field_get_bit)
  qed
qed

lemma field_get_put_other:
  assumes "v = take_bit n v" "f < 28" "k + n \<le> 28" "f < k' \<or> k' + n' \<le> f" "k + n \<le> k' \<or> k' + n' \<le> k"
    "k' + n' \<le> 28"
  shows "field_get k' n' (field_put k n f c v) = field_get k' n' c"
proof (rule bit_word_eqI)
  fix i assume "i < LENGTH(32)"
  then have i: "i < 32" by simp
  show "bit (field_get k' n' (field_put k n f c v)) i = bit (field_get k' n' c) i"
  proof (cases "i < n'")
    case True
    then have "k' + i < 32" "k' + i < 28" using assms(6) by simp_all
    then show ?thesis using True i assms by (auto simp: field_get_bit field_put_bit)
  next
    case False
    then show ?thesis using i by (simp add: field_get_bit)
  qed
qed

lemma field_put_flag:
  assumes "v = take_bit n v" "f < 28" "k + n \<le> 28" "g < 28" "g < k \<or> k + n \<le> g"
  shows "bit (field_put k n f c v) g = (g = f \<or> bit c g)"
  using field_put_bit [of g v n f k c] assms by auto

lemma flag_clear_get:
  assumes "f < 28" "f < k \<or> k + n \<le> f" "k + n \<le> 28"
  shows "field_get k n (c AND (mask 28 AND NOT (push_bit f 1))) = field_get k n c"
proof (rule bit_word_eqI)
  fix i assume "i < LENGTH(32)"
  then show "bit (field_get k n (c AND (mask 28 AND NOT (push_bit f 1)))) i = bit (field_get k n c) i"
    using assms by (auto simp: field_get_def bit_take_bit_iff bit_drop_bit_eq bit_and_iff bit_not_iff
      bit_push_bit_iff bit_mask_iff bit_exp_iff)
qed

lemma flag_clear_flag:
  "g < 28 \<Longrightarrow> f < 28 \<Longrightarrow> bit (c AND (mask 28 AND NOT (push_bit f 1)) :: tuint32) g = (g \<noteq> f \<and> bit c g)"
  by (auto simp: bit_and_iff bit_not_iff bit_push_bit_iff bit_mask_iff bit_exp_iff)

lemma get_via_mask: "drop_bit k (c AND push_bit k (mask n)) = field_get k n (c :: tuint32)"
  by (rule bit_word_eqI)
    (auto simp: field_get_def bit_take_bit_iff bit_drop_bit_eq bit_and_iff bit_push_bit_iff bit_mask_iff dest: bit_imp_le_length)

lemma flag_test: "(c AND push_bit f 1 \<noteq> 0) = bit (c :: tuint32) f"
  by (metis and_exp_eq_0_iff_not_bit push_bit_of_1)

lemma small_take_bit:
  assumes "0 \<le> sint (v :: tint32)" "sint v < 2 ^ n"
  shows "v = take_bit n v"
proof -
  have "uint v < 2 ^ n" using uint32_sint [OF assms(1)] assms(2) by simp
  then have "take_bit n (uint v) = uint v" by (simp add: take_bit_int_eq_self_iff)
  then have "uint (take_bit n v) = uint v" by (simp add: unsigned_take_bit_eq)
  then show ?thesis by (metis word_uint_eq_iff)
qed


section \<open>The setters and getters\<close>

definition in_range :: "tint32 \<Rightarrow> int \<Rightarrow> int \<Rightarrow> bool" where
  "in_range v a b \<longleftrightarrow> a \<le> sint v \<and> sint v \<le> b"

definition field_set :: "nat \<Rightarrow> nat \<Rightarrow> nat \<Rightarrow> bool \<Rightarrow> tuint32 \<Rightarrow> tuint32 \<Rightarrow> tuint32" where
  "field_set k n f ok c v = (if ok then field_put k n f c v else c AND (mask 28 AND NOT (push_bit f 1)))"

lemma setter_clocks:
  "m_nClock (SetAlarmMonth v t) = field_set 19 4 27 (in_range v 1 12) (m_nClock t) v"
  "m_nClock (SetAlarmWeek v t) = field_set 16 3 26 (in_range v 0 6) (m_nClock t) v"
  "m_nClock (SetAlarmDay v t) = field_set 11 5 25 (in_range v 1 31) (m_nClock t) v"
  "m_nClock (SetAlarmHour v t) = field_set 6 5 24 (in_range v 0 23) (m_nClock t) v"
  "m_nClock (SetAlarmMinute v t) = field_set 0 6 23 (in_range v 0 59) (m_nClock t) v"
  unfolding SetAlarmMonth_def SetAlarmWeek_def SetAlarmDay_def SetAlarmHour_def SetAlarmMinute_def tcm_masks
    TCM_MONTH_FLAG_def TCM_WEEK_FLAG_def TCM_DAY_FLAG_def TCM_HOUR_FLAG_def TCM_MINUTE_FLAG_def
    field_set_def field_put_def in_range_def
  by simp_all

lemma getter_fields:
  "GetAlarmMonth t = field_get 19 4 (m_nClock t)" "GetAlarmWeek t = field_get 16 3 (m_nClock t)"
  "GetAlarmDay t = field_get 11 5 (m_nClock t)" "GetAlarmHour t = field_get 6 5 (m_nClock t)"
  "GetAlarmMinute t = field_get 0 6 (m_nClock t)"
  unfolding GetAlarmMonth_def GetAlarmWeek_def GetAlarmDay_def GetAlarmHour_def GetAlarmMinute_def tcm_masks
    get_via_mask
  using get_via_mask [of 0 "m_nClock t" 6] by simp_all

lemma in_range_small: "in_range v a b \<Longrightarrow> 0 \<le> a \<Longrightarrow> b < 2 ^ n \<Longrightarrow> v = take_bit n v"
  by (rule small_take_bit) (auto simp: in_range_def)

lemma field_set_same:
  assumes "ok" "v = take_bit n v" "f < 28" "k + n \<le> 28" "f < k \<or> k + n \<le> f"
  shows "field_get k n (field_set k n f ok c v) = v"
  using assms field_get_put_same by (simp add: field_set_def)

lemma field_set_other:
  assumes "ok \<longrightarrow> v = take_bit n v" "f < 28" "k + n \<le> 28" "f < k' \<or> k' + n' \<le> f"
    "k + n \<le> k' \<or> k' + n' \<le> k" "k' + n' \<le> 28"
  shows "field_get k' n' (field_set k n f ok c v) = field_get k' n' c"
  using assms field_get_put_other flag_clear_get by (simp add: field_set_def)

lemma field_set_flag:
  assumes "ok \<longrightarrow> v = take_bit n v" "f < 28" "k + n \<le> 28" "g < 28" "g < k \<or> k + n \<le> g"
  shows "bit (field_set k n f ok c v) g = (if g = f then ok else bit c g)"
  using assms field_put_flag [of v n f k g c] flag_clear_flag [of g f c] by (cases ok) (auto simp: field_set_def)

lemma ranges_fit:
  "in_range v 1 12 \<longrightarrow> v = take_bit 4 v" "in_range v 0 6 \<longrightarrow> v = take_bit 3 v" "in_range v 1 31 \<longrightarrow> v = take_bit 5 v"
  "in_range v 0 23 \<longrightarrow> v = take_bit 5 v" "in_range v 0 59 \<longrightarrow> v = take_bit 6 v"
  by (auto intro: in_range_small)

lemmas alarm_facts = setter_clocks getter_fields field_set_same field_set_other field_set_flag

lemma if_flag: "((F :: tuint32) \<noteq> 0) = P \<Longrightarrow> (P \<Longrightarrow> A) \<Longrightarrow> if P then A \<and> F \<noteq> 0 else F = 0"
  by (cases P) auto

section \<open>A timer for the witnesses\<close>

text \<open>A callback that logs the times it is called at.\<close>

definition log_callback :: "time_data \<Rightarrow> time_data list \<Rightarrow> unit outcome \<times> time_data list" where
  "log_callback now w = (Ok (), w @ [now])"

definition demo_time :: "int \<Rightarrow> time_data" where
  "demo_time k = \<lparr>m_nYear = 2014, m_nMon = 5, m_nDay = 6, m_nHour = 7, m_nMin = k div 60, m_nSec = k mod 60,
     m_nWeekDay = 2, m_nAnsiTime = k, m_nMiliSec = word_of_int (k * 1000)\<rparr>"

definition demo_timer :: "time_data list timer" where
  "demo_timer = SetAlarmMinute 8 \<lparr>m_funCallback = Some log_callback, m_kLastTrigger = demo_time 0, m_nClock = 0,
     m_nInterval = 0\<rparr>"

lemma demo_timer_facts:
  "m_nInterval demo_timer = 0" "m_funCallback demo_timer = Some log_callback" "m_kLastTrigger demo_timer = demo_time 0"
  "m_nClock demo_timer = 0x800008"
  by (simp_all add: demo_timer_def SetAlarmMinute_def tcm_defs TCM_ALL_def)

section \<open>Properties\<close>

text \<open>C26: \<open>SetAlarmTime\<close> stores five independent fields: a value in its calendar range is read back by
  its getter and has its flag set, whatever the word held and whatever the other arguments are; a
  value out of range leaves the flag clear.\<close>

theorem alarm_fields:
  assumes "t' = SetAlarmTime mo d w h mi t"
  shows "(if in_range mo 1 12 then GetAlarmMonth t' = mo \<and> m_nClock t' AND TCM_MONTH_FLAG \<noteq> 0
          else m_nClock t' AND TCM_MONTH_FLAG = 0) \<and>
    (if in_range w 0 6 then GetAlarmWeek t' = w \<and> m_nClock t' AND TCM_WEEK_FLAG \<noteq> 0
     else m_nClock t' AND TCM_WEEK_FLAG = 0) \<and>
    (if in_range d 1 31 then GetAlarmDay t' = d \<and> m_nClock t' AND TCM_DAY_FLAG \<noteq> 0
     else m_nClock t' AND TCM_DAY_FLAG = 0) \<and>
    (if in_range h 0 23 then GetAlarmHour t' = h \<and> m_nClock t' AND TCM_HOUR_FLAG \<noteq> 0
     else m_nClock t' AND TCM_HOUR_FLAG = 0) \<and>
    (if in_range mi 0 59 then GetAlarmMinute t' = mi \<and> m_nClock t' AND TCM_MINUTE_FLAG \<noteq> 0
     else m_nClock t' AND TCM_MINUTE_FLAG = 0)"
proof -
  note fit = ranges_fit [of mo] ranges_fit [of w] ranges_fit [of d] ranges_fit [of h] ranges_fit [of mi]
  have fl: "(c AND TCM_MONTH_FLAG \<noteq> 0) = bit c 27" "(c AND TCM_WEEK_FLAG \<noteq> 0) = bit c 26"
    "(c AND TCM_DAY_FLAG \<noteq> 0) = bit c 25" "(c AND TCM_HOUR_FLAG \<noteq> 0) = bit c 24"
    "(c AND TCM_MINUTE_FLAG \<noteq> 0) = bit c 23" for c
    unfolding TCM_MONTH_FLAG_def TCM_WEEK_FLAG_def TCM_DAY_FLAG_def TCM_HOUR_FLAG_def TCM_MINUTE_FLAG_def flag_test
    by simp_all
  define c where "c = m_nClock t'"
  have c: "c = field_set 0 6 23 (in_range mi 0 59) (field_set 6 5 24 (in_range h 0 23) (field_set 11 5 25
      (in_range d 1 31) (field_set 16 3 26 (in_range w 0 6) (field_set 19 4 27 (in_range mo 1 12) (m_nClock t) mo) w) d) h) mi"
    by (simp only: c_def assms SetAlarmTime_def setter_clocks)
  have flags: "bit c 27 = in_range mo 1 12" "bit c 26 = in_range w 0 6" "bit c 25 = in_range d 1 31"
    "bit c 24 = in_range h 0 23" "bit c 23 = in_range mi 0 59"
    using fit unfolding c by (simp_all add: field_set_flag)
  have mo: "in_range mo 1 12 \<Longrightarrow> field_get 19 4 c = mo" and w: "in_range w 0 6 \<Longrightarrow> field_get 16 3 c = w"
    and d: "in_range d 1 31 \<Longrightarrow> field_get 11 5 c = d" and h: "in_range h 0 23 \<Longrightarrow> field_get 6 5 c = h"
    and mi: "in_range mi 0 59 \<Longrightarrow> field_get 0 6 c = mi"
    using fit unfolding c by (simp_all add: field_set_same field_set_other)
  show ?thesis
    unfolding getter_fields c_def [symmetric]
    by (intro conjI if_flag mo w d h mi) (simp_all only: fl flags)
qed

theorem alarm_fields_witness:
  "GetAlarmMonth (SetAlarmTime 12 31 99 0 59 demo_timer) = 12 \<and>
   m_nClock (SetAlarmTime 12 31 99 0 59 demo_timer) AND TCM_WEEK_FLAG = 0 \<and>
   GetAlarmMinute (SetAlarmTime 12 31 99 0 59 demo_timer) = 59"
proof -
  have r: "in_range 12 1 12" "\<not> in_range 99 0 6" "in_range 59 0 59" by (simp_all add: in_range_def)
  from alarm_fields [OF refl, of 12 31 99 0 59 demo_timer] show ?thesis using r by simp
qed

fun ticks :: "'w timer \<Rightarrow> time_data list \<Rightarrow> 'w \<Rightarrow> 'w timer \<times> 'w" where
  "ticks t [] w = (t, w)"
| "ticks t (now # nows) w = (let (r, t1, w1) = TimerEx_Tick t now w in ticks t1 nows w1)"

lemma tick_no_interval:
  assumes "sint (m_nInterval t) \<le> 0" "m_funCallback t = Some log_callback"
  shows "TimerEx_Tick t now w =
    (if 0 < m_nClock t \<and> \<not> same_minute (m_kLastTrigger t) now \<and> alarm_due t now
     then (Ok (), t\<lparr>m_kLastTrigger := now\<rparr>, w @ [now]) else (Ok (), t, w))"
  using assms by (simp add: TimerEx_Tick_def tick_interval_def tick_alarm_def call_back_def log_callback_def)

lemma ticks_same_minute:
  assumes "sint (m_nInterval t) \<le> 0" "m_funCallback t = Some log_callback"
    and "\<forall>now \<in> set nows. same_minute (m_kLastTrigger t) now"
  shows "ticks t nows w = (t, w)"
  using assms by (induction nows) (simp_all add: tick_no_interval)

text \<open>C25: a tick of a timer without interval calls the callback exactly when the clock word is not
  zero, the calendar minute is not the one of the last firing, and every flagged field equals the
  time's; then it remembers the time, so that any number of ticks within one calendar minute fire
  at most once.\<close>

theorem alarm_tick:
  assumes "sint (m_nInterval t) \<le> 0" "m_funCallback t = Some log_callback"
    and "\<forall>a \<in> set nows. \<forall>b \<in> set nows. same_minute a b"
  shows "snd (ticks t nows w) =
    (case filter (\<lambda>now. 0 < m_nClock t \<and> \<not> same_minute (m_kLastTrigger t) now \<and> alarm_due t now) nows of
       [] \<Rightarrow> w | now # _ \<Rightarrow> w @ [now])"
  using assms(3)
proof (induction nows)
  case Nil
  then show ?case by simp
next
  case (Cons now nows)
  show ?case
  proof (cases "0 < m_nClock t \<and> \<not> same_minute (m_kLastTrigger t) now \<and> alarm_due t now")
    case True
    have "ticks (t\<lparr>m_kLastTrigger := now\<rparr>) nows (w @ [now]) = (t\<lparr>m_kLastTrigger := now\<rparr>, w @ [now])"
      by (rule ticks_same_minute) (use assms(1,2) Cons.prems in auto)
    then show ?thesis using True by (simp add: tick_no_interval [OF assms(1,2)])
  next
    case False
    then have "snd (ticks t (now # nows) w) = snd (ticks t nows w)"
      by (simp add: tick_no_interval [OF assms(1,2)] del: de_Morgan_conj)
    then show ?thesis using False Cons by auto
  qed
qed

theorem alarm_tick_witness:
  "snd (ticks demo_timer [demo_time 481, demo_time 482, demo_time 483] []) = [demo_time 481]"
proof -
  have due: "alarm_due demo_timer (demo_time 481)" "\<not> same_minute (demo_time 0) (demo_time 481)"
    by (simp_all add: alarm_due_def same_minute_def demo_timer_facts demo_time_def tcm_defs GetAlarmMinute_def)
  have "\<forall>a \<in> set [demo_time 481, demo_time 482, demo_time 483].
      \<forall>b \<in> set [demo_time 481, demo_time 482, demo_time 483]. same_minute a b"
    by (simp add: same_minute_def demo_time_def)
  from alarm_tick [OF _ demo_timer_facts(2) this, of "[]"] show ?thesis
    using due by (simp add: demo_timer_facts)
qed

text \<open>taking an alarm back with arguments out of range clears the flags but leaves the values, so
  the clock word stays above zero: the timer then fires at the first tick of every new minute.\<close>

theorem cleared_alarm_fires:
  assumes "t' = SetAlarmTime (- 1) (- 1) (- 1) (- 1) (- 1) t" "m_nClock t' \<noteq> 0"
    and "sint (m_nInterval t) \<le> 0" "m_funCallback t = Some log_callback"
    and "\<not> same_minute (m_kLastTrigger t) now"
  shows "TimerEx_Tick t' now w = (Ok (), t'\<lparr>m_kLastTrigger := now\<rparr>, w @ [now])"
proof -
  have "\<not> in_range (- 1) 1 12" "\<not> in_range (- 1) 0 6" "\<not> in_range (- 1) 1 31" "\<not> in_range (- 1) 0 23"
    "\<not> in_range (- 1) 0 59" by (simp_all add: in_range_def)
  then have "alarm_due t' now"
    using alarm_fields [OF assms(1)] unfolding alarm_due_def by presburger
  moreover have "m_nInterval t' = m_nInterval t" "m_funCallback t' = m_funCallback t"
    "m_kLastTrigger t' = m_kLastTrigger t"
    by (simp_all add: assms(1) SetAlarmTime_def SetAlarmMonth_def SetAlarmWeek_def SetAlarmDay_def
      SetAlarmHour_def SetAlarmMinute_def)
  moreover have "0 < m_nClock t'" using assms(2) by (simp add: word_gt_0)
  ultimately show ?thesis using assms(3-5) tick_no_interval [of t' now w] by simp
qed

theorem cleared_alarm_fires_witness:
  "snd (snd (TimerEx_Tick (SetAlarmTime (- 1) (- 1) (- 1) (- 1) (- 1) demo_timer) (demo_time 60) [])) = [demo_time 60]"
proof -
  have "m_nClock (SetAlarmTime (- 1) (- 1) (- 1) (- 1) (- 1) demo_timer) \<noteq> 0"
    by (simp add: SetAlarmTime_def SetAlarmMonth_def SetAlarmWeek_def SetAlarmDay_def
      SetAlarmHour_def SetAlarmMinute_def tcm_defs TCM_ALL_def demo_timer_facts)
  moreover have "\<not> same_minute (m_kLastTrigger demo_timer) (demo_time 60)"
    by (simp add: same_minute_def demo_time_def demo_timer_facts)
  ultimately show ?thesis
    using cleared_alarm_fires [OF refl, of demo_timer "demo_time 60" "[]"] by (simp add: demo_timer_facts)
qed

end
