(* ===== verification/Service.thy ===== *)
theory Service
  imports TimerFacts MessageCodec
begin

text \<open>
  One service: \<open>include/service/service.h\<close>, \<open>src/service/service.cpp\<close>. The virtual functions of a
  derived class are a record of functions over the service object and a state of any type \<open>'w\<close>
  that they and the timers' callbacks work on.
\<close>

section \<open>The object\<close>

datatype service_state = SS_NONE | SS_START | SS_START_PROCESS | SS_START_FAIL | SS_START_OK | SS_RUN |
  SS_SHUTDOWN | SS_SHUTDOWN_PROCESS | SS_SHUTDOWN_OK

datatype running_state = RS_READY | RS_SCHEDULE | RS_RUNNING

instantiation running_state :: linorder
begin

fun running_state_rank :: "running_state \<Rightarrow> nat" where
  "running_state_rank RS_READY = 0"
| "running_state_rank RS_SCHEDULE = 1"
| "running_state_rank RS_RUNNING = 2"

definition less_eq_running_state :: "running_state \<Rightarrow> running_state \<Rightarrow> bool" where
  "less_eq_running_state a b = (running_state_rank a \<le> running_state_rank b)"

definition less_running_state :: "running_state \<Rightarrow> running_state \<Rightarrow> bool" where
  "less_running_state a b = (running_state_rank a < running_state_rank b)"

instance
proof
  fix x y z :: running_state
  show "(x < y) = (x \<le> y \<and> \<not> y \<le> x)" by (auto simp: less_eq_running_state_def less_running_state_def)
  show "x \<le> x" by (simp add: less_eq_running_state_def)
  show "x \<le> y \<Longrightarrow> y \<le> z \<Longrightarrow> x \<le> z" by (simp add: less_eq_running_state_def)
  show "x \<le> y \<Longrightarrow> y \<le> x \<Longrightarrow> x = y" by (cases x; cases y) (simp_all add: less_eq_running_state_def)
  show "x \<le> y \<or> y \<le> x" by (auto simp: less_eq_running_state_def)
qed

end

type_synonym 'w message_callback = "tbyte list \<Rightarrow> 'w \<Rightarrow> bool outcome \<times> 'w"

record 'w service =
  m_TimerExPtrVec :: "'w timer list"
  m_MessageHandlerVec :: "'w message_callback option list"
  m_enmRunState :: running_state
  m_enmServiceState :: service_state
  m_nServiceID :: tint32
  m_nUpdateTime :: tuint64

definition Service_new :: "'w service" where
  "Service_new = \<lparr>m_TimerExPtrVec = [], m_MessageHandlerVec = [], m_enmRunState = RS_READY,
     m_enmServiceState = SS_NONE, m_nServiceID = - 1, m_nUpdateTime = 0\<rparr>"

definition GetServiceID :: "'w service \<Rightarrow> tint32" where
  "GetServiceID sv = m_nServiceID sv"

definition SetRunningState :: "running_state \<Rightarrow> 'w service \<Rightarrow> 'w service" where
  "SetRunningState r sv = sv\<lparr>m_enmRunState := r\<rparr>"

definition GetRunningState :: "'w service \<Rightarrow> running_state" where
  "GetRunningState sv = m_enmRunState sv"

definition SetServiceState :: "service_state \<Rightarrow> 'w service \<Rightarrow> 'w service" where
  "SetServiceState ss sv = sv\<lparr>m_enmServiceState := ss\<rparr>"

definition GetServiceState :: "'w service \<Rightarrow> service_state" where
  "GetServiceState sv = m_enmServiceState sv"

definition SetUpdateTime :: "tuint64 \<Rightarrow> 'w service \<Rightarrow> 'w service" where
  "SetUpdateTime t sv = sv\<lparr>m_nUpdateTime := t\<rparr>"

definition GetUpdateTime :: "'w service \<Rightarrow> tuint64" where
  "GetUpdateTime sv = m_nUpdateTime sv"

lemmas accessor_defs [simp] = GetServiceID_def SetRunningState_def GetRunningState_def SetServiceState_def
  GetServiceState_def SetUpdateTime_def GetUpdateTime_def

definition AddTimer :: "'w timer \<Rightarrow> 'w service \<Rightarrow> 'w service" where
  "AddTimer t sv = sv\<lparr>m_TimerExPtrVec := m_TimerExPtrVec sv @ [t]\<rparr>"

text \<open>\<open>std::vector::resize\<close>: new entries are empty functions.\<close>

definition vec_resize :: "'a option list \<Rightarrow> nat \<Rightarrow> 'a option list" where
  "vec_resize v n = take n v @ replicate (n - length v) None"

definition RegisterMessage :: "tuint16 \<Rightarrow> 'w message_callback \<Rightarrow> 'w service \<Rightarrow> bool outcome \<times> 'w service" where
  "RegisterMessage nID handler sv =
     (if nID < 0 \<or> nID \<ge> - 1 then (Ok False, sv)
      else
        let v = (if unat nID > length (m_MessageHandlerVec sv)
                 then vec_resize (m_MessageHandlerVec sv) (unat nID + 1) else m_MessageHandlerVec sv);
            sv1 = sv\<lparr>m_MessageHandlerVec := v\<rparr>
        in case bsvector_at v (unat nID) of
             Raised e \<Rightarrow> (Raised e, sv1)
           | Ok h \<Rightarrow>
               if h \<noteq> None then (Ok False, sv1)
               else (Ok True, sv1\<lparr>m_MessageHandlerVec := v[unat nID := Some handler]\<rparr>))"

section \<open>Virtual functions\<close>

record 'w service_class =
  GetServiceType :: tint32
  v_NeedSchedule :: "'w service \<Rightarrow> 'w \<Rightarrow> bool"
  v_IsStartOK :: "'w service \<Rightarrow> 'w \<Rightarrow> bool"
  v_IsShutdownOK :: "'w service \<Rightarrow> 'w \<Rightarrow> bool"
  v_Init :: "'w service \<Rightarrow> 'w \<Rightarrow> bool outcome \<times> 'w service \<times> 'w"
  v_Tick :: "time_data \<Rightarrow> 'w service \<Rightarrow> 'w \<Rightarrow> unit outcome \<times> 'w service \<times> 'w"
  v_Shutdown :: "'w service \<Rightarrow> 'w \<Rightarrow> bool outcome \<times> 'w service \<times> 'w"

text \<open>The ones of \<open>Service\<close> itself.\<close>

definition Service_NeedSchedule :: "'w service \<Rightarrow> 'w \<Rightarrow> bool" where
  "Service_NeedSchedule sv w = (m_enmServiceState sv \<noteq> SS_NONE \<and> m_enmServiceState sv \<noteq> SS_SHUTDOWN_OK)"

definition Service_IsStartOK :: "'w service \<Rightarrow> 'w \<Rightarrow> bool" where
  "Service_IsStartOK sv w = (m_enmServiceState sv = SS_START_OK \<or> m_enmServiceState sv \<noteq> SS_RUN)"

definition Service_IsShutdownOK :: "'w service \<Rightarrow> 'w \<Rightarrow> bool" where
  "Service_IsShutdownOK sv w = (m_enmServiceState sv = SS_SHUTDOWN_OK)"

fun tick_timers :: "time_data \<Rightarrow> 'w timer list \<Rightarrow> 'w \<Rightarrow> unit outcome \<times> 'w timer list \<times> 'w" where
  "tick_timers now [] w = (Ok (), [], w)"
| "tick_timers now (t # ts) w =
     (case TimerEx_Tick t now w of
        (Raised e, t1, w1) \<Rightarrow> (Raised e, t1 # ts, w1)
      | (Ok _, t1, w1) \<Rightarrow> (let (r, ts1, w2) = tick_timers now ts w1 in (r, t1 # ts1, w2)))"

definition Service_Tick :: "time_data \<Rightarrow> 'w service \<Rightarrow> 'w \<Rightarrow> unit outcome \<times> 'w service \<times> 'w" where
  "Service_Tick now sv w =
     (let (r, ts, w1) = tick_timers now (m_TimerExPtrVec sv) w in (r, sv\<lparr>m_TimerExPtrVec := ts\<rparr>, w1))"

definition Service_Init :: "'w service \<Rightarrow> 'w \<Rightarrow> bool outcome \<times> 'w service \<times> 'w" where
  "Service_Init sv w = (Ok True, sv, w)"

definition Service_Shutdown :: "'w service \<Rightarrow> 'w \<Rightarrow> bool outcome \<times> 'w service \<times> 'w" where
  "Service_Shutdown sv w = (Ok True, sv, w)"

definition Service_class :: "tint32 \<Rightarrow> 'w service_class" where
  "Service_class ty = \<lparr>GetServiceType = ty, v_NeedSchedule = Service_NeedSchedule, v_IsStartOK = Service_IsStartOK,
     v_IsShutdownOK = Service_IsShutdownOK, v_Init = Service_Init, v_Tick = Service_Tick,
     v_Shutdown = Service_Shutdown\<rparr>"

section \<open>Run\<close>

text \<open>The \<open>switch\<close> inside the exception block.\<close>

definition run_switch :: "'w service_class \<Rightarrow> time_data \<Rightarrow> 'w service \<Rightarrow> 'w \<Rightarrow> unit outcome \<times> 'w service \<times> 'w" where
  "run_switch cls now sv w =
     (case m_enmServiceState sv of
        SS_START \<Rightarrow>
          (case v_Init cls (sv\<lparr>m_enmServiceState := SS_START_PROCESS\<rparr>) w of
             (Raised e, sv1, w1) \<Rightarrow> (Raised e, sv1, w1)
           | (Ok ok, sv1, w1) \<Rightarrow> (Ok (), if \<not> ok then sv1\<lparr>m_enmServiceState := SS_START_FAIL\<rparr> else sv1, w1))
      | SS_START_PROCESS \<Rightarrow>
          (Ok (), if v_IsStartOK cls sv w then sv\<lparr>m_enmServiceState := SS_START_OK\<rparr> else sv, w)
      | SS_START_FAIL \<Rightarrow> (Raised OtherException, sv, w)
      | SS_START_OK \<Rightarrow> (Ok (), sv, w)
      | SS_RUN \<Rightarrow> v_Tick cls now sv w
      | SS_SHUTDOWN \<Rightarrow>
          (case v_Shutdown cls (sv\<lparr>m_enmServiceState := SS_SHUTDOWN_PROCESS\<rparr>) w of
             (Raised e, sv1, w1) \<Rightarrow> (Raised e, sv1, w1)
           | (Ok _, sv1, w1) \<Rightarrow> (Ok (), sv1, w1))
      | SS_SHUTDOWN_PROCESS \<Rightarrow>
          (Ok (), if v_IsShutdownOK cls sv w then sv\<lparr>m_enmServiceState := SS_SHUTDOWN_OK\<rparr> else sv, w)
      | SS_SHUTDOWN_OK \<Rightarrow> (Ok (), sv, w)
      | SS_NONE \<Rightarrow> (Ok (), sv, w))"

definition Run_begin :: "time_data \<Rightarrow> 'w service \<Rightarrow> 'w service" where
  "Run_begin now sv = SetUpdateTime (m_nMiliSec now) (SetRunningState RS_RUNNING sv)"

text \<open>What follows; a raised exception leaves through \<open>__LEAVE_FUNCTION\<close>, past \<open>SetRunningState\<close>.\<close>

definition Run_end :: "'w service_class \<Rightarrow> time_data \<Rightarrow> 'w service \<Rightarrow> 'w \<Rightarrow> unit outcome \<times> 'w service \<times> 'w" where
  "Run_end cls now sv w =
     (case run_switch cls now sv w of
        (Raised e, sv1, w1) \<Rightarrow> (Raised OtherException, sv1, w1)
      | (Ok _, sv1, w1) \<Rightarrow> (Ok (), SetRunningState RS_READY sv1, w1))"

definition Service_Run :: "'w service_class \<Rightarrow> time_data \<Rightarrow> 'w service \<Rightarrow> 'w \<Rightarrow> unit outcome \<times> 'w service \<times> 'w" where
  "Service_Run cls now sv w = Run_end cls now (Run_begin now sv) w"


section \<open>What the framework relies on\<close>

text \<open>
  A derived class leaves the framework's bookkeeping alone: its functions do not touch the running
  state, and a function that ends normally leaves the service state the framework set.
\<close>

definition keeps_state :: "'w service_class \<Rightarrow> bool" where
  "keeps_state cls \<longleftrightarrow>
     (\<forall>sv w r sv' w'. v_Init cls sv w = (r, sv', w') \<longrightarrow>
        m_enmRunState sv' = m_enmRunState sv \<and> m_enmServiceState sv' = m_enmServiceState sv) \<and>
     (\<forall>now sv w r sv' w'. v_Tick cls now sv w = (r, sv', w') \<longrightarrow>
        m_enmRunState sv' = m_enmRunState sv \<and> m_enmServiceState sv' = m_enmServiceState sv) \<and>
     (\<forall>sv w r sv' w'. v_Shutdown cls sv w = (r, sv', w') \<longrightarrow>
        m_enmRunState sv' = m_enmRunState sv \<and> m_enmServiceState sv' = m_enmServiceState sv)"

lemma Service_class_keeps: "keeps_state (Service_class ty)"
  by (auto simp: keeps_state_def Service_class_def Service_Init_def Service_Shutdown_def Service_Tick_def split: prod.splits)

lemma run_switch_runstate:
  assumes "keeps_state cls" "run_switch cls now sv w = (r, sv', w')"
  shows "m_enmRunState sv' = m_enmRunState sv"
  using assms unfolding keeps_state_def run_switch_def
  by (cases "m_enmServiceState sv") (fastforce split: prod.splits outcome.splits if_splits)+

lemma Service_Run_states:
  assumes "keeps_state cls" "Service_Run cls now sv w = (r, sv', w')"
  shows "m_enmRunState sv' = (if r = Ok () then RS_READY else RS_RUNNING)"
proof -
  obtain r1 sv1 w1 where s: "run_switch cls now (Run_begin now sv) w = (r1, sv1, w1)" by (metis prod_cases3)
  have "m_enmRunState sv1 = RS_RUNNING"
    using run_switch_runstate [OF assms(1) s] by (simp add: Run_begin_def)
  then show ?thesis using assms(2) s by (auto simp: Service_Run_def Run_end_def split: outcome.splits)
qed

text \<open>The service states a run of \<open>switch\<close> may lead to.\<close>

inductive state_step :: "service_state \<Rightarrow> service_state \<Rightarrow> bool" where
  stay: "state_step ss ss"
| init: "state_step SS_START SS_START_PROCESS"
| init_fail: "state_step SS_START SS_START_FAIL"
| start_ok: "state_step SS_START_PROCESS SS_START_OK"
| shutdown: "state_step SS_SHUTDOWN SS_SHUTDOWN_PROCESS"
| shutdown_ok: "state_step SS_SHUTDOWN_PROCESS SS_SHUTDOWN_OK"

inductive_cases state_step_from_fail: "state_step SS_START_FAIL ss"
inductive_cases state_step_from_shutdown: "state_step SS_SHUTDOWN ss"
inductive_cases state_step_from_ok: "state_step SS_SHUTDOWN_OK ss"

lemma run_switch_step:
  assumes "keeps_state cls" "run_switch cls now sv w = (r, sv', w')"
  shows "state_step (m_enmServiceState sv) (m_enmServiceState sv')"
  using assms unfolding keeps_state_def run_switch_def
  by (cases "m_enmServiceState sv") (fastforce split: prod.splits outcome.splits if_splits intro: state_step.intros)+

section \<open>Properties\<close>

text \<open>registering a message handler: a free slot below the size takes it, an occupied one refuses
  it, an id beyond the size grows the table by empty slots up to it, id 65535 is refused; and an id
  equal to the size is not grown for, so that the checked access raises an exception (this is what
  happens to message 0 of a new service).\<close>

theorem RegisterMessage_cases:
  fixes sv :: "'w service" and nID :: tuint16
  defines "v \<equiv> m_MessageHandlerVec sv" and "n \<equiv> unat nID"
  shows "RegisterMessage nID h sv =
    (if nID = - 1 then (Ok False, sv)
     else if n < length v
     then (if v ! n = None then (Ok True, sv\<lparr>m_MessageHandlerVec := v[n := Some h]\<rparr>) else (Ok False, sv))
     else if n = length v then (Raised OtherException, sv)
     else (Ok True, sv\<lparr>m_MessageHandlerVec := v @ replicate (n - length v) None @ [Some h]\<rparr>))"
proof (cases "nID = - 1")
  case True
  then show ?thesis by (simp add: RegisterMessage_def)
next
  case False
  then have ge: "\<not> nID \<ge> - 1" by (simp add: word_order.extremum_unique)
  show ?thesis
  proof (cases "n > length v")
    case True
    have sz: "vec_resize v (n + 1) = v @ replicate (n + 1 - length v) None"
      using True by (simp add: vec_resize_def)
    have at: "bsvector_at (vec_resize v (n + 1)) n = Ok None"
      unfolding sz using True by (simp add: bsvector_at_def nth_append)
    have "(v @ replicate (n + 1 - length v) None)[n := Some h] = v @ (replicate (n + 1 - length v) None)[n - length v := Some h]"
      using True by (simp add: list_update_append)
    moreover have "(replicate (n + 1 - length v) None)[n - length v := Some h] = replicate (n - length v) None @ [Some h]"
    proof -
      have "n + 1 - length v = Suc (n - length v)" using True by simp
      then have "replicate (n + 1 - length v) None = replicate (n - length v) None @ [None :: 'w message_callback option]"
        by (simp only: replicate_Suc replicate_append_same)
      then show ?thesis by (simp add: list_update_append)
    qed
    ultimately show ?thesis
      using True ge False at sz by (simp add: RegisterMessage_def Let_def v_def [symmetric] n_def [symmetric])
  next
    case no: False
    then show ?thesis
      using ge False by (auto simp: RegisterMessage_def Let_def v_def [symmetric] n_def [symmetric] bsvector_at_def)
  qed
qed

text \<open>a run that ends normally leaves the service ready to be scheduled again; one that raises an
  exception leaves it marked as running, and a service whose \<open>Init\<close> has failed raises at every
  run: it is never ready again.\<close>

theorem failed_service_stuck:
  assumes "keeps_state cls" "m_enmServiceState sv = SS_START" "v_Init cls (Run_begin now sv\<lparr>m_enmServiceState := SS_START_PROCESS\<rparr>) w
    = (Ok False, sv1, w1)" "Service_Run cls now sv w = (r, sv2, w2)" "Service_Run cls now' sv2 w2 = (r', sv3, w3)"
  shows "r = Ok () \<and> m_enmRunState sv2 = RS_READY \<and> m_enmServiceState sv2 = SS_START_FAIL \<and>
    r' = Raised OtherException \<and> m_enmRunState sv3 = RS_RUNNING \<and> m_enmServiceState sv3 = SS_START_FAIL"
proof -
  have "run_switch cls now (Run_begin now sv) w = (Ok (), sv1\<lparr>m_enmServiceState := SS_START_FAIL\<rparr>, w1)"
    using assms(2,3) by (simp add: run_switch_def Run_begin_def)
  then have 1: "r = Ok ()" "m_enmServiceState sv2 = SS_START_FAIL"
    using assms(4) by (auto simp: Service_Run_def Run_end_def)
  then have "run_switch cls now' (Run_begin now' sv2) w2 = (Raised OtherException, Run_begin now' sv2, w2)"
    by (simp add: run_switch_def Run_begin_def)
  then have 2: "r' = Raised OtherException" "m_enmServiceState sv3 = SS_START_FAIL"
    using assms(5) 1(2) by (auto simp: Service_Run_def Run_end_def Run_begin_def)
  show ?thesis
    using 1 2 Service_Run_states [OF assms(1,4)] Service_Run_states [OF assms(1,5)] by simp
qed

definition failing_class :: "unit service_class" where
  "failing_class = (Service_class 1)\<lparr>v_Init := (\<lambda>sv w. (Ok False, sv, w))\<rparr>"

theorem failed_service_stuck_witness:
  "m_enmRunState (fst (snd (Service_Run failing_class (demo_time 1)
     (fst (snd (Service_Run failing_class (demo_time 0) (SetServiceState SS_START Service_new) ()))) ()))) = RS_RUNNING"
proof -
  have k: "keeps_state failing_class"
    by (auto simp: keeps_state_def failing_class_def Service_class_def Service_Shutdown_def Service_Tick_def split: prod.splits)
  let ?s = "SetServiceState SS_START (Service_new :: unit service)"
  obtain r sv2 where r: "Service_Run failing_class (demo_time 0) ?s () = (r, sv2, ())" by (metis prod_cases3 old.unit.exhaust)
  obtain r' sv3 where r': "Service_Run failing_class (demo_time 1) sv2 () = (r', sv3, ())" by (metis prod_cases3 old.unit.exhaust)
  have i: "v_Init failing_class (Run_begin (demo_time 0) ?s\<lparr>m_enmServiceState := SS_START_PROCESS\<rparr>) () =
      (Ok False, Run_begin (demo_time 0) ?s\<lparr>m_enmServiceState := SS_START_PROCESS\<rparr>, ())"
    by (simp add: failing_class_def)
  show ?thesis using failed_service_stuck [OF k _ i r r'] r r' by (simp add: Service_new_def)
qed

end
