(* ===== verification/ServiceManager.thy ===== *)
theory ServiceManager
  imports Service
begin

text \<open>
  The scheduler: \<open>include/service/servicemanager.h\<close>, \<open>src/service/servicemanager.cpp\<close>. The thread pool
  is boost's \<open>fifo_pool\<close>, a queue of jobs that worker threads take from the front; a job is the call
  \<open>Service::Run\<close> of one service with the time of its scheduling. First the operations of the manager
  as functions, then the whole program as a step relation: the main thread's loop interleaved with
  the workers, who begin and end a run in separate steps.
\<close>

section \<open>The manager\<close>

datatype mgr_log = LogCreate tint32 | SlowSchedule tint32 tint32 tuint64 | SlowRun tint32 tint32 tuint64 |
  LogShutDown tint32 | LogWaitTimeout

type_synonym job = "nat \<times> time_data"

record 'w manager =
  m_ServicePtrVec :: "('w service_class \<times> 'w service) list"
  m_bShutdown :: bool
  m_pkThreadPool :: "job list option"
  m_stLog :: "mgr_log list"

definition ServiceManager_new :: "'w manager" where
  "ServiceManager_new = \<lparr>m_ServicePtrVec = [], m_bShutdown = False, m_pkThreadPool = None, m_stLog = []\<rparr>"

text \<open>\<open>Create\<close>; \<open>log_ok\<close> is the result of \<open>Log_Engine::init\<close>.\<close>

definition Create :: "bool \<Rightarrow> tint32 \<Rightarrow> 'w manager \<Rightarrow> bool outcome \<times> 'w manager" where
  "Create log_ok nThreadCount mgr =
     (if \<not> log_ok then (Ok False, mgr)
      else if m_pkThreadPool mgr \<noteq> None then (Raised OtherException, mgr)
      else (Ok True, mgr\<lparr>m_pkThreadPool := Some [], m_stLog := m_stLog mgr @ [LogCreate nThreadCount]\<rparr>))"

definition Register :: "('w service_class \<times> 'w service) option \<Rightarrow> 'w manager \<Rightarrow> unit outcome \<times> 'w manager" where
  "Register pService mgr =
     (case pService of
        None \<Rightarrow> (Raised OtherException, mgr)
      | Some (cls, sv) \<Rightarrow>
          (Ok (), mgr\<lparr>m_ServicePtrVec := m_ServicePtrVec mgr @
             [(cls, sv\<lparr>m_nServiceID := word_of_nat (length (m_ServicePtrVec mgr)) + 1\<rparr>)]\<rparr>))"

text \<open>One turn of the loop of \<open>Tick\<close>: the service, the job given to the pool, the line logged.\<close>

definition tick_one :: "time_data \<Rightarrow> 'w \<Rightarrow> nat \<Rightarrow> 'w service_class \<times> 'w service
    \<Rightarrow> 'w service \<times> job list \<times> mgr_log list" where
  "tick_one now w i p =
     (case p of (cls, sv) \<Rightarrow>
        case GetRunningState sv of
          RS_READY \<Rightarrow>
            (if v_NeedSchedule cls sv w
             then (SetUpdateTime (m_nMiliSec now) (SetRunningState RS_SCHEDULE sv), [(i, now)], [])
             else (sv, [], []))
        | RS_SCHEDULE \<Rightarrow>
            (sv, [], if m_nMiliSec now - GetUpdateTime sv > 1000
                     then [SlowSchedule (GetServiceType cls) (GetServiceID sv) (m_nMiliSec now - GetUpdateTime sv)] else [])
        | RS_RUNNING \<Rightarrow>
            (sv, [], if m_nMiliSec now - GetUpdateTime sv > 1000
                     then [SlowRun (GetServiceType cls) (GetServiceID sv) (m_nMiliSec now - GetUpdateTime sv)] else []))"

fun tick_services :: "time_data \<Rightarrow> 'w \<Rightarrow> nat \<Rightarrow> ('w service_class \<times> 'w service) list
    \<Rightarrow> ('w service_class \<times> 'w service) list \<times> job list \<times> mgr_log list" where
  "tick_services now w i [] = ([], [], [])"
| "tick_services now w i (p # ps) =
     (let (sv, js, ls) = tick_one now w i p;
          (ps', js', ls') = tick_services now w (Suc i) ps
      in ((fst p, sv) # ps', js @ js', ls @ ls'))"

definition Manager_Tick :: "time_data \<Rightarrow> 'w \<Rightarrow> 'w manager \<Rightarrow> unit outcome \<times> 'w manager" where
  "Manager_Tick now w mgr =
     (case m_pkThreadPool mgr of
        None \<Rightarrow> (Raised OtherException, mgr)
      | Some q \<Rightarrow>
          let (ps, js, ls) = tick_services now w 0 (m_ServicePtrVec mgr)
          in (Ok (), mgr\<lparr>m_ServicePtrVec := ps, m_pkThreadPool := Some (q @ js), m_stLog := m_stLog mgr @ ls\<rparr>))"

definition ShutDown :: "tint32 \<Rightarrow> 'w manager \<Rightarrow> 'w manager" where
  "ShutDown nReason mgr = mgr\<lparr>m_bShutdown := True, m_stLog := m_stLog mgr @ [LogShutDown nReason]\<rparr>"

definition IsAllServiceStatusEqual :: "service_state \<Rightarrow> 'w manager \<Rightarrow> bool" where
  "IsAllServiceStatusEqual ss mgr = list_all (\<lambda>p. \<not> GetServiceState (snd p) \<noteq> ss) (m_ServicePtrVec mgr)"

definition SetAllServiceStatus :: "service_state \<Rightarrow> 'w manager \<Rightarrow> 'w manager" where
  "SetAllServiceStatus ss mgr =
     mgr\<lparr>m_ServicePtrVec := map (\<lambda>p. (fst p, SetServiceState ss (snd p))) (m_ServicePtrVec mgr)\<rparr>"

definition RunLogicBreakCondition :: "service_state \<Rightarrow> 'w manager \<Rightarrow> bool" where
  "RunLogicBreakCondition enmRunStatus mgr =
     (case enmRunStatus of
        SS_START \<Rightarrow> IsAllServiceStatusEqual SS_START_OK mgr
      | SS_RUN \<Rightarrow> m_bShutdown mgr
      | SS_SHUTDOWN \<Rightarrow> IsAllServiceStatusEqual SS_SHUTDOWN_OK mgr
      | _ \<Rightarrow> True)"

text \<open>\<open>Wait\<close>: the pool's answer within the time given is a parameter; a late pool is only logged.\<close>

definition Manager_Wait :: "bool \<Rightarrow> 'w manager \<Rightarrow> unit outcome \<times> 'w manager" where
  "Manager_Wait in_time mgr =
     (case m_pkThreadPool mgr of
        None \<Rightarrow> (Raised OtherException, mgr)
      | Some q \<Rightarrow> (Ok (), if in_time then mgr else mgr\<lparr>m_stLog := m_stLog mgr @ [LogWaitTimeout]\<rparr>))"

section \<open>The program\<close>

text \<open>
  \<open>Run\<close> is three \<open>RunLogic\<close> calls; the place in \<open>RunLogic\<close> is in \<open>Tick\<close>, before the test of the
  break condition, or in \<open>Wait\<close>. \<open>sy_running\<close> holds the runs that worker threads have begun.
\<close>

datatype place_in_loop = Ticking | Checking | Waiting | Finished

record 'w sys =
  sy_mgr :: "'w manager"
  sy_phase :: service_state
  sy_place :: place_in_loop
  sy_running :: "job list"
  sy_world :: 'w

fun next_phase :: "service_state \<Rightarrow> service_state option" where
  "next_phase SS_START = Some SS_RUN"
| "next_phase SS_RUN = Some SS_SHUTDOWN"
| "next_phase _ = None"

definition RunLogic_begin :: "service_state \<Rightarrow> 'w manager \<Rightarrow> job list \<Rightarrow> 'w \<Rightarrow> 'w sys" where
  "RunLogic_begin ph mgr rs w = \<lparr>sy_mgr = SetAllServiceStatus ph mgr, sy_phase = ph, sy_place = Ticking,
     sy_running = rs, sy_world = w\<rparr>"

definition services_update :: "nat \<Rightarrow> ('w service \<Rightarrow> 'w service) \<Rightarrow> 'w manager \<Rightarrow> 'w manager" where
  "services_update i f mgr = mgr\<lparr>m_ServicePtrVec :=
     (m_ServicePtrVec mgr)[i := (fst (m_ServicePtrVec mgr ! i), f (snd (m_ServicePtrVec mgr ! i)))]\<rparr>"

inductive sys_step :: "'w sys \<Rightarrow> 'w sys \<Rightarrow> bool" where
  tick: "sy_place st = Ticking \<Longrightarrow> Manager_Tick now (sy_world st) (sy_mgr st) = (Ok (), mgr') \<Longrightarrow>
    sys_step st (st\<lparr>sy_mgr := mgr', sy_place := Checking\<rparr>)"
| again: "sy_place st = Checking \<Longrightarrow> \<not> RunLogicBreakCondition (sy_phase st) (sy_mgr st) \<Longrightarrow>
    sys_step st (st\<lparr>sy_place := Ticking\<rparr>)"
| leave: "sy_place st = Checking \<Longrightarrow> RunLogicBreakCondition (sy_phase st) (sy_mgr st) \<Longrightarrow>
    sys_step st (st\<lparr>sy_place := Waiting\<rparr>)"
| next_logic: "sy_place st = Waiting \<Longrightarrow> Manager_Wait in_time (sy_mgr st) = (Ok (), mgr') \<Longrightarrow>
    in_time = (m_pkThreadPool (sy_mgr st) = Some [] \<and> sy_running st = []) \<Longrightarrow>
    next_phase (sy_phase st) = Some ph \<Longrightarrow>
    sys_step st (RunLogic_begin ph mgr' (sy_running st) (sy_world st))"
| done_all: "sy_place st = Waiting \<Longrightarrow> next_phase (sy_phase st) = None \<Longrightarrow>
    sys_step st (st\<lparr>sy_place := Finished\<rparr>)"
| begin_run: "m_pkThreadPool (sy_mgr st) = Some ((i, now) # q) \<Longrightarrow> i < length (m_ServicePtrVec (sy_mgr st)) \<Longrightarrow>
    sys_step st (st\<lparr>sy_mgr := (services_update i (Run_begin now) (sy_mgr st))\<lparr>m_pkThreadPool := Some q\<rparr>,
      sy_running := sy_running st @ [(i, now)]\<rparr>)"
| end_run: "sy_running st = xs @ (i, now) # ys \<Longrightarrow> i < length (m_ServicePtrVec (sy_mgr st)) \<Longrightarrow>
    m_ServicePtrVec (sy_mgr st) ! i = (cls, sv) \<Longrightarrow> Run_end cls now sv (sy_world st) = (r, sv', w') \<Longrightarrow>
    sys_step st (st\<lparr>sy_mgr := services_update i (\<lambda>_. sv') (sy_mgr st), sy_running := xs @ ys, sy_world := w'\<rparr>)"
| signal: "sys_step st (st\<lparr>sy_mgr := ShutDown n (sy_mgr st)\<rparr>)"

inductive sys_reach :: "'w sys \<Rightarrow> 'w sys \<Rightarrow> bool" for st0 where
  start: "sys_reach st0 st0"
| step: "sys_reach st0 st \<Longrightarrow> sys_step st st' \<Longrightarrow> sys_reach st0 st'"

end
