(* ===== verification/ServiceSafety.thy ===== *)
theory ServiceSafety
  imports ServiceManager
begin

text \<open>
  The scheduler's invariant: every job in the pool belongs to a service marked as scheduled, every
  begun run to one marked as running, and no service occurs twice; and what the program reaches in
  its shutdown phase.
\<close>

section \<open>One tick\<close>

lemma tick_one_cases:
  assumes "tick_one now w i (cls, sv) = (sv', js, ls)"
  shows "(js = [(i, now)] \<and> m_enmRunState sv = RS_READY \<and> m_enmRunState sv' = RS_SCHEDULE \<or>
      js = [] \<and> m_enmRunState sv' = m_enmRunState sv) \<and> m_enmServiceState sv' = m_enmServiceState sv"
  using assms by (auto simp: tick_one_def split: running_state.splits if_splits)

definition ticked :: "nat \<Rightarrow> ('w service_class \<times> 'w service) list \<Rightarrow> ('w service_class \<times> 'w service) list \<Rightarrow> nat set \<Rightarrow> bool" where
  "ticked k ps ps' J \<longleftrightarrow> length ps' = length ps \<and> (\<forall>i<length ps. fst (ps' ! i) = fst (ps ! i) \<and>
     m_enmServiceState (snd (ps' ! i)) = m_enmServiceState (snd (ps ! i)) \<and>
     (if k + i \<in> J then m_enmRunState (snd (ps ! i)) = RS_READY \<and> m_enmRunState (snd (ps' ! i)) = RS_SCHEDULE
      else m_enmRunState (snd (ps' ! i)) = m_enmRunState (snd (ps ! i))))"

lemma tick_services_spec:
  assumes "tick_services now w k ps = (ps', js, ls)"
  shows "distinct (map fst js) \<and> fst ` set js \<subseteq> {k..<k + length ps} \<and> ticked k ps ps' (fst ` set js)"
  using assms
proof (induction ps arbitrary: k ps' js ls)
  case Nil
  then show ?case by (simp add: ticked_def)
next
  case (Cons p ps)
  obtain cls sv where p: "p = (cls, sv)" by fastforce
  obtain sv1 j1 l1 where 1: "tick_one now w k (cls, sv) = (sv1, j1, l1)" by (metis prod_cases3)
  obtain ps2 j2 l2 where 2: "tick_services now w (Suc k) ps = (ps2, j2, l2)" by (metis prod_cases3)
  have r: "ps' = (cls, sv1) # ps2" "js = j1 @ j2" using Cons.prems 1 2 p by auto
  note c = tick_one_cases [OF 1]
  note ih = Cons.IH [OF 2]
  have j1: "fst ` set j1 \<subseteq> {k}" "distinct (map fst j1)" using c by auto
  have j2: "fst ` set j2 \<subseteq> {Suc k..<Suc k + length ps}" using ih by blast
  have notin: "k \<notin> fst ` set j2" using j2 by fastforce
  have "ticked k (p # ps) ps' (fst ` set js)"
    unfolding ticked_def
  proof (intro conjI allI impI)
    show "length ps' = length (p # ps)" using r ih by (simp add: ticked_def)
  next
    fix i assume i: "i < length (p # ps)"
    have "fst (ps' ! i) = fst ((p # ps) ! i) \<and> m_enmServiceState (snd (ps' ! i)) = m_enmServiceState (snd ((p # ps) ! i)) \<and>
     (if k + i \<in> fst ` set js then m_enmRunState (snd ((p # ps) ! i)) = RS_READY \<and> m_enmRunState (snd (ps' ! i)) = RS_SCHEDULE
      else m_enmRunState (snd (ps' ! i)) = m_enmRunState (snd ((p # ps) ! i)))"
    proof (cases i)
      case 0
      then show ?thesis using c r p notin by auto
    next
      case (Suc j)
      have "k + i \<in> fst ` set js \<longleftrightarrow> Suc k + j \<in> fst ` set j2" using Suc r j1 by auto
      moreover have "j < length ps" using i Suc by simp
      ultimately show ?thesis using ih Suc r by (simp add: ticked_def)
    qed
    then show "fst (ps' ! i) = fst ((p # ps) ! i)" "m_enmServiceState (snd (ps' ! i)) = m_enmServiceState (snd ((p # ps) ! i))"
      "if k + i \<in> fst ` set js then m_enmRunState (snd ((p # ps) ! i)) = RS_READY \<and> m_enmRunState (snd (ps' ! i)) = RS_SCHEDULE
      else m_enmRunState (snd (ps' ! i)) = m_enmRunState (snd ((p # ps) ! i))" by blast+
  qed
  moreover have "distinct (map fst js)" using r j1 ih notin by auto
  moreover have "fst ` set js \<subseteq> {k..<k + length (p # ps)}" using r j1 j2 by auto
  ultimately show ?case by blast
qed

section \<open>The invariant\<close>

definition run_state_at :: "'w manager \<Rightarrow> nat \<Rightarrow> running_state" where
  "run_state_at mgr i = m_enmRunState (snd (m_ServicePtrVec mgr ! i))"

definition sched_inv :: "'w sys \<Rightarrow> bool" where
  "sched_inv st \<longleftrightarrow> (\<exists>q. m_pkThreadPool (sy_mgr st) = Some q \<and>
     distinct (map fst q @ map fst (sy_running st)) \<and>
     fst ` set q \<union> fst ` set (sy_running st) \<subseteq> {..<length (m_ServicePtrVec (sy_mgr st))} \<and>
     (\<forall>i \<in> fst ` set q. run_state_at (sy_mgr st) i = RS_SCHEDULE) \<and>
     (\<forall>i \<in> fst ` set (sy_running st). run_state_at (sy_mgr st) i = RS_RUNNING)) \<and>
   list_all (\<lambda>p. keeps_state (fst p)) (m_ServicePtrVec (sy_mgr st))"

lemma services_update_simps:
  "length (m_ServicePtrVec (services_update i f mgr)) = length (m_ServicePtrVec mgr)"
  "m_pkThreadPool (services_update i f mgr) = m_pkThreadPool mgr"
  "i < length (m_ServicePtrVec mgr) \<Longrightarrow> j < length (m_ServicePtrVec mgr) \<Longrightarrow>
    m_ServicePtrVec (services_update i f mgr) ! j =
      (if j = i then (fst (m_ServicePtrVec mgr ! i), f (snd (m_ServicePtrVec mgr ! i))) else m_ServicePtrVec mgr ! j)"
  by (simp_all add: services_update_def)

lemma services_update_keeps:
  "i < length (m_ServicePtrVec mgr) \<Longrightarrow>
    map fst (m_ServicePtrVec (services_update i f mgr)) = map fst (m_ServicePtrVec mgr)"
  by (rule nth_equalityI) (simp_all add: services_update_def nth_list_update)

lemma list_all_map_fst: "list_all (\<lambda>p. P (fst p)) xs = list_all P (map fst xs)"
  by (simp add: list.pred_map comp_def)

lemma set_all_simps:
  "length (m_ServicePtrVec (SetAllServiceStatus ss mgr)) = length (m_ServicePtrVec mgr)"
  "m_pkThreadPool (SetAllServiceStatus ss mgr) = m_pkThreadPool mgr"
  "map fst (m_ServicePtrVec (SetAllServiceStatus ss mgr)) = map fst (m_ServicePtrVec mgr)"
  "i < length (m_ServicePtrVec mgr) \<Longrightarrow> run_state_at (SetAllServiceStatus ss mgr) i = run_state_at mgr i"
  by (simp_all add: SetAllServiceStatus_def run_state_at_def)

lemma wait_keeps:
  assumes "Manager_Wait b mgr = (Ok (), mgr')"
  shows "m_ServicePtrVec mgr' = m_ServicePtrVec mgr" "m_pkThreadPool mgr' = m_pkThreadPool mgr"
  using assms by (auto simp: Manager_Wait_def split: option.splits if_splits)

lemma sched_inv_tick:
  assumes "sched_inv st" "Manager_Tick now (sy_world st) (sy_mgr st) = (Ok (), mgr')"
  shows "sched_inv (st\<lparr>sy_mgr := mgr', sy_place := pl\<rparr>)"
proof -
  let ?ps = "m_ServicePtrVec (sy_mgr st)"
  obtain q where q: "m_pkThreadPool (sy_mgr st) = Some q" using assms(1) by (auto simp: sched_inv_def)
  obtain ps' js ls where t: "tick_services now (sy_world st) 0 ?ps = (ps', js, ls)" by (metis prod_cases3)
  have m: "m_ServicePtrVec mgr' = ps'" "m_pkThreadPool mgr' = Some (q @ js)"
    using assms(2) q t by (auto simp: Manager_Tick_def)
  note s = tick_services_spec [OF t]
  have tk: "length ps' = length ?ps" "\<And>i. i < length ?ps \<Longrightarrow> fst (ps' ! i) = fst (?ps ! i)"
    "\<And>i. i < length ?ps \<Longrightarrow> (if i \<in> fst ` set js then run_state_at (sy_mgr st) i = RS_READY \<and> run_state_at mgr' i = RS_SCHEDULE
      else run_state_at mgr' i = run_state_at (sy_mgr st) i)"
    using s m by (auto simp: ticked_def run_state_at_def)
  have "map fst ps' = map fst ?ps" by (rule nth_equalityI) (use tk in simp_all)
  then have k: "list_all (\<lambda>p. keeps_state (fst p)) ps'"
    using assms(1) unfolding sched_inv_def list_all_map_fst by metis
  have i: "distinct (map fst q @ map fst (sy_running st))"
    "fst ` set q \<union> fst ` set (sy_running st) \<subseteq> {..<length ?ps}"
    "\<forall>i \<in> fst ` set q. run_state_at (sy_mgr st) i = RS_SCHEDULE"
    "\<forall>i \<in> fst ` set (sy_running st). run_state_at (sy_mgr st) i = RS_RUNNING"
    using assms(1) q by (auto simp: sched_inv_def)
  have new: "fst ` set js \<subseteq> {..<length ?ps}" "distinct (map fst js)" using s by auto
  have disj: "fst ` set js \<inter> (fst ` set q \<union> fst ` set (sy_running st)) = {}"
  proof -
    have "run_state_at (sy_mgr st) j = RS_READY" if "j \<in> fst ` set js" for j
      using tk(3) [of j] new(1) that by auto
    then show ?thesis using i(3,4) by fastforce
  qed
  have old: "run_state_at mgr' j = run_state_at (sy_mgr st) j"
    if "j \<in> fst ` set q \<union> fst ` set (sy_running st)" for j
  proof -
    have "j < length ?ps" "j \<notin> fst ` set js" using i(2) disj that by blast+
    then show ?thesis using tk(3) [of j] by simp
  qed
  have added: "run_state_at mgr' j = RS_SCHEDULE" if "j \<in> fst ` set js" for j
    using tk(3) [of j] new(1) that by auto
  have A: "run_state_at mgr' j = RS_SCHEDULE" if "j \<in> fst ` set (q @ js)" for j
  proof -
    have "j \<in> fst ` set q \<or> j \<in> fst ` set js" using that by (simp only: set_append image_Un Un_iff)
    then show ?thesis
    proof
      assume j: "j \<in> fst ` set q"
      then have "run_state_at (sy_mgr st) j = RS_SCHEDULE" by (rule i(3) [rule_format])
      then show ?thesis using old [OF UnI1 [OF j]] by simp
    qed (rule added)
  qed
  have B: "run_state_at mgr' j = RS_RUNNING" if "j \<in> fst ` set (sy_running st)" for j
    using that old [of j] i(4) [rule_format, of j] by simp
  have C: "distinct (map fst (q @ js) @ map fst (sy_running st))" using i(1) new(2) disj by auto
  have D: "fst ` set (q @ js) \<union> fst ` set (sy_running st) \<subseteq> {..<length ps'}" using i(2) new(1) tk(1) by auto
  define st' where "st' = st\<lparr>sy_mgr := mgr', sy_place := pl\<rparr>"
  have st': "sy_mgr st' = mgr'" "sy_running st' = sy_running st" by (simp_all add: st'_def)
  show ?thesis
    unfolding st'_def [symmetric] sched_inv_def st' m
    by (intro conjI exI [of _ "q @ js"] ballI refl) (use A B C D k in blast)+
qed


lemma sched_inv_begin:
  assumes inv: "sched_inv st" and q: "m_pkThreadPool (sy_mgr st) = Some ((i, now) # q)"
  shows "sched_inv (st\<lparr>sy_mgr := (services_update i (Run_begin now) (sy_mgr st))\<lparr>m_pkThreadPool := Some q\<rparr>,
      sy_running := sy_running st @ [(i, now)]\<rparr>)"
proof -
  have d: "distinct (i # map fst q @ map fst (sy_running st))"
    "fst ` set ((i, now) # q) \<union> fst ` set (sy_running st) \<subseteq> {..<length (m_ServicePtrVec (sy_mgr st))}"
    "\<forall>j \<in> fst ` set ((i, now) # q). run_state_at (sy_mgr st) j = RS_SCHEDULE"
    "\<forall>j \<in> fst ` set (sy_running st). run_state_at (sy_mgr st) j = RS_RUNNING"
    and k: "list_all (\<lambda>p. keeps_state (fst p)) (m_ServicePtrVec (sy_mgr st))"
    using inv q by (auto simp: sched_inv_def)
  define mgr' where "mgr' = (services_update i (Run_begin now) (sy_mgr st))\<lparr>m_pkThreadPool := Some q\<rparr>"
  have il: "i < length (m_ServicePtrVec (sy_mgr st))" using d(2) by simp
  have same: "run_state_at mgr' j = run_state_at (sy_mgr st) j"
    if "j \<noteq> i" "j < length (m_ServicePtrVec (sy_mgr st))" for j
    using services_update_simps(3) [OF il that(2), of "Run_begin now"] that(1) by (simp add: mgr'_def run_state_at_def)
  have "run_state_at mgr' i = RS_RUNNING"
    using services_update_simps(3) [OF il il, of "Run_begin now"] by (simp add: mgr'_def run_state_at_def Run_begin_def)
  moreover have "run_state_at mgr' j = RS_SCHEDULE" if "j \<in> fst ` set q" for j
  proof -
    have "j \<noteq> i" "j < length (m_ServicePtrVec (sy_mgr st))" using that d(1,2) by auto
    then show ?thesis using same [of j] d(3) [rule_format, of j] that by auto
  qed
  moreover have "run_state_at mgr' j = RS_RUNNING" if "j \<in> fst ` set (sy_running st)" for j
  proof -
    have "j \<noteq> i" "j < length (m_ServicePtrVec (sy_mgr st))" using that d(1,2) by auto
    then show ?thesis using same [of j] d(4) [rule_format, of j] that by auto
  qed
  moreover have "list_all (\<lambda>p. keeps_state (fst p)) (m_ServicePtrVec mgr')"
    using k services_update_keeps [OF il, of "Run_begin now"] unfolding list_all_map_fst by (simp add: mgr'_def)
  moreover have "length (m_ServicePtrVec mgr') = length (m_ServicePtrVec (sy_mgr st))" "m_pkThreadPool mgr' = Some q"
    by (simp_all add: mgr'_def services_update_simps)
  ultimately show ?thesis
    unfolding sched_inv_def mgr'_def [symmetric] using d by auto
qed

lemma sched_inv_end:
  assumes inv: "sched_inv st" and r: "sy_running st = xs @ (i, now) # ys"
    and at: "m_ServicePtrVec (sy_mgr st) ! i = (cls, sv)" and e: "Run_end cls now sv (sy_world st) = (res, sv', w')"
  shows "sched_inv (st\<lparr>sy_mgr := services_update i (\<lambda>_. sv') (sy_mgr st), sy_running := xs @ ys, sy_world := w''\<rparr>)"
proof -
  obtain q where q: "m_pkThreadPool (sy_mgr st) = Some q"
    and d: "distinct (map fst q @ map fst (xs @ (i, now) # ys))"
    "fst ` set q \<union> fst ` set (xs @ (i, now) # ys) \<subseteq> {..<length (m_ServicePtrVec (sy_mgr st))}"
    "\<forall>j \<in> fst ` set q. run_state_at (sy_mgr st) j = RS_SCHEDULE"
    "\<forall>j \<in> fst ` set (xs @ (i, now) # ys). run_state_at (sy_mgr st) j = RS_RUNNING"
    and k: "list_all (\<lambda>p. keeps_state (fst p)) (m_ServicePtrVec (sy_mgr st))"
    using inv r by (auto simp: sched_inv_def)
  define mgr' where "mgr' = services_update i (\<lambda>_. sv') (sy_mgr st)"
  have il: "i < length (m_ServicePtrVec (sy_mgr st))" using d(2) by simp
  have same: "run_state_at mgr' j = run_state_at (sy_mgr st) j"
    if "j \<noteq> i" "j < length (m_ServicePtrVec (sy_mgr st))" for j
    using services_update_simps(3) [OF il that(2), of "\<lambda>_. sv'"] that(1) by (simp add: mgr'_def run_state_at_def)
  have "run_state_at mgr' j = RS_SCHEDULE" if "j \<in> fst ` set q" for j
  proof -
    have "j \<noteq> i" "j < length (m_ServicePtrVec (sy_mgr st))" using that d(1,2) by auto
    then show ?thesis using same [of j] d(3) [rule_format, of j] that by auto
  qed
  moreover have "run_state_at mgr' j = RS_RUNNING" if "j \<in> fst ` set (xs @ ys)" for j
  proof -
    have "j \<noteq> i" "j < length (m_ServicePtrVec (sy_mgr st))" using that d(1,2) by auto
    moreover have "j \<in> fst ` set (xs @ (i, now) # ys)" using that by auto
    ultimately show ?thesis using same [of j] d(4) [rule_format, of j] by auto
  qed
  moreover have "list_all (\<lambda>p. keeps_state (fst p)) (m_ServicePtrVec mgr')"
    using k services_update_keeps [OF il, of "\<lambda>_. sv'"] unfolding list_all_map_fst by (simp add: mgr'_def)
  moreover have "length (m_ServicePtrVec mgr') = length (m_ServicePtrVec (sy_mgr st))" "m_pkThreadPool mgr' = Some q"
    using q by (simp_all add: mgr'_def services_update_simps)
  ultimately show ?thesis
    unfolding sched_inv_def mgr'_def [symmetric] using d by auto
qed

lemma sched_inv_same:
  assumes "sched_inv st" "m_pkThreadPool (sy_mgr st') = m_pkThreadPool (sy_mgr st)" "sy_running st' = sy_running st"
    "map fst (m_ServicePtrVec (sy_mgr st')) = map fst (m_ServicePtrVec (sy_mgr st))"
    "\<And>i. i < length (m_ServicePtrVec (sy_mgr st)) \<Longrightarrow> run_state_at (sy_mgr st') i = run_state_at (sy_mgr st) i"
  shows "sched_inv st'"
proof -
  have "length (m_ServicePtrVec (sy_mgr st')) = length (m_ServicePtrVec (sy_mgr st))"
    using assms(4) by (metis length_map)
  then show ?thesis using assms unfolding sched_inv_def list_all_map_fst by (auto simp: image_subset_iff)
qed

lemma sched_inv_step:
  assumes "sys_step st st'" "sched_inv st"
  shows "sched_inv st'"
  using assms
proof (cases rule: sys_step.cases)
  case (tick now mgr')
  then show ?thesis using sched_inv_tick [OF assms(2)] by simp
next
  case again
  then show ?thesis by (intro sched_inv_same [OF assms(2)]) simp_all
next
  case leave
  then show ?thesis by (intro sched_inv_same [OF assms(2)]) simp_all
next
  case (next_logic in_time mgr' ph)
  note w = wait_keeps [OF next_logic(3)]
  show ?thesis unfolding next_logic(1)
    by (intro sched_inv_same [OF assms(2)])
      (simp_all add: RunLogic_begin_def set_all_simps w run_state_at_def SetAllServiceStatus_def)
next
  case done_all
  then show ?thesis by (intro sched_inv_same [OF assms(2)]) simp_all
next
  case (begin_run i now q)
  then show ?thesis using sched_inv_begin [OF assms(2)] by simp
next
  case (end_run xs i now ys cls sv r sv' w')
  then show ?thesis using sched_inv_end [OF assms(2)] by simp
next
  case (signal n)
  then show ?thesis by (intro sched_inv_same [OF assms(2)]) (simp_all add: ShutDown_def run_state_at_def)
qed

section \<open>Shutdown\<close>

text \<open>A service that keeps the base class's \<open>IsShutdownOK\<close> never reaches the state it asks for.\<close>

definition default_shutdown :: "'w service_class \<Rightarrow> bool" where
  "default_shutdown cls \<longleftrightarrow> v_IsShutdownOK cls = Service_IsShutdownOK"

definition not_shut :: "nat \<Rightarrow> 'w sys \<Rightarrow> bool" where
  "not_shut i st \<longleftrightarrow> i < length (m_ServicePtrVec (sy_mgr st)) \<and>
     default_shutdown (fst (m_ServicePtrVec (sy_mgr st) ! i)) \<and>
     m_enmServiceState (snd (m_ServicePtrVec (sy_mgr st) ! i)) \<noteq> SS_SHUTDOWN_OK"

lemma run_end_not_shut:
  assumes "keeps_state cls" "default_shutdown cls" "m_enmServiceState sv \<noteq> SS_SHUTDOWN_OK"
    "Run_end cls now sv w = (r, sv', w')"
  shows "m_enmServiceState sv' \<noteq> SS_SHUTDOWN_OK"
proof -
  obtain r1 sv1 w1 where s: "run_switch cls now sv w = (r1, sv1, w1)" by (metis prod_cases3)
  have "m_enmServiceState sv1 \<noteq> SS_SHUTDOWN_OK"
  proof (cases "m_enmServiceState sv = SS_SHUTDOWN_PROCESS")
    case True
    then show ?thesis
      using s assms(2) by (auto simp: run_switch_def default_shutdown_def Service_IsShutdownOK_def)
  next
    case False
    then show ?thesis using run_switch_step [OF assms(1) s] assms(3) by (auto elim: state_step.cases)
  qed
  then show ?thesis using assms(4) s by (auto simp: Run_end_def split: outcome.splits)
qed


lemma services_tick_not_shut:
  assumes "Manager_Tick now w mgr = (Ok (), mgr')" "i < length (m_ServicePtrVec mgr)"
  shows "i < length (m_ServicePtrVec mgr') \<and> fst (m_ServicePtrVec mgr' ! i) = fst (m_ServicePtrVec mgr ! i) \<and>
    m_enmServiceState (snd (m_ServicePtrVec mgr' ! i)) = m_enmServiceState (snd (m_ServicePtrVec mgr ! i))"
proof -
  obtain q where "m_pkThreadPool mgr = Some q" using assms(1) by (auto simp: Manager_Tick_def split: option.splits)
  moreover obtain ps' js ls where t: "tick_services now w 0 (m_ServicePtrVec mgr) = (ps', js, ls)" by (metis prod_cases3)
  ultimately have "m_ServicePtrVec mgr' = ps'" using assms(1) by (auto simp: Manager_Tick_def)
  then show ?thesis using tick_services_spec [OF t] assms(2) by (simp add: ticked_def)
qed

lemma not_shut_step:
  assumes "sys_step st st'" "not_shut i st" "list_all (\<lambda>p. keeps_state (fst p)) (m_ServicePtrVec (sy_mgr st))"
  shows "not_shut i st'"
  using assms(1)
proof (cases rule: sys_step.cases)
  case (tick now mgr')
  then show ?thesis using services_tick_not_shut [OF tick(3), of i] assms(2) by (simp add: not_shut_def)
next
  case (next_logic in_time mgr' ph)
  have "ph \<noteq> SS_SHUTDOWN_OK" using next_logic(5) by (cases "sy_phase st") auto
  then show ?thesis
    using assms(2) wait_keeps [OF next_logic(3)] unfolding next_logic(1)
    by (simp add: not_shut_def RunLogic_begin_def SetAllServiceStatus_def)
next
  case (begin_run j now q)
  then show ?thesis
    using assms(2) services_update_simps(3) [OF begin_run(3), of i "Run_begin now"]
    by (auto simp: not_shut_def Run_begin_def services_update_simps(1))
next
  case (end_run xs j now ys cls sv r sv' w')
  show ?thesis
  proof (cases "i = j")
    case True
    have "keeps_state cls" using assms(3) end_run(3,4) by (metis fst_conv list_all_length)
    then have "m_enmServiceState sv' \<noteq> SS_SHUTDOWN_OK"
      using run_end_not_shut [OF _ _ _ end_run(5)] assms(2) end_run(4) True by (simp add: not_shut_def)
    then show ?thesis
      using assms(2) end_run True services_update_simps(3) [OF end_run(3) end_run(3), of "\<lambda>_. sv'"]
      by (simp add: not_shut_def services_update_simps(1))
  next
    case False
    then show ?thesis
      using assms(2) end_run services_update_simps(3) [OF end_run(3), of i "\<lambda>_. sv'"]
      by (simp add: not_shut_def services_update_simps(1))
  qed
qed (use assms(2) in \<open>simp_all add: not_shut_def ShutDown_def\<close>)

lemma reach_invs:
  assumes "sys_reach st0 st" "sched_inv st0"
  shows "sched_inv st \<and> (not_shut i st0 \<longrightarrow> not_shut i st)"
  using assms(1)
proof induction
  case start
  then show ?case using assms(2) by simp
next
  case (step st st')
  then show ?case using sched_inv_step not_shut_step by (metis sched_inv_def)
qed

text \<open>The start of \<open>Run\<close>: every service registered and ready, the pool created and empty.\<close>

definition sys_start :: "'w manager \<Rightarrow> 'w \<Rightarrow> 'w sys" where
  "sys_start mgr w = RunLogic_begin SS_START mgr [] w"

definition mgr_ready :: "'w manager \<Rightarrow> bool" where
  "mgr_ready mgr \<longleftrightarrow> m_pkThreadPool mgr = Some [] \<and>
     list_all (\<lambda>p. keeps_state (fst p)) (m_ServicePtrVec mgr)"

lemma sched_inv_start: "mgr_ready mgr \<Longrightarrow> sched_inv (sys_start mgr w)"
  unfolding mgr_ready_def sched_inv_def list_all_map_fst sys_start_def RunLogic_begin_def
  by (simp add: set_all_simps)

section \<open>Properties\<close>

text \<open>C5: however the manager's loop and the worker threads interleave, a service is in the pool at
  most once and never together with a run of it that has begun, so no service is ever run by two
  threads at a time; a queued service is marked scheduled, a running one running.\<close>

theorem one_run_per_service:
  assumes "mgr_ready mgr" "sys_reach (sys_start mgr w) st"
  shows "\<exists>q. m_pkThreadPool (sy_mgr st) = Some q \<and> distinct (map fst q @ map fst (sy_running st)) \<and>
    (\<forall>i \<in> fst ` set q. m_enmRunState (snd (m_ServicePtrVec (sy_mgr st) ! i)) = RS_SCHEDULE) \<and>
    (\<forall>i \<in> fst ` set (sy_running st). m_enmRunState (snd (m_ServicePtrVec (sy_mgr st) ! i)) = RS_RUNNING)"
  using reach_invs [OF assms(2) sched_inv_start [OF assms(1)]]
  unfolding sched_inv_def run_state_at_def by blast

definition demo_manager :: "unit manager" where
  "demo_manager = snd (Register (Some (Service_class 4, Service_new))
     (snd (Register (Some (Service_class 3, Service_new)) (snd (Create True 4 ServiceManager_new)))))"

lemma demo_manager_ready: "mgr_ready demo_manager"
  by (simp add: mgr_ready_def demo_manager_def Register_def Create_def ServiceManager_new_def Service_class_keeps)

theorem one_run_per_service_witness:
  "\<exists>st. sys_reach (sys_start demo_manager ()) st \<and> map fst (sy_running st) = [0] \<and>
     (\<exists>q. m_pkThreadPool (sy_mgr st) = Some q \<and> map fst q = [1] \<and> distinct (map fst q @ map fst (sy_running st)))"
proof -
  let ?s0 = "sys_start demo_manager ()" and ?now = "demo_time 0"
  define m1 where "m1 = snd (Manager_Tick ?now () (sy_mgr ?s0))"
  have t: "Manager_Tick ?now () (sy_mgr ?s0) = (Ok (), m1)" "m_pkThreadPool m1 = Some [(0, ?now), (1, ?now)]"
    "length (m_ServicePtrVec m1) = 2"
    by (simp_all add: m1_def Manager_Tick_def sys_start_def RunLogic_begin_def demo_manager_def Register_def Create_def
      ServiceManager_new_def SetAllServiceStatus_def tick_one_def Service_new_def Service_class_def Service_NeedSchedule_def)
  let ?s1 = "?s0\<lparr>sy_mgr := m1, sy_place := Checking\<rparr>"
  have "sys_step ?s0 ?s1"
    using t(1) by (intro sys_step.tick [where now = ?now]) (simp_all add: sys_start_def RunLogic_begin_def)
  then have r1: "sys_reach ?s0 ?s1" by (rule sys_reach.step [OF sys_reach.start])
  define s2 where "s2 = ?s1\<lparr>sy_mgr := (services_update 0 (Run_begin ?now) (sy_mgr ?s1))\<lparr>m_pkThreadPool := Some [(1, ?now)]\<rparr>,
      sy_running := sy_running ?s1 @ [(0, ?now)]\<rparr>"
  have "sys_step ?s1 s2" unfolding s2_def by (rule sys_step.begin_run) (simp_all add: t)
  then have r2: "sys_reach ?s0 s2" by (rule sys_reach.step [OF r1])
  have "map fst (sy_running s2) = [0]" "m_pkThreadPool (sy_mgr s2) = Some [(1, ?now)]"
    by (simp_all add: s2_def sys_start_def RunLogic_begin_def)
  then show ?thesis using one_run_per_service [OF demo_manager_ready r2] r2 by auto
qed

text \<open>C18: a service that keeps the base class's \<open>IsShutdownOK\<close> never becomes \<open>SS_SHUTDOWN_OK\<close>, because
  that function is asked in state \<open>SS_SHUTDOWN_PROCESS\<close> and answers whether the state is already
  \<open>SS_SHUTDOWN_OK\<close>; with one such service registered the shutdown loop's condition never holds, and
  \<open>Run\<close> does not return.\<close>

theorem shutdown_never_completes:
  assumes "mgr_ready mgr" "(cls, sv) \<in> set (m_ServicePtrVec mgr)" "v_IsShutdownOK cls = Service_IsShutdownOK"
    and "sys_reach (sys_start mgr w) st"
  shows "\<not> RunLogicBreakCondition SS_SHUTDOWN (sy_mgr st) \<and> sy_place st \<noteq> Finished"
proof -
  obtain i where i: "i < length (m_ServicePtrVec mgr)" "m_ServicePtrVec mgr ! i = (cls, sv)"
    using assms(2) by (meson in_set_conv_nth)
  have ns0: "not_shut i (sys_start mgr w)"
    using i assms(3) by (simp add: not_shut_def sys_start_def RunLogic_begin_def SetAllServiceStatus_def default_shutdown_def)
  have nb: "\<not> RunLogicBreakCondition SS_SHUTDOWN (sy_mgr s)" if "not_shut i s" for s :: "'a sys"
    using that by (auto simp: not_shut_def RunLogicBreakCondition_def IsAllServiceStatusEqual_def list_all_length)
  have "\<not> RunLogicBreakCondition SS_SHUTDOWN (sy_mgr st) \<and> sy_place st \<noteq> Finished \<and>
      sy_phase st \<in> {SS_START, SS_RUN, SS_SHUTDOWN} \<and> (sy_phase st = SS_SHUTDOWN \<longrightarrow> sy_place st \<noteq> Waiting)"
    using assms(4)
  proof induction
    case start
    then show ?case using nb [OF ns0] by (simp add: sys_start_def RunLogic_begin_def)
  next
    case (step st st')
    have "sys_reach (sys_start mgr w) st'" using step.hyps by (rule sys_reach.step)
    then have "not_shut i st'" using reach_invs [OF _ sched_inv_start [OF assms(1)]] ns0 by blast
    note nb' = nb [OF this]
    from step.hyps(2) show ?case
      using step.IH nb' by (cases rule: sys_step.cases) (auto simp: RunLogic_begin_def)
  qed
  then show ?thesis by blast
qed

theorem shutdown_never_completes_witness:
  "\<exists>st. sys_reach (sys_start demo_manager ()) st \<and> m_bShutdown (sy_mgr st) \<and> sy_place st \<noteq> Finished"
proof -
  let ?s0 = "sys_start demo_manager ()"
  have r: "sys_reach ?s0 (?s0\<lparr>sy_mgr := ShutDown 0 (sy_mgr ?s0)\<rparr>)"
    by (rule sys_reach.step [OF sys_reach.start sys_step.signal])
  have "\<exists>sv. (Service_class 3, sv) \<in> set (m_ServicePtrVec demo_manager)"
    by (simp add: demo_manager_def Register_def Create_def ServiceManager_new_def) blast
  then obtain sv where "(Service_class 3, sv) \<in> set (m_ServicePtrVec demo_manager)" by blast
  from shutdown_never_completes [OF demo_manager_ready this _ r] r show ?thesis
    by (intro exI [of _ "?s0\<lparr>sy_mgr := ShutDown 0 (sy_mgr ?s0)\<rparr>"])
      (simp add: Service_class_def ShutDown_def)
qed

end
