(* ===== verification/SocketApi.thy ===== *)
theory SocketApi
  imports Exceptions
begin

text \<open>
  The socket wrappers of \<open>include/network/socketapi.h\<close> and \<open>src/network/socketapi.cpp\<close>, in the branch
  compiled on Linux. The system calls are a record of functions over a state of any type; \<open>recv\<close>
  gives an error or the bytes received, \<open>send\<close> an error or the number of bytes taken. Descriptors,
  results and error numbers are integers.
\<close>

section \<open>The system calls\<close>

datatype recv_result = RecvError | RecvBytes "tbyte list"

datatype send_result = SendError | SentBytes nat

record sockaddr_in =
  sin_addr :: tuint32
  sin_port :: tuint16

record 'w net_os =
  os_socket :: "'w \<Rightarrow> int \<Rightarrow> int \<Rightarrow> int \<Rightarrow> int \<times> 'w"
  os_listen :: "'w \<Rightarrow> int \<Rightarrow> int \<Rightarrow> int \<times> 'w"
  os_bind :: "'w \<Rightarrow> int \<Rightarrow> sockaddr_in \<Rightarrow> int \<times> 'w"
  os_accept :: "'w \<Rightarrow> int \<Rightarrow> int \<times> sockaddr_in \<times> 'w"
  os_close :: "'w \<Rightarrow> int \<Rightarrow> int \<times> 'w"
  os_getfl :: "'w \<Rightarrow> int \<Rightarrow> int"
  os_setfl :: "'w \<Rightarrow> int \<Rightarrow> int \<Rightarrow> int \<times> 'w"
  os_setsockopt :: "'w \<Rightarrow> int \<Rightarrow> int \<Rightarrow> int \<Rightarrow> int \<times> 'w"
  os_getsockopt :: "'w \<Rightarrow> int \<Rightarrow> int \<Rightarrow> int \<times> int"
  os_connect :: "'w \<Rightarrow> int \<Rightarrow> sockaddr_in \<Rightarrow> int \<times> 'w"
  os_select :: "'w \<Rightarrow> int \<Rightarrow> int list \<Rightarrow> int list \<Rightarrow> int \<times> int \<Rightarrow> int \<times> int list \<times> int list \<times> 'w"
  os_recv :: "'w \<Rightarrow> int \<Rightarrow> nat \<Rightarrow> recv_result \<times> 'w"
  os_send :: "'w \<Rightarrow> int \<Rightarrow> tbyte list \<Rightarrow> send_result \<times> 'w"
  os_errno :: "'w \<Rightarrow> int"

definition INVALID_SOCKET :: int where "INVALID_SOCKET = - 1"
definition SOCKET_ERROR :: int where "SOCKET_ERROR = - 1"

definition EAGAIN :: int where "EAGAIN = 11"
definition EWOULDBLOCK :: int where "EWOULDBLOCK = 11"
definition EINPROGRESS :: int where "EINPROGRESS = 115"
definition O_NONBLOCK :: int where "O_NONBLOCK = 2048"
definition O_NDELAY :: int where "O_NDELAY = 2048"
definition SO_ERROR :: int where "SO_ERROR = 4"

text \<open>\<open>enmConnErrorCode\<close>.\<close>

definition conn_error_code_success :: int where "conn_error_code_success = 0"
definition conn_error_code_invalid_socket :: int where "conn_error_code_invalid_socket = - 1"
definition conn_error_code_recv_not_enough_buffer :: int where "conn_error_code_recv_not_enough_buffer = - 2"
definition conn_error_code_peer_closed :: int where "conn_error_code_peer_closed = - 3"
definition conn_error_code_send_not_enough_buffer :: int where "conn_error_code_send_not_enough_buffer = - 4"
definition conn_error_code_invalid_param :: int where "conn_error_code_invalid_param = - 5"
definition conn_error_code_unknown :: int where "conn_error_code_unknown = - 6"
definition conn_error_code_not_smooth_socket :: int where "conn_error_code_not_smooth_socket = - 7"
definition conn_error_code_would_block :: int where "conn_error_code_would_block = - 8"

lemmas conn_codes = conn_error_code_success_def conn_error_code_invalid_socket_def
  conn_error_code_recv_not_enough_buffer_def conn_error_code_peer_closed_def
  conn_error_code_send_not_enough_buffer_def conn_error_code_invalid_param_def
  conn_error_code_unknown_def conn_error_code_not_smooth_socket_def conn_error_code_would_block_def

text \<open>An \<open>fd_set\<close> holds the descriptors below 1024; \<open>FD_SET\<close> of another one writes outside it.\<close>

definition FD_SETSIZE :: int where "FD_SETSIZE = 1024"

definition fd_fits :: "int \<Rightarrow> bool" where
  "fd_fits s \<longleftrightarrow> 0 \<le> s \<and> s < FD_SETSIZE"

section \<open>The wrappers\<close>

definition net_error_no :: "'w net_os \<Rightarrow> 'w \<Rightarrow> int" where
  "net_error_no os w = os_errno os w"

definition socket_ex :: "'w net_os \<Rightarrow> 'w \<Rightarrow> int \<Rightarrow> int \<Rightarrow> int \<Rightarrow> int \<times> 'w" where
  "socket_ex os w domain type protocol = os_socket os w domain type protocol"

definition listen_ex :: "'w net_os \<Rightarrow> 'w \<Rightarrow> int \<Rightarrow> int \<Rightarrow> bool \<times> 'w" where
  "listen_ex os w s backlog = (let (r, w1) = os_listen os w s backlog in (r \<noteq> SOCKET_ERROR, w1))"

definition bind_ex :: "'w net_os \<Rightarrow> 'w \<Rightarrow> int \<Rightarrow> sockaddr_in \<Rightarrow> bool \<times> 'w" where
  "bind_ex os w s addr = (let (r, w1) = os_bind os w s addr in (r \<noteq> SOCKET_ERROR, w1))"

definition accept_sock :: "'w net_os \<Rightarrow> 'w \<Rightarrow> int \<Rightarrow> int \<times> sockaddr_in \<times> 'w" where
  "accept_sock os w s = os_accept os w s"

definition closesocket_ex :: "'w net_os \<Rightarrow> 'w \<Rightarrow> int \<Rightarrow> bool \<times> 'w" where
  "closesocket_ex os w s = (let (r, w1) = os_close os w s in (\<not> r < 0, w1))"

definition set_non_block :: "'w net_os \<Rightarrow> 'w \<Rightarrow> int \<Rightarrow> bool \<Rightarrow> bool \<times> 'w" where
  "set_non_block os w s bNonBlock =
     (let flags = os_getfl os w s
      in if flags < 0 then (False, w)
         else
           let flags1 = (if bNonBlock then flags OR O_NONBLOCK OR O_NDELAY
                         else flags AND NOT O_NONBLOCK AND NOT O_NDELAY);
               (r, w1) = os_setfl os w s flags1
           in if r < 0 then (False, w1) else (True, w1))"

definition setsockopt_ex :: "'w net_os \<Rightarrow> 'w \<Rightarrow> int \<Rightarrow> int \<Rightarrow> int \<Rightarrow> bool \<times> 'w" where
  "setsockopt_ex os w s optname optval = (let (r, w1) = os_setsockopt os w s optname optval in (r \<noteq> SOCKET_ERROR, w1))"

definition getsockopt_ex :: "'w net_os \<Rightarrow> 'w \<Rightarrow> int \<Rightarrow> int \<Rightarrow> bool \<times> int" where
  "getsockopt_ex os w s optname = (let (r, v) = os_getsockopt os w s optname in (r \<noteq> SOCKET_ERROR, v))"

definition connect_ex :: "'w net_os \<Rightarrow> 'w \<Rightarrow> int \<Rightarrow> sockaddr_in \<Rightarrow> bool \<times> 'w" where
  "connect_ex os w s server_addr = (let (r, w1) = os_connect os w s server_addr in (r \<noteq> SOCKET_ERROR, w1))"

text \<open>\<open>connect_nonblock\<close>; \<open>None\<close> when the descriptor does not fit an \<open>fd_set\<close>. The milliseconds are
  split with C's division, which truncates; they are not negative here.\<close>

definition connect_nonblock :: "'w net_os \<Rightarrow> 'w \<Rightarrow> int \<Rightarrow> sockaddr_in \<Rightarrow> int \<Rightarrow> (bool \<times> 'w) option" where
  "connect_nonblock os w s server_addr timeout =
     (if timeout < 0 then Some (False, w)
      else
        let (nb, w1) = set_non_block os w s True
        in if \<not> nb then Some (False, w1)
           else
             let (r, w2) = os_connect os w1 s server_addr
             in if r = SOCKET_ERROR
                then
                  if os_errno os w2 \<noteq> EINPROGRESS then Some (False, w2)
                  else if \<not> fd_fits s then None
                  else
                    let (ret, rset, wset, w3) = os_select os w2 (s + 1) [s] [s] (timeout div 1000, timeout mod 1000 * 1000)
                    in if 0 \<ge> ret then Some (False, snd (closesocket_ex os w3 s))
                       else if s \<in> set rset \<or> s \<in> set wset
                       then
                         let (ok, err_no) = getsockopt_ex os w3 s SO_ERROR
                         in if \<not> ok then Some (False, snd (closesocket_ex os w3 s))
                            else if err_no \<noteq> 0 then Some (False, snd (closesocket_ex os w3 s))
                            else Some (True, w3)
                       else Some (False, snd (closesocket_ex os w3 s))
                else Some (True, w2))"

text \<open>\<open>recv_ex\<close> and \<open>send_ex\<close>: a count or an error code; \<open>recv_ex\<close> with the bytes stored.\<close>

definition recv_sock :: "'w net_os \<Rightarrow> 'w \<Rightarrow> int \<Rightarrow> nat \<Rightarrow> int \<times> tbyte list \<times> 'w" where
  "recv_sock os w s len =
     (case os_recv os w s len of
        (RecvError, w1) \<Rightarrow>
          (let iErrNo = net_error_no os w1
           in if EAGAIN = iErrNo \<or> EWOULDBLOCK = iErrNo then (conn_error_code_would_block, [], w1)
              else (conn_error_code_unknown, [], w1))
      | (RecvBytes bs, w1) \<Rightarrow> (int (length bs), bs, w1))"

definition send_sock :: "'w net_os \<Rightarrow> 'w \<Rightarrow> int \<Rightarrow> tbyte list \<Rightarrow> int \<times> 'w" where
  "send_sock os w s buf =
     (case os_send os w s buf of
        (SendError, w1) \<Rightarrow>
          (let iErrNo = net_error_no os w1
           in if EAGAIN = iErrNo \<or> EWOULDBLOCK = iErrNo then (conn_error_code_would_block, w1)
              else (conn_error_code_unknown, w1))
      | (SentBytes n, w1) \<Rightarrow> (int n, w1))"

section \<open>Documented behaviour of the stream calls\<close>

text \<open>
  \<open>wire w\<close> is what the peer of descriptor \<open>s\<close> will have been sent. \<open>send\<close> takes a prefix of the
  bytes it is given; an error takes none.
\<close>

definition send_documented :: "'w net_os \<Rightarrow> ('w \<Rightarrow> tbyte list) \<Rightarrow> int \<Rightarrow> bool" where
  "send_documented os wire s \<longleftrightarrow> (\<forall>w buf.
     case os_send os w s buf of
       (SendError, w1) \<Rightarrow> wire w1 = wire w
     | (SentBytes n, w1) \<Rightarrow> n \<le> length buf \<and> wire w1 = wire w @ take n buf)"

text \<open>\<open>recv\<close> gives at most the bytes asked for, the next ones of the incoming stream.\<close>

definition recv_documented :: "'w net_os \<Rightarrow> ('w \<Rightarrow> tbyte list) \<Rightarrow> int \<Rightarrow> bool" where
  "recv_documented os got s \<longleftrightarrow> (\<forall>w n.
     case os_recv os w s n of
       (RecvError, w1) \<Rightarrow> got w1 = got w
     | (RecvBytes bs, w1) \<Rightarrow> length bs \<le> n \<and> got w1 = got w @ bs)"

lemma send_sock_cases:
  assumes "send_documented os wire s" "send_sock os w s buf = (r, w1)"
  shows "(r > 0 \<longrightarrow> nat r \<le> length buf \<and> wire w1 = wire w @ take (nat r) buf) \<and> (r \<le> 0 \<longrightarrow> wire w1 = wire w)"
  using assms(1) [unfolded send_documented_def, rule_format, of w buf] assms(2)
  by (auto simp: send_sock_def Let_def conn_codes split: prod.splits send_result.splits if_splits)

lemma recv_sock_cases:
  assumes "recv_documented os got s" "recv_sock os w s n = (r, bs, w1)"
  shows "got w1 = got w @ bs \<and> (r > 0 \<longrightarrow> int (length bs) = r \<and> length bs \<le> n) \<and> (r \<le> 0 \<longrightarrow> bs = [])"
  using assms(1) [unfolded recv_documented_def, rule_format, of w n] assms(2)
  by (auto simp: recv_sock_def Let_def conn_codes split: prod.splits recv_result.splits if_splits)

end
