(* ===== verification/ClientSocket.thy ===== *)
theory ClientSocket
  imports SocketApi
begin

text \<open>
  A connection: \<open>include/network/clientsocket.h\<close>, \<open>src/network/clientsocket.cpp\<close>. The receive and the send
  buffer are byte lists (\<open>None\<close> for the null pointer); the data waiting to be sent lies between
  \<open>m_send_head\<close> and \<open>m_send_tail\<close>. An access outside a buffer, or to a null one, is the value
  \<open>None\<close>. The callbacks are functions of the environment, the object keeps whether they are set.
\<close>

section \<open>State\<close>

datatype tcp_status = tcp_status_closed | tcp_status_opened | tcp_status_connected

record client_socket =
  cs_fd :: int
  cs_status :: tcp_status
  m_uIP :: tuint32
  m_usPort :: tuint16
  m_nRecvBufSize :: nat
  m_recv_buffer :: "tbyte list option"
  m_recv_buffer_len :: nat
  m_nSendBufSize :: nat
  m_send_buffer :: "tbyte list option"
  m_send_head :: nat
  m_send_tail :: nat
  m_funOnDisConnect :: bool
  m_funOnRecvMessage :: bool

record 'w socket_env = "'w net_os" +
  on_disconnect :: "client_socket \<Rightarrow> 'w \<Rightarrow> client_socket \<times> 'w"
  on_recv_message :: "client_socket \<Rightarrow> tbyte list \<Rightarrow> 'w \<Rightarrow> int \<times> client_socket \<times> 'w"

definition max_c2s_pkg_size :: nat where "max_c2s_pkg_size = 0x1400"
definition max_s2c_pkg_size :: nat where "max_s2c_pkg_size = 0x2C00"

definition ClientSocket_new :: client_socket where
  "ClientSocket_new = \<lparr>cs_fd = INVALID_SOCKET, cs_status = tcp_status_closed, m_uIP = 0, m_usPort = 0,
     m_nRecvBufSize = 0, m_recv_buffer = None, m_recv_buffer_len = 0, m_nSendBufSize = 0, m_send_buffer = None,
     m_send_head = 0, m_send_tail = 0, m_funOnDisConnect = False, m_funOnRecvMessage = False\<rparr>"

definition cs_close :: "'w socket_env \<Rightarrow> client_socket \<Rightarrow> 'w \<Rightarrow> client_socket \<times> 'w" where
  "cs_close env cs w =
     (ClientSocket_new,
      if cs_fd cs \<noteq> INVALID_SOCKET then snd (closesocket_ex (net_os.truncate env) w (cs_fd cs)) else w)"

definition set_fd :: "'w socket_env \<Rightarrow> client_socket \<Rightarrow> int \<Rightarrow> 'w \<Rightarrow> bool \<times> client_socket \<times> 'w" where
  "set_fd env cs s w =
     (if s = INVALID_SOCKET then (False, cs, w)
      else
        let cs1 = cs\<lparr>cs_fd := s, cs_status := tcp_status_connected\<rparr>;
            (ok, w1) = set_non_block (net_os.truncate env) w s True
        in (ok, cs1, w1))"

definition get_fd :: "client_socket \<Rightarrow> int" where "get_fd cs = cs_fd cs"
definition get_status :: "client_socket \<Rightarrow> tcp_status" where "get_status cs = cs_status cs"
definition get_ip :: "client_socket \<Rightarrow> tuint32" where "get_ip cs = m_uIP cs"

definition set_ip_info :: "client_socket \<Rightarrow> tuint32 \<Rightarrow> tuint16 \<Rightarrow> client_socket" where
  "set_ip_info cs ip port = cs\<lparr>m_uIP := ip, m_usPort := port\<rparr>"

text \<open>\<open>open\<close>: the local address, if any, as the number \<open>inet_addr\<close> made of it.\<close>

definition cs_open :: "'w socket_env \<Rightarrow> client_socket \<Rightarrow> tuint32 option \<Rightarrow> 'w \<Rightarrow> bool \<times> client_socket \<times> 'w" where
  "cs_open env cs local_ip w =
     (let (cs0, w0) = cs_close env cs w;
          (fd, w1) = socket_ex (net_os.truncate env) w0 2 1 0;
          cs1 = cs0\<lparr>cs_fd := fd\<rparr>
      in if fd = INVALID_SOCKET then (False, cs1, w1)
         else case local_ip of
                None \<Rightarrow> (True, cs1\<lparr>cs_status := tcp_status_opened\<rparr>, w1)
              | Some ip \<Rightarrow>
                  let (ok, w2) = bind_ex (net_os.truncate env) w1 fd \<lparr>sin_addr = ip, sin_port = 0\<rparr>
                  in if \<not> ok then let (cs2, w3) = cs_close env cs1 w2 in (False, cs2, w3)
                     else (True, cs1\<lparr>cs_status := tcp_status_opened\<rparr>, w2))"

definition cs_connect :: "'w socket_env \<Rightarrow> client_socket \<Rightarrow> tuint32 \<Rightarrow> tuint16 \<Rightarrow> bool \<Rightarrow> int \<Rightarrow> 'w
    \<Rightarrow> (bool \<times> client_socket \<times> 'w) option" where
  "cs_connect env cs ip port nonblock timeout w =
     (if tcp_status_opened \<noteq> cs_status cs \<or> cs_fd cs = INVALID_SOCKET then Some (False, cs, w)
      else case connect_nonblock (net_os.truncate env) w (cs_fd cs) \<lparr>sin_addr = ip, sin_port = port\<rparr> timeout of
             None \<Rightarrow> None
           | Some (ok, w1) \<Rightarrow>
               if \<not> ok then let (cs2, w2) = cs_close env cs w1 in Some (False, cs2, w2)
               else
                 let (ok2, w2) = set_non_block (net_os.truncate env) w1 (cs_fd cs) nonblock
                 in if \<not> ok2 then let (cs2, w3) = cs_close env cs w2 in Some (False, cs2, w3)
                    else Some (True, cs\<lparr>cs_status := tcp_status_connected\<rparr>, w2))"

text \<open>The overload with an address in text form: null, or the number it stands for.\<close>

definition cs_connect_text :: "'w socket_env \<Rightarrow> client_socket \<Rightarrow> (string \<Rightarrow> tuint32) \<Rightarrow> string option \<Rightarrow> tuint16 \<Rightarrow> bool
    \<Rightarrow> int \<Rightarrow> 'w \<Rightarrow> (bool \<times> client_socket \<times> 'w) option" where
  "cs_connect_text env cs inet_number strIP port nonblock timeout w =
     (case strIP of
        None \<Rightarrow> Some (False, cs, w)
      | Some ip \<Rightarrow> cs_connect env cs (inet_number ip) port nonblock timeout w)"

definition cs_valid :: "client_socket \<Rightarrow> bool" where
  "cs_valid cs = (if cs_fd cs = INVALID_SOCKET then False
     else if tcp_status_connected = cs_status cs then True else False)"

text \<open>\<open>set_buf_size\<close>: new storage of the sizes; its first contents are a parameter.\<close>

definition set_buf_size :: "client_socket \<Rightarrow> tbyte list \<Rightarrow> tbyte list \<Rightarrow> bool \<times> client_socket" where
  "set_buf_size cs recv_storage send_storage =
     (True, cs\<lparr>m_recv_buffer := Some recv_storage, m_send_buffer := Some send_storage,
        m_nRecvBufSize := length recv_storage, m_nSendBufSize := length send_storage\<rparr>)"

definition cs_disconnect :: "'w socket_env \<Rightarrow> client_socket \<Rightarrow> 'w \<Rightarrow> client_socket \<times> 'w" where
  "cs_disconnect env cs w =
     (let (cs1, w1) = (if m_funOnDisConnect cs then on_disconnect env cs w else (cs, w))
      in cs_close env cs1 w1)"

section \<open>Receiving\<close>

datatype recv_end = EndPeerClosed | EndWouldBlock | EndUnknown | EndBufferFull

text \<open>
  The loop of \<open>recv_data\<close>: \<open>max_c2s_pkg_size - m_recv_buffer_len\<close> is a \<open>size_t\<close> cut to 32 bits. A
  round that received something goes on; the loop ends by one of its breaks.
\<close>

definition recv_room :: "nat \<Rightarrow> nat" where
  "recv_room len = sz_sub max_c2s_pkg_size len mod 2 ^ 32"

function recv_loop :: "'w net_os \<Rightarrow> int \<Rightarrow> tbyte list \<Rightarrow> nat \<Rightarrow> 'w \<Rightarrow> (recv_end \<times> tbyte list \<times> nat \<times> 'w) option" where
  "recv_loop os fd buf len w =
     (if recv_room len > 0
      then case recv_sock os w fd (recv_room len) of (received_byte, bs, w1) \<Rightarrow>
             if received_byte > 0
             then if bs \<noteq> [] \<and> len + length bs \<le> length buf
                  then recv_loop os fd (take len buf @ bs @ drop (len + length bs) buf) (len + length bs) w1
                  else None
             else if 0 = received_byte then Some (EndPeerClosed, buf, len, w1)
             else if conn_error_code_would_block = received_byte then Some (EndWouldBlock, buf, len, w1)
             else Some (EndUnknown, buf, len, w1)
      else Some (EndBufferFull, buf, len, w))"
  by pat_completeness auto
termination
  by (relation "measure (\<lambda>(os, fd, buf, len, w). length buf - len)") (auto simp: neq_Nil_conv)

declare recv_loop.simps [simp del]

definition recv_data :: "'w socket_env \<Rightarrow> client_socket \<Rightarrow> 'w \<Rightarrow> (int \<times> client_socket \<times> 'w) option" where
  "recv_data env cs w =
     (if tcp_status_connected \<noteq> cs_status cs \<or> cs_fd cs = INVALID_SOCKET
      then Some (conn_error_code_invalid_socket, cs, w)
      else case m_recv_buffer cs of
             None \<Rightarrow> None
           | Some buf \<Rightarrow>
               (case recv_loop (net_os.truncate env) (cs_fd cs) buf (m_recv_buffer_len cs) w of
                  None \<Rightarrow> None
                | Some (e, buf1, len1, w1) \<Rightarrow>
                    let cs1 = cs\<lparr>m_recv_buffer := Some buf1, m_recv_buffer_len := len1\<rparr>
                    in case e of
                         EndPeerClosed \<Rightarrow>
                           (let (cs2, w2) = cs_disconnect env cs1 w1 in Some (conn_error_code_peer_closed, cs2, w2))
                       | EndWouldBlock \<Rightarrow> Some (conn_error_code_would_block, cs1, w1)
                       | EndUnknown \<Rightarrow>
                           (let (cs2, w2) = cs_disconnect env cs1 w1 in Some (conn_error_code_unknown, cs2, w2))
                       | EndBufferFull \<Rightarrow> Some (conn_error_code_recv_not_enough_buffer, cs1, w1)))"

text \<open>\<open>recv_ex\<close>: the callback gets the bytes received so far and says how many it has used.\<close>

definition cs_recv_ex :: "'w socket_env \<Rightarrow> client_socket \<Rightarrow> 'w \<Rightarrow> (bool \<times> client_socket \<times> 'w) option" where
  "cs_recv_ex env cs w =
     (if \<not> m_funOnRecvMessage cs then Some (False, cs, w)
      else case recv_data env cs w of
             None \<Rightarrow> None
           | Some (iRet, cs1, w1) \<Rightarrow>
               if conn_error_code_success = iRet \<or> conn_error_code_would_block = iRet \<or>
                  conn_error_code_recv_not_enough_buffer = iRet
               then
                 let (nReadLen, cs2, w2) =
                       on_recv_message env cs1 (take (m_recv_buffer_len cs1) (the (m_recv_buffer cs1))) w1
                 in if nReadLen < 0 \<or> (nReadLen = 0 \<and> conn_error_code_recv_not_enough_buffer = iRet)
                    then let (cs3, w3) = cs_disconnect env cs2 w2 in Some (False, cs3, w3)
                    else if nReadLen = 0 then Some (True, cs2, w2)
                    else if nReadLen > int (m_recv_buffer_len cs2) then Some (False, cs2, w2)
                    else
                      let len = m_recv_buffer_len cs2 - nat nReadLen
                      in case m_recv_buffer cs2 of
                           None \<Rightarrow> None
                         | Some buf \<Rightarrow>
                             Some (True, cs2\<lparr>m_recv_buffer_len := len,
                               m_recv_buffer := Some (take len (drop (nat nReadLen) buf) @ drop len buf)\<rparr>, w2)
               else let (cs2, w2) = cs_disconnect env cs1 w1 in Some (False, cs2, w2))"

definition cs_recv :: "'w socket_env \<Rightarrow> client_socket \<Rightarrow> 'w \<Rightarrow> (bool \<times> client_socket \<times> 'w) option" where
  "cs_recv env cs w =
     (if \<not> fd_fits (get_fd cs) then None
      else if get_fd cs > 0
      then
        let (iRet, rset, wset, w1) = os_select env w (get_fd cs + 1) [get_fd cs] [] (0, 1000)
        in if iRet \<le> 0 then Some (False, cs, w1)
           else if get_fd cs \<in> set rset
           then (case cs_recv_ex env cs w1 of None \<Rightarrow> None | Some (_, cs1, w2) \<Rightarrow> Some (True, cs1, w2))
           else Some (True, cs, w1)
      else Some (False, cs, w))"

section \<open>Sending\<close>

datatype send_end = SentAll | SendBlocked | SendFailed

text \<open>The sending loops: the rest that was not taken, and why the loop ended.\<close>

function send_loop :: "'w net_os \<Rightarrow> int \<Rightarrow> tbyte list \<Rightarrow> 'w \<Rightarrow> send_end \<times> tbyte list \<times> 'w" where
  "send_loop os fd data w =
     (if data \<noteq> []
      then case send_sock os w fd data of (sended_bytes, w1) \<Rightarrow>
             if sended_bytes > 0 then send_loop os fd (drop (nat sended_bytes) data) w1
             else if sended_bytes < 0 \<and> conn_error_code_would_block \<noteq> sended_bytes then (SendFailed, data, w1)
             else (SendBlocked, data, w1)
      else (SentAll, [], w))"
  by pat_completeness auto
termination
  by (relation "measure (\<lambda>(os, fd, data, w). length data)") auto

declare send_loop.simps [simp del]

definition pending :: "client_socket \<Rightarrow> tbyte list" where
  "pending cs = take (m_send_tail cs - m_send_head cs) (drop (m_send_head cs) (the (m_send_buffer cs)))"

text \<open>
  Putting data into the buffer, as \<open>send_cache\<close> and the blocked branch of \<open>send_data\<close> do: behind the
  waiting data, or after moving that to the front; \<open>data_remained_bytes\<close> is what is moved.
\<close>

definition buffer_data :: "client_socket \<Rightarrow> nat \<Rightarrow> tbyte list \<Rightarrow> (int \<times> client_socket) option" where
  "buffer_data cs data_remained_bytes data =
     (case m_send_buffer cs of
        None \<Rightarrow> None
      | Some buf \<Rightarrow>
          if sz_sub (m_nSendBufSize cs) (m_send_tail cs) \<ge> length data
          then (case buf_write buf (m_send_tail cs) data of
                  None \<Rightarrow> None
                | Some buf1 \<Rightarrow> Some (conn_error_code_success,
                    cs\<lparr>m_send_buffer := Some buf1, m_send_tail := m_send_tail cs + length data\<rparr>))
          else if sz_add (sz_sub (m_nSendBufSize cs) (m_send_tail cs)) (m_send_head cs) \<ge> length data
          then
            (case buf_write buf 0 (take data_remained_bytes (drop (m_send_head cs) buf)) of
               None \<Rightarrow> None
             | Some buf1 \<Rightarrow>
                 (case buf_write buf1 data_remained_bytes data of
                    None \<Rightarrow> None
                  | Some buf2 \<Rightarrow> Some (conn_error_code_success,
                      cs\<lparr>m_send_buffer := Some buf2, m_send_head := 0,
                         m_send_tail := data_remained_bytes + length data\<rparr>)))
          else Some (conn_error_code_send_not_enough_buffer, cs))"

definition send_cache :: "client_socket \<Rightarrow> tbyte list option \<Rightarrow> (int \<times> client_socket) option" where
  "send_cache cs data =
     (case data of
        None \<Rightarrow> Some (conn_error_code_invalid_param, cs)
      | Some d \<Rightarrow>
          if 0 = length d then Some (conn_error_code_invalid_param, cs)
          else if tcp_status_connected \<noteq> cs_status cs \<or> cs_fd cs = INVALID_SOCKET
          then Some (conn_error_code_invalid_socket, cs)
          else buffer_data cs (sz_sub (m_send_tail cs) (m_send_head cs)) d)"

definition send_cache_data :: "'w socket_env \<Rightarrow> client_socket \<Rightarrow> 'w \<Rightarrow> int \<times> client_socket \<times> 'w" where
  "send_cache_data env cs w =
     (if tcp_status_connected \<noteq> cs_status cs \<or> cs_fd cs = INVALID_SOCKET
      then (conn_error_code_invalid_socket, cs, w)
      else
        let (e, rest, w1) = send_loop (net_os.truncate env) (cs_fd cs) (pending cs) w;
            cs1 = cs\<lparr>m_send_head := m_send_tail cs - length rest\<rparr>
        in case e of
             SendFailed \<Rightarrow> (let (cs2, w2) = cs_disconnect env cs1 w1 in (conn_error_code_unknown, cs2, w2))
           | SentAll \<Rightarrow> (conn_error_code_success, cs1\<lparr>m_send_head := 0, m_send_tail := 0\<rparr>, w1)
           | SendBlocked \<Rightarrow> (conn_error_code_not_smooth_socket, cs1, w1))"

definition send_data :: "'w socket_env \<Rightarrow> client_socket \<Rightarrow> tbyte list option \<Rightarrow> 'w
    \<Rightarrow> (int \<times> client_socket \<times> 'w) option" where
  "send_data env cs data w =
     (case data of
        None \<Rightarrow> Some (conn_error_code_invalid_param, cs, w)
      | Some d \<Rightarrow>
          if 0 = length d then Some (conn_error_code_invalid_param, cs, w)
          else if tcp_status_connected \<noteq> cs_status cs \<or> cs_fd cs = INVALID_SOCKET
          then Some (conn_error_code_invalid_socket, cs, w)
          else
            let (e, rest, w1) = send_loop (net_os.truncate env) (cs_fd cs) (pending cs) w;
                cs1 = cs\<lparr>m_send_head := m_send_tail cs - length rest\<rparr>
            in case e of
                 SendFailed \<Rightarrow> (let (cs2, w2) = cs_disconnect env cs1 w1 in Some (conn_error_code_unknown, cs2, w2))
               | SendBlocked \<Rightarrow>
                   (case buffer_data cs1 (length rest) d of None \<Rightarrow> None | Some (ret, cs2) \<Rightarrow> Some (ret, cs2, w1))
               | SentAll \<Rightarrow>
                   let cs2 = cs1\<lparr>m_send_head := 0, m_send_tail := 0\<rparr>;
                       (e2, rest2, w2) = send_loop (net_os.truncate env) (cs_fd cs2) d w1
                   in case e2 of
                        SendFailed \<Rightarrow>
                          (let (cs3, w3) = cs_disconnect env cs2 w2 in Some (conn_error_code_unknown, cs3, w3))
                      | SentAll \<Rightarrow> Some (conn_error_code_success, cs2, w2)
                      | SendBlocked \<Rightarrow>
                          (case m_send_buffer cs2 of
                             None \<Rightarrow> None
                           | Some buf \<Rightarrow>
                               (case buf_write buf (m_send_tail cs2) rest2 of
                                  None \<Rightarrow> None
                                | Some buf1 \<Rightarrow> Some (conn_error_code_success,
                                    cs2\<lparr>m_send_buffer := Some buf1,
                                        m_send_tail := m_send_tail cs2 + length rest2\<rparr>, w2))))"

end
