(* ===== verification/ServerSocket.thy ===== *)
theory ServerSocket
  imports ClientSocket
begin

text \<open>
  The listening socket: \<open>include/network/serversocket.h\<close>, \<open>src/network/serversocket.cpp\<close>. Connections are
  objects in a store, indexed by their address; the container keeps their addresses (\<open>None\<close> for the
  null pointer). The callback \<open>m_funOnConnect\<close> is a function of the environment over the store, the
  object keeps whether it is set. An \<open>FD_SET\<close> or \<open>FD_ISSET\<close> of a descriptor that is not in the range
  of an \<open>fd_set\<close> is the value \<open>None\<close>. Addresses and ports are numbers in host order.
\<close>

section \<open>State\<close>

type_synonym cs_store = "nat \<Rightarrow> client_socket"

record server_socket =
  m_socket_fd :: int
  m_funOnConnect :: bool
  m_ClientContainer :: "nat option list"

record 'w server_env = "'w socket_env" +
  on_connect :: "tuint32 \<Rightarrow> tuint16 \<Rightarrow> cs_store \<Rightarrow> 'w \<Rightarrow> nat option \<times> cs_store \<times> 'w"

abbreviation os_of :: "('w, 'z) server_env_scheme \<Rightarrow> 'w net_os" where
  "os_of env \<equiv> net_os.truncate env"

abbreviation sock_of :: "('w, 'z) server_env_scheme \<Rightarrow> 'w socket_env" where
  "sock_of env \<equiv> socket_env.truncate env"

definition SO_REUSEADDR :: int where "SO_REUSEADDR = 2"
definition SO_SNDBUF :: int where "SO_SNDBUF = 7"
definition SO_RCVBUF :: int where "SO_RCVBUF = 8"
definition INADDR_ANY :: tuint32 where "INADDR_ANY = 0"

definition ServerSocket_new :: server_socket where
  "ServerSocket_new = \<lparr>m_socket_fd = INVALID_SOCKET, m_funOnConnect = False, m_ClientContainer = []\<rparr>"

section \<open>Opening and closing\<close>

definition server_close :: "'w server_env \<Rightarrow> server_socket \<Rightarrow> 'w \<Rightarrow> server_socket \<times> 'w" where
  "server_close env ss w =
     (let (ss1, w1) = (if m_socket_fd ss \<noteq> INVALID_SOCKET
                       then (ss\<lparr>m_socket_fd := INVALID_SOCKET\<rparr>, snd (closesocket_ex (os_of env) w (m_socket_fd ss)))
                       else (ss, w))
      in (ss1\<lparr>m_funOnConnect := False\<rparr>, w1))"

definition open_failed :: "'w server_env \<Rightarrow> server_socket \<Rightarrow> 'w \<Rightarrow> bool \<times> server_socket \<times> 'w" where
  "open_failed env ss w = (let (ss1, w1) = server_close env ss w in (False, ss1, w1))"

text \<open>The address in text form, if any, as the number \<open>inet_addr\<close> made of it.\<close>

definition server_open :: "'w server_env \<Rightarrow> server_socket \<Rightarrow> tuint16 \<Rightarrow> tuint32 option \<Rightarrow> 'w
    \<Rightarrow> bool \<times> server_socket \<times> 'w" where
  "server_open env ss port ip w =
     (let (fd, w1) = socket_ex (os_of env) w 2 1 0;
          ss1 = ss\<lparr>m_socket_fd := fd\<rparr>
      in if fd = INVALID_SOCKET then (False, ss1, w1)
         else
         let (reuse, w2) = setsockopt_ex (os_of env) w1 fd SO_REUSEADDR 1
         in if \<not> reuse then open_failed env ss1 w2
         else
         let server_addr = \<lparr>sin_addr = (case ip of Some a \<Rightarrow> a | None \<Rightarrow> INADDR_ANY), sin_port = port\<rparr>;
             (bound, w3) = bind_ex (os_of env) w2 fd server_addr
         in if \<not> bound then open_failed env ss1 w3
         else
         let (snd_buf, w4) = setsockopt_ex (os_of env) w3 fd SO_SNDBUF 0xFFFF
         in if \<not> snd_buf then open_failed env ss1 w4
         else
         let (rcv_buf, w5) = setsockopt_ex (os_of env) w4 fd SO_RCVBUF 0xFFFF
         in if \<not> rcv_buf then open_failed env ss1 w5
         else
         let (listening, w6) = listen_ex (os_of env) w5 fd 15
         in if \<not> listening then open_failed env ss1 w6
         else
         let (non_block, w7) = set_non_block (os_of env) w6 fd True
         in if \<not> non_block then open_failed env ss1 w7
         else (True, ss1, w7))"

definition server_valid :: "server_socket \<Rightarrow> bool" where
  "server_valid ss \<longleftrightarrow> m_socket_fd ss \<noteq> INVALID_SOCKET"

section \<open>Accepting\<close>

definition server_accept :: "'w server_env \<Rightarrow> server_socket \<Rightarrow> cs_store \<Rightarrow> 'w
    \<Rightarrow> (bool \<times> server_socket \<times> cs_store \<times> 'w) option" where
  "server_accept env ss st w =
     (if \<not> m_funOnConnect ss then Some (False, ss, st, w)
      else if \<not> fd_fits (m_socket_fd ss) then None
      else
        let (iRet, rset, wset, w1) = os_select env w (m_socket_fd ss + 1) [m_socket_fd ss] [] (0, 1000)
        in if SOCKET_ERROR = iRet then Some (False, ss, st, w1)
           else if m_socket_fd ss \<in> set rset
           then
             let (iFD, peer, w2) = accept_sock (os_of env) w1 (m_socket_fd ss)
             in if INVALID_SOCKET = iFD then Some (False, ss, st, w2)
                else
                let (non_block, w3) = set_non_block (os_of env) w2 iFD True
                in if \<not> non_block then Some (False, ss, st, snd (closesocket_ex (os_of env) w3 iFD))
                else
                case on_connect env (sin_addr peer) (sin_port peer) st w3 of
                  (None, st1, w4) \<Rightarrow> Some (False, ss, st1, snd (closesocket_ex (os_of env) w4 iFD))
                | (Some p, st1, w4) \<Rightarrow>
                    let (ok, cs1, w5) = set_fd (sock_of env) (st1 p) iFD w4
                    in Some (True, ss\<lparr>m_ClientContainer := m_ClientContainer ss @ [Some p]\<rparr>,
                         st1(p := set_ip_info cs1 (sin_addr peer) (sin_port peer)), w5)
           else Some (False, ss, st, w1))"

text \<open>The loop of \<open>accept_ex\<close>, with the number of rounds left and the number accepted.\<close>

fun accept_loop :: "'w server_env \<Rightarrow> nat \<Rightarrow> int \<Rightarrow> server_socket \<Rightarrow> cs_store \<Rightarrow> 'w
    \<Rightarrow> (int \<times> server_socket \<times> cs_store \<times> 'w) option" where
  "accept_loop env 0 iAcceptCount ss st w = Some (iAcceptCount, ss, st, w)"
| "accept_loop env (Suc rounds) iAcceptCount ss st w =
     (case server_accept env ss st w of
        None \<Rightarrow> None
      | Some (ok, ss1, st1, w1) \<Rightarrow>
          if \<not> ok then Some (iAcceptCount, ss1, st1, w1)
          else accept_loop env rounds (iAcceptCount + 1) ss1 st1 w1)"

definition server_accept_ex :: "'w server_env \<Rightarrow> int \<Rightarrow> server_socket \<Rightarrow> cs_store \<Rightarrow> 'w
    \<Rightarrow> (int \<times> server_socket \<times> cs_store \<times> 'w) option" where
  "server_accept_ex env iMaxAccept ss st w = accept_loop env (nat iMaxAccept) 0 ss st w"

section \<open>Receiving\<close>

text \<open>The first loop: the connections kept, the descriptors to watch, and the largest one.\<close>

fun recv_scan :: "cs_store \<Rightarrow> nat option list \<Rightarrow> int list \<Rightarrow> int \<Rightarrow> (nat option list \<times> int list \<times> int) option" where
  "recv_scan st [] fds iMaxFD = Some ([], fds, iMaxFD)"
| "recv_scan st (c # cs) fds iMaxFD =
     (case c of
        None \<Rightarrow> recv_scan st cs fds iMaxFD
      | Some p \<Rightarrow>
          if \<not> cs_valid (st p) then recv_scan st cs fds iMaxFD
          else if \<not> fd_fits (get_fd (st p)) then None
          else
            (case recv_scan st cs (fds @ [get_fd (st p)]) (if get_fd (st p) > iMaxFD then get_fd (st p) else iMaxFD) of
               None \<Rightarrow> None
             | Some (kept, fds1, max1) \<Rightarrow> Some (Some p # kept, fds1, max1)))"

text \<open>The second loop: every connection whose descriptor was reported receives.\<close>

fun recv_ready :: "'w server_env \<Rightarrow> int list \<Rightarrow> nat option list \<Rightarrow> cs_store \<Rightarrow> 'w \<Rightarrow> (cs_store \<times> 'w) option" where
  "recv_ready env rset [] st w = Some (st, w)"
| "recv_ready env rset (c # cs) st w =
     (case c of
        None \<Rightarrow> None
      | Some p \<Rightarrow>
          if \<not> fd_fits (get_fd (st p)) then None
          else if get_fd (st p) \<in> set rset
          then (case cs_recv_ex (sock_of env) (st p) w of
                  None \<Rightarrow> None
                | Some (ok, c1, w1) \<Rightarrow> recv_ready env rset cs (st(p := c1)) w1)
          else recv_ready env rset cs st w)"

definition server_recv :: "'w server_env \<Rightarrow> server_socket \<Rightarrow> cs_store \<Rightarrow> 'w
    \<Rightarrow> (bool \<times> server_socket \<times> cs_store \<times> 'w) option" where
  "server_recv env ss st w =
     (case recv_scan st (m_ClientContainer ss) [] INVALID_SOCKET of
        None \<Rightarrow> None
      | Some (kept, fds, iMaxFD) \<Rightarrow>
          let ss1 = ss\<lparr>m_ClientContainer := kept\<rparr>
          in if iMaxFD > 0
             then
               let (iRet, rset, wset, w1) = os_select env w (iMaxFD + 1) fds [] (0, 1000)
               in if iRet \<le> 0 then Some (False, ss1, st, w1)
                  else (case recv_ready env rset kept st w1 of
                          None \<Rightarrow> None
                        | Some (st1, w2) \<Rightarrow> Some (True, ss1, st1, w2))
             else Some (False, ss1, st, w))"

end
