(* ===== verification/ClientSocketProps.thy ===== *)
theory ClientSocketProps
  imports ClientSocket
begin

text \<open>
  What a connection does with the byte streams: the bytes handed to the system, followed by those
  waiting in the send buffer, are the accepted ones in order; the bytes received reach the callback
  in order; and where the buffers are overrun.
\<close>

section \<open>The buffers\<close>

definition send_ok :: "client_socket \<Rightarrow> bool" where
  "send_ok cs \<longleftrightarrow> (\<exists>sb. m_send_buffer cs = Some sb \<and> length sb = m_nSendBufSize cs) \<and>
     m_send_head cs \<le> m_send_tail cs \<and> m_send_tail cs \<le> m_nSendBufSize cs \<and> 2 * m_nSendBufSize cs < size_max"

definition recv_ok :: "client_socket \<Rightarrow> bool" where
  "recv_ok cs \<longleftrightarrow> (\<exists>rb. m_recv_buffer cs = Some rb \<and> length rb = m_nRecvBufSize cs) \<and>
     max_c2s_pkg_size \<le> m_nRecvBufSize cs \<and> m_recv_buffer_len cs \<le> max_c2s_pkg_size"

definition received :: "client_socket \<Rightarrow> tbyte list" where
  "received cs = take (m_recv_buffer_len cs) (the (m_recv_buffer cs))"

definition connected :: "client_socket \<Rightarrow> bool" where
  "connected cs \<longleftrightarrow> cs_status cs = tcp_status_connected \<and> cs_fd cs \<noteq> INVALID_SOCKET"

lemma pending_length: "send_ok cs \<Longrightarrow> length (pending cs) = m_send_tail cs - m_send_head cs"
  by (auto simp: send_ok_def pending_def)

lemma send_loop_spec:
  assumes "send_documented os wire fd" "send_loop os fd data w = (e, rest, w1)"
  shows "\<exists>sent. data = sent @ rest \<and> wire w1 = wire w @ sent \<and> (e = SentAll \<longleftrightarrow> rest = [])"
  using assms(2)
proof (induction data arbitrary: w rule: length_induct)
  case (1 data)
  show ?case
  proof (cases "data = []")
    case True
    then show ?thesis using "1.prems" by (subst (asm) send_loop.simps) auto
  next
    case False
    obtain r w2 where s: "send_sock os w fd data = (r, w2)" by fastforce
    note c = send_sock_cases [OF assms(1) s]
    show ?thesis
    proof (cases "r > 0")
      case True
      then have l: "send_loop os fd (drop (nat r) data) w2 = (e, rest, w1)"
        using "1.prems" False s by (subst (asm) send_loop.simps) simp
      have "length (drop (nat r) data) < length data" using True False by simp
      then obtain sent where sent: "drop (nat r) data = sent @ rest" "wire w1 = wire w2 @ sent" "(e = SentAll) = (rest = [])"
        using "1.IH" l by blast
      have "data = (take (nat r) data @ sent) @ rest" using sent(1) by (metis append.assoc append_take_drop_id)
      then show ?thesis using sent c True by (intro exI [of _ "take (nat r) data @ sent"]) simp
    next
      case no: False
      then have "rest = data \<and> w1 = w2 \<and> e \<noteq> SentAll"
        using "1.prems" False s by (subst (asm) send_loop.simps) (auto split: if_splits)
      then show ?thesis using c no False by auto
    qed
  qed
qed

lemma buffer_data_spec:
  assumes "send_ok cs" "r = m_send_tail cs - m_send_head cs" "buffer_data cs r d = Some (ret, cs')"
  shows "if length d + r \<le> m_nSendBufSize cs
    then ret = conn_error_code_success \<and> send_ok cs' \<and> pending cs' = pending cs @ d
    else ret = conn_error_code_send_not_enough_buffer \<and> cs' = cs"
proof -
  define h t n where "h = m_send_head cs" and "t = m_send_tail cs" and "n = m_nSendBufSize cs"
  note df = h_def [symmetric] t_def [symmetric] n_def [symmetric]
  obtain sb where sb: "m_send_buffer cs = Some sb" "length sb = n" using assms(1) by (auto simp: send_ok_def n_def)
  have b: "h \<le> t" "t \<le> n" "2 * n < size_max" using assms(1) by (auto simp: send_ok_def df)
  have s: "sz_sub n t = n - t" "sz_add (n - t) h = n - t + h" using b by (simp_all add: sz_simps)
  show ?thesis
  proof (cases "length d \<le> n - t")
    case True
    then have w: "buf_write sb t d = Some (take t sb @ d @ drop (t + length d) sb)" using b sb by (simp add: buf_write_def)
    have cs': "ret = conn_error_code_success" "cs' = cs\<lparr>m_send_buffer := Some (take t sb @ d @ drop (t + length d) sb),
        m_send_tail := t + length d\<rparr>"
      using assms(3) True sb s w by (simp_all add: buffer_data_def df)
    have "pending cs' = pending cs @ d"
      using b sb True by (simp add: cs' pending_def df drop_take)
    moreover have "send_ok cs'" using b sb True by (simp add: cs' send_ok_def df)
    moreover have "length d + r \<le> n" using True b assms(2) by (simp add: df)
    ultimately show ?thesis using cs'(1) by (simp add: df)
  next
    case no: False
    show ?thesis
    proof (cases "length d \<le> n - t + h")
      case True
      define p where "p = take r (drop h sb)"
      have lp: "length p = r" using b sb assms(2) by (simp add: p_def df)
      have w1: "buf_write sb 0 p = Some (p @ drop r sb)" using b sb lp assms(2) by (simp add: buf_write_def df)
      have w2: "buf_write (p @ drop r sb) r d = Some (p @ d @ drop (r + length d) sb)"
        using b sb lp assms(2) True by (simp add: buf_write_def df add.commute)
      have cs': "ret = conn_error_code_success" "cs' = cs\<lparr>m_send_buffer := Some (p @ d @ drop (r + length d) sb),
          m_send_head := 0, m_send_tail := r + length d\<rparr>"
        using assms(3) True no sb s w1 w2 by (simp_all add: buffer_data_def df p_def [symmetric])
      have "pending cs' = pending cs @ d"
        using lp sb assms(2) by (simp add: cs' pending_def df p_def)
      moreover have "send_ok cs'" using b sb lp True assms(2) by (simp add: cs' send_ok_def df)
      moreover have "length d + r \<le> n" using True b assms(2) by (simp add: df)
      ultimately show ?thesis using cs'(1) by (simp add: df)
    next
      case False
      then have "ret = conn_error_code_send_not_enough_buffer" "cs' = cs"
        using assms(3) no sb s by (simp_all add: buffer_data_def df)
      moreover have "\<not> length d + r \<le> n" using False b assms(2) by (simp add: df)
      ultimately show ?thesis by (simp add: df)
    qed
  qed
qed

lemma buffer_data_some: "send_ok cs \<Longrightarrow> r = m_send_tail cs - m_send_head cs \<Longrightarrow> buffer_data cs r d \<noteq> None"
  by (auto simp: buffer_data_def send_ok_def sz_simps buf_write_def split: option.splits)

lemma disconnect_closes: "\<exists>w'. cs_disconnect env cs w = (ClientSocket_new, w')"
  by (simp add: cs_disconnect_def cs_close_def split: prod.splits)

text \<open>After the waiting data was offered to the system.\<close>

lemma flush_head:
  assumes "send_ok cs" "pending cs = sent @ rest"
  shows "send_ok (cs\<lparr>m_send_head := m_send_tail cs - length rest\<rparr>)"
    "pending (cs\<lparr>m_send_head := m_send_tail cs - length rest\<rparr>) = rest"
    "length rest = m_send_tail cs - (m_send_tail cs - length rest)"
proof -
  have l: "m_send_tail cs - m_send_head cs = length sent + length rest"
    using pending_length [OF assms(1)] assms(2) by simp
  then have h: "m_send_tail cs - length rest = m_send_head cs + length sent" "length rest \<le> m_send_tail cs"
    using assms(1) by (auto simp: send_ok_def)
  show "send_ok (cs\<lparr>m_send_head := m_send_tail cs - length rest\<rparr>)" using assms(1) by (simp add: send_ok_def)
  show "length rest = m_send_tail cs - (m_send_tail cs - length rest)" using h(2) by simp
  have "rest = drop (length sent) (pending cs)" using assms(2) by simp
  also have "\<dots> = take (length rest) (drop (m_send_head cs + length sent) (the (m_send_buffer cs)))"
    using l by (simp add: pending_def drop_take add.commute)
  finally show "pending (cs\<lparr>m_send_head := m_send_tail cs - length rest\<rparr>) = rest"
  proof -
    assume r: "rest = take (length rest) (drop (m_send_head cs + length sent) (the (m_send_buffer cs)))"
    have "m_send_tail cs - (m_send_head cs + length sent) = length rest" using l by simp
    then show ?thesis using h r [symmetric] by (simp add: pending_def)
  qed
qed


section \<open>The receive loop\<close>

lemma recv_room_value: "len \<le> max_c2s_pkg_size \<Longrightarrow> recv_room len = max_c2s_pkg_size - len"
  by (simp add: recv_room_def max_c2s_pkg_size_def sz_simps)

lemma recv_loop_spec:
  assumes "recv_documented os got fd" "max_c2s_pkg_size \<le> length buf" "len \<le> max_c2s_pkg_size"
  shows "\<exists>e buf' len' w' new. recv_loop os fd buf len w = Some (e, buf', len', w') \<and> length buf' = length buf \<and>
    len' \<le> max_c2s_pkg_size \<and> take len' buf' = take len buf @ new \<and> got w' = got w @ new"
  using assms(2,3)
proof (induction "length buf - len" arbitrary: buf len w rule: less_induct)
  case less
  show ?case
  proof (cases "recv_room len > 0")
    case False
    then show ?thesis using less.prems by (subst recv_loop.simps) simp
  next
    case True
    obtain r bs w1 where s: "recv_sock os w fd (recv_room len) = (r, bs, w1)" by (metis prod_cases3)
    note c = recv_sock_cases [OF assms(1) s]
    show ?thesis
    proof (cases "r > 0")
      case pos: True
      define buf1 where "buf1 = take len buf @ bs @ drop (len + length bs) buf"
      have l: "bs \<noteq> []" "len + length bs \<le> max_c2s_pkg_size" "got w1 = got w @ bs"
        using c pos recv_room_value [OF less.prems(2)] less.prems(2) by auto
      have lb: "length buf1 = length buf" using l less.prems by (simp add: buf1_def)
      have t1: "take (len + length bs) buf1 = take len buf @ bs" using less.prems by (simp add: buf1_def)
      have eq: "recv_loop os fd buf len w = recv_loop os fd buf1 (len + length bs) w1"
        using True s pos l less.prems by (subst recv_loop.simps) (simp add: buf1_def)
      have "length buf1 - (len + length bs) < length buf - len"
      proof -
        have "0 < length bs" using l(1) by simp
        then show ?thesis using lb l(2) less.prems(1) by linarith
      qed
      from less.hyps [OF this, of w1] lb l less.prems
      obtain e buf' len' w' new where h: "recv_loop os fd buf1 (len + length bs) w1 = Some (e, buf', len', w')"
          "length buf' = length buf" "len' \<le> max_c2s_pkg_size" "take len' buf' = take (len + length bs) buf1 @ new"
          "got w' = got w1 @ new"
        by (metis (no_types, lifting))
      then show ?thesis using eq t1 l by (intro exI [of _ e] exI [of _ buf'] exI [of _ len'] exI [of _ w'] exI [of _ "bs @ new"]) simp
    next
      case no: False
      then have "\<exists>e. recv_loop os fd buf len w = Some (e, buf, len, w1)"
        using True s by (subst recv_loop.simps) auto
      then show ?thesis using less.prems c no by auto
    qed
  qed
qed

section \<open>Properties\<close>

text \<open>C30: \<open>send_data\<close> keeps the byte stream: on success
  the bytes taken by the system followed by those waiting are the old ones followed by the
  message; when the buffer is too full for the message it is refused whole and nothing is lost;
  or the connection was lost and is closed. One outcome is undefined (\<open>None\<close>): all that waited and a part of the message
  were sent, and what is left of the message is longer than the whole buffer, into which it is copied without
  a look at the size. It needs a message longer than the buffer.\<close>

theorem send_data_stream:
  assumes "send_documented (net_os.truncate env) wire (cs_fd cs)" "connected cs" "send_ok cs" "d \<noteq> []"
  shows "case send_data env cs (Some d) w of
    None \<Rightarrow> \<exists>sent unsent w'. d = sent @ unsent \<and> wire w' = wire w @ pending cs @ sent \<and> m_nSendBufSize cs < length unsent
  | Some (ret, cs', w') \<Rightarrow>
     ret = conn_error_code_success \<and> send_ok cs' \<and> wire w' @ pending cs' = wire w @ pending cs @ d \<or>
     ret = conn_error_code_send_not_enough_buffer \<and> send_ok cs' \<and> wire w' @ pending cs' = wire w @ pending cs \<or>
     ret = conn_error_code_unknown \<and> cs' = ClientSocket_new"
proof -
  obtain e rest w1 where l1: "send_loop (net_os.truncate env) (cs_fd cs) (pending cs) w = (e, rest, w1)" by (metis prod_cases3)
  obtain sent where s1: "pending cs = sent @ rest" "wire w1 = wire w @ sent" "(e = SentAll) = (rest = [])"
    using send_loop_spec [OF assms(1) l1] by blast
  define cs1 where "cs1 = cs\<lparr>m_send_head := m_send_tail cs - length rest\<rparr>"
  note f = flush_head [OF assms(3) s1(1), folded cs1_def]
  have rl: "length rest = m_send_tail cs1 - m_send_head cs1" using f(3) by (simp add: cs1_def)
  have go: "tcp_status_connected \<noteq> cs_status cs \<or> cs_fd cs = INVALID_SOCKET \<longleftrightarrow> False"
    using assms(2) by (auto simp: connected_def)
  show ?thesis
  proof (cases e)
    case SendFailed
    obtain w2 where "cs_disconnect env cs1 w1 = (ClientSocket_new, w2)" using disconnect_closes [of env cs1 w1] by (elim exE)
    then have "send_data env cs (Some d) w = Some (conn_error_code_unknown, ClientSocket_new, w2)"
      using SendFailed l1 assms(4) go by (simp add: send_data_def Let_def cs1_def)
    then show ?thesis by simp
  next
    case SendBlocked
    obtain ret cs2 where b: "buffer_data cs1 (length rest) d = Some (ret, cs2)"
      using buffer_data_some [OF f(1) rl] by fast
    have r: "send_data env cs (Some d) w = Some (ret, cs2, w1)"
      using l1 assms(4) go SendBlocked b by (simp add: send_data_def cs1_def)
    show ?thesis using buffer_data_spec [OF f(1) rl b] r s1 f by (auto split: if_splits)
  next
    case SentAll
    then have re: "rest = []" using s1(3) by simp
    define cs2 where "cs2 = cs\<lparr>m_send_head := 0, m_send_tail := 0\<rparr>"
    have fd: "cs_fd cs2 = cs_fd cs" by (simp add: cs2_def)
    obtain e2 rest2 w2 where l2: "send_loop (net_os.truncate env) (cs_fd cs2) d w1 = (e2, rest2, w2)" by (metis prod_cases3)
    obtain sent2 where s2: "d = sent2 @ rest2" "wire w2 = wire w1 @ sent2"
      using send_loop_spec [OF assms(1), of d w1] l2 fd by metis
    have ok2: "send_ok cs2" "pending cs2 = []" using assms(3) by (auto simp: send_ok_def cs2_def pending_def)
    have r: "send_data env cs (Some d) w = (case e2 of
        SendFailed \<Rightarrow> (let (cs3, w3) = cs_disconnect env cs2 w2 in Some (conn_error_code_unknown, cs3, w3))
      | SentAll \<Rightarrow> Some (conn_error_code_success, cs2, w2)
      | SendBlocked \<Rightarrow> (case m_send_buffer cs2 of None \<Rightarrow> None
          | Some buf \<Rightarrow> (case buf_write buf (m_send_tail cs2) rest2 of None \<Rightarrow> None
              | Some buf1 \<Rightarrow> Some (conn_error_code_success,
                   cs2\<lparr>m_send_buffer := Some buf1, m_send_tail := m_send_tail cs2 + length rest2\<rparr>, w2))))"
      using l1 l2 [unfolded fd] assms(4) go SentAll re
      by (cases e2) (simp_all add: send_data_def cs2_def Let_def cong: option.case_cong)
    show ?thesis
    proof (cases e2)
      case SendFailed
      obtain w3 where "cs_disconnect env cs2 w2 = (ClientSocket_new, w3)" using disconnect_closes [of env cs2 w2] by (elim exE)
      then show ?thesis using r SendFailed by simp
    next
      case SentAll
      then have "rest2 = []" using send_loop_spec [OF assms(1), of d w1] l2 fd by metis
      then show ?thesis using r SentAll s1 s2 ok2 re by auto
    next
      case SendBlocked
      obtain sb where sb: "m_send_buffer cs2 = Some sb" "length sb = m_nSendBufSize cs2" using ok2 by (auto simp: send_ok_def)
      define cs3 where "cs3 = cs2\<lparr>m_send_buffer := Some (rest2 @ drop (length rest2) sb), m_send_tail := length rest2\<rparr>"
      have t0: "m_send_tail cs2 = 0" "m_send_head cs2 = 0" by (simp_all add: cs2_def)
      show ?thesis
      proof (cases "length rest2 \<le> m_nSendBufSize cs2")
        case n: True
        have "send_data env cs (Some d) w = Some (conn_error_code_success, cs3, w2)"
          using r SendBlocked sb n t0 by (simp add: buf_write_def cs3_def)
        moreover have "send_ok cs3" using ok2(1) sb n t0 by (simp add: send_ok_def cs3_def)
        moreover have "pending cs3 = rest2" using t0 by (simp add: pending_def cs3_def)
        ultimately show ?thesis using s1 s2 re by auto
      next
        case False
        then have "send_data env cs (Some d) w = None" using r SendBlocked sb t0 by (simp add: buf_write_def)
        moreover have "wire w2 = wire w @ pending cs @ sent2" using s1 s2(2) re by simp
        moreover have "m_nSendBufSize cs < length rest2" using False by (simp add: cs2_def)
        ultimately show ?thesis using s2(1) by auto
      qed
    qed
  qed
qed

text \<open>when the system takes nothing at once, \<open>send_data\<close> copies the whole message into the send buffer
  without looking at its size: a message longer than the buffer is written behind its end.\<close>

theorem send_data_overrun:
  assumes "connected cs" "m_send_buffer cs = Some sb" "length sb = m_nSendBufSize cs" "pending cs = []"
    and "m_send_head cs = m_send_tail cs" "os_send env w (cs_fd cs) d = (SendError, w1)" "os_errno env w1 = EAGAIN"
    and "m_nSendBufSize cs < length d"
  shows "send_data env cs (Some d) w = None"
proof -
  have d: "d \<noteq> []" using assms(8) by auto
  have tr: "os_send (net_os.truncate env) = os_send env" "os_errno (net_os.truncate env) = os_errno env"
    by (simp_all add: net_os.truncate_def)
  have s: "send_sock (net_os.truncate env) w (cs_fd cs) d = (conn_error_code_would_block, w1)"
    using assms(6,7) by (simp add: send_sock_def net_error_no_def tr)
  have l1: "send_loop (net_os.truncate env) (cs_fd cs) [] w = (SentAll, [], w)" by (subst send_loop.simps) simp
  have l2: "send_loop (net_os.truncate env) (cs_fd cs) d w = (SendBlocked, d, w1)"
    using d s by (subst send_loop.simps) (simp add: conn_codes)
  have "buf_write sb 0 d = None" using assms(3,8) by (simp add: buf_write_def)
  then show ?thesis
    using assms(1,2,4) d l1 l2 by (simp add: send_data_def connected_def Let_def)
qed


section \<open>A network for the witnesses\<close>

text \<open>The state is what was sent or received, how many bytes the system will still take, and what is to be received.\<close>

type_synonym demo_net = "tbyte list \<times> nat \<times> tbyte list"

definition demo_env :: "demo_net socket_env" where
  "demo_env = \<lparr>os_socket = (\<lambda>w a b c. (3, w)), os_listen = (\<lambda>w s n. (0, w)), os_bind = (\<lambda>w s a. (0, w)),
     os_accept = (\<lambda>w s. (- 1, \<lparr>sin_addr = 0, sin_port = 0\<rparr>, w)), os_close = (\<lambda>w s. (0, w)), os_getfl = (\<lambda>w s. 0),
     os_setfl = (\<lambda>w s f. (0, w)), os_setsockopt = (\<lambda>w s a b. (0, w)), os_getsockopt = (\<lambda>w s a. (0, 0)),
     os_connect = (\<lambda>w s a. (0, w)), os_select = (\<lambda>w n r v t. (1, r, v, w)),
     os_recv = (\<lambda>w s n. case w of (o1, k, i) \<Rightarrow> if i = [] then (RecvError, w) else (RecvBytes (take n i), (o1 @ take n i, k, drop n i))),
     os_send = (\<lambda>w s b. case w of (o1, k, i) \<Rightarrow> if k = 0 then (SendError, w)
        else (SentBytes (min k (length b)), (o1 @ take (min k (length b)) b, k - length b, i))),
     os_errno = (\<lambda>w. EAGAIN), on_disconnect = (\<lambda>c w. (c, w)),
     on_recv_message = (\<lambda>c b w. (int (length b) - int (length b mod 2), c, w))\<rparr>"

definition demo_wire :: "demo_net \<Rightarrow> tbyte list" where
  "demo_wire w = fst w"

definition demo_client :: "nat \<Rightarrow> client_socket" where
  "demo_client n = (snd (set_buf_size ClientSocket_new (replicate 0x1400 0) (replicate n 0)))
     \<lparr>cs_fd := 3, cs_status := tcp_status_connected, m_funOnRecvMessage := True\<rparr>"

lemma demo_truncate:
  "os_send (net_os.truncate demo_env) = os_send demo_env" "os_recv (net_os.truncate demo_env) = os_recv demo_env"
  "os_errno (net_os.truncate demo_env) = os_errno demo_env"
  by (simp_all add: net_os.truncate_def)

lemma demo_send_documented: "send_documented (net_os.truncate demo_env) demo_wire s"
  unfolding send_documented_def demo_truncate by (auto simp: demo_env_def demo_wire_def)

lemma demo_client_ok:
  "connected (demo_client n)" "n < 1000000 \<Longrightarrow> send_ok (demo_client n)" "pending (demo_client n) = []" "recv_ok (demo_client n)"
  "cs_fd (demo_client n) = 3" "m_nSendBufSize (demo_client n) = n" "m_funOnRecvMessage (demo_client n)"
  "m_recv_buffer_len (demo_client n) = 0" "m_send_buffer (demo_client n) = Some (replicate n 0)"
  "cs_status (demo_client n) = tcp_status_connected" "m_send_head (demo_client n) = 0" "m_send_tail (demo_client n) = 0"
  by (simp_all add: demo_client_def connected_def send_ok_def recv_ok_def pending_def set_buf_size_def
    ClientSocket_new_def INVALID_SOCKET_def max_c2s_pkg_size_def)

theorem send_data_stream_witness:
  "\<exists>cs' w'. send_data demo_env (demo_client 10) (Some [1, 2, 3, 4]) ([], 3, []) = Some (0, cs', w') \<and>
     demo_wire w' = [1, 2, 3] \<and> pending cs' = [4]"
proof -
  have tr: "net_os.truncate demo_env = net_os.truncate demo_env" ..
  have l1: "send_loop (net_os.truncate demo_env) 3 [] w = (SentAll, [], w)" for w by (subst send_loop.simps) simp
  have s1: "send_sock (net_os.truncate demo_env) ([], 3, []) 3 [1, 2, 3, 4] = (3, ([1, 2, 3], 0, []))"
    unfolding send_sock_def demo_truncate by (simp add: demo_env_def eval_nat_numeral)
  have s2: "send_sock (net_os.truncate demo_env) ([1, 2, 3], 0, []) 3 [4] = (conn_error_code_would_block, ([1, 2, 3], 0, []))"
    unfolding send_sock_def demo_truncate net_error_no_def by (simp add: demo_env_def EAGAIN_def)
  have l3: "send_loop (net_os.truncate demo_env) 3 [4] ([1, 2, 3], 0, []) = (SendBlocked, [4], ([1, 2, 3], 0, []))"
    by (subst send_loop.simps) (simp add: s2 conn_codes)
  have l2: "send_loop (net_os.truncate demo_env) 3 [1, 2, 3, 4] ([], 3, []) = (SendBlocked, [4], ([1, 2, 3], 0, []))"
  proof -
    have "drop (nat 3) [1 :: tbyte, 2, 3, 4] = [4]" by (simp add: eval_nat_numeral)
    then show ?thesis by (subst send_loop.simps) (simp only: s1 l3, simp add: s1 l3)
  qed
  have "connected (demo_client 10)" "send_ok (demo_client 10)" by (simp_all add: demo_client_ok)
  note stream = send_data_stream [OF demo_send_documented this, of "[1, 2, 3, 4]" "([], 3, [])"]
  obtain cs' where r: "send_data demo_env (demo_client 10) (Some [1, 2, 3, 4]) ([], 3, []) = Some (conn_error_code_success, cs', ([1, 2, 3], 0, []))"
    using l1 l2 by (auto simp: send_data_def demo_client_ok Let_def buf_write_def INVALID_SOCKET_def)
  have "demo_wire ([1, 2, 3], 0, []) @ pending cs' = demo_wire ([], 3, []) @ pending (demo_client 10) @ [1, 2, 3, 4]"
    using stream unfolding r by (simp add: conn_codes)
  then show ?thesis using r by (auto simp: conn_codes demo_wire_def demo_client_ok)
qed

theorem send_data_overrun_witness:
  "send_data demo_env (demo_client 2) (Some [1, 2, 3]) ([], 0, []) = None"
  by (rule send_data_overrun [where ?w1.0 = "([], 0, [])" and sb = "replicate 2 0"])
    (simp_all add: demo_client_ok demo_env_def)


text \<open>A callback that leaves the connection and the incoming stream alone, and uses no more than it is given.\<close>

definition callback_documented :: "'w socket_env \<Rightarrow> ('w \<Rightarrow> tbyte list) \<Rightarrow> bool" where
  "callback_documented env got \<longleftrightarrow> (\<forall>c b w n c' w'. on_recv_message env c b w = (n, c', w') \<longrightarrow>
     c' = c \<and> got w' = got w \<and> n \<le> int (length b))"

lemma recv_ex_stopped:
  assumes "m_funOnRecvMessage cs" "recv_data env cs w = Some (code, cs1, w1)"
    "code = conn_error_code_peer_closed \<or> code = conn_error_code_unknown"
  shows "cs_recv_ex env cs w = (let (cs3, w3) = cs_disconnect env cs1 w1 in Some (False, cs3, w3))"
  using assms by (auto simp: cs_recv_ex_def conn_codes)

lemma recv_ex_delivered:
  assumes "m_funOnRecvMessage cs" "recv_data env cs w = Some (code, cs1, w1)"
    "code = conn_error_code_would_block \<or> code = conn_error_code_recv_not_enough_buffer"
    "on_recv_message env cs1 (take (m_recv_buffer_len cs1) (the (m_recv_buffer cs1))) w1 = (n, cs1, w2)"
    "m_recv_buffer cs1 = Some buf1" "\<not> n > int (m_recv_buffer_len cs1)"
  shows "cs_recv_ex env cs w =
    (if n < 0 \<or> (n = 0 \<and> conn_error_code_recv_not_enough_buffer = code)
     then let (cs3, w3) = cs_disconnect env cs1 w2 in Some (False, cs3, w3)
     else if n = 0 then Some (True, cs1, w2)
     else Some (True, cs1\<lparr>m_recv_buffer_len := m_recv_buffer_len cs1 - nat n,
       m_recv_buffer := Some (take (m_recv_buffer_len cs1 - nat n) (drop (nat n) buf1) @ drop (m_recv_buffer_len cs1 - nat n) buf1)\<rparr>, w2))"
proof -
  have go: "conn_error_code_success = code \<or> conn_error_code_would_block = code \<or>
      conn_error_code_recv_not_enough_buffer = code"
    using assms(3) by blast
  show ?thesis
    unfolding cs_recv_ex_def assms(2)
    apply (simp only: assms(1,4) go option.case prod.case Let_def not_True_eq_False if_False if_True)
    apply (simp only: assms(5,6) option.case if_False)
    done
qed

lemma recv_ex_step:
  assumes "recv_documented (net_os.truncate env) got (cs_fd cs)" "connected cs" "recv_ok cs" "m_funOnRecvMessage cs"
    and "callback_documented env got"
  shows "\<exists>ok cs' w'. cs_recv_ex env cs w = Some (ok, cs', w') \<and>
    (cs' = ClientSocket_new \<or>
     (\<exists>cs1 w1 n new. on_recv_message env cs1 (received cs @ new) w1 = (n, cs1, w') \<and> got w' = got w @ new \<and> 0 \<le> n \<and>
        recv_ok cs' \<and> received cs' = drop (nat n) (received cs @ new) \<and>
        (\<exists>b l. cs' = cs\<lparr>m_recv_buffer := Some b, m_recv_buffer_len := l\<rparr>)))"
proof -
  obtain rb where rb: "m_recv_buffer cs = Some rb" "length rb = m_nRecvBufSize cs" "max_c2s_pkg_size \<le> length rb"
      "m_recv_buffer_len cs \<le> max_c2s_pkg_size"
    using assms(3) by (auto simp: recv_ok_def)
  obtain e buf1 len1 w1 new where l: "recv_loop (net_os.truncate env) (cs_fd cs) rb (m_recv_buffer_len cs) w = Some (e, buf1, len1, w1)"
      "length buf1 = length rb" "len1 \<le> max_c2s_pkg_size" "take len1 buf1 = take (m_recv_buffer_len cs) rb @ new" "got w1 = got w @ new"
    using recv_loop_spec [OF assms(1) rb(3,4)] by metis
  define cs1 where "cs1 = cs\<lparr>m_recv_buffer := Some buf1, m_recv_buffer_len := len1\<rparr>"
  have go: "(tcp_status_connected \<noteq> cs_status cs \<or> cs_fd cs = INVALID_SOCKET) = False"
    using assms(2) by (auto simp: connected_def)
  have data: "take (m_recv_buffer_len cs1) (the (m_recv_buffer cs1)) = received cs @ new"
    using l(4) rb(1) by (simp add: cs1_def received_def)
  have ok1: "recv_ok cs1" using assms(3) l rb by (simp add: recv_ok_def cs1_def)
  obtain n c2 w2 where cb: "on_recv_message env cs1 (received cs @ new) w1 = (n, c2, w2)" by (metis prod_cases3)
  have cb': "c2 = cs1" "got w2 = got w @ new" "n \<le> int (length (received cs @ new))"
    using assms(5) [unfolded callback_documented_def] cb l(5) by metis+
  have len: "length (received cs @ new) = len1"
  proof -
    have "length (take len1 buf1) = len1" using l(2,3) rb(3) by simp
    moreover have "take len1 buf1 = received cs @ new" using data by (simp add: cs1_def)
    ultimately show ?thesis by (simp only:)
  qed
  have step: "cs_recv_ex env cs w = (if e = EndWouldBlock \<or> e = EndBufferFull
      then (if n < 0 \<or> (n = 0 \<and> e = EndBufferFull)
            then (let (cs3, w3) = cs_disconnect env cs1 w2 in Some (False, cs3, w3))
            else if n = 0 then Some (True, cs1, w2)
            else Some (True, cs1\<lparr>m_recv_buffer_len := len1 - nat n,
              m_recv_buffer := Some (take (len1 - nat n) (drop (nat n) buf1) @ drop (len1 - nat n) buf1)\<rparr>, w2))
      else (let (cs2, w3) = cs_disconnect env cs1 w1; (cs3, w4) = cs_disconnect env cs2 w3 in Some (False, cs3, w4)))"
  proof -
    have nl: "\<not> n > int len1" using cb'(3) len by simp
    have r: "recv_data env cs w = (case e of
        EndPeerClosed \<Rightarrow> (let (cs2, w2) = cs_disconnect env cs1 w1 in Some (conn_error_code_peer_closed, cs2, w2))
      | EndWouldBlock \<Rightarrow> Some (conn_error_code_would_block, cs1, w1)
      | EndUnknown \<Rightarrow> (let (cs2, w2) = cs_disconnect env cs1 w1 in Some (conn_error_code_unknown, cs2, w2))
      | EndBufferFull \<Rightarrow> Some (conn_error_code_recv_not_enough_buffer, cs1, w1))"
      using go rb(1) l(1) by (cases e) (simp_all add: recv_data_def cs1_def Let_def)
    have f: "m_recv_buffer cs1 = Some buf1" "m_recv_buffer_len cs1 = len1" by (simp_all add: cs1_def)
    have cb1: "on_recv_message env cs1 (take (m_recv_buffer_len cs1) (the (m_recv_buffer cs1))) w1 = (n, cs1, w2)"
      using cb cb'(1) data by simp
    note delivered = recv_ex_delivered [OF assms(4) _ _ cb1 f(1), unfolded f(2), OF _ _ nl]
    obtain c3 w3 where d1: "cs_disconnect env cs1 w1 = (c3, w3)" by (cases "cs_disconnect env cs1 w1")
    obtain c4 w4 where d2: "cs_disconnect env c3 w3 = (c4, w4)" by (cases "cs_disconnect env c3 w3")
    show ?thesis
    proof (cases e)
      case EndPeerClosed
      then show ?thesis
        using r d1 recv_ex_stopped [OF assms(4), of env w _ c3 w3] d2 by (simp add: Let_def)
    next
      case EndUnknown
      then show ?thesis
        using r d1 recv_ex_stopped [OF assms(4), of env w _ c3 w3] d2 by (simp add: Let_def)
    next
      case EndWouldBlock
      then have "recv_data env cs w = Some (conn_error_code_would_block, cs1, w1)" using r by simp
      from delivered [OF this] show ?thesis using EndWouldBlock by (simp add: conn_codes)
    next
      case EndBufferFull
      then have "recv_data env cs w = Some (conn_error_code_recv_not_enough_buffer, cs1, w1)" using r by simp
      from delivered [OF this] show ?thesis using EndBufferFull by simp
    qed
  qed
  show ?thesis
  proof (cases "(e = EndWouldBlock \<or> e = EndBufferFull) \<and> \<not> (n < 0 \<or> (n = 0 \<and> e = EndBufferFull))")
    case True
    then have e: "(e = EndWouldBlock \<or> e = EndBufferFull) = True" "(n < 0 \<or> (n = 0 \<and> e = EndBufferFull)) = False"
      by simp_all
    note step' = step [unfolded e if_True if_False]
    have n0: "0 \<le> n" using True by linarith
    show ?thesis
    proof (cases "n = 0")
      case True
      have s: "cs_recv_ex env cs w = Some (True, cs1, w2)" using step' True by (simp only: if_True refl)
      have "received cs1 = drop (nat n) (received cs @ new)" using data True by (simp add: received_def)
      moreover have "on_recv_message env cs1 (received cs @ new) w1 = (n, cs1, w2)" using cb cb'(1) by simp
      ultimately show ?thesis using s n0 ok1 cb'(2) cs1_def by blast
    next
      case False
      define cs' where "cs' = cs1\<lparr>m_recv_buffer_len := len1 - nat n,
        m_recv_buffer := Some (take (len1 - nat n) (drop (nat n) buf1) @ drop (len1 - nat n) buf1)\<rparr>"
      have s: "cs_recv_ex env cs w = Some (True, cs', w2)"
        using step' False by (simp only: cs'_def if_False)
      have "take (len1 - nat n) (drop (nat n) buf1) = drop (nat n) (take len1 buf1)" by (simp add: drop_take)
      moreover have "take len1 buf1 = received cs @ new" using data by (simp add: cs1_def)
      moreover have "length (take (len1 - nat n) (drop (nat n) buf1)) = len1 - nat n"
        using l(2,3) rb(3) by simp
      moreover have "received cs' = take (len1 - nat n) (take (len1 - nat n) (drop (nat n) buf1) @ drop (len1 - nat n) buf1)"
        by (simp add: received_def cs'_def)
      ultimately have "received cs' = drop (nat n) (received cs @ new)"
        by (metis append_eq_conv_conj)
      moreover have "recv_ok cs'" using ok1 l(2,3) rb(3) by (simp add: recv_ok_def cs'_def cs1_def) linarith
      moreover have "on_recv_message env cs1 (received cs @ new) w1 = (n, cs1, w2)" using cb cb'(1) by simp
      moreover have "\<exists>b l. cs' = cs\<lparr>m_recv_buffer := Some b, m_recv_buffer_len := l\<rparr>"
        by (rule exI [of _ "take (len1 - nat n) (drop (nat n) buf1) @ drop (len1 - nat n) buf1"],
            rule exI [of _ "len1 - nat n"]) (simp add: cs'_def cs1_def)
      ultimately show ?thesis using s n0 cb'(2) by blast
    qed
  next
    case False
    have "\<exists>w'. cs_recv_ex env cs w = Some (False, ClientSocket_new, w')"
    proof (cases "e = EndWouldBlock \<or> e = EndBufferFull")
      case True
      obtain w3 where "cs_disconnect env cs1 w2 = (ClientSocket_new, w3)" using disconnect_closes [of env cs1 w2] by (elim exE)
      moreover from True have e: "(e = EndWouldBlock \<or> e = EndBufferFull) = True" by simp
      moreover from True False have "(n < 0 \<or> (n = 0 \<and> e = EndBufferFull)) = True" by simp
      ultimately have "cs_recv_ex env cs w = Some (False, ClientSocket_new, w3)"
        using step by (simp only: if_True Let_def prod.case)
      then show ?thesis by blast
    next
      case no: False
      obtain w3 where d: "cs_disconnect env cs1 w1 = (ClientSocket_new, w3)" using disconnect_closes [of env cs1 w1] by (elim exE)
      obtain w4 where "cs_disconnect env ClientSocket_new w3 = (ClientSocket_new, w4)" using disconnect_closes [of env ClientSocket_new w3] by (elim exE)
      moreover from no have "(e = EndWouldBlock \<or> e = EndBufferFull) = False" by simp
      ultimately have "cs_recv_ex env cs w = Some (False, ClientSocket_new, w4)"
        using step d by (simp only: if_False Let_def prod.case)
      then show ?thesis by blast
    qed
    then show ?thesis by blast
  qed
qed

text \<open>C31: a receive step never writes outside a receive buffer of at least \<open>max_c2s_pkg_size\<close> bytes, and
  keeps the incoming stream: the callback is given the unused bytes of before followed by the next
  bytes of the stream, and afterwards the buffer holds what the callback left of them; or the
  connection is closed.\<close>

theorem recv_ex_stream:
  assumes "recv_documented (net_os.truncate env) got (cs_fd cs)" "connected cs" "recv_ok cs" "m_funOnRecvMessage cs"
    and "callback_documented env got"
  shows "\<exists>ok cs' w'. cs_recv_ex env cs w = Some (ok, cs', w') \<and>
    (cs' = ClientSocket_new \<or>
     (\<exists>cs1 w1 n new. on_recv_message env cs1 (received cs @ new) w1 = (n, cs1, w') \<and> got w' = got w @ new \<and> 0 \<le> n \<and>
        recv_ok cs' \<and> received cs' = drop (nat n) (received cs @ new)))"
  using recv_ex_step [OF assms] by blast

lemma demo_recv_documented: "recv_documented (net_os.truncate demo_env) demo_wire s"
  unfolding recv_documented_def demo_truncate by (auto simp: demo_env_def demo_wire_def)

lemma demo_callback_documented: "callback_documented demo_env demo_wire"
proof -
  have "int (length b) - int (length b mod 2) \<le> int (length b)" for b :: "tbyte list" by simp
  then show ?thesis by (auto simp: callback_documented_def demo_env_def)
qed

theorem recv_ex_stream_witness:
  "\<exists>cs' w'. cs_recv_ex demo_env (demo_client 4) ([], 0, [5, 6, 7]) = Some (True, cs', w') \<and> received cs' = [7]"
proof -
  have ok: "connected (demo_client 4)" "recv_ok (demo_client 4)" "m_funOnRecvMessage (demo_client 4)"
    by (simp_all add: demo_client_ok)
  from recv_ex_stream [OF demo_recv_documented ok demo_callback_documented, of "([], 0, [5, 6, 7])"]
  obtain r cs' w' where r: "cs_recv_ex demo_env (demo_client 4) ([], 0, [5, 6, 7]) = Some (r, cs', w')"
    "cs' = ClientSocket_new \<or> (\<exists>cs1 w1 n new. on_recv_message demo_env cs1 (received (demo_client 4) @ new) w1 = (n, cs1, w') \<and>
       demo_wire w' = demo_wire ([], 0, [5, 6, 7]) @ new \<and> 0 \<le> n \<and> recv_ok cs' \<and>
       received cs' = drop (nat n) (received (demo_client 4) @ new))"
    by blast
  have s1: "recv_sock (net_os.truncate demo_env) ([], 0, [5, 6, 7]) 3 5120 = (3, [5, 6, 7], ([5, 6, 7], 0, []))"
    unfolding recv_sock_def demo_truncate by (simp add: demo_env_def)
  have s2: "recv_sock (net_os.truncate demo_env) ([5, 6, 7], 0, []) 3 5117 = (conn_error_code_would_block, [], ([5, 6, 7], 0, []))"
    unfolding recv_sock_def demo_truncate net_error_no_def by (simp add: demo_env_def EAGAIN_def)
  have room: "recv_room 0 = 5120" "recv_room 3 = 5117" by (simp_all add: recv_room_value max_c2s_pkg_size_def)
  have l2: "length buf = 5120 \<Longrightarrow> recv_loop (net_os.truncate demo_env) 3 buf 3 ([5, 6, 7], 0, []) =
      Some (EndWouldBlock, buf, 3, ([5, 6, 7], 0, []))" for buf
    by (subst recv_loop.simps) (simp add: room s2 conn_codes)
  obtain buf where rb: "m_recv_buffer (demo_client 4) = Some buf" "length buf = 5120"
    by (simp add: demo_client_def set_buf_size_def)
  have "\<exists>buf1. recv_loop (net_os.truncate demo_env) 3 buf 0 ([], 0, [5, 6, 7]) = Some (EndWouldBlock, buf1, 3, ([5, 6, 7], 0, []))"
    using rb(2) l2 by (subst recv_loop.simps) (simp add: room s1 flip: numeral_3_eq_3)
  then obtain buf1 where l1: "recv_loop (net_os.truncate demo_env) 3 buf 0 ([], 0, [5, 6, 7]) = Some (EndWouldBlock, buf1, 3, ([5, 6, 7], 0, []))" ..
  have lb: "length buf1 = 5120"
    using recv_loop_spec [OF demo_recv_documented [of 3], of buf 0 "([], 0, [5, 6, 7])"] l1 rb(2)
    by (simp add: max_c2s_pkg_size_def)
  have "w' = ([5, 6, 7], 0, []) \<and> r \<and> m_recv_buffer_len cs' = 1"
    using r(1) l1 rb(1) lb
    by (auto simp: cs_recv_ex_def recv_data_def demo_client_ok INVALID_SOCKET_def conn_codes demo_env_def)
  moreover have "m_recv_buffer_len ClientSocket_new = 0" by (simp add: ClientSocket_new_def)
  moreover have "received (demo_client 4) = []" by (simp add: received_def demo_client_ok)
  ultimately show ?thesis using r(1) r(2) by (auto simp: demo_wire_def demo_env_def numeral_3_eq_3)
qed

end
