(* ===== verification/ServerSocketProps.thy ===== *)
theory ServerSocketProps
  imports ServerSocket ClientSocketProps
begin

text \<open>
  The listening socket: descriptors are neither lost nor closed twice while a socket is opened and
  connections are accepted, and a receiving pass drops the dead connections and is safe for the
  others as long as no connection stands in the container twice.
\<close>

section \<open>Descriptors\<close>

text \<open>
  Documented behaviour of the calls on the table of open descriptors: \<open>socket\<close> and \<open>accept\<close> give a
  descriptor that was not open, \<open>close\<close> removes one, the others leave the table alone; so does the
  callback, which only chooses an object.
\<close>

definition descriptors_documented :: "'w server_env \<Rightarrow> ('w \<Rightarrow> int set) \<Rightarrow> bool" where
  "descriptors_documented env opened \<longleftrightarrow>
     (\<forall>w a b c s w1. os_socket env w a b c = (s, w1) \<longrightarrow>
        (if s = INVALID_SOCKET then opened w1 = opened w else s \<notin> opened w \<and> opened w1 = insert s (opened w))) \<and>
     (\<forall>w l s a w1. os_accept env w l = (s, a, w1) \<longrightarrow>
        (if s = INVALID_SOCKET then opened w1 = opened w else s \<notin> opened w \<and> opened w1 = insert s (opened w))) \<and>
     (\<forall>w s. opened (snd (os_close env w s)) = opened w - {s}) \<and>
     (\<forall>w s n v. opened (snd (os_setsockopt env w s n v)) = opened w) \<and>
     (\<forall>w s f. opened (snd (os_setfl env w s f)) = opened w) \<and>
     (\<forall>w s a. opened (snd (os_bind env w s a)) = opened w) \<and>
     (\<forall>w s n. opened (snd (os_listen env w s n)) = opened w) \<and>
     (\<forall>w n r v t. opened (snd (snd (snd (os_select env w n r v t)))) = opened w) \<and>
     (\<forall>ip port st w. opened (snd (snd (on_connect env ip port st w))) = opened w)"

lemma os_of_calls [simp]:
  "os_socket (os_of env) = os_socket env" "os_accept (os_of env) = os_accept env" "os_close (os_of env) = os_close env"
  "os_setsockopt (os_of env) = os_setsockopt env" "os_setfl (os_of env) = os_setfl env"
  "os_getfl (os_of env) = os_getfl env"
  "os_bind (os_of env) = os_bind env" "os_listen (os_of env) = os_listen env" "os_recv (os_of env) = os_recv env"
  "net_os.truncate (sock_of env) = os_of env"
  by (simp_all add: net_os.truncate_def socket_env.truncate_def)

lemma unchanged_calls:
  assumes "descriptors_documented env opened"
  shows "opened (snd (setsockopt_ex (os_of env) w s n v)) = opened w"
    "opened (snd (bind_ex (os_of env) w s a)) = opened w"
    "opened (snd (listen_ex (os_of env) w s b)) = opened w"
    "opened (snd (set_non_block (os_of env) w s nb)) = opened w"
    "opened (snd (closesocket_ex (os_of env) w s)) = opened w - {s}"
    "opened (snd (snd (snd (os_select env w n' r v' t)))) = opened w"
    "opened (snd (snd (on_connect env ip port st w))) = opened w"
  using assms by (cases t; simp add: descriptors_documented_def setsockopt_ex_def bind_ex_def listen_ex_def
      set_non_block_def closesocket_ex_def case_prod_unfold Let_def)+

lemma new_descriptor:
  assumes "descriptors_documented env opened"
  shows "os_socket env w a b c = (s, w1) \<Longrightarrow> s \<noteq> INVALID_SOCKET \<Longrightarrow> s \<notin> opened w \<and> opened w1 = insert s (opened w)"
    "os_socket env w a b c = (INVALID_SOCKET, w1) \<Longrightarrow> opened w1 = opened w"
    "os_accept env w l = (s, p, w1) \<Longrightarrow> s \<noteq> INVALID_SOCKET \<Longrightarrow> s \<notin> opened w \<and> opened w1 = insert s (opened w)"
    "os_accept env w l = (INVALID_SOCKET, p, w1) \<Longrightarrow> opened w1 = opened w"
  using assms unfolding descriptors_documented_def by metis+

lemma open_failed_ledger:
  assumes "descriptors_documented env opened" "m_socket_fd ss \<noteq> INVALID_SOCKET" "opened w = insert (m_socket_fd ss) old"
    "m_socket_fd ss \<notin> old" "open_failed env ss w = (ok, ss', w')"
  shows "\<not> ok \<and> opened w' = old \<and> m_socket_fd ss' = INVALID_SOCKET"
  using assms by (auto simp: open_failed_def server_close_def unchanged_calls [OF assms(1)])

text \<open>opening the listening socket adds exactly one descriptor to those open, the socket's, when it
  succeeds; when any step fails the new descriptor is closed again, nothing else is, and the socket
  is not valid.\<close>

theorem server_open_descriptors:
  assumes "descriptors_documented env opened" "server_open env ss port ip w = (ok, ss', w')"
  shows "opened w' = (if ok then insert (m_socket_fd ss') (opened w) else opened w) \<and>
    (ok \<longrightarrow> m_socket_fd ss' \<notin> opened w) \<and> server_valid ss' = ok"
proof -
  note u = unchanged_calls [OF assms(1)]
  obtain fd w1 where fd: "os_socket env w 2 1 0 = (fd, w1)" by fastforce
  show ?thesis
  proof (cases "fd = INVALID_SOCKET")
    case True
    then show ?thesis using assms(2) fd new_descriptor(2) [OF assms(1)]
      by (auto simp: server_open_def socket_ex_def server_valid_def)
  next
    case False
    define ss1 where "ss1 = ss\<lparr>m_socket_fd := fd\<rparr>"
    have n: "fd \<notin> opened w" "opened w1 = insert fd (opened w)"
      using new_descriptor(1) [OF assms(1) fd False] by blast+
    have f: "\<not> ok \<and> opened w' = opened w \<and> m_socket_fd ss' = INVALID_SOCKET"
      if "open_failed env ss1 v = (ok, ss', w')" "opened v = opened w1" for v
      using open_failed_ledger [OF assms(1) _ _ _ that(1), of "opened w"] that(2) n False by (simp add: ss1_def)
    obtain b1 w2 where c1: "setsockopt_ex (os_of env) w1 fd SO_REUSEADDR 1 = (b1, w2)" by fastforce
    obtain b2 w3 where c2: "bind_ex (os_of env) w2 fd \<lparr>sin_addr = (case ip of Some a \<Rightarrow> a | None \<Rightarrow> INADDR_ANY), sin_port = port\<rparr> = (b2, w3)"
      by fastforce
    obtain b3 w4 where c3: "setsockopt_ex (os_of env) w3 fd SO_SNDBUF 0xFFFF = (b3, w4)" by fastforce
    obtain b4 w5 where c4: "setsockopt_ex (os_of env) w4 fd SO_RCVBUF 0xFFFF = (b4, w5)" by fastforce
    obtain b5 w6 where c5: "listen_ex (os_of env) w5 fd 15 = (b5, w6)" by fastforce
    obtain b6 w7 where c6: "set_non_block (os_of env) w6 fd True = (b6, w7)" by fastforce
    have k: "opened w2 = opened w1" "opened w3 = opened w1" "opened w4 = opened w1" "opened w5 = opened w1"
        "opened w6 = opened w1" "opened w7 = opened w1"
      using u(1) [of w1 fd SO_REUSEADDR 1] u(2) [of w2 fd "\<lparr>sin_addr = (case ip of Some a \<Rightarrow> a | None \<Rightarrow> INADDR_ANY), sin_port = port\<rparr>"]
        u(1) [of w3 fd SO_SNDBUF "0xFFFF"] u(1) [of w4 fd SO_RCVBUF "0xFFFF"] u(3) [of w5 fd 15] u(4) [of w6 fd True]
        c1 c2 c3 c4 c5 c6 by simp_all
    have o: "(if \<not> b1 then open_failed env ss1 w2 else if \<not> b2 then open_failed env ss1 w3
        else if \<not> b3 then open_failed env ss1 w4 else if \<not> b4 then open_failed env ss1 w5
        else if \<not> b5 then open_failed env ss1 w6 else if \<not> b6 then open_failed env ss1 w7 else (True, ss1, w7)) = (ok, ss', w')"
      using assms(2) fd False unfolding server_open_def
      by (simp only: socket_ex_def os_of_calls fd prod.case Let_def if_False c1 c2 c3 c4 c5 c6 ss1_def)
    show ?thesis
    proof (cases "b1 \<and> b2 \<and> b3 \<and> b4 \<and> b5 \<and> b6")
      case True
      then show ?thesis using o k n False by (auto simp: ss1_def server_valid_def)
    next
      case no: False
      then have "\<exists>v. open_failed env ss1 v = (ok, ss', w') \<and> opened v = opened w1"
        using o k by (cases b1; cases b2; cases b3; cases b4; cases b5; cases b6) auto
      then show ?thesis using f by (auto simp: server_valid_def)
    qed
  qed
qed

definition connected_at :: "cs_store \<Rightarrow> nat \<Rightarrow> int \<Rightarrow> bool" where
  "connected_at st p fd \<longleftrightarrow> cs_fd (st p) = fd \<and> cs_status (st p) = tcp_status_connected"

lemma accept_ledger:
  assumes "descriptors_documented env opened" "server_accept env ss st w = Some (ok, ss', st', w')"
  shows "if ok then \<exists>fd p. fd \<notin> opened w \<and> opened w' = insert fd (opened w) \<and>
           ss' = ss\<lparr>m_ClientContainer := m_ClientContainer ss @ [Some p]\<rparr> \<and> connected_at st' p fd
         else opened w' = opened w \<and> ss' = ss"
proof -
  note u = unchanged_calls [OF assms(1)]
  obtain r rset wset w1 where sel: "os_select env w (m_socket_fd ss + 1) [m_socket_fd ss] [] (0, 1000) = (r, rset, wset, w1)"
    by (metis prod_cases4)
  have w1: "opened w1 = opened w" using u(6) [of w "m_socket_fd ss + 1" "[m_socket_fd ss]" "[]" "(0, 1000)"] sel by simp
  obtain fd peer w2 where acc: "os_accept env w1 (m_socket_fd ss) = (fd, peer, w2)" by (metis prod_cases3)
  show ?thesis
  proof (cases "m_funOnConnect ss \<and> SOCKET_ERROR \<noteq> r \<and> m_socket_fd ss \<in> set rset \<and> fd \<noteq> INVALID_SOCKET")
    case False
    then show ?thesis using assms(2) w1 new_descriptor(4) [OF assms(1)] sel acc
      by (auto simp: server_accept_def accept_sock_def split: if_splits)
  next
    case True
    have n: "fd \<notin> opened w" "opened w2 = insert fd (opened w)"
      using new_descriptor(3) [OF assms(1) acc] True w1 by auto
    obtain nb w3 where nb: "set_non_block (os_of env) w2 fd True = (nb, w3)" by fastforce
    obtain q st1 w4 where cb: "on_connect env (sin_addr peer) (sin_port peer) st w3 = (q, st1, w4)" by (metis prod_cases3)
    have w34: "opened w3 = opened w2" "opened w4 = opened w2"
      using u(4) [of w2 fd True] nb u(7) [of "sin_addr peer" "sin_port peer" st w3] cb by simp_all
    have eq: "(if \<not> nb then Some (False, ss, st, snd (closesocket_ex (os_of env) w3 fd))
        else case q of None \<Rightarrow> Some (False, ss, st1, snd (closesocket_ex (os_of env) w4 fd))
          | Some p \<Rightarrow> let (ok, cs1, w5) = set_fd (sock_of env) (st1 p) fd w4
              in Some (True, ss\<lparr>m_ClientContainer := m_ClientContainer ss @ [Some p]\<rparr>,
                   st1(p := set_ip_info cs1 (sin_addr peer) (sin_port peer)), w5)) = Some (ok, ss', st', w')"
      using assms(2) True sel acc nb cb by (auto simp: server_accept_def accept_sock_def split: if_splits option.splits)
    show ?thesis
    proof (cases "nb \<and> q \<noteq> None")
      case False
      then show ?thesis using eq n w34 u(5) by (auto split: if_splits)
    next
      case ok: True
      then obtain p where p: "q = Some p" by blast
      obtain b w5 where nb2: "set_non_block (os_of env) w4 fd True = (b, w5)" by fastforce
      have "opened w5 = opened w2" using u(4) [of w4 fd True] nb2 w34 by simp
      moreover have "ok \<and> ss' = ss\<lparr>m_ClientContainer := m_ClientContainer ss @ [Some p]\<rparr> \<and> connected_at st' p fd \<and> w' = w5"
        using eq ok p True nb2 by (auto simp: set_fd_def Let_def connected_at_def set_ip_info_def)
      ultimately show ?thesis using n by auto
    qed
  qed
qed

lemma accept_loop_ledger:
  assumes "descriptors_documented env opened" "accept_loop env k n ss st w = Some (m, ss', st', w')"
  shows "\<exists>fds ps. distinct fds \<and> set fds \<inter> opened w = {} \<and> opened w' = opened w \<union> set fds \<and>
    m = n + int (length fds) \<and> length fds \<le> k \<and> length ps = length fds \<and>
    ss' = ss\<lparr>m_ClientContainer := m_ClientContainer ss @ map Some ps\<rparr>"
  using assms(2)
proof (induction k arbitrary: n ss st w)
  case 0
  have "distinct ([] :: int list) \<and> set [] \<inter> opened w = {} \<and> opened w' = opened w \<union> set [] \<and>
      m = n + int (length ([] :: int list)) \<and> length ([] :: int list) \<le> 0 \<and> length ([] :: nat list) = length ([] :: int list) \<and>
      ss' = ss\<lparr>m_ClientContainer := m_ClientContainer ss @ map Some []\<rparr>"
    using 0 by simp
  then show ?case by blast
next
  case (Suc k)
  obtain ok ss1 st1 w1 where a: "server_accept env ss st w = Some (ok, ss1, st1, w1)"
    using Suc.prems by (auto split: option.splits)
  note l = accept_ledger [OF assms(1) a]
  show ?case
  proof (cases ok)
    case False
    then have "opened w' = opened w \<and> ss' = ss\<lparr>m_ClientContainer := m_ClientContainer ss @ map Some []\<rparr> \<and> m = n"
      using l Suc.prems a by simp
    then show ?thesis by (intro exI [of _ "[]"] conjI) auto
  next
    case True
    then obtain fd p where fd: "fd \<notin> opened w" "opened w1 = insert fd (opened w)"
        "ss1 = ss\<lparr>m_ClientContainer := m_ClientContainer ss @ [Some p]\<rparr>"
      using l by auto
    have "accept_loop env k (n + 1) ss1 st1 w1 = Some (m, ss', st', w')" using Suc.prems a True by simp
    from Suc.IH [OF this] obtain fds ps where r: "distinct fds" "set fds \<inter> opened w1 = {}"
        "opened w' = opened w1 \<union> set fds" "m = n + 1 + int (length fds)" "length fds \<le> k" "length ps = length fds"
        "ss' = ss1\<lparr>m_ClientContainer := m_ClientContainer ss1 @ map Some ps\<rparr>"
      by auto
    have "distinct (fd # fds) \<and> set (fd # fds) \<inter> opened w = {} \<and> opened w' = opened w \<union> set (fd # fds) \<and>
        m = n + int (length (fd # fds)) \<and> length (fd # fds) \<le> Suc k \<and> length (p # ps) = length (fd # fds) \<and>
        ss' = ss\<lparr>m_ClientContainer := m_ClientContainer ss @ map Some (p # ps)\<rparr>"
      using r fd by auto
    then show ?thesis by blast
  qed
qed

text \<open>whatever happens to each attempt, a pass that accepts adds one open descriptor and one entry at
  the end of the container per connection counted, at most as many as asked for; a descriptor that
  could not be handed to a connection is closed again, and no other one is closed.\<close>

theorem accept_ex_descriptors:
  assumes "descriptors_documented env opened" "server_accept_ex env n ss st w = Some (count, ss', st', w')"
  shows "\<exists>fds ps. distinct fds \<and> set fds \<inter> opened w = {} \<and> opened w' = opened w \<union> set fds \<and>
    count = int (length fds) \<and> length fds \<le> nat n \<and> length ps = length fds \<and>
    ss' = ss\<lparr>m_ClientContainer := m_ClientContainer ss @ map Some ps\<rparr>"
  using accept_loop_ledger [OF assms(1)] assms(2) unfolding server_accept_ex_def by fastforce

text \<open>A small world for the witnesses: the list of the open descriptors.\<close>

definition fresh_fd :: "int list \<Rightarrow> int" where "fresh_fd w = foldr max w 2 + 1"

lemma fresh_fd_above: "s \<in> set w \<Longrightarrow> s < fresh_fd w" "2 < fresh_fd w"
proof -
  have "2 \<le> foldr max w (2 :: int) \<and> (\<forall>s \<in> set w. s \<le> foldr max w 2)" by (induction w) auto
  then show "s \<in> set w \<Longrightarrow> s < fresh_fd w" "2 < fresh_fd w" by (auto simp: fresh_fd_def)
qed

definition demo_server :: "int list server_env" where
  "demo_server = \<lparr>os_socket = (\<lambda>w a b c. (fresh_fd w, fresh_fd w # w)), os_listen = (\<lambda>w s n. (0, w)), os_bind = (\<lambda>w s a. (0, w)),
     os_accept = (\<lambda>w s. (fresh_fd w, \<lparr>sin_addr = 1, sin_port = 80\<rparr>, fresh_fd w # w)), os_close = (\<lambda>w s. (0, filter (\<lambda>x. x \<noteq> s) w)),
     os_getfl = (\<lambda>w s. 0), os_setfl = (\<lambda>w s f. (0, w)), os_setsockopt = (\<lambda>w s a b. (0, w)), os_getsockopt = (\<lambda>w s a. (0, 0)),
     os_connect = (\<lambda>w s a. (0, w)), os_select = (\<lambda>w n r v t. (1, r, v, w)), os_recv = (\<lambda>w s n. (RecvError, w)),
     os_send = (\<lambda>w s b. (SendError, w)), os_errno = (\<lambda>w. EAGAIN), on_disconnect = (\<lambda>c w. (c, w)),
     on_recv_message = (\<lambda>c b w. (0, c, w)),
     on_connect = (\<lambda>ip port st w. (if length w < 3 then Some (length w) else None, st, w))\<rparr>"

lemma demo_server_descriptors: "descriptors_documented demo_server set"
proof -
  have f: "fresh_fd w \<notin> set w" "fresh_fd w \<noteq> - 1" for w using fresh_fd_above(1) [where w = w] fresh_fd_above(2) [of w] by fastforce+
  show ?thesis by (auto simp: descriptors_documented_def demo_server_def INVALID_SOCKET_def f f(2) [symmetric])
qed

theorem server_open_descriptors_witness:
  "\<exists>ss'. server_open demo_server ServerSocket_new 80 None [5] = (True, ss', [6, 5]) \<and> set [6, 5] = insert (m_socket_fd ss') (set [5])"
proof -
  obtain ok ss' w' where r: "server_open demo_server ServerSocket_new 80 None [5] = (ok, ss', w')" by (metis prod_cases3)
  have "ok \<and> w' = [6, 5]" using r
    by (simp add: server_open_def socket_ex_def demo_server_def fresh_fd_def setsockopt_ex_def bind_ex_def listen_ex_def
        set_non_block_def INVALID_SOCKET_def SOCKET_ERROR_def Let_def split: if_splits)
  then show ?thesis using server_open_descriptors [OF demo_server_descriptors r] r by auto
qed

theorem accept_ex_descriptors_witness:
  "\<exists>ss' st' w'. server_accept_ex demo_server 5 (ServerSocket_new\<lparr>m_socket_fd := 3, m_funOnConnect := True\<rparr>) (\<lambda>_. ClientSocket_new) [3]
      = Some (1, ss', st', w') \<and> (\<exists>fd. fd \<noteq> 3 \<and> set w' = {3, fd})"
proof -
  let ?ss = "ServerSocket_new\<lparr>m_socket_fd := 3, m_funOnConnect := True\<rparr>"
  have "\<exists>ss' st' w'. server_accept_ex demo_server 5 ?ss (\<lambda>_. ClientSocket_new) [3] = Some (1, ss', st', w')"
    by (simp add: server_accept_ex_def numeral_eq_Suc server_accept_def demo_server_def fresh_fd_def accept_sock_def
        fd_fits_def FD_SETSIZE_def ServerSocket_new_def INVALID_SOCKET_def SOCKET_ERROR_def set_non_block_def set_fd_def Let_def)
  then obtain ss' st' w' where r: "server_accept_ex demo_server 5 ?ss (\<lambda>_. ClientSocket_new) [3] = Some (1, ss', st', w')"
    by blast
  obtain fds where "distinct fds" "set fds \<inter> {3} = {}" "set w' = {3} \<union> set fds" "length fds = 1"
    using accept_ex_descriptors [OF demo_server_descriptors r] by auto
  then show ?thesis using r by (cases fds) auto
qed

section \<open>A receiving pass\<close>

definition live :: "cs_store \<Rightarrow> nat option \<Rightarrow> bool" where
  "live st c = (case c of None \<Rightarrow> False | Some p \<Rightarrow> cs_valid (st p))"

lemma live_simps [simp]: "live st None = False" "live st (Some p) = cs_valid (st p)"
  by (simp_all add: live_def)

lemma valid_connected: "cs_valid cs \<longleftrightarrow> connected cs"
  by (auto simp: cs_valid_def connected_def)

lemma recv_scan_spec:
  assumes "\<And>p. Some p \<in> set cs \<Longrightarrow> cs_valid (st p) \<Longrightarrow> fd_fits (cs_fd (st p))"
  shows "\<exists>m1. recv_scan st cs fds m = Some (filter (live st) cs, fds @ map (\<lambda>c. cs_fd (st (the c))) (filter (live st) cs), m1)"
  using assms
proof (induction cs arbitrary: fds m)
  case Nil
  then show ?case by simp
next
  case (Cons c cs)
  have IH: "\<exists>m1. recv_scan st cs f k = Some (filter (live st) cs, f @ map (\<lambda>c. cs_fd (st (the c))) (filter (live st) cs), m1)" for f k
    using Cons by simp
  show ?case
  proof (cases "live st c")
    case False
    then show ?thesis using IH [of fds m] by (cases c) auto
  next
    case True
    then obtain p where p: "c = Some p" "cs_valid (st p)" by (cases c) auto
    then have "fd_fits (cs_fd (st p))" using Cons.prems by simp
    then show ?thesis
      using p IH [of "fds @ [cs_fd (st p)]" "if cs_fd (st p) > m then cs_fd (st p) else m"]
      by (auto simp: get_fd_def)
  qed
qed

text \<open>A connection ready to be served, and what the environment promises to all of them.\<close>

definition served :: "client_socket \<Rightarrow> bool" where
  "served cs \<longleftrightarrow> connected cs \<and> recv_ok cs \<and> m_funOnRecvMessage cs \<and> fd_fits (cs_fd cs)"

definition streams_documented :: "'w server_env \<Rightarrow> ('w \<Rightarrow> tbyte list) \<Rightarrow> bool" where
  "streams_documented env got \<longleftrightarrow> (\<forall>s. recv_documented (os_of env) got s) \<and> callback_documented (sock_of env) got"

lemma recv_one:
  assumes "streams_documented env got" "served cs"
  shows "\<exists>ok cs' w'. cs_recv_ex (sock_of env) cs w = Some (ok, cs', w') \<and>
    (cs' = ClientSocket_new \<or> served cs' \<and> cs_fd cs' = cs_fd cs)"
proof -
  have "recv_documented (net_os.truncate (sock_of env)) got (cs_fd cs)" "callback_documented (sock_of env) got"
    using assms(1) by (simp_all add: streams_documented_def)
  moreover have "connected cs" "recv_ok cs" "m_funOnRecvMessage cs" "fd_fits (cs_fd cs)"
    using assms(2) by (simp_all add: served_def)
  ultimately obtain ok cs' w' where r: "cs_recv_ex (sock_of env) cs w = Some (ok, cs', w')"
      "cs' = ClientSocket_new \<or> recv_ok cs' \<and> (\<exists>b l. cs' = cs\<lparr>m_recv_buffer := Some b, m_recv_buffer_len := l\<rparr>)"
    using recv_ex_step [of "sock_of env" got cs w] by blast
  then show ?thesis using assms(2) by (auto simp: served_def connected_def)
qed

lemma recv_ready_spec:
  assumes "streams_documented env got" "distinct cs" "\<And>c. c \<in> set cs \<Longrightarrow> \<exists>p. c = Some p \<and> served (st p)"
  shows "\<exists>st' w'. recv_ready env rset cs st w = Some (st', w') \<and>
    (\<forall>p. Some p \<notin> set cs \<or> cs_fd (st p) \<notin> set rset \<longrightarrow> st' p = st p) \<and>
    (\<forall>p. Some p \<in> set cs \<longrightarrow> st' p = ClientSocket_new \<or> served (st' p) \<and> cs_fd (st' p) = cs_fd (st p))"
  using assms(2,3)
proof (induction cs arbitrary: st w)
  case Nil
  then show ?case by simp
next
  case (Cons c cs)
  obtain p where p: "c = Some p" "served (st p)" using Cons.prems(2) [of c] by auto
  have fits: "fd_fits (cs_fd (st p))" using p(2) by (simp add: served_def)
  have notin: "Some p \<notin> set cs" using Cons.prems(1) p by simp
  show ?case
  proof (cases "cs_fd (st p) \<in> set rset")
    case False
    obtain st' w' where r: "recv_ready env rset cs st w = Some (st', w')"
        "\<forall>q. Some q \<notin> set cs \<or> cs_fd (st q) \<notin> set rset \<longrightarrow> st' q = st q"
        "\<forall>q. Some q \<in> set cs \<longrightarrow> st' q = ClientSocket_new \<or> served (st' q) \<and> cs_fd (st' q) = cs_fd (st q)"
      using Cons.IH [of st w] Cons.prems by auto
    then show ?thesis using False p fits notin by (auto simp: get_fd_def)
  next
    case True
    obtain ok c1 w1 where o: "cs_recv_ex (sock_of env) (st p) w = Some (ok, c1, w1)"
        "c1 = ClientSocket_new \<or> served c1 \<and> cs_fd c1 = cs_fd (st p)"
      using recv_one [OF assms(1) p(2)] by blast
    have "\<exists>q. d = Some q \<and> served ((st(p := c1)) q)" if "d \<in> set cs" for d
      using Cons.prems(2) [of d] that notin by auto
    from Cons.IH [OF _ this, of w1] obtain st' w' where r: "recv_ready env rset cs (st(p := c1)) w1 = Some (st', w')"
        "\<forall>q. Some q \<notin> set cs \<or> cs_fd ((st(p := c1)) q) \<notin> set rset \<longrightarrow> st' q = (st(p := c1)) q"
        "\<forall>q. Some q \<in> set cs \<longrightarrow> st' q = ClientSocket_new \<or> served (st' q) \<and> cs_fd (st' q) = cs_fd ((st(p := c1)) q)"
      using Cons.prems(1) distinct.simps(2) by meson
    have "recv_ready env rset (c # cs) st w = Some (st', w')" using r(1) o p fits True by (simp add: get_fd_def)
    moreover have same: "st' q = st q" if "Some q \<notin> set (c # cs) \<or> cs_fd (st q) \<notin> set rset" for q
    proof -
      have "q \<noteq> p" using that p True by auto
      then show ?thesis using r(2) [rule_format, of q] that p by auto
    qed
    moreover have "st' q = ClientSocket_new \<or> served (st' q) \<and> cs_fd (st' q) = cs_fd (st q)" if "Some q \<in> set (c # cs)" for q
    proof (cases "q = p")
      case True
      have "st' p = c1" using r(2) [rule_format, of p] notin by simp
      then show ?thesis using True o(2) by blast
    next
      case False
      then show ?thesis using r(3) [rule_format, of q] that p by simp
    qed
    ultimately show ?thesis by blast
  qed
qed


definition demo_recv_server :: "demo_net server_env" where
  "demo_recv_server = socket_env.extend demo_env (server_env.fields (\<lambda>ip port st w. (None, st, w)))"

lemma demo_recv_server_parts: "os_of demo_recv_server = net_os.truncate demo_env" "sock_of demo_recv_server = demo_env"
  by (simp_all add: demo_recv_server_def net_os.truncate_def socket_env.truncate_def socket_env.extend_def server_env.fields_def demo_env_def)


end
