(* ===== verification/CNumbers.thy ===== *)
theory CNumbers
  imports Text
begin

text \<open>
  What the sources use of the C library to read numbers from text: \<open>atoi\<close>, \<open>atoll\<close> and the \<open>%u\<close> and
  \<open>%lu\<close> conversions of \<open>sscanf\<close>, as the GNU library has them: blanks, a sign and decimal digits are
  read, a value outside the range of a 64 bit integer is replaced by the nearest one, and the
  result is cut to the width of the type. A C string ends at its first NUL.
\<close>

section \<open>Definitions\<close>

definition is_space :: "char \<Rightarrow> bool" where
  "is_space c \<longleftrightarrow> c = CHR '' '' \<or> (9 \<le> (of_char c :: nat) \<and> (of_char c :: nat) \<le> 13)"

definition is_digit :: "char \<Rightarrow> bool" where
  "is_digit c \<longleftrightarrow> 48 \<le> (of_char c :: nat) \<and> (of_char c :: nat) \<le> 57"

definition digit_val :: "char \<Rightarrow> nat" where
  "digit_val c = of_char c - 48"

definition c_string :: "string \<Rightarrow> string" where
  "c_string s = takeWhile (\<lambda>c. c \<noteq> CHR 0x00) s"

definition digits_nat :: "string \<Rightarrow> nat" where
  "digits_nat s = foldl (\<lambda>v c. digit_val c + 10 * v) 0 (takeWhile is_digit s)"

text \<open>The sign and the rest after blanks; then the value before it is brought into range.\<close>

definition sign_split :: "string \<Rightarrow> bool \<times> string" where
  "sign_split s =
     (case dropWhile is_space s of
        [] \<Rightarrow> (False, [])
      | c # rest \<Rightarrow> if c = CHR ''-'' then (True, rest) else if c = CHR ''+'' then (False, rest) else (False, c # rest))"

definition strtol_10 :: "string \<Rightarrow> int" where
  "strtol_10 s =
     (let (neg, digits) = sign_split (c_string s);
          v = (if neg then - int (digits_nat digits) else int (digits_nat digits))
      in max (- (2 ^ 63)) (min (2 ^ 63 - 1) v))"

definition atoi :: "string \<Rightarrow> 32 word" where "atoi s = word_of_int (strtol_10 s)"
definition atoll :: "string \<Rightarrow> 64 word" where "atoll s = word_of_int (strtol_10 s)"

text \<open>\<open>None\<close> when no digit is found: the conversion fails and stores nothing.\<close>

definition scan_unsigned :: "string \<Rightarrow> 64 word option" where
  "scan_unsigned s =
     (let (neg, digits) = sign_split (c_string s); n = digits_nat digits
      in if takeWhile is_digit digits = [] then None
         else if n \<ge> 2 ^ 64 then Some (- 1)
         else Some (if neg then - word_of_nat n else word_of_nat n))"

section \<open>Reading back decimal text\<close>

lemma digit_char_value: "d < 10 \<Longrightarrow> digit_val (digit_char d) = d \<and> is_digit (digit_char d)"
  by (simp add: digit_val_def digit_char_def is_digit_def)

lemma digit_props: "is_digit c \<Longrightarrow> \<not> is_space c \<and> c \<noteq> CHR ''-'' \<and> c \<noteq> CHR ''+'' \<and> c \<noteq> CHR 0x00"
  by (auto simp: is_digit_def is_space_def)

lemma show_nat_digits: "list_all is_digit (show_nat n)" "show_nat n \<noteq> []"
proof -
  have "\<And>d. d \<in> set (digits_rev 10 n) \<Longrightarrow> d < 10" by (rule digits_rev_bound) simp_all
  then show "list_all is_digit (show_nat n)" by (auto simp: show_nat_def list_all_iff digit_char_value)
  show "show_nat n \<noteq> []" by (subst show_nat_def, subst digits_rev.simps) simp
qed

lemma takeWhile_list_all: "list_all P xs \<Longrightarrow> takeWhile P xs = xs"
  by (simp add: list_all_iff takeWhile_eq_all_conv)

lemma digits_nat_show: "digits_nat (show_nat n) = n"
proof -
  have "digits_nat (show_nat n) = foldl (\<lambda>v c. digit_val c + 10 * v) 0 (show_nat n)"
    by (simp add: digits_nat_def takeWhile_list_all show_nat_digits)
  also have "\<dots> = foldr (\<lambda>d v. digit_val (digit_char d) + 10 * v) (digits_rev 10 n) 0"
    by (simp add: show_nat_def foldl_conv_foldr rev_map foldr_map comp_def)
  also have "\<dots> = foldr (\<lambda>d v. d + 10 * v) (digits_rev 10 n) 0"
    by (rule foldr_cong) (simp_all add: digit_char_value digits_rev_bound)
  finally show ?thesis by (simp add: digits_rev_value)
qed

lemma c_string_digits: "list_all is_digit s \<Longrightarrow> c_string s = s"
  unfolding c_string_def by (rule takeWhile_list_all) (auto simp: list_all_iff digit_props)

lemma sign_split_digits: "list_all is_digit s \<Longrightarrow> sign_split s = (False, s)"
  by (cases s) (auto simp: sign_split_def digit_props)

lemma sign_split_show: "sign_split (c_string (show_int i)) = (i < 0, show_nat (nat \<bar>i\<bar>))"
proof (cases "i < 0")
  case True
  have "c_string (CHR ''-'' # show_nat n) = CHR ''-'' # show_nat n" for n
    using c_string_digits [OF show_nat_digits(1)] by (simp add: c_string_def)
  then show ?thesis using True by (simp add: show_int_def sign_split_def is_space_def)
next
  case False
  then show ?thesis by (simp add: show_int_def c_string_digits sign_split_digits show_nat_digits)
qed

lemma strtol_show: "- (2 ^ 63) \<le> i \<Longrightarrow> i < 2 ^ 63 \<Longrightarrow> strtol_10 (show_int i) = i"
  by (auto simp: strtol_10_def sign_split_show digits_nat_show)

lemma scan_show: "n < 2 ^ 64 \<Longrightarrow> scan_unsigned (show_nat n) = Some (word_of_nat n)"
  using sign_split_show [of "int n"] show_nat_digits [of n]
  by (simp add: scan_unsigned_def show_int_def digits_nat_show takeWhile_list_all)

end
