(* ===== verification/SqlCursor.thy ===== *)
theory SqlCursor
  imports CNumbers
begin

text \<open>
  What a program that reads a query's result relies on, whichever database it comes from: fetching
  moves to the next row and says whether there is one, and reading a column gives the next value of
  the row. The client's fact, that a loop over both gives all the rows, is proved once; the result
  classes of SQLite and MySQL provide the interface.
\<close>

type_synonym sql_cell = "string option"

text \<open>A loop over \<open>n\<close> columns, and over the rows, with a bound on the number of fetches.\<close>

fun cursor_columns :: "('c \<Rightarrow> (sql_cell \<times> 'c) option) \<Rightarrow> nat \<Rightarrow> 'c \<Rightarrow> (sql_cell list \<times> 'c) option" where
  "cursor_columns column 0 c = Some ([], c)"
| "cursor_columns column (Suc n) c =
     (case column c of
        None \<Rightarrow> None
      | Some (v, c1) \<Rightarrow>
          (case cursor_columns column n c1 of None \<Rightarrow> None | Some (vs, c2) \<Rightarrow> Some (v # vs, c2)))"

fun cursor_rows :: "('c \<Rightarrow> bool \<times> 'c) \<Rightarrow> ('c \<Rightarrow> (sql_cell \<times> 'c) option) \<Rightarrow> nat \<Rightarrow> nat \<Rightarrow> 'c \<Rightarrow> sql_cell list list option" where
  "cursor_rows fetch column n 0 c = None"
| "cursor_rows fetch column n (Suc k) c =
     (let (more, c1) = fetch c
      in if \<not> more then Some []
         else case cursor_columns column n c1 of
                None \<Rightarrow> None
              | Some (vs, c2) \<Rightarrow>
                  (case cursor_rows fetch column n k c2 of None \<Rightarrow> None | Some rest \<Rightarrow> Some (vs # rest)))"

locale sql_cursor =
  fixes fetch :: "'c \<Rightarrow> bool \<times> 'c"
    and column :: "'c \<Rightarrow> (sql_cell \<times> 'c) option"
    and rows_left :: "'c \<Rightarrow> sql_cell list list"
    and row_rest :: "'c \<Rightarrow> sql_cell list"
    and invar :: "'c \<Rightarrow> bool"
  assumes fetch_more: "invar c \<Longrightarrow> rows_left c = r # rs \<Longrightarrow>
      \<exists>c'. fetch c = (True, c') \<and> invar c' \<and> rows_left c' = rs \<and> row_rest c' = r"
    and fetch_done: "invar c \<Longrightarrow> rows_left c = [] \<Longrightarrow> \<not> fst (fetch c)"
    and column_next: "invar c \<Longrightarrow> row_rest c = v # vs \<Longrightarrow>
      \<exists>c'. column c = Some (v, c') \<and> invar c' \<and> rows_left c' = rows_left c \<and> (vs \<noteq> [] \<longrightarrow> row_rest c' = vs)"
begin

lemma columns_row:
  assumes "invar c" "0 < n \<longrightarrow> row_rest c = vs" "n \<le> length vs"
  shows "\<exists>c'. cursor_columns column n c = Some (take n vs, c') \<and> invar c' \<and> rows_left c' = rows_left c"
  using assms
proof (induction n arbitrary: c vs)
  case 0
  then show ?case by simp
next
  case (Suc n)
  then obtain v vs' where vs: "vs = v # vs'" by (cases vs) auto
  obtain c1 where c1: "column c = Some (v, c1)" "invar c1" "rows_left c1 = rows_left c" "vs' \<noteq> [] \<longrightarrow> row_rest c1 = vs'"
    using column_next [of c v vs'] Suc.prems vs by auto
  have "0 < n \<longrightarrow> row_rest c1 = vs'" "n \<le> length vs'" using c1(4) Suc.prems(3) vs by auto
  from Suc.IH [OF c1(2) this] show ?case using c1 vs by auto
qed

lemma rows_all:
  assumes "invar c" "rows_left c = rows" "\<forall>r \<in> set rows. length r = n" "length rows < k"
  shows "cursor_rows fetch column n k c = Some rows"
  using assms
proof (induction rows arbitrary: c k)
  case Nil
  then obtain k' where "k = Suc k'" by (cases k) auto
  then show ?case using fetch_done [of c] Nil.prems by (cases "fetch c") simp
next
  case (Cons r rs)
  then obtain k' where k: "k = Suc k'" by (cases k) auto
  obtain c1 where c1: "fetch c = (True, c1)" "invar c1" "rows_left c1 = rs" "row_rest c1 = r"
    using fetch_more [of c r rs] Cons.prems by auto
  obtain c2 where c2: "cursor_columns column n c1 = Some (r, c2)" "invar c2" "rows_left c2 = rs"
    using columns_row [OF c1(2), of n r] c1 Cons.prems(3) by auto
  have "cursor_rows fetch column n k' c2 = Some rs"
    using Cons.IH [OF c2(2,3)] Cons.prems k by simp
  then show ?case using c1 c2 k by simp
qed

end

end
