(* ===== verification/SqliteResult.thy ===== *)
theory SqliteResult
  imports SqlCursor
begin

text \<open>
  Result tables of SQLite: \<open>include/db/sqlite_result.h\<close>, \<open>src/db/sqlite_result.cpp\<close>. A table is the array
  \<open>sqlite3_get_table\<close> gives: the column names, then the rows, one after the other, \<open>None\<close> for a null
  entry. A read through a null table or outside the array is the value \<open>None\<close>. \<open>atof\<close> and the
  conversion of a \<open>double\<close> to a \<open>float\<close> are parameters.
\<close>

section \<open>State\<close>

record sqlite_result =
  sq_result :: "sql_cell list option"
  sq_row_count :: nat
  sq_col_count :: nat
  sq_current_row :: nat
  sq_current_col :: nat

definition SQLite_Result_new :: sqlite_result where
  "SQLite_Result_new = \<lparr>sq_result = None, sq_row_count = 0, sq_col_count = 0, sq_current_row = 0, sq_current_col = 0\<rparr>"

text \<open>\<open>sqlite3_free_table\<close> is the table given back beside the object.\<close>

definition sqlite_destroy :: "sqlite_result \<Rightarrow> sql_cell list option" where
  "sqlite_destroy r = sq_result r"

definition sqlite_free_result :: "sqlite_result \<Rightarrow> sqlite_result \<times> sql_cell list option" where
  "sqlite_free_result r =
     (case sq_result r of
        None \<Rightarrow> (r, None)
      | Some t \<Rightarrow> (r\<lparr>sq_result := None, sq_row_count := 0, sq_col_count := 0, sq_current_row := 0, sq_current_col := 0\<rparr>, Some t))"

definition sqlite_set_result :: "sqlite_result \<Rightarrow> sql_cell list option \<Rightarrow> nat \<Rightarrow> nat \<Rightarrow> sqlite_result \<times> sql_cell list option" where
  "sqlite_set_result r result row_count col_count =
     (let (r1, freed) = (if sq_result r \<noteq> None then sqlite_free_result r else (r, None))
      in (r1\<lparr>sq_result := result, sq_row_count := row_count, sq_col_count := col_count, sq_current_row := 0, sq_current_col := 0\<rparr>, freed))"

definition sqlite_is_null :: "sqlite_result \<Rightarrow> bool" where
  "sqlite_is_null r = (if sq_result r = None then True else False)"

definition sqlite_fetch_next_row :: "sqlite_result \<Rightarrow> bool \<times> sqlite_result" where
  "sqlite_fetch_next_row r =
     (if sq_result r = None then (False, r)
      else if sq_current_row r < sq_row_count r
      then (True, r\<lparr>sq_current_row := sq_current_row r + 1, sq_current_col := 0\<rparr>)
      else (False, r))"

section \<open>Reading values\<close>

definition sqlite_cell :: "sqlite_result \<Rightarrow> sql_cell option" where
  "sqlite_cell r =
     (let i = sq_current_row r * sq_col_count r + sq_current_col r
      in case sq_result r of None \<Rightarrow> None | Some t \<Rightarrow> if i < length t then Some (t ! i) else None)"

text \<open>
  The body the stream operators share: the value read, or the old one when the entry is null or the
  columns are used up.
\<close>

definition sqlite_read :: "(string \<Rightarrow> 'a) \<Rightarrow> sqlite_result \<Rightarrow> 'a \<Rightarrow> ('a \<times> sqlite_result) option" where
  "sqlite_read conv r val =
     (if sq_current_row r \<le> sq_row_count r \<and> sq_current_col r < sq_col_count r
      then case sqlite_cell r of
             None \<Rightarrow> None
           | Some c \<Rightarrow>
               Some (case c of None \<Rightarrow> val | Some s \<Rightarrow> conv s, r\<lparr>sq_current_col := sq_current_col r + 1\<rparr>)
      else Some (val, r))"

definition sqlite_int8 :: "sqlite_result \<Rightarrow> 8 word \<Rightarrow> (8 word \<times> sqlite_result) option" where
  "sqlite_int8 = sqlite_read (\<lambda>s. ucast (atoi s))"
definition sqlite_int16 :: "sqlite_result \<Rightarrow> 16 word \<Rightarrow> (16 word \<times> sqlite_result) option" where
  "sqlite_int16 = sqlite_read (\<lambda>s. ucast (atoi s))"
definition sqlite_int32 :: "sqlite_result \<Rightarrow> 32 word \<Rightarrow> (32 word \<times> sqlite_result) option" where
  "sqlite_int32 = sqlite_read atoi"
definition sqlite_int64 :: "sqlite_result \<Rightarrow> 64 word \<Rightarrow> (64 word \<times> sqlite_result) option" where
  "sqlite_int64 = sqlite_read atoll"
definition sqlite_uint8 :: "sqlite_result \<Rightarrow> 8 word \<Rightarrow> (8 word \<times> sqlite_result) option" where
  "sqlite_uint8 = sqlite_read (\<lambda>s. ucast (atoi s))"
definition sqlite_uint16 :: "sqlite_result \<Rightarrow> 16 word \<Rightarrow> (16 word \<times> sqlite_result) option" where
  "sqlite_uint16 = sqlite_read (\<lambda>s. ucast (atoi s))"
definition sqlite_uint32 :: "sqlite_result \<Rightarrow> 32 word \<Rightarrow> (32 word \<times> sqlite_result) option" where
  "sqlite_uint32 = sqlite_read (\<lambda>s. ucast (atoll s))"
definition sqlite_uint64 :: "sqlite_result \<Rightarrow> 64 word \<Rightarrow> (64 word \<times> sqlite_result) option" where
  "sqlite_uint64 = sqlite_read atoll"
definition sqlite_float :: "(string \<Rightarrow> 'd) \<Rightarrow> ('d \<Rightarrow> 'f) \<Rightarrow> sqlite_result \<Rightarrow> 'f \<Rightarrow> ('f \<times> sqlite_result) option" where
  "sqlite_float atof to_float = sqlite_read (\<lambda>s. to_float (atof s))"
definition sqlite_double :: "(string \<Rightarrow> 'd) \<Rightarrow> sqlite_result \<Rightarrow> 'd \<Rightarrow> ('d \<times> sqlite_result) option" where
  "sqlite_double atof = sqlite_read atof"
definition sqlite_text :: "sqlite_result \<Rightarrow> string \<Rightarrow> (string \<times> sqlite_result) option" where
  "sqlite_text = sqlite_read (\<lambda>s. s)"

text \<open>
  \<open>get_string\<close> into a buffer (\<open>None\<close> for a null pointer) whose length the caller states: the text and
  its NUL are copied when they fit the stated length. The overload for \<open>unsigned char\<close> is the same.
\<close>

definition sqlite_get_string :: "sqlite_result \<Rightarrow> string option \<Rightarrow> nat \<Rightarrow> (string option \<times> sqlite_result) option" where
  "sqlite_get_string r buff buff_len =
     (if buff \<noteq> None \<and> sq_current_row r \<le> sq_row_count r \<and> sq_current_col r < sq_col_count r
      then case sqlite_cell r of
             None \<Rightarrow> None
           | Some c \<Rightarrow>
               let r1 = r\<lparr>sq_current_col := sq_current_col r + 1\<rparr>
               in (case c of
                     None \<Rightarrow> Some (buff, r1)
                   | Some s \<Rightarrow>
                       if buff_len > length s
                       then (if length s < length (the buff)
                             then Some (Some (s @ CHR 0x00 # drop (length s + 1) (the buff)), r1)
                             else None)
                       else Some (buff, r1))
      else Some (buff, r))"

definition sqlite_get_ustring :: "sqlite_result \<Rightarrow> string option \<Rightarrow> nat \<Rightarrow> (string option \<times> sqlite_result) option" where
  "sqlite_get_ustring = sqlite_get_string"

section \<open>Reading a whole table\<close>

text \<open>A table of \<open>rows\<close> under \<open>header\<close>, the way the library lays it out.\<close>

definition table_of :: "sql_cell list \<Rightarrow> sql_cell list list \<Rightarrow> sql_cell list" where
  "table_of header rows = header @ concat rows"

definition shaped :: "sql_cell list \<Rightarrow> sql_cell list list \<Rightarrow> bool" where
  "shaped header rows \<longleftrightarrow> (\<forall>row \<in> set rows. length row = length header)"

text \<open>The object after \<open>set_result\<close> of such a table and \<open>i\<close> fetched rows.\<close>

definition at_row :: "sql_cell list \<Rightarrow> sql_cell list list \<Rightarrow> nat \<Rightarrow> nat \<Rightarrow> sqlite_result" where
  "at_row header rows i j = \<lparr>sq_result = Some (table_of header rows), sq_row_count = length rows,
     sq_col_count = length header, sq_current_row = i, sq_current_col = j\<rparr>"

lemma at_row_fields [simp]:
  "sq_current_row (at_row header rows i j) = i" "sq_row_count (at_row header rows i j) = length rows"
  "sq_current_col (at_row header rows i j) = j" "sq_col_count (at_row header rows i j) = length header"
  "(at_row header rows i j)\<lparr>sq_current_col := k\<rparr> = at_row header rows i k"
  by (simp_all add: at_row_def)

lemma table_nth:
  assumes "shaped header rows" "i < length rows" "j < length header"
  shows "table_of header rows ! (Suc i * length header + j) = rows ! i ! j \<and>
    Suc i * length header + j < length (table_of header rows)"
proof -
  have "concat rs ! (i * n + j) = rs ! i ! j \<and> i * n + j < length (concat rs)"
    if "\<forall>r \<in> set rs. length r = n" "i < length rs" "j < n" for rs :: "'a list list" and i j n
    using that
  proof (induction rs arbitrary: i)
    case Nil
    then show ?case by simp
  next
    case (Cons r rs)
    show ?case
    proof (cases i)
      case 0
      then show ?thesis using Cons.prems by (simp add: nth_append)
    next
      case (Suc k)
      then have "concat rs ! (k * n + j) = rs ! k ! j \<and> k * n + j < length (concat rs)"
        using Cons.IH [of k] Cons.prems by simp
      then show ?thesis using Suc Cons.prems by (simp add: nth_append)
    qed
  qed
  from this [of rows "length header" i j] show ?thesis
    using assms by (simp add: shaped_def table_of_def nth_append)
qed

lemma set_result_at_row:
  "fst (sqlite_set_result r (Some (table_of header rows)) (length rows) (length header)) = at_row header rows 0 0"
  by (simp add: sqlite_set_result_def sqlite_free_result_def at_row_def split: option.splits prod.splits)

lemma fetch_at_row:
  "sqlite_fetch_next_row (at_row header rows i j) =
     (if i < length rows then (True, at_row header rows (Suc i) 0) else (False, at_row header rows i j))"
  by (simp add: sqlite_fetch_next_row_def at_row_def)

lemma cell_at_row:
  "shaped header rows \<Longrightarrow> i < length rows \<Longrightarrow> j < length header \<Longrightarrow>
     sqlite_cell (at_row header rows (Suc i) j) = Some (rows ! i ! j)"
  using table_nth [of header rows i j] by (simp add: sqlite_cell_def at_row_def)

lemma read_at_row:
  assumes "shaped header rows" "i < length rows" "j \<le> length header"
  shows "sqlite_read conv (at_row header rows (Suc i) j) val =
    (if j < length header
     then Some (case rows ! i ! j of None \<Rightarrow> val | Some s \<Rightarrow> conv s, at_row header rows (Suc i) (Suc j))
     else Some (val, at_row header rows (Suc i) j))"
proof (cases "j < length header")
  case True
  have u: "(at_row header rows (Suc i) j)\<lparr>sq_current_col := Suc j\<rparr> = at_row header rows (Suc i) (Suc j)"
    by (simp add: at_row_def)
  have f: "sq_current_row (at_row header rows (Suc i) j) = Suc i" "sq_row_count (at_row header rows (Suc i) j) = length rows"
      "sq_current_col (at_row header rows (Suc i) j) = j" "sq_col_count (at_row header rows (Suc i) j) = length header"
    by (simp_all add: at_row_def)
  show ?thesis using True assms cell_at_row [OF assms(1,2) True] u by (simp add: sqlite_read_def f)
next
  case False
  then show ?thesis by (simp add: sqlite_read_def at_row_def)
qed

text \<open>As a cursor: the rows not fetched yet and the columns not read yet of a table laid out so.\<close>

definition sqlite_column :: "sqlite_result \<Rightarrow> (sql_cell \<times> sqlite_result) option" where
  "sqlite_column r = sqlite_read Some r None"

definition sqlite_table_at :: "sql_cell list \<Rightarrow> sql_cell list list \<Rightarrow> sqlite_result \<Rightarrow> bool" where
  "sqlite_table_at header rows r \<longleftrightarrow>
     (\<exists>i \<le> length rows. \<exists>j \<le> length header. r = at_row header rows i j \<and> shaped header rows)"

definition sqlite_rows_left :: "sql_cell list list \<Rightarrow> sqlite_result \<Rightarrow> sql_cell list list" where
  "sqlite_rows_left rows r = drop (sq_current_row r) rows"

definition sqlite_row_rest :: "sql_cell list list \<Rightarrow> sqlite_result \<Rightarrow> sql_cell list" where
  "sqlite_row_rest rows r = (if sq_current_row r = 0 then [] else drop (sq_current_col r) (rows ! (sq_current_row r - 1)))"

interpretation sq: sql_cursor sqlite_fetch_next_row sqlite_column "sqlite_rows_left rows" "sqlite_row_rest rows"
  "sqlite_table_at header rows" for header rows
proof unfold_locales
  fix c :: sqlite_result and r rs
  assume "sqlite_table_at header rows c" "sqlite_rows_left rows c = r # rs"
  then obtain i j where c: "c = at_row header rows i j" "shaped header rows" and d: "drop i rows = r # rs"
    by (auto simp: sqlite_table_at_def sqlite_rows_left_def)
  have i: "i < length rows" using d by (cases "i < length rows") auto
  then have "rows ! i = r" "drop (Suc i) rows = rs" using d Cons_nth_drop_Suc [of i rows] by auto
  then have "sqlite_rows_left rows (at_row header rows (Suc i) 0) = rs" "sqlite_row_rest rows (at_row header rows (Suc i) 0) = r"
    by (simp_all add: sqlite_rows_left_def sqlite_row_rest_def)
  moreover have "sqlite_table_at header rows (at_row header rows (Suc i) 0)"
    unfolding sqlite_table_at_def using c i by (intro exI [of _ "Suc i"] exI [of _ 0] conjI) auto
  ultimately show "\<exists>c'. sqlite_fetch_next_row c = (True, c') \<and> sqlite_table_at header rows c' \<and>
      sqlite_rows_left rows c' = rs \<and> sqlite_row_rest rows c' = r"
    using i c by (simp add: fetch_at_row)
next
  fix c :: sqlite_result
  assume "sqlite_table_at header rows c" "sqlite_rows_left rows c = []"
  then show "\<not> fst (sqlite_fetch_next_row c)"
    by (auto simp: sqlite_table_at_def sqlite_rows_left_def fetch_at_row)
next
  fix c :: sqlite_result and v vs
  assume a: "sqlite_table_at header rows c" "sqlite_row_rest rows c = v # vs"
  then obtain i j where c: "c = at_row header rows i j" "shaped header rows" "i \<le> length rows" "j \<le> length header"
    by (auto simp: sqlite_table_at_def)
  with a obtain k where k: "i = Suc k" "drop j (rows ! k) = v # vs" by (cases i) (auto simp: sqlite_row_rest_def)
  have l: "length (rows ! k) = length header" using c k by (simp add: shaped_def)
  have j: "j < length header" using k(2) l by (cases "j < length header") auto
  then have v: "rows ! k ! j = v" "drop (Suc j) (rows ! k) = vs" using k(2) l Cons_nth_drop_Suc [of j "rows ! k"] by auto
  have "sqlite_column c = Some (v, at_row header rows i (Suc j))"
    using read_at_row [OF c(2), of k j Some None] c k v j by (cases v) (auto simp: sqlite_column_def)
  moreover have "sqlite_table_at header rows (at_row header rows i (Suc j))"
    unfolding sqlite_table_at_def using c j by (intro exI [of _ i] exI [of _ "Suc j"] conjI) auto
  ultimately show "\<exists>c'. sqlite_column c = Some (v, c') \<and> sqlite_table_at header rows c' \<and>
      sqlite_rows_left rows c' = sqlite_rows_left rows c \<and> (vs \<noteq> [] \<longrightarrow> sqlite_row_rest rows c' = vs)"
    using c k v by (simp add: sqlite_rows_left_def sqlite_row_rest_def)
qed

text \<open>C36: reading text columns row by row after \<open>set_result\<close> gives the rows of the table, null entries
  included, and the header is not among them.\<close>

theorem sqlite_reads_table:
  assumes "shaped header rows" "length rows < k"
  shows "cursor_rows sqlite_fetch_next_row sqlite_column (length header) k
    (fst (sqlite_set_result r (Some (table_of header rows)) (length rows) (length header))) = Some rows"
proof -
  have "sqlite_table_at header rows (at_row header rows 0 0)" using assms(1) by (auto simp: sqlite_table_at_def)
  moreover have "sqlite_rows_left rows (at_row header rows 0 0) = rows" by (simp add: sqlite_rows_left_def)
  ultimately show ?thesis using assms by (simp add: set_result_at_row sq.rows_all shaped_def)
qed

theorem sqlite_reads_table_witness:
  "cursor_rows sqlite_fetch_next_row sqlite_column (length [Some ''id'', Some ''name'']) 3
     (fst (sqlite_set_result SQLite_Result_new (Some (table_of [Some ''id'', Some ''name''] [[Some ''1'', None], [Some ''2'', Some ''b'']]))
        (length [[Some ''1'', None], [Some ''2'', Some ''b'']]) (length [Some ''id'', Some ''name'']))) =
   Some [[Some ''1'', None], [Some ''2'', Some ''b'']]"
  by (rule sqlite_reads_table) (simp_all add: shaped_def)

text \<open>before the first \<open>fetch_next_row\<close> the operators read the header: the value is the number the
  name of the first column stands for, and the column is used up.\<close>

theorem sqlite_header_read:
  assumes "header = Some name # rest"
  shows "sqlite_int32 (fst (sqlite_set_result r (Some (table_of header rows)) (length rows) (length header))) val =
    Some (atoi name, at_row header rows 0 1)"
proof -
  have "sqlite_cell (at_row header rows 0 0) = Some (Some name)"
    using assms by (simp add: sqlite_cell_def at_row_def table_of_def)
  then show ?thesis unfolding set_result_at_row sqlite_int32_def using assms by (simp add: sqlite_read_def)
qed

theorem sqlite_header_read_witness:
  "sqlite_int32 (fst (sqlite_set_result SQLite_Result_new (Some (table_of [Some ''17''] [[Some ''1'']]))
     (length [[Some ''1'']]) (length [Some ''17'']))) 9 = Some (atoi ''17'', at_row [Some ''17''] [[Some ''1'']] 0 1)"
  by (rule sqlite_header_read) (rule refl)

lemma atoi_show: "- (2 ^ 63) \<le> i \<Longrightarrow> i < 2 ^ 63 \<Longrightarrow> atoi (show_int i) = word_of_int i"
  by (simp add: atoi_def strtol_show)

lemma atoll_show: "- (2 ^ 63) \<le> i \<Longrightarrow> i < 2 ^ 63 \<Longrightarrow> atoll (show_int i) = word_of_int i"
  by (simp add: atoll_def strtol_show)

lemma cut_word:
  "LENGTH('b) \<le> LENGTH('a) \<Longrightarrow> ucast (word_of_int i :: 'a::len word) = (word_of_int i :: 'b::len word)"
  by (rule bit_word_eqI) (simp add: bit_simps)

text \<open>a number written as decimal text is read back by every integer operator as its value reduced
  to the width of the type.\<close>

theorem sqlite_numbers:
  assumes "sq_current_row r \<le> sq_row_count r" "sq_current_col r < sq_col_count r"
    and "sqlite_cell r = Some (Some (show_int i))" "- (2 ^ 63) \<le> i" "i < 2 ^ 63"
  shows "let next = r\<lparr>sq_current_col := sq_current_col r + 1\<rparr> in
      sqlite_int8 r v8 = Some (word_of_int i, next) \<and> sqlite_uint8 r v8 = Some (word_of_int i, next) \<and>
      sqlite_int16 r v16 = Some (word_of_int i, next) \<and> sqlite_uint16 r v16 = Some (word_of_int i, next) \<and>
      sqlite_int32 r v32 = Some (word_of_int i, next) \<and> sqlite_uint32 r v32 = Some (word_of_int i, next) \<and>
      sqlite_int64 r v64 = Some (word_of_int i, next) \<and> sqlite_uint64 r v64 = Some (word_of_int i, next)"
  using assms(1-3) atoi_show [OF assms(4,5)] atoll_show [OF assms(4,5)]
  by (simp add: sqlite_int8_def sqlite_uint8_def sqlite_int16_def sqlite_uint16_def sqlite_int32_def
      sqlite_uint32_def sqlite_int64_def sqlite_uint64_def sqlite_read_def cut_word Let_def)

theorem sqlite_numbers_witness:
  "sqlite_int8 (at_row [Some ''n''] [[Some (show_int 300)]] 1 0) 7 = Some (44, at_row [Some ''n''] [[Some (show_int 300)]] 1 1)"
proof -
  let ?r = "at_row [Some ''n''] [[Some (show_int 300)]] 1 0"
  have "sq_current_row ?r \<le> sq_row_count ?r" "sq_current_col ?r < sq_col_count ?r"
      "sqlite_cell ?r = Some (Some (show_int 300))"
    by (simp_all add: sqlite_cell_def at_row_def table_of_def)
  from sqlite_numbers [OF this, of 7 0 0 0]
  have "sqlite_int8 ?r 7 = Some (word_of_int 300, ?r\<lparr>sq_current_col := sq_current_col ?r + 1\<rparr>)"
    by (simp add: Let_def)
  moreover have "(word_of_int 300 :: 8 word) = 44" by simp
  moreover have "?r\<lparr>sq_current_col := sq_current_col ?r + 1\<rparr> = at_row [Some ''n''] [[Some (show_int 300)]] 1 1"
    by (simp add: at_row_def)
  ultimately show ?thesis by simp
qed

end
