(* ===== verification/SqliteHandler.thy ===== *)
theory SqliteHandler
  imports SqliteResult
begin

text \<open>
  A connection to an SQLite file: \<open>include/db/sqlite_handler.h\<close>, \<open>src/db/sqlite_handler.cpp\<close>. The library's
  functions are a record over a state of any type; \<open>sqlite3_open\<close> gives its code and the handle it
  stored (\<open>None\<close> for null). Results are the integers of \<open>driver.h\<close>: 0 for success, -1 for failure.
\<close>

section \<open>State\<close>

definition db_success :: int where "db_success = 0"
definition db_fail :: int where "db_fail = - 1"
definition SQLITE_OK :: int where "SQLITE_OK = 0"
definition sqlite_filename_length :: nat where "sqlite_filename_length = 256"

record ('w, 'h) sqlite_api =
  sqlite3_open :: "string \<Rightarrow> 'w \<Rightarrow> int \<times> 'h option \<times> 'w"
  sqlite3_close :: "'h \<Rightarrow> 'w \<Rightarrow> 'w"
  sqlite3_exec :: "'h option \<Rightarrow> string \<Rightarrow> 'w \<Rightarrow> int \<times> string option \<times> 'w"
  sqlite3_get_table :: "'h option \<Rightarrow> string \<Rightarrow> 'w \<Rightarrow> int \<times> sql_cell list option \<times> int \<times> int \<times> string option \<times> 'w"
  sqlite3_free :: "string \<Rightarrow> 'w \<Rightarrow> 'w"
  sqlite3_errcode :: "'h option \<Rightarrow> 'w \<Rightarrow> int"

record 'h sqlite_handler =
  sh_handle :: "'h option"
  sh_file :: string
  sh_opened :: bool

section \<open>Operations\<close>

text \<open>\<open>STRNCPY\<close> into the file name: at most 256 characters and the NUL.\<close>

definition sh_copy_name :: "string \<Rightarrow> string" where
  "sh_copy_name s = take sqlite_filename_length (c_string s)"

definition SQLite_Handler_new :: "'h sqlite_handler" where
  "SQLite_Handler_new = \<lparr>sh_handle = None, sh_file = [], sh_opened = False\<rparr>"

definition sh_close :: "('w, 'h) sqlite_api \<Rightarrow> 'h sqlite_handler \<Rightarrow> 'w \<Rightarrow> int \<times> 'h sqlite_handler \<times> 'w" where
  "sh_close api h w =
     (case sh_handle h of
        None \<Rightarrow> (db_success, h, w)
      | Some p \<Rightarrow> (db_success, h\<lparr>sh_handle := None, sh_opened := False\<rparr>, sqlite3_close api p w))"

definition sh_destroy :: "('w, 'h) sqlite_api \<Rightarrow> 'h sqlite_handler \<Rightarrow> 'w \<Rightarrow> 'w" where
  "sh_destroy api h w = snd (snd (sh_close api h w))"

text \<open>\<open>open ()\<close> on the stored file name.\<close>

definition sh_open :: "('w, 'h) sqlite_api \<Rightarrow> 'h sqlite_handler \<Rightarrow> 'w \<Rightarrow> int \<times> 'h sqlite_handler \<times> 'w" where
  "sh_open api h w =
     (let (h1, w1) = (if sh_opened h then snd (sh_close api h w) else (h, w));
          (ret, p, w2) = sqlite3_open api (sh_file h1) w1;
          h2 = h1\<lparr>sh_handle := p\<rparr>
      in if SQLITE_OK = ret then (db_success, h2\<lparr>sh_opened := True\<rparr>, w2)
         else (db_fail, h2\<lparr>sh_opened := False\<rparr>, w2))"

text \<open>The constructor with a file name does not initialise the handle: what it holds is a parameter.\<close>

definition SQLite_Handler_file :: "('w, 'h) sqlite_api \<Rightarrow> 'h option \<Rightarrow> string \<Rightarrow> 'w \<Rightarrow> 'h sqlite_handler \<times> 'w" where
  "SQLite_Handler_file api garbage file_name w =
     snd (sh_open api \<lparr>sh_handle = garbage, sh_file = sh_copy_name file_name, sh_opened = False\<rparr> w)"

definition sh_open_file :: "('w, 'h) sqlite_api \<Rightarrow> 'h sqlite_handler \<Rightarrow> string \<Rightarrow> 'w \<Rightarrow> int \<times> 'h sqlite_handler \<times> 'w" where
  "sh_open_file api h file_name w =
     (let (h1, w1) = (if sh_opened h then snd (sh_close api h w) else (h, w))
      in sh_open api (h1\<lparr>sh_file := sh_copy_name file_name\<rparr>) w1)"

definition sh_free_error :: "('w, 'h) sqlite_api \<Rightarrow> string option \<Rightarrow> 'w \<Rightarrow> 'w" where
  "sh_free_error api e w = (case e of None \<Rightarrow> w | Some s \<Rightarrow> sqlite3_free api s w)"

definition sh_execute :: "('w, 'h) sqlite_api \<Rightarrow> 'h sqlite_handler \<Rightarrow> string option \<Rightarrow> 'w \<Rightarrow> int \<times> 'h sqlite_handler \<times> 'w" where
  "sh_execute api h sql w =
     (case sql of
        None \<Rightarrow> (db_fail, h, w)
      | Some stmt \<Rightarrow>
          let (ret0, h1, w1) = (if \<not> sh_opened h then sh_open api h w else (db_success, h, w))
          in if db_success \<noteq> ret0 then (db_fail, h1, w1)
             else
               let (ret, err, w2) = sqlite3_exec api (sh_handle h1) stmt w1
               in if SQLITE_OK = ret then (db_success, h1, w2)
                  else (db_fail, h1, sh_free_error api err w2))"

text \<open>The overload with a result object; beside it the table the object held before, now freed.\<close>

definition sh_execute_result :: "('w, 'h) sqlite_api \<Rightarrow> 'h sqlite_handler \<Rightarrow> string option \<Rightarrow> sqlite_result \<Rightarrow> 'w
    \<Rightarrow> int \<times> 'h sqlite_handler \<times> sqlite_result \<times> sql_cell list option \<times> 'w" where
  "sh_execute_result api h sql dbresult w =
     (case sql of
        None \<Rightarrow> (db_fail, h, dbresult, None, w)
      | Some stmt \<Rightarrow>
          let (ret0, h1, w1) = (if \<not> sh_opened h then sh_open api h w else (db_success, h, w))
          in if db_success \<noteq> ret0 then (db_fail, h1, dbresult, None, w1)
             else
               let (ret, result, row, col, err, w2) = sqlite3_get_table api (sh_handle h1) stmt w1
               in if SQLITE_OK = ret \<and> result \<noteq> None \<and> 0 \<le> row \<and> 0 \<le> col
                  then let (db1, freed) = sqlite_set_result dbresult result (nat row) (nat col)
                       in (db_success, h1, db1, freed, w2)
                  else (db_fail, h1, dbresult, None, sh_free_error api err w2))"

definition sh_last_errno :: "('w, 'h) sqlite_api \<Rightarrow> 'h sqlite_handler \<Rightarrow> 'w \<Rightarrow> int" where
  "sh_last_errno api h w = sqlite3_errcode api (sh_handle h) w"

section \<open>Handles\<close>

text \<open>
  Documented behaviour of the library on the set of open handles: \<open>sqlite3_open\<close> may store a new
  handle, also when it fails; \<open>sqlite3_close\<close> releases one; the other calls leave them alone.
\<close>

definition sqlite_documented :: "('w, 'h) sqlite_api \<Rightarrow> ('w \<Rightarrow> 'h set) \<Rightarrow> bool" where
  "sqlite_documented api handles \<longleftrightarrow>
     (\<forall>f w ret p w1. sqlite3_open api f w = (ret, p, w1) \<longrightarrow>
        (case p of None \<Rightarrow> ret \<noteq> SQLITE_OK \<and> handles w1 = handles w
         | Some q \<Rightarrow> q \<notin> handles w \<and> handles w1 = insert q (handles w))) \<and>
     (\<forall>p w. handles (sqlite3_close api p w) = handles w - {p}) \<and>
     (\<forall>p s w. handles (snd (snd (sqlite3_exec api p s w))) = handles w) \<and>
     (\<forall>p s w ret t r c e w1. sqlite3_get_table api p s w = (ret, t, r, c, e, w1) \<longrightarrow> handles w1 = handles w) \<and>
     (\<forall>e w. handles (sqlite3_free api e w) = handles w)"

datatype sh_op = OpOpen string | OpClose | OpExecute string | OpQuery string

fun sh_step :: "('w, 'h) sqlite_api \<Rightarrow> sh_op \<Rightarrow> 'h sqlite_handler \<times> sqlite_result \<times> 'w \<Rightarrow> 'h sqlite_handler \<times> sqlite_result \<times> 'w" where
  "sh_step api (OpOpen f) (h, db, w) = (let (r, h1, w1) = sh_open_file api h f w in (h1, db, w1))"
| "sh_step api OpClose (h, db, w) = (let (r, h1, w1) = sh_close api h w in (h1, db, w1))"
| "sh_step api (OpExecute s) (h, db, w) = (let (r, h1, w1) = sh_execute api h (Some s) w in (h1, db, w1))"
| "sh_step api (OpQuery s) (h, db, w) =
     (let (r, h1, db1, freed, w1) = sh_execute_result api h (Some s) db w in (h1, db1, w1))"

text \<open>
  What a step loses. An open on an object that is not marked open overwrites the handle, and when an open that failed
  had stored one, nothing closes it any more; \<open>close\<close> itself closes whatever handle is there.
\<close>

definition forgotten :: "'h sqlite_handler \<Rightarrow> 'h set" where
  "forgotten h = (if sh_opened h then {} else set_option (sh_handle h))"

definition lost_by :: "sh_op \<Rightarrow> 'h sqlite_handler \<Rightarrow> 'h set" where
  "lost_by op h = (if op = OpClose then {} else forgotten h)"

fun lost :: "('w, 'h) sqlite_api \<Rightarrow> sh_op list \<Rightarrow> 'h sqlite_handler \<times> sqlite_result \<times> 'w \<Rightarrow> 'h set" where
  "lost api [] s = {}"
| "lost api (op # ops) s = lost_by op (fst s) \<union> lost api ops (sh_step api op s)"

text \<open>The handles the library stores although the open fails.\<close>

definition failed_handles :: "('w, 'h) sqlite_api \<Rightarrow> 'h set" where
  "failed_handles api = {p. \<exists>f w ret w1. sqlite3_open api f w = (ret, Some p, w1) \<and> ret \<noteq> SQLITE_OK}"

text \<open>\<open>others\<close> are the handles open before, \<open>gone\<close> those lost so far.\<close>

definition accounted :: "('w, 'h) sqlite_api \<Rightarrow> ('w \<Rightarrow> 'h set) \<Rightarrow> 'h set \<Rightarrow> 'h set \<Rightarrow> 'h sqlite_handler \<Rightarrow> 'w \<Rightarrow> bool" where
  "accounted api handles others gone h w \<longleftrightarrow>
     handles w = others \<union> gone \<union> set_option (sh_handle h) \<and> set_option (sh_handle h) \<inter> (others \<union> gone) = {} \<and>
     others \<inter> gone = {} \<and> gone \<union> forgotten h \<subseteq> failed_handles api \<and> (sh_opened h \<longrightarrow> sh_handle h \<noteq> None)"

lemma forgotten_file [simp]: "forgotten (h\<lparr>sh_file := f\<rparr>) = forgotten h"
  by (simp add: forgotten_def)

lemma accounted_file: "accounted api handles others gone h w \<Longrightarrow> accounted api handles others gone (h\<lparr>sh_file := f\<rparr>) w"
  by (simp add: accounted_def)

lemma close_accounted:
  assumes "sqlite_documented api handles" "accounted api handles others gone h w" "sh_close api h w = (r, h1, w1)"
  shows "accounted api handles others gone h1 w1" "sh_handle h1 = None" "\<not> sh_opened h1"
  using assms by (auto simp: accounted_def forgotten_def sh_close_def sqlite_documented_def split: option.splits)

text \<open>The first step of both \<open>open\<close>s closes what is marked open.\<close>

lemma ready_accounted:
  assumes "sqlite_documented api handles" "accounted api handles others gone h w"
    "(if sh_opened h then snd (sh_close api h w) else (h, w)) = (h1, w1)"
  shows "accounted api handles others gone h1 w1" "forgotten h1 = forgotten h" "\<not> sh_opened h1"
  using assms(2,3) close_accounted [OF assms(1,2)]
  by (cases "sh_opened h"; cases "sh_close api h w"; auto simp: forgotten_def)+

lemma open_accounted:
  assumes "sqlite_documented api handles" "accounted api handles others gone h w" "sh_open api h w = (r, h1, w1)"
  shows "accounted api handles others (gone \<union> forgotten h) h1 w1"
proof -
  obtain h0 w0 where c: "(if sh_opened h then snd (sh_close api h w) else (h, w)) = (h0, w0)" by fastforce
  note b = ready_accounted [OF assms(1,2) c]
  obtain ret p w2 where o: "sqlite3_open api (sh_file h0) w0 = (ret, p, w2)" by (metis prod_cases3)
  have k: "case p of None \<Rightarrow> ret \<noteq> SQLITE_OK \<and> handles w2 = handles w0
      | Some q \<Rightarrow> q \<notin> handles w0 \<and> handles w2 = insert q (handles w0)"
    using assms(1) o by (simp add: sqlite_documented_def)
  have q: "ret \<noteq> SQLITE_OK \<Longrightarrow> set_option p \<subseteq> failed_handles api" using o by (cases p) (auto simp: failed_handles_def)
  have e: "h1 = h0\<lparr>sh_handle := p, sh_opened := (SQLITE_OK = ret)\<rparr> \<and> w1 = w2"
    using assms(3) unfolding sh_open_def c by (auto simp: o Let_def split: if_splits)
  have "set_option (sh_handle h0) = forgotten h" using b(2,3) by (simp add: forgotten_def)
  then show ?thesis using b(1,3) k q e by (cases p) (auto simp: accounted_def forgotten_def split: if_splits)
qed

lemma opened_accounted:
  assumes "sqlite_documented api handles" "accounted api handles others gone h w"
    "(if \<not> sh_opened h then sh_open api h w else (db_success, h, w)) = (r, h1, w1)"
  shows "accounted api handles others (gone \<union> forgotten h) h1 w1"
  using assms(2,3) open_accounted [OF assms(1,2)] by (cases "sh_opened h") (auto simp: forgotten_def)

lemma step_accounted:
  assumes "sqlite_documented api handles" "accounted api handles others gone h w" "sh_step api op (h, db, w) = (h1, db1, w1)"
  shows "accounted api handles others (gone \<union> lost_by op h) h1 w1"
proof (cases op)
  case (OpOpen f)
  obtain h0 w0 where e: "(if sh_opened h then snd (sh_close api h w) else (h, w)) = (h0, w0)" by fastforce
  note b = ready_accounted [OF assms(1,2) e]
  obtain r2 h2 w2 where o: "sh_open api (h0\<lparr>sh_file := sh_copy_name f\<rparr>) w0 = (r2, h2, w2)" by (metis prod_cases3)
  have "sh_open_file api h f w = (r2, h2, w2)" unfolding sh_open_file_def e by (simp add: o)
  then have "h1 = h2" "w1 = w2" using assms(3) OpOpen by simp_all
  moreover have "forgotten (h0\<lparr>sh_file := sh_copy_name f\<rparr>) = forgotten h" using b(2) by simp
  ultimately show ?thesis using open_accounted [OF assms(1) accounted_file [OF b(1)] o] OpOpen by (simp add: lost_by_def)
next
  case OpClose
  obtain r0 h0 w0 where c: "sh_close api h w = (r0, h0, w0)" by (metis prod_cases3)
  then show ?thesis using close_accounted(1) [OF assms(1,2) c] assms(3) OpClose by (simp add: lost_by_def)
next
  case (OpExecute s)
  obtain r h2 w2 where e: "(if \<not> sh_opened h then sh_open api h w else (db_success, h, w)) = (r, h2, w2)"
    by (metis prod_cases3)
  note b = opened_accounted [OF assms(1,2) e]
  obtain ret err w3 where x: "sqlite3_exec api (sh_handle h2) s w2 = (ret, err, w3)" by (metis prod_cases3)
  have "handles w3 = handles w2" using assms(1) x unfolding sqlite_documented_def by (metis snd_conv)
  moreover have "handles (sh_free_error api err w3) = handles w3"
    using assms(1) by (auto simp: sh_free_error_def sqlite_documented_def split: option.splits)
  moreover have "sh_execute api h (Some s) w = (if db_success \<noteq> r then (db_fail, h2, w2)
      else if SQLITE_OK = ret then (db_success, h2, w3) else (db_fail, h2, sh_free_error api err w3))"
    unfolding sh_execute_def option.case e by (simp add: x)
  ultimately have "h1 = h2" "handles w1 = handles w2" using assms(3) OpExecute by (auto split: if_splits)
  then show ?thesis using b OpExecute by (simp add: accounted_def lost_by_def)
next
  case (OpQuery s)
  obtain r h2 w2 where e: "(if \<not> sh_opened h then sh_open api h w else (db_success, h, w)) = (r, h2, w2)"
    by (metis prod_cases3)
  note b = opened_accounted [OF assms(1,2) e]
  obtain ret t row col err w3 where x: "sqlite3_get_table api (sh_handle h2) s w2 = (ret, t, row, col, err, w3)"
    by (metis prod_cases6)
  obtain db2 freed where db: "sqlite_set_result db t (nat row) (nat col) = (db2, freed)" by fastforce
  have "handles w3 = handles w2" using assms(1) x unfolding sqlite_documented_def by metis
  moreover have "handles (sh_free_error api err w3) = handles w3"
    using assms(1) by (auto simp: sh_free_error_def sqlite_documented_def split: option.splits)
  moreover have "sh_execute_result api h (Some s) db w = (if db_success \<noteq> r then (db_fail, h2, db, None, w2)
      else if SQLITE_OK = ret \<and> t \<noteq> None \<and> 0 \<le> row \<and> 0 \<le> col then (db_success, h2, db2, freed, w3)
      else (db_fail, h2, db, None, sh_free_error api err w3))"
    unfolding sh_execute_result_def option.case e by (simp only: x db prod.case Let_def)
  ultimately have "h1 = h2" "handles w1 = handles w2" using assms(3) OpQuery by (auto split: if_splits)
  then show ?thesis using b OpQuery by (simp add: accounted_def lost_by_def)
qed

lemma run_accounted:
  assumes "sqlite_documented api handles"
  shows "accounted api handles others gone h w \<Longrightarrow> fold (sh_step api) ops (h, db, w) = (h1, db1, w1) \<Longrightarrow>
    accounted api handles others (gone \<union> lost api ops (h, db, w)) h1 w1"
proof (induction ops arbitrary: gone h db w)
  case (Cons op ops)
  obtain h2 db2 w2 where s: "sh_step api op (h, db, w) = (h2, db2, w2)" by (metis prod_cases3)
  show ?case
    using Cons.IH [OF step_accounted [OF assms Cons.prems(1) s], of db2] Cons.prems(2) by (simp add: s Un_assoc)
qed simp

text \<open>C37: after every sequence of opens, closes and statements on a new object, the open handles are those of others, the
  one the object remembers, and those it lost: those that an open which failed had stored, and that the next open
  or statement overwrote. These three have nothing in common, the handles of others stay as they were, and an object marked open
  has a handle. So with a library that stores no handle when it fails, nothing is lost.\<close>

theorem sqlite_handles_balanced:
  assumes "sqlite_documented api handles" "fold (sh_step api) ops (SQLite_Handler_new, db, w) = (h, db', w')"
    and "gone = lost api ops (SQLite_Handler_new, db, w)"
  shows "handles w' = handles w \<union> gone \<union> set_option (sh_handle h) \<and> set_option (sh_handle h) \<inter> (handles w \<union> gone) = {} \<and>
    handles w \<inter> gone = {} \<and> (sh_opened h \<longrightarrow> sh_handle h \<noteq> None) \<and>
    gone \<subseteq> {p. \<exists>f v ret v1. sqlite3_open api f v = (ret, Some p, v1) \<and> ret \<noteq> SQLITE_OK}"
proof -
  have "accounted api handles (handles w) {} SQLite_Handler_new w"
    by (simp add: accounted_def forgotten_def SQLite_Handler_new_def)
  from run_accounted [OF assms(1) this assms(2)] have "accounted api handles (handles w) gone h w'" unfolding assms(3) by simp
  then show ?thesis by (simp add: accounted_def failed_handles_def)
qed

text \<open>when a failed open did store a handle, the next statement opens the file again and forgets
  it: it stays open, whatever is closed afterwards.\<close>

theorem sqlite_failed_open_leaks:
  assumes "sqlite_documented api handles" "\<not> sh_opened h" "sh_handle h = Some p" "p \<in> handles w"
    and "sh_open api h w = (r, h1, w1)" "sh_close api h1 w1 = (r', h2, w2)"
  shows "p \<in> handles w2"
proof -
  obtain ret q w0 where o: "sqlite3_open api (sh_file h) w = (ret, q, w0)" by (metis prod_cases3)
  have d: "case q of None \<Rightarrow> handles w0 = handles w | Some a \<Rightarrow> a \<notin> handles w \<and> handles w0 = insert a (handles w)"
    using assms(1) [unfolded sqlite_documented_def, THEN conjunct1, rule_format, OF o] by (cases q) auto
  have cl: "handles (sqlite3_close api x v) = handles v - {x}" for x v
    using assms(1) by (simp add: sqlite_documented_def)
  have "sh_handle h1 = q \<and> w1 = w0" using assms(2,5) o by (auto simp: sh_open_def Let_def split: if_splits)
  then show ?thesis using d assms(4,6) cl by (cases q) (auto simp: sh_close_def)
qed

text \<open>A library over the list of open handles; files whose name is empty cannot be opened.\<close>

definition demo_sqlite :: "bool \<Rightarrow> (nat list, nat) sqlite_api" where
  "demo_sqlite keeps = \<lparr>sqlite3_open = (\<lambda>f w. let n = Suc (foldr max w 0) in
       if f = [] then (if keeps then (1, Some n, n # w) else (1, None, w)) else (0, Some n, n # w)),
     sqlite3_close = (\<lambda>p w. filter (\<lambda>x. x \<noteq> p) w), sqlite3_exec = (\<lambda>p s w. (0, None, w)),
     sqlite3_get_table = (\<lambda>p s w. (0, Some [], 0, 0, None, w)), sqlite3_free = (\<lambda>e w. w), sqlite3_errcode = (\<lambda>p w. 0)\<rparr>"

lemma max_list_fresh: "Suc (foldr max w 0) \<notin> set w" for w :: "nat list"
proof -
  have "\<forall>x \<in> set w. x \<le> foldr max w 0" by (induction w) auto
  then show ?thesis by fastforce
qed

lemma demo_sqlite_documented: "sqlite_documented (demo_sqlite keeps) set"
  by (auto simp: sqlite_documented_def demo_sqlite_def max_list_fresh SQLITE_OK_def Let_def)

text \<open>Two opens of a file that cannot be opened and one that can: the handles 5 and 6 are lost.\<close>

theorem sqlite_handles_balanced_witness:
  "\<exists>h db' w'. fold (sh_step (demo_sqlite True)) [OpOpen [], OpExecute ''x'', OpOpen ''b'']
      (SQLite_Handler_new, SQLite_Result_new, [4]) = (h, db', w') \<and>
     set w' = {4} \<union> {5, 6} \<union> set_option (sh_handle h) \<and> sh_handle h = Some 7"
proof -
  let ?ops = "[OpOpen [], OpExecute ''x'', OpOpen ''b'']"
  let ?start = "(SQLite_Handler_new, SQLite_Result_new, [4 :: nat])"
  obtain h db' w' where f: "fold (sh_step (demo_sqlite True)) ?ops ?start = (h, db', w')"
    by (metis prod_cases3)
  note defs = demo_sqlite_def sh_open_file_def sh_open_def sh_execute_def SQLite_Handler_new_def sh_copy_name_def c_string_def
    SQLITE_OK_def db_success_def db_fail_def Let_def sqlite_filename_length_def
  have "{5, 6} = lost (demo_sqlite True) ?ops ?start" "sh_handle h = Some 7"
    using f by (auto simp: defs lost_by_def forgotten_def)
  then show ?thesis using sqlite_handles_balanced [OF demo_sqlite_documented f] f by auto
qed

theorem sqlite_failed_open_leaks_witness:
  "\<exists>r h1 w1 r' h2 w2. sh_open (demo_sqlite True) \<lparr>sh_handle = Some 1, sh_file = [], sh_opened = False\<rparr> [1] = (r, h1, w1) \<and>
     sh_close (demo_sqlite True) h1 w1 = (r', h2, w2) \<and> (1 :: nat) \<in> set w2"
proof -
  obtain r h1 w1 where o: "sh_open (demo_sqlite True) \<lparr>sh_handle = Some 1, sh_file = [], sh_opened = False\<rparr> [1] = (r, h1, w1)"
    by (metis prod_cases3)
  obtain r' h2 w2 where c: "sh_close (demo_sqlite True) h1 w1 = (r', h2, w2)" by (metis prod_cases3)
  have "1 \<in> set w2" by (rule sqlite_failed_open_leaks [OF demo_sqlite_documented _ _ _ o c]) simp_all
  then show ?thesis using o c by blast
qed

end
