(* ===== verification/MysqlResult.thy ===== *)
theory MysqlResult
  imports SqlCursor
begin

text \<open>
  Result sets of MySQL: \<open>include/db/mysql_result.h\<close>, \<open>src/db/mysql_result.cpp\<close>. The client library is a record
  of functions over a state of any type; a row is a list of fields, \<open>None\<close> for a null one, each the
  bytes of its value without the NUL the library puts behind them. A read through a null row or
  outside of it is the value \<open>None\<close>. \<open>u_int\<close> members keep their width.
\<close>

section \<open>State\<close>

record ('w, 'q) mysql_res_api =
  mysql_num_rows :: "'w \<Rightarrow> 'q \<Rightarrow> nat"
  mysql_num_fields :: "'w \<Rightarrow> 'q \<Rightarrow> nat"
  mysql_fetch_row :: "'w \<Rightarrow> 'q \<Rightarrow> sql_cell list option \<times> 'w"
  mysql_fetch_lengths :: "'w \<Rightarrow> 'q \<Rightarrow> nat list option"
  mysql_free_result :: "'w \<Rightarrow> 'q \<Rightarrow> 'w"

record 'q mysql_result =
  my_result :: "'q option"
  my_row :: "sql_cell list option"
  my_field :: "32 word"
  my_lengths :: "nat list option"
  my_row_count :: "32 word"
  my_field_count :: "32 word"

definition Mysql_Result_new :: "'q mysql_result" where
  "Mysql_Result_new = \<lparr>my_result = None, my_row = None, my_field = 0, my_lengths = None, my_row_count = 0, my_field_count = 0\<rparr>"

definition mysql_destroy :: "('w, 'q) mysql_res_api \<Rightarrow> 'q mysql_result \<Rightarrow> 'w \<Rightarrow> 'w" where
  "mysql_destroy api r w = (case my_result r of None \<Rightarrow> w | Some q \<Rightarrow> mysql_free_result api w q)"

definition mysql_free :: "('w, 'q) mysql_res_api \<Rightarrow> 'q mysql_result \<Rightarrow> 'w \<Rightarrow> 'q mysql_result \<times> 'w" where
  "mysql_free api r w =
     (case my_result r of
        None \<Rightarrow> (r, w)
      | Some q \<Rightarrow> (Mysql_Result_new, mysql_free_result api w q))"

definition mysql_set_result :: "('w, 'q) mysql_res_api \<Rightarrow> 'q mysql_result \<Rightarrow> 'q option \<Rightarrow> 'w \<Rightarrow> 'q mysql_result \<times> 'w" where
  "mysql_set_result api r result w =
     (let (r1, w1) = (if my_result r \<noteq> None
                      then let (r0, w0) = mysql_free api r w in (r0\<lparr>my_result := None\<rparr>, w0)
                      else (r, w));
          r2 = r1\<lparr>my_result := result\<rparr>
      in case result of
           None \<Rightarrow> (r2, w1)
         | Some q \<Rightarrow> (r2\<lparr>my_row_count := word_of_nat (mysql_num_rows api w1 q),
             my_field_count := word_of_nat (mysql_num_fields api w1 q)\<rparr>, w1))"

definition mysql_is_null :: "'q mysql_result \<Rightarrow> bool" where
  "mysql_is_null r = (if my_result r = None then True else False)"

definition mysql_fetch_next_row :: "('w, 'q) mysql_res_api \<Rightarrow> 'q mysql_result \<Rightarrow> 'w \<Rightarrow> bool \<times> 'q mysql_result \<times> 'w" where
  "mysql_fetch_next_row api r w =
     (case my_result r of
        None \<Rightarrow> (False, r, w)
      | Some q \<Rightarrow>
          (case mysql_fetch_row api w q of
             (None, w1) \<Rightarrow> (False, r\<lparr>my_row := None\<rparr>, w1)
           | (Some row, w1) \<Rightarrow>
               (True, r\<lparr>my_row := Some row, my_lengths := mysql_fetch_lengths api w1 q, my_field := 0\<rparr>, w1)))"

section \<open>Reading values\<close>

text \<open>The column the operators move to; at the last one it stays.\<close>

definition mysql_advance :: "'q mysql_result \<Rightarrow> 'q mysql_result" where
  "mysql_advance r = r\<lparr>my_field := (if my_field r < my_field_count r - 1 then my_field r + 1 else my_field r)\<rparr>"

definition mysql_cell :: "'q mysql_result \<Rightarrow> sql_cell option" where
  "mysql_cell r =
     (case my_row r of
        None \<Rightarrow> None
      | Some row \<Rightarrow> if unat (my_field r) < length row then Some (row ! unat (my_field r)) else None)"

definition mysql_read :: "(string \<Rightarrow> 'a \<Rightarrow> 'a) \<Rightarrow> 'q mysql_result \<Rightarrow> 'a \<Rightarrow> ('a \<times> 'q mysql_result) option" where
  "mysql_read conv r val =
     (case mysql_cell r of
        None \<Rightarrow> None
      | Some c \<Rightarrow> Some (case c of None \<Rightarrow> val | Some s \<Rightarrow> conv s val, mysql_advance r))"

definition mysql_int8 :: "'q mysql_result \<Rightarrow> 8 word \<Rightarrow> (8 word \<times> 'q mysql_result) option" where
  "mysql_int8 = mysql_read (\<lambda>s v. ucast (atoi s))"
definition mysql_int16 :: "'q mysql_result \<Rightarrow> 16 word \<Rightarrow> (16 word \<times> 'q mysql_result) option" where
  "mysql_int16 = mysql_read (\<lambda>s v. ucast (atoi s))"
definition mysql_int32 :: "'q mysql_result \<Rightarrow> 32 word \<Rightarrow> (32 word \<times> 'q mysql_result) option" where
  "mysql_int32 = mysql_read (\<lambda>s v. atoi s)"
definition mysql_int64 :: "'q mysql_result \<Rightarrow> 64 word \<Rightarrow> (64 word \<times> 'q mysql_result) option" where
  "mysql_int64 = mysql_read (\<lambda>s v. atoll s)"
definition mysql_uint8 :: "'q mysql_result \<Rightarrow> 8 word \<Rightarrow> (8 word \<times> 'q mysql_result) option" where
  "mysql_uint8 = mysql_read (\<lambda>s v. ucast (atoi s))"
definition mysql_uint16 :: "'q mysql_result \<Rightarrow> 16 word \<Rightarrow> (16 word \<times> 'q mysql_result) option" where
  "mysql_uint16 = mysql_read (\<lambda>s v. ucast (atoi s))"

text \<open>\<open>sscanf\<close> stores nothing when it finds no number.\<close>

definition mysql_uint32 :: "'q mysql_result \<Rightarrow> 32 word \<Rightarrow> (32 word \<times> 'q mysql_result) option" where
  "mysql_uint32 = mysql_read (\<lambda>s v. case scan_unsigned s of None \<Rightarrow> v | Some n \<Rightarrow> ucast n)"
definition mysql_uint64 :: "'q mysql_result \<Rightarrow> 64 word \<Rightarrow> (64 word \<times> 'q mysql_result) option" where
  "mysql_uint64 = mysql_read (\<lambda>s v. case scan_unsigned s of None \<Rightarrow> v | Some n \<Rightarrow> n)"
definition mysql_float :: "(string \<Rightarrow> 'd) \<Rightarrow> ('d \<Rightarrow> 'f) \<Rightarrow> 'q mysql_result \<Rightarrow> 'f \<Rightarrow> ('f \<times> 'q mysql_result) option" where
  "mysql_float atof to_float = mysql_read (\<lambda>s v. to_float (atof (c_string s)))"
definition mysql_double :: "(string \<Rightarrow> 'd) \<Rightarrow> 'q mysql_result \<Rightarrow> 'd \<Rightarrow> ('d \<times> 'q mysql_result) option" where
  "mysql_double atof = mysql_read (\<lambda>s v. atof (c_string s))"
definition mysql_text :: "'q mysql_result \<Rightarrow> string \<Rightarrow> (string \<times> 'q mysql_result) option" where
  "mysql_text = mysql_read (\<lambda>s v. c_string s)"

text \<open>The length the library recorded for the current column.\<close>

definition mysql_length :: "'q mysql_result \<Rightarrow> nat option" where
  "mysql_length r =
     (case my_lengths r of
        None \<Rightarrow> None
      | Some ls \<Rightarrow> if unat (my_field r) < length ls then Some (ls ! unat (my_field r)) else None)"

text \<open>
  \<open>memcpy\<close> of \<open>n\<close> bytes of the field to the start of the buffer: the field with its NUL must have them,
  and the buffer must have the room.
\<close>

definition copy_field :: "string \<Rightarrow> nat \<Rightarrow> string \<Rightarrow> string option" where
  "copy_field s n buff =
     (if n \<le> length s + 1 \<and> n \<le> length buff then Some (take n (s @ [CHR 0x00]) @ drop n buff) else None)"

definition mysql_get_string :: "'q mysql_result \<Rightarrow> string option \<Rightarrow> nat \<Rightarrow> (string option \<times> 'q mysql_result) option" where
  "mysql_get_string r buff buff_len =
     (case buff of
        None \<Rightarrow> Some (None, mysql_advance r)
      | Some b \<Rightarrow>
          (case mysql_cell r of
             None \<Rightarrow> None
           | Some None \<Rightarrow> Some (buff, mysql_advance r)
           | Some (Some s) \<Rightarrow>
               (case mysql_length r of
                  None \<Rightarrow> None
                | Some n \<Rightarrow>
                    if buff_len > n
                    then (case copy_field s (n + 1) b of None \<Rightarrow> None | Some b1 \<Rightarrow> Some (Some b1, mysql_advance r))
                    else Some (buff, mysql_advance r))))"

definition mysql_get_ustring :: "'q mysql_result \<Rightarrow> string option \<Rightarrow> nat \<Rightarrow> (string option \<times> 'q mysql_result) option" where
  "mysql_get_ustring = mysql_get_string"

text \<open>\<open>get_blob\<close> also stores the number of bytes copied, 0 when nothing was.\<close>

definition mysql_get_blob :: "'q mysql_result \<Rightarrow> string option \<Rightarrow> nat \<Rightarrow> (string option \<times> nat \<times> 'q mysql_result) option" where
  "mysql_get_blob r buff buff_len =
     (case buff of
        None \<Rightarrow> Some (None, 0, mysql_advance r)
      | Some b \<Rightarrow>
          (case mysql_cell r of
             None \<Rightarrow> None
           | Some None \<Rightarrow> Some (buff, 0, mysql_advance r)
           | Some (Some s) \<Rightarrow>
               (case mysql_length r of
                  None \<Rightarrow> None
                | Some n \<Rightarrow>
                    if buff_len \<ge> n
                    then (case copy_field s n b of None \<Rightarrow> None | Some b1 \<Rightarrow> Some (Some b1, n, mysql_advance r))
                    else Some (buff, 0, mysql_advance r))))"

definition mysql_get_ublob :: "'q mysql_result \<Rightarrow> string option \<Rightarrow> nat \<Rightarrow> (string option \<times> nat \<times> 'q mysql_result) option" where
  "mysql_get_ublob = mysql_get_blob"

section \<open>Documented behaviour of the library\<close>

text \<open>
  \<open>pend w q\<close> are the rows of the result set \<open>q\<close> that were not fetched yet, each of \<open>n\<close> fields;
  \<open>mysql_fetch_row\<close> takes the next one, and \<open>mysql_fetch_lengths\<close> then gives the lengths of its fields.
\<close>

definition mysql_documented :: "('w, 'q) mysql_res_api \<Rightarrow> ('w \<Rightarrow> 'q \<Rightarrow> sql_cell list list) \<Rightarrow> nat \<Rightarrow> bool" where
  "mysql_documented api pend n \<longleftrightarrow>
     (\<forall>w q. mysql_num_fields api w q = n \<and> (\<forall>r \<in> set (pend w q). length r = n) \<and>
       (case mysql_fetch_row api w q of
          (None, w1) \<Rightarrow> pend w q = [] \<and> pend w1 q = []
        | (Some row, w1) \<Rightarrow> pend w q = row # pend w1 q))"

lemma fetch_documented:
  assumes "mysql_documented api pend n"
  shows "pend w q = row # rest \<Longrightarrow> \<exists>w1. mysql_fetch_row api w q = (Some row, w1) \<and> pend w1 q = rest \<and> length row = n"
    and "pend w q = [] \<Longrightarrow> fst (mysql_fetch_row api w q) = None"
  using assms [unfolded mysql_documented_def, rule_format, of w q]
  by (auto split: prod.splits option.splits)

section \<open>Reading a whole result\<close>

type_synonym ('w, 'q) mysql_cursor = "'q mysql_result \<times> 'w"

definition mysql_fetch :: "('w, 'q) mysql_res_api \<Rightarrow> ('w, 'q) mysql_cursor \<Rightarrow> bool \<times> ('w, 'q) mysql_cursor" where
  "mysql_fetch api c = (case c of (r, w) \<Rightarrow> mysql_fetch_next_row api r w)"

definition mysql_column :: "('w, 'q) mysql_cursor \<Rightarrow> (sql_cell \<times> ('w, 'q) mysql_cursor) option" where
  "mysql_column c =
     (case c of (r, w) \<Rightarrow>
        (case mysql_read (\<lambda>s v. Some (c_string s)) r None of None \<Rightarrow> None | Some (v, r1) \<Rightarrow> Some (v, r1, w)))"

definition text_cells :: "sql_cell list \<Rightarrow> sql_cell list" where
  "text_cells = map (map_option c_string)"

definition mysql_rows_left :: "('w \<Rightarrow> 'q \<Rightarrow> sql_cell list list) \<Rightarrow> ('w, 'q) mysql_cursor \<Rightarrow> sql_cell list list" where
  "mysql_rows_left pend c =
     (case c of (r, w) \<Rightarrow> (case my_result r of None \<Rightarrow> [] | Some q \<Rightarrow> map text_cells (pend w q)))"

definition mysql_row_rest :: "('w, 'q) mysql_cursor \<Rightarrow> sql_cell list" where
  "mysql_row_rest c =
     (case c of (r, w) \<Rightarrow>
        (case my_row r of None \<Rightarrow> [] | Some row \<Rightarrow> text_cells (drop (unat (my_field r)) row)))"

definition mysql_at :: "('w, 'q) mysql_res_api \<Rightarrow> ('w \<Rightarrow> 'q \<Rightarrow> sql_cell list list) \<Rightarrow> nat \<Rightarrow> ('w, 'q) mysql_cursor \<Rightarrow> bool" where
  "mysql_at api pend n c \<longleftrightarrow> mysql_documented api pend n \<and> n < 2 ^ 32 \<and>
     (case c of (r, w) \<Rightarrow> my_field_count r = word_of_nat n \<and> my_result r \<noteq> None \<and>
        (case my_row r of None \<Rightarrow> True | Some row \<Rightarrow> length row = n))"

lemma advance_field:
  assumes "my_field_count r = word_of_nat n" "n < 2 ^ 32" "unat (my_field r) < n"
  shows "unat (my_field (mysql_advance r)) = (if unat (my_field r) + 1 < n then unat (my_field r) + 1 else unat (my_field r))"
proof -
  have "unat (my_field_count r) = n" using assms(1,2) by (simp add: unat_of_nat_small)
  moreover have "my_field_count r \<noteq> 0" using calculation assms(3) by auto
  then have "unat (my_field_count r - 1) = unat (my_field_count r) - 1" by (simp add: unat_minus_one)
  ultimately have c: "my_field r < my_field_count r - 1 \<longleftrightarrow> unat (my_field r) + 1 < n"
    by (simp add: word_less_nat_alt less_diff_conv)
  have "unat (my_field r + 1) = unat (my_field r) + 1" if "unat (my_field r) + 1 < n"
    using that assms(2) by (simp add: unat_word_ariths)
  then show ?thesis using c by (simp add: mysql_advance_def)
qed

interpretation my: sql_cursor "mysql_fetch api" mysql_column "mysql_rows_left pend" mysql_row_rest "mysql_at api pend n"
  for api :: "('w, 'q) mysql_res_api" and pend n
proof unfold_locales
  fix c :: "('w, 'q) mysql_cursor" and r rs
  assume a: "mysql_at api pend n c" "mysql_rows_left pend c = r # rs"
  obtain m w where c: "c = (m, w)" by (cases c)
  obtain q where q: "my_result m = Some q" using a(1) c by (auto simp: mysql_at_def)
  obtain row rest where p: "pend w q = row # rest" "r = text_cells row" "rs = map text_cells rest"
    using a(2) c q by (auto simp: mysql_rows_left_def)
  have d: "mysql_documented api pend n" using a(1) by (simp add: mysql_at_def)
  obtain w1 where f: "mysql_fetch_row api w q = (Some row, w1)" "pend w1 q = rest" "length row = n"
    using fetch_documented(1) [OF d p(1)] by blast
  then show "\<exists>c'. mysql_fetch api c = (True, c') \<and> mysql_at api pend n c' \<and> mysql_rows_left pend c' = rs \<and> mysql_row_rest c' = r"
    using a(1) c q p by (auto simp: mysql_fetch_def mysql_fetch_next_row_def mysql_at_def mysql_rows_left_def mysql_row_rest_def)
next
  fix c :: "('w, 'q) mysql_cursor"
  assume a: "mysql_at api pend n c" "mysql_rows_left pend c = []"
  obtain m w where c: "c = (m, w)" by (cases c)
  obtain q where q: "my_result m = Some q" using a(1) c by (auto simp: mysql_at_def)
  have d: "mysql_documented api pend n" using a(1) by (simp add: mysql_at_def)
  have "pend w q = []" using a(2) c q by (simp add: mysql_rows_left_def)
  then have "fst (mysql_fetch_row api w q) = None" by (rule fetch_documented(2) [OF d])
  then show "\<not> fst (mysql_fetch api c)"
    using c q by (cases "mysql_fetch_row api w q") (simp add: mysql_fetch_def mysql_fetch_next_row_def)
next
  fix c :: "('w, 'q) mysql_cursor" and v vs
  assume a: "mysql_at api pend n c" "mysql_row_rest c = v # vs"
  obtain r w where c: "c = (r, w)" by (cases c)
  obtain row where row: "my_row r = Some row" "text_cells (drop (unat (my_field r)) row) = v # vs" "length row = n"
    using a c by (auto simp: mysql_at_def mysql_row_rest_def split: option.splits)
  have i: "unat (my_field r) < n" using row(2,3) by (cases "unat (my_field r) < n") (auto simp: text_cells_def)
  have v: "v = map_option c_string (row ! unat (my_field r))" "vs = text_cells (drop (Suc (unat (my_field r))) row)"
    using row(2,3) i by (simp_all add: text_cells_def Cons_nth_drop_Suc [symmetric])
  have "mysql_column c = Some (v, mysql_advance r, w)"
    using c row i v by (cases "row ! unat (my_field r)") (simp_all add: mysql_column_def mysql_read_def mysql_cell_def)
  moreover have "mysql_at api pend n (mysql_advance r, w)" "mysql_rows_left pend (mysql_advance r, w) = mysql_rows_left pend c"
    using a(1) c by (simp_all add: mysql_at_def mysql_advance_def mysql_rows_left_def)
  moreover have "mysql_row_rest (mysql_advance r, w) = vs" if "vs \<noteq> []"
  proof -
    have "Suc (unat (my_field r)) < n" using that v row(3) by (cases "Suc (unat (my_field r)) < n") (auto simp: text_cells_def)
    then have "unat (my_field (mysql_advance r)) = Suc (unat (my_field r))"
      using advance_field [of r n] a(1) c i by (simp add: mysql_at_def)
    moreover have "my_row (mysql_advance r) = Some row" using row by (simp add: mysql_advance_def)
    ultimately show ?thesis using v by (simp add: mysql_row_rest_def)
  qed
  ultimately show "\<exists>c'. mysql_column c = Some (v, c') \<and> mysql_at api pend n c' \<and>
      mysql_rows_left pend c' = mysql_rows_left pend c \<and> (vs \<noteq> [] \<longrightarrow> mysql_row_rest c' = vs)"
    by blast
qed

text \<open>reading text columns row by row after \<open>set_result\<close> gives the rows the library has for the
  result set, each value up to its first NUL and null values as such.\<close>

theorem mysql_reads_rows:
  assumes "mysql_documented api pend n" "n < 2 ^ 32" "mysql_set_result api Mysql_Result_new (Some q) w = (r, w1)"
    and "length (pend w q) < k"
  shows "cursor_rows (mysql_fetch api) mysql_column n k (r, w1) = Some (map text_cells (pend w q))"
proof (rule my.rows_all)
  have r: "w1 = w" "my_result r = Some q" "my_row r = None" "my_field_count r = word_of_nat n"
    using assms(1,3) by (auto simp: mysql_set_result_def Mysql_Result_new_def mysql_documented_def)
  show "mysql_at api pend n (r, w1)" using assms(1,2) r by (simp add: mysql_at_def)
  show "mysql_rows_left pend (r, w1) = map text_cells (pend w q)" using r by (simp add: mysql_rows_left_def)
  show "\<forall>c \<in> set (map text_cells (pend w q)). length c = n"
    using assms(1) by (auto simp: mysql_documented_def text_cells_def)
  show "length (map text_cells (pend w q)) < k" using assms(4) by simp
qed

text \<open>A library with one result set, the rows it still has.\<close>

definition demo_mysql :: "((sql_cell \<times> sql_cell) list, unit) mysql_res_api" where
  "demo_mysql = \<lparr>mysql_num_rows = (\<lambda>w q. length w), mysql_num_fields = (\<lambda>w q. 2),
     mysql_fetch_row = (\<lambda>w q. case w of [] \<Rightarrow> (None, []) | (a, b) # rest \<Rightarrow> (Some [a, b], rest)),
     mysql_fetch_lengths = (\<lambda>w q. None), mysql_free_result = (\<lambda>w q. w)\<rparr>"

definition demo_pend :: "(sql_cell \<times> sql_cell) list \<Rightarrow> unit \<Rightarrow> sql_cell list list" where
  "demo_pend w q = map (\<lambda>(a, b). [a, b]) w"

lemma demo_mysql_documented: "mysql_documented demo_mysql demo_pend 2"
  by (auto simp: mysql_documented_def demo_mysql_def demo_pend_def split: list.splits)

theorem mysql_reads_rows_witness:
  "\<exists>r w1. mysql_set_result demo_mysql Mysql_Result_new (Some ()) [(Some ''1'', None), (Some ''2'', Some ''b'')] = (r, w1) \<and>
     cursor_rows (mysql_fetch demo_mysql) mysql_column 2 3 (r, w1) = Some [[Some ''1'', None], [Some ''2'', Some ''b'']]"
proof -
  let ?w = "[(Some ''1'', None), (Some ''2'', Some ''b'')]"
  obtain r w1 where r: "mysql_set_result demo_mysql Mysql_Result_new (Some ()) ?w = (r, w1)" by fastforce
  have "length (demo_pend ?w ()) < 3" by (simp add: demo_pend_def)
  moreover have "(2 :: nat) < 2 ^ 32" by simp
  ultimately have "cursor_rows (mysql_fetch demo_mysql) mysql_column 2 3 (r, w1) = Some (map text_cells (demo_pend ?w ()))"
    using mysql_reads_rows [OF demo_mysql_documented _ r] by blast
  moreover have "map text_cells (demo_pend ?w ()) = [[Some ''1'', None], [Some ''2'', Some ''b'']]"
    by (simp add: demo_pend_def text_cells_def c_string_def)
  ultimately show ?thesis using r by metis
qed

text \<open>once the last column was read the operators stay on it: the next read gives the last value
  again and changes nothing.\<close>

theorem mysql_last_column_repeats:
  assumes "my_row r = Some row" "my_field_count r = word_of_nat (length row)" "length row < 2 ^ 32"
    and "unat (my_field r) + 1 = length row"
  shows "mysql_text r val = Some (case last row of None \<Rightarrow> val | Some s \<Rightarrow> c_string s, r)"
proof -
  have "unat (my_field (mysql_advance r)) = unat (my_field r)"
    using advance_field [OF assms(2,3)] assms(4) by simp
  then have "my_field (mysql_advance r) = my_field r" unfolding word_unat_eq_iff .
  moreover have "mysql_advance r = r\<lparr>my_field := my_field (mysql_advance r)\<rparr>" by (simp add: mysql_advance_def)
  ultimately have "mysql_advance r = r" by simp
  moreover have "row \<noteq> []" using assms(4) by auto
  then have "row ! unat (my_field r) = last row" using assms(4) by (simp add: last_conv_nth) (metis add_diff_cancel_right' One_nat_def Suc_eq_plus1)
  ultimately show ?thesis using assms(1,4) by (simp add: mysql_text_def mysql_read_def mysql_cell_def)
qed

theorem mysql_last_column_repeats_witness:
  "mysql_text \<lparr>my_result = Some (), my_row = Some [Some ''a'', Some ''b''], my_field = 1, my_lengths = None,
     my_row_count = 1, my_field_count = 2\<rparr> ''x'' =
   Some (''b'', \<lparr>my_result = Some (), my_row = Some [Some ''a'', Some ''b''], my_field = 1, my_lengths = None,
     my_row_count = 1, my_field_count = 2\<rparr>)"
  using mysql_last_column_repeats [of "\<lparr>my_result = Some (), my_row = Some [Some ''a'', Some ''b''], my_field = 1, my_lengths = None,
     my_row_count = 1, my_field_count = 2\<rparr>" "[Some ''a'', Some ''b'']" "''x''"]
  by (simp add: c_string_def)

end
