(* ===== verification/MysqlHandler.thy ===== *)
theory MysqlHandler
  imports MysqlResult
begin

text \<open>
  A connection to a MySQL server: \<open>include/db/mysql_handler.h\<close>, \<open>src/db/mysql_handler.cpp\<close>. The client
  library is a record of functions over its state, which includes the \<open>MYSQL\<close> handle. The strings of
  the connection are arrays of characters of fixed length; reading one without a NUL is the value
  \<open>None\<close>. Results are 0 for success and -1 for failure.
\<close>

section \<open>State\<close>

definition my_success :: int where "my_success = 0"
definition my_fail :: int where "my_fail = - 1"
definition mysql_success :: int where "mysql_success = 0"
definition mysql_default_port :: "16 word" where "mysql_default_port = 3306"
definition mysql_string_length :: nat where "mysql_string_length = 128"
definition mysql_dbname_length :: nat where "mysql_dbname_length = 256"
definition MAX_SQL_STRING_LENGTH :: nat where "MAX_SQL_STRING_LENGTH = 0x20000"

record ('w, 'q) mysql_api = "('w, 'q) mysql_res_api" +
  mysql_init :: "'w \<Rightarrow> 'w"
  mysql_opt_timeout :: "32 word \<Rightarrow> 'w \<Rightarrow> 'w"
  mysql_opt_reconnect :: "bool \<Rightarrow> 'w \<Rightarrow> 'w"
  mysql_real_connect :: "string \<Rightarrow> string \<Rightarrow> string \<Rightarrow> string \<Rightarrow> 16 word \<Rightarrow> 'w \<Rightarrow> bool \<times> 'w"
  mysql_close :: "'w \<Rightarrow> 'w"
  mysql_ping :: "'w \<Rightarrow> int \<times> 'w"
  mysql_select_db :: "string \<Rightarrow> 'w \<Rightarrow> int \<times> 'w"
  mysql_real_query :: "string \<Rightarrow> nat \<Rightarrow> 'w \<Rightarrow> int \<times> 'w"
  mysql_store_result :: "'w \<Rightarrow> 'q option \<times> 'w"
  mysql_use_result :: "'w \<Rightarrow> 'q option \<times> 'w"
  mysql_field_count :: "'w \<Rightarrow> nat"
  mysql_affected_rows :: "'w \<Rightarrow> nat"
  mysql_insert_id :: "'w \<Rightarrow> nat"
  mysql_escape :: "string \<Rightarrow> nat \<Rightarrow> 'w \<Rightarrow> string \<times> nat"
  mysql_errno :: "'w \<Rightarrow> 32 word"
  mysql_error :: "'w \<Rightarrow> string"

abbreviation res_api :: "('w, 'q) mysql_api \<Rightarrow> ('w, 'q) mysql_res_api" where
  "res_api api \<equiv> mysql_res_api.truncate api"

record mysql_handler =
  host_ip :: string
  account :: string
  password :: string
  db_name :: string
  mh_port :: "16 word"
  m_szSQL :: string
  is_connected :: bool

section \<open>Character arrays\<close>

text \<open>\<open>strncpy\<close> of at most \<open>n\<close> characters, filled up with NULs.\<close>

definition strncpy_to :: "string \<Rightarrow> string \<Rightarrow> nat \<Rightarrow> string" where
  "strncpy_to dst src n = take n (c_string src @ replicate n (CHR 0x00)) @ drop n dst"

definition buffer_text :: "string \<Rightarrow> string option" where
  "buffer_text b = (if CHR 0x00 \<in> set b then Some (c_string b) else None)"

text \<open>The constructor clears the first character of each array; the rest is a parameter.\<close>

definition cleared :: "string \<Rightarrow> nat \<Rightarrow> string" where
  "cleared garbage n = CHR 0x00 # take n garbage"

definition Mysql_Handler_new :: "string \<Rightarrow> string \<Rightarrow> string \<Rightarrow> string \<Rightarrow> mysql_handler" where
  "Mysql_Handler_new g1 g2 g3 g4 = \<lparr>host_ip = cleared g1 mysql_string_length, account = cleared g2 mysql_string_length,
     password = cleared g3 mysql_string_length, db_name = cleared g4 mysql_dbname_length,
     mh_port = mysql_default_port, m_szSQL = [], is_connected = False\<rparr>"

section \<open>Connecting\<close>

definition mh_disconnect :: "('w, 'q) mysql_api \<Rightarrow> mysql_handler \<Rightarrow> 'w \<Rightarrow> int \<times> mysql_handler \<times> 'w" where
  "mh_disconnect api h w =
     (if \<not> is_connected h then (my_success, h, w)
      else (my_success, h\<lparr>is_connected := False\<rparr>, mysql_close api w))"

definition mh_destroy :: "('w, 'q) mysql_api \<Rightarrow> mysql_handler \<Rightarrow> 'w \<Rightarrow> 'w" where
  "mh_destroy api h w = snd (snd (mh_disconnect api h w))"

definition mh_fini :: "('w, 'q) mysql_api \<Rightarrow> mysql_handler \<Rightarrow> 'w \<Rightarrow> int \<times> mysql_handler \<times> 'w" where
  "mh_fini api h w =
     (let (h1, w1) = (if is_connected h then snd (mh_disconnect api h w) else (h, w)) in (my_success, h1, w1))"

definition mh_connect :: "('w, 'q) mysql_api \<Rightarrow> mysql_handler \<Rightarrow> 32 word \<Rightarrow> 'w \<Rightarrow> (int \<times> mysql_handler \<times> 'w) option" where
  "mh_connect api h timeout w =
     (let (h1, w1) = (if is_connected h then snd (mh_disconnect api h w) else (h, w));
          w2 = mysql_init api w1;
          w3 = (if 0 \<noteq> timeout then mysql_opt_timeout api timeout w2 else w2);
          w4 = mysql_opt_reconnect api True w3
      in case (buffer_text (host_ip h1), buffer_text (account h1), buffer_text (password h1), buffer_text (db_name h1)) of
           (Some host, Some user, Some pwd, Some db) \<Rightarrow>
             (let (ok, w5) = mysql_real_connect api host user pwd db (mh_port h1) w4
              in if \<not> ok then Some (my_fail, h1, w5) else Some (my_success, h1\<lparr>is_connected := True\<rparr>, w5))
         | _ \<Rightarrow> None)"

definition mh_init :: "('w, 'q) mysql_api \<Rightarrow> mysql_handler \<Rightarrow> string option \<Rightarrow> string option \<Rightarrow> string option \<Rightarrow> string option
    \<Rightarrow> 16 word \<Rightarrow> 'w \<Rightarrow> (int \<times> mysql_handler \<times> 'w) option" where
  "mh_init api h host user pwd db port w =
     (case (host, user, pwd, db) of
        (Some host', Some user', Some pwd', Some db') \<Rightarrow>
          mh_connect api (h\<lparr>host_ip := strncpy_to (host_ip h) host' mysql_string_length,
            account := strncpy_to (account h) user' mysql_string_length,
            password := strncpy_to (password h) pwd' mysql_string_length,
            db_name := strncpy_to (db_name h) db' mysql_dbname_length, mh_port := port\<rparr>) 15 w
      | _ \<Rightarrow> Some (my_fail, h, w))"

definition mh_select_db :: "('w, 'q) mysql_api \<Rightarrow> mysql_handler \<Rightarrow> string option \<Rightarrow> 'w \<Rightarrow> int \<times> mysql_handler \<times> 'w" where
  "mh_select_db api h name w =
     (case name of
        None \<Rightarrow> (my_fail, h, w)
      | Some n \<Rightarrow>
          let (r, w1) = mysql_select_db api n w
          in if mysql_success = r then (my_success, h\<lparr>db_name := strncpy_to (db_name h) n mysql_dbname_length\<rparr>, w1)
             else (my_fail, h, w1))"

definition mh_escape :: "('w, 'q) mysql_api \<Rightarrow> string \<Rightarrow> nat \<Rightarrow> 'w \<Rightarrow> int \<times> string" where
  "mh_escape api from len w = (let (to, n) = mysql_escape api from len w in (if 0 < n then my_success else my_fail, to))"

text \<open>The text the format and its arguments give is a parameter.\<close>

definition make_sql_string :: "mysql_handler \<Rightarrow> string \<Rightarrow> int \<times> mysql_handler" where
  "make_sql_string h formatted = (my_success, h\<lparr>m_szSQL := snprintf_text MAX_SQL_STRING_LENGTH formatted\<rparr>)"

definition get_sql_string :: "mysql_handler \<Rightarrow> string" where "get_sql_string h = m_szSQL h"
definition mh_last_errno :: "('w, 'q) mysql_api \<Rightarrow> 'w \<Rightarrow> 32 word" where "mh_last_errno api w = mysql_errno api w"
definition mh_last_error :: "('w, 'q) mysql_api \<Rightarrow> 'w \<Rightarrow> string" where "mh_last_error api w = mysql_error api w"

section \<open>Statements\<close>

text \<open>
  The outputs: the counts and the result object, each \<open>None\<close> when the caller passed no place for it.
  The second component of the answer is the object, then the outputs.
\<close>

record 'q sql_out =
  numaffect :: "32 word option"
  lastid :: "32 word option"
  dbresult :: "'q mysql_result option"

text \<open>Making sure of the connection: \<open>execute\<close>'s first part.\<close>

definition mh_ready :: "('w, 'q) mysql_api \<Rightarrow> mysql_handler \<Rightarrow> 'w \<Rightarrow> (bool \<times> mysql_handler \<times> 'w) option" where
  "mh_ready api h w =
     (if \<not> is_connected h
      then (case mh_connect api h 1 w of None \<Rightarrow> None | Some (r, h1, w1) \<Rightarrow> Some (my_success = r, h1, w1))
      else (let (r, w1) = mysql_ping api w in Some (mysql_success = r, h, w1)))"

definition mh_execute :: "('w, 'q) mysql_api \<Rightarrow> mysql_handler \<Rightarrow> string option \<Rightarrow> 'q sql_out \<Rightarrow> bool \<Rightarrow> nat \<Rightarrow> 'w
    \<Rightarrow> (int \<times> mysql_handler \<times> 'q sql_out \<times> 'w) option" where
  "mh_execute api h sql out bstore sqllen w =
     (case sql of
        None \<Rightarrow> Some (my_fail, h, out, w)
      | Some stmt \<Rightarrow>
          (case mh_ready api h w of
             None \<Rightarrow> None
           | Some (ready, h1, w1) \<Rightarrow>
               if \<not> ready then Some (my_fail, h1, out, w1)
               else
               let (result, w2) = mysql_real_query api stmt sqllen w1
               in if mysql_success \<noteq> result then Some (my_fail, h1, out, w2)
               else
               let counts = (\<lambda>out1 w3. Some (my_success, h1,
                     out1\<lparr>numaffect := map_option (\<lambda>_. word_of_nat (mysql_affected_rows api w3)) (numaffect out1),
                       lastid := map_option (\<lambda>_. word_of_nat (mysql_insert_id api w3)) (lastid out1)\<rparr>, w3))
               in (case dbresult out of
                     None \<Rightarrow> counts out w2
                   | Some db \<Rightarrow>
                       let (res, w3) = (if bstore then mysql_store_result api w2 else mysql_use_result api w2)
                       in if res = None \<and> mysql_field_count api w3 > 0 then Some (my_fail, h1, out, w3)
                          else let (db1, w4) = mysql_set_result (res_api api) db res w3
                               in counts (out\<lparr>dbresult := Some db1\<rparr>) w4)))"

text \<open>The three public forms, on the statement made before.\<close>

definition executeSQL_update :: "('w, 'q) mysql_api \<Rightarrow> mysql_handler \<Rightarrow> 32 word \<Rightarrow> 32 word \<Rightarrow> 'w
    \<Rightarrow> (int \<times> mysql_handler \<times> 'q sql_out \<times> 'w) option" where
  "executeSQL_update api h affected last_id w =
     mh_execute api h (Some (m_szSQL h)) \<lparr>numaffect = Some affected, lastid = Some last_id, dbresult = None\<rparr> False (length (m_szSQL h)) w"

definition executeSQL_store :: "('w, 'q) mysql_api \<Rightarrow> mysql_handler \<Rightarrow> 32 word \<Rightarrow> 'q mysql_result \<Rightarrow> 'w
    \<Rightarrow> (int \<times> mysql_handler \<times> 'q sql_out \<times> 'w) option" where
  "executeSQL_store api h affected db w =
     mh_execute api h (Some (m_szSQL h)) \<lparr>numaffect = Some affected, lastid = None, dbresult = Some db\<rparr> True (length (m_szSQL h)) w"

definition executeSQL_use :: "('w, 'q) mysql_api \<Rightarrow> mysql_handler \<Rightarrow> 'q mysql_result \<Rightarrow> 'w
    \<Rightarrow> (int \<times> mysql_handler \<times> 'q sql_out \<times> 'w) option" where
  "executeSQL_use api h db w =
     mh_execute api h (Some (m_szSQL h)) \<lparr>numaffect = None, lastid = None, dbresult = Some db\<rparr> False (length (m_szSQL h)) w"

section \<open>Facts\<close>

lemma strncpy_text:
  assumes "length (c_string src) < n"
  shows "buffer_text (strncpy_to dst src n) = Some (c_string src)"
proof -
  have "CHR 0x00 \<notin> set (c_string src)" by (auto simp: c_string_def dest: set_takeWhileD)
  moreover obtain k where k: "n - length (c_string src) = Suc k" using assms by (cases "n - length (c_string src)") auto
  then have "strncpy_to dst src n = c_string src @ CHR 0x00 # (replicate k (CHR 0x00) @ drop n dst)"
  proof -
    have "take n (c_string src @ replicate n (CHR 0x00)) = c_string src @ take (Suc k) (replicate n (CHR 0x00))"
      using assms k by simp
    moreover have "take (Suc k) (replicate n (CHR 0x00)) = replicate (Suc k) (CHR 0x00)" using k by simp
    ultimately show ?thesis by (simp add: strncpy_to_def)
  qed
  moreover have "c_string (a @ CHR 0x00 # b) = a" if "CHR 0x00 \<notin> set a" for a b
    unfolding c_string_def using that by (subst takeWhile_append2) auto
  ultimately show ?thesis by (simp add: buffer_text_def)
qed

lemma connect_result:
  assumes "mh_connect api h timeout w = Some (r, h1, w1)"
  shows "(r = my_success \<or> r = my_fail) \<and> (is_connected h1 \<longleftrightarrow> r = my_success)"
proof -
  obtain h0 w0 where c: "(if is_connected h then snd (mh_disconnect api h w) else (h, w)) = (h0, w0)" by fastforce
  have "\<not> is_connected h0" using c by (auto simp: mh_disconnect_def split: if_splits)
  then show ?thesis using assms unfolding mh_connect_def c
    by (auto simp: Let_def my_success_def my_fail_def split: option.splits prod.splits if_splits)
qed

lemma ready_connected:
  assumes "mh_ready api h w = Some (True, h1, w1)"
  shows "is_connected h1"
  using assms connect_result by (fastforce simp: mh_ready_def split: option.splits prod.splits if_splits)

text \<open>a statement that fails, at whatever step, leaves every output as it was; one that succeeds
  leaves the connection up and has stored exactly the outputs the caller asked for.\<close>

theorem mysql_execute_outputs:
  fixes out :: "'b sql_out"
  assumes "mh_execute api h sql out bstore len w = Some (r, h', out', w')"
  shows "(r = my_fail \<and> out' = out) \<or>
    (r = my_success \<and> is_connected h' \<and>
     (numaffect out' = None \<longleftrightarrow> numaffect out = None) \<and> (lastid out' = None \<longleftrightarrow> lastid out = None) \<and>
     (dbresult out' = None \<longleftrightarrow> dbresult out = None) \<and>
     (numaffect out \<noteq> None \<longrightarrow> numaffect out' = Some (word_of_nat (mysql_affected_rows api w'))) \<and>
     (lastid out \<noteq> None \<longrightarrow> lastid out' = Some (word_of_nat (mysql_insert_id api w'))))"
proof (cases sql)
  case None
  then show ?thesis using assms by (simp add: mh_execute_def)
next
  case (Some stmt)
  obtain ready h1 w1 where p: "mh_ready api h w = Some (ready, h1, w1)"
    using assms Some by (auto simp: mh_execute_def split: option.splits)
  obtain result w2 where q: "mysql_real_query api stmt len w1 = (result, w2)" by fastforce
  show ?thesis
  proof (cases "ready \<and> result = mysql_success")
    case False
    then show ?thesis using assms Some p q by (auto simp: mh_execute_def split: if_splits)
  next
    case True
    then have c: "is_connected h1" using ready_connected p by metis
    define counts where "counts = (\<lambda>(out1 :: 'b sql_out) w3. Some (my_success, h1,
        out1\<lparr>numaffect := map_option (\<lambda>_. word_of_nat (mysql_affected_rows api w3) :: 32 word) (numaffect out1),
          lastid := map_option (\<lambda>_. word_of_nat (mysql_insert_id api w3) :: 32 word) (lastid out1)\<rparr>, w3))"
    show ?thesis
    proof (cases "dbresult out")
      case none: None
      then have "counts out w2 = Some (r, h', out', w')"
        using assms Some p q True by (auto simp: mh_execute_def counts_def Let_def)
      then show ?thesis using c none by (auto simp: counts_def)
    next
      case (Some db)
      obtain res w3 where s: "(if bstore then mysql_store_result api w2 else mysql_use_result api w2) = (res, w3)" by fastforce
      obtain db1 w4 where t: "mysql_set_result (res_api api) db res w3 = (db1, w4)" by fastforce
      have "(if res = None \<and> mysql_field_count api w3 > 0 then Some (my_fail, h1, out, w3)
          else counts (out\<lparr>dbresult := Some db1\<rparr>) w4) = Some (r, h', out', w')"
        using assms \<open>sql = Some stmt\<close> p q True Some s t by (auto simp: mh_execute_def counts_def Let_def t split: if_splits)
      then show ?thesis using c Some by (auto simp: counts_def split: if_splits)
    qed
  qed
qed

text \<open>initialising a new handler with strings that fit connects with exactly those strings and the
  port, after setting a time limit of fifteen seconds and automatic reconnection; the handler counts
  as connected exactly when the library says so.\<close>

theorem mysql_init_connects:
  assumes "length (c_string host) < 128" "length (c_string user) < 128" "length (c_string pwd) < 128"
    and "length (c_string db) < 256"
  shows "\<exists>ok h' w'. mysql_real_connect api (c_string host) (c_string user) (c_string pwd) (c_string db) port
        (mysql_opt_reconnect api True (mysql_opt_timeout api 15 (mysql_init api w))) = (ok, w') \<and>
      mh_init api (Mysql_Handler_new g1 g2 g3 g4) (Some host) (Some user) (Some pwd) (Some db) port w =
        Some (if ok then my_success else my_fail, h', w') \<and> is_connected h' = ok"
proof -
  obtain ok w' where o: "mysql_real_connect api (c_string host) (c_string user) (c_string pwd) (c_string db) port
      (mysql_opt_reconnect api True (mysql_opt_timeout api 15 (mysql_init api w))) = (ok, w')"
    by fastforce
  have t: "buffer_text (strncpy_to b host mysql_string_length) = Some (c_string host)"
    "buffer_text (strncpy_to b user mysql_string_length) = Some (c_string user)"
    "buffer_text (strncpy_to b pwd mysql_string_length) = Some (c_string pwd)"
    "buffer_text (strncpy_to b db mysql_dbname_length) = Some (c_string db)" for b
    using strncpy_text assms by (simp_all add: mysql_string_length_def mysql_dbname_length_def)
  have "\<exists>h'. mh_init api (Mysql_Handler_new g1 g2 g3 g4) (Some host) (Some user) (Some pwd) (Some db) port w =
        Some (if ok then my_success else my_fail, h', w') \<and> is_connected h' = ok"
    using o by (simp add: mh_init_def mh_connect_def t Mysql_Handler_new_def Let_def)
  then show ?thesis using o by blast
qed

text \<open>A server that accepts every connection and statement, over the list of statements received.\<close>

definition demo_server_api :: "(string list, unit) mysql_api" where
  "demo_server_api = \<lparr>mysql_num_rows = (\<lambda>w q. 0), mysql_num_fields = (\<lambda>w q. 0), mysql_fetch_row = (\<lambda>w q. (None, w)),
     mysql_fetch_lengths = (\<lambda>w q. None), mysql_free_result = (\<lambda>w q. w),
     mysql_init = (\<lambda>w. w), mysql_opt_timeout = (\<lambda>t w. w), mysql_opt_reconnect = (\<lambda>b w. w),
     mysql_real_connect = (\<lambda>h u p d n w. (True, h # w)), mysql_close = (\<lambda>w. w), mysql_ping = (\<lambda>w. (0, w)),
     mysql_select_db = (\<lambda>n w. (0, w)), mysql_real_query = (\<lambda>s n w. (0, take n s # w)), mysql_store_result = (\<lambda>w. (Some (), w)),
     mysql_use_result = (\<lambda>w. (Some (), w)), mysql_field_count = (\<lambda>w. 0), mysql_affected_rows = (\<lambda>w. length w),
     mysql_insert_id = (\<lambda>w. 7), mysql_escape = (\<lambda>s n w. (s, length s)), mysql_errno = (\<lambda>w. 0), mysql_error = (\<lambda>w. [])\<rparr>"

definition demo_handler :: mysql_handler where
  "demo_handler = (Mysql_Handler_new [] [] [] [])\<lparr>m_szSQL := ''select 1'', is_connected := True\<rparr>"

theorem mysql_execute_outputs_witness:
  "\<exists>h' out'. executeSQL_update demo_server_api demo_handler 0 0 [] = Some (my_success, h', out', [''select 1'']) \<and>
     numaffect out' = Some 1 \<and> lastid out' = Some 7"
proof -
  have "\<exists>h' out'. executeSQL_update demo_server_api demo_handler 0 0 [] = Some (my_success, h', out', [''select 1''])"
    by (simp add: executeSQL_update_def mh_execute_def mh_ready_def demo_server_api_def demo_handler_def mysql_success_def my_success_def)
  then obtain h' out' where e: "executeSQL_update demo_server_api demo_handler 0 0 [] = Some (my_success, h', out', [''select 1''])"
    by blast
  have "mysql_affected_rows demo_server_api [''select 1''] = 1" "mysql_insert_id demo_server_api [''select 1''] = 7"
    by (simp_all add: demo_server_api_def)
  then show ?thesis using mysql_execute_outputs [OF e [unfolded executeSQL_update_def]] e
    by (simp add: my_success_def my_fail_def)
qed

theorem mysql_init_connects_witness:
  "\<exists>h'. mh_init demo_server_api (Mysql_Handler_new [] [] [] []) (Some ''localhost'') (Some ''root'') (Some []) (Some ''test'') 3306 [] =
     Some (my_success, h', [''localhost'']) \<and> is_connected h'"
proof -
  have c: "c_string ''localhost'' = ''localhost''" "c_string ''root'' = ''root''" "c_string [] = []" "c_string ''test'' = ''test''"
    by (simp_all add: c_string_def)
  have "mysql_real_connect demo_server_api ''localhost'' ''root'' [] ''test'' 3306 (mysql_opt_reconnect demo_server_api True
      (mysql_opt_timeout demo_server_api 15 (mysql_init demo_server_api []))) = (True, [''localhost''])"
    by (simp add: demo_server_api_def)
  then show ?thesis
    using mysql_init_connects [of "''localhost''" "''root''" "[]" "''test''" demo_server_api 3306 "[]" "[]" "[]" "[]" "[]"] c
    by auto
qed

end
