(* ===== verification/RedisHandler.thy ===== *)
theory RedisHandler
  imports MysqlHandler
begin

text \<open>
  A connection to a Redis server: \<open>include/db/redis_handler.h\<close>, \<open>src/db/redis_handler.cpp\<close>. The client
  library is a record of functions over its state; a command is a format with the arguments it
  names. The use of a context that was freed is the value \<open>None\<close>.
\<close>

section \<open>State\<close>

definition redis_success :: int where "redis_success = 0"
definition redis_fail :: int where "redis_fail = - 1"
definition redis_default_port :: "16 word" where "redis_default_port = 6379"
definition redis_string_length :: nat where "redis_string_length = 128"

datatype redis_arg = ArgText string | ArgSize nat

record ('w, 'c, 'r) redis_api =
  redisConnect :: "string \<Rightarrow> 16 word \<Rightarrow> 'w \<Rightarrow> 'c option \<times> 'w"
  redis_err :: "'c \<Rightarrow> 'w \<Rightarrow> int"
  redisFree :: "'c \<Rightarrow> 'w \<Rightarrow> 'w"
  redisvCommand :: "'c \<Rightarrow> string \<Rightarrow> redis_arg list \<Rightarrow> 'w \<Rightarrow> 'r option \<times> 'w"
  freeReplyObject :: "'r \<Rightarrow> 'w \<Rightarrow> 'w"

record 'c redis_handler =
  rh_host :: string
  rh_port :: "16 word"
  rh_account :: string
  rh_password :: string
  m_pRedisContext :: "'c option"

definition Redis_Handler_new :: "string \<Rightarrow> string \<Rightarrow> string \<Rightarrow> 'c redis_handler" where
  "Redis_Handler_new g1 g2 g3 = \<lparr>rh_host = cleared g1 redis_string_length, rh_port = redis_default_port,
     rh_account = cleared g2 redis_string_length, rh_password = cleared g3 redis_string_length, m_pRedisContext = None\<rparr>"

section \<open>Operations\<close>

definition Redis_Open :: "('w, 'c, 'r) redis_api \<Rightarrow> 'c redis_handler \<Rightarrow> string \<Rightarrow> 16 word \<Rightarrow> 'w \<Rightarrow> int \<times> 'c redis_handler \<times> 'w" where
  "Redis_Open api h pszIP uPort w =
     (let h1 = h\<lparr>rh_host := strncpy_to (rh_host h) pszIP redis_string_length, rh_port := uPort\<rparr>;
          (c, w1) = redisConnect api pszIP uPort w
      in case c of
           Some x \<Rightarrow> if redis_err api x w1 = 0 then (redis_success, h1\<lparr>m_pRedisContext := Some x\<rparr>, w1) else (redis_fail, h1, w1)
         | None \<Rightarrow> (redis_fail, h1, w1))"

definition Redis_Close :: "('w, 'c, 'r) redis_api \<Rightarrow> 'c redis_handler \<Rightarrow> 'w \<Rightarrow> 'c redis_handler \<times> 'w" where
  "Redis_Close api h w =
     (case m_pRedisContext h of
        Some c \<Rightarrow> (h\<lparr>m_pRedisContext := None\<rparr>, redisFree api c w)
      | None \<Rightarrow> (h\<lparr>m_pRedisContext := None\<rparr>, w))"

text \<open>
  The loop of \<open>ExecuteRedisCommand\<close>; \<open>freed\<close> says whether the context was freed in an earlier round,
  and then it may not be used any more.
\<close>

function redis_rounds :: "('w, 'c, 'r) redis_api \<Rightarrow> 'c \<Rightarrow> bool \<Rightarrow> string \<Rightarrow> redis_arg list \<Rightarrow> 'w \<Rightarrow> ('r \<times> 'w) option" where
  "redis_rounds api c freed fmt args w =
     (if freed then None
      else case redisvCommand api c fmt args w of
             (Some reply, w1) \<Rightarrow> Some (reply, w1)
           | (None, w1) \<Rightarrow> redis_rounds api c True fmt args (redisFree api c w1))"
  by pat_completeness auto
termination
  by (relation "measure (\<lambda>(api, c, freed, fmt, args, w). if freed then 0 else 1)") auto

declare redis_rounds.simps [simp del]

definition ExecuteRedisCommand :: "('w, 'c, 'r) redis_api \<Rightarrow> 'c redis_handler \<Rightarrow> string \<Rightarrow> redis_arg list \<Rightarrow> 'w
    \<Rightarrow> ('r option \<times> 'w) option" where
  "ExecuteRedisCommand api h fmt args w =
     (case m_pRedisContext h of
        None \<Rightarrow> Some (None, w)
      | Some c \<Rightarrow> (case redis_rounds api c False fmt args w of None \<Rightarrow> None | Some (reply, w1) \<Rightarrow> Some (Some reply, w1)))"

definition FreeReply :: "('w, 'c, 'r) redis_api \<Rightarrow> 'r option \<Rightarrow> 'w \<Rightarrow> 'r option \<times> 'w" where
  "FreeReply api reply w = (case reply of None \<Rightarrow> (None, w) | Some r \<Rightarrow> (None, freeReplyObject api r w))"

definition ExecuteCommand :: "('w, 'c, 'r) redis_api \<Rightarrow> 'c redis_handler \<Rightarrow> string \<Rightarrow> 'w \<Rightarrow> ('r option \<times> 'w) option" where
  "ExecuteCommand api h szCommand w = ExecuteRedisCommand api h szCommand [] w"

definition HSet :: "('w, 'c, 'r) redis_api \<Rightarrow> 'c redis_handler \<Rightarrow> string \<Rightarrow> string \<Rightarrow> string \<Rightarrow> nat \<Rightarrow> 'w \<Rightarrow> ('r option \<times> 'w) option" where
  "HSet api h szKey szField szValue nValueSize w =
     ExecuteRedisCommand api h ''HSET %s %s %b'' [ArgText szKey, ArgText szField, ArgText szValue, ArgSize nValueSize] w"

definition HGet :: "('w, 'c, 'r) redis_api \<Rightarrow> 'c redis_handler \<Rightarrow> string \<Rightarrow> string \<Rightarrow> 'w \<Rightarrow> ('r option \<times> 'w) option" where
  "HGet api h szKey szField w = ExecuteRedisCommand api h ''HGET %s %s'' [ArgText szKey, ArgText szField] w"

text \<open>a command on an open connection gives the server's reply when there is one; when the library
  reports an error by giving none, the context is freed and then used again. Without a connection
  the answer is no reply and nothing is sent.\<close>

theorem redis_command_cases:
  "ExecuteRedisCommand api h fmt args w =
     (case m_pRedisContext h of
        None \<Rightarrow> Some (None, w)
      | Some c \<Rightarrow>
          (case redisvCommand api c fmt args w of
             (Some reply, w1) \<Rightarrow> Some (Some reply, w1)
           | (None, w1) \<Rightarrow> None))"
proof (cases "m_pRedisContext h")
  case None
  then show ?thesis by (simp add: ExecuteRedisCommand_def)
next
  case (Some c)
  have "redis_rounds api c True fmt args v = None" for v by (subst redis_rounds.simps) simp
  then show ?thesis using Some
    by (simp add: ExecuteRedisCommand_def) (subst redis_rounds.simps, simp split: prod.splits option.splits)
qed

end
