(* ===== verification/StringUtility.thy ===== *)
theory StringUtility
  imports Prelude
begin

text \<open>
  \<open>string_utility::SplitString\<close> (\<open>src/common/stringutility.cpp\<close>): the loop over \<open>find_first_of\<close> and
  \<open>substr\<close>, as a partial function whose value is \<open>None\<close> where it does not return, and its equivalence
  with a structural splitting of the text.
\<close>

section \<open>The code\<close>

text \<open>\<open>std::string::find_first_of\<close> of one character; \<open>None\<close> is \<open>npos\<close>.\<close>

fun find_first_of :: "string \<Rightarrow> char \<Rightarrow> nat option" where
  "find_first_of [] c = None"
| "find_first_of (x # xs) c = (if x = c then Some 0 else map_option Suc (find_first_of xs c))"

text \<open>\<open>substr(pos)\<close>; a position behind the end throws, and \<open>None\<close> stands for that.\<close>

definition substr_from :: "string \<Rightarrow> nat \<Rightarrow> string option" where
  "substr_from s p = (if p \<le> length s then Some (drop p s) else None)"

text \<open>The state of the loop: \<open>kFormatPath\<close>, \<open>kPos\<close> and \<open>kResult\<close>.\<close>

partial_function (option) split_loop ::
  "char \<Rightarrow> string \<Rightarrow> nat option \<Rightarrow> string list \<Rightarrow> (string \<times> nat option \<times> string list) option" where
  "split_loop split path pos res =
     (case pos of
        None \<Rightarrow> Some (path, pos, res)
      | Some p \<Rightarrow>
          if length path > 0 then
            Option.bind (substr_from path (p + 1))
              (\<lambda>rest. split_loop split rest (find_first_of rest split) (res @ [take p path]))
          else Some (path, pos, res))"

definition SplitString :: "string \<Rightarrow> char \<Rightarrow> string list option" where
  "SplitString rkSrc split =
     Option.bind (split_loop split rkSrc (find_first_of rkSrc split) [])
       (\<lambda>(path, pos, res). Some (if pos = None \<and> length path > 0 then res @ [path] else res))"

section \<open>The reference\<close>

text \<open>The pieces between the separators, the empty ones included; then the last one when it is empty.\<close>

fun pieces :: "char \<Rightarrow> string \<Rightarrow> string list" where
  "pieces c [] = [[]]"
| "pieces c (x # xs) = (if x = c then [] # pieces c xs else (x # hd (pieces c xs)) # tl (pieces c xs))"

definition drop_empty_last :: "string list \<Rightarrow> string list" where
  "drop_empty_last ps = (if last ps = [] then butlast ps else ps)"

definition each_closed :: "char \<Rightarrow> string list \<Rightarrow> string" where
  "each_closed c ps = concat (map (\<lambda>p. p @ [c]) ps)"

section \<open>Facts\<close>

lemma pieces_not_empty [simp]: "pieces c s \<noteq> []"
  by (cases s) auto

lemma find_first_of_None: "find_first_of s c = None \<Longrightarrow> pieces c s = [s]"
  by (induction s) (auto split: if_splits)

lemma find_first_of_Some:
  "find_first_of s c = Some p \<Longrightarrow> p < length s \<and> pieces c s = take p s # pieces c (drop (p + 1) s)"
proof (induction s arbitrary: p)
  case Nil
  then show ?case by simp
next
  case (Cons x s)
  then show ?case by (auto split: if_splits)
qed

lemma drop_empty_last_Cons: "ps \<noteq> [] \<Longrightarrow> drop_empty_last (p # ps) = p # drop_empty_last ps"
  by (simp add: drop_empty_last_def)

text \<open>Where the loop stops, its result and the rest of the text make up the pieces.\<close>

lemma split_loop_pieces:
  "\<exists>path res'. split_loop c s (find_first_of s c) res = Some (path, None, res') \<and>
     (if length path > 0 then res' @ [path] else res') = res @ drop_empty_last (pieces c s)"
proof (induction s arbitrary: res rule: length_induct)
  case (1 s)
  show ?case
  proof (cases "find_first_of s c")
    case None
    then show ?thesis
      by (subst split_loop.simps) (simp add: find_first_of_None drop_empty_last_def)
  next
    case (Some p)
    note split = find_first_of_Some [OF Some]
    have shorter: "length (drop (p + 1) s) < length s" using split by (cases s) auto
    have "split_loop c s (find_first_of s c) res =
        split_loop c (drop (p + 1) s) (find_first_of (drop (p + 1) s) c) (res @ [take p s])"
      using split Some by (subst split_loop.simps) (auto simp: substr_from_def)
    then show ?thesis
      using 1 [rule_format, OF shorter, of "res @ [take p s]"] split
      by (simp add: drop_empty_last_Cons)
  qed
qed

lemma SplitString_pieces: "SplitString s c = Some (drop_empty_last (pieces c s))"
  using split_loop_pieces [of c s "[]"] by (auto simp: SplitString_def)

lemma pieces_free: "p \<in> set (pieces c s) \<Longrightarrow> c \<notin> set p"
proof (induction s arbitrary: p)
  case Nil
  then show ?case by simp
next
  case (Cons x s)
  have "hd (pieces c s) \<in> set (pieces c s)" by simp
  moreover have "q \<in> set (tl (pieces c s)) \<Longrightarrow> q \<in> set (pieces c s)" for q by (rule list.set_sel) simp
  ultimately show ?case using Cons by (auto split: if_splits)
qed

lemma each_closed_pieces: "each_closed c (pieces c s) = s @ [c]"
proof (induction s)
  case Nil
  then show ?case by (simp add: each_closed_def)
next
  case (Cons x s)
  obtain p ps where "pieces c s = p # ps" by (cases "pieces c s") auto
  then show ?case using Cons by (auto simp: each_closed_def)
qed

lemma each_closed_drop:
  "ps \<noteq> [] \<Longrightarrow> each_closed c ps = (if last ps = [] then each_closed c (drop_empty_last ps) @ [c]
                                       else each_closed c (drop_empty_last ps))"
  by (induction ps rule: rev_induct) (auto simp: drop_empty_last_def each_closed_def)

section \<open>Properties\<close>

text \<open>\<open>SplitString\<close> always returns, and returns the pieces of the text between the separators,
  the empty ones at the start and in the middle included; only an empty last piece is left out, so that
  the empty text has no pieces.\<close>

theorem split_is_pieces:
  "SplitString s c = Some (drop_empty_last (pieces c s))"
  by (rule SplitString_pieces)

text \<open>\<open>SplitString\<close> loses nothing: the pieces hold no separator, and closing each of them with
  the separator gives back the text, or the text with one separator at its end when it had none.\<close>

theorem split_loses_nothing:
  "\<exists>ps. SplitString s c = Some ps \<and> list_all (\<lambda>p. c \<notin> set p) ps \<and>
     each_closed c ps = (if s = [] \<or> last s = c then s else s @ [c])"
proof -
  let ?ps = "drop_empty_last (pieces c s)"
  have free: "list_all (\<lambda>p. c \<notin> set p) ?ps"
    using pieces_free [of _ c s] by (auto simp: list_all_iff drop_empty_last_def dest: in_set_butlastD split: if_splits)
  have whole: "s @ [c] = (if last (pieces c s) = [] then each_closed c ?ps @ [c] else each_closed c ?ps)"
    using each_closed_drop [of "pieces c s" c] by (simp add: each_closed_pieces)
  have last_empty: "last (pieces c s) = [] \<longleftrightarrow> s = [] \<or> last s = c"
  proof (induction s)
    case Nil
    then show ?case by simp
  next
    case (Cons x s)
    obtain p ps where "pieces c s = p # ps" by (cases "pieces c s") auto
    then show ?case using Cons by (cases s) (auto split: if_splits)
  qed
  show ?thesis
    using free whole last_empty by (auto simp: SplitString_pieces split: if_splits)
qed

end
