(* ===== verification/Base64.thy ===== *)
theory Base64
  imports Prelude
begin

text \<open>
  \<open>Base64Encode\<close> and \<open>Base64Decode\<close> (\<open>src/common/base64.cpp\<close>) over the iterator adaptors they are
  made of, \<open>transform_width\<close>, \<open>base64_from_binary\<close> and \<open>binary_from_base64\<close> (the copies of the boost
  headers under \<open>src/lib/boost\<close>). The loops are partial functions, \<open>None\<close> where they do not return;
  an exception and a read behind the terminator of the string are values.
\<close>

section \<open>transform_width\<close>

datatype base64_error = Invalid_base64_character | Read_past_end

text \<open>The state of an iterator; the base iterator is the position in the text it walks through.\<close>

record width_iter =
  base_pos :: nat
  buffer_out_full :: bool
  buffer_out :: tbyte
  buffer_in :: tbyte
  remaining_bits :: nat
  end_of_sequence :: bool

definition width_begin :: "nat \<Rightarrow> width_iter" where
  "width_begin p = \<lparr>base_pos = p, buffer_out_full = False, buffer_out = 0, buffer_in = 0,
     remaining_bits = 0, end_of_sequence = False\<rparr>"

text \<open>A character of a string; \<open>*end()\<close> reads the terminator.\<close>

definition char_at :: "tbyte list \<Rightarrow> nat \<Rightarrow> base64_error + tbyte" where
  "char_at s p = (if p < length s then Inr (s ! p) else if p = length s then Inr 0 else Inl Read_past_end)"

text \<open>The head of the loop body of \<open>fill\<close>: a new element of the base sequence when no bits are left.\<close>

definition refill :: "nat \<Rightarrow> (nat \<Rightarrow> base64_error + tbyte) \<Rightarrow> nat \<Rightarrow> width_iter \<Rightarrow> base64_error + width_iter" where
  "refill bits_in rd missing w =
     (if remaining_bits w = 0 then
        (if end_of_sequence w then Inr (w\<lparr>buffer_in := 0, remaining_bits := missing\<rparr>)
         else (case rd (base_pos w) of
                 Inl e \<Rightarrow> Inl e
               | Inr c \<Rightarrow> Inr (w\<lparr>buffer_in := c, base_pos := base_pos w + 1, remaining_bits := bits_in\<rparr>)))
      else Inr w)"

text \<open>The rest of the loop body: \<open>i\<close> bits move to the output; \<open>char\<close> is signed, so the shift is arithmetic.\<close>

definition take_bits :: "nat \<Rightarrow> width_iter \<Rightarrow> width_iter" where
  "take_bits i w =
     (let j = signed_drop_bit (remaining_bits w - i) (buffer_in w) AND (push_bit i 1 - 1)
      in w\<lparr>buffer_out := push_bit i (buffer_out w) OR j, remaining_bits := remaining_bits w - i\<rparr>)"

partial_function (option) fill_loop ::
  "nat \<Rightarrow> (nat \<Rightarrow> base64_error + tbyte) \<Rightarrow> nat \<Rightarrow> width_iter \<Rightarrow> (base64_error + width_iter) option" where
  "fill_loop bits_in rd missing w =
     (case refill bits_in rd missing w of
        Inl e \<Rightarrow> Some (Inl e)
      | Inr w1 \<Rightarrow>
          (let i = min missing (remaining_bits w1); w2 = take_bits i w1; missing' = missing - i
           in if 0 < missing' then fill_loop bits_in rd missing' w2
              else Some (Inr (w2\<lparr>buffer_out_full := True\<rparr>))))"

definition fill :: "nat \<Rightarrow> nat \<Rightarrow> (nat \<Rightarrow> base64_error + tbyte) \<Rightarrow> width_iter \<Rightarrow> (base64_error + width_iter) option" where
  "fill bits_out bits_in rd w = fill_loop bits_in rd bits_out (w\<lparr>buffer_out := 0\<rparr>)"

definition width_dereference ::
  "nat \<Rightarrow> nat \<Rightarrow> (nat \<Rightarrow> base64_error + tbyte) \<Rightarrow> width_iter \<Rightarrow> (base64_error + tbyte \<times> width_iter) option" where
  "width_dereference bits_out bits_in rd w =
     (if buffer_out_full w then Some (Inr (buffer_out w, w))
      else map_option (map_sum id (\<lambda>w'. (buffer_out w', w'))) (fill bits_out bits_in rd w))"

text \<open>The comparison notes that the end was reached when left over bits are to be filled with zeros.\<close>

definition equal_impl :: "nat \<Rightarrow> nat \<Rightarrow> width_iter \<Rightarrow> width_iter \<Rightarrow> bool \<times> width_iter" where
  "equal_impl bits_out bits_in w rhs =
     (if bits_in < bits_out then (base_pos w = base_pos rhs, w)
      else if base_pos w = base_pos rhs then (remaining_bits w = 0, w\<lparr>end_of_sequence := True\<rparr>)
      else (False, w))"

definition width_increment :: "width_iter \<Rightarrow> width_iter" where
  "width_increment w = w\<lparr>buffer_out_full := False\<rparr>"

section \<open>The alphabet\<close>

definition from_6_bit_table :: "tbyte list" where
  "from_6_bit_table = map of_char ''ABCDEFGHIJKLMNOPQRSTUVWXYZabcdefghijklmnopqrstuvwxyz0123456789+/''"

definition from_6_bit :: "tbyte \<Rightarrow> tbyte" where
  "from_6_bit t = from_6_bit_table ! unat t"

definition to_6_bit_table :: "int list" where
  "to_6_bit_table =
    [-1,-1,-1,-1,-1,-1,-1,-1,-1,-1,-1,-1,-1,-1,-1,-1,
     -1,-1,-1,-1,-1,-1,-1,-1,-1,-1,-1,-1,-1,-1,-1,-1,
     -1,-1,-1,-1,-1,-1,-1,-1,-1,-1,-1,62,-1,-1,-1,63,
     52,53,54,55,56,57,58,59,60,61,-1,-1,-1, 0,-1,-1,
     -1, 0, 1, 2, 3, 4, 5, 6, 7, 8, 9,10,11,12,13,14,
     15,16,17,18,19,20,21,22,23,24,25,-1,-1,-1,-1,-1,
     -1,26,27,28,29,30,31,32,33,34,35,36,37,38,39,40,
     41,42,43,44,45,46,47,48,49,50,51,-1,-1,-1,-1,-1]"

definition to_6_bit :: "tbyte \<Rightarrow> base64_error + tbyte" where
  "to_6_bit t =
     (let value = (if unat t \<le> 127 then to_6_bit_table ! unat t else -1)
      in if value = -1 then Inl Invalid_base64_character else Inr (word_of_int value))"

section \<open>Base64Encode and Base64Decode\<close>

text \<open>\<open>std::copy\<close> from the begin to the end iterator, each element through \<open>f\<close>.\<close>

partial_function (option) copy_loop ::
  "nat \<Rightarrow> nat \<Rightarrow> (nat \<Rightarrow> base64_error + tbyte) \<Rightarrow> (tbyte \<Rightarrow> tbyte) \<Rightarrow> width_iter \<Rightarrow> width_iter \<Rightarrow> tbyte list
     \<Rightarrow> (base64_error + tbyte list) option" where
  "copy_loop bits_out bits_in rd f first last_iter out =
     (let (eq, first1) = equal_impl bits_out bits_in first last_iter
      in if eq then Some (Inr out)
         else Option.bind (width_dereference bits_out bits_in rd first1)
           (\<lambda>r. case r of
              Inl e \<Rightarrow> Some (Inl e)
            | Inr d \<Rightarrow>
                copy_loop bits_out bits_in rd f (width_increment (snd d)) last_iter (out @ [f (fst d)])))"

text \<open>
  Both give the truth value returned and the text left in \<open>output\<close>. The encoder has no handler for
  exceptions: one would leave the function.
\<close>

definition Base64Encode :: "tbyte list \<Rightarrow> (base64_error + bool \<times> tbyte list) option" where
  "Base64Encode input =
     map_option (map_sum id (\<lambda>result.
        let equal_count = (3 - length input mod 3) mod 3; res = result @ replicate equal_count (of_char (CHR ''=''))
        in (res \<noteq> [], res)))
       (copy_loop 6 8 (char_at input) from_6_bit (width_begin 0) (width_begin (length input)) [])"

definition Base64Decode :: "tbyte list \<Rightarrow> tbyte list \<Rightarrow> (bool \<times> tbyte list) option" where
  "Base64Decode input output =
     map_option (\<lambda>r. case r of Inl e \<Rightarrow> (False, output) | Inr result \<Rightarrow> (result \<noteq> [], result))
       (copy_loop 8 6 (\<lambda>p. case char_at input p of Inl e \<Rightarrow> Inl e | Inr c \<Rightarrow> to_6_bit c) id
          (width_begin 0) (width_begin (length input)) [])"

section \<open>The reference\<close>

text \<open>
  Base64 by groups: three bytes make four characters, one or two bytes left over are filled with zero
  bits and the group with \<open>=\<close>; back, four characters make three bytes, two or three left over make
  one or two, and a single character left over is an error.
\<close>

fun encode_ref :: "tbyte list \<Rightarrow> tbyte list" where
  "encode_ref [] = []"
| "encode_ref [a] = map from_6_bit [drop_bit 2 a, push_bit 4 (a AND 3)] @ replicate 2 (of_char (CHR ''=''))"
| "encode_ref [a, b] =
     map from_6_bit [drop_bit 2 a, push_bit 4 (a AND 3) OR drop_bit 4 b, push_bit 2 (b AND 15)] @ [of_char (CHR ''='')]"
| "encode_ref (a # b # c # s) =
     map from_6_bit [drop_bit 2 a, push_bit 4 (a AND 3) OR drop_bit 4 b,
       push_bit 2 (b AND 15) OR drop_bit 6 c, c AND 63] @ encode_ref s"

definition byte0 :: "tbyte \<Rightarrow> tbyte \<Rightarrow> tbyte" where
  "byte0 v w = push_bit 2 (v AND 63) OR (drop_bit 4 w AND 3)"

definition byte1 :: "tbyte \<Rightarrow> tbyte \<Rightarrow> tbyte" where
  "byte1 v w = push_bit 4 (v AND 15) OR (drop_bit 2 w AND 15)"

definition byte2 :: "tbyte \<Rightarrow> tbyte \<Rightarrow> tbyte" where
  "byte2 v w = push_bit 6 (v AND 3) OR (w AND 63)"

fun decode_values :: "tbyte list \<Rightarrow> tbyte list option" where
  "decode_values [] = Some []"
| "decode_values [v0] = None"
| "decode_values [v0, v1] = Some [byte0 v0 v1]"
| "decode_values [v0, v1, v2] = Some [byte0 v0 v1, byte1 v1 v2]"
| "decode_values (v0 # v1 # v2 # v3 # vs) =
     map_option (\<lambda>r. byte0 v0 v1 # byte1 v1 v2 # byte2 v2 v3 # r) (decode_values vs)"

definition decode_ref :: "tbyte list \<Rightarrow> tbyte list option" where
  "decode_ref t =
     (if list_all (\<lambda>c. isl (to_6_bit c) = False) t then decode_values (map (\<lambda>c. projr (to_6_bit c)) t) else None)"

section \<open>Bits\<close>

lemma masks: "(63 :: tbyte) = mask 6" "(15 :: tbyte) = mask 4" "(3 :: tbyte) = mask 2"
  by (simp_all add: mask_eq_exp_minus_1)

lemma drop_bits_signed:
  "signed_drop_bit 2 a AND 63 = drop_bit 2 (a :: tbyte)"
  "signed_drop_bit 4 a AND 15 = drop_bit 4 (a :: tbyte)"
  "signed_drop_bit 6 a AND 3 = drop_bit 6 (a :: tbyte)"
  unfolding masks by (rule bit_word_eqI, auto simp: bit_simps dest: bit_imp_le_length)+

lemma drop_bits_signed_small:
  "signed_drop_bit 4 a AND 3 = drop_bit 4 (a :: tbyte) AND 3"
  "signed_drop_bit 2 a AND 15 = drop_bit 2 (a :: tbyte) AND 15"
  unfolding masks by (rule bit_word_eqI, auto simp: bit_simps)+

lemma bit_minus_plus:
  "bit (a :: tbyte) (k + (n - k)) = (if k \<le> n then bit a n else bit a k)"
  by auto

lemmas bit_minus_plus_2 = bit_minus_plus [of _ 2, simplified]

lemma regroup:
  "byte0 (drop_bit 2 a) (push_bit 4 (a AND 3) OR drop_bit 4 b) = a"
  "byte1 (push_bit 4 (a AND 3) OR drop_bit 4 b) (push_bit 2 (b AND 15) OR drop_bit 6 c) = b"
  "byte2 (push_bit 2 (b AND 15) OR drop_bit 6 c) (c AND 63) = c"
  unfolding byte0_def byte1_def byte2_def masks
  by (rule bit_word_eqI, auto simp: bit_simps bit_minus_plus bit_minus_plus_2)+

lemma to_from_6_bit: "unat v < 64 \<Longrightarrow> to_6_bit (from_6_bit v) = Inr v"
proof -
  assume v: "unat v < 64"
  have "list_all (\<lambda>n. to_6_bit (from_6_bit (word_of_nat n)) = Inr (word_of_nat n)) [0..<64]" by code_simp
  then have "to_6_bit (from_6_bit (word_of_nat (unat v))) = Inr (word_of_nat (unat v))"
    using v unfolding list_all_iff by (metis atLeastLessThan_iff le0 set_upt)
  then show ?thesis by simp
qed

section \<open>One output element\<close>

lemma fill_8_to_6:
  "rd (base_pos w) = Inr a \<Longrightarrow> remaining_bits w = 0 \<Longrightarrow> \<not> end_of_sequence w \<Longrightarrow>
     fill 6 8 rd w = Some (Inr (w\<lparr>base_pos := base_pos w + 1, buffer_out_full := True,
       buffer_out := drop_bit 2 a, buffer_in := a, remaining_bits := 2\<rparr>))"
  "rd (base_pos w) = Inr a \<Longrightarrow> remaining_bits w = 2 \<Longrightarrow> \<not> end_of_sequence w \<Longrightarrow>
     fill 6 8 rd w = Some (Inr (w\<lparr>base_pos := base_pos w + 1, buffer_out_full := True,
       buffer_out := push_bit 4 (buffer_in w AND 3) OR drop_bit 4 a, buffer_in := a, remaining_bits := 4\<rparr>))"
  "rd (base_pos w) = Inr a \<Longrightarrow> remaining_bits w = 4 \<Longrightarrow> \<not> end_of_sequence w \<Longrightarrow>
     fill 6 8 rd w = Some (Inr (w\<lparr>base_pos := base_pos w + 1, buffer_out_full := True,
       buffer_out := push_bit 2 (buffer_in w AND 15) OR drop_bit 6 a, buffer_in := a, remaining_bits := 6\<rparr>))"
  "remaining_bits w = 6 \<Longrightarrow>
     fill 6 8 rd w = Some (Inr (w\<lparr>buffer_out_full := True, buffer_out := buffer_in w AND 63, remaining_bits := 0\<rparr>))"
  by (simp add: fill_def, subst fill_loop.simps, simp add: refill_def take_bits_def drop_bits_signed,
      (subst fill_loop.simps, simp add: refill_def take_bits_def drop_bits_signed)?)+

lemma fill_zero_bits:
  "remaining_bits w = 2 \<Longrightarrow> end_of_sequence w \<Longrightarrow>
     fill 6 8 rd w = Some (Inr (w\<lparr>buffer_out_full := True, buffer_out := push_bit 4 (buffer_in w AND 3),
       buffer_in := 0, remaining_bits := 0\<rparr>))"
  "remaining_bits w = 4 \<Longrightarrow> end_of_sequence w \<Longrightarrow>
     fill 6 8 rd w = Some (Inr (w\<lparr>buffer_out_full := True, buffer_out := push_bit 2 (buffer_in w AND 15),
       buffer_in := 0, remaining_bits := 0\<rparr>))"
  by (simp add: fill_def, subst fill_loop.simps, simp add: refill_def take_bits_def,
      subst fill_loop.simps, simp add: refill_def take_bits_def)+

lemma fill_6_to_8:
  "rd (base_pos w) = Inr a \<Longrightarrow> rd (base_pos w + 1) = Inr b \<Longrightarrow> remaining_bits w = 0 \<Longrightarrow> \<not> end_of_sequence w \<Longrightarrow>
     fill 8 6 rd w = Some (Inr (w\<lparr>base_pos := base_pos w + 2, buffer_out_full := True,
       buffer_out := byte0 a b, buffer_in := b, remaining_bits := 4\<rparr>))"
  "rd (base_pos w) = Inr a \<Longrightarrow> remaining_bits w = 4 \<Longrightarrow> \<not> end_of_sequence w \<Longrightarrow>
     fill 8 6 rd w = Some (Inr (w\<lparr>base_pos := base_pos w + 1, buffer_out_full := True,
       buffer_out := byte1 (buffer_in w) a, buffer_in := a, remaining_bits := 2\<rparr>))"
  "rd (base_pos w) = Inr a \<Longrightarrow> remaining_bits w = 2 \<Longrightarrow> \<not> end_of_sequence w \<Longrightarrow>
     fill 8 6 rd w = Some (Inr (w\<lparr>base_pos := base_pos w + 1, buffer_out_full := True,
       buffer_out := byte2 (buffer_in w) a, buffer_in := a, remaining_bits := 0\<rparr>))"
  by (simp add: fill_def, subst fill_loop.simps, simp add: refill_def take_bits_def drop_bits_signed_small,
      subst fill_loop.simps, simp add: refill_def take_bits_def drop_bits_signed_small byte0_def byte1_def byte2_def)+

lemma fill_error:
  "rd (base_pos w) = Inl e \<Longrightarrow> remaining_bits w = 0 \<Longrightarrow> \<not> end_of_sequence w \<Longrightarrow> fill 8 6 rd w = Some (Inl e)"
  "rd (base_pos w) = Inr a \<Longrightarrow> rd (base_pos w + 1) = Inl e \<Longrightarrow> remaining_bits w = 0 \<Longrightarrow> \<not> end_of_sequence w \<Longrightarrow>
     fill 8 6 rd w = Some (Inl e)"
  "rd (base_pos w) = Inl e \<Longrightarrow> remaining_bits w = 4 \<Longrightarrow> \<not> end_of_sequence w \<Longrightarrow> fill 8 6 rd w = Some (Inl e)"
  "rd (base_pos w) = Inl e \<Longrightarrow> remaining_bits w = 2 \<Longrightarrow> \<not> end_of_sequence w \<Longrightarrow> fill 8 6 rd w = Some (Inl e)"
  by (simp add: fill_def, subst fill_loop.simps, simp add: refill_def take_bits_def,
      (subst fill_loop.simps, simp add: refill_def take_bits_def)?)+

section \<open>The copy\<close>

lemmas copy_simps = equal_impl_def width_begin_def fill_8_to_6 fill_zero_bits fill_6_to_8 fill_error
  width_dereference_def width_increment_def

text \<open>The copy with its iterators written out; it rewrites one element at a time.\<close>

definition copy_from ::
  "nat \<Rightarrow> nat \<Rightarrow> (nat \<Rightarrow> base64_error + tbyte) \<Rightarrow> (tbyte \<Rightarrow> tbyte) \<Rightarrow> nat \<Rightarrow> nat \<Rightarrow> tbyte \<Rightarrow> nat \<Rightarrow> bool \<Rightarrow> tbyte \<Rightarrow> tbyte list
     \<Rightarrow> (base64_error + tbyte list) option" where
  "copy_from bo bi rd f n p c r e b out =
     copy_loop bo bi rd f \<lparr>base_pos = p, buffer_out_full = False, buffer_out = b, buffer_in = c,
       remaining_bits = r, end_of_sequence = e\<rparr> (width_begin n) out"

lemma copy_from_start: "copy_loop bo bi rd f (width_begin 0) (width_begin n) [] = copy_from bo bi rd f n 0 0 0 False 0 []"
  by (simp add: copy_from_def width_begin_def)

lemma copy_from_end: "copy_from bo bi rd f n n c 0 e b out = Some (Inr out)"
  unfolding copy_from_def by (subst copy_loop.simps, simp add: copy_simps)

lemma copy_from_8_to_6:
  "p < n \<Longrightarrow> rd p = Inr a \<Longrightarrow>
     copy_from 6 8 rd f n p c 0 False b out = copy_from 6 8 rd f n (p + 1) a 2 False (drop_bit 2 a) (out @ [f (drop_bit 2 a)])"
  "p < n \<Longrightarrow> rd p = Inr a \<Longrightarrow> copy_from 6 8 rd f n p c 2 False b out =
     (let v = push_bit 4 (c AND 3) OR drop_bit 4 a in copy_from 6 8 rd f n (p + 1) a 4 False v (out @ [f v]))"
  "p < n \<Longrightarrow> rd p = Inr a \<Longrightarrow> copy_from 6 8 rd f n p c 4 False b out =
     (let v = push_bit 2 (c AND 15) OR drop_bit 6 a in copy_from 6 8 rd f n (p + 1) a 6 False v (out @ [f v]))"
  "p < n \<Longrightarrow> copy_from 6 8 rd f n p c 6 e b out = copy_from 6 8 rd f n p c 0 e (c AND 63) (out @ [f (c AND 63)])"
  "copy_from 6 8 rd f n n c 6 e b out = Some (Inr (out @ [f (c AND 63)]))"
  "copy_from 6 8 rd f n n c 2 e b out = Some (Inr (out @ [f (push_bit 4 (c AND 3))]))"
  "copy_from 6 8 rd f n n c 4 e b out = Some (Inr (out @ [f (push_bit 2 (c AND 15))]))"
  unfolding copy_from_def
  by (subst copy_loop.simps, simp add: copy_simps Let_def,
      (subst copy_loop.simps, simp add: copy_simps)?)+

lemma copy_from_6_to_8:
  "p < n \<Longrightarrow> rd p = Inr a \<Longrightarrow> rd (p + 1) = Inr d \<Longrightarrow> copy_from 8 6 rd f n p c 0 False b out =
     copy_from 8 6 rd f n (p + 2) d 4 False (byte0 a d) (out @ [f (byte0 a d)])"
  "p < n \<Longrightarrow> rd p = Inr a \<Longrightarrow> copy_from 8 6 rd f n p c 4 False b out =
     copy_from 8 6 rd f n (p + 1) a 2 False (byte1 c a) (out @ [f (byte1 c a)])"
  "p < n \<Longrightarrow> rd p = Inr a \<Longrightarrow> copy_from 8 6 rd f n p c 2 False b out =
     copy_from 8 6 rd f n (p + 1) a 0 False (byte2 c a) (out @ [f (byte2 c a)])"
  "copy_from 8 6 rd f n n c r e b out = Some (Inr out)"
  unfolding copy_from_def
  by (subst copy_loop.simps, simp add: copy_simps)+

lemma copy_from_error:
  "p < n \<Longrightarrow> rd p = Inl x \<Longrightarrow> copy_from 8 6 rd f n p c 0 False b out = Some (Inl x)"
  "p < n \<Longrightarrow> rd p = Inr a \<Longrightarrow> rd (p + 1) = Inl x \<Longrightarrow> copy_from 8 6 rd f n p c 0 False b out = Some (Inl x)"
  "p < n \<Longrightarrow> rd p = Inl x \<Longrightarrow> copy_from 8 6 rd f n p c 4 False b out = Some (Inl x)"
  "p < n \<Longrightarrow> rd p = Inl x \<Longrightarrow> copy_from 8 6 rd f n p c 2 False b out = Some (Inl x)"
  unfolding copy_from_def
  by (subst copy_loop.simps, simp add: copy_simps)+

section \<open>The loops against the reference\<close>

lemma encode_from:
  assumes "\<And>i. i < length s \<Longrightarrow> rd (p + i) = Inr (s ! i)" and "n = p + length s"
  shows "\<exists>r. copy_from 6 8 rd from_6_bit n p c 0 False b out = Some (Inr (out @ r)) \<and>
    encode_ref s = r @ replicate ((3 - length s mod 3) mod 3) (of_char (CHR ''=''))"
  using assms
proof (induction s arbitrary: p c b out rule: encode_ref.induct)
  case 1
  then show ?case by (simp add: copy_from_end)
next
  case (2 a)
  then have "rd p = Inr a" by (metis add.right_neutral length_Cons nth_Cons_0 zero_less_Suc)
  then show ?case using 2 by (simp add: copy_from_8_to_6)
next
  case (3 a d)
  then have "rd p = Inr a" "rd (p + 1) = Inr d" using 3(1) [of 0] 3(1) [of 1] by simp_all
  then show ?case using 3(2) by (simp add: copy_from_8_to_6 Let_def)
next
  case (4 a d e s)
  have rd: "rd p = Inr a" "rd (Suc p) = Inr d" "rd (Suc (Suc p)) = Inr e"
    using 4(2) [of 0] 4(2) [of 1] 4(2) [of "Suc (Suc 0)"] by simp_all
  let ?q = "Suc (Suc (Suc p))"
  let ?vs = "map from_6_bit [drop_bit 2 a, push_bit 4 (a AND 3) OR drop_bit 4 d,
       push_bit 2 (d AND 15) OR drop_bit 6 e, e AND 63]"
  have rest: "rd (?q + i) = Inr (s ! i)" if "i < length s" for i
    using 4(2) [of "Suc (Suc (Suc i))"] that by simp
  have n: "n = ?q + length s" using 4(3) by simp
  obtain r where r: "copy_from 6 8 rd from_6_bit n ?q e 0 False (e AND 63) (out @ ?vs) = Some (Inr ((out @ ?vs) @ r))"
      "encode_ref s = r @ replicate ((3 - length s mod 3) mod 3) (of_char (CHR ''=''))"
    using 4(1) [of ?q, OF rest n] by blast
  have "copy_from 6 8 rd from_6_bit n p c 0 False b out =
      copy_from 6 8 rd from_6_bit n ?q e 6 False (push_bit 2 (d AND 15) OR drop_bit 6 e) (out @ butlast ?vs)"
    using rd n by (simp add: copy_from_8_to_6 Let_def)
  also have "\<dots> = Some (Inr (out @ ?vs @ r))"
  proof (cases "s = []")
    case True
    then have "n = ?q" "r = []" using n r(2) by simp_all
    then show ?thesis by (simp add: copy_from_8_to_6)
  next
    case False
    then have "?q < n" using n by simp
    then show ?thesis using r(1) by (simp add: copy_from_8_to_6)
  qed
  finally have "copy_from 6 8 rd from_6_bit n p c 0 False b out = Some (Inr (out @ ?vs @ r))" .
  moreover have "length (a # d # e # s) mod 3 = length s mod 3" by simp
  ultimately show ?case using r(2) by (metis append_assoc encode_ref.simps(4))
qed

lemma decode_ref_Cons4:
  "decode_ref (t0 # t1 # t2 # t3 # t) =
     (case (to_6_bit t0, to_6_bit t1, to_6_bit t2, to_6_bit t3) of
        (Inr v0, Inr v1, Inr v2, Inr v3) \<Rightarrow>
          map_option (\<lambda>r. byte0 v0 v1 # byte1 v1 v2 # byte2 v2 v3 # r) (decode_ref t)
      | _ \<Rightarrow> None)"
  by (auto simp: decode_ref_def split: sum.splits)

lemma decode_from:
  assumes "\<And>i. i < length t \<Longrightarrow> rd (p + i) = to_6_bit (t ! i)" and "rd n = Inl x" and "n = p + length t"
  shows "case decode_ref t of
      None \<Rightarrow> \<exists>y. copy_from 8 6 rd id n p c 0 False b out = Some (Inl y)
    | Some r \<Rightarrow> copy_from 8 6 rd id n p c 0 False b out = Some (Inr (out @ r))"
  using assms
proof (induction t arbitrary: p c b out rule: decode_values.induct)
  case 1
  then show ?case by (simp add: decode_ref_def copy_from_6_to_8)
next
  case (2 t0)
  then have "rd p = to_6_bit t0" "rd (Suc p) = Inl x" using 2(1) [of 0] by simp_all
  then show ?case using 2(3) by (cases "to_6_bit t0") (simp_all add: decode_ref_def copy_from_error)
next
  case (3 t0 t1)
  then have "rd p = to_6_bit t0" "rd (Suc p) = to_6_bit t1" using 3(1) [of 0] 3(1) [of 1] by simp_all
  then show ?case using 3(3)
    by (cases "to_6_bit t0"; cases "to_6_bit t1") (simp_all add: decode_ref_def copy_from_error copy_from_6_to_8)
next
  case (4 t0 t1 t2)
  then have "rd p = to_6_bit t0" "rd (Suc p) = to_6_bit t1" "rd (Suc (Suc p)) = to_6_bit t2"
    using 4(1) [of 0] 4(1) [of 1] 4(1) [of "Suc (Suc 0)"] by simp_all
  then show ?case using 4(3)
    by (cases "to_6_bit t0"; cases "to_6_bit t1"; cases "to_6_bit t2")
      (simp_all add: decode_ref_def copy_from_error copy_from_6_to_8)
next
  case (5 t0 t1 t2 t3 t)
  have rd: "rd p = to_6_bit t0" "rd (Suc p) = to_6_bit t1" "rd (Suc (Suc p)) = to_6_bit t2"
      "rd (Suc (Suc (Suc p))) = to_6_bit t3"
    using 5(2) [of 0] 5(2) [of 1] 5(2) [of "Suc (Suc 0)"] 5(2) [of "Suc (Suc (Suc 0))"] by simp_all
  let ?q = "Suc (Suc (Suc (Suc p)))"
  have rest: "rd (?q + i) = to_6_bit (t ! i)" if "i < length t" for i
    using 5(2) [of "Suc (Suc (Suc (Suc i)))"] that by simp
  have n: "n = ?q + length t" using 5(4) by simp
  note IH = 5(1) [of ?q, OF rest 5(3) n]
  show ?case using rd n
    by (cases "to_6_bit t0"; cases "to_6_bit t1"; cases "to_6_bit t2"; cases "to_6_bit t3")
      (use IH in \<open>force simp: decode_ref_Cons4 copy_from_error copy_from_6_to_8 split: option.splits\<close>)+
qed

lemma encode_is_ref: "Base64Encode s = Some (Inr (s \<noteq> [], encode_ref s))"
proof -
  obtain r where "copy_from 6 8 (char_at s) from_6_bit (length s) 0 0 0 False 0 [] = Some (Inr r)"
      and r: "encode_ref s = r @ replicate ((3 - length s mod 3) mod 3) (of_char (CHR ''=''))"
    using encode_from [of s "char_at s" 0 "length s" 0 0 "[]"] unfolding char_at_def by auto
  moreover have "encode_ref s \<noteq> [] \<longleftrightarrow> s \<noteq> []" by (cases s rule: encode_ref.cases) auto
  ultimately show ?thesis by (simp add: Base64Encode_def copy_from_start Let_def flip: r)
qed

lemma decode_is_ref:
  "Base64Decode t out = Some (case decode_ref t of None \<Rightarrow> (False, out) | Some r \<Rightarrow> (r \<noteq> [], r))"
proof -
  let ?rd = "\<lambda>p. case char_at t p of Inl e \<Rightarrow> Inl e | Inr c \<Rightarrow> to_6_bit c"
  have "?rd (length t) = Inl Invalid_base64_character" by (simp add: char_at_def to_6_bit_def to_6_bit_table_def)
  moreover have "\<And>i. i < length t \<Longrightarrow> ?rd (0 + i) = to_6_bit (t ! i)" by (simp add: char_at_def)
  ultimately show ?thesis
    using decode_from [of t ?rd 0 "length t" Invalid_base64_character 0 0 "[]"]
    by (auto simp: Base64Decode_def copy_from_start split: option.splits)
qed

lemma sextet_bound:
  fixes v :: tbyte
  assumes "take_bit 6 v = v"
  shows "unat v < 64"
proof -
  have "unat (take_bit 6 v) = take_bit 6 (unat v)" by (rule unsigned_take_bit_eq)
  then have "unat v = take_bit 6 (unat v)" by (simp only: assms)
  also have "\<dots> < 2 ^ 6" by (rule take_bit_nat_less_exp)
  finally show ?thesis by simp
qed

lemma sextets:
  fixes a :: tbyte
  shows "take_bit 6 (drop_bit 2 a) = drop_bit 2 a" "take_bit 6 (push_bit 4 (a AND 3)) = push_bit 4 (a AND 3)"
    "take_bit 6 (push_bit 4 (a AND 3) OR drop_bit 4 c) = push_bit 4 (a AND 3) OR drop_bit 4 c"
    "take_bit 6 (push_bit 2 (a AND 15)) = push_bit 2 (a AND 15)"
    "take_bit 6 (push_bit 2 (a AND 15) OR drop_bit 6 c) = push_bit 2 (a AND 15) OR drop_bit 6 c"
    "take_bit 6 (a AND 63) = a AND 63"
  unfolding masks by (rule bit_word_eqI, auto simp: bit_simps dest: bit_imp_le_length)+

lemmas to_from_sextets = sextets [THEN sextet_bound, THEN to_from_6_bit]

text \<open>The equals signs decode as zeros, so a filled group gives back the zero bits as bytes.\<close>

lemma to_6_bit_pad: "to_6_bit 61 = Inr 0"
  by code_simp

lemmas decode_simps = decode_ref_Cons4 to_from_sextets to_6_bit_pad

lemma regroup_pad:
  "byte0 (drop_bit 2 a) (push_bit 4 (a AND 3)) = a" "byte1 (push_bit 4 (a AND 3)) 0 = 0" "byte2 0 0 = 0"
  "byte1 (push_bit 4 (a AND 3) OR drop_bit 4 b) (push_bit 2 (b AND 15)) = b" "byte2 (push_bit 2 (b AND 15)) 0 = 0"
  using regroup(1) [of a 0] regroup(2) [of a b 0] regroup(2) [of a 0 0]
  by (simp_all add: byte1_def byte2_def)

lemma decode_encode_ref: "decode_ref (encode_ref s) = Some (s @ replicate ((3 - length s mod 3) mod 3) 0)"
proof (induction s rule: encode_ref.induct)
  case 1
  then show ?case by (simp add: decode_ref_def)
next
  case (2 a)
  have two: "replicate 2 x = [x, x]" for x :: tbyte by (simp add: numeral_2_eq_2)
  show ?case by (simp add: two decode_simps regroup_pad decode_ref_def del: push_bit_and)
next
  case (3 a b)
  show ?case by (simp add: decode_simps regroup regroup_pad decode_ref_def del: push_bit_and)
next
  case (4 a b c s)
  then show ?case by (simp add: decode_simps regroup del: push_bit_and)
qed

section \<open>Properties\<close>

text \<open>C39: \<open>Base64Encode\<close> always returns the base 64 text of its input, by groups of three bytes, the
  last one filled with zero bits and equals signs, and returns false exactly for the empty input.\<close>

theorem encode_by_groups:
  "Base64Encode s = Some (Inr (s \<noteq> [], encode_ref s))"
  by (rule encode_is_ref)

text \<open>\<open>Base64Decode\<close> always returns: for a text of the alphabet whose length is not one more
  than a multiple of four, the bytes of its groups; else, whatever the bad character and wherever it
  stands, false with the output as it was.\<close>

theorem decode_by_groups:
  "Base64Decode t out = Some (case decode_ref t of None \<Rightarrow> (False, out) | Some r \<Rightarrow> (r \<noteq> [], r))"
  by (rule decode_is_ref)

text \<open>C38: Decoding what \<open>Base64Encode\<close> made gives back the input, with one zero byte more for each
  equals sign: the round trip is exact only when the length of the input is a multiple of three.\<close>

theorem decode_encode:
  "\<exists>t. Base64Encode s = Some (Inr (s \<noteq> [], t)) \<and>
     Base64Decode t out = Some (s \<noteq> [], s @ replicate ((3 - length s mod 3) mod 3) 0)"
  by (simp add: encode_is_ref decode_is_ref decode_encode_ref)

end
