(* ===== verification/ObjectPool.thy ===== *)
theory ObjectPool
  imports Main
begin

text \<open>
  The contract of a pool of objects, as the program's two pools promise it: an object that is taken
  out is not one of those already in use, and an object given back may be taken again. The memory
  pool (\<open>Pool\<close>) and the pool of connections (\<open>ConnectionPool\<close>) are instances.
\<close>

section \<open>Sequences of requests\<close>

text \<open>
  The states a pool reaches, with the list of the objects in use, the last one taken first. A client
  gives back only what it uses; \<open>provided\<close> says what the source of new objects promises.
\<close>

inductive pool_path ::
  "('s \<Rightarrow> 'f \<Rightarrow> 'a option \<times> 's) \<Rightarrow> ('s \<Rightarrow> 'a \<Rightarrow> 's) \<Rightarrow> ('s \<Rightarrow> 'a set \<Rightarrow> 'f \<Rightarrow> bool) \<Rightarrow> 's \<Rightarrow> 's \<Rightarrow> 'a list \<Rightarrow> bool"
  for acquire release provided s0 where
  start: "pool_path acquire release provided s0 s0 []"
| taken: "pool_path acquire release provided s0 s held \<Longrightarrow> provided s (set held) f \<Longrightarrow>
    acquire s f = (Some a, s') \<Longrightarrow> pool_path acquire release provided s0 s' (a # held)"
| refused: "pool_path acquire release provided s0 s held \<Longrightarrow> provided s (set held) f \<Longrightarrow>
    acquire s f = (None, s') \<Longrightarrow> pool_path acquire release provided s0 s' held"
| returned: "pool_path acquire release provided s0 s held \<Longrightarrow> a \<in> set held \<Longrightarrow>
    pool_path acquire release provided s0 (release s a) (remove1 a held)"

section \<open>The contract\<close>

locale object_pool =
  fixes acquire :: "'s \<Rightarrow> 'f \<Rightarrow> 'a option \<times> 's"
    and release :: "'s \<Rightarrow> 'a \<Rightarrow> 's"
    and provided :: "'s \<Rightarrow> 'a set \<Rightarrow> 'f \<Rightarrow> bool"
    and good :: "'s \<Rightarrow> 'a set \<Rightarrow> bool"
  assumes acquire_fresh: "good s H \<Longrightarrow> provided s H f \<Longrightarrow> acquire s f = (Some a, s') \<Longrightarrow> a \<notin> H \<and> good s' (insert a H)"
    and acquire_refused: "good s H \<Longrightarrow> provided s H f \<Longrightarrow> acquire s f = (None, s') \<Longrightarrow> good s' H"
    and release_good: "good s H \<Longrightarrow> a \<in> H \<Longrightarrow> good (release s a) (H - {a})"
begin

lemma path_good:
  "pool_path acquire release provided s0 s held \<Longrightarrow> good s0 {} \<Longrightarrow> distinct held \<and> good s (set held)"
proof (induction rule: pool_path.induct)
  case start
  then show ?case by simp
next
  case (taken s held f a s')
  then show ?case using acquire_fresh [of s "set held" f a s'] by simp
next
  case (refused s held f s')
  then show ?case using acquire_refused [of s "set held" f s'] by simp
next
  case (returned s held a)
  then show ?case using release_good [of s "set held" a] by (simp add: set_remove1_eq)
qed

lemma path_distinct: "pool_path acquire release provided s0 s held \<Longrightarrow> good s0 {} \<Longrightarrow> distinct held"
  using path_good by blast

end

end
