(* ===== verification/Pool.thy ===== *)
theory Pool
  imports ObjectPool Exceptions
begin

text \<open>
  The memory pool of one class of objects: \<open>include/common/pool.h\<close> and \<open>src/common/pool.cpp\<close>. Blocks
  are addresses; the block that \<open>::operator new\<close> would give is an argument (\<open>None\<close> when it throws), as
  are the size of the class and the place of the check. The counters are 32 bit values.
\<close>

section \<open>State and operations\<close>

record mem_pool =
  m_MemCache :: "nat list"
  m_nAllocCount :: tint32
  m_nPoolSize :: tint32
  m_nPoolUsed :: tint32
  m_ObjClassName :: string

definition Pool_new :: "string \<Rightarrow> mem_pool" where
  "Pool_new name = \<lparr>m_MemCache = [], m_nAllocCount = 0, m_nPoolSize = 0, m_nPoolUsed = 0, m_ObjClassName = name\<rparr>"

text \<open>The destructor gives back the blocks of the cache, and only these.\<close>

definition Pool_destroy :: "mem_pool \<Rightarrow> nat list \<times> mem_pool" where
  "Pool_destroy p = (m_MemCache p, p\<lparr>m_MemCache := []\<rparr>)"

definition alloc_acount :: "mem_pool \<Rightarrow> tint32" where "alloc_acount p = m_nAllocCount p"
definition pool_size :: "mem_pool \<Rightarrow> tint32" where "pool_size p = m_nPoolSize p"
definition pool_used :: "mem_pool \<Rightarrow> tint32" where "pool_used p = m_nPoolUsed p"
definition pool_obj_size :: "nat \<Rightarrow> tint32" where "pool_obj_size sizeof_Obj = word_of_nat sizeof_Obj"
definition pool_name :: "mem_pool \<Rightarrow> string" where "pool_name p = m_ObjClassName p"

definition Pool_alloc :: "tm \<Rightarrow> place \<Rightarrow> nat \<Rightarrow> mem_pool \<Rightarrow> nat \<Rightarrow> nat option \<Rightarrow> assert_entry list
    \<Rightarrow> (nat outcome \<times> assert_entry list) \<times> mem_pool" where
  "Pool_alloc ltm pl sizeof_Obj p sz op_new log =
     (case AssertEx ltm pl (unat (scast (pool_obj_size sizeof_Obj) :: tuint64) = sz) ''pool_obj_size() == size'' [] log of
        (Raised e, log1) \<Rightarrow> ((Raised e, log1), p)
      | (Ok _, log1) \<Rightarrow>
          let p1 = p\<lparr>m_nAllocCount := m_nAllocCount p + 1\<rparr>
          in if m_MemCache p1 \<noteq> []
             then ((Ok (last (m_MemCache p1)), log1),
                   p1\<lparr>m_MemCache := butlast (m_MemCache p1), m_nPoolUsed := m_nPoolUsed p1 + 1\<rparr>)
             else (case op_new of
                     None \<Rightarrow> ((Raised (StdException ''std::bad_alloc''), log1), p1)
                   | Some a \<Rightarrow> ((Ok a, log1),
                       p1\<lparr>m_nPoolUsed := m_nPoolUsed p1 + 1, m_nPoolSize := m_nPoolSize p1 + 1\<rparr>)))"

definition Pool_free :: "mem_pool \<Rightarrow> nat \<Rightarrow> mem_pool" where
  "Pool_free p a = p\<lparr>m_MemCache := m_MemCache p @ [a], m_nPoolUsed := m_nPoolUsed p - 1\<rparr>"

section \<open>The pool keeps the contract\<close>

text \<open>
  The blocks in use and in the cache are apart; the counters count them, modulo their width. New
  storage is a block the program does not have.
\<close>

definition pool_good :: "mem_pool \<Rightarrow> nat set \<Rightarrow> bool" where
  "pool_good p H \<longleftrightarrow> finite H \<and> distinct (m_MemCache p) \<and> set (m_MemCache p) \<inter> H = {} \<and>
     m_nPoolUsed p = word_of_nat (card H) \<and> m_nPoolSize p = word_of_nat (card H + length (m_MemCache p))"

definition pool_provided :: "mem_pool \<Rightarrow> nat set \<Rightarrow> nat \<times> nat option \<times> assert_entry list \<Rightarrow> bool" where
  "pool_provided p H f = (case f of (sz, None, log) \<Rightarrow> True | (sz, Some a, log) \<Rightarrow> a \<notin> set (m_MemCache p) \<union> H)"

definition pool_take :: "tm \<Rightarrow> place \<Rightarrow> nat \<Rightarrow> mem_pool \<Rightarrow> nat \<times> nat option \<times> assert_entry list \<Rightarrow> nat option \<times> mem_pool" where
  "pool_take ltm pl sizeof_Obj p f =
     (case f of (sz, op_new, log) \<Rightarrow>
        (case Pool_alloc ltm pl sizeof_Obj p sz op_new log of
           ((Ok a, _), p1) \<Rightarrow> (Some a, p1)
         | ((Raised e, _), p1) \<Rightarrow> (None, p1)))"

lemma Pool_alloc_cases:
  "pool_take ltm pl sizeof_Obj p (sz, op_new, log) = (r, p') \<Longrightarrow>
     (r = None \<and> m_MemCache p' = m_MemCache p \<and> m_nPoolUsed p' = m_nPoolUsed p \<and> m_nPoolSize p' = m_nPoolSize p) \<or>
     (\<exists>c a. m_MemCache p = c @ [a] \<and> r = Some a \<and> m_MemCache p' = c \<and> m_nPoolUsed p' = m_nPoolUsed p + 1 \<and>
        m_nPoolSize p' = m_nPoolSize p) \<or>
     (m_MemCache p = [] \<and> r = op_new \<and> op_new \<noteq> None \<and> m_MemCache p' = [] \<and> m_nPoolUsed p' = m_nPoolUsed p + 1 \<and>
        m_nPoolSize p' = m_nPoolSize p + 1)"
  by (cases "m_MemCache p" rule: rev_cases)
    (auto simp: pool_take_def Pool_alloc_def AssertEx_def do_assert_def Let_def split: if_splits option.splits)

interpretation mp: object_pool "pool_take ltm pl sizeof_Obj" Pool_free pool_provided pool_good
proof
  fix s H f a s'
  assume g: "pool_good s H" and sup: "pool_provided s H f" and t: "pool_take ltm pl sizeof_Obj s f = (Some a, s')"
  obtain sz op_new log where f: "f = (sz, op_new, log)" by (cases f)
  show "a \<notin> H \<and> pool_good s' (insert a H)"
    using Pool_alloc_cases [OF t [unfolded f]] g sup
    by (auto simp: f pool_good_def pool_provided_def split: option.splits)
next
  fix s H f s'
  assume g: "pool_good s H" and t: "pool_take ltm pl sizeof_Obj s f = (None, s')"
  obtain sz op_new log where f: "f = (sz, op_new, log)" by (cases f)
  show "pool_good s' H"
    using Pool_alloc_cases [OF t [unfolded f]] g by (auto simp: pool_good_def)
next
  fix s H a
  assume g: "pool_good s H" and a: "a \<in> H"
  then have "card H = Suc (card (H - {a}))" by (metis pool_good_def card_Suc_Diff1)
  then show "pool_good (Pool_free s a) (H - {a})" using g a by (auto simp: pool_good_def Pool_free_def)
qed

section \<open>Properties\<close>

text \<open>C34: whatever blocks are asked for and given back, no block is in use twice, no block in use is in
  the cache, and the counters say how many are in use and how many the pool has made, modulo their
  width; a request of another size or without storage changes neither.\<close>

theorem pool_blocks_distinct:
  assumes "pool_path (pool_take ltm pl sizeof_Obj) Pool_free pool_provided (Pool_new name) p held"
  shows "distinct held \<and> set (m_MemCache p) \<inter> set held = {} \<and> distinct (m_MemCache p) \<and>
    pool_used p = word_of_nat (length held) \<and> pool_size p = word_of_nat (length held + length (m_MemCache p))"
proof -
  have "pool_good (Pool_new name) {}" by (simp add: pool_good_def Pool_new_def)
  then have "distinct held \<and> pool_good p (set held)" using mp.path_good [OF assms] by blast
  then show ?thesis by (auto simp: pool_good_def pool_used_def pool_size_def distinct_card)
qed

definition demo_tm :: tm where
  "demo_tm = \<lparr>tm_year = 126, tm_mon = 0, tm_mday = 1, tm_hour = 0, tm_min = 0, tm_sec = 0, tm_wday = 4\<rparr>"

definition demo_place :: place where
  "demo_place = \<lparr>pl_file = ''pool.cpp'', pl_line = 58, pl_func = ''_alloc''\<rparr>"

definition demo_take :: "mem_pool \<Rightarrow> nat \<Rightarrow> nat option \<times> mem_pool" where
  "demo_take p a = pool_take demo_tm demo_place 16 p (16, Some a, [])"

lemma demo_pool_path:
  "pool_path (pool_take demo_tm demo_place 16) Pool_free pool_provided (Pool_new ''T'')
     (snd (demo_take (Pool_free (snd (demo_take (snd (demo_take (Pool_new ''T'') 100)) 200)) 100) 300)) [100, 200]"
proof -
  let ?T = "pool_take demo_tm demo_place 16"
  let ?p1 = "snd (demo_take (Pool_new ''T'') 100)" and ?p2 = "snd (demo_take (snd (demo_take (Pool_new ''T'') 100)) 200)"
  let ?p3 = "Pool_free ?p2 100"
  note defs = demo_take_def pool_take_def Pool_alloc_def AssertEx_def pool_obj_size_def Pool_new_def
    Pool_free_def pool_provided_def
  have "pool_path ?T Pool_free pool_provided (Pool_new ''T'') ?p1 [100]"
    by (rule pool_path.taken [OF pool_path.start, of _ _ "(16, Some 100, [])"]) (simp_all add: defs)
  then have "pool_path ?T Pool_free pool_provided (Pool_new ''T'') ?p2 [200, 100]"
    by (rule pool_path.taken [of _ _ _ _ _ _ "(16, Some 200, [])"]) (simp_all add: defs)
  then have "pool_path ?T Pool_free pool_provided (Pool_new ''T'') ?p3 (remove1 100 [200, 100])"
    by (rule pool_path.returned) simp
  then have "pool_path ?T Pool_free pool_provided (Pool_new ''T'') ?p3 [200]" by simp
  then show ?thesis
    by (rule pool_path.taken [of _ _ _ _ _ _ "(16, Some 300, [])"]) (simp_all add: defs)
qed

theorem pool_blocks_distinct_witness:
  "\<exists>p. distinct [100, 200 :: nat] \<and> pool_used p = 2 \<and> pool_size p = (2 :: tint32) \<and> m_MemCache p = []"
proof -
  let ?p = "snd (demo_take (Pool_free (snd (demo_take (snd (demo_take (Pool_new ''T'') 100)) 200)) 100) 300)"
  have c: "m_MemCache ?p = []"
    by (simp add: demo_take_def pool_take_def Pool_alloc_def AssertEx_def pool_obj_size_def Pool_new_def Pool_free_def)
  have "distinct [100, 200 :: nat] \<and> pool_used ?p = 2 \<and> pool_size ?p = 2"
    using pool_blocks_distinct [OF demo_pool_path] unfolding c by simp
  then show ?thesis using c by blast
qed

end
