(* ===== verification/ConnectionPool.thy ===== *)
theory ConnectionPool
  imports ObjectPool ClientSocket Exceptions
begin

text \<open>
  The connections of the network service and their pool: \<open>test/ConnectionPool.h\<close> and
  \<open>test/ConnectionPool.cpp\<close>. A \<open>Connection\<close> is a \<open>ClientSocket\<close> with the data of its user; objects
  live in a store, indexed by their address. The address a \<open>new\<close> would give is an argument, \<open>None\<close>
  when it throws.
\<close>

section \<open>Connection\<close>

datatype connection_status = UNUSED | CONNECTED | VERIFYING | LOADING | LOGIN

record connection =
  cn_socket :: client_socket
  m_nUID :: tuint32
  m_nUserID :: tuint32
  m_sAccount :: "tbyte list"
  m_nStatus :: connection_status

type_synonym conn_store = "nat \<Rightarrow> connection"

definition Connection_clear :: "'w socket_env \<Rightarrow> connection \<Rightarrow> 'w \<Rightarrow> connection \<times> 'w" where
  "Connection_clear env c w =
     (let c1 = c\<lparr>m_nUID := 0, m_nUserID := - 1, m_nStatus := UNUSED\<rparr>; (s, w1) = cs_close env (cn_socket c1) w
      in (c1\<lparr>cn_socket := s\<rparr>, w1))"

text \<open>The constructor: \<open>clear\<close> of a new socket, which has nothing to close.\<close>

definition Connection_new :: connection where
  "Connection_new = \<lparr>cn_socket = ClientSocket_new, m_nUID = 0, m_nUserID = - 1, m_sAccount = [], m_nStatus = UNUSED\<rparr>"

lemma Connection_new_clear:
  "Connection_clear env \<lparr>cn_socket = ClientSocket_new, m_nUID = x, m_nUserID = y, m_sAccount = [], m_nStatus = z\<rparr> w
     = (Connection_new, w)"
  by (simp add: Connection_clear_def Connection_new_def cs_close_def ClientSocket_new_def)

definition conn_idle :: "connection \<Rightarrow> bool" where "conn_idle c \<longleftrightarrow> m_nStatus c = UNUSED"
definition SetStatus :: "connection \<Rightarrow> connection_status \<Rightarrow> connection" where "SetStatus c s = c\<lparr>m_nStatus := s\<rparr>"
definition GetStatus :: "connection \<Rightarrow> connection_status" where "GetStatus c = m_nStatus c"

section \<open>ConnectionPool\<close>

definition MAX_CLIENT_CONNECTION :: nat where "MAX_CLIENT_CONNECTION = 5000"

text \<open>The pool: \<open>m_ClientSocketVec\<close> and the store of the objects it points to.\<close>

type_synonym connection_pool = "nat list \<times> conn_store"

fun first_idle :: "conn_store \<Rightarrow> nat list \<Rightarrow> nat option" where
  "first_idle st [] = None"
| "first_idle st (p # ps) = (if conn_idle (st p) then Some p else first_idle st ps)"

definition get_idle_connect :: "connection_pool \<Rightarrow> nat option \<Rightarrow> nat option outcome \<times> connection_pool" where
  "get_idle_connect pool new_Connection =
     (case pool of (vec, st) \<Rightarrow>
        (case first_idle st vec of
           Some p \<Rightarrow> (Ok (Some p), pool)
         | None \<Rightarrow>
             if length vec \<ge> MAX_CLIENT_CONNECTION then (Ok None, pool)
             else (case new_Connection of
                     None \<Rightarrow> (Raised (StdException ''std::bad_alloc''), pool)
                   | Some p \<Rightarrow> (Ok (Some p), (vec @ [p], st(p := Connection_new))))))"

section \<open>The pool keeps the contract\<close>

text \<open>What a client does to use a connection and to leave it: it sets the status.\<close>

definition conn_take :: "connection_pool \<Rightarrow> nat option \<Rightarrow> nat option \<times> connection_pool" where
  "conn_take pool new_Connection =
     (case get_idle_connect pool new_Connection of
        (Ok (Some p), (vec, st)) \<Rightarrow> (Some p, (vec, st(p := SetStatus (st p) CONNECTED)))
      | (_, pool1) \<Rightarrow> (None, pool1))"

definition conn_give :: "connection_pool \<Rightarrow> nat \<Rightarrow> connection_pool" where
  "conn_give pool p = (case pool of (vec, st) \<Rightarrow> (vec, st(p := SetStatus (st p) UNUSED)))"

definition conn_good :: "connection_pool \<Rightarrow> nat set \<Rightarrow> bool" where
  "conn_good pool H \<longleftrightarrow>
     (case pool of (vec, st) \<Rightarrow>
        distinct vec \<and> length vec \<le> MAX_CLIENT_CONNECTION \<and> H = {p \<in> set vec. m_nStatus (st p) \<noteq> UNUSED})"

definition conn_provided :: "connection_pool \<Rightarrow> nat set \<Rightarrow> nat option \<Rightarrow> bool" where
  "conn_provided pool H new_Connection \<longleftrightarrow> (case new_Connection of None \<Rightarrow> True | Some p \<Rightarrow> p \<notin> set (fst pool))"

lemma first_idle_Some: "first_idle st vec = Some p \<Longrightarrow> p \<in> set vec \<and> m_nStatus (st p) = UNUSED"
  by (induction vec) (auto simp: conn_idle_def split: if_splits)

lemma first_idle_None: "first_idle st vec = None \<longleftrightarrow> (\<forall>p \<in> set vec. m_nStatus (st p) \<noteq> UNUSED)"
  by (induction vec) (auto simp: conn_idle_def)

lemma get_idle_connect_good:
  assumes "conn_good pool H" "conn_provided pool H f" "get_idle_connect pool f = (r, pool')"
  shows "conn_good pool' H"
    and "r = Ok (Some p) \<Longrightarrow> p \<in> set (fst pool') - H \<and> m_nStatus (snd pool' p) = UNUSED"
    and "r = Ok (Some p) \<Longrightarrow> q \<noteq> p \<Longrightarrow> snd pool' q = snd pool q"
proof -
  obtain vec st where pool: "pool = (vec, st)" by (cases pool)
  show "conn_good pool' H" "r = Ok (Some p) \<Longrightarrow> p \<in> set (fst pool') - H \<and> m_nStatus (snd pool' p) = UNUSED"
      "r = Ok (Some p) \<Longrightarrow> q \<noteq> p \<Longrightarrow> snd pool' q = snd pool q"
    using assms first_idle_Some [of st vec]
    by (auto simp: get_idle_connect_def pool conn_good_def conn_provided_def Connection_new_def
        split: option.splits if_splits)
qed

interpretation cp: object_pool conn_take conn_give conn_provided conn_good
proof
  fix s H f a s'
  assume g: "conn_good s H" and sup: "conn_provided s H f" and t: "conn_take s f = (Some a, s')"
  obtain r vec st where e: "get_idle_connect s f = (r, (vec, st))" by (metis prod_cases3)
  have r: "r = Ok (Some a)" "s' = (vec, st(a := SetStatus (st a) CONNECTED))"
    using t e by (auto simp: conn_take_def split: outcome.splits option.splits)
  show "a \<notin> H \<and> conn_good s' (insert a H)"
    using get_idle_connect_good(1,2) [OF g sup e] r by (auto simp: conn_good_def SetStatus_def)
next
  fix s H f s'
  assume g: "conn_good s H" and sup: "conn_provided s H f" and t: "conn_take s f = (None, s')"
  obtain r vec st where e: "get_idle_connect s f = (r, (vec, st))" by (metis prod_cases3)
  have "s' = (vec, st)" using t e by (auto simp: conn_take_def split: outcome.splits option.splits)
  then show "conn_good s' H" using get_idle_connect_good(1) [OF g sup e] by simp
next
  fix s H a
  assume g: "conn_good s H" and a: "a \<in> H"
  then show "conn_good (conn_give s a) (H - {a})"
    by (cases s) (auto simp: conn_good_def conn_give_def SetStatus_def)
qed

section \<open>Properties\<close>

text \<open>however connections are taken and left, no connection is in use twice, those in use are the
  objects of the pool whose status is not \<open>UNUSED\<close>, and the pool never has more than 5000; a
  connection is refused only when 5000 are in use or storage is refused.\<close>

theorem connections_distinct:
  assumes path: "pool_path conn_take conn_give conn_provided ([], st0) (vec, st) held"
  shows "distinct held \<and> length vec \<le> 5000 \<and> set held = {p \<in> set vec. m_nStatus (st p) \<noteq> UNUSED} \<and>
    (\<forall>p pool'. conn_take (vec, st) (Some p) = (None, pool') \<longrightarrow> length held = 5000)"
proof -
  have "conn_good ([], st0) {}" by (simp add: conn_good_def)
  then have d: "distinct held" and g: "conn_good (vec, st) (set held)" using cp.path_good [OF path] by blast+
  have "length held = 5000" if "conn_take (vec, st) (Some p) = (None, pool')" for p pool'
  proof -
    have n: "first_idle st vec = None" "length vec \<ge> 5000"
      using that by (auto simp: conn_take_def get_idle_connect_def MAX_CLIENT_CONNECTION_def split: option.splits if_splits)
    then have "set held = set vec" using g by (auto simp: conn_good_def first_idle_None)
    moreover have "distinct vec" "length vec \<le> 5000" using g by (simp_all add: conn_good_def MAX_CLIENT_CONNECTION_def)
    ultimately show ?thesis using n d by (metis distinct_card le_antisym)
  qed
  then show ?thesis using d g by (simp add: conn_good_def MAX_CLIENT_CONNECTION_def)
qed

definition demo_conns :: "nat \<Rightarrow> connection_pool \<Rightarrow> connection_pool" where
  "demo_conns p pool = snd (conn_take pool (Some p))"

lemma demo_conn_path:
  "pool_path conn_take conn_give conn_provided ([], \<lambda>_. Connection_new)
     (demo_conns 30 (conn_give (demo_conns 20 (demo_conns 10 ([], \<lambda>_. Connection_new))) 10)) [10, 20]"
proof -
  let ?p0 = "([], \<lambda>_. Connection_new) :: connection_pool"
  let ?p1 = "demo_conns 10 ?p0" and ?p2 = "demo_conns 20 (demo_conns 10 ?p0)"
  let ?path = "pool_path conn_take conn_give conn_provided ?p0"
  note defs = demo_conns_def conn_take_def get_idle_connect_def MAX_CLIENT_CONNECTION_def SetStatus_def Connection_new_def
    conn_provided_def conn_give_def conn_idle_def
  have "?path ?p1 [10]" by (rule pool_path.taken [OF pool_path.start, of _ _ "Some 10"]) (simp_all add: defs)
  then have "?path ?p2 [20, 10]" by (rule pool_path.taken [of _ _ _ _ _ _ "Some 20"]) (simp_all add: defs)
  then have "?path (conn_give ?p2 10) (remove1 10 [20, 10])" by (rule pool_path.returned) simp
  then have "?path (conn_give ?p2 10) [20]" by simp
  then show ?thesis by (rule pool_path.taken [of _ _ _ _ _ _ "Some 30"]) (simp_all add: defs)
qed

theorem connections_distinct_witness:
  "\<exists>vec st. (vec, st) = demo_conns 30 (conn_give (demo_conns 20 (demo_conns 10 ([], \<lambda>_. Connection_new))) 10) \<and>
     distinct [10, 20 :: nat] \<and> set [10, 20] = {p \<in> set vec. m_nStatus (st p) \<noteq> UNUSED}"
proof -
  obtain vec st where e: "(vec, st) = demo_conns 30 (conn_give (demo_conns 20 (demo_conns 10 ([], \<lambda>_. Connection_new))) 10)"
    by (metis prod.collapse)
  show ?thesis using connections_distinct [OF demo_conn_path [folded e]] e by blast
qed

end
