(* ===== verification/NetService.thy ===== *)
theory NetService
  imports ConnectionPool PacketCodec MsgChannel
begin

text \<open>
  The network service of \<open>test/NetService.h\<close> and \<open>test/NetService.cpp\<close>: new and closed connections,
  the packets of the clients, and the messages to and from the http services. The service, the
  connections, the shared memory and the operating system make up the state; the log file is a list
  of what was logged. \<open>None\<close> stands for an access outside a buffer. The calls of
  the listening socket are in the theory NetListen, the start in ServiceStart.
\<close>

section \<open>State\<close>

datatype net_log =
    LogIPCheck tuint32
  | LogUnhandledPacket tuint16
  | LogUnknownPacket tuint16
  | LogUndefinedPacket tuint16 tuint16
  | LogUnhandledMessage tuint16
  | LogUnknownMessage tuint16
  | LogUndefinedMessage message_head
  | LogUserGone tuint32 "tbyte list"

text \<open>The entries of the two dispatch tables.\<close>

datatype packet_handler = HandlePacketUserLogin | HandlePacketDefault
datatype message_handler = HandleMsgUserLoginRet | HandleMsgDefault

record net_service =
  ns_vec :: "nat list"
  m_pPacketDispatcher :: "packet_handler option list"
  m_pMessageDispatcher :: "message_handler option list"
  m_kMCLogin2Http :: message_channel
  ns_msg_head :: message_head
  ns_msg_encoder :: message_encoder
  m_uIDGenerator :: tuint32
  m_kOnlineUser :: "tuint32 \<rightharpoonup> nat"
  ns_service_id :: tint32
  ns_log :: "net_log list"

text \<open>
  The state of the process. \<open>nw_raised\<close> keeps an exception that leaves a callback of a socket, with the
  socket and the system as they were then, until the call of the socket returns.
\<close>

record 'o net_world =
  nw_net :: net_service
  nw_store :: conn_store
  nw_mem :: memory
  nw_os :: 'o
  nw_asserts :: "assert_entry list"
  nw_raised :: "(exn \<times> client_socket \<times> 'o) option"

text \<open>The generated protobuf classes of the login messages, as far as they are used.\<close>

record 'd login_protos =
  pb_cg_login :: "'d protobuf"
  pb_nh_req :: "'d protobuf"
  pb_hn_ret :: "'d protobuf"
  pb_gc_login :: "'d protobuf"
  pb_new :: 'd
  login_account :: "'d \<Rightarrow> tbyte list"
  login_validateinfo :: "'d \<Rightarrow> tbyte list"
  make_req :: "tuint32 \<Rightarrow> tbyte list \<Rightarrow> tbyte list \<Rightarrow> 'd"
  req_uid :: "'d \<Rightarrow> tuint32"
  req_account :: "'d \<Rightarrow> tbyte list"
  req_validateinfo :: "'d \<Rightarrow> tbyte list"
  make_ret :: "tuint32 \<Rightarrow> tbyte list \<Rightarrow> tint32 \<Rightarrow> 'd"
  ret_uid :: "'d \<Rightarrow> tuint32"
  ret_account :: "'d \<Rightarrow> tbyte list"
  ret_result :: "'d \<Rightarrow> tint32"
  make_login_ret :: "tint32 \<Rightarrow> 'd"

text \<open>
  What the service runs in: the clock and the place of its checks, the protobuf classes, the
  functions of the system, and the contents of new storage.
\<close>

record ('d, 'o) net_env =
  ne_tm :: tm
  ne_place :: place
  ne_pb :: "'d login_protos"
  ne_os :: "'o net_os"
  ne_recv_storage :: "tbyte list"
  ne_send_storage :: "tbyte list"
  ne_encoder_storage :: "tbyte list"

definition PACKET_ID_MAX :: nat where "PACKET_ID_MAX = 3"
definition MESSAGE_ID_MAX :: nat where "MESSAGE_ID_MAX = 3"
definition ServiceType_LOGIN :: tint16 where "ServiceType_LOGIN = 0"
definition ServiceType_HTTP :: tint16 where "ServiceType_HTTP = 1"

text \<open>The tables and the first number, as \<open>Init\<close> sets them.\<close>

definition net_Init_tables :: "net_service \<Rightarrow> net_service" where
  "net_Init_tables ns = ns\<lparr>
     m_pPacketDispatcher := (replicate PACKET_ID_MAX (Some HandlePacketDefault))[unat PACKET_CG_LOGIN := Some HandlePacketUserLogin],
     m_pMessageDispatcher := (replicate MESSAGE_ID_MAX (Some HandleMsgDefault))[unat MSG_HN_RET_LOGIN := Some HandleMsgUserLoginRet],
     m_uIDGenerator := 1\<rparr>"

definition net_log :: "'o net_world \<Rightarrow> net_log \<Rightarrow> 'o net_world" where
  "net_log W l = W\<lparr>nw_net := (nw_net W)\<lparr>ns_log := ns_log (nw_net W) @ [l]\<rparr>\<rparr>"

section \<open>Connections\<close>

definition IPCheck :: "'o net_world \<Rightarrow> tuint32 \<Rightarrow> bool \<times> 'o net_world" where
  "IPCheck W uIP =
     (if (uIP \<ge> 0x0A000000 \<and> uIP \<le> 0x0AFFFFFF) \<or> (uIP \<ge> 0xAC100000 \<and> uIP \<le> 0xAC1FFFFF) \<or>
         (uIP \<ge> 0xC0A80000 \<and> uIP \<le> 0xC0A8FFFF) \<or> (uIP \<ge> 0x7F000001 \<and> uIP \<le> 0x7F000001)
      then (True, W)
      else (False, net_log W (LogIPCheck uIP)))"

text \<open>\<open>OnDisConnect\<close> of the connection at an address; \<open>None\<close> is the null pointer.\<close>

definition OnDisConnect :: "('d, 'o) net_env \<Rightarrow> nat option \<Rightarrow> 'o net_world \<Rightarrow> unit outcome \<times> 'o net_world" where
  "OnDisConnect env pk W =
     (case pk of
        None \<Rightarrow> (Ok (), W)
      | Some p \<Rightarrow>
          let nUID = m_nUID (nw_store W p);
              (r, W1) = (case m_kOnlineUser (nw_net W) nUID of
                 Some q \<Rightarrow> (Ok (), W\<lparr>nw_net := (nw_net W)\<lparr>m_kOnlineUser := (m_kOnlineUser (nw_net W))(nUID := None)\<rparr>\<rparr>)
               | None \<Rightarrow>
                   (case AssertEx (ne_tm env) (ne_place env) False ''false''
                           ''can't find online user when disconnect'' (nw_asserts W) of
                      (o', log') \<Rightarrow> (o', W\<lparr>nw_asserts := log'\<rparr>)))
          in case r of
               Raised e \<Rightarrow> (Raised e, W1)
             | Ok _ \<Rightarrow> (Ok (), W1\<lparr>nw_store := (nw_store W1)(p := SetStatus (nw_store W1 p) UNUSED)\<rparr>))"

text \<open>The functions of the system, and a socket's callback, over the state of the process.\<close>

definition lift_os :: "'o net_os \<Rightarrow> 'o net_world net_os" where
  "lift_os os = \<lparr>
     os_socket = (\<lambda>W a b c. map_prod id (\<lambda>o'. W\<lparr>nw_os := o'\<rparr>) (os_socket os (nw_os W) a b c)),
     os_listen = (\<lambda>W a b. map_prod id (\<lambda>o'. W\<lparr>nw_os := o'\<rparr>) (os_listen os (nw_os W) a b)),
     os_bind = (\<lambda>W a b. map_prod id (\<lambda>o'. W\<lparr>nw_os := o'\<rparr>) (os_bind os (nw_os W) a b)),
     os_accept = (\<lambda>W a. map_prod id (map_prod id (\<lambda>o'. W\<lparr>nw_os := o'\<rparr>)) (os_accept os (nw_os W) a)),
     os_close = (\<lambda>W a. map_prod id (\<lambda>o'. W\<lparr>nw_os := o'\<rparr>) (os_close os (nw_os W) a)),
     os_getfl = (\<lambda>W a. os_getfl os (nw_os W) a),
     os_setfl = (\<lambda>W a b. map_prod id (\<lambda>o'. W\<lparr>nw_os := o'\<rparr>) (os_setfl os (nw_os W) a b)),
     os_setsockopt = (\<lambda>W a b c. map_prod id (\<lambda>o'. W\<lparr>nw_os := o'\<rparr>) (os_setsockopt os (nw_os W) a b c)),
     os_getsockopt = (\<lambda>W a b. os_getsockopt os (nw_os W) a b),
     os_connect = (\<lambda>W a b. map_prod id (\<lambda>o'. W\<lparr>nw_os := o'\<rparr>) (os_connect os (nw_os W) a b)),
     os_select = (\<lambda>W a b c d. map_prod id (map_prod id (map_prod id (\<lambda>o'. W\<lparr>nw_os := o'\<rparr>))) (os_select os (nw_os W) a b c d)),
     os_recv = (\<lambda>W a b. map_prod id (\<lambda>o'. W\<lparr>nw_os := o'\<rparr>) (os_recv os (nw_os W) a b)),
     os_send = (\<lambda>W a b. map_prod id (\<lambda>o'. W\<lparr>nw_os := o'\<rparr>) (os_send os (nw_os W) a b)),
     os_errno = (\<lambda>W. os_errno os (nw_os W))\<rparr>"

definition disconnect_callback :: "('d, 'o) net_env \<Rightarrow> nat \<Rightarrow> client_socket \<Rightarrow> 'o net_world \<Rightarrow> client_socket \<times> 'o net_world" where
  "disconnect_callback env p cs W =
     (case OnDisConnect env (Some p) W of
        (Ok _, W1) \<Rightarrow> (cs, W1)
      | (Raised e, W1) \<Rightarrow> (cs, W1\<lparr>nw_raised := Some (e, cs, nw_os W1)\<rparr>))"

definition socket_env_of :: "('d, 'o) net_env \<Rightarrow> (client_socket \<Rightarrow> 'o net_world \<Rightarrow> client_socket \<times> 'o net_world)
    \<Rightarrow> (client_socket \<Rightarrow> tbyte list \<Rightarrow> 'o net_world \<Rightarrow> int \<times> client_socket \<times> 'o net_world) \<Rightarrow> 'o net_world socket_env" where
  "socket_env_of env dis rcv = net_os.extend (lift_os (ne_os env)) (socket_env.fields dis rcv)"

definition map_insert :: "('k \<rightharpoonup> 'v) \<Rightarrow> 'k \<Rightarrow> 'v \<Rightarrow> ('k \<rightharpoonup> 'v)" where
  "map_insert m k v = (case m k of None \<Rightarrow> m(k \<mapsto> v) | Some _ \<Rightarrow> m)"

text \<open>\<open>OnNewConnec\<close>; the address a \<open>new Connection\<close> would give is an argument. \<open>insert\<close> keeps an existing entry.\<close>

definition OnNewConnec :: "('d, 'o) net_env \<Rightarrow> nat option \<Rightarrow> tuint32 \<Rightarrow> tuint16 \<Rightarrow> 'o net_world
    \<Rightarrow> nat option outcome \<times> 'o net_world" where
  "OnNewConnec env new_Connection uClientIP uClientPort W =
     (case IPCheck W uClientIP of
        (False, W1) \<Rightarrow> (Ok None, W1)
      | (True, W1) \<Rightarrow>
          (case get_idle_connect (ns_vec (nw_net W1), nw_store W1) new_Connection of
             (Raised e, vec, st) \<Rightarrow> (Raised e, W1)
           | (Ok None, vec, st) \<Rightarrow> (Ok None, W1)
           | (Ok (Some p), vec, st) \<Rightarrow>
               let W2 = W1\<lparr>nw_net := (nw_net W1)\<lparr>ns_vec := vec\<rparr>, nw_store := st\<rparr>;
                   (cs1, W3) = cs_close (socket_env_of env (\<lambda>cs W. (cs, W)) (\<lambda>cs bs W. (0, cs, W))) (cn_socket (st p)) W2;
                   (ok, cs2) = set_buf_size cs1 (ne_recv_storage env) (ne_send_storage env);
                   cs3 = cs2\<lparr>m_funOnDisConnect := True, m_funOnRecvMessage := True\<rparr>;
                   nUID = m_uIDGenerator (nw_net W3);
                   c = (SetStatus (nw_store W3 p) CONNECTED)\<lparr>cn_socket := cs3, m_nUID := nUID\<rparr>
               in (Ok (Some p),
                   W3\<lparr>nw_store := (nw_store W3)(p := c),
                      nw_net := (nw_net W3)\<lparr>m_uIDGenerator := nUID + 1,
                        m_kOnlineUser := map_insert (m_kOnlineUser (nw_net W3)) nUID p\<rparr>\<rparr>)))"

definition GetUser :: "'o net_world \<Rightarrow> tuint32 \<Rightarrow> nat option" where
  "GetUser W uID = m_kOnlineUser (nw_net W) uID"

section \<open>Packets\<close>

text \<open>The message goes to the channel's output; whether it was taken is not looked at.\<close>

definition SendMsgToHttp :: "'m message_class \<Rightarrow> 'm \<Rightarrow> 'o net_world \<Rightarrow> (bool \<times> 'o net_world) option" where
  "SendMsgToHttp cls pkMessage W =
     (let ns = nw_net W;
          mh = (ns_msg_head ns)\<lparr>m_nSrcServiceType := ServiceType_LOGIN, m_nScrServiceID := ucast (ns_service_id ns),
                 m_nDstServiceType := ServiceType_HTTP, m_nDstServiceID := - 1\<rparr>
      in case MessageEncoder_Encode cls (ns_msg_encoder ns) (Some pkMessage) mh of
           None \<Rightarrow> None
         | Some (ok, en1, mh1) \<Rightarrow>
             let W1 = W\<lparr>nw_net := ns\<lparr>ns_msg_head := mh1, ns_msg_encoder := en1\<rparr>\<rparr>
             in if \<not> ok then Some (False, W1)
                else Some (True, W1\<lparr>nw_mem := snd (SendMessageOutput (m_kMCLogin2Http ns) (nw_mem W1)
                       (take (unat (MessageEncoder_GetSize en1)) (MessageEncoder_GetBuff en1)))\<rparr>))"

text \<open>
  \<open>HandlePacketUserLogin\<close> with the bytes behind the head; \<open>None\<close> when the packet's size is more than
  there are.
\<close>

definition HandleUserLogin :: "('d, 'o) net_env \<Rightarrow> nat \<Rightarrow> packet_head \<Rightarrow> tbyte list \<Rightarrow> 'o net_world \<Rightarrow> 'o net_world option" where
  "HandleUserLogin env p ph pBuff W =
     (let pb = ne_pb env
      in if length pBuff < unat (m_usPacketSize ph) then None
         else case P_Login_Decode (pb_cg_login pb) (pb_new pb) pBuff (ucast (m_usPacketSize ph)) of
           (False, _) \<Rightarrow> Some W
         | (True, d) \<Rightarrow>
             let c = (SetStatus (nw_store W p) VERIFYING)\<lparr>m_sAccount := login_account pb d\<rparr>;
                 W1 = W\<lparr>nw_store := (nw_store W)(p := c)\<rparr>;
                 req = make_req pb (m_nUID c) (login_account pb d) (login_validateinfo pb d)
             in map_option snd (SendMsgToHttp (M_REQ_Login (pb_nh_req pb)) req W1))"

definition run_packet_handler :: "('d, 'o) net_env \<Rightarrow> packet_handler \<Rightarrow> nat \<Rightarrow> packet_head \<Rightarrow> tbyte list \<Rightarrow> 'o net_world
    \<Rightarrow> 'o net_world option" where
  "run_packet_handler env h p ph pBuff W =
     (case h of
        HandlePacketUserLogin \<Rightarrow> HandleUserLogin env p ph pBuff W
      | HandlePacketDefault \<Rightarrow> Some (net_log W (LogUndefinedPacket (m_nPacketID ph) (m_usPacketSize ph))))"

text \<open>\<open>PeekPacket\<close>: the connection (\<open>None\<close> for null), and the bytes received and not yet used.\<close>

definition PeekPacket :: "('d, 'o) net_env \<Rightarrow> nat option \<Rightarrow> tbyte list \<Rightarrow> 'o net_world \<Rightarrow> (tuint32 \<times> 'o net_world) option" where
  "PeekPacket env pk pInBuf W =
     (if length pInBuf < 2 + 2 then Some (0, W)
      else case pk of
        None \<Rightarrow> Some (0, W)
      | Some p \<Rightarrow>
          let nLeftBufLen = word_of_nat (length pInBuf) :: tint32
          in case PacketHead_Decode PacketHead_new pInBuf nLeftBufLen of
               None \<Rightarrow> None
             | Some (False, _) \<Rightarrow> Some (0, W)
             | Some (True, ph) \<Rightarrow>
                 let pReadBuf = drop (unat PacketHead_GetSize) pInBuf;
                     nLeft = nLeftBufLen - scast PacketHead_GetSize;
                     nRead = scast PacketHead_GetSize + ucast (m_usPacketSize ph) :: tuint32
                 in if int (unat (m_usPacketSize ph)) > sint nLeft then Some (0, W)
                    else if unat (m_nPacketID ph) < PACKET_ID_MAX
                    then (case m_pPacketDispatcher (nw_net W) ! unat (m_nPacketID ph) of
                            Some h \<Rightarrow> map_option (Pair nRead) (run_packet_handler env h p ph pReadBuf W)
                          | None \<Rightarrow> Some (nRead, net_log W (LogUnhandledPacket (m_nPacketID ph))))
                    else Some (nRead, net_log W (LogUnknownPacket (m_nPacketID ph))))"

text \<open>The loop of \<open>OnRecvMessage\<close>; \<open>Some None\<close> stands for an access outside a buffer.\<close>

partial_function (option) recv_packets ::
  "('d, 'o) net_env \<Rightarrow> nat option \<Rightarrow> tbyte list \<Rightarrow> tuint32 \<Rightarrow> 'o net_world \<Rightarrow> (tuint32 \<times> 'o net_world) option option" where
  "recv_packets env pk buf nReadTotal W =
     (case PeekPacket env pk (drop (unat nReadTotal) buf) W of
        None \<Rightarrow> Some None
      | Some r \<Rightarrow>
          (if fst r > 0 then recv_packets env pk buf (nReadTotal + fst r) (snd r)
           else Some (Some (nReadTotal, snd r))))"

definition OnRecvMessage :: "('d, 'o) net_env \<Rightarrow> nat option \<Rightarrow> tbyte list \<Rightarrow> 'o net_world \<Rightarrow> (tint32 \<times> 'o net_world) option option" where
  "OnRecvMessage env pk buf W = recv_packets env pk buf 0 W"

section \<open>Messages\<close>

definition connection_env :: "('d, 'o) net_env \<Rightarrow> nat \<Rightarrow> 'o net_world socket_env" where
  "connection_env env p = socket_env_of env (disconnect_callback env p)
     (\<lambda>cs bs W. case OnRecvMessage env (Some p) bs W of Some (Some (n, W1)) \<Rightarrow> (sint n, cs, W1) | _ \<Rightarrow> (0, cs, W))"

text \<open>\<open>pUser->send_data\<close>: an exception of the callback leaves it with the socket as it was at the call.\<close>

definition user_send_data :: "('d, 'o) net_env \<Rightarrow> nat \<Rightarrow> tbyte list \<Rightarrow> 'o net_world \<Rightarrow> (int outcome \<times> 'o net_world) option" where
  "user_send_data env p data W =
     (case send_data (connection_env env p) (cn_socket (nw_store W p)) (Some data) (W\<lparr>nw_raised := None\<rparr>) of
        None \<Rightarrow> None
      | Some (ret, cs, W1) \<Rightarrow>
          (case nw_raised W1 of
             None \<Rightarrow> Some (Ok ret, W1\<lparr>nw_store := (nw_store W1)(p := (nw_store W1 p)\<lparr>cn_socket := cs\<rparr>)\<rparr>)
           | Some (e, cs1, o1) \<Rightarrow>
               Some (Raised e, W1\<lparr>nw_raised := None, nw_os := o1,
                 nw_store := (nw_store W1)(p := (nw_store W1 p)\<lparr>cn_socket := cs1\<rparr>)\<rparr>)))"

text \<open>
  \<open>HandleMsgUserLoginRet\<close> with the bytes behind the head in the receiver's buffer: the size the
  message is decoded with is the low half of \<open>m_nSize\<close>. What leaves \<open>send_data\<close> is logged and raised again.
\<close>

definition HandleUserLoginRet :: "('d, 'o) net_env \<Rightarrow> message_head \<Rightarrow> tbyte list \<Rightarrow> 'o net_world
    \<Rightarrow> (unit outcome \<times> 'o net_world) option" where
  "HandleUserLoginRet env mh pBuff W =
     (let pb = ne_pb env; sz = unat (ucast (mh_nSize mh) :: tuint16)
      in if length pBuff < sz then None
         else case M_RET_Login_Decode (pb_hn_ret pb) (pb_new pb) (take sz pBuff) of
           (False, _) \<Rightarrow> Some (Ok (), W)
         | (True, d) \<Rightarrow>
             (case GetUser W (ret_uid pb d) of
                None \<Rightarrow> Some (Ok (), net_log W (LogUserGone (ret_uid pb d) (ret_account pb d)))
              | Some p \<Rightarrow>
                  (case PacketEncoder_Encode (P_LoginRet (pb_gc_login pb)) (PacketEncoder_new (ne_encoder_storage env))
                          (make_login_ret pb (ret_result pb d)) of
                     None \<Rightarrow> None
                   | Some (False, en) \<Rightarrow> Some (Ok (), W)
                   | Some (True, en) \<Rightarrow>
                       (case user_send_data env p (take (unat (PacketEncoder_GetSize en)) (PacketEncoder_GetBuff en)) W of
                          None \<Rightarrow> None
                        | Some (Ok _, W1) \<Rightarrow> Some (Ok (), W1)
                        | Some (Raised e, W1) \<Rightarrow>
                            (case AssertEx (ne_tm env) (ne_place env) False ''false'' (exn_text (ne_place env) e) (nw_asserts W1) of
                               (o', log') \<Rightarrow> Some (o', W1\<lparr>nw_asserts := log'\<rparr>))))))"

definition run_message_handler :: "('d, 'o) net_env \<Rightarrow> message_handler \<Rightarrow> message_head \<Rightarrow> tbyte list \<Rightarrow> 'o net_world
    \<Rightarrow> (unit outcome \<times> 'o net_world) option" where
  "run_message_handler env h mh pBuff W =
     (case h of
        HandleMsgUserLoginRet \<Rightarrow> HandleUserLoginRet env mh pBuff W
      | HandleMsgDefault \<Rightarrow> Some (Ok (), net_log W (LogUndefinedMessage mh)))"

text \<open>The loop of \<open>TickHttpMsg\<close>, with the buffer and \<open>bufSize\<close>; a round, then the next one.\<close>

datatype tick_round = TickEnd | TickReturn | TickNext

definition http_round :: "('d, 'o) net_env \<Rightarrow> tbyte list \<Rightarrow> tuint16 \<Rightarrow> 'o net_world
    \<Rightarrow> (tick_round outcome \<times> tbyte list \<times> tuint16 \<times> 'o net_world) option" where
  "http_round env buf bufSize W =
     (case RecvMessasgeInput (m_kMCLogin2Http (nw_net W)) (nw_mem W) bufSize of
        (None, m1) \<Rightarrow> Some (Ok TickEnd, buf, bufSize, W\<lparr>nw_mem := m1\<rparr>)
      | (Some (bytes, bufSize1), m1) \<Rightarrow>
          (case buf_write buf 0 bytes of
             None \<Rightarrow> None
           | Some buf1 \<Rightarrow>
               let W1 = W\<lparr>nw_mem := m1\<rparr>
               in case MessageHead_Decode MessageHead_new buf1 (ucast bufSize1) of
                    None \<Rightarrow> None
                  | Some (_, mh) \<Rightarrow>
                      if mh_nSize mh \<noteq> ucast bufSize1 - word_of_nat sizeof_MessageHead
                      then Some (Ok TickReturn, buf1, bufSize1, W1)
                      else if unat (mh_usMessageID mh) < MESSAGE_ID_MAX
                      then (case m_pMessageDispatcher (nw_net W1) ! unat (mh_usMessageID mh) of
                              None \<Rightarrow> Some (Ok TickNext, buf1, bufSize1, net_log W1 (LogUnhandledMessage (mh_usMessageID mh)))
                            | Some h \<Rightarrow>
                                (case run_message_handler env h mh (drop sizeof_MessageHead buf1) W1 of
                                   None \<Rightarrow> None
                                 | Some (Ok _, W2) \<Rightarrow> Some (Ok TickNext, buf1, bufSize1, W2)
                                 | Some (Raised e, W2) \<Rightarrow> Some (Raised e, buf1, bufSize1, W2)))
                      else Some (Ok TickNext, buf1, bufSize1, net_log W1 (LogUnknownMessage (mh_usMessageID mh)))))"

partial_function (option) http_loop :: "('d, 'o) net_env \<Rightarrow> tbyte list \<Rightarrow> tuint16 \<Rightarrow> 'o net_world
    \<Rightarrow> (unit outcome \<times> 'o net_world) option option" where
  "http_loop env buf bufSize W =
     (case http_round env buf bufSize W of
        None \<Rightarrow> Some None
      | Some r \<Rightarrow>
          (case fst r of
             Raised e \<Rightarrow> Some (Some (Raised e, snd (snd (snd r))))
           | Ok t \<Rightarrow>
               (if t = TickNext then http_loop env (fst (snd r)) (fst (snd (snd r))) (snd (snd (snd r)))
                else Some (Some (Ok (), snd (snd (snd r)))))))"

definition TickHttpMsg :: "('d, 'o) net_env \<Rightarrow> 'o net_world \<Rightarrow> (unit outcome \<times> 'o net_world) option option" where
  "TickHttpMsg env W = http_loop env (replicate 2048 0) 2048 W"

end
