(* ===== verification/PacketFrames.thy ===== *)
theory PacketFrames
  imports PacketCodec
begin

text \<open>
  Cutting received bytes into frames. The loops of \<open>NetService::OnRecvMessage\<close> and
  \<open>ClientService::OnRecvMessage\<close> differ in the number of bytes they skip for the head; what both rely on
  is the locale \<open>packet_reader\<close>, whose lemma says that the loop returns and what it hands to the handlers.
\<close>

definition head_of :: "tbyte list \<Rightarrow> packet_head" where
  "head_of b = \<lparr>m_usPacketSize = head_field (b ! 0) (b ! 1), m_nPacketID = head_field (b ! 2) (b ! 3)\<rparr>"

text \<open>
  The received bytes cut into frames: a head of \<open>hs\<close> bytes, whose first four \<open>PacketHead::Decode\<close> reads,
  and as many bytes behind it as it says, as long as they are complete. Each frame is given with all the
  bytes behind its head.
\<close>

definition complete_by :: "nat \<Rightarrow> tbyte list \<Rightarrow> bool" where
  "complete_by hs b \<longleftrightarrow> 0 < hs \<and> hs \<le> length b \<and> unat (m_usPacketSize (head_of b)) \<le> length b - hs"

function frames_by :: "nat \<Rightarrow> tbyte list \<Rightarrow> (packet_head \<times> tbyte list) list" where
  "frames_by hs b =
     (if complete_by hs b
      then (head_of b, drop hs b) # frames_by hs (drop (hs + unat (m_usPacketSize (head_of b))) b)
      else [])"
  by pat_completeness auto
termination
  by (relation "measure (\<lambda>(hs, b). length b)") (auto simp: complete_by_def)

declare frames_by.simps [simp del]

definition frames_size_by :: "nat \<Rightarrow> (packet_head \<times> tbyte list) list \<Rightarrow> nat" where
  "frames_size_by hs fs = sum_list (map (\<lambda>(ph, _). hs + unat (m_usPacketSize ph)) fs)"

fun dispatch_all :: "('f \<Rightarrow> 'w \<Rightarrow> 'w option) \<Rightarrow> 'f list \<Rightarrow> 'w \<Rightarrow> 'w option" where
  "dispatch_all handle [] w = Some w"
| "dispatch_all handle (f # fs) w = Option.bind (handle f w) (dispatch_all handle fs)"

lemma frames_size_le: "frames_size_by hs (frames_by hs b) \<le> length b"
proof (induction hs b rule: frames_by.induct)
  case (1 hs b)
  show ?case
  proof (cases "complete_by hs b")
    case True
    then show ?thesis using 1 [OF True] by (subst frames_by.simps) (auto simp: frames_size_by_def complete_by_def)
  next
    case False
    then show ?thesis by (subst frames_by.simps) (simp add: frames_size_by_def)
  qed
qed

lemma decode_head_of:
  "4 \<le> length b \<Longrightarrow> length b < 2 ^ 31 \<Longrightarrow>
   PacketHead_Decode PacketHead_new b (word_of_nat (length b)) = Some (True, head_of b)"
  using sint_small [of "length b"] by (simp add: PacketHead_Decode_def head_of_def head_size_values)

text \<open>What is left behind the head, as the code computes it.\<close>

lemma left_behind_head:
  assumes "length b < 2 ^ 31" "hs < 2 ^ 31"
  shows "sint (word_of_nat (length b) - word_of_nat hs :: tint32) = int (length b) - int hs"
proof -
  have "(word_of_nat (length b) - word_of_nat hs :: tint32) = word_of_int (int (length b) - int hs)" by simp
  moreover have "- (2 ^ 31) \<le> int (length b) - int hs \<and> int (length b) - int hs < 2 ^ 31"
    using assms by auto
  ultimately show ?thesis by (simp only: sint_sbintrunc') (simp add: signed_take_bit_int_eq_self_iff)
qed

locale packet_reader =
  fixes hs :: nat
    and peek :: "tbyte list \<Rightarrow> 'w \<Rightarrow> (tuint32 \<times> 'w) option"
    and recv_all :: "tbyte list \<Rightarrow> tuint32 \<Rightarrow> 'w \<Rightarrow> (tuint32 \<times> 'w) option option"
    and handle :: "packet_head \<times> tbyte list \<Rightarrow> 'w \<Rightarrow> 'w option"
  assumes head_size: "0 < hs" "hs < 2 ^ 15"
    and recv_step: "recv_all buf t w =
      (case peek (drop (unat t) buf) w of
         None \<Rightarrow> Some None
       | Some r \<Rightarrow> (if fst r > 0 then recv_all buf (t + fst r) (snd r) else Some (Some (t, snd r))))"
    and peek_frame: "length b < 2 ^ 31 \<Longrightarrow> peek b w =
      (if complete_by hs b
       then map_option (Pair (word_of_nat hs + ucast (m_usPacketSize (head_of b)))) (handle (head_of b, drop hs b) w)
       else Some (0, w))"
begin

lemma recv_frames:
  assumes "length buf < 2 ^ 31" "t \<le> length buf"
  shows "recv_all buf (word_of_nat t) w =
    Some (map_option (Pair (word_of_nat (t + frames_size_by hs (frames_by hs (drop t buf)))))
      (dispatch_all handle (frames_by hs (drop t buf)) w))"
  using assms
proof (induction "length buf - t" arbitrary: t w rule: less_induct)
  case less
  let ?b = "drop t buf"
  have t: "unat (word_of_nat t :: tuint32) = t" using less.prems by (intro unat_of_nat_small) simp
  have l: "length ?b < 2 ^ 31" using less.prems by simp
  show ?case
  proof (cases "complete_by hs ?b")
    case False
    have "frames_by hs ?b = []" using False by (subst frames_by.simps) simp
    then show ?thesis
      by (subst recv_step) (simp add: t peek_frame [OF l] False frames_size_by_def)
  next
    case True
    define u where "u = unat (m_usPacketSize (head_of ?b))"
    define r where "r = (word_of_nat hs + ucast (m_usPacketSize (head_of ?b)) :: tuint32)"
    have u: "hs + u \<le> length ?b" "0 < hs" using True by (auto simp: complete_by_def u_def)
    have r: "r = word_of_nat (hs + u)" unfolding r_def u_def by (simp add: word_unat_eq_iff)
    have "unat r = hs + u" unfolding r by (rule unat_of_nat_small) (use u l in simp)
    then have pos: "r > 0" using u by (simp add: word_less_nat_alt)
    have t': "(word_of_nat t :: tuint32) + r = word_of_nat (t + (hs + u))" by (simp add: r)
    have fr: "frames_by hs ?b = (head_of ?b, drop hs ?b) # frames_by hs (drop (t + (hs + u)) buf)"
      using True by (subst frames_by.simps) (simp add: u_def add.commute)
    have sz: "frames_size_by hs (frames_by hs ?b) = (hs + u) + frames_size_by hs (frames_by hs (drop (t + (hs + u)) buf))"
      by (simp add: fr frames_size_by_def u_def)
    have IH: "recv_all buf (word_of_nat (t + (hs + u))) w1 =
        Some (map_option (Pair (word_of_nat ((t + (hs + u)) + frames_size_by hs (frames_by hs (drop (t + (hs + u)) buf)))))
          (dispatch_all handle (frames_by hs (drop (t + (hs + u)) buf)) w1))" for w1
      by (rule less.hyps) (use u less.prems in auto)
    let ?f = "(head_of ?b, drop hs ?b)"
    have peek: "peek ?b w = map_option (Pair r) (handle ?f w)"
      unfolding r_def using peek_frame [OF l] True by simp
    have step: "recv_all buf (word_of_nat t) w = (case handle ?f w of None \<Rightarrow> Some None
        | Some w1 \<Rightarrow> recv_all buf (word_of_nat (t + (hs + u))) w1)"
      by (subst recv_step, cases "handle ?f w")
        (simp_all only: t peek t' pos option.case option.map fst_conv snd_conv if_True)
    show ?thesis unfolding step sz
      by (cases "handle ?f w") (simp_all add: IH fr add.assoc del: of_nat_add)
  qed
qed

lemma recv_all_frames:
  assumes "length buf < 2 ^ 31"
  shows "recv_all buf 0 w = Some (map_option (Pair (word_of_nat (frames_size_by hs (frames_by hs buf))))
      (dispatch_all handle (frames_by hs buf) w))"
  using recv_frames [OF assms, of 0 w] by simp

end

end
