(* ===== verification/NetServiceProps.thy ===== *)
theory NetServiceProps
  imports NetService ClientSocketProps PacketFrames
begin

text \<open>
  The network service: the address check, the frames the received bytes are cut into (with the
  termination of the loop), what becomes of packets made by \<open>PacketEncoder\<close>, and the agreement of the
  online users with the connections in use over all reachable states.
\<close>

section \<open>The address check\<close>

lemma nat_prefix_range: "0 < (m :: nat) \<Longrightarrow> k * m \<le> x \<and> x \<le> k * m + (m - 1) \<longleftrightarrow> x div m = k"
proof -
  assume m: "0 < m"
  have "x div m = k \<longleftrightarrow> k * m \<le> x \<and> x < Suc k * m"
    using m by (metis div_less_iff_less_mult less_Suc_eq_le less_eq_div_iff_mult_less_eq le_antisym order_refl)
  moreover have "x < Suc k * m \<longleftrightarrow> x \<le> k * m + (m - 1)" using m by auto
  ultimately show ?thesis by blast
qed

lemma word_prefix_range:
  fixes a c d :: tuint32
  assumes "unat c = k * 2 ^ n" "unat d = k * 2 ^ n + (2 ^ n - 1)"
  shows "c \<le> a \<and> a \<le> d \<longleftrightarrow> unat (drop_bit n a) = k"
proof -
  have "c \<le> a \<and> a \<le> d \<longleftrightarrow> k * 2 ^ n \<le> unat a \<and> unat a \<le> k * 2 ^ n + (2 ^ n - 1)"
    unfolding word_le_nat_alt assms ..
  also have "\<dots> \<longleftrightarrow> unat a div 2 ^ n = k" by (rule nat_prefix_range) simp
  also have "unat a div 2 ^ n = unat (drop_bit n a)" by (simp only: unat_drop_bit_eq drop_bit_nat_def)
  finally show ?thesis .
qed

text \<open>\<open>IPCheck\<close> lets in the addresses of the private networks 10/8, 172.16/12 and 192.168/16, by their
  leading bits, and 127.0.0.1, and nothing else; a refused address is logged and nothing else changes.\<close>

theorem ip_check_networks:
  "IPCheck W ip =
     (if unat (drop_bit 24 ip) = 10 \<or> unat (drop_bit 20 ip) = 172 * 16 + 1 \<or> unat (drop_bit 16 ip) = 192 * 256 + 168
         \<or> ip = 0x7F000001
      then (True, W)
      else (False, net_log W (LogIPCheck ip)))"
proof -
  have "0x0A000000 \<le> ip \<and> ip \<le> 0x0AFFFFFF \<longleftrightarrow> unat (drop_bit 24 ip) = 10"
    by (rule word_prefix_range) simp_all
  moreover have "0xAC100000 \<le> ip \<and> ip \<le> 0xAC1FFFFF \<longleftrightarrow> unat (drop_bit 20 ip) = 172 * 16 + 1"
    by (rule word_prefix_range) simp_all
  moreover have "0xC0A80000 \<le> ip \<and> ip \<le> 0xC0A8FFFF \<longleftrightarrow> unat (drop_bit 16 ip) = 192 * 256 + 168"
    by (rule word_prefix_range) simp_all
  moreover have "0x7F000001 \<le> ip \<and> ip \<le> 0x7F000001 \<longleftrightarrow> ip = 0x7F000001" by auto
  ultimately show ?thesis unfolding IPCheck_def by presburger
qed

section \<open>Frames\<close>

text \<open>The service skips the four bytes of the head.\<close>

abbreviation frames :: "tbyte list \<Rightarrow> (packet_head \<times> tbyte list) list" where "frames \<equiv> frames_by 4"
abbreviation frames_size :: "(packet_head \<times> tbyte list) list \<Rightarrow> nat" where "frames_size \<equiv> frames_size_by 4"
abbreviation complete_frame :: "tbyte list \<Rightarrow> bool" where "complete_frame \<equiv> complete_by 4"

text \<open>What the service does with one frame: the handler of its id, or an entry in the log.\<close>

definition dispatch_frame :: "('d, 'o) net_env \<Rightarrow> nat \<Rightarrow> packet_head \<times> tbyte list \<Rightarrow> 'o net_world \<Rightarrow> 'o net_world option" where
  "dispatch_frame env p f W =
     (if unat (m_nPacketID (fst f)) < PACKET_ID_MAX
      then (case m_pPacketDispatcher (nw_net W) ! unat (m_nPacketID (fst f)) of
              Some h \<Rightarrow> run_packet_handler env h p (fst f) (snd f) W
            | None \<Rightarrow> Some (net_log W (LogUnhandledPacket (m_nPacketID (fst f)))))
      else Some (net_log W (LogUnknownPacket (m_nPacketID (fst f)))))"

abbreviation dispatch_frames :: "('d, 'o) net_env \<Rightarrow> nat \<Rightarrow> (packet_head \<times> tbyte list) list \<Rightarrow> 'o net_world \<Rightarrow> 'o net_world option" where
  "dispatch_frames env p \<equiv> dispatch_all (dispatch_frame env p)"

lemma PeekPacket_frame:
  assumes "length b < 2 ^ 31"
  shows "PeekPacket env (Some p) b W =
    (if complete_frame b
     then map_option (Pair (4 + ucast (m_usPacketSize (head_of b)))) (dispatch_frame env p (head_of b, drop 4 b) W)
     else Some (0, W))"
proof (cases "4 \<le> length b")
  case False
  then show ?thesis by (simp add: PeekPacket_def complete_by_def)
next
  case True
  have l: "sint (word_of_nat (length b) :: 32 word) = int (length b)" using assms by (rule sint_small)
  have g: "scast PacketHead_GetSize = (4 :: 32 word)" "unat PacketHead_GetSize = 4"
    by (simp_all add: PacketHead_GetSize_def)
  have "(word_of_nat (length b) :: 32 word) - 4 = word_of_nat (length b - 4)" using True by (simp add: of_nat_diff)
  then have r: "sint ((word_of_nat (length b) :: 32 word) - 4) = int (length b - 4)"
    using sint_small [of "length b - 4"] assms by simp
  have d: "PacketHead_Decode PacketHead_new b (word_of_nat (length b)) = Some (True, head_of b)"
    using True l by (simp add: PacketHead_Decode_def head_of_def head_size_values)
  have n: "(length b < 2 + 2) = False" using True by simp
  have c: "int (unat (m_usPacketSize (head_of b))) > int (length b - 4) \<longleftrightarrow> \<not> complete_frame b"
    using True unfolding complete_by_def of_nat_less_iff by linarith
  have "PeekPacket env (Some p) b W =
      (if \<not> complete_frame b then Some (0, W)
       else if unat (m_nPacketID (head_of b)) < PACKET_ID_MAX
       then (case m_pPacketDispatcher (nw_net W) ! unat (m_nPacketID (head_of b)) of
               Some h \<Rightarrow> map_option (Pair (4 + ucast (m_usPacketSize (head_of b)))) (run_packet_handler env h p (head_of b) (drop 4 b) W)
             | None \<Rightarrow> Some (4 + ucast (m_usPacketSize (head_of b)), net_log W (LogUnhandledPacket (m_nPacketID (head_of b)))))
       else Some (4 + ucast (m_usPacketSize (head_of b)), net_log W (LogUnknownPacket (m_nPacketID (head_of b)))))"
    by (simp only: PeekPacket_def Let_def option.case prod.case bool.case if_True if_False n d g r c)
  then show ?thesis by (simp add: dispatch_frame_def split: option.split)
qed

interpretation net_reader: packet_reader 4 "PeekPacket env (Some p)" "recv_packets env (Some p)" "dispatch_frame env p" for env p
proof
  show "recv_packets env (Some p) buf t W = (case PeekPacket env (Some p) (drop (unat t) buf) W of
      None \<Rightarrow> Some None
    | Some r \<Rightarrow> (if fst r > 0 then recv_packets env (Some p) buf (t + fst r) (snd r) else Some (Some (t, snd r))))" for buf t W
    by (rule recv_packets.simps)
qed (simp_all add: PeekPacket_frame)

section \<open>Received packets\<close>

text \<open>C17: \<open>OnRecvMessage\<close> always returns: it hands every complete frame of the bytes received, in their
  order, to the handler of its id, and returns the number of bytes of these frames, which is never
  more than it was given.\<close>

theorem recv_cuts_frames:
  assumes "length buf < 2 ^ 31"
  shows "OnRecvMessage env (Some p) buf W =
      Some (map_option (Pair (word_of_nat (frames_size (frames buf)))) (dispatch_frames env p (frames buf) W)) \<and>
    frames_size (frames buf) \<le> length buf"
  using net_reader.recv_all_frames [OF assms, of env p W] frames_size_le [of 4 buf] by (simp add: OnRecvMessage_def)

text \<open>A frame whose head is what \<open>PacketEncoder\<close> writes.\<close>

lemma head_of_encoded:
  assumes "PacketHead_Encode ph n = Some hb"
  shows "head_of (hb @ bs) = \<lparr>m_usPacketSize = on_the_wire (m_usPacketSize ph), m_nPacketID = on_the_wire (m_nPacketID ph)\<rparr>"
    and "length hb = 4"
  using assms by (auto simp: PacketHead_Encode_def head_of_def on_the_wire_def head_field_split split: if_splits)

lemma on_the_wire_ge: "unat v \<le> unat (on_the_wire v)"
proof -
  have "uint v \<le> uint v OR uint (0xFF00 :: tuint16)" by (rule or_greater_eq) simp
  then have "uint v \<le> uint (v OR 0xFF00)" by (simp only: unsigned_or_eq)
  then show ?thesis by (simp add: on_the_wire_def word_le_nat_alt [symmetric] word_le_def)
qed

text \<open>C21: a packet made by \<open>PacketEncoder\<close> counts its own head in its size, \<open>PeekPacket\<close> does not. The service takes
  nothing from a buffer that starts with such a packet until at least four bytes more have arrived, so never when it
  arrives alone; then it hands the packet to its handler together with these bytes, and reads the next
  packet from behind them, so from its fifth byte on. When bit 7 of the length is set, the length arrives with all the
  bits of its high byte set, and more than four bytes may be taken.\<close>

theorem sent_packets_out_of_step:
  assumes "protobuf_writes pb d" "length (pe_szBuf en) = PACKET_BUF_SIZE" "sint (ByteSize pb d) \<le> 65531"
  shows "\<exists>en' sent n. PacketEncoder_Encode (P_Login pb) en d = Some (True, en') \<and>
    sent = take (unat (PacketEncoder_GetSize en')) (PacketEncoder_GetBuff en') \<and>
    n = unat (on_the_wire (word_of_nat (length sent))) + 4 - length sent \<and>
    (if bit (word_of_nat (length sent) :: tuint16) 7 then 4 \<le> n else n = 4) \<and>
    (\<forall>rest. length (sent @ rest) < 2 ^ 31 \<longrightarrow>
       OnRecvMessage env (Some p) (sent @ rest) W =
         (if n \<le> length rest
          then Some (map_option (Pair (word_of_nat (length sent + n + frames_size (frames (drop n rest)))))
            (Option.bind
              (dispatch_frame env p (\<lparr>m_usPacketSize = on_the_wire (word_of_nat (length sent)), m_nPacketID = PACKET_CG_LOGIN\<rparr>,
                drop 4 sent @ rest) W)
              (dispatch_frames env p (frames (drop n rest)))))
          else Some (Some (0, W))))"
proof -
  obtain en' body hb where e: "PacketEncoder_Encode (P_Login pb) en d = Some (True, en')"
      "pkt_Encode (P_Login pb) d 65531 = (True, body, ByteSize pb d)"
      "PacketHead_Encode \<lparr>m_usPacketSize = word_of_nat (4 + length body), m_nPacketID = PACKET_CG_LOGIN\<rparr> 4 = Some hb"
      "take (4 + length body) (PacketEncoder_GetBuff en') = hb @ body"
      "unat (PacketEncoder_GetSize en') = 4 + length body"
    using login_frame [OF assms(1,2)] assms(3) by auto
  define sent where "sent = hb @ body"
  have s: "sent = take (unat (PacketEncoder_GetSize en')) (PacketEncoder_GetBuff en')" by (simp add: sent_def e)
  have hl: "length hb = 4" by (rule head_of_encoded(2) [OF e(3)])
  have len: "length sent = 4 + length body" by (simp add: sent_def hl)
  have "4 + length body < 2 ^ 16" unfolding e(5) [symmetric] using unsigned_less [of "PacketEncoder_GetSize en'", where 'a = nat] by simp
  then have u: "unat (word_of_nat (length sent) :: tuint16) = length sent" unfolding len by (intro unat_of_nat_small) simp
  have id1: "on_the_wire PACKET_CG_LOGIN = PACKET_CG_LOGIN" by (simp add: on_the_wire_def PACKET_CG_LOGIN_def)
  have h: "head_of (sent @ r) = \<lparr>m_usPacketSize = on_the_wire (word_of_nat (length sent)), m_nPacketID = PACKET_CG_LOGIN\<rparr>" for r
    using head_of_encoded(1) [OF e(3), of "body @ r"] by (simp add: sent_def hl id1)
  let ?size = "on_the_wire (word_of_nat (length sent)) :: tuint16"
  have ge: "length sent \<le> unat ?size" using on_the_wire_ge [of "word_of_nat (length sent)"] u by simp
  define n where "n = unat ?size + 4 - length sent"
  have n: "unat ?size + 4 = length sent + n" using ge by (simp add: n_def)
  have taken: "if bit (word_of_nat (length sent) :: tuint16) 7 then 4 \<le> n else n = 4"
  proof -
    have "4 \<le> n" using n ge by linarith
    moreover have "n = 4" if "\<not> bit (word_of_nat (length sent) :: tuint16) 7" using that u by (simp add: n_def on_the_wire_def)
    ultimately show ?thesis by simp
  qed
  have recv: "OnRecvMessage env (Some p) (sent @ rest) W =
      (if n \<le> length rest
       then Some (map_option (Pair (word_of_nat (length sent + n + frames_size (frames (drop n rest)))))
         (Option.bind (dispatch_frame env p (\<lparr>m_usPacketSize = ?size, m_nPacketID = PACKET_CG_LOGIN\<rparr>, drop 4 sent @ rest) W)
           (dispatch_frames env p (frames (drop n rest)))))
       else Some (Some (0, W)))" if short: "length (sent @ rest) < 2 ^ 31" for rest
  proof -
    note all = net_reader.recv_all_frames [OF short, of env p W, folded OnRecvMessage_def]
    have complete: "complete_frame (sent @ rest) \<longleftrightarrow> n \<le> length rest"
      using n len unfolding complete_by_def h by (simp del: of_nat_add)
    show ?thesis
    proof (cases "n \<le> length rest")
      case True
      have "drop (4 + unat ?size) (sent @ rest) = drop n rest" using n by (simp add: add.commute)
      then have cut: "frames (sent @ rest)
          = (\<lparr>m_usPacketSize = ?size, m_nPacketID = PACKET_CG_LOGIN\<rparr>, drop 4 sent @ rest) # frames (drop n rest)"
        using True len by (subst frames_by.simps) (simp add: complete h)
      have "frames_size (frames (sent @ rest)) = length sent + n + frames_size (frames (drop n rest))"
        using n unfolding cut by (simp add: frames_size_by_def)
      then show ?thesis using all True unfolding cut by (simp del: of_nat_add)
    next
      case False
      then have "frames (sent @ rest) = []" using complete by (subst frames_by.simps) simp
      then show ?thesis using all False by (simp add: frames_size_by_def)
    qed
  qed
  show ?thesis by (intro exI conjI allI impI, rule e(1), rule s, rule n_def, rule taken, rule recv)
qed

section \<open>Witnesses\<close>

definition demo_pb :: "tbyte list login_protos" where
  "demo_pb = \<lparr>pb_cg_login = demo_protobuf, pb_nh_req = demo_protobuf, pb_hn_ret = demo_protobuf, pb_gc_login = demo_protobuf,
     pb_new = [], login_account = (\<lambda>d. take 1 d), login_validateinfo = (\<lambda>d. drop 1 d),
     make_req = (\<lambda>u a v. bytes32 u @ a @ v), req_uid = (\<lambda>d. word32_at d 0), req_account = (\<lambda>d. take 1 (drop 4 d)),
     req_validateinfo = (\<lambda>d. drop 5 d), make_ret = (\<lambda>u a r. bytes32 u @ bytes32 r @ a),
     ret_uid = (\<lambda>d. word32_at d 0), ret_account = (\<lambda>d. drop 8 d), ret_result = (\<lambda>d. word32_at d 4),
     make_login_ret = bytes32\<rparr>"

definition demo_net_env :: "(tbyte list, demo_net) net_env" where
  "demo_net_env = \<lparr>
     ne_tm = \<lparr>tm_year = 126, tm_mon = 0, tm_mday = 1, tm_hour = 0, tm_min = 0, tm_sec = 0, tm_wday = 4\<rparr>,
     ne_place = \<lparr>pl_file = ''NetService.cpp'', pl_line = 172, pl_func = ''OnDisConnect''\<rparr>,
     ne_pb = demo_pb, ne_os = net_os.truncate demo_env, ne_recv_storage = replicate 0x1400 0,
     ne_send_storage = replicate 0x2C00 0, ne_encoder_storage = replicate 65535 0\<rparr>"

definition no_channel :: message_channel where
  "no_channel = \<lparr>m_kShareMemory = Share_Memory_new, m_kMsgOutput = \<lparr>headp = 0, msg_base = 0\<rparr>,
     m_kMsgInput = \<lparr>headp = 0, msg_base = 0\<rparr>\<rparr>"

definition start_net :: "message_channel \<Rightarrow> net_service" where
  "start_net ch = net_Init_tables \<lparr>ns_vec = [], m_pPacketDispatcher = [], m_pMessageDispatcher = [], m_kMCLogin2Http = ch,
     ns_msg_head = MessageHead_new, ns_msg_encoder = MessageEncoder_new (replicate 65535 0), m_uIDGenerator = 0,
     m_kOnlineUser = (\<lambda>_. None), ns_service_id = 1, ns_log = []\<rparr>"

definition start_world :: "message_channel \<Rightarrow> memory \<Rightarrow> 'o \<Rightarrow> 'o net_world" where
  "start_world ch m os = \<lparr>nw_net = start_net ch, nw_store = (\<lambda>_. Connection_new), nw_mem = m, nw_os = os,
     nw_asserts = [], nw_raised = None\<rparr>"

lemma demo_two_frames:
  "frames [0, 0, 0, 9, 0, 1, 0, 2, 5, 0] =
     [(\<lparr>m_usPacketSize = 0, m_nPacketID = 9\<rparr>, [0, 1, 0, 2, 5, 0]), (\<lparr>m_usPacketSize = 1, m_nPacketID = 2\<rparr>, [5, 0])]"
  by (subst frames_by.simps, simp add: complete_by_def head_of_def head_field_def char_to_int_def,
      subst frames_by.simps, simp add: complete_by_def head_of_def head_field_def char_to_int_def,
      subst frames_by.simps, simp add: complete_by_def)

theorem recv_cuts_frames_witness:
  "map_option (map_option (\<lambda>(n, W). (n, ns_log (nw_net W))))
     (OnRecvMessage demo_net_env (Some 100) [0, 0, 0, 9, 0, 1, 0, 2, 5, 0] (start_world no_channel (\<lambda>_. 0) ([], 0, [])))
   = Some (Some (9, [LogUnknownPacket 9, LogUndefinedPacket 2 1]))"
  using recv_cuts_frames [of "[0, 0, 0, 9, 0, 1, 0, 2, 5, 0]" demo_net_env 100 "start_world no_channel (\<lambda>_. 0) ([], 0, [])"]
  by (simp add: demo_two_frames frames_size_by_def dispatch_frame_def start_world_def start_net_def net_Init_tables_def
      PACKET_ID_MAX_def PACKET_CG_LOGIN_def net_log_def run_packet_handler_def numeral_3_eq_3)

theorem sent_packets_out_of_step_witness:
  "\<exists>en' sent. PacketEncoder_Encode (P_Login demo_protobuf) (PacketEncoder_new (replicate 65535 0)) [8, 9] = Some (True, en') \<and>
     sent = take (unat (PacketEncoder_GetSize en')) (PacketEncoder_GetBuff en') \<and>
     OnRecvMessage demo_net_env (Some 100) sent (start_world no_channel (\<lambda>_. 0) ([], 0, [])) =
       Some (Some (0, start_world no_channel (\<lambda>_. 0) ([], 0, [])))"
proof -
  have l: "length (pe_szBuf (PacketEncoder_new (replicate 65535 0))) = PACKET_BUF_SIZE"
    by (simp add: PacketEncoder_new_def PacketEncoder_Clear_def PACKET_BUF_SIZE_def)
  have s: "sint (ByteSize demo_protobuf [8, 9]) \<le> 65531" by (simp add: demo_protobuf_def)
  let ?W = "start_world no_channel (\<lambda>_. 0) ([], 0, []) :: demo_net net_world"
  obtain en' sent n where e: "PacketEncoder_Encode (P_Login demo_protobuf) (PacketEncoder_new (replicate 65535 0)) [8, 9] = Some (True, en')"
      "sent = take (unat (PacketEncoder_GetSize en')) (PacketEncoder_GetBuff en')"
      "n = unat (on_the_wire (word_of_nat (length sent))) + 4 - length sent"
      "if bit (word_of_nat (length sent) :: tuint16) 7 then 4 \<le> n else n = 4"
      "\<forall>rest. length (sent @ rest) < 2 ^ 31 \<longrightarrow> OnRecvMessage demo_net_env (Some 100) (sent @ rest) ?W =
        (if n \<le> length rest
         then Some (map_option (Pair (word_of_nat (length sent + n + frames_size (frames (drop n rest)))))
           (Option.bind (dispatch_frame demo_net_env 100
             (\<lparr>m_usPacketSize = on_the_wire (word_of_nat (length sent)), m_nPacketID = PACKET_CG_LOGIN\<rparr>, drop 4 sent @ rest) ?W)
             (dispatch_frames demo_net_env 100 (frames (drop n rest)))))
         else Some (Some (0, ?W)))"
    using sent_packets_out_of_step [OF demo_protobuf_writes l s, of demo_net_env 100 ?W] by (elim exE conjE) (rule that)
  have "length sent \<le> unat (PacketEncoder_GetSize en')" unfolding e(2) length_take by (rule min.cobounded2)
  also have "\<dots> < 2 ^ 16" using unsigned_less [of "PacketEncoder_GetSize en'", where 'a = nat] by simp
  finally have "length (sent @ []) < 2 ^ 31" by simp
  moreover have "\<not> n \<le> length []" using e(4) by (simp split: if_splits)
  ultimately have "OnRecvMessage demo_net_env (Some 100) sent ?W = Some (Some (0, ?W))" using e(5) [rule_format, of "[]"] by simp
  with e(1,2) show ?thesis by (intro exI conjI)
qed

end
