(* ===== verification/NetServiceUsers.thy ===== *)
theory NetServiceUsers
  imports NetServiceProps
begin

text \<open>
  The online users of the network service: over every sequence of new connections, received packets,
  messages of the http services and disconnections, the map of the online users names exactly the
  connections in use, and the check of \<open>OnDisConnect\<close> never fails.
\<close>

section \<open>What the calls of a socket keep\<close>

text \<open>\<open>send_data\<close> calls the system, the callback at most once, and closes at most once after it.\<close>

lemma send_sock_keeps:
  "(\<And>w fd d. P w \<Longrightarrow> P (snd (os_send os w fd d))) \<Longrightarrow> P w \<Longrightarrow> P (snd (send_sock os w fd d))"
proof -
  assume k: "\<And>w fd d. P w \<Longrightarrow> P (snd (os_send os w fd d))" and p: "P w"
  obtain r w1 where r: "os_send os w fd d = (r, w1)" by fastforce
  have "P w1" using k [OF p, of fd d] r by simp
  then show "P (snd (send_sock os w fd d))" using r by (cases r) (simp_all add: send_sock_def Let_def)
qed

lemma send_loop_keeps:
  assumes "\<And>w fd d. P w \<Longrightarrow> P (snd (os_send os w fd d))" "P w"
  shows "P (snd (snd (send_loop os fd d w)))"
  using assms
proof (induction os fd d w rule: send_loop.induct)
  case (1 os fd d w)
  obtain n w1 where n: "send_sock os w fd d = (n, w1)" by fastforce
  have "P w1" using send_sock_keeps [of P os w fd d] 1(2,3) n by simp
  then show ?case using 1 n by (subst send_loop.simps) auto
qed

text \<open>\<open>P\<close> holds until the callback has run, \<open>Q\<close> from then on.\<close>

lemma cs_close_keeps:
  "(\<And>w fd. Q w \<Longrightarrow> Q (snd (os_close (net_os.truncate env) w fd))) \<Longrightarrow> Q w \<Longrightarrow> Q (snd (cs_close env cs w))"
  by (auto simp: cs_close_def closesocket_ex_def Let_def split: prod.splits) (metis snd_conv)

lemma cs_disconnect_keeps:
  assumes "\<And>w. P w \<Longrightarrow> Q w" "\<And>w fd. Q w \<Longrightarrow> Q (snd (os_close (net_os.truncate env) w fd))"
    "\<And>w cs. P w \<Longrightarrow> Q (snd (on_disconnect env cs w))" "P w"
  shows "Q (snd (cs_disconnect env cs w))"
proof -
  have "Q (snd (if m_funOnDisConnect cs then on_disconnect env cs w else (cs, w)))" using assms by auto
  then show ?thesis
    unfolding cs_disconnect_def Let_def case_prod_unfold using cs_close_keeps [where Q = Q and env = env] assms(2) by blast
qed

lemma send_data_keeps:
  assumes "\<And>w. P w \<Longrightarrow> Q w" "\<And>w fd d. P w \<Longrightarrow> P (snd (os_send (net_os.truncate env) w fd d))"
    "\<And>w fd. Q w \<Longrightarrow> Q (snd (os_close (net_os.truncate env) w fd))"
    "\<And>w cs. P w \<Longrightarrow> Q (snd (on_disconnect env cs w))" "P w" "send_data env cs data w = Some (r, cs', w')"
  shows "Q w'"
proof -
  note loop = send_loop_keeps [of P "net_os.truncate env", OF assms(2)]
  note dis = cs_disconnect_keeps [of P Q env, OF assms(1,3,4)]
  show ?thesis
  proof (cases "data = None \<or> the data = [] \<or> tcp_status_connected \<noteq> cs_status cs \<or> cs_fd cs = INVALID_SOCKET")
    case True
    then have "w' = w" using assms(6) unfolding send_data_def by (cases data) (simp_all split: if_splits)
    then show ?thesis using assms(1,5) by simp
  next
    case False
    have "data \<noteq> None" using False by (rule contrapos_nn) (rule disjI1)
    then obtain d where ds: "data = Some d" by (cases data) simp_all
    have "d \<noteq> []" using False unfolding ds by simp
    note d = ds this
    obtain e rest w1 where s1: "send_loop (net_os.truncate env) (cs_fd cs) (pending cs) w = (e, rest, w1)" by (metis prod_cases3)
    have p1: "P w1" using loop [OF _ assms(5), of "cs_fd cs" "pending cs"] s1 by simp
    define cs1 where "cs1 = cs\<lparr>m_send_head := m_send_tail cs - length rest\<rparr>"
    show ?thesis
    proof (cases e)
      case SendFailed
      then have "w' = snd (cs_disconnect env cs1 w1)"
        using assms(6) d False s1 by (auto simp: send_data_def Let_def cs1_def split: prod.splits)
      then show ?thesis using dis [OF _ _ _ p1] by simp
    next
      case SendBlocked
      then have "w' = w1"
        using assms(6) d False s1 by (auto simp: send_data_def Let_def split: option.splits)
      then show ?thesis using assms(1) p1 by simp
    next
      case SentAll
      define cs2 where "cs2 = cs1\<lparr>m_send_head := 0, m_send_tail := 0\<rparr>"
      obtain e2 rest2 w2 where s2: "send_loop (net_os.truncate env) (cs_fd cs2) d w1 = (e2, rest2, w2)" by (metis prod_cases3)
      have p2: "P w2" using loop [OF _ p1, of "cs_fd cs2" d] s2 by simp
      have fd: "cs_fd cs2 = cs_fd cs" by (simp add: cs2_def cs1_def)
      have "w' = w2 \<or> w' = snd (cs_disconnect env cs2 w2)"
        using assms(6) d False s1 SentAll s2 [unfolded fd]
        by (auto simp: send_data_def Let_def cs1_def cs2_def split: prod.splits send_end.splits option.splits)
      then show ?thesis using dis [OF _ _ _ p2] assms(1) p2 by auto
    qed
  qed
qed

section \<open>The invariant\<close>

text \<open>
  \<open>k\<close> connections were accepted so far: they got the numbers 1 to \<open>k\<close>. The invariant reads the pool,
  the map, the generator, and status and number of each connection, and nothing else of the state.
\<close>

definition users_of :: "'o net_world \<Rightarrow> nat list \<times> (tuint32 \<rightharpoonup> nat) \<times> tuint32 \<times> (nat \<Rightarrow> connection_status \<times> tuint32)" where
  "users_of W = (ns_vec (nw_net W), m_kOnlineUser (nw_net W), m_uIDGenerator (nw_net W),
     \<lambda>p. (m_nStatus (nw_store W p), m_nUID (nw_store W p)))"

definition users_ok :: "nat \<Rightarrow> nat list \<times> (tuint32 \<rightharpoonup> nat) \<times> tuint32 \<times> (nat \<Rightarrow> connection_status \<times> tuint32) \<Rightarrow> bool" where
  "users_ok k U = (case U of (vec, online, gen, st) \<Rightarrow>
     distinct vec \<and> gen = word_of_nat (k + 1) \<and> (\<forall>uid \<in> dom online. unat uid \<le> k) \<and>
     (\<forall>uid p. online uid = Some p \<longleftrightarrow> p \<in> set vec \<and> fst (st p) \<noteq> UNUSED \<and> snd (st p) = uid))"

definition online_ok :: "nat \<Rightarrow> 'o net_world \<Rightarrow> bool" where
  "online_ok k W \<longleftrightarrow> users_ok k (users_of W)"

lemma online_ok_cong: "users_of W = users_of W' \<Longrightarrow> online_ok k W = online_ok k W'"
  by (simp add: online_ok_def)

lemma users_of_net_log [simp]: "users_of (net_log W l) = users_of W"
  by (simp add: users_of_def net_log_def)

lemma users_of_updates [simp]:
  "users_of (W\<lparr>nw_mem := m\<rparr>) = users_of W" "users_of (W\<lparr>nw_os := x\<rparr>) = users_of W"
  "users_of (W\<lparr>nw_asserts := a\<rparr>) = users_of W" "users_of (W\<lparr>nw_raised := e\<rparr>) = users_of W"
  "users_of (W\<lparr>nw_store := (nw_store W)(p := (nw_store W p)\<lparr>cn_socket := cs\<rparr>)\<rparr>) = users_of W"
  by (auto simp: users_of_def)

lemma OnDisConnect_ok:
  assumes "online_ok k W" "m_kOnlineUser (nw_net W) uid = Some p"
  shows "fst (OnDisConnect env (Some p) W) = Ok ()" "online_ok k (snd (OnDisConnect env (Some p) W))"
proof -
  have u: "m_nUID (nw_store W p) = uid" using assms by (auto simp: online_ok_def users_ok_def users_of_def)
  have e: "OnDisConnect env (Some p) W = (Ok (), W\<lparr>nw_net := (nw_net W)\<lparr>m_kOnlineUser := (m_kOnlineUser (nw_net W))(uid := None)\<rparr>,
      nw_store := (nw_store W)(p := SetStatus (nw_store W p) UNUSED)\<rparr>)"
    using assms(2) by (simp add: OnDisConnect_def u)
  show "fst (OnDisConnect env (Some p) W) = Ok ()" by (simp add: e)
  have only: "\<And>uid'. m_kOnlineUser (nw_net W) uid' = Some p \<Longrightarrow> uid' = uid"
    using assms(1) u by (auto simp: online_ok_def users_ok_def users_of_def)
  have other: "\<And>q. q \<in> set (ns_vec (nw_net W)) \<Longrightarrow> m_nStatus (nw_store W q) \<noteq> UNUSED \<Longrightarrow> m_nUID (nw_store W q) = uid \<Longrightarrow> q = p"
    using assms by (simp add: online_ok_def users_ok_def users_of_def) (metis option.inject)
  show "online_ok k (snd (OnDisConnect env (Some p) W))"
    unfolding e snd_conv using assms(1) only other
    by (auto simp: online_ok_def users_ok_def users_of_def SetStatus_def)
qed

lemma users_ok_connect:
  assumes "users_ok k (vec, online, gen, st)" "k + 1 < 2 ^ 32" "p \<in> set vec" "fst (st p) = UNUSED" "s \<noteq> UNUSED"
  shows "users_ok (k + 1) (vec, map_insert online gen p, gen + 1, st(p := (s, gen)))"
proof -
  have gen: "gen = word_of_nat (k + 1)" and d: "\<And>uid q. online uid = Some q \<Longrightarrow> unat uid \<le> k" "distinct vec"
    and o1: "\<And>uid q. online uid = Some q \<longleftrightarrow> q \<in> set vec \<and> fst (st q) \<noteq> UNUSED \<and> snd (st q) = uid"
    using assms(1) unfolding users_ok_def by auto
  have "unat gen = k + 1" unfolding gen by (rule unat_of_nat_small) (use assms(2) in simp)
  then have free: "online gen = None" using d(1) [of gen] by (cases "online gen") auto
  have "unat (word_of_nat (k + 1) :: tuint32) \<le> k + 1" using \<open>unat gen = k + 1\<close> gen by simp
  then show ?thesis
    using d o1 assms(3,4,5) free \<open>unat gen = k + 1\<close> unfolding users_ok_def prod.case map_insert_def
    by (simp add: gen le_SucI) (metis (no_types, lifting) domIff le_SucI option.distinct(1) option.exhaust)
qed

lemma IPCheck_users: "IPCheck W ip = (c, W1) \<Longrightarrow> W1 = W \<or> W1 = net_log W (LogIPCheck ip)"
  by (auto simp: IPCheck_def simp del: not_le split: if_split_asm)

lemma cs_close_users:
  "\<exists>x. snd (cs_close (socket_env_of env f g) cs W) = W\<lparr>nw_os := x\<rparr>"
proof (cases "cs_fd cs = INVALID_SOCKET")
  case True
  then show ?thesis by (intro exI [of _ "nw_os W"]) (simp add: cs_close_def)
next
  case False
  then show ?thesis
    by (intro exI [of _ "snd (os_close (ne_os env) (nw_os W) (cs_fd cs))"])
      (simp add: cs_close_def closesocket_ex_def Let_def socket_env_of_def lift_os_def net_os.defs socket_env.defs case_prod_unfold)
qed

lemma get_idle_users:
  assumes "get_idle_connect (vec, st) new_Connection = (r, (vec', st'))" "distinct vec"
    and "case new_Connection of None \<Rightarrow> True | Some p \<Rightarrow> p \<notin> set vec"
  shows "(r = Ok (Some p) \<longrightarrow> p \<in> set vec' \<and> m_nStatus (st' p) = UNUSED) \<and>
    (\<forall>k online gen. users_ok k (vec, online, gen, \<lambda>q. (m_nStatus (st q), m_nUID (st q))) \<longrightarrow>
       users_ok k (vec', online, gen, \<lambda>q. (m_nStatus (st' q), m_nUID (st' q)))) \<and>
    ((\<forall>p. r \<noteq> Ok (Some p)) \<longrightarrow> vec' = vec \<and> st' = st)"
proof (cases "first_idle st vec")
  case (Some q)
  then show ?thesis using assms first_idle_Some [OF Some] by (auto simp: get_idle_connect_def)
next
  case None
  then show ?thesis
    using assms by (auto simp: get_idle_connect_def users_ok_def Connection_new_def split: if_splits option.splits)
qed

lemma OnNewConnec_ok:
  assumes ok: "online_ok k W" and k: "k + 1 < 2 ^ 32"
    and new: "case new_Connection of None \<Rightarrow> True | Some p \<Rightarrow> p \<notin> set (ns_vec (nw_net W))"
    and run: "OnNewConnec env new_Connection ip port W = (r, W')"
  shows "online_ok (if \<exists>p. r = Ok (Some p) then k + 1 else k) W'"
proof -
  obtain c W1 where c: "IPCheck W ip = (c, W1)" by fastforce
  have w1: "users_of W1 = users_of W" "ns_vec (nw_net W1) = ns_vec (nw_net W)"
    using IPCheck_users [OF c] by (auto simp: net_log_def users_of_def)
  have ok1: "online_ok k W1" using ok online_ok_cong [OF w1(1)] by blast
  obtain g vec st where g: "get_idle_connect (ns_vec (nw_net W1), nw_store W1) new_Connection = (g, (vec, st))"
    by (metis prod_cases3)
  have new1: "case new_Connection of None \<Rightarrow> True | Some p \<Rightarrow> p \<notin> set (ns_vec (nw_net W1))"
    using new unfolding w1(2) .
  have dis1: "distinct (ns_vec (nw_net W1))" using ok1 by (simp add: online_ok_def users_ok_def users_of_def)
  note idle = get_idle_users [OF g dis1 new1]
  show ?thesis
  proof (cases "c \<and> (\<exists>p. g = Ok (Some p))")
    case False
    then have "W' = W1 \<and> \<not> (\<exists>p. r = Ok (Some p))"
      using run by (auto simp: OnNewConnec_def c g split: bool.splits outcome.splits option.splits)
    then show ?thesis using ok1 by auto
  next
    case True
    then obtain p where c': "c" and p: "g = Ok (Some p)" by blast
    let ?W2 = "W1\<lparr>nw_net := (nw_net W1)\<lparr>ns_vec := vec\<rparr>, nw_store := st\<rparr>"
    obtain cs1 W3 where close: "cs_close (socket_env_of env (\<lambda>cs W. (cs, W)) (\<lambda>cs bs W. (0, cs, W))) (cn_socket (st p)) ?W2 = (cs1, W3)"
      by fastforce
    have w3: "users_of W3 = users_of ?W2"
      using cs_close_users [of env "\<lambda>cs W. (cs, W)" "\<lambda>cs bs W. (0, cs, W)" "cn_socket (st p)" ?W2] close
      by (metis snd_conv users_of_updates(2))
    have u2: "users_ok k (users_of W3)"
      using idle ok1 unfolding w3 by (simp add: online_ok_def users_of_def)
    have u2p: "p \<in> set vec" "m_nStatus (st p) = UNUSED" using idle p by blast+
    obtain vec3 on3 gen3 st3 where u3: "users_of W3 = (vec3, on3, gen3, st3)" by (metis prod_cases4)
    have p3: "p \<in> set vec3" "fst (st3 p) = UNUSED" using u2p w3 unfolding u3 by (auto simp: users_of_def)
    have r: "r = Ok (Some p)" and u': "users_of W' = (vec3, map_insert on3 gen3 p, gen3 + 1, st3(p := (CONNECTED, gen3)))"
      using run u3 by (auto simp: OnNewConnec_def c c' g p close Let_def set_buf_size_def users_of_def SetStatus_def)
    show ?thesis
      using users_ok_connect [OF u2 [unfolded u3] k p3, of CONNECTED] r by (simp add: online_ok_def u')
  qed
qed

section \<open>Packets and messages keep it\<close>

lemma SendMsgToHttp_users: "SendMsgToHttp cls msg W = Some (b, W') \<Longrightarrow> users_of W' = users_of W"
  by (auto simp: SendMsgToHttp_def Let_def users_of_def split: option.splits if_splits)

lemma users_ok_status:
  assumes "users_ok k (vec, online, gen, st)" "online uid = Some p" "s \<noteq> UNUSED"
  shows "users_ok k (vec, online, gen, st(p := (s, snd (st p))))"
  using assms by (auto simp: users_ok_def)

lemma HandleUserLogin_users:
  assumes "HandleUserLogin env p ph b W = Some W'" "users_of W = (vec, on, gen, st)"
  shows "users_of W' = users_of W \<or> users_of W' = (vec, on, gen, st(p := (VERIFYING, snd (st p))))"
proof -
  obtain ok d where d: "P_Login_Decode (pb_cg_login (ne_pb env)) (pb_new (ne_pb env)) b (ucast (m_usPacketSize ph)) = (ok, d)"
    by fastforce
  show ?thesis
  proof (cases ok)
    case False
    then show ?thesis using assms(1) d by (simp add: HandleUserLogin_def Let_def split: if_splits)
  next
    case True
    define W1 where "W1 = W\<lparr>nw_store := (nw_store W)(p := (SetStatus (nw_store W p) VERIFYING)\<lparr>m_sAccount := login_account (ne_pb env) d\<rparr>)\<rparr>"
    obtain b' where "SendMsgToHttp (M_REQ_Login (pb_nh_req (ne_pb env)))
        (make_req (ne_pb env) (m_nUID (SetStatus (nw_store W p) VERIFYING)) (login_account (ne_pb env) d) (login_validateinfo (ne_pb env) d))
        W1 = Some (b', W')"
      using assms(1) d True by (auto simp: HandleUserLogin_def Let_def W1_def split: if_splits)
    then have "users_of W' = users_of W1" by (rule SendMsgToHttp_users)
    then show ?thesis using assms(2) by (auto simp: users_of_def W1_def SetStatus_def)
  qed
qed

lemma dispatch_frame_ok:
  assumes "online_ok k W" "m_kOnlineUser (nw_net W) uid = Some p" "dispatch_frame env p f W = Some W'"
  shows "online_ok k W' \<and> m_kOnlineUser (nw_net W') uid = Some p"
proof -
  obtain vec on gen st where e: "users_of W = (vec, on, gen, st)" by (metis prod_cases4)
  have "users_of W' = users_of W \<or> users_of W' = (vec, on, gen, st(p := (VERIFYING, snd (st p))))"
    using assms(3) HandleUserLogin_users [OF _ e, of env p "fst f" "snd f" W']
    by (auto simp: dispatch_frame_def run_packet_handler_def split: if_splits option.splits packet_handler.splits)
  moreover have on: "on uid = Some p" using assms(2) e by (simp add: users_of_def)
  moreover have "users_ok k (vec, on, gen, st)" using assms(1) by (simp add: online_ok_def e)
  ultimately have "online_ok k W' \<and> fst (snd (users_of W')) = on"
    using users_ok_status [of k vec on gen st uid p VERIFYING] e by (auto simp: online_ok_def)
  then show ?thesis using on by (simp add: users_of_def)
qed

lemma dispatch_frames_ok:
  "online_ok k W \<Longrightarrow> m_kOnlineUser (nw_net W) uid = Some p \<Longrightarrow> dispatch_frames env p fs W = Some W' \<Longrightarrow> online_ok k W'"
proof (induction fs arbitrary: W)
  case Nil
  then show ?case by simp
next
  case (Cons f fs)
  then obtain W1 where "dispatch_frame env p f W = Some W1" "dispatch_frames env p fs W1 = Some W'"
    by (cases "dispatch_frame env p f W") auto
  then show ?case using dispatch_frame_ok [OF Cons.prems(1,2)] Cons.IH by blast
qed

lemma lift_os_users:
  "users_of (snd (os_send (net_os.truncate (socket_env_of env f g)) W fd d)) = users_of W"
  "users_of (snd (os_close (net_os.truncate (socket_env_of env f g)) W fd)) = users_of W"
  by (simp_all add: socket_env_of_def lift_os_def net_os.defs socket_env.defs case_prod_unfold)

lemma user_send_data_ok:
  assumes "online_ok k W" "m_kOnlineUser (nw_net W) uid = Some p" "user_send_data env p data W = Some (r, W')"
  shows "online_ok k W'"
proof -
  define P where "P = (\<lambda>V :: 'a net_world. online_ok k V \<and> m_kOnlineUser (nw_net V) uid = Some p)"
  obtain ret cs W1 where run: "send_data (connection_env env p) (cn_socket (nw_store W p)) (Some data) (W\<lparr>nw_raised := None\<rparr>)
      = Some (ret, cs, W1)"
    using assms(3) by (auto simp: user_send_data_def split: option.splits)
  have P_cong: "P V = P V'" if "users_of V = users_of V'" for V V'
    using that by (simp add: P_def online_ok_def users_of_def)
  have "online_ok k W1"
  proof (rule send_data_keeps [of P "online_ok k", OF _ _ _ _ _ run])
    show "P V \<Longrightarrow> online_ok k V" for V by (simp add: P_def)
    show "P V \<Longrightarrow> P (snd (os_send (net_os.truncate (connection_env env p)) V fd d))" for V fd d
      using P_cong [OF lift_os_users(1)] unfolding connection_env_def by blast
    show "online_ok k V \<Longrightarrow> online_ok k (snd (os_close (net_os.truncate (connection_env env p)) V fd))" for V fd
      using online_ok_cong [OF lift_os_users(2)] unfolding connection_env_def by blast
    show "P (W\<lparr>nw_raised := None\<rparr>)" using assms(1,2) online_ok_cong [of "W\<lparr>nw_raised := None\<rparr>" W] by (simp add: P_def)
    show "online_ok k (snd (on_disconnect (connection_env env p) c V))" if "P V" for V c
    proof -
      have o1: "online_ok k V" and o2: "m_kOnlineUser (nw_net V) uid = Some p" using that by (simp_all add: P_def)
      have "on_disconnect (connection_env env p) = disconnect_callback env p"
        by (simp add: connection_env_def socket_env_of_def net_os.defs socket_env.defs)
      then show ?thesis
        using OnDisConnect_ok [OF o1 o2, of env] by (auto simp: disconnect_callback_def split: prod.splits outcome.splits)
    qed
  qed
  moreover have "users_of W' = users_of W1"
    using assms(3) run by (auto simp: user_send_data_def users_of_def split: option.splits prod.splits)
  ultimately show ?thesis using online_ok_cong by blast
qed

lemma HandleUserLoginRet_ok:
  assumes "online_ok k W" "HandleUserLoginRet env mh b W = Some (r, W')"
  shows "online_ok k W'"
proof -
  let ?sz = "unat (ucast (mh_nSize mh) :: tuint16)"
  obtain ok d where d: "M_RET_Login_Decode (pb_hn_ret (ne_pb env)) (pb_new (ne_pb env)) (take ?sz b) = (ok, d)" by fastforce
  have sz: "\<not> length b < ?sz" using assms(2) by (auto simp: HandleUserLoginRet_def Let_def split: if_splits)
  show ?thesis
  proof (cases "ok \<and> GetUser W (ret_uid (ne_pb env) d) \<noteq> None")
    case False
    then have "users_of W' = users_of W"
      using assms(2) d sz by (cases ok) (auto simp: HandleUserLoginRet_def Let_def)
    then show ?thesis using assms(1) online_ok_cong by blast
  next
    case True
    then obtain p where p: "ok" "GetUser W (ret_uid (ne_pb env) d) = Some p" by blast
    then have on: "m_kOnlineUser (nw_net W) (ret_uid (ne_pb env) d) = Some p" by (simp add: GetUser_def)
    let ?en = "PacketEncoder_Encode (P_LoginRet (pb_gc_login (ne_pb env))) (PacketEncoder_new (ne_encoder_storage env))
        (make_login_ret (ne_pb env) (ret_result (ne_pb env) d))"
    obtain eo en where en: "?en = Some (eo, en)"
      using assms(2) d sz p by (cases ?en) (auto simp: HandleUserLoginRet_def Let_def)
    show ?thesis
    proof (cases eo)
      case False
      then show ?thesis using assms d sz p en by (simp add: HandleUserLoginRet_def Let_def)
    next
      case True
      let ?send = "user_send_data env p (take (unat (PacketEncoder_GetSize en)) (PacketEncoder_GetBuff en)) W"
      obtain o1 W1 where s: "?send = Some (o1, W1)"
        using assms(2) d sz p en True by (cases ?send) (auto simp: HandleUserLoginRet_def Let_def)
      have "users_of W' = users_of W1"
        using assms(2) d sz p en True s by (cases o1) (auto simp: HandleUserLoginRet_def Let_def split: prod.splits)
      then show ?thesis using user_send_data_ok [OF assms(1) on s] online_ok_cong by blast
    qed
  qed
qed

lemma http_round_ok:
  assumes "online_ok k W" "http_round env buf bufSize W = Some (r, buf', bufSize', W')"
  shows "online_ok k W'"
proof -
  let ?m = "RecvMessasgeInput (m_kMCLogin2Http (nw_net W)) (nw_mem W) bufSize"
  have ok1: "online_ok k (W\<lparr>nw_mem := m\<rparr>)" for m using assms(1) online_ok_cong [of "W\<lparr>nw_mem := m\<rparr>" W] by simp
  have log: "online_ok k (net_log (W\<lparr>nw_mem := m\<rparr>) l)" for m l
    using ok1 online_ok_cong [of "net_log (W\<lparr>nw_mem := m\<rparr>) l" "W\<lparr>nw_mem := m\<rparr>"] by simp
  have step: "online_ok k V" if "run_message_handler env h mh b (W\<lparr>nw_mem := m\<rparr>) = Some (x, V)" for h mh b m x V
    using that ok1 [of m] log HandleUserLoginRet_ok [of k "W\<lparr>nw_mem := m\<rparr>" env mh b x V]
    by (cases h) (auto simp: run_message_handler_def)
  show ?thesis
    using assms(2) ok1 log step
    by (auto simp: http_round_def Let_def split: prod.splits option.splits if_splits outcome.splits)
qed

section \<open>All reachable states\<close>

text \<open>
  The states of the service, with the number of connections accepted: connections come in, bytes
  arrive on connections in use, messages arrive, connections in use end.
\<close>

inductive net_reach :: "('d, 'o) net_env \<Rightarrow> 'o net_world \<Rightarrow> nat \<Rightarrow> 'o net_world \<Rightarrow> bool" for env W0 where
  net_start: "net_reach env W0 0 W0"
| net_connect: "net_reach env W0 k W \<Longrightarrow>
    case new_Connection of None \<Rightarrow> True | Some p \<Rightarrow> p \<notin> set (ns_vec (nw_net W)) \<Longrightarrow>
    OnNewConnec env new_Connection ip port W = (r, W') \<Longrightarrow>
    net_reach env W0 (if \<exists>p. r = Ok (Some p) then k + 1 else k) W'"
| net_packets: "net_reach env W0 k W \<Longrightarrow> GetUser W uid = Some p \<Longrightarrow> length buf < 2 ^ 31 \<Longrightarrow>
    OnRecvMessage env (Some p) buf W = Some (Some (n, W')) \<Longrightarrow> net_reach env W0 k W'"
| net_message: "net_reach env W0 k W \<Longrightarrow> http_round env buf bufSize W = Some (t, buf', bufSize', W') \<Longrightarrow>
    net_reach env W0 k W'"
| net_disconnect: "net_reach env W0 k W \<Longrightarrow> GetUser W uid = Some p \<Longrightarrow> OnDisConnect env (Some p) W = (r, W') \<Longrightarrow>
    net_reach env W0 k W'"

lemma net_reach_ok:
  assumes "net_reach env W0 k W" "online_ok 0 W0" "k + 1 < 2 ^ 32"
  shows "online_ok k W"
  using assms
proof (induction rule: net_reach.induct)
  case net_start
  then show ?case by simp
next
  case (net_connect k W new_Connection ip port r W')
  have k: "k + 1 < 2 ^ 32" using net_connect.prems(2) by (simp split: if_splits)
  show ?case by (rule OnNewConnec_ok [OF net_connect.IH [OF net_connect.prems(1) k] k net_connect.hyps(2,3)])
next
  case (net_packets k W uid p buf n W')
  have on: "m_kOnlineUser (nw_net W) uid = Some p" using net_packets.hyps(2) by (simp add: GetUser_def)
  obtain W1 where "dispatch_frames env p (frames buf) W = Some W1" "W1 = W'"
    using net_reader.recv_all_frames [OF net_packets.hyps(3), of env p W] net_packets.hyps(4) by (auto simp: OnRecvMessage_def)
  then show ?case using dispatch_frames_ok [OF net_packets.IH [OF net_packets.prems] on] by blast
next
  case (net_message k W buf bufSize t buf' bufSize' W')
  show ?case by (rule http_round_ok [OF net_message.IH [OF net_message.prems] net_message.hyps(2)])
next
  case (net_disconnect k W uid p r W')
  have on: "m_kOnlineUser (nw_net W) uid = Some p" using net_disconnect.hyps(2) by (simp add: GetUser_def)
  show ?case using OnDisConnect_ok(2) [OF net_disconnect.IH [OF net_disconnect.prems] on, of env] net_disconnect.hyps(3) by simp
qed

section \<open>Properties\<close>

text \<open>C6: in every state the service reaches with fewer than 4294967295 accepted connections, the map of
  the online users and the connections in use agree: \<open>GetUser\<close> gives a connection of the pool that is in
  use under that number, every connection in use is found under its number, and when a connection in
  use ends, the check of \<open>OnDisConnect\<close> holds.\<close>

theorem online_users_agree:
  assumes "net_reach env W0 k W" "k + 1 < 2 ^ 32"
    and "ns_vec (nw_net W0) = []" "m_kOnlineUser (nw_net W0) = (\<lambda>_. None)" "m_uIDGenerator (nw_net W0) = 1"
  shows "(\<forall>uid p. GetUser W uid = Some p \<longleftrightarrow>
      p \<in> set (ns_vec (nw_net W)) \<and> GetStatus (nw_store W p) \<noteq> UNUSED \<and> m_nUID (nw_store W p) = uid) \<and>
    (\<forall>uid p. GetUser W uid = Some p \<longrightarrow> fst (OnDisConnect env (Some p) W) = Ok ())"
proof -
  have "online_ok 0 W0" using assms(3-5) by (simp add: online_ok_def users_ok_def users_of_def)
  then have ok: "online_ok k W" by (rule net_reach_ok [OF assms(1) _ assms(2)])
  then have "(\<forall>uid p. GetUser W uid = Some p \<longleftrightarrow>
      p \<in> set (ns_vec (nw_net W)) \<and> GetStatus (nw_store W p) \<noteq> UNUSED \<and> m_nUID (nw_store W p) = uid)"
    by (simp add: online_ok_def users_ok_def users_of_def GetUser_def GetStatus_def)
  moreover have "\<forall>uid p. GetUser W uid = Some p \<longrightarrow> fst (OnDisConnect env (Some p) W) = Ok ()"
    using OnDisConnect_ok(1) [OF ok, where env = env] unfolding GetUser_def by blast
  ultimately show ?thesis ..
qed

text \<open>A state with one user, 10.0.0.1 at the address 100, after another one has come and gone.\<close>

definition demo_connect :: "demo_net net_world \<Rightarrow> nat \<Rightarrow> demo_net net_world" where
  "demo_connect W p = snd (OnNewConnec demo_net_env (Some p) 0x0A000001 5000 W)"

definition demo_start :: "demo_net net_world" where
  "demo_start = start_world no_channel (\<lambda>_. 0) ([], 0, [])"

definition demo_two_users :: "demo_net net_world" where
  "demo_two_users = demo_connect (snd (OnDisConnect demo_net_env (Some 100) (demo_connect demo_start 100))) 200"

lemmas demo_net_defs = demo_two_users_def demo_connect_def demo_start_def start_world_def start_net_def net_Init_tables_def
  no_channel_def demo_net_env_def OnNewConnec_def IPCheck_def get_idle_connect_def MAX_CLIENT_CONNECTION_def cs_close_def
  Connection_new_def ClientSocket_new_def set_buf_size_def SetStatus_def OnDisConnect_def map_insert_def conn_idle_def

lemma demo_two_users_reach: "net_reach demo_net_env demo_start 2 demo_two_users"
proof -
  let ?W1 = "demo_connect demo_start 100"
  let ?W2 = "snd (OnDisConnect demo_net_env (Some 100) ?W1)"
  have c1: "OnNewConnec demo_net_env (Some 100) 0x0A000001 5000 demo_start = (Ok (Some 100), ?W1)"
    by (simp add: demo_net_defs Let_def)
  have g: "GetUser ?W1 1 = Some 100" by (simp add: demo_net_defs GetUser_def Let_def)
  have c2: "OnNewConnec demo_net_env (Some 200) 0x0A000001 5000 ?W2 = (Ok (Some 100), demo_two_users)"
    by (simp add: demo_net_defs Let_def)
  have v: "ns_vec (nw_net demo_start) = []" "ns_vec (nw_net ?W2) = [100]" by (simp_all add: demo_net_defs Let_def)
  have "net_reach demo_net_env demo_start (if \<exists>p. (Ok (Some 100) :: nat option outcome) = Ok (Some p) then 0 + 1 else 0) ?W1"
    by (rule net_reach.net_connect [OF net_reach.net_start _ c1]) (simp add: v)
  then have "net_reach demo_net_env demo_start 1 ?W1" by simp
  then have "net_reach demo_net_env demo_start 1 ?W2"
    by (rule net_reach.net_disconnect [OF _ g]) (rule prod.collapse [symmetric])
  then have "net_reach demo_net_env demo_start (if \<exists>p. (Ok (Some 100) :: nat option outcome) = Ok (Some p) then 1 + 1 else 1) demo_two_users"
    by (rule net_reach.net_connect [OF _ _ c2]) (simp add: v)
  then show ?thesis by (simp add: numeral_2_eq_2)
qed

theorem online_users_agree_witness:
  "GetUser demo_two_users 2 = Some 100 \<and> fst (OnDisConnect demo_net_env (Some 100) demo_two_users) = Ok () \<and>
   GetStatus (nw_store demo_two_users 100) \<noteq> UNUSED \<and> GetUser demo_two_users 1 = None"
proof -
  have s: "ns_vec (nw_net demo_start) = []" "m_kOnlineUser (nw_net demo_start) = (\<lambda>_. None)" "m_uIDGenerator (nw_net demo_start) = 1"
    by (simp_all add: demo_net_defs)
  have u: "GetUser demo_two_users 2 = Some 100" "GetUser demo_two_users 1 = None"
    by (simp_all add: demo_net_defs GetUser_def Let_def)
  show ?thesis
    using online_users_agree [OF demo_two_users_reach _ s] u by auto
qed

end
