(* ===== verification/NetServiceMessages.thy ===== *)
theory NetServiceMessages
  imports NetServiceUsers
begin

text \<open>
  The network service and its channel to the http services: the messages of the channel are all
  handled or left where they are and the loop ends, and a login packet becomes a message there.
\<close>

section \<open>The loop over the messages ends\<close>

text \<open>What a message handler leaves alone: the shared memory and the channel.\<close>

definition channel_of :: "'o net_world \<Rightarrow> memory \<times> message_channel" where
  "channel_of W = (nw_mem W, m_kMCLogin2Http (nw_net W))"

lemma channel_of_updates [simp]:
  "channel_of (net_log W l) = channel_of W" "channel_of (W\<lparr>nw_raised := e\<rparr>) = channel_of W"
  "channel_of (W\<lparr>nw_os := x\<rparr>) = channel_of W" "channel_of (W\<lparr>nw_asserts := a\<rparr>) = channel_of W"
  "channel_of (W\<lparr>nw_store := st\<rparr>) = channel_of W"
  by (simp_all add: channel_of_def net_log_def)

lemma OnDisConnect_channel: "channel_of (snd (OnDisConnect env pk W)) = channel_of W"
  by (auto simp: OnDisConnect_def channel_of_def Let_def split: option.splits prod.splits outcome.splits)

lemma lift_os_channel:
  "channel_of (snd (os_send (net_os.truncate (socket_env_of env f g)) W fd d)) = channel_of W"
  "channel_of (snd (os_close (net_os.truncate (socket_env_of env f g)) W fd)) = channel_of W"
  by (simp_all add: socket_env_of_def lift_os_def net_os.defs socket_env.defs case_prod_unfold)

lemma user_send_data_channel:
  assumes "user_send_data env p data W = Some (r, W')"
  shows "channel_of W' = channel_of W"
proof -
  let ?P = "\<lambda>V. channel_of V = channel_of W"
  obtain ret cs W1 where run: "send_data (connection_env env p) (cn_socket (nw_store W p)) (Some data) (W\<lparr>nw_raised := None\<rparr>)
      = Some (ret, cs, W1)"
    using assms by (auto simp: user_send_data_def split: option.splits)
  have "?P W1"
  proof (rule send_data_keeps [of ?P ?P, OF _ _ _ _ _ run])
    show "?P V \<Longrightarrow> ?P (snd (os_send (net_os.truncate (connection_env env p)) V fd d))" for V fd d
      by (simp add: connection_env_def lift_os_channel)
    show "?P V \<Longrightarrow> ?P (snd (os_close (net_os.truncate (connection_env env p)) V fd))" for V fd
      by (simp add: connection_env_def lift_os_channel)
    have d: "on_disconnect (connection_env env p) = disconnect_callback env p"
      by (simp add: connection_env_def socket_env_of_def net_os.defs socket_env.defs)
    show "?P (snd (on_disconnect (connection_env env p) c V))" if "?P V" for V c
      using that OnDisConnect_channel [of env "Some p" V]
      by (auto simp: d disconnect_callback_def split: prod.splits outcome.splits)
  qed simp_all
  moreover have "channel_of W' = channel_of W1"
    using assms run by (auto simp: user_send_data_def channel_of_def split: option.splits prod.splits)
  ultimately show ?thesis by simp
qed

lemma HandleUserLoginRet_channel:
  assumes "HandleUserLoginRet env mh b W = Some (r, W')"
  shows "channel_of W' = channel_of W"
proof -
  let ?sz = "unat (ucast (mh_nSize mh) :: tuint16)"
  let ?en = "\<lambda>d. PacketEncoder_Encode (P_LoginRet (pb_gc_login (ne_pb env))) (PacketEncoder_new (ne_encoder_storage env))
      (make_login_ret (ne_pb env) (ret_result (ne_pb env) d))"
  obtain ok d where d: "M_RET_Login_Decode (pb_hn_ret (ne_pb env)) (pb_new (ne_pb env)) (take ?sz b) = (ok, d)" by fastforce
  have sz: "\<not> length b < ?sz" using assms by (auto simp: HandleUserLoginRet_def Let_def split: if_splits)
  consider (gone) "\<not> ok \<or> GetUser W (ret_uid (ne_pb env) d) = None"
    | (user) p where "ok" "GetUser W (ret_uid (ne_pb env) d) = Some p" by (cases "GetUser W (ret_uid (ne_pb env) d)") auto
  then show ?thesis
  proof cases
    case gone
    then show ?thesis using assms d sz by (cases ok) (auto simp: HandleUserLoginRet_def Let_def)
  next
    case user
    obtain eo en where en: "?en d = Some (eo, en)"
      using assms d sz user by (cases "?en d") (auto simp: HandleUserLoginRet_def Let_def)
    show ?thesis
    proof (cases eo)
      case False
      then show ?thesis using assms d sz user en by (simp add: HandleUserLoginRet_def Let_def)
    next
      case True
      let ?send = "user_send_data env p (take (unat (PacketEncoder_GetSize en)) (PacketEncoder_GetBuff en)) W"
      obtain o1 W1 where s: "?send = Some (o1, W1)"
        using assms d sz user en True by (cases ?send) (auto simp: HandleUserLoginRet_def Let_def)
      have "channel_of W' = channel_of W1"
        using assms d sz user en True s by (cases o1) (auto simp: HandleUserLoginRet_def Let_def split: prod.splits)
      then show ?thesis using user_send_data_channel [OF s] by simp
    qed
  qed
qed

lemma run_message_handler_channel: "run_message_handler env h mh b W = Some (r, W') \<Longrightarrow> channel_of W' = channel_of W"
  by (cases h) (auto simp: run_message_handler_def dest: HandleUserLoginRet_channel)

text \<open>A round either finds no message and leaves the memory as the queue does, or takes one out.\<close>

lemma http_round_channel:
  assumes "http_round env buf bufSize W = Some (t, buf', bufSize', W')"
    and "RecvMessasgeInput (m_kMCLogin2Http (nw_net W)) (nw_mem W) bufSize = (res, m1)"
  shows "channel_of W' = (m1, m_kMCLogin2Http (nw_net W)) \<and> (res = None \<longrightarrow> t = Ok TickEnd)"
proof (cases res)
  case None
  then show ?thesis using assms by (auto simp: http_round_def channel_of_def)
next
  case (Some a)
  obtain bytes n where a: "a = (bytes, n)" by fastforce
  let ?W1 = "W\<lparr>nw_mem := m1\<rparr>"
  have c1: "channel_of ?W1 = (m1, m_kMCLogin2Http (nw_net W))" by (simp add: channel_of_def)
  obtain buf1 where b1: "buf_write buf 0 bytes = Some buf1"
    using assms Some a by (auto simp: http_round_def split: option.splits)
  obtain ok mh where mh: "MessageHead_Decode MessageHead_new buf1 (ucast n) = Some (ok, mh)"
    using assms Some a b1 by (cases "MessageHead_Decode MessageHead_new buf1 (ucast n)") (auto simp: http_round_def Let_def)
  have "channel_of W' = channel_of ?W1"
    using assms Some a b1 mh
    by (auto simp: http_round_def Let_def dest: run_message_handler_channel split: if_splits option.splits outcome.splits)
  then show ?thesis using c1 Some by simp
qed

lemma http_loop_ends:
  assumes "channel_inv ch qs (nw_mem W) ins outs" "m_kMCLogin2Http (nw_net W) = ch"
  shows "\<exists>r. http_loop env buf bufSize W = Some r \<and>
    (\<forall>t W'. r = Some (t, W') \<longrightarrow> (\<exists>handled rest. ins = handled @ rest \<and> channel_inv ch qs (nw_mem W') rest outs))"
  using assms
proof (induction ins arbitrary: W buf bufSize)
  case Nil
  obtain res m1 where recv: "RecvMessasgeInput ch (nw_mem W) bufSize = (res, m1)" by fastforce
  have "res = None" "m1 = nw_mem W" using channel_recv_input [OF Nil(1) recv] by (auto split: option.splits)
  then have r: "http_round env buf bufSize W = Some (Ok TickEnd, buf, bufSize, W\<lparr>nw_mem := nw_mem W\<rparr>)"
    using recv Nil(2) by (simp add: http_round_def)
  have "http_loop env buf bufSize W = Some (Some (Ok (), W))"
    by (subst http_loop.simps) (simp add: r)
  then show ?case using Nil(1) by simp
next
  case (Cons x xs)
  obtain res m1 where recv: "RecvMessasgeInput ch (nw_mem W) bufSize = (res, m1)" by fastforce
  have inv1: "case res of None \<Rightarrow> channel_inv ch qs m1 (x # xs) outs | Some _ \<Rightarrow> channel_inv ch qs m1 xs outs"
    using channel_recv_input [OF Cons.prems(1) recv] Cons.prems(1) by (auto split: option.splits)
  show ?case
  proof (cases "http_round env buf bufSize W")
    case None
    then show ?thesis by (subst http_loop.simps) simp
  next
    case (Some a)
    obtain t buf' bufSize' W' where a: "a = (t, buf', bufSize', W')" by (metis prod_cases4)
    have ch': "nw_mem W' = m1" "m_kMCLogin2Http (nw_net W') = ch" "res = None \<longrightarrow> t = Ok TickEnd"
      using http_round_channel [OF Some [unfolded a]] recv Cons.prems(2) by (auto simp: channel_of_def)
    show ?thesis
    proof (cases "t = Ok TickNext")
      case False
      have "\<exists>rr. http_loop env buf bufSize W = Some (Some (rr, W'))"
        using False by (subst http_loop.simps, cases t) (auto simp: Some a)
      moreover have "\<exists>handled rest. x # xs = handled @ rest \<and> channel_inv ch qs (nw_mem W') rest outs"
      proof (cases res)
        case None
        then show ?thesis using inv1 ch'(1) by (intro exI [of _ "[]"] exI [of _ "x # xs"]) simp
      next
        case (Some y)
        then show ?thesis using inv1 ch'(1) by (intro exI [of _ "[x]"] exI [of _ xs]) simp
      qed
      ultimately show ?thesis by auto
    next
      case True
      then have "res \<noteq> None" using ch'(3) by auto
      then have i: "channel_inv ch qs (nw_mem W') xs outs" using inv1 ch'(1) by auto
      obtain r where r: "http_loop env buf' bufSize' W' = Some r"
          "\<forall>t W''. r = Some (t, W'') \<longrightarrow> (\<exists>handled rest. xs = handled @ rest \<and> channel_inv ch qs (nw_mem W'') rest outs)"
        using Cons.IH [OF i ch'(2), of buf' bufSize'] by blast
      have "http_loop env buf bufSize W = Some r"
        by (subst http_loop.simps) (simp add: Some a True r(1))
      moreover have "\<exists>handled rest. x # xs = handled @ rest \<and> channel_inv ch qs (nw_mem W'') rest outs"
        if "r = Some (t2, W'')" for t2 W''
        using r(2) that by (metis append_Cons)
      ultimately show ?thesis by blast
    qed
  qed
qed

section \<open>A login packet becomes a message\<close>

lemma mq_append_len: "mq_inv q m ms \<Longrightarrow> msgs_bytes ms + 8 + length x + 16 \<le> h_queue_size q m \<Longrightarrow> fst (mq_append q m x)"
  using mq_append_ok by blast

text \<open>The bytes that go into a channel when a login message is encoded.\<close>

lemma encoded_message:
  assumes "encodes_within cls d" "length (m_szMsgBuf en) = MESSAGE_BUF_SIZE"
    and enc: "msg_Encode cls d 65511 = (True, body, n')"
  shows "\<exists>en' mh1 x. MessageEncoder_Encode cls en (Some d) mh = Some (True, en', mh1) \<and>
    mh1 = mh\<lparr>mh_usMessageID := GetMessageID cls d, mh_nSize := ucast n'\<rparr> \<and>
    x = take (unat (MessageEncoder_GetSize en')) (MessageEncoder_GetBuff en') \<and>
    length x = 24 + length body \<and> length body \<le> 65511 \<and> drop 24 x = body \<and> unat n' = length body \<and>
    MessageHead_Decode MessageHead_new x (word_of_nat (length x)) = Some (True, mh1)"
proof -
  have cap: "word_of_nat (MESSAGE_BUF_SIZE - sizeof_MessageHead) = (65511 :: tuint16)"
    by (simp add: MESSAGE_BUF_SIZE_def sizeof_MessageHead_def)
  define mh1 where "mh1 = mh\<lparr>mh_usMessageID := GetMessageID cls d, mh_nSize := ucast n'\<rparr>"
  obtain en' where en: "MessageEncoder_Encode cls en (Some d) mh = Some (True, en', mh1)"
      "length (m_szMsgBuf en') = MESSAGE_BUF_SIZE" "unat (m_usMsgSize en') = sizeof_MessageHead + length body"
      "take (length body) (drop sizeof_MessageHead (m_szMsgBuf en')) = body"
      "Some (take 14 (m_szMsgBuf en')) = MessageHead_Encode mh1 24"
    using encoder_ok [OF assms(1,2) enc [folded cap] mh1_def] by blast
  have "length body \<le> unat (65511 :: tuint16) \<and> (True \<longrightarrow> unat n' = length body)"
    using assms(1) enc unfolding encodes_within_def by blast
  then have lb: "length body \<le> 65511" "unat n' = length body" by simp_all
  define x where "x = take (unat (MessageEncoder_GetSize en')) (MessageEncoder_GetBuff en')"
  have x: "x = take (24 + length body) (m_szMsgBuf en')"
    by (simp add: x_def MessageEncoder_GetSize_def MessageEncoder_GetBuff_def en(3) sizeof_MessageHead_def)
  have lx: "length x = 24 + length body" using en(2) lb by (simp add: x MESSAGE_BUF_SIZE_def)
  have dx: "drop 24 x = body" using en(4) by (simp add: x drop_take sizeof_MessageHead_def)
  have tx: "take 14 x = take 14 (m_szMsgBuf en')" by (simp add: x min_def)
  have s6: "6 \<le> sint (word_of_nat (length x) :: tint32)" using lx lb sint_small [of "length x"] by simp
  have dec: "MessageHead_Decode MessageHead_new x (word_of_nat (length x)) = Some (True, mh1)"
    by (rule head_decode_bytes [OF en(5) [symmetric] tx s6])
  show ?thesis using en(1) mh1_def x_def lx lb dx dec by blast
qed

lemma login_encodes:
  assumes "protobuf_writes pb d" "sint (ByteSize pb d) \<le> 65511"
  obtains body n' where "msg_Encode (M_REQ_Login pb) d 65511 = (True, body, n')"
    "msg_Encode (M_RET_Login pb) d 65511 = (True, body, n')" "body = snd (SerializePartialToArray pb d 65511)"
    "int (length body) = sint (ByteSize pb d)" "uint n' = sint (ByteSize pb d)"
proof -
  define body where "body = snd (SerializePartialToArray pb d 65511)"
  have w: "0 \<le> sint (ByteSize pb d)" "SerializePartialToArray pb d 65511 = (True, body)" "int (length body) = sint (ByteSize pb d)"
    using assms unfolding protobuf_writes_def body_def by (auto dest!: spec [of _ "65511 :: tint32"] simp: prod_eq_iff)
  have "uint (ucast (ByteSize pb d) :: tuint16) = sint (ByteSize pb d)"
    by (rule uint_ucast_down16) (use w assms(2) in simp_all)
  moreover have "msg_Encode (M_REQ_Login pb) d 65511 = (True, body, ucast (ByteSize pb d))"
      "msg_Encode (M_RET_Login pb) d 65511 = (True, body, ucast (ByteSize pb d))"
    using w(2) by (simp_all add: M_REQ_Login_def M_REQ_Login_Encode_def M_RET_Login_def M_RET_Login_Encode_def)
  ultimately show ?thesis using that [of body "ucast (ByteSize pb d)"] w(3) body_def by blast
qed

lemma SendMsgToHttp_sends:
  assumes "channel_inv (m_kMCLogin2Http (nw_net W)) qs (nw_mem W) ins outs"
    and "length (m_szMsgBuf (ns_msg_encoder (nw_net W))) = MESSAGE_BUF_SIZE" "protobuf_writes pb d"
    and "sint (ByteSize pb d) \<le> 65511"
    and room: "msgs_bytes outs + 8 + (24 + nat (sint (ByteSize pb d))) + 16 \<le> h_queue_size (m_kMsgOutput (m_kMCLogin2Http (nw_net W))) (nw_mem W)"
  shows "\<exists>W' x mh. SendMsgToHttp (M_REQ_Login pb) d W = Some (True, W') \<and> nw_store W' = nw_store W \<and>
    channel_inv (m_kMCLogin2Http (nw_net W)) qs (nw_mem W') ins (outs @ [x]) \<and>
    MessageHead_Decode MessageHead_new x (word_of_nat (length x)) = Some (True, mh) \<and>
    mh_usMessageID mh = MSG_NH_REQ_LOGIN \<and> m_nSrcServiceType mh = ServiceType_LOGIN \<and>
    m_nDstServiceType mh = ServiceType_HTTP \<and> 0 \<le> sint (mh_nSize mh) \<and> int (length x) = 24 + sint (mh_nSize mh) \<and>
    drop 24 x = snd (SerializePartialToArray pb d 65511)"
proof -
  let ?ns = "nw_net W"
  let ?ch = "m_kMCLogin2Http ?ns"
  let ?mh = "(ns_msg_head ?ns)\<lparr>m_nSrcServiceType := ServiceType_LOGIN, m_nScrServiceID := ucast (ns_service_id ?ns),
      m_nDstServiceType := ServiceType_HTTP, m_nDstServiceID := - 1\<rparr>"
  obtain body n' where b: "msg_Encode (M_REQ_Login pb) d 65511 = (True, body, n')" "body = snd (SerializePartialToArray pb d 65511)"
      "int (length body) = sint (ByteSize pb d)" "uint n' = sint (ByteSize pb d)"
    using login_encodes [OF assms(3,4)] by blast
  obtain en' mh1 x where en: "MessageEncoder_Encode (M_REQ_Login pb) (ns_msg_encoder ?ns) (Some d) ?mh = Some (True, en', mh1)"
      "mh1 = ?mh\<lparr>mh_usMessageID := GetMessageID (M_REQ_Login pb) d, mh_nSize := ucast n'\<rparr>"
      "x = take (unat (MessageEncoder_GetSize en')) (MessageEncoder_GetBuff en')" "length x = 24 + length body"
      "length body \<le> 65511" "drop 24 x = body" "MessageHead_Decode MessageHead_new x (word_of_nat (length x)) = Some (True, mh1)"
    using encoded_message [OF login_within(1) [OF assms(3)] assms(2) b(1)] by blast
  let ?m' = "snd (SendMessageOutput ?ch (nw_mem W) x)"
  have q: "mq_inv (m_kMsgOutput ?ch) (nw_mem W) outs" using assms(1) by (simp add: channel_inv_def)
  have "length x = 24 + nat (sint (ByteSize pb d))" using en(4) b(3) by simp
  then have "fst (SendMessageOutput ?ch (nw_mem W) x)"
    unfolding SendMessageOutput_def by (intro mq_append_len [OF q]) (use room in simp)
  then have inv': "channel_inv ?ch qs ?m' ins (outs @ [x])"
    using channel_send_output [OF assms(1), of x] en(4,5) by simp
  have sz: "sint (mh_nSize mh1) = int (length body)" using b(3,4) by (simp add: en(2) sint_ucast_up16)
  have "SendMsgToHttp (M_REQ_Login pb) d W = Some (True, W\<lparr>nw_net := ?ns\<lparr>ns_msg_head := mh1, ns_msg_encoder := en'\<rparr>, nw_mem := ?m'\<rparr>)"
    using en(1,3) by (simp add: SendMsgToHttp_def Let_def)
  then show ?thesis
    using inv' en(7) sz en(4) en(6) b(2)
    by (intro exI [of _ "W\<lparr>nw_net := ?ns\<lparr>ns_msg_head := mh1, ns_msg_encoder := en'\<rparr>, nw_mem := ?m'\<rparr>"] exI [of _ x] exI [of _ mh1])
      (simp add: en(2) M_REQ_Login_def)
qed

section \<open>Properties\<close>

text \<open>\<open>TickHttpMsg\<close> always returns when the channel's memory is in order, whatever the messages are and
  whatever their handlers send: it takes messages from the front of the input queue, in order, leaves
  the others there, and does not touch the output queue.\<close>

theorem tick_http_returns:
  assumes "channel_inv (m_kMCLogin2Http (nw_net W)) qs (nw_mem W) ins outs"
  shows "\<exists>r. TickHttpMsg env W = Some r \<and>
    (\<forall>t W'. r = Some (t, W') \<longrightarrow> (\<exists>handled rest. ins = handled @ rest \<and>
       channel_inv (m_kMCLogin2Http (nw_net W)) qs (nw_mem W') rest outs))"
  unfolding TickHttpMsg_def by (rule http_loop_ends [OF assms refl])

theorem tick_http_returns_witness:
  "\<exists>ch m r. channel_inv ch 40 m [[1, 2, 3]] [] \<and> TickHttpMsg demo_net_env (start_world ch m ([], 0, [])) = Some r"
proof -
  obtain ch m where c: "channel_inv ch 40 m [] []" using demo_channel_inv by blast
  have i: "mq_inv (m_kMsgInput ch) m []" "h_queue_size (m_kMsgInput ch) m = 40" using c by (simp_all add: channel_inv_def)
  obtain m1 where s1: "SendMessageInput ch m [1, 2, 3] = (True, m1)"
    using mq_append_ok [OF i(1), of "[1, 2, 3]"] i(2) by (cases "mq_append (m_kMsgInput ch) m [1, 2, 3]") (simp add: SendMessageInput_def)
  have c1: "channel_inv ch 40 m1 [[1, 2, 3]] []" using channel_send_input [OF c, of "[1, 2, 3]"] s1 by simp
  let ?W = "start_world ch m1 ([], 0 :: nat, [] :: tbyte list) :: demo_net net_world"
  have "channel_inv (m_kMCLogin2Http (nw_net ?W)) 40 (nw_mem ?W) [[1, 2, 3]] []"
    using c1 by (simp add: start_world_def start_net_def net_Init_tables_def)
  then obtain r where "TickHttpMsg demo_net_env ?W = Some r" using tick_http_returns by blast
  then show ?thesis using c1 by blast
qed

text \<open>a login packet whose body can be parsed sets its connection to \<open>VERIFYING\<close> with the account of
  the packet and puts exactly one message into the output of the channel, from the login service to
  the http service, with the id \<open>MSG_NH_REQ_LOGIN\<close>, whose body is the serialised request for that
  connection's number, account and validation; there is room for it and it fits the encoder.\<close>

theorem login_packet_forwarded:
  assumes "channel_inv (m_kMCLogin2Http (nw_net W)) qs (nw_mem W) ins outs"
    and "length (m_szMsgBuf (ns_msg_encoder (nw_net W))) = MESSAGE_BUF_SIZE" "protobuf_writes (pb_nh_req (ne_pb env)) req"
    and "unat (m_usPacketSize ph) \<le> length pBuff"
    and "P_Login_Decode (pb_cg_login (ne_pb env)) (pb_new (ne_pb env)) pBuff (ucast (m_usPacketSize ph)) = (True, d)"
    and "req = make_req (ne_pb env) (m_nUID (nw_store W p)) (login_account (ne_pb env) d) (login_validateinfo (ne_pb env) d)"
    and "sint (ByteSize (pb_nh_req (ne_pb env)) req) \<le> 65511"
    and "msgs_bytes outs + 8 + (24 + nat (sint (ByteSize (pb_nh_req (ne_pb env)) req))) + 16
      \<le> h_queue_size (m_kMsgOutput (m_kMCLogin2Http (nw_net W))) (nw_mem W)"
  shows "\<exists>W' x mh. run_packet_handler env HandlePacketUserLogin p ph pBuff W = Some W' \<and>
    GetStatus (nw_store W' p) = VERIFYING \<and> m_sAccount (nw_store W' p) = login_account (ne_pb env) d \<and>
    channel_inv (m_kMCLogin2Http (nw_net W)) qs (nw_mem W') ins (outs @ [x]) \<and>
    MessageHead_Decode MessageHead_new x (word_of_nat (length x)) = Some (True, mh) \<and>
    mh_usMessageID mh = MSG_NH_REQ_LOGIN \<and> m_nSrcServiceType mh = ServiceType_LOGIN \<and>
    m_nDstServiceType mh = ServiceType_HTTP \<and> 0 \<le> sint (mh_nSize mh) \<and> int (length x) = 24 + sint (mh_nSize mh) \<and>
    drop 24 x = snd (SerializePartialToArray (pb_nh_req (ne_pb env)) req 65511)"
proof -
  define c where "c = (SetStatus (nw_store W p) VERIFYING)\<lparr>m_sAccount := login_account (ne_pb env) d\<rparr>"
  define W1 where "W1 = W\<lparr>nw_store := (nw_store W)(p := c)\<rparr>"
  have r: "req = make_req (ne_pb env) (m_nUID c) (login_account (ne_pb env) d) (login_validateinfo (ne_pb env) d)"
    unfolding assms(6) c_def SetStatus_def by simp
  have "\<exists>W' x mh. SendMsgToHttp (M_REQ_Login (pb_nh_req (ne_pb env))) req W1 = Some (True, W') \<and> nw_store W' = nw_store W1 \<and>
    channel_inv (m_kMCLogin2Http (nw_net W1)) qs (nw_mem W') ins (outs @ [x]) \<and>
    MessageHead_Decode MessageHead_new x (word_of_nat (length x)) = Some (True, mh) \<and>
    mh_usMessageID mh = MSG_NH_REQ_LOGIN \<and> m_nSrcServiceType mh = ServiceType_LOGIN \<and>
    m_nDstServiceType mh = ServiceType_HTTP \<and> 0 \<le> sint (mh_nSize mh) \<and> int (length x) = 24 + sint (mh_nSize mh) \<and>
    drop 24 x = snd (SerializePartialToArray (pb_nh_req (ne_pb env)) req 65511)"
    by (rule SendMsgToHttp_sends) (use assms in \<open>simp_all add: W1_def\<close>)
  then obtain W' x mh where s: "SendMsgToHttp (M_REQ_Login (pb_nh_req (ne_pb env))) req W1 = Some (True, W')"
      "nw_store W' = nw_store W1" "channel_inv (m_kMCLogin2Http (nw_net W1)) qs (nw_mem W') ins (outs @ [x])"
      "MessageHead_Decode MessageHead_new x (word_of_nat (length x)) = Some (True, mh)"
      "mh_usMessageID mh = MSG_NH_REQ_LOGIN" "m_nSrcServiceType mh = ServiceType_LOGIN"
      "m_nDstServiceType mh = ServiceType_HTTP" "0 \<le> sint (mh_nSize mh)" "int (length x) = 24 + sint (mh_nSize mh)"
      "drop 24 x = snd (SerializePartialToArray (pb_nh_req (ne_pb env)) req 65511)" by blast
  have "run_packet_handler env HandlePacketUserLogin p ph pBuff W = Some W'"
    using assms(4,5) s(1) [unfolded W1_def c_def SetStatus_def assms(6)]
    by (simp add: run_packet_handler_def HandleUserLogin_def Let_def SetStatus_def)
  moreover have "GetStatus (nw_store W' p) = VERIFYING" "m_sAccount (nw_store W' p) = login_account (ne_pb env) d"
    unfolding s(2) by (simp_all add: W1_def c_def GetStatus_def SetStatus_def)
  moreover have "m_kMCLogin2Http (nw_net W1) = m_kMCLogin2Http (nw_net W)" by (simp add: W1_def)
  ultimately show ?thesis using s by metis
qed

text \<open>A channel of two queues of 200 bytes, and a login packet of account 7 and validation 8, 9.\<close>

lemma demo_channel_200:
  "\<exists>ch m. channel_inv ch 216 m [] [] \<and> h_queue_size (m_kMsgOutput ch) m = 216"
proof -
  have sz: "size_of_tint32 200 = 200" "alloc_size 200 = 248" by (simp_all add: size_of_tint32_def alloc_size_def sz_simps)
  have att: "attach_share_memory demo_os () (m_kShareMemory no_channel) 7
      (sz_add (alloc_size (size_of_tint32 200)) (alloc_size (size_of_tint32 200))) =
    (True, \<lparr>m_uiKey = 7, m_uiSize = 544, m_uiOffset = 48, m_hShareMemHandle = 5, m_pMemBase = 65536, m_enmMode = ESM_INIT\<rparr>, ())"
    using demo_attach [of 496] by (simp add: sz sz_simps no_channel_def)
  have "get_mode \<lparr>m_uiKey = 7, m_uiSize = 544, m_uiOffset = 48, m_hShareMemHandle = 5, m_pMemBase = 65536, m_enmMode = ESM_INIT\<rparr> = ESM_INIT"
    by (simp add: get_mode_def)
  from InitMessageQueue_fresh [OF att this, of "\<lambda>_. 0"]
  obtain ch m where c: "channel_inv ch (size_of_tint32 200 + 16) m [] []" "mq_size (m_kMsgOutput ch) m = size_of_tint32 200"
    by auto
  have o1: "mq_inv (m_kMsgOutput ch) m []" using c(1) by (simp add: channel_inv_def)
  then have "h_queue_size (m_kMsgOutput ch) m < size_max" "16 \<le> h_queue_size (m_kMsgOutput ch) m" by (auto simp: mq_inv_def)
  then have "mq_size (m_kMsgOutput ch) m = h_queue_size (m_kMsgOutput ch) m - 16"
    by (simp add: mq_size_def message_queue_reverse_length_def sz_simps)
  then have "h_queue_size (m_kMsgOutput ch) m = 216" using c(2) sz \<open>16 \<le> h_queue_size (m_kMsgOutput ch) m\<close> by simp
  then show ?thesis using c(1) sz by auto
qed

theorem login_packet_forwarded_witness:
  "\<exists>ch m W' x. run_packet_handler demo_net_env HandlePacketUserLogin 100 \<lparr>m_usPacketSize = 3, m_nPacketID = 1\<rparr> [7, 8, 9]
      (start_world ch m ([], 0, [])) = Some W' \<and>
    m_sAccount (nw_store W' 100) = [7] \<and> channel_inv ch 216 (nw_mem W') [] [x] \<and> drop 24 x = [0, 0, 0, 0, 7, 8, 9]"
proof -
  obtain ch m where c: "channel_inv ch 216 m [] []" "h_queue_size (m_kMsgOutput ch) m = 216" using demo_channel_200 by blast
  let ?W = "start_world ch m ([], 0, []) :: demo_net net_world"
  let ?ph = "\<lparr>m_usPacketSize = 3, m_nPacketID = 1\<rparr>"
  have d: "P_Login_Decode (pb_cg_login (ne_pb demo_net_env)) (pb_new (ne_pb demo_net_env)) [7, 8, 9] (ucast (m_usPacketSize ?ph)) = (True, [7, 8, 9])"
    by (simp add: P_Login_Decode_def demo_net_env_def demo_pb_def demo_protobuf_def)
  have z: "bytes32 0 = [0, 0, 0, 0]" by code_simp
  have r: "make_req (ne_pb demo_net_env) (m_nUID (nw_store ?W 100)) (login_account (ne_pb demo_net_env) [7, 8, 9])
      (login_validateinfo (ne_pb demo_net_env) [7, 8, 9]) = [0, 0, 0, 0, 7, 8, 9]"
    by (simp add: demo_net_env_def demo_pb_def start_world_def Connection_new_def z)
  have b: "sint (ByteSize (pb_nh_req (ne_pb demo_net_env)) [0, 0, 0, 0, 7, 8, 9]) = 7"
    "snd (SerializePartialToArray (pb_nh_req (ne_pb demo_net_env)) [0, 0, 0, 0, 7, 8, 9] 65511) = [0, 0, 0, 0, 7, 8, 9]"
    by (simp_all add: demo_net_env_def demo_pb_def demo_protobuf_def)
  have k: "m_kMCLogin2Http (nw_net ?W) = ch" "nw_mem ?W = m"
    "length (m_szMsgBuf (ns_msg_encoder (nw_net ?W))) = MESSAGE_BUF_SIZE"
    by (simp_all add: start_world_def start_net_def net_Init_tables_def MessageEncoder_new_def MessageEncoder_Clear_def MESSAGE_BUF_SIZE_def)
  have w: "protobuf_writes (pb_nh_req (ne_pb demo_net_env)) [0, 0, 0, 0, 7, 8, 9]"
    using demo_protobuf_writes by (simp add: demo_net_env_def demo_pb_def)
  have room: "msgs_bytes [] + 8 + (24 + nat (sint (ByteSize (pb_nh_req (ne_pb demo_net_env)) [0, 0, 0, 0, 7, 8, 9]))) + 16
      \<le> h_queue_size (m_kMsgOutput (m_kMCLogin2Http (nw_net ?W))) (nw_mem ?W)"
    unfolding k b c(2) by simp
  have inv: "channel_inv (m_kMCLogin2Http (nw_net ?W)) 216 (nw_mem ?W) [] []" unfolding k by (rule c(1))
  have sz: "unat (m_usPacketSize ?ph) \<le> length [7, 8, 9 :: tbyte]" by simp
  have small: "sint (ByteSize (pb_nh_req (ne_pb demo_net_env)) [0, 0, 0, 0, 7, 8, 9]) \<le> 65511" unfolding b by simp
  obtain W' x where "run_packet_handler demo_net_env HandlePacketUserLogin 100 ?ph [7, 8, 9] ?W = Some W'"
      "m_sAccount (nw_store W' 100) = login_account (ne_pb demo_net_env) [7, 8, 9]"
      "channel_inv ch 216 (nw_mem W') [] ([] @ [x])" "drop 24 x = [0, 0, 0, 0, 7, 8, 9]"
    using login_packet_forwarded [OF inv k(3) w sz d r [symmetric] small room] unfolding k b by blast
  then show ?thesis by (auto simp: demo_net_env_def demo_pb_def)
qed

end
