(* ===== verification/MessageLoop.thy ===== *)
theory MessageLoop
  imports NetService
begin

text \<open>
  The loop that the services' ticks share: take messages out of a channel into one buffer of 2048 bytes
  and hand each to its handler. The size of the buffer is passed in and out and never set back, so the
  loop takes messages only as long as each is no longer than the one before. \<open>message_loop\<close> is the
  contract of a round, and what the loop does follows from it for every service.
\<close>

section \<open>Messages and their buffer\<close>

text \<open>A message as \<open>MessageEncoder\<close> makes them: the head's size is that of the body.\<close>

definition whole_message :: "tbyte list \<Rightarrow> bool" where
  "whole_message x \<longleftrightarrow> 24 \<le> length x \<and> length x \<le> 2048 \<and>
     (\<exists>ok mh. MessageHead_Decode MessageHead_new x (word_of_nat (length x)) = Some (ok, mh) \<and>
        mh_nSize mh = word_of_nat (length x - 24))"

text \<open>The messages that one loop takes, with room for so many bytes in the first round.\<close>

fun taken :: "nat \<Rightarrow> tbyte list list \<Rightarrow> tbyte list list" where
  "taken cap [] = []"
| "taken cap (x # xs) = (if length x \<le> cap then x # taken (length x) xs else [])"

lemma taken_prefix: "\<exists>rest. msgs = taken cap msgs @ rest"
  by (induction cap msgs rule: taken.induct) auto

lemma set_taken: "set (taken cap msgs) \<subseteq> set msgs"
proof -
  obtain rest where "msgs = taken cap msgs @ rest" using taken_prefix by blast
  then have "set msgs = set (taken cap msgs) \<union> set rest" by (metis set_append)
  thus ?thesis by blast
qed

lemma taken_all: "sorted_wrt (\<lambda>a b. length b \<le> length a) msgs \<Longrightarrow> msgs \<noteq> [] \<longrightarrow> length (hd msgs) \<le> cap \<Longrightarrow> taken cap msgs = msgs"
proof (induction cap msgs rule: taken.induct)
  case (2 cap x xs)
  have "xs \<noteq> [] \<longrightarrow> length (hd xs) \<le> length x" using 2(2) by (cases xs) auto
  then show ?case using 2 by simp
qed simp

lemma decode_prefix: "14 \<le> length x \<Longrightarrow> MessageHead_Decode mh (x @ r) n = MessageHead_Decode mh x n"
  by (simp add: MessageHead_Decode_def word32_at_def word16_at_def)

text \<open>What a round sees of such a message in its buffer.\<close>

lemma whole_received:
  assumes "whole_message x" "length buf = 2048"
  obtains ok mh buf1 where "buf_write buf 0 x = Some buf1" "buf1 = x @ drop (length x) buf" "length buf1 = 2048"
    "MessageHead_Decode MessageHead_new buf1 (ucast (word_of_nat (length x) :: tuint16)) = Some (ok, mh)"
    "MessageHead_Decode MessageHead_new x (word_of_nat (length x)) = Some (ok, mh)"
    "mh_nSize mh = ucast (word_of_nat (length x) :: tuint16) - word_of_nat sizeof_MessageHead"
    "mh_nSize mh = word_of_nat (length x - 24)" "unat (word_of_nat (length x) :: tuint16) = length x"
proof -
  have l: "24 \<le> length x" "length x \<le> 2048" using assms(1) by (simp_all add: whole_message_def)
  obtain ok mh where mh: "MessageHead_Decode MessageHead_new x (word_of_nat (length x)) = Some (ok, mh)"
      "mh_nSize mh = word_of_nat (length x - 24)" using assms(1) by (auto simp: whole_message_def)
  let ?buf1 = "x @ drop (length x) buf"
  have b: "buf_write buf 0 x = Some ?buf1" using l assms(2) by (simp add: buf_write_def)
  have n: "unat (word_of_nat (length x) :: tuint16) = length x" by (rule unat_of_nat_small) (use l in simp)
  then have u: "ucast (word_of_nat (length x) :: tuint16) = (word_of_nat (length x) :: tint32)"
    using unat_of_nat_small [of "length x", where 'a = 32] l
    by (intro word_unat_eq_iff [THEN iffD2]) (simp add: unat_ucast_up16 n)
  have sz: "word_of_nat (length x) - word_of_nat sizeof_MessageHead = (word_of_nat (length x - 24) :: tint32)"
    using l by (simp add: sizeof_MessageHead_def of_nat_diff)
  have "MessageHead_Decode MessageHead_new ?buf1 (ucast (word_of_nat (length x) :: tuint16)) = Some (ok, mh)"
    unfolding u using decode_prefix [of x] l mh(1) by simp
  then show ?thesis using that [of ?buf1 ok mh] b l assms(2) mh sz u n by simp
qed

lemma recv_output_first:
  assumes "channel_inv ch qs m ins (x # xs)" "x \<noteq> []" "length x \<le> unat cap"
  shows "\<exists>m1. RecvMessageOutput ch m cap = (Some (x, word_of_nat (length x)), m1) \<and> channel_inv ch qs m1 ins xs"
proof -
  have q: "mq_inv (m_kMsgOutput ch) m (x # xs)" using assms(1) by (simp add: channel_inv_def)
  have "deliverable (x # xs)" using assms(2) by simp
  then obtain m1 where p: "mq_pop (m_kMsgOutput ch) m (unat cap) = (Some x, m1)"
    using mq_pop_ok [OF q _ assms(3)] by (cases "mq_pop (m_kMsgOutput ch) m (unat cap)") auto
  then have r: "RecvMessageOutput ch m cap = (Some (x, word_of_nat (length x)), m1)" by (simp add: RecvMessageOutput_def)
  then show ?thesis using channel_recv_output [OF assms(1) r] by auto
qed

lemma recv_output_refused:
  assumes "channel_inv ch qs m ins msgs" "msgs = [] \<or> unat cap < length (hd msgs)"
  shows "RecvMessageOutput ch m cap = (None, m)"
proof -
  have "mq_inv (m_kMsgOutput ch) m msgs" using assms(1) by (simp add: channel_inv_def)
  moreover have "\<not> deliverable msgs \<or> unat cap < length (hd msgs)" using assms(2) by auto
  ultimately have "mq_pop (m_kMsgOutput ch) m (unat cap) = (None, m)" by (rule mq_pop_refused)
  thus ?thesis by (simp add: RecvMessageOutput_def)
qed

text \<open>An example: a head of zeros and no body.\<close>

definition zero_request :: "tbyte list" where "zero_request = replicate 24 0"

definition zero_head :: message_head where
  "zero_head = \<lparr>mh_nSize = 0, mh_usMessageID = 0, m_nSrcServiceType = 0, m_nScrServiceID = 0, m_nDstServiceType = 0, m_nDstServiceID = 0\<rparr>"

lemma zero_request_decode: "MessageHead_Decode MessageHead_new zero_request (word_of_nat (length zero_request)) = Some (True, zero_head)"
  unfolding zero_request_def zero_head_def by code_simp

lemma zero_request_whole: "whole_message zero_request"
  using zero_request_decode by (auto simp: whole_message_def zero_request_def zero_head_def)

section \<open>The contract\<close>

text \<open>
  \<open>waiting\<close> are the messages in the channel, \<open>view\<close> is what the handlers work on, and \<open>result\<close> what the
  loop gives back of its last round.
\<close>

locale message_loop =
  fixes round :: "tbyte list \<Rightarrow> tuint16 \<Rightarrow> 's \<Rightarrow> (tick_round \<times> tbyte list \<times> tuint16 \<times> 's) option"
    and loop :: "tbyte list \<Rightarrow> tuint16 \<Rightarrow> 's \<Rightarrow> 'r option option"
    and result :: "tick_round \<times> tbyte list \<times> tuint16 \<times> 's \<Rightarrow> 'r"
    and waiting :: "'s \<Rightarrow> tbyte list list \<Rightarrow> bool"
    and view :: "'s \<Rightarrow> 'v"
    and handle :: "tbyte list \<Rightarrow> 'v \<Rightarrow> 'v"
  assumes loop_rounds: "loop buf n s = (case round buf n s of None \<Rightarrow> Some None | Some r \<Rightarrow>
      if fst r = TickNext then loop (fst (snd r)) (fst (snd (snd r))) (snd (snd (snd r))) else Some (Some (result r)))"
    and round_takes: "waiting s (x # xs) \<Longrightarrow> whole_message x \<Longrightarrow> length x \<le> unat n \<Longrightarrow> length buf = 2048 \<Longrightarrow>
      \<exists>buf1 s1. round buf n s = Some (TickNext, buf1, word_of_nat (length x), s1) \<and> length buf1 = 2048 \<and> waiting s1 xs
        \<and> view s1 = handle x (view s)"
    and round_stops: "waiting s msgs \<Longrightarrow> msgs = [] \<or> unat n < length (hd msgs) \<Longrightarrow> round buf n s = Some (TickEnd, buf, n, s)"
begin

lemma loop_takes:
  assumes "waiting s msgs" "list_all whole_message msgs" "length buf = 2048"
  shows "\<exists>buf' n' s'. loop buf n s = Some (Some (result (TickEnd, buf', n', s')))
    \<and> waiting s' (drop (length (taken (unat n) msgs)) msgs) \<and> view s' = fold handle (taken (unat n) msgs) (view s)"
  using assms
proof (induction msgs arbitrary: buf n s)
  case Nil
  have "loop buf n s = Some (Some (result (TickEnd, buf, n, s)))"
    by (subst loop_rounds) (simp add: round_stops [OF Nil(1)])
  then show ?case using Nil(1) by auto
next
  case (Cons x xs)
  show ?case
  proof (cases "length x \<le> unat n")
    case False
    have "loop buf n s = Some (Some (result (TickEnd, buf, n, s)))"
      by (subst loop_rounds) (use False in \<open>simp add: round_stops [OF Cons.prems(1)]\<close>)
    then show ?thesis using Cons.prems(1) False by auto
  next
    case True
    then obtain buf1 s1 where r: "round buf n s = Some (TickNext, buf1, word_of_nat (length x), s1)" "length buf1 = 2048"
        "waiting s1 xs" "view s1 = handle x (view s)"
      using round_takes [OF Cons.prems(1) _ True Cons.prems(3)] Cons.prems(2) by auto
    have u: "unat (word_of_nat (length x) :: tuint16) = length x"
      by (rule unat_of_nat_small) (use Cons.prems(2) in \<open>simp add: whole_message_def\<close>)
    have "loop buf n s = loop buf1 (word_of_nat (length x)) s1" by (subst loop_rounds) (simp add: r(1))
    then show ?thesis
      using Cons.IH [OF r(3) _ r(2), of "word_of_nat (length x)"] Cons.prems(2) True r(4) unfolding u by simp
  qed
qed

end

end
