(* ===== verification/HttpService.thy ===== *)
theory HttpService
  imports NetServiceMessages MessageLoop
begin

text \<open>
  The http services and their manager: \<open>test/HttpService.h\<close>, \<open>test/HttpService.cpp\<close>,
  \<open>test/HttpManagerService.h\<close> and \<open>test/HttpManagerService.cpp\<close>. The manager takes the requests of the
  network service out of the shared channel and hands each to a free http service over that
  service's own channel; the answers go back the same way. Each channel's block is a memory of its own,
  as separate shared memory segments do not overlap. \<open>libcurl\<close> and the JSON parser are parameters. The
  ticks are those of the services themselves, without the timer of the base class.
\<close>

section \<open>HttpService\<close>

datatype http_log =
    LogPerformFail int
  | LogReceived "tbyte list"
  | LogJsonError "tbyte list"
  | LogHttpUnhandled tuint16
  | LogHttpUnknown tuint16
  | LogHttpUndefined message_head

datatype http_handler = HandleMsgUserLogin | HandleHttpDefault

record http_service =
  hs_channel :: message_channel
  hs_mem :: memory
  hs_head :: message_head
  hs_encoder :: message_encoder
  hs_dispatcher :: "http_handler option list"
  m_szReceiveData :: "tbyte list"
  m_bFree :: bool
  hs_service_id :: tint32
  hs_log :: "http_log list"

text \<open>
  The libraries: the chunks a transfer delivers with its code, and whether a text is JSON. A transfer
  whose write callback does not take a whole chunk ends with \<open>CURLE_WRITE_ERROR\<close>. \<open>he_log_writes\<close>: the
  service's log takes a line of the level \<open>log_mask_info\<close>, by its mask and its file (theory LogEngine).
\<close>

record ('d, 'w) http_env =
  he_pb :: "'d login_protos"
  he_transfer :: "'w \<Rightarrow> tbyte list list \<times> int \<times> 'w"
  he_read_json :: "tbyte list \<Rightarrow> bool"
  he_log_writes :: "'w \<Rightarrow> bool"

definition CURLE_OK :: int where "CURLE_OK = 0"
definition CURLE_WRITE_ERROR :: int where "CURLE_WRITE_ERROR = 23"

definition http_Init_tables :: "http_service \<Rightarrow> http_service" where
  "http_Init_tables s = s\<lparr>
     hs_dispatcher := (replicate MESSAGE_ID_MAX (Some HandleHttpDefault))[unat MSG_NH_REQ_LOGIN := Some HandleMsgUserLogin],
     m_bFree := True\<rparr>"

definition http_log :: "http_service \<Rightarrow> http_log \<Rightarrow> http_service" where
  "http_log s l = s\<lparr>hs_log := hs_log s @ [l]\<rparr>"

text \<open>The data of a chunk is appended; the result is the difference of the lengths, as 32 bit values.\<close>

definition OnHttpReceive :: "http_service \<Rightarrow> tbyte list \<Rightarrow> tint32 \<times> http_service" where
  "OnHttpReceive s pBuf =
     (let nSizeBefore = word_of_nat (length (m_szReceiveData s)) :: tint32;
          s1 = s\<lparr>m_szReceiveData := m_szReceiveData s @ pBuf\<rparr>;
          nSizeAfter = word_of_nat (length (m_szReceiveData s1))
      in (nSizeAfter - nSizeBefore, s1))"

text \<open>The static callback: \<open>size * nmemb\<close> bytes; the result is a \<open>size_t\<close>.\<close>

definition curl_write :: "http_service \<Rightarrow> tbyte list \<Rightarrow> nat \<times> http_service" where
  "curl_write s ptr = (let (nRet, s1) = OnHttpReceive s ptr in (unat (scast nRet :: tuint64), s1))"

fun curl_deliver :: "tbyte list list \<Rightarrow> int \<Rightarrow> http_service \<Rightarrow> int \<times> http_service" where
  "curl_deliver [] code s = (code, s)"
| "curl_deliver (c # cs) code s =
     (let (n, s1) = curl_write s c in if n = length c then curl_deliver cs code s1 else (CURLE_WRITE_ERROR, s1))"

definition curl_easy_perform :: "('d, 'w) http_env \<Rightarrow> http_service \<Rightarrow> 'w \<Rightarrow> int \<times> http_service \<times> 'w" where
  "curl_easy_perform env s w =
     (let (chunks, code, w1) = he_transfer env w; (ret, s1) = curl_deliver chunks code s in (ret, s1, w1))"

definition SendMsgToNetServer :: "'m message_class \<Rightarrow> 'm \<Rightarrow> http_service \<Rightarrow> (bool \<times> http_service) option" where
  "SendMsgToNetServer cls pkMessage s =
     (let mh = (hs_head s)\<lparr>m_nSrcServiceType := ServiceType_HTTP, m_nScrServiceID := ucast (hs_service_id s),
                 m_nDstServiceType := ServiceType_LOGIN, m_nDstServiceID := - 1\<rparr>
      in case MessageEncoder_Encode cls (hs_encoder s) (Some pkMessage) mh of
           None \<Rightarrow> None
         | Some (ok, en1, mh1) \<Rightarrow>
             let s1 = s\<lparr>hs_head := mh1, hs_encoder := en1\<rparr>
             in if \<not> ok then Some (False, s1)
                else Some (True, s1\<lparr>hs_mem := snd (SendMessageInput (hs_channel s1) (hs_mem s1)
                       (take (unat (MessageEncoder_GetSize en1)) (MessageEncoder_GetBuff en1)))\<rparr>))"

text \<open>The text the code answers with when the transfer was done.\<close>

definition ddddd :: "tbyte list" where "ddddd = [100, 100, 100, 100, 100]"

text \<open>
  A received text that is JSON is given to \<open>log\<close> as the format, without arguments. Such a call is defined when
  each percent sign of the C string is the first of a pair; any other directive reads an argument that is not
  there, or is no directive of the C standard. \<open>None\<close> is the undefined outcome.
\<close>

fun format_alone :: "tbyte list \<Rightarrow> bool" where
  "format_alone [] = True"
| "format_alone (c # cs) =
     (if c = 0 then True
      else if c \<noteq> 37 then format_alone cs
      else (case cs of [] \<Rightarrow> False | d # ds \<Rightarrow> d = 37 \<and> format_alone ds))"

definition Verify :: "('d, 'w) http_env \<Rightarrow> tuint32 \<Rightarrow> tbyte list \<Rightarrow> tbyte list \<Rightarrow> http_service \<Rightarrow> 'w \<Rightarrow> (http_service \<times> 'w) option" where
  "Verify env uid strAccount strValidateInfo s w =
     (let pb = he_pb env;
          (nRet, s1, w1) = curl_easy_perform env (s\<lparr>m_szReceiveData := []\<rparr>) w;
          answer = (\<lambda>account res s. map_option (\<lambda>(_, s). (s, w1))
             (SendMsgToNetServer (M_RET_Login (pb_hn_ret pb)) (make_ret pb uid account res) s))
      in if nRet \<noteq> CURLE_OK then answer strAccount 0 (http_log s1 (LogPerformFail nRet))
         else if he_read_json env (m_szReceiveData s1)
         then if he_log_writes env w1 \<and> \<not> format_alone (m_szReceiveData s1) then None
              else answer ddddd 1 (http_log s1 (LogReceived (m_szReceiveData s1)))
         else answer ddddd 0 (http_log s1 (LogJsonError (m_szReceiveData s1))))"

definition HandleHttpUserLogin :: "('d, 'w) http_env \<Rightarrow> message_head \<Rightarrow> tbyte list \<Rightarrow> http_service \<Rightarrow> 'w
    \<Rightarrow> (http_service \<times> 'w) option" where
  "HandleHttpUserLogin env mh pBuff s w =
     (let pb = he_pb env; sz = unat (ucast (mh_nSize mh) :: tuint16)
      in if length pBuff < sz then None
         else case M_REQ_Login_Decode (pb_nh_req pb) (pb_new pb) (take sz pBuff) of
           (False, _) \<Rightarrow> Some (s, w)
         | (True, d) \<Rightarrow> Verify env (req_uid pb d) (takeWhile (\<lambda>b. b \<noteq> 0) (req_account pb d))
             (takeWhile (\<lambda>b. b \<noteq> 0) (req_validateinfo pb d)) s w)"

definition run_http_handler :: "('d, 'w) http_env \<Rightarrow> http_handler \<Rightarrow> message_head \<Rightarrow> tbyte list \<Rightarrow> http_service \<Rightarrow> 'w
    \<Rightarrow> (http_service \<times> 'w) option" where
  "run_http_handler env h mh pBuff s w =
     (case h of
        HandleMsgUserLogin \<Rightarrow> HandleHttpUserLogin env mh pBuff s w
      | HandleHttpDefault \<Rightarrow> Some (http_log s (LogHttpUndefined mh), w))"

text \<open>A round of the loop of \<open>Tick\<close>, and the loop.\<close>

definition hs_round :: "('d, 'w) http_env \<Rightarrow> tbyte list \<Rightarrow> tuint16 \<Rightarrow> http_service \<Rightarrow> 'w
    \<Rightarrow> (tick_round \<times> tbyte list \<times> tuint16 \<times> http_service \<times> 'w) option" where
  "hs_round env buf bufSize s w =
     (case RecvMessageOutput (hs_channel s) (hs_mem s) bufSize of
        (None, m1) \<Rightarrow> Some (TickEnd, buf, bufSize, s\<lparr>hs_mem := m1\<rparr>, w)
      | (Some (bytes, bufSize1), m1) \<Rightarrow>
          (case buf_write buf 0 bytes of
             None \<Rightarrow> None
           | Some buf1 \<Rightarrow>
               let s1 = s\<lparr>hs_mem := m1\<rparr>
               in case MessageHead_Decode MessageHead_new buf1 (ucast bufSize1) of
                    None \<Rightarrow> None
                  | Some (_, mh) \<Rightarrow>
                      if mh_nSize mh \<noteq> ucast bufSize1 - word_of_nat sizeof_MessageHead
                      then Some (TickReturn, buf1, bufSize1, s1, w)
                      else if unat (mh_usMessageID mh) < MESSAGE_ID_MAX
                      then (case hs_dispatcher s1 ! unat (mh_usMessageID mh) of
                              None \<Rightarrow> Some (TickNext, buf1, bufSize1, http_log s1 (LogHttpUnhandled (mh_usMessageID mh)), w)
                            | Some h \<Rightarrow> map_option (\<lambda>(s2, w2). (TickNext, buf1, bufSize1, s2, w2))
                                (run_http_handler env h mh (drop sizeof_MessageHead buf1) s1 w))
                      else Some (TickNext, buf1, bufSize1, http_log s1 (LogHttpUnknown (mh_usMessageID mh)), w)))"

partial_function (option) hs_loop :: "('d, 'w) http_env \<Rightarrow> tbyte list \<Rightarrow> tuint16 \<Rightarrow> http_service \<Rightarrow> 'w
    \<Rightarrow> (http_service \<times> 'w) option option" where
  "hs_loop env buf bufSize s w =
     (case hs_round env buf bufSize s w of
        None \<Rightarrow> Some None
      | Some r \<Rightarrow>
          (if fst r = TickNext
           then hs_loop env (fst (snd r)) (fst (snd (snd r))) (fst (snd (snd (snd r)))) (snd (snd (snd (snd r))))
           else Some (Some (snd (snd (snd r))))))"

definition HttpService_Tick :: "('d, 'w) http_env \<Rightarrow> http_service \<Rightarrow> 'w \<Rightarrow> (http_service \<times> 'w) option option" where
  "HttpService_Tick env s w = hs_loop env (replicate 2048 0) 2048 s w"

text \<open>The manager's side of the service's channel.\<close>

definition hs_RecvMessasgeInput :: "http_service \<Rightarrow> tuint16 \<Rightarrow> (tbyte list \<times> tuint16) option \<times> http_service" where
  "hs_RecvMessasgeInput s usMsgSize =
     (let s1 = s\<lparr>m_bFree := True\<rparr>; (res, m1) = RecvMessasgeInput (hs_channel s1) (hs_mem s1) usMsgSize
      in (res, s1\<lparr>hs_mem := m1\<rparr>))"

definition hs_SendMessageOutput :: "http_service \<Rightarrow> tbyte list \<Rightarrow> bool \<times> http_service" where
  "hs_SendMessageOutput s msg =
     (let s1 = s\<lparr>m_bFree := False\<rparr>; (ok, m1) = SendMessageOutput (hs_channel s1) (hs_mem s1) msg
      in (ok, s1\<lparr>hs_mem := m1\<rparr>))"

section \<open>HttpManagerService\<close>

record http_manager =
  hm_channel :: message_channel
  hm_mem :: memory
  m_HttpServicePool :: "http_service option list"
  m_nInputMsgCount :: tint32
  m_nOutputMsgCount :: tint32

text \<open>The first free service gets the message; without one, nobody does.\<close>

fun hand_out :: "tbyte list \<Rightarrow> http_service option list \<Rightarrow> http_service option list" where
  "hand_out msg [] = []"
| "hand_out msg (None # ss) = None # hand_out msg ss"
| "hand_out msg (Some s # ss) =
     (if m_bFree s then Some (snd (hs_SendMessageOutput s msg)) # ss else Some s # hand_out msg ss)"

definition hm_in_round :: "tbyte list \<Rightarrow> tuint16 \<Rightarrow> http_manager \<Rightarrow> (tick_round \<times> tbyte list \<times> tuint16 \<times> http_manager) option" where
  "hm_in_round buf bufSize M =
     (case RecvMessageOutput (hm_channel M) (hm_mem M) bufSize of
        (None, m1) \<Rightarrow> Some (TickEnd, buf, bufSize, M\<lparr>hm_mem := m1\<rparr>)
      | (Some (bytes, bufSize1), m1) \<Rightarrow>
          (case buf_write buf 0 bytes of
             None \<Rightarrow> None
           | Some buf1 \<Rightarrow>
               let M1 = M\<lparr>hm_mem := m1\<rparr>
               in case MessageHead_Decode MessageHead_new buf1 (ucast bufSize1) of
                    None \<Rightarrow> None
                  | Some (_, mh) \<Rightarrow>
                      if mh_nSize mh \<noteq> ucast bufSize1 - word_of_nat sizeof_MessageHead
                      then Some (TickReturn, buf1, bufSize1, M1)
                      else Some (TickNext, buf1, bufSize1,
                        M1\<lparr>m_HttpServicePool := hand_out (take (unat bufSize1) buf1) (m_HttpServicePool M1),
                           m_nInputMsgCount := m_nInputMsgCount M1 + 1\<rparr>)))"

partial_function (option) hm_in_loop :: "tbyte list \<Rightarrow> tuint16 \<Rightarrow> http_manager
    \<Rightarrow> (tick_round \<times> tbyte list \<times> tuint16 \<times> http_manager) option option" where
  "hm_in_loop buf bufSize M =
     (case hm_in_round buf bufSize M of
        None \<Rightarrow> Some None
      | Some r \<Rightarrow>
          (if fst r = TickNext then hm_in_loop (fst (snd r)) (fst (snd (snd r))) (snd (snd (snd r)))
           else Some (Some r)))"

text \<open>A round of the inner loop over the answers of one service, with the manager and that service.\<close>

definition hm_out_round :: "tbyte list \<Rightarrow> tuint16 \<Rightarrow> http_service \<Rightarrow> http_manager
    \<Rightarrow> (tick_round \<times> tbyte list \<times> tuint16 \<times> http_service \<times> http_manager) option" where
  "hm_out_round buf bufSize s M =
     (case hs_RecvMessasgeInput s bufSize of
        (None, s1) \<Rightarrow> Some (TickEnd, buf, bufSize, s1, M)
      | (Some (bytes, bufSize1), s1) \<Rightarrow>
          (case buf_write buf 0 bytes of
             None \<Rightarrow> None
           | Some buf1 \<Rightarrow>
               (case MessageHead_Decode MessageHead_new buf1 (ucast bufSize1) of
                    None \<Rightarrow> None
                  | Some (_, mh) \<Rightarrow>
                      if mh_nSize mh \<noteq> ucast bufSize1 - word_of_nat sizeof_MessageHead
                      then Some (TickReturn, buf1, bufSize1, s1, M)
                      else Some (TickNext, buf1, bufSize1, s1,
                        M\<lparr>hm_mem := snd (SendMessageInput (hm_channel M) (hm_mem M) (take (unat bufSize1) buf1)),
                          m_nOutputMsgCount := m_nOutputMsgCount M + 1\<rparr>))))"

partial_function (option) hm_out_loop :: "tbyte list \<Rightarrow> tuint16 \<Rightarrow> http_service \<Rightarrow> http_manager
    \<Rightarrow> (tick_round \<times> tbyte list \<times> tuint16 \<times> http_service \<times> http_manager) option option" where
  "hm_out_loop buf bufSize s M =
     (case hm_out_round buf bufSize s M of
        None \<Rightarrow> Some None
      | Some r \<Rightarrow>
          (if fst r = TickNext
           then hm_out_loop (fst (snd r)) (fst (snd (snd r))) (fst (snd (snd (snd r)))) (snd (snd (snd (snd r))))
           else Some (Some r)))"

text \<open>Over all services: the services passed so far, and those to come.\<close>

fun hm_collect :: "http_service option list \<Rightarrow> http_service option list \<Rightarrow> tbyte list \<Rightarrow> tuint16 \<Rightarrow> http_manager
    \<Rightarrow> http_manager option option" where
  "hm_collect passed [] buf bufSize M = Some (Some (M\<lparr>m_HttpServicePool := passed\<rparr>))"
| "hm_collect passed (None # ss) buf bufSize M = hm_collect (passed @ [None]) ss buf bufSize M"
| "hm_collect passed (Some s # ss) buf bufSize M =
     (case hm_out_loop buf bufSize s M of
        None \<Rightarrow> None
      | Some None \<Rightarrow> Some None
      | Some (Some (t, buf1, bufSize1, s1, M1)) \<Rightarrow>
          if t = TickReturn then Some (Some (M1\<lparr>m_HttpServicePool := passed @ Some s1 # ss\<rparr>))
          else hm_collect (passed @ [Some s1]) ss buf1 bufSize1 M1)"

definition HttpManager_Tick :: "http_manager \<Rightarrow> http_manager option option" where
  "HttpManager_Tick M =
     (case hm_in_loop (replicate 2048 0) 2048 M of
        None \<Rightarrow> None
      | Some None \<Rightarrow> Some None
      | Some (Some (t, buf, bufSize, M1)) \<Rightarrow>
          if t = TickReturn then Some (Some M1) else hm_collect [] (m_HttpServicePool M1) buf bufSize M1)"

text \<open>Start and shutdown; the answers of the services are a parameter, and a null pointer may not be asked.\<close>

fun hm_IsStartOK :: "bool list \<Rightarrow> bool" where
  "hm_IsStartOK [] = True"
| "hm_IsStartOK (ok # oks) = (if \<not> ok then False else hm_IsStartOK oks)"

fun hm_IsShutdownOK :: "bool list \<Rightarrow> bool" where
  "hm_IsShutdownOK [] = True"
| "hm_IsShutdownOK (ok # oks) = (if ok then False else hm_IsShutdownOK oks)"

definition NewHttpService :: "http_service \<Rightarrow> http_manager \<Rightarrow> http_manager" where
  "NewHttpService s M = M\<lparr>m_HttpServicePool := m_HttpServicePool M @ [Some s]\<rparr>"

end
