(* ===== verification/HttpServiceProps.thy ===== *)
theory HttpServiceProps
  imports HttpService
begin

text \<open>
  The http services: every login request is answered once, and what the manager's tick does with more
  requests than it has services.
\<close>

section \<open>Answers\<close>

lemma curl_write_all:
  assumes "length c < 2 ^ 31"
  shows "curl_write s c = (length c, s\<lparr>m_szReceiveData := m_szReceiveData s @ c\<rparr>)"
proof -
  have d: "(word_of_nat (length (m_szReceiveData s @ c)) :: tint32) - word_of_nat (length (m_szReceiveData s)) = word_of_nat (length c)"
    by simp
  have "sint (word_of_nat (length c) :: tint32) = int (length c)" using assms by (rule sint_small)
  then have "unat (scast (word_of_nat (length c) :: tint32) :: tuint64) = length c"
    using size_of_tint32_nonneg [of "word_of_nat (length c)"] by (simp add: size_of_tint32_def)
  then show ?thesis using d by (simp add: curl_write_def OnHttpReceive_def Let_def)
qed

lemma curl_deliver_all:
  "list_all (\<lambda>c. length c < 2 ^ 31) cs \<Longrightarrow>
     curl_deliver cs code s = (code, s\<lparr>m_szReceiveData := m_szReceiveData s @ concat cs\<rparr>)"
  by (induction cs arbitrary: s) (simp_all add: curl_write_all)

lemma SendMsgToNetServer_sends:
  assumes "channel_inv (hs_channel s) qs (hs_mem s) ins outs"
    and "length (m_szMsgBuf (hs_encoder s)) = MESSAGE_BUF_SIZE" "protobuf_writes pb d"
    and "sint (ByteSize pb d) \<le> 65511"
    and room: "msgs_bytes ins + 8 + (24 + nat (sint (ByteSize pb d))) + 16 \<le> qs"
  shows "\<exists>s' x mh. SendMsgToNetServer (M_RET_Login pb) d s = Some (True, s') \<and>
    m_szReceiveData s' = m_szReceiveData s \<and>
    channel_inv (hs_channel s') qs (hs_mem s') (ins @ [x]) outs \<and>
    MessageHead_Decode MessageHead_new x (word_of_nat (length x)) = Some (True, mh) \<and>
    mh_usMessageID mh = MSG_HN_RET_LOGIN \<and> m_nSrcServiceType mh = ServiceType_HTTP \<and>
    m_nDstServiceType mh = ServiceType_LOGIN \<and> 0 \<le> sint (mh_nSize mh) \<and> int (length x) = 24 + sint (mh_nSize mh) \<and>
    drop 24 x = snd (SerializePartialToArray pb d 65511)"
proof -
  let ?ch = "hs_channel s"
  let ?mh = "(hs_head s)\<lparr>m_nSrcServiceType := ServiceType_HTTP, m_nScrServiceID := ucast (hs_service_id s),
      m_nDstServiceType := ServiceType_LOGIN, m_nDstServiceID := - 1\<rparr>"
  obtain body n' where b: "msg_Encode (M_RET_Login pb) d 65511 = (True, body, n')" "body = snd (SerializePartialToArray pb d 65511)"
      "int (length body) = sint (ByteSize pb d)" "uint n' = sint (ByteSize pb d)"
    using login_encodes [OF assms(3,4)] by blast
  obtain en' mh1 x where en: "MessageEncoder_Encode (M_RET_Login pb) (hs_encoder s) (Some d) ?mh = Some (True, en', mh1)"
      "mh1 = ?mh\<lparr>mh_usMessageID := GetMessageID (M_RET_Login pb) d, mh_nSize := ucast n'\<rparr>"
      "x = take (unat (MessageEncoder_GetSize en')) (MessageEncoder_GetBuff en')" "length x = 24 + length body"
      "length body \<le> 65511" "drop 24 x = body" "MessageHead_Decode MessageHead_new x (word_of_nat (length x)) = Some (True, mh1)"
    using encoded_message [OF login_within(2) [OF assms(3)] assms(2) b(1)] by blast
  let ?m' = "snd (SendMessageInput ?ch (hs_mem s) x)"
  have q: "mq_inv (m_kMsgInput ?ch) (hs_mem s) ins" "h_queue_size (m_kMsgInput ?ch) (hs_mem s) = qs"
    using assms(1) by (simp_all add: channel_inv_def)
  have "length x = 24 + nat (sint (ByteSize pb d))" using en(4) b(3) by simp
  then have "fst (SendMessageInput ?ch (hs_mem s) x)"
    unfolding SendMessageInput_def by (intro mq_append_len [OF q(1)]) (use room q(2) in simp)
  then have inv': "channel_inv ?ch qs ?m' (ins @ [x]) outs"
    using channel_send_input [OF assms(1), of x] en(4,5) by simp
  have sz: "sint (mh_nSize mh1) = int (length body)" using b(3,4) by (simp add: en(2) sint_ucast_up16)
  have "SendMsgToNetServer (M_RET_Login pb) d s = Some (True, s\<lparr>hs_head := mh1, hs_encoder := en', hs_mem := ?m'\<rparr>)"
    using en(1,3) by (simp add: SendMsgToNetServer_def Let_def)
  then show ?thesis
    using inv' en(7) sz en(4) en(6) b(2)
    by (intro exI [of _ "s\<lparr>hs_head := mh1, hs_encoder := en', hs_mem := ?m'\<rparr>"] exI [of _ x] exI [of _ mh1])
      (simp add: en(2) M_RET_Login_def)
qed

text \<open>The answer to a request: refused when the transfer failed or its text is not JSON.\<close>

definition login_answer :: "('d, 'w) http_env \<Rightarrow> 'd \<Rightarrow> int \<Rightarrow> tbyte list \<Rightarrow> 'd" where
  "login_answer env d code text =
     (let pb = he_pb env
      in if code \<noteq> CURLE_OK then make_ret pb (req_uid pb d) (takeWhile (\<lambda>b. b \<noteq> 0) (req_account pb d)) 0
         else make_ret pb (req_uid pb d) ddddd (if he_read_json env text then 1 else 0))"

text \<open>The body is JSON and a format with a directive of its own.\<close>

definition bad_format :: "('d, 'w) http_env \<Rightarrow> int \<Rightarrow> tbyte list \<Rightarrow> 'w \<Rightarrow> bool" where
  "bad_format env code text w \<longleftrightarrow> code = CURLE_OK \<and> he_read_json env text \<and> he_log_writes env w \<and> \<not> format_alone text"

lemma perform_all:
  assumes "he_transfer env w = (chunks, code, w1)" "list_all (\<lambda>c. length c < 2 ^ 31) chunks"
  shows "curl_easy_perform env (s\<lparr>m_szReceiveData := []\<rparr>) w = (code, s\<lparr>m_szReceiveData := concat chunks\<rparr>, w1)"
  using assms(1) curl_deliver_all [OF assms(2), of code "s\<lparr>m_szReceiveData := []\<rparr>"] by (simp add: curl_easy_perform_def)

lemma login_undefined:
  assumes "unat (ucast (mh_nSize mh) :: tuint16) \<le> length pBuff"
    and "M_REQ_Login_Decode (pb_nh_req (he_pb env)) (pb_new (he_pb env)) (take (unat (ucast (mh_nSize mh) :: tuint16)) pBuff) = (True, d)"
    and "he_transfer env w = (chunks, code, w1)" "list_all (\<lambda>c. length c < 2 ^ 31) chunks" "bad_format env code (concat chunks) w1"
  shows "run_http_handler env HandleMsgUserLogin mh pBuff s w = None"
  using assms(1,2,5) by (simp add: run_http_handler_def HandleHttpUserLogin_def Verify_def Let_def perform_all [OF assms(3,4)] bad_format_def)

text \<open>a login request that can be parsed is answered with exactly one message, put into the input queue of
  the service's channel, from the http service to the login service with the id \<open>MSG_HN_RET_LOGIN\<close>, for
  the number of the request: result 1 when the transfer succeeded and what it delivered, put together,
  is JSON, 0 otherwise; the queue has room, the answer fits the encoder and a body that is JSON is no format
  with a directive.\<close>

theorem login_answered:
  assumes "channel_inv (hs_channel s) qs (hs_mem s) ins outs"
    and "length (m_szMsgBuf (hs_encoder s)) = MESSAGE_BUF_SIZE" "protobuf_writes (pb_hn_ret (he_pb env)) ans"
    and "unat (ucast (mh_nSize mh) :: tuint16) \<le> length pBuff"
    and "M_REQ_Login_Decode (pb_nh_req (he_pb env)) (pb_new (he_pb env)) (take (unat (ucast (mh_nSize mh) :: tuint16)) pBuff) = (True, d)"
    and "he_transfer env w = (chunks, code, w1)" "list_all (\<lambda>c. length c < 2 ^ 31) chunks"
    and "\<not> bad_format env code (concat chunks) w1"
    and "ans = login_answer env d code (concat chunks)" "sint (ByteSize (pb_hn_ret (he_pb env)) ans) \<le> 65511"
    and "msgs_bytes ins + 8 + (24 + nat (sint (ByteSize (pb_hn_ret (he_pb env)) ans))) + 16 \<le> qs"
  shows "\<exists>s' x mh'. run_http_handler env HandleMsgUserLogin mh pBuff s w = Some (s', w1) \<and>
    m_szReceiveData s' = concat chunks \<and> channel_inv (hs_channel s') qs (hs_mem s') (ins @ [x]) outs \<and>
    MessageHead_Decode MessageHead_new x (word_of_nat (length x)) = Some (True, mh') \<and>
    mh_usMessageID mh' = MSG_HN_RET_LOGIN \<and> m_nSrcServiceType mh' = ServiceType_HTTP \<and>
    m_nDstServiceType mh' = ServiceType_LOGIN \<and> 0 \<le> sint (mh_nSize mh') \<and> int (length x) = 24 + sint (mh_nSize mh') \<and>
    drop 24 x = snd (SerializePartialToArray (pb_hn_ret (he_pb env)) ans 65511)"
proof -
  let ?pb = "he_pb env"
  note perf = perform_all [OF assms(6,7), of s]
  define l where "l = (if code \<noteq> CURLE_OK then LogPerformFail code
    else if he_read_json env (concat chunks) then LogReceived (concat chunks) else LogJsonError (concat chunks))"
  define s1 where "s1 = http_log (s\<lparr>m_szReceiveData := concat chunks\<rparr>) l"
  have "\<exists>s' x mh. SendMsgToNetServer (M_RET_Login (pb_hn_ret ?pb)) ans s1 = Some (True, s') \<and>
    m_szReceiveData s' = m_szReceiveData s1 \<and>
    channel_inv (hs_channel s') qs (hs_mem s') (ins @ [x]) outs \<and>
    MessageHead_Decode MessageHead_new x (word_of_nat (length x)) = Some (True, mh) \<and>
    mh_usMessageID mh = MSG_HN_RET_LOGIN \<and> m_nSrcServiceType mh = ServiceType_HTTP \<and>
    m_nDstServiceType mh = ServiceType_LOGIN \<and> 0 \<le> sint (mh_nSize mh) \<and> int (length x) = 24 + sint (mh_nSize mh) \<and>
    drop 24 x = snd (SerializePartialToArray (pb_hn_ret ?pb) ans 65511)"
    by (rule SendMsgToNetServer_sends) (use assms in \<open>simp_all add: s1_def http_log_def\<close>)
  then obtain s' x mh' where s': "SendMsgToNetServer (M_RET_Login (pb_hn_ret ?pb)) ans s1 = Some (True, s')"
      "m_szReceiveData s' = m_szReceiveData s1" "channel_inv (hs_channel s') qs (hs_mem s') (ins @ [x]) outs"
      "MessageHead_Decode MessageHead_new x (word_of_nat (length x)) = Some (True, mh')"
      "mh_usMessageID mh' = MSG_HN_RET_LOGIN" "m_nSrcServiceType mh' = ServiceType_HTTP"
      "m_nDstServiceType mh' = ServiceType_LOGIN" "0 \<le> sint (mh_nSize mh')" "int (length x) = 24 + sint (mh_nSize mh')"
      "drop 24 x = snd (SerializePartialToArray (pb_hn_ret ?pb) ans 65511)" by blast
  have v: "Verify env (req_uid ?pb d) (takeWhile (\<lambda>b. b \<noteq> 0) (req_account ?pb d)) val s w = Some (s', w1)" for val
    using s'(1) assms(8) by (auto simp: Verify_def Let_def perf assms(9) login_answer_def s1_def l_def bad_format_def split: if_splits)
  have "run_http_handler env HandleMsgUserLogin mh pBuff s w = Some (s', w1)"
    using assms(4,5) v by (simp add: run_http_handler_def HandleHttpUserLogin_def Let_def)
  moreover have "m_szReceiveData s' = concat chunks" unfolding s'(2) by (simp add: s1_def http_log_def)
  ultimately show ?thesis using s'(3-10) by blast
qed

section \<open>Handing out requests\<close>

lemma hand_out_busy: "list_all (\<lambda>s. \<not> m_bFree s) bs \<Longrightarrow> hand_out m (map Some bs @ ss) = map Some bs @ hand_out m ss"
  by (induction bs) simp_all

lemma sent_busy: "\<not> m_bFree (snd (hs_SendMessageOutput s m))"
  by (simp add: hs_SendMessageOutput_def Let_def case_prod_unfold)

text \<open>One request each, in order; requests beyond the services go nowhere.\<close>

lemma hand_out_all:
  assumes "list_all (\<lambda>s. \<not> m_bFree s) bs" "list_all m_bFree fs"
  shows "fold hand_out msgs (map Some bs @ map Some fs) =
    map Some (bs @ map2 (\<lambda>s m. snd (hs_SendMessageOutput s m)) fs msgs @ drop (length msgs) fs)"
  using assms
proof (induction msgs arbitrary: bs fs)
  case Nil
  then show ?case by simp
next
  case (Cons m msgs)
  show ?case
  proof (cases fs)
    case Nil
    have "hand_out m (map Some bs) = map Some bs" using hand_out_busy [OF Cons.prems(1), of m "[]"] by simp
    then show ?thesis using Cons.IH [of bs "[]"] Cons.prems Nil by simp
  next
    case (Cons s fs')
    let ?s = "snd (hs_SendMessageOutput s m)"
    have "hand_out m (map Some bs @ map Some fs) = map Some (bs @ [?s]) @ map Some fs'"
      using Cons.prems Cons hand_out_busy [of bs m "map Some fs"] by simp
    moreover have "list_all (\<lambda>s. \<not> m_bFree s) (bs @ [?s])" using Cons.prems(1) sent_busy by simp
    ultimately show ?thesis using Cons.IH [of "bs @ [?s]" fs'] Cons.prems(2) Cons by simp
  qed
qed

section \<open>A tick of the manager\<close>

text \<open>The manager without its memory, and what a message does to it.\<close>

definition hm_view :: "http_manager \<Rightarrow> http_manager" where
  "hm_view M = M\<lparr>hm_mem := \<lambda>_. 0\<rparr>"

definition hm_take :: "tbyte list \<Rightarrow> http_manager \<Rightarrow> http_manager" where
  "hm_take x M = M\<lparr>m_HttpServicePool := hand_out x (m_HttpServicePool M), m_nInputMsgCount := m_nInputMsgCount M + 1\<rparr>"

lemma hm_in_round_takes:
  assumes "channel_inv (hm_channel M) qs (hm_mem M) ins (x # xs)" "whole_message x" "length x \<le> unat bufSize" "length buf = 2048"
  shows "\<exists>buf1 M1. hm_in_round buf bufSize M = Some (TickNext, buf1, word_of_nat (length x), M1) \<and> length buf1 = 2048
    \<and> channel_inv (hm_channel M1) qs (hm_mem M1) ins xs \<and> hm_view M1 = hm_take x (hm_view M)"
proof -
  have "x \<noteq> []" using assms(2) by (auto simp: whole_message_def)
  then obtain m1 where r: "RecvMessageOutput (hm_channel M) (hm_mem M) bufSize = (Some (x, word_of_nat (length x)), m1)"
      and inv: "channel_inv (hm_channel M) qs m1 ins xs" using recv_output_first [OF assms(1) _ assms(3)] by blast
  obtain ok mh buf1 where w: "buf_write buf 0 x = Some buf1" "buf1 = x @ drop (length x) buf" "length buf1 = 2048"
    "MessageHead_Decode MessageHead_new buf1 (ucast (word_of_nat (length x) :: tuint16)) = Some (ok, mh)"
    "MessageHead_Decode MessageHead_new x (word_of_nat (length x)) = Some (ok, mh)"
    "mh_nSize mh = ucast (word_of_nat (length x) :: tuint16) - word_of_nat sizeof_MessageHead"
    "mh_nSize mh = word_of_nat (length x - 24)" "unat (word_of_nat (length x) :: tuint16) = length x"
    by (rule whole_received [OF assms(2,4)])
  let ?M1 = "M\<lparr>hm_mem := m1, m_HttpServicePool := hand_out x (m_HttpServicePool M), m_nInputMsgCount := m_nInputMsgCount M + 1\<rparr>"
  have "take (length x) buf1 = x" by (simp add: w(2))
  then have "hm_in_round buf bufSize M = Some (TickNext, buf1, word_of_nat (length x), ?M1)"
    using w(6) by (simp add: hm_in_round_def r w(1,4,8) Let_def)
  then show ?thesis using inv w(3) by (intro exI [of _ buf1] exI [of _ ?M1]) (simp add: hm_view_def hm_take_def)
qed

interpretation manager_in: message_loop hm_in_round hm_in_loop "\<lambda>r. r"
  "\<lambda>M msgs. channel_inv (hm_channel M) qs (hm_mem M) ins msgs" hm_view hm_take for qs ins
proof
  show "hm_in_loop buf n M = (case hm_in_round buf n M of None \<Rightarrow> Some None | Some r \<Rightarrow>
      if fst r = TickNext then hm_in_loop (fst (snd r)) (fst (snd (snd r))) (snd (snd (snd r))) else Some (Some r))" for buf n M
    by (subst hm_in_loop.simps) (rule refl)
  show "hm_in_round buf n M = Some (TickEnd, buf, n, M)"
    if "channel_inv (hm_channel M) qs (hm_mem M) ins msgs" "msgs = [] \<or> unat n < length (hd msgs)" for M msgs n buf
    using recv_output_refused [OF that] by (simp add: hm_in_round_def)
qed (rule hm_in_round_takes)

lemma hm_take_all:
  "fold hm_take msgs M = M\<lparr>m_HttpServicePool := fold hand_out msgs (m_HttpServicePool M),
     m_nInputMsgCount := m_nInputMsgCount M + word_of_nat (length msgs)\<rparr>"
  by (induction msgs arbitrary: M) (simp_all add: hm_take_def add.assoc)

lemma hm_in_loop_all:
  assumes "channel_inv (hm_channel M) qs (hm_mem M) ins msgs" "list_all whole_message msgs" "length buf = 2048"
  shows "\<exists>buf' bufSize' m'. hm_in_loop buf bufSize M = Some (Some (TickEnd, buf', bufSize',
      M\<lparr>hm_mem := m', m_HttpServicePool := fold hand_out (taken (unat bufSize) msgs) (m_HttpServicePool M),
        m_nInputMsgCount := m_nInputMsgCount M + word_of_nat (length (taken (unat bufSize) msgs))\<rparr>))
    \<and> channel_inv (hm_channel M) qs m' ins (drop (length (taken (unat bufSize) msgs)) msgs)"
proof -
  let ?t = "taken (unat bufSize) msgs"
  obtain buf' n' M' where l: "hm_in_loop buf bufSize M = Some (Some (TickEnd, buf', n', M'))"
      "channel_inv (hm_channel M') qs (hm_mem M') ins (drop (length ?t) msgs)"
      "hm_view M' = fold hm_take ?t (hm_view M)"
    using manager_in.loop_takes [OF assms, of bufSize] by blast
  have "M' = (hm_view M')\<lparr>hm_mem := hm_mem M'\<rparr>" by (simp add: hm_view_def)
  also have "\<dots> = M\<lparr>hm_mem := hm_mem M', m_HttpServicePool := fold hand_out ?t (m_HttpServicePool M),
      m_nInputMsgCount := m_nInputMsgCount M + word_of_nat (length ?t)\<rparr>"
    unfolding l(3) hm_take_all by (simp add: hm_view_def)
  finally have eq: "M' = M\<lparr>hm_mem := hm_mem M', m_HttpServicePool := fold hand_out ?t (m_HttpServicePool M),
      m_nInputMsgCount := m_nInputMsgCount M + word_of_nat (length ?t)\<rparr>" (is "M' = ?M") .
  have "hm_in_loop buf bufSize M = Some (Some (TickEnd, buf', n', ?M))" by (subst eq [symmetric]) (rule l(1))
  moreover have "hm_channel M' = hm_channel M" using arg_cong [OF eq, of hm_channel] by simp
  ultimately show ?thesis using l(2) by (intro exI conjI) simp_all
qed

lemma hm_out_loop_silent:
  assumes "channel_inv (hs_channel s) qs (hs_mem s) [] outs"
  shows "hm_out_loop buf bufSize s M = Some (Some (TickEnd, buf, bufSize, s\<lparr>m_bFree := True\<rparr>, M))"
proof -
  obtain res m1 where r: "RecvMessasgeInput (hs_channel s) (hs_mem s) bufSize = (res, m1)" by fastforce
  then have "res = None" "m1 = hs_mem s" using channel_recv_input [OF assms r] by (auto split: option.splits)
  then have "hs_RecvMessasgeInput s bufSize = (None, s\<lparr>m_bFree := True, hs_mem := hs_mem s\<rparr>)"
    using r by (simp add: hs_RecvMessasgeInput_def Let_def)
  then show ?thesis by (subst hm_out_loop.simps) (simp add: hm_out_round_def)
qed

definition silent :: "http_service \<Rightarrow> bool" where
  "silent s \<longleftrightarrow> (\<exists>qs outs. channel_inv (hs_channel s) qs (hs_mem s) [] outs)"

lemma hm_collect_silent:
  "list_all silent ss \<Longrightarrow> hm_collect passed (map Some ss) buf bufSize M =
     Some (Some (M\<lparr>m_HttpServicePool := passed @ map (\<lambda>s. Some (s\<lparr>m_bFree := True\<rparr>)) ss\<rparr>))"
proof (induction ss arbitrary: passed)
  case Nil
  then show ?case by simp
next
  case (Cons s ss)
  then obtain qs outs where "channel_inv (hs_channel s) qs (hs_mem s) [] outs" by (auto simp: silent_def)
  then have "hm_out_loop buf bufSize s M = Some (Some (TickEnd, buf, bufSize, s\<lparr>m_bFree := True\<rparr>, M))"
    by (rule hm_out_loop_silent)
  then show ?case using Cons by simp
qed

lemma sent_silent: "silent s \<Longrightarrow> length m < 65536 \<Longrightarrow> silent (snd (hs_SendMessageOutput s m))"
  unfolding silent_def hs_SendMessageOutput_def Let_def case_prod_unfold
  using channel_send_output by fastforce

text \<open>C20: with idle services and no answers waiting, a tick of the manager takes requests as long as each
  is no longer than the one before, leaves the others waiting, gives the first it took one to each service,
  in order, and drops those beyond the number of services, although they are counted; and every service
  counts as free again at the end.\<close>

theorem manager_tick_drops:
  assumes "channel_inv (hm_channel M) qs (hm_mem M) ins msgs" "list_all whole_message msgs"
    and "m_HttpServicePool M = map Some fs" "list_all m_bFree fs" "list_all silent fs"
  shows "\<exists>m'. HttpManager_Tick M = Some (Some (M\<lparr>hm_mem := m',
      m_HttpServicePool := map (\<lambda>s. Some (s\<lparr>m_bFree := True\<rparr>))
        (map2 (\<lambda>s x. snd (hs_SendMessageOutput s x)) fs (taken 2048 msgs) @ drop (length (taken 2048 msgs)) fs),
      m_nInputMsgCount := m_nInputMsgCount M + word_of_nat (length (taken 2048 msgs))\<rparr>)) \<and>
    channel_inv (hm_channel M) qs m' ins (drop (length (taken 2048 msgs)) msgs)"
proof -
  let ?t = "taken 2048 msgs"
  let ?fs = "map2 (\<lambda>s x. snd (hs_SendMessageOutput s x)) fs ?t @ drop (length ?t) fs"
  have fold: "fold hand_out ?t (m_HttpServicePool M) = map Some ?fs"
    using hand_out_all [of "[]" fs ?t] assms(3,4) by simp
  have n: "unat (2048 :: tuint16) = 2048" by simp
  obtain buf' bufSize' m' where l: "hm_in_loop (replicate 2048 0) 2048 M = Some (Some (TickEnd, buf', bufSize',
      M\<lparr>hm_mem := m', m_HttpServicePool := map Some ?fs, m_nInputMsgCount := m_nInputMsgCount M + word_of_nat (length ?t)\<rparr>))"
      and inv: "channel_inv (hm_channel M) qs m' ins (drop (length ?t) msgs)"
    using hm_in_loop_all [OF assms(1,2), of "replicate 2048 0" 2048] unfolding n fold by auto
  have "silent s'" if "s' \<in> set ?fs" for s'
  proof -
    have "(\<exists>s x. s \<in> set fs \<and> x \<in> set ?t \<and> s' = snd (hs_SendMessageOutput s x)) \<or> s' \<in> set fs"
      using that by (auto dest: set_zip_leftD set_zip_rightD in_set_dropD)
    then show ?thesis
      using assms(2,5) set_taken [of 2048 msgs] sent_silent by (fastforce simp: list_all_iff whole_message_def)
  qed
  then have "list_all silent ?fs" by (simp add: list_all_iff del: set_append)
  from hm_collect_silent [OF this]
  have "HttpManager_Tick M = Some (Some (M\<lparr>hm_mem := m', m_HttpServicePool := map (\<lambda>s. Some (s\<lparr>m_bFree := True\<rparr>)) ?fs,
      m_nInputMsgCount := m_nInputMsgCount M + word_of_nat (length ?t)\<rparr>))"
    by (simp add: HttpManager_Tick_def l del: map_append)
  then show ?thesis using inv by blast
qed

section \<open>Witnesses\<close>

definition demo_http_env :: "(tbyte list, unit) http_env" where
  "demo_http_env = \<lparr>he_pb = demo_pb, he_transfer = (\<lambda>w. ([[123], [125]], 0, w)), he_read_json = (\<lambda>t. t = [123, 125]),
     he_log_writes = (\<lambda>_. True)\<rparr>"

definition start_http :: "message_channel \<Rightarrow> memory \<Rightarrow> http_service" where
  "start_http ch m = http_Init_tables \<lparr>hs_channel = ch, hs_mem = m, hs_head = MessageHead_new,
     hs_encoder = MessageEncoder_new (replicate 65535 0), hs_dispatcher = [], m_szReceiveData = [], m_bFree = False,
     hs_service_id = 2, hs_log = []\<rparr>"

text \<open>Two requests and one service.\<close>

theorem manager_tick_drops_witness:
  "\<exists>M m' s s'. m_HttpServicePool M = [Some s] \<and> channel_inv (hm_channel M) 216 (hm_mem M) [] [zero_request, zero_request] \<and>
     HttpManager_Tick M = Some (Some (M\<lparr>hm_mem := m', m_HttpServicePool := [Some s'], m_nInputMsgCount := m_nInputMsgCount M + 2\<rparr>)) \<and>
     s' = (snd (hs_SendMessageOutput s zero_request))\<lparr>m_bFree := True\<rparr> \<and> channel_inv (hm_channel M) 216 m' [] []"
proof -
  obtain ch m where c: "channel_inv ch 216 m [] []" "h_queue_size (m_kMsgOutput ch) m = 216" using demo_channel_200 by blast
  let ?x = "zero_request"
  have lx: "length ?x = 24" by (simp add: zero_request_def)
  have i: "mq_inv (m_kMsgOutput ch) m []" using c(1) by (simp add: channel_inv_def)
  obtain m1 where m1: "SendMessageOutput ch m ?x = (True, m1)" "h_queue_size (m_kMsgOutput ch) m1 = 216"
    using mq_append_ok [OF i, of ?x] c(2) lx by (cases "mq_append (m_kMsgOutput ch) m ?x") (simp add: SendMessageOutput_def)
  have c1: "channel_inv ch 216 m1 [] [?x]" using channel_send_output [OF c(1), of ?x] m1 lx by simp
  have i1: "mq_inv (m_kMsgOutput ch) m1 [?x]" using c1 by (simp add: channel_inv_def)
  obtain m2 where m2: "SendMessageOutput ch m1 ?x = (True, m2)"
    using mq_append_ok [OF i1, of ?x] m1(2) lx by (cases "mq_append (m_kMsgOutput ch) m1 ?x") (simp add: SendMessageOutput_def)
  have c2: "channel_inv ch 216 m2 [] [?x, ?x]" using channel_send_output [OF c1, of ?x] m2 lx by simp
  define s where "s = start_http ch m"
  define M where "M = \<lparr>hm_channel = ch, hm_mem = m2, m_HttpServicePool = [Some s], m_nInputMsgCount = 0, m_nOutputMsgCount = 0\<rparr>"
  have cM: "channel_inv (hm_channel M) 216 (hm_mem M) [] [?x, ?x]" using c2 by (simp add: M_def)
  have free: "list_all m_bFree [s]" by (simp add: s_def start_http_def http_Init_tables_def)
  have sil: "list_all silent [s]" using c(1) by (auto simp: silent_def s_def start_http_def http_Init_tables_def)
  have pool: "m_HttpServicePool M = map Some [s]" by (simp add: M_def)
  have whole: "list_all whole_message [?x, ?x]" by (simp add: zero_request_whole)
  have t: "taken 2048 [?x, ?x] = [?x, ?x]" using lx by simp
  show ?thesis
    using manager_tick_drops [OF cM whole pool free sil] cM pool unfolding t by auto
qed

theorem login_answered_witness:
  "\<exists>ch m s' x. run_http_handler demo_http_env HandleMsgUserLogin \<lparr>mh_nSize = 5, mh_usMessageID = 1, m_nSrcServiceType = 0,
      m_nScrServiceID = 1, m_nDstServiceType = 1, m_nDstServiceID = - 1\<rparr> [9, 0, 0, 0, 7] (start_http ch m) () = Some (s', ()) \<and>
    channel_inv (hs_channel s') 216 (hs_mem s') [x] [] \<and> drop 24 x = [9, 0, 0, 0, 1, 0, 0, 0, 100, 100, 100, 100, 100]"
proof -
  obtain ch m where c: "channel_inv ch 216 m [] []" using demo_channel_200 by blast
  let ?s = "start_http ch m"
  let ?mh = "\<lparr>mh_nSize = 5, mh_usMessageID = 1, m_nSrcServiceType = 0, m_nScrServiceID = 1, m_nDstServiceType = 1, m_nDstServiceID = - 1\<rparr>"
  let ?ans = "[9, 0, 0, 0, 1, 0, 0, 0, 100, 100, 100, 100, 100] :: tbyte list"
  have k: "channel_inv (hs_channel ?s) 216 (hs_mem ?s) [] []" "length (m_szMsgBuf (hs_encoder ?s)) = MESSAGE_BUF_SIZE"
    using c by (simp_all add: start_http_def http_Init_tables_def MessageEncoder_new_def MessageEncoder_Clear_def MESSAGE_BUF_SIZE_def)
  have w: "protobuf_writes (pb_hn_ret (he_pb demo_http_env)) ?ans" using demo_protobuf_writes by (simp add: demo_http_env_def demo_pb_def)
  have sz: "unat (ucast (mh_nSize ?mh) :: tuint16) \<le> length [9, 0, 0, 0, 7 :: tbyte]" by simp
  have d: "M_REQ_Login_Decode (pb_nh_req (he_pb demo_http_env)) (pb_new (he_pb demo_http_env))
      (take (unat (ucast (mh_nSize ?mh) :: tuint16)) [9, 0, 0, 0, 7]) = (True, [9, 0, 0, 0, 7])"
    by (simp add: M_REQ_Login_Decode_def demo_http_env_def demo_pb_def demo_protobuf_def)
  have t: "he_transfer demo_http_env () = ([[123], [125]], 0, ())" by (simp add: demo_http_env_def)
  have a: "?ans = login_answer demo_http_env [9, 0, 0, 0, 7] 0 (concat [[123], [125]])"
  proof -
    have "word32_at [9, 0, 0, 0, 7] 0 = 9" "bytes32 9 = [9, 0, 0, 0]" "bytes32 1 = [1, 0, 0, 0]" by code_simp+
    then have "make_ret demo_pb (req_uid demo_pb [9, 0, 0, 0, 7]) ddddd 1 = ?ans" by (simp add: demo_pb_def ddddd_def)
    then show ?thesis by (simp add: login_answer_def demo_http_env_def CURLE_OK_def Let_def)
  qed
  have b: "ByteSize (pb_hn_ret (he_pb demo_http_env)) ?ans = 13"
    "snd (SerializePartialToArray (pb_hn_ret (he_pb demo_http_env)) ?ans 65511) = ?ans"
    by (simp_all add: demo_http_env_def demo_pb_def demo_protobuf_def)
  have small: "sint (ByteSize (pb_hn_ret (he_pb demo_http_env)) ?ans) \<le> 65511"
    and room: "msgs_bytes [] + 8 + (24 + nat (sint (ByteSize (pb_hn_ret (he_pb demo_http_env)) ?ans))) + 16 \<le> 216"
    unfolding b by simp_all
  have chunks: "list_all (\<lambda>c. length c < 2 ^ 31) [[123], [125 :: tbyte]]" by simp
  have safe: "\<not> bad_format demo_http_env 0 (concat [[123], [125]]) ()" by (simp add: bad_format_def)
  show ?thesis
    using login_answered [OF k w sz d t chunks safe a small room] unfolding b(2) by fastforce
qed

end
