(* ===== verification/LuaObject.thy ===== *)
theory LuaObject
  imports StringUtility CNumbers Exceptions
begin

text \<open>
  The objects read from a Lua state and their cache: \<open>include/common/luaobject.h\<close>,
  \<open>src/common/luaobject.cpp\<close>, the lookup functions of \<open>luastate\<close> in \<open>src/common/luabinder.cpp\<close>, and
  \<open>test/Config.cpp\<close> on top. A table of Lua is an address in a heap, where the list of its pairs stands in the
  order \<open>lua_next\<close> gives them; so a table may contain itself, as \<open>_G\<close> does. The stack is the nesting of the calls, of
  which there may be any number, and
  \<open>None\<close> stands for a reading that never returns: in the program it ends when the stack is used up. Numbers are of any type, with the
  operations the code uses on them as a parameter.
\<close>

section \<open>Values of Lua\<close>

text \<open>The library's own types: other keys and other values are booleans, functions and user data.\<close>

datatype 'n lua_key = KString string | KNumber 'n | KOther

datatype 'n lua_value =
    LNil
  | LNumber 'n
  | LString string
  | LTable nat
  | LOther

type_synonym 'n lua_entries = "('n lua_key \<times> 'n lua_value) list"

text \<open>The values of the global names, and the tables at their addresses.\<close>

record 'n lua_globals =
  lg_value :: "string \<Rightarrow> 'n lua_value"
  lg_tables :: "nat \<Rightarrow> 'n lua_entries"

text \<open>The conversion to \<open>int\<close>, the comparison with 1, and the text of \<open>%.10g\<close>.\<close>

record 'n lua_numbers =
  num_to_int :: "'n \<Rightarrow> tint32"
  num_is_one :: "'n \<Rightarrow> bool"
  num_text :: "'n \<Rightarrow> string"

section \<open>Objects\<close>

text \<open>The names are kept in the map of the table they stand in, and in the cache.\<close>

datatype 'n luaobject =
    luanumber 'n
  | luastring string
  | luatable "(string \<times> 'n luaobject) list"

fun IsTable :: "'n luaobject \<Rightarrow> bool" where
  "IsTable (luatable m) = True"
| "IsTable _ = False"

fun IsNumber :: "'n luaobject \<Rightarrow> bool" where
  "IsNumber (luanumber n) = True"
| "IsNumber _ = False"

fun IsString :: "'n luaobject \<Rightarrow> bool" where
  "IsString (luastring s) = True"
| "IsString _ = False"

fun GetTypeName :: "'n luaobject \<Rightarrow> string" where
  "GetTypeName (luanumber n) = ''number''"
| "GetTypeName (luastring s) = ''string''"
| "GetTypeName (luatable m) = ''table''"

text \<open>The conversions; the functions of the base class fail a check.\<close>

fun ToInt :: "tm \<Rightarrow> place \<Rightarrow> 'n lua_numbers \<Rightarrow> 'n luaobject \<Rightarrow> tint32 checked" where
  "ToInt ltm pl ops (luanumber n) log = (Ok (num_to_int ops n), log)"
| "ToInt ltm pl ops _ log =
     (case AssertEx ltm pl False ''false'' [] log of (Raised e, log1) \<Rightarrow> (Raised e, log1) | (Ok _, log1) \<Rightarrow> (Ok 0, log1))"

fun ToBool :: "tm \<Rightarrow> place \<Rightarrow> 'n lua_numbers \<Rightarrow> 'n luaobject \<Rightarrow> bool checked" where
  "ToBool ltm pl ops (luanumber n) log = (Ok (num_to_int ops n \<noteq> 0), log)"
| "ToBool ltm pl ops _ log =
     (case AssertEx ltm pl False ''false'' [] log of (Raised e, log1) \<Rightarrow> (Raised e, log1) | (Ok _, log1) \<Rightarrow> (Ok False, log1))"

fun ToString :: "tm \<Rightarrow> place \<Rightarrow> 'n lua_numbers \<Rightarrow> 'n luaobject \<Rightarrow> string checked" where
  "ToString ltm pl ops (luanumber n) log = (Ok (snprintf_text 32 (num_text ops n)), log)"
| "ToString ltm pl ops (luastring s) log = (Ok s, log)"
| "ToString ltm pl ops (luatable m) log =
     (case AssertEx ltm pl False ''false'' [] log of (Raised e, log1) \<Rightarrow> (Raised e, log1) | (Ok _, log1) \<Rightarrow> (Ok [], log1))"

text \<open>\<open>std::map\<close>: finding, and inserting after an erase of the same name.\<close>

fun obj_find :: "(string \<times> 'a) list \<Rightarrow> string \<Rightarrow> 'a option" where
  "obj_find [] k = None"
| "obj_find ((k', v) # m) k = (if k' = k then Some v else obj_find m k)"

definition obj_put :: "(string \<times> 'a) list \<Rightarrow> string \<Rightarrow> 'a \<Rightarrow> (string \<times> 'a) list" where
  "obj_put m k v = filter (\<lambda>p. fst p \<noteq> k) m @ [(k, v)]"

section \<open>Reading objects from the stack\<close>

text \<open>\<open>lua_rawgeti (L, -1, 1)\<close> is not nil: such a table counts as an array.\<close>

definition is_array :: "'n lua_numbers \<Rightarrow> 'n lua_entries \<Rightarrow> bool" where
  "is_array ops kvs \<longleftrightarrow> (\<exists>(k, v) \<in> set kvs. (case k of KNumber n \<Rightarrow> num_is_one ops n | _ \<Rightarrow> False) \<and> v \<noteq> LNil)"

text \<open>
  The name of an entry in a buffer of 256 characters; \<open>None\<close> for a key that is neither a string nor a
  number. \<open>STRNCPY\<close> ends the copy with a NUL.
\<close>

fun key_name :: "'n lua_numbers \<Rightarrow> 'n lua_key \<Rightarrow> string option" where
  "key_name ops (KString s) = Some (take 255 (c_string s))"
| "key_name ops (KNumber n) = Some (snprintf_text 256 (show_int (sint (num_to_int ops n))))"
| "key_name ops KOther = None"

text \<open>
  \<open>luatable::GetFromStack\<close>, the loop over the entries. It reads each value with \<open>GetLuaObjectFromStack (-1)\<close>, which for a table
  calls \<open>GetFromStack\<close> again; the two are one recursion here, and one by one in \<open>GetFromStack_Cons\<close>.
\<close>

partial_function (option) GetFromStack :: "'n lua_numbers \<Rightarrow> (nat \<Rightarrow> 'n lua_entries) \<Rightarrow> (string \<times> 'n luaobject) list \<Rightarrow> 'n lua_entries
    \<Rightarrow> (string \<times> 'n luaobject) list option" where
  "GetFromStack ops tb m kvs =
     (case kvs of
        [] \<Rightarrow> Some m
      | kv # rest \<Rightarrow>
          (case key_name ops (fst kv) of
             None \<Rightarrow> Some m
           | Some pname \<Rightarrow>
               (case snd kv of
                  LNumber n \<Rightarrow> GetFromStack ops tb (obj_put m pname (luanumber n)) rest
                | LString s \<Rightarrow> GetFromStack ops tb (obj_put m pname (luastring (c_string s))) rest
                | LTable t \<Rightarrow>
                    if is_array ops (tb t) then GetFromStack ops tb m rest
                    else Option.bind (GetFromStack ops tb [] (tb t))
                           (\<lambda>m'. GetFromStack ops tb (obj_put m pname (luatable m')) rest)
                | LNil \<Rightarrow> GetFromStack ops tb m rest
                | LOther \<Rightarrow> GetFromStack ops tb m rest)))"

text \<open>\<open>luastate::GetLuaObjectFromStack\<close>: the object, or the null pointer \<open>Some None\<close>.\<close>

definition GetLuaObjectFromStack :: "'n lua_numbers \<Rightarrow> (nat \<Rightarrow> 'n lua_entries) \<Rightarrow> 'n lua_value \<Rightarrow> 'n luaobject option option" where
  "GetLuaObjectFromStack ops tb v =
     (case v of
        LNumber n \<Rightarrow> Some (Some (luanumber n))
      | LString s \<Rightarrow> Some (Some (luastring (c_string s)))
      | LTable t \<Rightarrow> if is_array ops (tb t) then Some None else map_option (\<lambda>m. Some (luatable m)) (GetFromStack ops tb [] (tb t))
      | LNil \<Rightarrow> Some None
      | LOther \<Rightarrow> Some None)"

lemma GetFromStack_Nil [simp]: "GetFromStack ops tb m [] = Some m"
  by (simp add: GetFromStack.simps)

lemma GetFromStack_Cons:
  "GetFromStack ops tb m ((k, v) # rest) =
     (case key_name ops k of
        None \<Rightarrow> Some m
      | Some pname \<Rightarrow>
          (case GetLuaObjectFromStack ops tb v of
             None \<Rightarrow> None
           | Some pvar \<Rightarrow> GetFromStack ops tb (case pvar of None \<Rightarrow> m | Some ob \<Rightarrow> obj_put m pname ob) rest))"
  by (subst GetFromStack.simps)
    (simp add: GetLuaObjectFromStack_def map_option_case bind_eq_None_conv split: option.split lua_value.split)

section \<open>Lookup\<close>

fun GetChild :: "(string \<times> 'n luaobject) list \<Rightarrow> string \<Rightarrow> 'n luaobject option" where
  "GetChild m strName = obj_find m strName"

text \<open>The loop of \<open>luatable::GetLuaObject\<close> from an object on.\<close>

fun walk_path :: "'n luaobject option \<Rightarrow> string list \<Rightarrow> 'n luaobject option" where
  "walk_path obj [] = obj"
| "walk_path obj (n # ns) =
     (case obj of
        None \<Rightarrow> None
      | Some ob \<Rightarrow> (case ob of luatable m \<Rightarrow> walk_path (GetChild m n) ns | _ \<Rightarrow> None))"

definition table_GetLuaObject :: "(string \<times> 'n luaobject) list \<Rightarrow> string list \<Rightarrow> 'n luaobject option" where
  "table_GetLuaObject m strVec = (if strVec = [] then None else walk_path (Some (luatable m)) strVec)"

definition table_GetLuaObject_text :: "(string \<times> 'n luaobject) list \<Rightarrow> string \<Rightarrow> 'n luaobject option option" where
  "table_GetLuaObject_text m strName =
     map_option (\<lambda>luaVec. if luaVec = [] then None else table_GetLuaObject m luaVec) (SplitString strName (CHR ''.''))"

text \<open>The state: the globals, which the lookups do not change, and the cache; \<open>SplitString\<close> may also not end.\<close>

record 'n luastate =
  ls_globals :: "'n lua_globals"
  m_CacheObjs :: "string \<rightharpoonup> 'n luaobject"

definition GetLuaObject :: "'n lua_numbers \<Rightarrow> 'n luastate \<Rightarrow> string \<Rightarrow> 'n luaobject option option" where
  "GetLuaObject ops ls strName =
     GetLuaObjectFromStack ops (lg_tables (ls_globals ls)) (lg_value (ls_globals ls) (c_string strName))"

definition below_root :: "'n luaobject \<Rightarrow> string list \<Rightarrow> 'n luaobject option" where
  "below_root ob luaVec =
     (if luaVec \<noteq> [] then (case ob of luatable m \<Rightarrow> table_GetLuaObject m luaVec | _ \<Rightarrow> None) else Some ob)"

definition GetLuaObjectFromCache :: "'n lua_numbers \<Rightarrow> 'n luastate \<Rightarrow> string
    \<Rightarrow> ('n luaobject option \<times> 'n luastate) option" where
  "GetLuaObjectFromCache ops ls strName =
     (case SplitString strName (CHR ''.'') of
        None \<Rightarrow> None
      | Some [] \<Rightarrow> Some (None, ls)
      | Some (strRoot # rest) \<Rightarrow>
          (case m_CacheObjs ls strRoot of
             Some ob \<Rightarrow> Some (below_root ob rest, ls)
           | None \<Rightarrow>
               (case GetLuaObject ops ls strRoot of
                  None \<Rightarrow> None
                | Some None \<Rightarrow> Some (None, ls)
                | Some (Some ob) \<Rightarrow> Some (below_root ob rest, ls\<lparr>m_CacheObjs := (m_CacheObjs ls)(strRoot \<mapsto> ob)\<rparr>))))"

text \<open>
  \<open>DoFile\<close>: running a file gives new globals and possibly an error text; the failed check throws.
\<close>

type_synonym 'n lua_run = "string \<Rightarrow> 'n lua_globals \<Rightarrow> string option \<times> 'n lua_globals"

definition DoFile :: "tm \<Rightarrow> place \<Rightarrow> 'n lua_run \<Rightarrow> string \<Rightarrow> 'n luastate \<Rightarrow> assert_entry list
    \<Rightarrow> bool outcome \<times> assert_entry list \<times> 'n luastate" where
  "DoFile ltm pl run strName ls log =
     (let (err, globals) = run (c_string strName) (ls_globals ls);
          ls1 = ls\<lparr>ls_globals := globals\<rparr>
      in case err of
           None \<Rightarrow> (Ok True, log, ls1)
         | Some sErrorStr \<Rightarrow>
             (case AssertEx ltm pl False ''false'' (c_string sErrorStr) log of
                (Raised e, log1) \<Rightarrow> (Raised e, log1, ls1)
              | (Ok _, log1) \<Rightarrow> (Ok False, log1, ls1)))"

text \<open>\<open>close\<close> forgets the globals and the cache.\<close>

definition luastate_close :: "'n luastate \<Rightarrow> 'n luastate" where
  "luastate_close ls = ls\<lparr>ls_globals := \<lparr>lg_value = \<lambda>_. LNil, lg_tables = \<lambda>_. []\<rparr>, m_CacheObjs := Map.empty\<rparr>"

text \<open>The typed lookups.\<close>

definition lookup_int :: "tm \<Rightarrow> place \<Rightarrow> 'n lua_numbers \<Rightarrow> 'n luastate \<Rightarrow> string \<Rightarrow> (tint32 checked \<times> 'n luastate) option" where
  "lookup_int ltm pl ops ls strName =
     map_option (\<lambda>(r, ls1). (case r of Some ob \<Rightarrow> ToInt ltm pl ops ob | None \<Rightarrow> Pair (Ok 0), ls1))
       (GetLuaObjectFromCache ops ls strName)"

definition lookup_string :: "tm \<Rightarrow> place \<Rightarrow> 'n lua_numbers \<Rightarrow> 'n luastate \<Rightarrow> string \<Rightarrow> (string checked \<times> 'n luastate) option" where
  "lookup_string ltm pl ops ls strName =
     map_option (\<lambda>(r, ls1). (case r of Some ob \<Rightarrow> ToString ltm pl ops ob | None \<Rightarrow> Pair (Ok []), ls1))
       (GetLuaObjectFromCache ops ls strName)"

section \<open>Config\<close>

text \<open>The configuration: \<open>None\<close> before \<open>Init\<close>; a new state has the globals of the library.\<close>

record 'n config =
  cfg_state :: "'n luastate option"
  m_strLogPath :: string

definition Config_Clear :: "'n config" where
  "Config_Clear = \<lparr>cfg_state = None, m_strLogPath = []\<rparr>"

definition Config_GetLuaObject :: "'n lua_numbers \<Rightarrow> 'n config \<Rightarrow> string \<Rightarrow> ('n luaobject option \<times> 'n config) option" where
  "Config_GetLuaObject ops c strName =
     (case cfg_state c of
        None \<Rightarrow> Some (None, c)
      | Some ls \<Rightarrow> map_option (\<lambda>(r, ls1). (r, c\<lparr>cfg_state := Some ls1\<rparr>)) (GetLuaObjectFromCache ops ls strName))"

definition Config_Init :: "tm \<Rightarrow> place \<Rightarrow> 'n lua_numbers \<Rightarrow> 'n lua_run \<Rightarrow> 'n lua_globals \<Rightarrow> assert_entry list
    \<Rightarrow> (bool outcome \<times> assert_entry list \<times> 'n config) option" where
  "Config_Init ltm pl ops run globals log =
     (let fresh = \<lparr>ls_globals = globals, m_CacheObjs = Map.empty\<rparr>;
          cfg = (\<lambda>ls path. \<lparr>cfg_state = Some ls, m_strLogPath = path\<rparr>)
      in case DoFile ltm pl run ''./Script/config.lua'' fresh log of
           (Raised e, log1, ls1) \<Rightarrow> Some (Raised e, log1, cfg ls1 [])
         | (Ok _, log1, ls1) \<Rightarrow>
             (case DoFile ltm pl run ''./Script/service.lua'' ls1 log1 of
                (Raised e, log2, ls2) \<Rightarrow> Some (Raised e, log2, cfg ls2 [])
              | (Ok _, log2, ls2) \<Rightarrow>
                  map_option (\<lambda>(get, ls3).
                    (case get log2 of
                       (Ok path, log3) \<Rightarrow> (Ok True, log3, cfg ls3 path)
                     | (Raised e, log3) \<Rightarrow> (Raised e, log3, cfg ls3 [])))
                    (lookup_string ltm pl ops ls2 ''LogFilePath'')))"

end
