(* ===== verification/LuaObjectProps.thy ===== *)
theory LuaObjectProps
  imports LuaObject
begin

text \<open>
  The lookups of \<open>LuaObject\<close> against reference definitions: the tree of objects against the values of
  Lua, and the cache against a lookup that reads the globals each time.
\<close>

section \<open>The tree of objects\<close>

text \<open>
  The reference: the value a path of names leads to through the heap. Of several entries whose keys give one name the last
  readable one counts, and the entries from the first key that is no name on are not seen; nothing is read below an array.
\<close>

definition is_readable :: "'n lua_numbers \<Rightarrow> (nat \<Rightarrow> 'n lua_entries) \<Rightarrow> 'n lua_value \<Rightarrow> bool" where
  "is_readable ops tb v = (case v of LNumber n \<Rightarrow> True | LString s \<Rightarrow> True | LTable t \<Rightarrow> \<not> is_array ops (tb t) | _ \<Rightarrow> False)"

definition followed :: "'n lua_numbers \<Rightarrow> 'n lua_entries \<Rightarrow> 'n lua_entries" where
  "followed ops kvs = takeWhile (\<lambda>(k, v). key_name ops k \<noteq> None) kvs"

definition named_entries :: "'n lua_numbers \<Rightarrow> (nat \<Rightarrow> 'n lua_entries) \<Rightarrow> string \<Rightarrow> 'n lua_entries \<Rightarrow> 'n lua_entries" where
  "named_entries ops tb n kvs = filter (\<lambda>(k, v). key_name ops k = Some n \<and> is_readable ops tb v) (followed ops kvs)"

fun value_at :: "'n lua_numbers \<Rightarrow> (nat \<Rightarrow> 'n lua_entries) \<Rightarrow> 'n lua_value \<Rightarrow> string list \<Rightarrow> 'n luaobject option" where
  "value_at ops tb v [] = (case GetLuaObjectFromStack ops tb v of None \<Rightarrow> None | Some ob \<Rightarrow> ob)"
| "value_at ops tb (LTable t) (n # ns) =
     (if is_array ops (tb t) \<or> named_entries ops tb n (tb t) = [] then None
      else value_at ops tb (snd (last (named_entries ops tb n (tb t)))) ns)"
| "value_at ops tb _ (n # ns) = None"

text \<open>The values whose reading ends: below them no chain of tables goes on for ever.\<close>

inductive ends :: "'n lua_numbers \<Rightarrow> (nat \<Rightarrow> 'n lua_entries) \<Rightarrow> 'n lua_value \<Rightarrow> bool" for ops tb where
  ends: "(\<And>t k w. v = LTable t \<Longrightarrow> \<not> is_array ops (tb t) \<Longrightarrow> (k, w) \<in> set (followed ops (tb t)) \<Longrightarrow> ends ops tb w) \<Longrightarrow> ends ops tb v"

inductive_cases ends_tableE: "ends ops tb (LTable t)"

lemma followed_simps [simp]:
  "followed ops [] = []"
  "followed ops ((k, v) # kvs) = (if key_name ops k = None then [] else (k, v) # followed ops kvs)"
  by (simp_all add: followed_def)

lemma obj_find_append: "obj_find (m @ m') k = (case obj_find m k of None \<Rightarrow> obj_find m' k | Some v \<Rightarrow> Some v)"
  by (induction m) auto

lemma obj_find_filter: "obj_find (filter (\<lambda>p. fst p \<noteq> k) m) k' = (if k' = k then None else obj_find m k')"
  by (induction m) auto

lemma obj_find_put [simp]: "obj_find (obj_put m k v) k' = (if k' = k then Some v else obj_find m k')"
  by (simp add: obj_put_def obj_find_append obj_find_filter split: option.splits)

lemma named_entries_Nil [simp]: "named_entries ops tb n [] = []"
  by (simp add: named_entries_def)

lemma named_entries_Cons:
  "named_entries ops tb n ((k, v) # kvs) =
     (case key_name ops k of
        None \<Rightarrow> []
      | Some s \<Rightarrow> (if s = n \<and> is_readable ops tb v then [(k, v)] else []) @ named_entries ops tb n kvs)"
  by (auto simp: named_entries_def split: option.splits)

lemma readable_object: "GetLuaObjectFromStack ops tb v = Some ob \<Longrightarrow> ob \<noteq> None \<longleftrightarrow> is_readable ops tb v"
  by (auto simp: GetLuaObjectFromStack_def is_readable_def split: lua_value.splits if_splits)

text \<open>A reading that ends is one of a value that \<open>ends\<close>, and the other way round.\<close>

lemma GetFromStack_all_end:
  assumes "GetFromStack ops tb m kvs = Some m'"
  shows "\<forall>(k, w) \<in> set (followed ops kvs). ends ops tb w"
  using assms
proof (rule GetFromStack.raw_induct [where P = "\<lambda>ops tb m kvs m'. \<forall>(k, w) \<in> set (followed ops kvs). ends ops tb w", rotated],
    goal_cases)
  case (1 get ops tb m kvs m')
  note IH = 1(1) and run = 1(2)
  show ?case
  proof (cases kvs)
    case (Cons kv rest)
    obtain k v where kv: "kv = (k, v)" by (cases kv)
    show ?thesis
    proof (cases "key_name ops k")
      case (Some n)
      have "\<exists>m1 m2. get ops tb m1 rest = Some m2" using run
        by (auto simp: Cons kv Some bind_eq_Some_conv split: lua_value.splits if_splits)
      then have rest: "\<forall>(k, w) \<in> set (followed ops rest). ends ops tb w" using IH by blast
      have "ends ops tb v"
      proof (rule ends.ends)
        fix t k' w
        assume t: "v = LTable t" "\<not> is_array ops (tb t)" "(k', w) \<in> set (followed ops (tb t))"
        then have "\<exists>m1. get ops tb [] (tb t) = Some m1" using run by (auto simp: Cons kv Some bind_eq_Some_conv)
        then show "ends ops tb w" using IH t(3) by blast
      qed
      then show ?thesis using rest by (simp add: Cons kv Some)
    qed (simp add: Cons kv)
  qed simp
qed

lemma GetFromStack_ends:
  "\<forall>(k, w) \<in> set (followed ops kvs). \<exists>ob. GetLuaObjectFromStack ops tb w = Some ob \<Longrightarrow> \<exists>m'. GetFromStack ops tb m kvs = Some m'"
proof (induction kvs arbitrary: m)
  case (Cons kv kvs)
  obtain k v where kv: "kv = (k, v)" by (cases kv)
  show ?case
  proof (cases "key_name ops k")
    case (Some n)
    then obtain ob where "GetLuaObjectFromStack ops tb v = Some ob" using Cons.prems by (auto simp: kv)
    then show ?thesis using Cons.IH Cons.prems Some by (simp add: kv GetFromStack_Cons)
  qed (simp add: kv GetFromStack_Cons)
qed simp

lemma object_ends: "ends ops tb v \<longleftrightarrow> (\<exists>ob. GetLuaObjectFromStack ops tb v = Some ob)"
proof
  show "ends ops tb v \<Longrightarrow> \<exists>ob. GetLuaObjectFromStack ops tb v = Some ob"
  proof (induction rule: ends.induct)
    case (ends v)
    show ?case
    proof (cases v)
      case (LTable t)
      show ?thesis
      proof (cases "is_array ops (tb t)")
        case False
        then have "\<forall>(k, w) \<in> set (followed ops (tb t)). \<exists>ob. GetLuaObjectFromStack ops tb w = Some ob" using ends LTable by blast
        then obtain m where "GetFromStack ops tb [] (tb t) = Some m" using GetFromStack_ends by blast
        then show ?thesis by (simp add: GetLuaObjectFromStack_def LTable)
      qed (simp add: GetLuaObjectFromStack_def LTable)
    qed (simp_all add: GetLuaObjectFromStack_def)
  qed
next
  assume a: "\<exists>ob. GetLuaObjectFromStack ops tb v = Some ob"
  show "ends ops tb v"
  proof (rule ends.ends)
    fix t k w
    assume t: "v = LTable t" "\<not> is_array ops (tb t)" "(k, w) \<in> set (followed ops (tb t))"
    then obtain m where "GetFromStack ops tb [] (tb t) = Some m" using a by (auto simp: GetLuaObjectFromStack_def)
    then show "ends ops tb w" using GetFromStack_all_end t(3) by blast
  qed
qed

text \<open>A table that is among its own entries cannot be read.\<close>

lemma self_table_never_read:
  assumes "(k, LTable t) \<in> set (followed ops (tb t))" "\<not> is_array ops (tb t)"
  shows "GetLuaObjectFromStack ops tb (LTable t) = None"
proof -
  have "ends ops tb v \<Longrightarrow> v \<noteq> LTable t" for v by (induction rule: ends.induct) (use assms in blast)
  then show ?thesis using object_ends [of ops tb "LTable t"] by (cases "GetLuaObjectFromStack ops tb (LTable t)") auto
qed

lemma find_GetFromStack:
  "GetFromStack ops tb m kvs = Some m' \<Longrightarrow> obj_find m' n =
     (if named_entries ops tb n kvs = [] then obj_find m n
      else value_at ops tb (snd (last (named_entries ops tb n kvs))) [])"
proof (induction kvs arbitrary: m)
  case (Cons kv kvs)
  obtain k v where kv: "kv = (k, v)" by (cases kv)
  show ?case using Cons.prems readable_object [of ops tb v]
    by (auto simp: kv GetFromStack_Cons named_entries_Cons Cons.IH split: option.splits)
qed simp

lemma walk_path_None [simp]: "walk_path None ns = None"
  by (cases ns) simp_all

lemma named_entries_followed: "named_entries ops tb n kvs \<noteq> [] \<Longrightarrow> \<exists>k. (k, snd (last (named_entries ops tb n kvs))) \<in> set (followed ops kvs)"
proof -
  assume "named_entries ops tb n kvs \<noteq> []"
  then have "last (named_entries ops tb n kvs) \<in> set (named_entries ops tb n kvs)" by (rule last_in_set)
  then have "last (named_entries ops tb n kvs) \<in> set (followed ops kvs)" by (simp add: named_entries_def)
  then show ?thesis by (metis prod.collapse)
qed

lemma walk_value_at: "GetLuaObjectFromStack ops tb v = Some ob \<Longrightarrow> walk_path ob ns = value_at ops tb v ns"
proof (induction ops tb v ns arbitrary: ob rule: value_at.induct)
  case (2 ops tb t n ns)
  show ?case
  proof (cases "is_array ops (tb t)")
    case False
    then obtain m where m: "GetFromStack ops tb [] (tb t) = Some m" "ob = Some (luatable m)"
      using "2.prems" by (auto simp: GetLuaObjectFromStack_def)
    show ?thesis
    proof (cases "named_entries ops tb n (tb t) = []")
      case True
      then show ?thesis using find_GetFromStack [OF m(1), of n] by (simp add: m(2))
    next
      case named: False
      let ?w = "snd (last (named_entries ops tb n (tb t)))"
      have "ends ops tb ?w" using named_entries_followed [OF named] GetFromStack_all_end [OF m(1)] by blast
      then obtain ob' where ob': "GetLuaObjectFromStack ops tb ?w = Some ob'" using object_ends by blast
      then have "obj_find m n = ob'" using find_GetFromStack [OF m(1), of n] named by simp
      then show ?thesis using "2.IH" [OF _ ob'] False named by (simp add: m(2))
    qed
  qed (use "2.prems" in \<open>simp add: GetLuaObjectFromStack_def\<close>)
qed (auto simp: GetLuaObjectFromStack_def)

section \<open>The cache\<close>

text \<open>The reference: the name split at the dots, the global read anew, and the value at the rest.\<close>

definition global_at :: "'n lua_numbers \<Rightarrow> 'n lua_globals \<Rightarrow> string \<Rightarrow> 'n luaobject option" where
  "global_at ops globals strName =
     (case drop_empty_last (pieces (CHR ''.'') strName) of
        [] \<Rightarrow> None
      | root # rest \<Rightarrow> value_at ops (lg_tables globals) (lg_value globals (c_string root)) rest)"

text \<open>Whether the global of a name can be read.\<close>

definition name_ends :: "'n lua_numbers \<Rightarrow> 'n lua_globals \<Rightarrow> string \<Rightarrow> bool" where
  "name_ends ops globals strName =
     (case drop_empty_last (pieces (CHR ''.'') strName) of
        [] \<Rightarrow> True
      | root # rest \<Rightarrow> ends ops (lg_tables globals) (lg_value globals (c_string root)))"

text \<open>The cache holds objects of the globals only.\<close>

definition cache_true :: "'n lua_numbers \<Rightarrow> 'n luastate \<Rightarrow> bool" where
  "cache_true ops ls \<longleftrightarrow> (\<forall>n ob. m_CacheObjs ls n = Some ob \<longrightarrow> GetLuaObject ops ls n = Some (Some ob))"

lemma below_root_walk: "below_root ob ns = walk_path (Some ob) ns"
  by (cases ns; cases ob) (simp_all add: below_root_def table_GetLuaObject_def)

lemma cached_lookup:
  assumes "cache_true ops ls" "name_ends ops (ls_globals ls) n"
  shows "\<exists>ls1. GetLuaObjectFromCache ops ls n = Some (global_at ops (ls_globals ls) n, ls1)
    \<and> cache_true ops ls1 \<and> ls_globals ls1 = ls_globals ls"
proof (cases "drop_empty_last (pieces (CHR ''.'') n)")
  case Nil
  thus ?thesis using assms by (simp add: GetLuaObjectFromCache_def SplitString_pieces global_at_def)
next
  case (Cons root rest)
  obtain ob where ob: "GetLuaObject ops ls root = Some ob"
    using assms(2) by (auto simp: name_ends_def Cons GetLuaObject_def object_ends)
  have at: "global_at ops (ls_globals ls) n = walk_path ob rest"
    using walk_value_at [OF ob [unfolded GetLuaObject_def]] by (simp add: global_at_def Cons)
  show ?thesis
  proof (cases "m_CacheObjs ls root")
    case (Some ob')
    with assms ob have "ob = Some ob'" by (simp add: cache_true_def)
    thus ?thesis using assms Some
      by (simp add: GetLuaObjectFromCache_def SplitString_pieces Cons at below_root_walk)
  next
    case None
    show ?thesis using assms None ob
      by (cases ob) (auto simp: GetLuaObjectFromCache_def SplitString_pieces Cons at below_root_walk cache_true_def GetLuaObject_def)
  qed
qed

lemma cached_lookup_never:
  assumes "cache_true ops ls" "\<not> name_ends ops (ls_globals ls) n"
  shows "GetLuaObjectFromCache ops ls n = None"
proof (cases "drop_empty_last (pieces (CHR ''.'') n)")
  case (Cons root rest)
  have none: "GetLuaObject ops ls root = None"
    using assms(2) by (simp add: name_ends_def Cons GetLuaObject_def object_ends)
  then have "m_CacheObjs ls root = None" using assms(1) by (cases "m_CacheObjs ls root") (auto simp: cache_true_def)
  thus ?thesis by (simp add: GetLuaObjectFromCache_def SplitString_pieces Cons none)
qed (use assms(2) in \<open>simp add: name_ends_def\<close>)

text \<open>A run of lookups through the configuration.\<close>

fun config_lookups :: "'n lua_numbers \<Rightarrow> 'n config \<Rightarrow> string list \<Rightarrow> 'n luaobject option list option" where
  "config_lookups ops c [] = Some []"
| "config_lookups ops c (n # ns) =
     (case Config_GetLuaObject ops c n of
        None \<Rightarrow> None
      | Some (r, c1) \<Rightarrow> map_option ((#) r) (config_lookups ops c1 ns))"

lemma config_lookups_true:
  "cfg_state c = Some ls \<Longrightarrow> cache_true ops ls \<Longrightarrow>
   config_lookups ops c ns = (if list_all (name_ends ops (ls_globals ls)) ns then Some (map (global_at ops (ls_globals ls)) ns) else None)"
proof (induction ns arbitrary: c ls)
  case (Cons n ns)
  show ?case
  proof (cases "name_ends ops (ls_globals ls) n")
    case True
    obtain ls1 where look: "GetLuaObjectFromCache ops ls n = Some (global_at ops (ls_globals ls) n, ls1)"
      and ls1: "cache_true ops ls1" "ls_globals ls1 = ls_globals ls"
      using cached_lookup [OF Cons.prems(2) True] by blast
    show ?thesis using Cons.IH [of "c\<lparr>cfg_state := Some ls1\<rparr>" ls1] True
      by (simp add: Config_GetLuaObject_def Cons.prems look ls1)
  next
    case False
    show ?thesis using cached_lookup_never [OF Cons.prems(2) False] False by (simp add: Config_GetLuaObject_def Cons.prems)
  qed
qed simp

text \<open>The globals the two scripts leave; the second one does not run when the first one fails.\<close>

definition script_globals :: "'n lua_run \<Rightarrow> 'n lua_globals \<Rightarrow> 'n lua_globals" where
  "script_globals run globals =
     (case run ''./Script/config.lua'' globals of
        (Some err, globals1) \<Rightarrow> globals1
      | (None, globals1) \<Rightarrow> snd (run ''./Script/service.lua'' globals1))"

lemma script_names [simp]:
  "c_string ''./Script/config.lua'' = ''./Script/config.lua''"
  "c_string ''./Script/service.lua'' = ''./Script/service.lua''"
  by (simp_all add: c_string_def)

lemma DoFile_cases:
  "DoFile ltm pl run n ls log = (r, log1, ls1) \<Longrightarrow>
     ls1 = ls\<lparr>ls_globals := snd (run (c_string n) (ls_globals ls))\<rparr>
     \<and> ((\<exists>e. r = Raised e) \<longleftrightarrow> fst (run (c_string n) (ls_globals ls)) \<noteq> None)"
  by (auto simp: DoFile_def Let_def macro_defs split: prod.splits option.splits outcome.splits if_splits)

text \<open>Whether both scripts ran, so that the path of the log files is looked up.\<close>

definition scripts_ran :: "'n lua_run \<Rightarrow> 'n lua_globals \<Rightarrow> bool" where
  "scripts_ran run globals \<longleftrightarrow> fst (run ''./Script/config.lua'' globals) = None \<and>
     fst (run ''./Script/service.lua'' (snd (run ''./Script/config.lua'' globals))) = None"

lemma Config_Init_state:
  "case Config_Init ltm pl ops run globals log of
     None \<Rightarrow> scripts_ran run globals \<and> \<not> name_ends ops (script_globals run globals) ''LogFilePath''
   | Some (r, log1, c) \<Rightarrow> \<exists>ls. cfg_state c = Some ls \<and> ls_globals ls = script_globals run globals \<and> cache_true ops ls"
proof -
  let ?ls0 = "\<lparr>ls_globals = globals, m_CacheObjs = Map.empty\<rparr>"
  obtain r1 log1 ls1 where f1: "DoFile ltm pl run ''./Script/config.lua'' ?ls0 log = (r1, log1, ls1)"
    by (metis prod_cases3)
  obtain r2 log2 ls2 where f2: "DoFile ltm pl run ''./Script/service.lua'' ls1 log1 = (r2, log2, ls2)"
    by (metis prod_cases3)
  note ls1 = DoFile_cases [OF f1, simplified] and ls2 = DoFile_cases [OF f2, simplified]
  have true: "cache_true ops ls1" "cache_true ops ls2" using ls1 ls2 by (simp_all add: cache_true_def)
  show ?thesis
  proof (cases r1)
    case (Raised e)
    with ls1 true f1 show ?thesis
      by (auto simp: Config_Init_def Let_def script_globals_def split: prod.splits option.splits)
  next
    case r1: (Ok b1)
    with ls1 have g1: "run ''./Script/config.lua'' globals = (None, ls_globals ls1)"
      by (cases "run ''./Script/config.lua'' globals") auto
    have g2: "ls_globals ls2 = script_globals run globals" using ls2 by (simp add: script_globals_def g1)
    show ?thesis
    proof (cases r2)
      case (Raised e)
      thus ?thesis by (simp add: Config_Init_def Let_def f1 r1 f2 g2 true)
    next
      case (Ok b2)
      then have ran: "scripts_ran run globals" using ls2 by (auto simp: scripts_ran_def g1)
      show ?thesis
      proof (cases "name_ends ops (ls_globals ls2) ''LogFilePath''")
        case True
        obtain r ls3 where look: "GetLuaObjectFromCache ops ls2 ''LogFilePath'' = Some (r, ls3)"
          "cache_true ops ls3" "ls_globals ls3 = ls_globals ls2"
          using cached_lookup [OF true(2) True] by blast
        show ?thesis using Ok
          by (auto simp: Config_Init_def Let_def f1 r1 f2 look g2 lookup_string_def split: outcome.splits prod.splits)
      next
        case False
        show ?thesis using cached_lookup_never [OF true(2) False] Ok ran False
          by (simp add: Config_Init_def Let_def f1 r1 f2 lookup_string_def g2)
      qed
    qed
  qed
qed

section \<open>Properties\<close>

text \<open>C33: The configuration's cache does not show: once \<open>Config::Init\<close> has run, whatever dotted names are
  looked up and in whatever order, each lookup gives the object that a fresh read of the global and a walk
  along the Lua tables gives, with the last of several entries of one name, nothing below an array, and none of the
  entries behind a key that is neither a text nor a number. The lookups return exactly when none of the names starts with a
  global below which a chain of tables goes on for ever, as below \<open>_G\<close>. \<open>Init\<close> itself returns unless both scripts ran and
  left such a table as the path of the log files; a
  script that fails, or a log path that is no text, makes \<open>Init\<close> throw but leaves the rest true for the
  globals the scripts have set.\<close>

theorem config_lookups_agree:
  "case Config_Init ltm pl ops run globals log of
     None \<Rightarrow> scripts_ran run globals \<and> \<not> name_ends ops (script_globals run globals) ''LogFilePath''
   | Some (r, log1, c) \<Rightarrow> config_lookups ops c names =
       (if list_all (name_ends ops (script_globals run globals)) names
        then Some (map (global_at ops (script_globals run globals)) names) else None)"
  using Config_Init_state [where ltm = ltm and pl = pl and ops = ops and run = run and globals = globals and log = log]
  by (auto simp: config_lookups_true split: option.splits)

text \<open>The global table itself, an entry of its own, is never read.\<close>

theorem global_table_never_read:
  assumes "lg_value globals ''_G'' = LTable t" "lg_tables globals t = (KString ''_G'', LTable t) # rest"
    and "\<not> is_array ops (lg_tables globals t)"
  shows "\<not> name_ends ops globals ''_G''"
proof -
  have "(KString ''_G'', LTable t) \<in> set (followed ops (lg_tables globals t))" by (simp add: assms(2))
  then have "GetLuaObjectFromStack ops (lg_tables globals) (LTable t) = None" using assms(3) by (rule self_table_never_read)
  then show ?thesis by (simp add: name_ends_def drop_empty_last_def c_string_def assms(1) object_ends)
qed

theorem global_table_never_read_witness:
  "\<not> name_ends \<lparr>num_to_int = word_of_int, num_is_one = (\<lambda>n. n = 1), num_text = show_int\<rparr>
     \<lparr>lg_value = (\<lambda>n. if n = ''_G'' then LTable 0 else LNil), lg_tables = (\<lambda>_. [(KString ''_G'', LTable 0), (KString ''x'', LNumber (5 :: int))])\<rparr> ''_G''"
  by (rule global_table_never_read [where t = 0 and rest = "[(KString ''x'', LNumber 5)]"]) (simp_all add: is_array_def)

end
