(* ===== verification/LuaApi.thy ===== *)
theory LuaApi
  imports Prelude "HOL-Library.Log_Nat"
begin

text \<open>
  The functions of the Lua library that the class binder calls: \<open>lib/lua/include/lapi.c\<close>,
  \<open>lib/lua/include/lauxlib.c\<close>, and what they use of \<open>lvm.c\<close>, \<open>ltm.c\<close>, \<open>ltable.c\<close> and \<open>lobject.c\<close>.
  The stack is that of the running C function, its bottom first. Tables, user data and closures are
  objects with numbers, and \<open>L_next\<close> is the first number not in use; nothing is collected. A table is the
  function from keys to values, so its array and hash parts are not told apart. The room on the stack
  is not counted. The checks of \<open>api_check\<close> are off, as they are in the library's build: what would
  leave the stack is \<open>Undefined\<close>. A tag method that is a function leads back into the interpreter, which
  is not modelled: \<open>CallsFunction\<close>.
\<close>

section \<open>Values and state\<close>

text \<open>Numbers are doubles, by their bits; a light pointer is an address, 0 the null pointer.\<close>

datatype tvalue =
    TNil
  | TBoolean bool
  | TLight nat
  | TNumber tuint64
  | TString string
  | TTable nat
  | TFunction nat
  | TUser nat

record lua_table =
  t_values :: "tvalue \<Rightarrow> tvalue"
  t_meta :: "nat option"

text \<open>A full user datum is a block of memory, of which only a pointer's worth is used.\<close>

record lua_udata =
  u_block :: "nat option"
  u_meta :: "nat option"

record lua_closure =
  c_fun :: string
  c_env :: nat

text \<open>\<open>L_func\<close> is the C function that runs, \<open>L_typemeta\<close> the metatables of the other types.\<close>

record lua_state =
  L_stack :: "tvalue list"
  L_tables :: "nat \<Rightarrow> lua_table"
  L_users :: "nat \<Rightarrow> lua_udata"
  L_closures :: "nat \<Rightarrow> lua_closure"
  L_next :: nat
  L_registry :: tvalue
  L_globals :: tvalue
  L_typemeta :: "int \<Rightarrow> nat option"
  L_func :: "nat option"

datatype lua_error =
    TypeErrorIndex
  | LoopInGettable
  | LoopInSettable
  | TableIndexIsNil
  | TableIndexIsNaN
  | NoCallingEnvironment
  | NameConflict string
  | ArgError int string

text \<open>A value, an error on its way to the protected call, a call of a function, or none of these.\<close>

datatype 'a lua_out =
    Done 'a
  | LuaError lua_error lua_state
  | CallsFunction nat
  | Undefined

fun lua_then :: "'a lua_out \<Rightarrow> ('a \<Rightarrow> 'b lua_out) \<Rightarrow> 'b lua_out" where
  "lua_then (Done x) f = f x"
| "lua_then (LuaError e L) f = LuaError e L"
| "lua_then (CallsFunction g) f = CallsFunction g"
| "lua_then Undefined f = Undefined"

text \<open>One call after the other.\<close>

fun lua_do :: "(lua_state \<Rightarrow> lua_state lua_out) list \<Rightarrow> lua_state \<Rightarrow> lua_state lua_out" where
  "lua_do [] L = Done L"
| "lua_do (f # fs) L = lua_then (f L) (lua_do fs)"

fun ttype :: "tvalue \<Rightarrow> int" where
  "ttype TNil = 0"
| "ttype (TBoolean b) = 1"
| "ttype (TLight p) = 2"
| "ttype (TNumber n) = 3"
| "ttype (TString s) = 4"
| "ttype (TTable t) = 5"
| "ttype (TFunction f) = 6"
| "ttype (TUser u) = 7"

definition luaT_typenames :: "string list" where
  "luaT_typenames = [''nil'', ''boolean'', ''userdata'', ''number'', ''string'', ''table'', ''function'', ''userdata'', ''thread'']"

section \<open>Comparing and tables\<close>

definition double_nan :: "tuint64 \<Rightarrow> bool" where
  "double_nan n \<longleftrightarrow> take_bit 63 n > 0x7FF0000000000000"

definition luai_numeq :: "tuint64 \<Rightarrow> tuint64 \<Rightarrow> bool" where
  "luai_numeq a b \<longleftrightarrow> \<not> double_nan a \<and> \<not> double_nan b \<and> (a = b \<or> take_bit 63 a = 0 \<and> take_bit 63 b = 0)"

fun luaO_rawequalObj :: "tvalue \<Rightarrow> tvalue \<Rightarrow> bool" where
  "luaO_rawequalObj (TNumber a) (TNumber b) = luai_numeq a b"
| "luaO_rawequalObj o1 o2 = (o1 = o2)"

text \<open>Keys that compare equal are one key: both zeros.\<close>

definition key_form :: "tvalue \<Rightarrow> tvalue" where
  "key_form k = (case k of TNumber n \<Rightarrow> if take_bit 63 n = 0 then TNumber 0 else k | _ \<Rightarrow> k)"

definition luaH_get :: "lua_state \<Rightarrow> nat \<Rightarrow> tvalue \<Rightarrow> tvalue" where
  "luaH_get L h key =
     (case key of
        TNil \<Rightarrow> TNil
      | TNumber n \<Rightarrow> if double_nan n then TNil else t_values (L_tables L h) (key_form key)
      | _ \<Rightarrow> t_values (L_tables L h) key)"

text \<open>\<open>luaH_set\<close> gives the place, into which the caller stores the value.\<close>

definition luaH_set :: "lua_state \<Rightarrow> nat \<Rightarrow> tvalue \<Rightarrow> tvalue \<Rightarrow> lua_state lua_out" where
  "luaH_set L h key val =
     (let store = Done (L\<lparr>L_tables := (L_tables L)(h := (L_tables L h)
                    \<lparr>t_values := (t_values (L_tables L h))(key_form key := val)\<rparr>)\<rparr>)
      in case key of
           TNil \<Rightarrow> LuaError TableIndexIsNil L
         | TNumber n \<Rightarrow> if double_nan n then LuaError TableIndexIsNaN L else store
         | _ \<Rightarrow> store)"

text \<open>Tag methods: of a metatable, and of any object's metatable.\<close>

definition fasttm :: "lua_state \<Rightarrow> nat option \<Rightarrow> string \<Rightarrow> tvalue option" where
  "fasttm L mt event =
     (case mt of
        None \<Rightarrow> None
      | Some m \<Rightarrow> let tm = luaH_get L m (TString event) in if tm = TNil then None else Some tm)"

definition metatable_of :: "lua_state \<Rightarrow> tvalue \<Rightarrow> nat option" where
  "metatable_of L ob =
     (case ob of TTable h \<Rightarrow> t_meta (L_tables L h) | TUser u \<Rightarrow> u_meta (L_users L u) | _ \<Rightarrow> L_typemeta L (ttype ob))"

definition luaT_gettmbyobj :: "lua_state \<Rightarrow> tvalue \<Rightarrow> string \<Rightarrow> tvalue" where
  "luaT_gettmbyobj L ob event = (case metatable_of L ob of Some m \<Rightarrow> luaH_get L m (TString event) | None \<Rightarrow> TNil)"

definition MAXTAGLOOP :: nat where "MAXTAGLOOP = 100"

text \<open>The loops of \<open>luaV_gettable\<close> and \<open>luaV_settable\<close>, with the rounds that are left.\<close>

fun gettable_loop :: "nat \<Rightarrow> lua_state \<Rightarrow> tvalue \<Rightarrow> tvalue \<Rightarrow> tvalue lua_out" where
  "gettable_loop 0 L t key = LuaError LoopInGettable L"
| "gettable_loop (Suc n) L t key =
     (let again = (\<lambda>tm. case tm of TFunction f \<Rightarrow> CallsFunction f | _ \<Rightarrow> gettable_loop n L tm key)
      in case t of
           TTable h \<Rightarrow>
             (let res = luaH_get L h key
              in if res \<noteq> TNil then Done res
                 else case fasttm L (t_meta (L_tables L h)) ''__index'' of None \<Rightarrow> Done res | Some tm \<Rightarrow> again tm)
         | _ \<Rightarrow>
             (let tm = luaT_gettmbyobj L t ''__index''
              in if tm = TNil then LuaError TypeErrorIndex L else again tm))"

definition luaV_gettable :: "lua_state \<Rightarrow> tvalue \<Rightarrow> tvalue \<Rightarrow> tvalue lua_out" where
  "luaV_gettable L t key = gettable_loop MAXTAGLOOP L t key"

fun settable_loop :: "nat \<Rightarrow> lua_state \<Rightarrow> tvalue \<Rightarrow> tvalue \<Rightarrow> tvalue \<Rightarrow> lua_state lua_out" where
  "settable_loop 0 L t key val = LuaError LoopInSettable L"
| "settable_loop (Suc n) L t key val =
     (let again = (\<lambda>tm. case tm of TFunction f \<Rightarrow> CallsFunction f | _ \<Rightarrow> settable_loop n L tm key val)
      in case t of
           TTable h \<Rightarrow>
             lua_then (luaH_set L h key (luaH_get L h key)) (\<lambda>L1.
               if luaH_get L h key \<noteq> TNil then luaH_set L1 h key val
               else case fasttm L1 (t_meta (L_tables L1 h)) ''__newindex'' of
                      None \<Rightarrow> luaH_set L1 h key val
                    | Some tm \<Rightarrow> again tm)
         | _ \<Rightarrow>
             (let tm = luaT_gettmbyobj L t ''__newindex''
              in if tm = TNil then LuaError TypeErrorIndex L else again tm))"

definition luaV_settable :: "lua_state \<Rightarrow> tvalue \<Rightarrow> tvalue \<Rightarrow> tvalue \<Rightarrow> lua_state lua_out" where
  "luaV_settable L t key val = settable_loop MAXTAGLOOP L t key val"

section \<open>The stack\<close>

definition LUA_REGISTRYINDEX :: int where "LUA_REGISTRYINDEX = - 10000"
definition LUA_ENVIRONINDEX :: int where "LUA_ENVIRONINDEX = - 10001"
definition LUA_GLOBALSINDEX :: int where "LUA_GLOBALSINDEX = - 10002"

text \<open>Where an index points to; the binder's C functions have no upvalues.\<close>

datatype lua_address =
    OnStack nat
  | AtRegistry
  | AtEnvironment nat
  | AtGlobals
  | NilObject
  | BadAddress

definition index2adr :: "lua_state \<Rightarrow> int \<Rightarrow> lua_address" where
  "index2adr L idx =
     (if idx > 0 then (if nat idx > length (L_stack L) then NilObject else OnStack (nat idx - 1))
      else if idx > LUA_REGISTRYINDEX
      then (if idx \<noteq> 0 \<and> nat (- idx) \<le> length (L_stack L) then OnStack (length (L_stack L) - nat (- idx)) else BadAddress)
      else if idx = LUA_REGISTRYINDEX then AtRegistry
      else if idx = LUA_ENVIRONINDEX then (case L_func L of None \<Rightarrow> BadAddress | Some f \<Rightarrow> AtEnvironment f)
      else if idx = LUA_GLOBALSINDEX then AtGlobals
      else (case L_func L of None \<Rightarrow> BadAddress | Some f \<Rightarrow> NilObject))"

fun at_address :: "lua_state \<Rightarrow> lua_address \<Rightarrow> tvalue lua_out" where
  "at_address L (OnStack i) = Done (L_stack L ! i)"
| "at_address L AtRegistry = Done (L_registry L)"
| "at_address L (AtEnvironment f) = Done (TTable (c_env (L_closures L f)))"
| "at_address L AtGlobals = Done (L_globals L)"
| "at_address L NilObject = Done TNil"
| "at_address L BadAddress = Undefined"

definition at_index :: "lua_state \<Rightarrow> int \<Rightarrow> tvalue lua_out" where
  "at_index L idx = at_address L (index2adr L idx)"

definition getcurrenv :: "lua_state \<Rightarrow> tvalue" where
  "getcurrenv L = (case L_func L of None \<Rightarrow> L_globals L | Some f \<Rightarrow> TTable (c_env (L_closures L f)))"

definition push :: "tvalue \<Rightarrow> lua_state \<Rightarrow> lua_state" where
  "push v L = L\<lparr>L_stack := L_stack L @ [v]\<rparr>"

definition lua_gettop :: "lua_state \<Rightarrow> int" where
  "lua_gettop L = int (length (L_stack L))"

definition lua_settop :: "int \<Rightarrow> lua_state \<Rightarrow> lua_state lua_out" where
  "lua_settop idx L =
     (if idx \<ge> 0
      then Done (L\<lparr>L_stack := take (nat idx) (L_stack L) @ replicate (nat idx - length (L_stack L)) TNil\<rparr>)
      else if nat (- (idx + 1)) \<le> length (L_stack L)
      then Done (L\<lparr>L_stack := take (length (L_stack L) - nat (- (idx + 1))) (L_stack L)\<rparr>)
      else Undefined)"

definition lua_pop :: "int \<Rightarrow> lua_state \<Rightarrow> lua_state lua_out" where
  "lua_pop n L = lua_settop (- n - 1) L"

definition lua_remove :: "int \<Rightarrow> lua_state \<Rightarrow> lua_state lua_out" where
  "lua_remove idx L =
     (case index2adr L idx of
        OnStack i \<Rightarrow> Done (L\<lparr>L_stack := take i (L_stack L) @ drop (Suc i) (L_stack L)\<rparr>)
      | _ \<Rightarrow> Undefined)"

definition lua_insert :: "int \<Rightarrow> lua_state \<Rightarrow> lua_state lua_out" where
  "lua_insert idx L =
     (case index2adr L idx of
        OnStack i \<Rightarrow> Done (L\<lparr>L_stack := take i (L_stack L) @ last (L_stack L) # drop i (butlast (L_stack L))\<rparr>)
      | _ \<Rightarrow> Undefined)"

definition lua_pushvalue :: "int \<Rightarrow> lua_state \<Rightarrow> lua_state lua_out" where
  "lua_pushvalue idx L = lua_then (at_index L idx) (\<lambda>v. Done (push v L))"

definition lua_replace :: "int \<Rightarrow> lua_state \<Rightarrow> lua_state lua_out" where
  "lua_replace idx L =
     (if idx = LUA_ENVIRONINDEX \<and> L_func L = None then LuaError NoCallingEnvironment L
      else if L_stack L = [] then Undefined
      else
        let v = last (L_stack L); rest = butlast (L_stack L); L1 = L\<lparr>L_stack := rest\<rparr>
        in case index2adr L idx of
             OnStack i \<Rightarrow> Done (L\<lparr>L_stack := butlast ((L_stack L)[i := v])\<rparr>)
           | AtRegistry \<Rightarrow> Done (L1\<lparr>L_registry := v\<rparr>)
           | AtGlobals \<Rightarrow> Done (L1\<lparr>L_globals := v\<rparr>)
           | AtEnvironment f \<Rightarrow>
               (case v of
                  TTable h \<Rightarrow> Done (L1\<lparr>L_closures := (L_closures L)(f := (L_closures L f)\<lparr>c_env := h\<rparr>)\<rparr>)
                | _ \<Rightarrow> Undefined)
           | _ \<Rightarrow> Undefined)"

section \<open>Reading values\<close>

definition lua_type :: "lua_state \<Rightarrow> int \<Rightarrow> int lua_out" where
  "lua_type L idx =
     (case index2adr L idx of NilObject \<Rightarrow> Done (- 1) | a \<Rightarrow> lua_then (at_address L a) (\<lambda>v. Done (ttype v)))"

definition lua_typename :: "int \<Rightarrow> string" where
  "lua_typename t = (if t = - 1 then ''no value'' else luaT_typenames ! nat t)"

definition lua_isnil :: "lua_state \<Rightarrow> int \<Rightarrow> bool lua_out" where
  "lua_isnil L idx = lua_then (lua_type L idx) (\<lambda>t. Done (t = 0))"

definition lua_istable :: "lua_state \<Rightarrow> int \<Rightarrow> bool lua_out" where
  "lua_istable L idx = lua_then (lua_type L idx) (\<lambda>t. Done (t = 5))"

definition lua_rawequal :: "lua_state \<Rightarrow> int \<Rightarrow> int \<Rightarrow> bool lua_out" where
  "lua_rawequal L i1 i2 =
     (if index2adr L i1 = BadAddress \<or> index2adr L i2 = BadAddress then Undefined
      else if index2adr L i1 = NilObject \<or> index2adr L i2 = NilObject then Done False
      else lua_then (at_index L i1) (\<lambda>o1. lua_then (at_index L i2) (\<lambda>o2. Done (luaO_rawequalObj o1 o2))))"

datatype lua_pointer = NullPointer | BlockOf nat | PlainPointer nat

definition lua_touserdata :: "lua_state \<Rightarrow> int \<Rightarrow> lua_pointer lua_out" where
  "lua_touserdata L idx =
     lua_then (at_index L idx) (\<lambda>v. Done
       (case v of TUser u \<Rightarrow> BlockOf u
                | TLight p \<Rightarrow> if p = 0 then NullPointer else PlainPointer p
                | _ \<Rightarrow> NullPointer))"

section \<open>Pushing values\<close>

definition lua_pushstring :: "string \<Rightarrow> lua_state \<Rightarrow> lua_state lua_out" where
  "lua_pushstring s L = Done (push (TString s) L)"

definition lua_pushnumber :: "tuint64 \<Rightarrow> lua_state \<Rightarrow> lua_state lua_out" where
  "lua_pushnumber n L = Done (push (TNumber n) L)"

text \<open>The double next to an integer, halves to the even one.\<close>

definition round_half_even :: "nat \<Rightarrow> nat \<Rightarrow> nat" where
  "round_half_even m d =
     (let q = m div d; r = m mod d in if 2 * r < d then q else if 2 * r > d then q + 1 else q + q mod 2)"

definition double_of_nat :: "nat \<Rightarrow> nat" where
  "double_of_nat m =
     (if m = 0 then 0
      else let e = floorlog 2 m - 1;
               f = (if e \<le> 52 then m * 2 ^ (52 - e) else round_half_even m (2 ^ (e - 52)))
           in (e + 1023) * 2 ^ 52 + f - 2 ^ 52)"

definition cast_num :: "int \<Rightarrow> tuint64" where
  "cast_num n = word_of_nat (double_of_nat (nat (abs n)) + (if n < 0 then 2 ^ 63 else 0))"

definition lua_pushinteger :: "tuint64 \<Rightarrow> lua_state \<Rightarrow> lua_state lua_out" where
  "lua_pushinteger n L = lua_pushnumber (cast_num (sint n)) L"

definition lua_pushboolean :: "bool \<Rightarrow> lua_state \<Rightarrow> lua_state lua_out" where
  "lua_pushboolean b L = Done (push (TBoolean b) L)"

definition lua_pushnil :: "lua_state \<Rightarrow> lua_state lua_out" where
  "lua_pushnil L = Done (push TNil L)"

definition lua_pushlightuserdata :: "nat \<Rightarrow> lua_state \<Rightarrow> lua_state lua_out" where
  "lua_pushlightuserdata p L = Done (push (TLight p) L)"

definition empty_table :: lua_table where
  "empty_table = \<lparr>t_values = (\<lambda>k. TNil), t_meta = None\<rparr>"

definition lua_newtable :: "lua_state \<Rightarrow> lua_state lua_out" where
  "lua_newtable L =
     Done (push (TTable (L_next L)) (L\<lparr>L_tables := (L_tables L)(L_next L := empty_table), L_next := Suc (L_next L)\<rparr>))"

text \<open>The new object's block is not initialised. The environment of a user datum is never used.\<close>

definition lua_newuserdata :: "lua_state \<Rightarrow> (nat \<times> lua_state) lua_out" where
  "lua_newuserdata L =
     Done (L_next L, push (TUser (L_next L))
       (L\<lparr>L_users := (L_users L)(L_next L := \<lparr>u_block = None, u_meta = None\<rparr>), L_next := Suc (L_next L)\<rparr>))"

definition lua_pushcfunction :: "string \<Rightarrow> lua_state \<Rightarrow> lua_state lua_out" where
  "lua_pushcfunction fn L =
     (case getcurrenv L of
        TTable e \<Rightarrow>
          Done (push (TFunction (L_next L))
            (L\<lparr>L_closures := (L_closures L)(L_next L := \<lparr>c_fun = fn, c_env = e\<rparr>), L_next := Suc (L_next L)\<rparr>))
      | _ \<Rightarrow> Undefined)"

section \<open>Tables on the stack\<close>

definition lua_getfield :: "int \<Rightarrow> string \<Rightarrow> lua_state \<Rightarrow> lua_state lua_out" where
  "lua_getfield idx k L =
     lua_then (at_index L idx) (\<lambda>t. lua_then (luaV_gettable L t (TString k)) (\<lambda>v. Done (push v L)))"

definition lua_rawget :: "int \<Rightarrow> lua_state \<Rightarrow> lua_state lua_out" where
  "lua_rawget idx L =
     lua_then (at_index L idx) (\<lambda>t.
       case t of
         TTable h \<Rightarrow> if L_stack L = [] then Undefined
           else Done (L\<lparr>L_stack := butlast (L_stack L) @ [luaH_get L h (last (L_stack L))]\<rparr>)
       | _ \<Rightarrow> Undefined)"

definition lua_getmetatable :: "int \<Rightarrow> lua_state \<Rightarrow> (bool \<times> lua_state) lua_out" where
  "lua_getmetatable idx L =
     lua_then (at_index L idx) (\<lambda>ob.
       case metatable_of L ob of None \<Rightarrow> Done (False, L) | Some mt \<Rightarrow> Done (True, push (TTable mt) L))"

definition lua_setfield :: "int \<Rightarrow> string \<Rightarrow> lua_state \<Rightarrow> lua_state lua_out" where
  "lua_setfield idx k L =
     (if L_stack L = [] then Undefined
      else lua_then (at_index L idx) (\<lambda>t.
        lua_then (luaV_settable L t (TString k) (last (L_stack L))) (\<lambda>L1. Done (L1\<lparr>L_stack := butlast (L_stack L1)\<rparr>))))"

definition lua_settable :: "int \<Rightarrow> lua_state \<Rightarrow> lua_state lua_out" where
  "lua_settable idx L =
     (if length (L_stack L) < 2 then Undefined
      else lua_then (at_index L idx) (\<lambda>t.
        lua_then (luaV_settable L t (last (butlast (L_stack L))) (last (L_stack L)))
          (\<lambda>L1. Done (L1\<lparr>L_stack := butlast (butlast (L_stack L1))\<rparr>))))"

definition lua_rawset :: "int \<Rightarrow> lua_state \<Rightarrow> lua_state lua_out" where
  "lua_rawset idx L =
     (if length (L_stack L) < 2 then Undefined
      else lua_then (at_index L idx) (\<lambda>t.
        case t of
          TTable h \<Rightarrow> lua_then (luaH_set L h (last (butlast (L_stack L))) (last (L_stack L)))
                       (\<lambda>L1. Done (L1\<lparr>L_stack := butlast (butlast (L_stack L1))\<rparr>))
        | _ \<Rightarrow> Undefined))"

text \<open>The value on top is a table or nil; it becomes the metatable of the object, or of the object's type.\<close>

definition lua_setmetatable :: "int \<Rightarrow> lua_state \<Rightarrow> lua_state lua_out" where
  "lua_setmetatable idx L =
     (if L_stack L = [] then Undefined
      else lua_then (at_index L idx) (\<lambda>ob.
        let set = (\<lambda>mt. let L1 = L\<lparr>L_stack := butlast (L_stack L)\<rparr> in Done
              (case ob of
                 TTable h \<Rightarrow> L1\<lparr>L_tables := (L_tables L)(h := (L_tables L h)\<lparr>t_meta := mt\<rparr>)\<rparr>
               | TUser u \<Rightarrow> L1\<lparr>L_users := (L_users L)(u := (L_users L u)\<lparr>u_meta := mt\<rparr>)\<rparr>
               | _ \<Rightarrow> L1\<lparr>L_typemeta := (L_typemeta L)(ttype ob := mt)\<rparr>))
        in case last (L_stack L) of TNil \<Rightarrow> set None | TTable mt \<Rightarrow> set (Some mt) | _ \<Rightarrow> Undefined))"

definition lua_setglobal :: "string \<Rightarrow> lua_state \<Rightarrow> lua_state lua_out" where
  "lua_setglobal s L = lua_setfield LUA_GLOBALSINDEX s L"

section \<open>The auxiliary library\<close>

definition luaL_getmetatable :: "string \<Rightarrow> lua_state \<Rightarrow> lua_state lua_out" where
  "luaL_getmetatable n L = lua_getfield LUA_REGISTRYINDEX n L"

text \<open>The message is that of \<open>luaL_typerror\<close>; \<open>luaL_argerror\<close> may put more around it.\<close>

definition luaL_typerror :: "lua_state \<Rightarrow> int \<Rightarrow> string \<Rightarrow> 'a lua_out" where
  "luaL_typerror L narg tname =
     lua_then (lua_type L narg) (\<lambda>t. LuaError (ArgError narg (tname @ '' expected, got '' @ lua_typename t)) L)"

definition luaL_newmetatable :: "string \<Rightarrow> lua_state \<Rightarrow> (bool \<times> lua_state) lua_out" where
  "luaL_newmetatable tname L =
     lua_then (lua_getfield LUA_REGISTRYINDEX tname L) (\<lambda>L1.
     lua_then (lua_isnil L1 (- 1)) (\<lambda>isnil.
       if \<not> isnil then Done (False, L1)
       else lua_then (lua_do [lua_pop 1, lua_newtable, lua_pushvalue (- 1), lua_setfield LUA_REGISTRYINDEX tname] L1)
              (\<lambda>L2. Done (True, L2))))"

text \<open>The pieces of the name between the dots, one round each; the result says whether a piece is no table.\<close>

fun split_dots :: "string \<Rightarrow> string list" where
  "split_dots [] = [[]]"
| "split_dots (c # cs) =
     (if c = CHR ''.'' then [] # split_dots cs else (c # hd (split_dots cs)) # tl (split_dots cs))"

definition findtable_round :: "string \<Rightarrow> lua_state \<Rightarrow> (bool \<times> lua_state) lua_out" where
  "findtable_round piece L =
     lua_then (lua_do [lua_pushstring piece, lua_rawget (- 2)] L) (\<lambda>L1.
     lua_then (lua_isnil L1 (- 1)) (\<lambda>isnil.
     lua_then (lua_istable L1 (- 1)) (\<lambda>istable.
       if isnil
       then lua_then (lua_do [lua_pop 1, lua_newtable, lua_pushstring piece, lua_pushvalue (- 2), lua_settable (- 4),
              lua_remove (- 2)] L1) (\<lambda>L2. Done (True, L2))
       else if \<not> istable then lua_then (lua_pop 2 L1) (\<lambda>L2. Done (False, L2))
       else lua_then (lua_remove (- 2) L1) (\<lambda>L2. Done (True, L2)))))"

fun findtable_loop :: "string list \<Rightarrow> lua_state \<Rightarrow> (bool \<times> lua_state) lua_out" where
  "findtable_loop [] L = Done (True, L)"
| "findtable_loop (p # ps) L =
     lua_then (findtable_round p L) (\<lambda>(ok, L1). if ok then findtable_loop ps L1 else Done (False, L1))"

definition luaL_findtable :: "int \<Rightarrow> string \<Rightarrow> lua_state \<Rightarrow> (bool \<times> lua_state) lua_out" where
  "luaL_findtable idx fname L = lua_then (lua_pushvalue idx L) (findtable_loop (split_dots fname))"

text \<open>\<open>luaL_register\<close> with a name: the library's table, found or made, with the functions in it.\<close>

definition open_lib_table :: "string \<Rightarrow> lua_state \<Rightarrow> lua_state lua_out" where
  "open_lib_table libname L =
     lua_then (luaL_findtable LUA_REGISTRYINDEX ''_LOADED'' L) (\<lambda>(_, L1).
     lua_then (lua_getfield (- 1) libname L1) (\<lambda>L2.
     lua_then (lua_istable L2 (- 1)) (\<lambda>istable.
     lua_then
       (if istable then Done L2
        else lua_then (lua_pop 1 L2) (\<lambda>L3.
             lua_then (luaL_findtable LUA_GLOBALSINDEX libname L3) (\<lambda>(ok, L4).
               if \<not> ok then LuaError (NameConflict libname) L4
               else lua_do [lua_pushvalue (- 1), lua_setfield (- 3) libname] L4)))
       (lua_do [lua_remove (- 2), lua_insert (- 1)]))))"

fun register_functions :: "(string \<times> string) list \<Rightarrow> lua_state \<Rightarrow> lua_state lua_out" where
  "register_functions [] L = Done L"
| "register_functions ((name, fn) # l) L =
     lua_then (lua_do [lua_pushcfunction fn, lua_setfield (- 2) name] L) (register_functions l)"

definition luaL_register :: "string \<Rightarrow> (string \<times> string) list \<Rightarrow> lua_state \<Rightarrow> lua_state lua_out" where
  "luaL_register libname l L =
     lua_then (open_lib_table libname L) (\<lambda>L1. lua_then (register_functions l L1) (lua_pop 0))"

section \<open>Protected calls\<close>

text \<open>
  \<open>lua_pcall\<close> of a C function without arguments and results: the function runs on a stack of its own;
  after an error the stack is as before the function was pushed, with the message on top. The message's
  text is a parameter.
\<close>

definition lua_pcall_0 :: "(lua_error \<Rightarrow> string) \<Rightarrow> (lua_state \<Rightarrow> (nat \<times> lua_state) lua_out) \<Rightarrow> lua_state
    \<Rightarrow> (bool \<times> lua_state) lua_out" where
  "lua_pcall_0 message f L =
     (if L_stack L = [] then Undefined
      else case last (L_stack L) of
        TFunction cl \<Rightarrow>
          (let back = (\<lambda>L1. L1\<lparr>L_stack := butlast (L_stack L), L_func := L_func L\<rparr>)
           in case f (L\<lparr>L_stack := [], L_func := Some cl\<rparr>) of
                Done (n, L1) \<Rightarrow> Done (True, back L1)
              | LuaError e L1 \<Rightarrow> Done (False, push (TString (message e)) (back L1))
              | CallsFunction g \<Rightarrow> CallsFunction g
              | Undefined \<Rightarrow> Undefined)
      | _ \<Rightarrow> Undefined)"

end
