(* ===== verification/LuaBinder.thy ===== *)
theory LuaBinder
  imports LuaApi
begin

text \<open>
  The class binder: \<open>include/common/luabinder.h\<close>, \<open>src/common/luabinder.cpp\<close>, the functions that
  \<open>test/ScriptInterface.inl\<close> registers with it, and the part of \<open>luastate\<close> that runs them. A class is a
  metatable in the registry under its name, with the base class's metatable in \<open>_base\<close>. An object's
  address is kept in a user datum with the class's metatable, and the user datum is found again under the
  address in the table of globals. Debugging output is left out.
\<close>

section \<open>Classes\<close>

definition binder_Init :: "string \<Rightarrow> string option \<Rightarrow> (string \<times> string) list \<Rightarrow> string \<Rightarrow> lua_state \<Rightarrow> lua_state lua_out" where
  "binder_Init tname bname flist destroy =
     lua_do
       ([lua_newtable, lua_pushstring ''v'', lua_setfield (- 2) ''__mode'', lua_pushvalue (- 1), lua_setmetatable (- 2),
         lua_replace LUA_ENVIRONINDEX, luaL_register tname flist,
         (\<lambda>L. lua_then (luaL_newmetatable tname L) (\<lambda>(nResult, L1). Done L1)),
         lua_pushvalue (- 2), lua_setfield (- 2) ''__index'', lua_pushcfunction destroy, lua_setfield (- 2) ''__gc'']
        @ (case bname of None \<Rightarrow> [] | Some b \<Rightarrow> [luaL_getmetatable b, lua_setfield (- 2) ''_base''])
        @ [lua_pop 1]
        @ (case bname of
             None \<Rightarrow> []
           | Some b \<Rightarrow> [lua_getfield LUA_GLOBALSINDEX b, lua_setfield (- 2) ''__index'', lua_pushvalue (- 1), lua_setmetatable (- 2)]))"

definition PushCFunction :: "string \<Rightarrow> string \<Rightarrow> lua_state \<Rightarrow> lua_state lua_out" where
  "PushCFunction name pfnFunc = lua_do [lua_pushcfunction pfnFunc, lua_setglobal name]"

definition PushConstant :: "string \<Rightarrow> tuint64 \<Rightarrow> lua_state \<Rightarrow> lua_state lua_out" where
  "PushConstant name value = lua_do [lua_pushinteger value, lua_setglobal name]"

section \<open>Objects\<close>

text \<open>The address is stored in the block of the new user datum.\<close>

definition register_lua_object :: "nat \<Rightarrow> string \<Rightarrow> bool \<Rightarrow> lua_state \<Rightarrow> lua_state lua_out" where
  "register_lua_object udata tname bPop L =
     lua_then (if bPop then lua_pop 1 L else Done L) (\<lambda>L1.
     lua_then (lua_newuserdata L1) (\<lambda>(ubox, L2).
       lua_do [luaL_getmetatable tname, lua_setmetatable (- 2), lua_pushlightuserdata udata, lua_pushvalue (- 2),
               lua_rawset LUA_GLOBALSINDEX]
         (L2\<lparr>L_users := (L_users L2)(ubox := (L_users L2 ubox)\<lparr>u_block := Some udata\<rparr>)\<rparr>)))"

text \<open>Whether the user datum found has the metatable of the class; what the test pushes stays when it has not.\<close>

definition valid_userdata :: "string \<Rightarrow> lua_state \<Rightarrow> (bool \<times> lua_state) lua_out" where
  "valid_userdata tname L =
     lua_then (lua_touserdata L (- 1)) (\<lambda>p.
       if p = NullPointer then Done (False, L)
       else lua_then (lua_getmetatable (- 1) L) (\<lambda>(has, L1).
         if \<not> has then Done (False, L1)
         else lua_then (lua_getfield LUA_REGISTRYINDEX tname L1) (\<lambda>L2.
           lua_then (lua_rawequal L2 (- 1) (- 2)) (\<lambda>eq.
             if eq then lua_then (lua_pop 2 L2) (\<lambda>L3. Done (True, L3)) else Done (False, L2)))))"

definition PushUserType :: "nat \<Rightarrow> string \<Rightarrow> lua_state \<Rightarrow> lua_state lua_out" where
  "PushUserType udata tname L =
     lua_then (lua_do [lua_pushlightuserdata udata, lua_rawget LUA_GLOBALSINDEX] L) (\<lambda>L1.
     lua_then (lua_isnil L1 (- 1)) (\<lambda>isnil.
       if isnil then register_lua_object udata tname True L1
       else lua_then (valid_userdata tname L1) (\<lambda>(bValid, L2).
         if \<not> bValid then lua_do [lua_pop 3, register_lua_object udata tname False] L2 else Done L2)))"

text \<open>What the pointer to the block points to; the null pointer and an object's own memory may not be read so.\<close>

definition read_box :: "lua_state \<Rightarrow> lua_pointer \<Rightarrow> nat lua_out" where
  "read_box L p =
     (case p of BlockOf u \<Rightarrow> (case u_block (L_users L u) of Some q \<Rightarrow> Done q | None \<Rightarrow> Undefined) | _ \<Rightarrow> Undefined)"

text \<open>
  A round of the loop of \<open>CheckUserType\<close> over the base classes: the result, or the state for the next
  round. The class's metatable lies below the one looked at.
\<close>

definition check_round :: "int \<Rightarrow> string \<Rightarrow> lua_state \<Rightarrow> (nat \<times> lua_state) lua_out + lua_state" where
  "check_round index tname L =
     (case lua_then (lua_istable L (- 1)) (\<lambda>istable.
             if \<not> istable then Done None else lua_then (lua_rawequal L (- 1) (- 2)) (\<lambda>eq. Done (Some eq))) of
        Done None \<Rightarrow> Inl (luaL_typerror L index tname)
      | Done (Some eq) \<Rightarrow>
          if eq
          then Inl (lua_then (lua_pop 2 L) (\<lambda>L1.
                    lua_then (lua_touserdata L1 index) (\<lambda>p. lua_then (read_box L1 p) (\<lambda>h. Done (h, L1)))))
          else (case lua_do [lua_getfield (- 1) ''_base'', lua_replace (- 2)] L of
                  Done L1 \<Rightarrow> Inr L1
                | LuaError e L1 \<Rightarrow> Inl (LuaError e L1)
                | CallsFunction f \<Rightarrow> Inl (CallsFunction f)
                | Undefined \<Rightarrow> Inl Undefined)
      | LuaError e L1 \<Rightarrow> Inl (LuaError e L1)
      | CallsFunction f \<Rightarrow> Inl (CallsFunction f)
      | Undefined \<Rightarrow> Inl Undefined)"

text \<open>The outer \<open>None\<close> is a loop that does not end.\<close>

partial_function (option) check_loop :: "int \<Rightarrow> string \<Rightarrow> lua_state \<Rightarrow> (nat \<times> lua_state) lua_out option" where
  "check_loop index tname L =
     (case check_round index tname L of Inl r \<Rightarrow> Some r | Inr L1 \<Rightarrow> check_loop index tname L1)"

definition CheckUserType :: "int \<Rightarrow> string \<Rightarrow> lua_state \<Rightarrow> (nat \<times> lua_state) lua_out option" where
  "CheckUserType index tname L =
     (case lua_do [lua_getfield LUA_REGISTRYINDEX tname, (\<lambda>L1. lua_then (lua_getmetatable index L1) (\<lambda>(has, L2). Done L2))] L of
        Done L1 \<Rightarrow> check_loop index tname L1
      | LuaError e L1 \<Rightarrow> Some (LuaError e L1)
      | CallsFunction f \<Rightarrow> Some (CallsFunction f)
      | Undefined \<Rightarrow> Some Undefined)"

section \<open>Values\<close>

text \<open>\<open>LuaPushValue\<close> of the types of C++; all the integers become doubles.\<close>

datatype cpp_value =
    CppBool bool
  | CppChar "8 word"
  | CppUChar tbyte
  | CppShort tint16
  | CppUShort tuint16
  | CppInt tint32
  | CppUInt tuint32
  | CppLong tuint64
  | CppULong tuint64
  | CppDouble tuint64
  | CppText string
  | CppNil
  | CppFunction string
  | CppObject nat string

fun LuaPushValue :: "cpp_value \<Rightarrow> lua_state \<Rightarrow> lua_state lua_out" where
  "LuaPushValue (CppBool b) L = lua_pushboolean b L"
| "LuaPushValue (CppChar n) L = lua_pushinteger (scast n) L"
| "LuaPushValue (CppUChar n) L = lua_pushinteger (ucast n) L"
| "LuaPushValue (CppShort n) L = lua_pushinteger (scast n) L"
| "LuaPushValue (CppUShort n) L = lua_pushinteger (ucast n) L"
| "LuaPushValue (CppInt n) L = lua_pushinteger (scast n) L"
| "LuaPushValue (CppUInt n) L = lua_pushinteger (ucast n) L"
| "LuaPushValue (CppLong n) L = lua_pushinteger n L"
| "LuaPushValue (CppULong n) L = lua_pushinteger n L"
| "LuaPushValue (CppDouble n) L = lua_pushnumber n L"
| "LuaPushValue (CppText s) L = lua_pushstring s L"
| "LuaPushValue CppNil L = lua_pushnil L"
| "LuaPushValue (CppFunction f) L = lua_pushcfunction f L"
| "LuaPushValue (CppObject p name) L = PushUserType p name L"

section \<open>The classes of the scripts\<close>

definition lib_ObjUser :: "(string \<times> string) list" where
  "lib_ObjUser = [(''Create'', ''bnd_LuaCreate_ObjUser''), (''GetID'', ''bnd_LuaCreate_GetObjUserID'')]"

definition lib_ScriptService :: "(string \<times> string) list" where
  "lib_ScriptService = [(''Create'', ''bnd_LuaCreate_ScriptService'')]"

definition luaopen_ObjUser :: "lua_state \<Rightarrow> (nat \<times> lua_state) lua_out" where
  "luaopen_ObjUser L = lua_then (binder_Init ''ObjUser'' None lib_ObjUser ''bnd_LuaDestroy_ObjUser'' L) (\<lambda>L1. Done (1, L1))"

definition luaopen_ScriptService :: "lua_state \<Rightarrow> (nat \<times> lua_state) lua_out" where
  "luaopen_ScriptService L =
     lua_then (binder_Init ''ScriptService'' None lib_ScriptService ''bnd_LuaDestroy_ScriptService'' L) (\<lambda>L1. Done (1, L1))"

text \<open>The users that live, by their address, with their number; any other address may not be read.\<close>

definition bnd_LuaCreate_GetObjUserID :: "(nat \<rightharpoonup> tuint32) \<Rightarrow> lua_state \<Rightarrow> (nat \<times> lua_state) lua_out option" where
  "bnd_LuaCreate_GetObjUserID users L =
     map_option (\<lambda>r. lua_then r (\<lambda>(pkUser, L1).
         case users pkUser of
           None \<Rightarrow> Undefined
         | Some ret \<Rightarrow> lua_then (LuaPushValue (CppUInt ret) L1) (\<lambda>L2. Done (1, L2))))
       (CheckUserType 1 ''ObjUser'' L)"

text \<open>After a failure \<open>lua_pop (-1)\<close> empties the whole stack.\<close>

definition RegisterInitFunction :: "(lua_error \<Rightarrow> string) \<Rightarrow> string \<Rightarrow> (lua_state \<Rightarrow> (nat \<times> lua_state) lua_out)
    \<Rightarrow> lua_state \<Rightarrow> lua_state lua_out" where
  "RegisterInitFunction message name fpInit L =
     lua_then (lua_pushcfunction name L) (\<lambda>L1.
     lua_then (lua_pcall_0 message fpInit L1) (\<lambda>(ok, L2). if ok then Done L2 else lua_pop (- 1) L2))"

end
