(* ===== verification/LuaFacts.thy ===== *)
theory LuaFacts
  imports LuaApi
begin

text \<open>
  Calls of the Lua library on the states the binder brings about: the indices from the top, the tables
  without metatables, and the tables found or made under a name.
\<close>

section \<open>Indices and fields\<close>

lemma at_special [simp]:
  "at_index L LUA_REGISTRYINDEX = Done (L_registry L)" "at_index L LUA_GLOBALSINDEX = Done (L_globals L)"
  "index2adr L LUA_REGISTRYINDEX = AtRegistry" "index2adr L LUA_GLOBALSINDEX = AtGlobals"
  by (simp_all add: at_index_def index2adr_def LUA_REGISTRYINDEX_def LUA_GLOBALSINDEX_def LUA_ENVIRONINDEX_def)

lemma index_below [simp]:
  "L_stack L \<noteq> [] \<Longrightarrow> index2adr L (- 1) = OnStack (length (L_stack L) - 1)"
  "2 \<le> length (L_stack L) \<Longrightarrow> index2adr L (- 2) = OnStack (length (L_stack L) - 2)"
  "3 \<le> length (L_stack L) \<Longrightarrow> index2adr L (- 3) = OnStack (length (L_stack L) - 3)"
  "4 \<le> length (L_stack L) \<Longrightarrow> index2adr L (- 4) = OnStack (length (L_stack L) - 4)"
  by (simp_all add: index2adr_def LUA_REGISTRYINDEX_def Suc_le_eq)

lemma at_below [simp]:
  "L_stack L \<noteq> [] \<Longrightarrow> at_index L (- 1) = Done (L_stack L ! (length (L_stack L) - 1))"
  "2 \<le> length (L_stack L) \<Longrightarrow> at_index L (- 2) = Done (L_stack L ! (length (L_stack L) - 2))"
  "3 \<le> length (L_stack L) \<Longrightarrow> at_index L (- 3) = Done (L_stack L ! (length (L_stack L) - 3))"
  "4 \<le> length (L_stack L) \<Longrightarrow> at_index L (- 4) = Done (L_stack L ! (length (L_stack L) - 4))"
  by (simp_all add: at_index_def)

lemma push_simps [simp]:
  "L_stack (push v L) = L_stack L @ [v]" "L_tables (push v L) = L_tables L" "L_users (push v L) = L_users L"
  "L_closures (push v L) = L_closures L" "L_next (push v L) = L_next L" "L_registry (push v L) = L_registry L"
  "L_globals (push v L) = L_globals L" "L_typemeta (push v L) = L_typemeta L" "L_func (push v L) = L_func L"
  by (simp_all add: push_def)

lemma luaH_get_string [simp]: "luaH_get L h (TString k) = t_values (L_tables L h) (TString k)"
  and luaH_get_light [simp]: "luaH_get L h (TLight p) = t_values (L_tables L h) (TLight p)"
  by (simp_all add: luaH_get_def)

definition set_value :: "nat \<Rightarrow> tvalue \<Rightarrow> tvalue \<Rightarrow> lua_state \<Rightarrow> lua_state" where
  "set_value h k v L = L\<lparr>L_tables := (L_tables L)(h := (L_tables L h)\<lparr>t_values := (t_values (L_tables L h))(k := v)\<rparr>)\<rparr>"

lemma luaH_set_string [simp]: "luaH_set L h (TString k) v = Done (set_value h (TString k) v L)"
  and luaH_set_light [simp]: "luaH_set L h (TLight p) v = Done (set_value h (TLight p) v L)"
  by (simp_all add: luaH_set_def set_value_def key_form_def)

lemma set_value_same [simp]: "set_value h k (t_values (L_tables L h) k) L = L"
  by (simp add: set_value_def)

lemma set_value_simps [simp]:
  "L_stack (set_value h k v L) = L_stack L" "L_users (set_value h k v L) = L_users L"
  "L_closures (set_value h k v L) = L_closures L" "L_next (set_value h k v L) = L_next L"
  "L_registry (set_value h k v L) = L_registry L" "L_globals (set_value h k v L) = L_globals L"
  "L_typemeta (set_value h k v L) = L_typemeta L" "L_func (set_value h k v L) = L_func L"
  "t_meta (L_tables (set_value h k v L) h') = t_meta (L_tables L h')"
  "t_values (L_tables (set_value h k v L) h') = (if h' = h then (t_values (L_tables L h))(k := v) else t_values (L_tables L h'))"
  by (simp_all add: set_value_def)

lemma getfield_raw:
  assumes "at_index L idx = Done (TTable h)" "t_meta (L_tables L h) = None"
  shows "lua_getfield idx k L = Done (push (t_values (L_tables L h) (TString k)) L)"
  using assms by (simp add: lua_getfield_def luaV_gettable_def MAXTAGLOOP_def numeral_eq_Suc fasttm_def Let_def)

lemma setfield_raw:
  assumes "at_index L idx = Done (TTable h)" "t_meta (L_tables L h) = None" "L_stack L \<noteq> []"
  shows "lua_setfield idx k L = Done ((set_value h (TString k) (last (L_stack L)) L)\<lparr>L_stack := butlast (L_stack L)\<rparr>)"
  using assms by (simp add: lua_setfield_def luaV_settable_def MAXTAGLOOP_def numeral_eq_Suc fasttm_def Let_def)

lemma pop_some: "n \<le> length (L_stack L) \<Longrightarrow> lua_pop (int n) L = Done (L\<lparr>L_stack := take (length (L_stack L) - n) (L_stack L)\<rparr>)"
  by (auto simp: lua_pop_def lua_settop_def nat_diff_distrib)

lemma pop_simps [simp]:
  "L_stack L \<noteq> [] \<Longrightarrow> lua_pop 1 L = Done (L\<lparr>L_stack := butlast (L_stack L)\<rparr>)"
  "2 \<le> length (L_stack L) \<Longrightarrow> lua_pop 2 L = Done (L\<lparr>L_stack := butlast (butlast (L_stack L))\<rparr>)"
  "3 \<le> length (L_stack L) \<Longrightarrow> lua_pop 3 L = Done (L\<lparr>L_stack := butlast (butlast (butlast (L_stack L)))\<rparr>)"
  "lua_pop 0 L = Done L"
  using pop_some [of 1 L] pop_some [of 2 L] pop_some [of 3 L] pop_some [of 0 L]
  by (simp_all add: Suc_le_eq butlast_conv_take numeral_eq_Suc flip: length_greater_0_conv)

lemma lua_do_append: "lua_do (fs @ gs) L = lua_then (lua_do fs L) (lua_do gs)"
  by (induction fs arbitrary: L) (auto, case_tac "a L", auto)

lemma isnil_top: "L_stack L \<noteq> [] \<Longrightarrow> lua_isnil L (- 1) = Done (last (L_stack L) = TNil)"
  by (cases "last (L_stack L)") (simp_all add: lua_isnil_def lua_type_def last_conv_nth)

lemma istable_top: "L_stack L \<noteq> [] \<Longrightarrow> lua_istable L (- 1) = Done (\<exists>h. last (L_stack L) = TTable h)"
  by (cases "last (L_stack L)") (simp_all add: lua_istable_def lua_type_def last_conv_nth)

section \<open>New tables\<close>

lemma settable_raw:
  assumes "at_index L idx = Done (TTable h)" "t_meta (L_tables L h) = None" "L_stack L = s @ [TString k, v]"
  shows "lua_settable idx L = Done ((set_value h (TString k) v L)\<lparr>L_stack := s\<rparr>)"
  using assms by (simp add: lua_settable_def luaV_settable_def MAXTAGLOOP_def numeral_eq_Suc fasttm_def Let_def butlast_append)

lemma split_dots_plain: "CHR ''.'' \<notin> set s \<Longrightarrow> split_dots s = [s]"
  by (induction s) auto

definition new_table :: "lua_state \<Rightarrow> lua_state" where
  "new_table L = L\<lparr>L_tables := (L_tables L)(L_next L := empty_table), L_next := Suc (L_next L)\<rparr>"

lemma new_table_simps [simp]:
  "L_stack (new_table L) = L_stack L" "L_users (new_table L) = L_users L"
  "L_closures (new_table L) = L_closures L" "L_next (new_table L) = Suc (L_next L)"
  "L_registry (new_table L) = L_registry L" "L_globals (new_table L) = L_globals L"
  "L_typemeta (new_table L) = L_typemeta L" "L_func (new_table L) = L_func L"
  "L_tables (new_table L) h = (if h = L_next L then empty_table else L_tables L h)"
  by (simp_all add: new_table_def)

lemma empty_table_simps [simp]: "t_values empty_table k = TNil" "t_meta empty_table = None"
  by (simp_all add: empty_table_def)

lemma stack_updates [simp]:
  "set_value h k v (L\<lparr>L_stack := s\<rparr>) = (set_value h k v L)\<lparr>L_stack := s\<rparr>"
  "new_table (L\<lparr>L_stack := s\<rparr>) = (new_table L)\<lparr>L_stack := s\<rparr>"
  "push v L = L\<lparr>L_stack := L_stack L @ [v]\<rparr>"
  by (simp_all add: set_value_def new_table_def push_def)

lemma lua_newtable_eq: "lua_newtable L = Done (push (TTable (L_next L)) (new_table L))"
  by (simp add: lua_newtable_def new_table_def)

lemma rawget_key:
  assumes "at_index L idx = Done (TTable h)" "L_stack L = s @ [TString k]"
  shows "lua_rawget idx L = Done (L\<lparr>L_stack := s @ [t_values (L_tables L h) (TString k)]\<rparr>)"
  using assms by (simp add: lua_rawget_def)

lemma remove_second:
  assumes "L_stack L = s @ [a, b]"
  shows "lua_remove (- 2) L = Done (L\<lparr>L_stack := s @ [b]\<rparr>)"
  using assms by (simp add: lua_remove_def)

lemma findtable_there:
  assumes "at_index L idx = Done (TTable h)" "t_values (L_tables L h) (TString k) = TTable h'" "CHR ''.'' \<notin> set k"
  shows "luaL_findtable idx k L = Done (True, push (TTable h') L)"
  using assms
  by (simp add: luaL_findtable_def split_dots_plain lua_pushvalue_def findtable_round_def lua_pushstring_def
      rawget_key [where h = h and s = "L_stack L @ [TTable h]"] nth_append isnil_top istable_top
      remove_second [where s = "L_stack L"] del: stack_updates(3) add: push_def)

lemma findtable_new:
  assumes "at_index L idx = Done (TTable h)" "t_values (L_tables L h) (TString k) = TNil" "CHR ''.'' \<notin> set k"
    "t_meta (L_tables L h) = None" "h < L_next L"
  shows "luaL_findtable idx k L =
     Done (True, push (TTable (L_next L)) (set_value h (TString k) (TTable (L_next L)) (new_table L)))"
  using assms
  by (simp add: luaL_findtable_def split_dots_plain lua_pushvalue_def findtable_round_def lua_pushstring_def
      rawget_key [where h = h and s = "L_stack L @ [TTable h]"] nth_append isnil_top istable_top lua_newtable_eq
      settable_raw [where h = h and k = k and v = "TTable (L_next L)" and s = "L_stack L @ [TTable h, TTable (L_next L)]"]
      remove_second [where s = "L_stack L"] butlast_append)

end
