(* ===== verification/LuaBinderProps.thy ===== *)
theory LuaBinderProps
  imports LuaBinder LuaFacts
begin

text \<open>
  What the class binder guarantees and what it does not: registering a class, pushing an object, and
  checking it against a class, as a type system over the registered classes.
\<close>

section \<open>Registering a class\<close>

text \<open>
  The tables of the registry, of the globals and of the loaded modules, as the library sets them up.
\<close>

lemma same_stack: "L_stack L = s \<Longrightarrow> L\<lparr>L_stack := s\<rparr> = L"
  by auto

definition lua_ready :: "lua_state \<Rightarrow> nat \<Rightarrow> nat \<Rightarrow> nat \<Rightarrow> bool" where
  "lua_ready L r g ld \<longleftrightarrow> L_registry L = TTable r \<and> L_globals L = TTable g \<and> distinct [r, g, ld]
     \<and> r < L_next L \<and> g < L_next L \<and> ld < L_next L
     \<and> t_meta (L_tables L r) = None \<and> t_meta (L_tables L g) = None \<and> t_meta (L_tables L ld) = None
     \<and> t_values (L_tables L r) (TString ''_LOADED'') = TTable ld"

definition free_name :: "lua_state \<Rightarrow> nat \<Rightarrow> nat \<Rightarrow> nat \<Rightarrow> string \<Rightarrow> bool" where
  "free_name L r g ld c \<longleftrightarrow> CHR ''.'' \<notin> set c \<and> t_values (L_tables L r) (TString c) = TNil
     \<and> t_values (L_tables L g) (TString c) = TNil \<and> t_values (L_tables L ld) (TString c) = TNil"

lemma insert_top: "L_stack L = s @ [a] \<Longrightarrow> lua_insert (- 1) L = Done L"
  by (simp add: lua_insert_def)

definition opened :: "nat \<Rightarrow> nat \<Rightarrow> string \<Rightarrow> lua_state \<Rightarrow> lua_state" where
  "opened g ld c L = set_value ld (TString c) (TTable (L_next L)) (set_value g (TString c) (TTable (L_next L)) (new_table L))"

lemma open_lib_table_free:
  assumes "lua_ready L r g ld" "free_name L r g ld c"
  shows "open_lib_table c L = Done ((opened g ld c L)\<lparr>L_stack := L_stack L @ [TTable (L_next L)]\<rparr>)"
proof -
  have a: "L_registry L = TTable r" "L_globals L = TTable g" "g < L_next L" "ld < L_next L" "ld \<noteq> g"
      "t_meta (L_tables L g) = None" "t_meta (L_tables L ld) = None"
      "t_values (L_tables L r) (TString ''_LOADED'') = TTable ld"
      "CHR ''.'' \<notin> set c" "t_values (L_tables L g) (TString c) = TNil" "t_values (L_tables L ld) (TString c) = TNil"
    using assms by (auto simp: lua_ready_def free_name_def)
  have l: "luaL_findtable LUA_REGISTRYINDEX ''_LOADED'' L = Done (True, push (TTable ld) L)"
    by (rule findtable_there [where h = r]) (simp_all add: a)
  have f: "luaL_findtable LUA_GLOBALSINDEX c (push (TTable ld) L)
      = Done (True, push (TTable (L_next L)) (set_value g (TString c) (TTable (L_next L)) (new_table (push (TTable ld) L))))"
    using findtable_new [where h = g and idx = LUA_GLOBALSINDEX and L = "push (TTable ld) L" and k = c] a by (simp del: stack_updates)
  show ?thesis
    using a f
    by (simp add: open_lib_table_def l getfield_raw [where h = ld] nth_append istable_top lua_pushvalue_def
        setfield_raw [where h = ld] butlast_append remove_second [where s = "L_stack L"]
        insert_top [where s = "L_stack L"] opened_def)
qed

lemma register_functions_frame:
  assumes "L_stack L = s @ [TTable h]" "t_meta (L_tables L h) = None" "getcurrenv L = TTable e"
  shows "\<exists>vals cl n. register_functions l L =
      Done (L\<lparr>L_tables := (L_tables L)(h := (L_tables L h)\<lparr>t_values := vals\<rparr>), L_closures := cl, L_next := n\<rparr>)
    \<and> L_next L \<le> n \<and> (\<forall>i < L_next L. cl i = L_closures L i)"
  using assms
proof (induction l arbitrary: L e)
  case Nil
  show ?case by (intro exI [of _ "t_values (L_tables L h)"] exI [of _ "L_closures L"] exI [of _ "L_next L"]) simp
next
  case (Cons p l)
  obtain name fn where p: "p = (name, fn)" by fastforce
  define L1 where "L1 = set_value h (TString name) (TFunction (L_next L))
    (L\<lparr>L_closures := (L_closures L)(L_next L := \<lparr>c_fun = fn, c_env = e\<rparr>), L_next := Suc (L_next L)\<rparr>)"
  have "lua_do [lua_pushcfunction fn, lua_setfield (- 2) name] L = Done L1"
    using Cons.prems
    by (simp add: lua_pushcfunction_def setfield_raw [where h = h] nth_append butlast_append L1_def same_stack)
  then have "register_functions (p # l) L = register_functions l L1" by (simp add: p)
  moreover have st: "L_stack L1 = s @ [TTable h]" and meta: "t_meta (L_tables L1 h) = None"
    using Cons.prems by (simp_all add: L1_def)
  obtain e1 where env: "getcurrenv L1 = TTable e1"
    using Cons.prems(3) by (auto simp: getcurrenv_def L1_def split: option.splits)
  from Cons.IH [OF st meta env] obtain vals cl n where "register_functions l L1 =
      Done (L1\<lparr>L_tables := (L_tables L1)(h := (L_tables L1 h)\<lparr>t_values := vals\<rparr>), L_closures := cl, L_next := n\<rparr>)"
    "L_next L1 \<le> n" "\<forall>i < L_next L1. cl i = L_closures L1 i"
    by (elim exE conjE) (rule that)
  moreover have "L1\<lparr>L_tables := (L_tables L1)(h := (L_tables L1 h)\<lparr>t_values := vals\<rparr>), L_closures := cl, L_next := n\<rparr>
     = L\<lparr>L_tables := (L_tables L)(h := (L_tables L h)\<lparr>t_values := vals\<rparr>), L_closures := cl, L_next := n\<rparr>"
    by (simp add: L1_def set_value_def)
  ultimately have final: "register_functions (p # l) L =
      Done (L\<lparr>L_tables := (L_tables L)(h := (L_tables L h)\<lparr>t_values := vals\<rparr>), L_closures := cl, L_next := n\<rparr>)"
    and n: "L_next L \<le> n" and old: "\<forall>i < L_next L. cl i = L_closures L i"
    by (simp_all add: L1_def)
  show ?case by (intro exI conjI) (rule final, rule n, rule old)
qed

lemma newmetatable_free:
  assumes "lua_ready L r g ld" "t_values (L_tables L r) (TString c) = TNil"
  shows "luaL_newmetatable c L = Done (True, (set_value r (TString c) (TTable (L_next L)) (new_table L))
     \<lparr>L_stack := L_stack L @ [TTable (L_next L)]\<rparr>)"
  using assms
  by (simp add: luaL_newmetatable_def lua_ready_def getfield_raw [where h = r] isnil_top lua_newtable_eq lua_pushvalue_def
      setfield_raw [where h = r] nth_append butlast_append)

definition weak_env :: "nat \<Rightarrow> lua_state \<Rightarrow> lua_state" where
  "weak_env f L = L\<lparr>L_tables := (L_tables L)(L_next L := \<lparr>t_values = (\<lambda>k. TNil)(TString ''__mode'' := TString ''v''), t_meta = Some (L_next L)\<rparr>),
     L_closures := (L_closures L)(f := (L_closures L f)\<lparr>c_env := L_next L\<rparr>), L_next := Suc (L_next L)\<rparr>"

lemma init_environment:
  assumes "L_func L = Some f"
  shows "lua_do [lua_newtable, lua_pushstring ''v'', lua_setfield (- 2) ''__mode'', lua_pushvalue (- 1), lua_setmetatable (- 2),
         lua_replace LUA_ENVIRONINDEX] L = Done (weak_env f L)"
proof -
  have env: "index2adr K LUA_ENVIRONINDEX = AtEnvironment f" if "L_func K = Some f" for K
    using that by (simp add: index2adr_def LUA_ENVIRONINDEX_def LUA_REGISTRYINDEX_def)
  show ?thesis
    using assms
    by (simp add: lua_newtable_eq lua_pushstring_def setfield_raw [where h = "L_next L"] nth_append butlast_append
       lua_pushvalue_def lua_setmetatable_def Let_def lua_replace_def env weak_env_def set_value_def new_table_def empty_table_def)
qed

lemma newmetatable_done:
  assumes "lua_ready L r g ld" "t_values (L_tables L r) (TString c) = TNil"
  shows "lua_then (luaL_newmetatable c L) (\<lambda>(x, L1). Done L1) = Done ((set_value r (TString c) (TTable (L_next L)) (new_table L))
     \<lparr>L_stack := L_stack L @ [TTable (L_next L)]\<rparr>)"
  using newmetatable_free [OF assms] by simp

definition class_head :: "string \<Rightarrow> string \<Rightarrow> (lua_state \<Rightarrow> lua_state lua_out) list" where
  "class_head tname destroy = [(\<lambda>L. lua_then (luaL_newmetatable tname L) (\<lambda>(nResult, L1). Done L1)),
         lua_pushvalue (- 2), lua_setfield (- 2) ''__index'', lua_pushcfunction destroy, lua_setfield (- 2) ''__gc'']"

definition class_table :: "nat \<Rightarrow> nat \<Rightarrow> string \<Rightarrow> string \<Rightarrow> nat \<Rightarrow> lua_state \<Rightarrow> lua_state" where
  "class_table r lib c destroy e L =
     (let m = L_next L
      in (set_value m (TString ''__gc'') (TFunction (Suc m)) (set_value m (TString ''__index'') (TTable lib)
           (set_value r (TString c) (TTable m) (new_table L))))
         \<lparr>L_closures := (L_closures L)(Suc m := \<lparr>c_fun = destroy, c_env = e\<rparr>), L_next := Suc (Suc m), L_stack := L_stack L @ [TTable m]\<rparr>)"

lemma closure_updates [simp]:
  "set_value h k v (L\<lparr>L_closures := cl\<rparr>) = (set_value h k v L)\<lparr>L_closures := cl\<rparr>"
  "set_value h k v (L\<lparr>L_next := n\<rparr>) = (set_value h k v L)\<lparr>L_next := n\<rparr>"
  by (simp_all add: set_value_def)

lemma class_head_done:
  assumes "lua_ready L r g ld" "t_values (L_tables L r) (TString c) = TNil" "L_stack L = s @ [TTable lib]"
    "getcurrenv L = TTable e" "L_func L = Some f" "f < L_next L"
  shows "lua_do (class_head c destroy) L = Done (class_table r lib c destroy e L)"
proof -
  have r: "r < L_next L" using assms by (simp add: lua_ready_def)
  have env: "c_env (L_closures L f) = e" using assms by (simp add: getcurrenv_def)
  show ?thesis
    using assms(3,5,6) r env
    by (simp add: class_head_def newmetatable_done [OF assms(1,2)] lua_pushvalue_def nth_append butlast_append
        setfield_raw [where h = "L_next L"] lua_pushcfunction_def getcurrenv_def class_table_def Let_def)
qed

definition class_tail :: "string option \<Rightarrow> (lua_state \<Rightarrow> lua_state lua_out) list" where
  "class_tail bname = (case bname of None \<Rightarrow> [] | Some b \<Rightarrow> [luaL_getmetatable b, lua_setfield (- 2) ''_base''])
        @ [lua_pop 1]
        @ (case bname of
             None \<Rightarrow> []
           | Some b \<Rightarrow> [lua_getfield LUA_GLOBALSINDEX b, lua_setfield (- 2) ''__index'', lua_pushvalue (- 1), lua_setmetatable (- 2)])"

definition based :: "nat \<Rightarrow> nat \<Rightarrow> nat \<Rightarrow> nat \<Rightarrow> string \<Rightarrow> lua_state \<Rightarrow> lua_state" where
  "based r g lib m b L =
     (let L1 = set_value lib (TString ''__index'') (t_values (L_tables L g) (TString b))
                 (set_value m (TString ''_base'') (t_values (L_tables L r) (TString b)) L)
      in L1\<lparr>L_tables := (L_tables L1)(lib := (L_tables L1 lib)\<lparr>t_meta := Some lib\<rparr>)\<rparr>)"

lemma based_simps [simp]:
  "L_users (based r g lib m b L) = L_users L" "L_next (based r g lib m b L) = L_next L"
  "L_registry (based r g lib m b L) = L_registry L" "L_globals (based r g lib m b L) = L_globals L"
  "L_typemeta (based r g lib m b L) = L_typemeta L" "L_func (based r g lib m b L) = L_func L"
  by (simp_all add: based_def Let_def)

lemma based_other: "h \<noteq> lib \<Longrightarrow> h \<noteq> m \<Longrightarrow> L_tables (based r g lib m b L) h = L_tables L h"
  and based_meta: "m \<noteq> lib \<Longrightarrow> t_meta (L_tables (based r g lib m b L) m) = t_meta (L_tables L m)"
  and based_base: "m \<noteq> lib \<Longrightarrow> t_values (L_tables (based r g lib m b L) m) (TString ''_base'') = t_values (L_tables L r) (TString b)"
  by (simp_all add: based_def Let_def set_value_def)

lemma class_tail_done:
  assumes "lua_ready L r g ld" "L_stack L = s @ [TTable lib, TTable m]" "t_meta (L_tables L lib) = None"
    "t_meta (L_tables L m) = None" "m \<noteq> g" "m \<noteq> lib" "lib \<noteq> g"
  shows "lua_do (class_tail bname) L =
     Done ((case bname of None \<Rightarrow> L | Some b \<Rightarrow> based r g lib m b L)\<lparr>L_stack := s @ [TTable lib]\<rparr>)"
proof (cases bname)
  case None
  then show ?thesis using assms(2) by (simp add: class_tail_def butlast_append)
next
  case (Some b)
  have a: "L_registry L = TTable r" "L_globals L = TTable g" "t_meta (L_tables L r) = None" "t_meta (L_tables L g) = None"
    using assms(1) by (simp_all add: lua_ready_def)
  show ?thesis
    using assms(2-) a
    by (simp add: Some class_tail_def luaL_getmetatable_def getfield_raw [where h = r] getfield_raw [where h = g]
        setfield_raw [where h = m] setfield_raw [where h = lib] nth_append butlast_append lua_pushvalue_def
        lua_setmetatable_def Let_def based_def)
qed

lemma binder_Init_parts:
  "binder_Init tname bname flist destroy =
     lua_do ([lua_newtable, lua_pushstring ''v'', lua_setfield (- 2) ''__mode'', lua_pushvalue (- 1), lua_setmetatable (- 2),
         lua_replace LUA_ENVIRONINDEX] @ [luaL_register tname flist] @ class_head tname destroy @ class_tail bname)"
  by (simp add: binder_Init_def class_head_def class_tail_def)

text \<open>What a registration leaves: a new metatable under the name, and the library's table on the stack.\<close>

definition class_made :: "nat \<Rightarrow> nat \<Rightarrow> nat \<Rightarrow> string \<Rightarrow> string option \<Rightarrow> lua_state \<Rightarrow> lua_state \<Rightarrow> bool" where
  "class_made r g ld c bname L L' \<longleftrightarrow> (\<exists>lib m.
     L_stack L' = L_stack L @ [TTable lib] \<and> lua_ready L' r g ld \<and> L_next L \<le> m \<and> m < L_next L' \<and> t_meta (L_tables L' m) = None
     \<and> t_values (L_tables L' m) (TString ''_base'') = (case bname of None \<Rightarrow> TNil | Some b \<Rightarrow> t_values (L_tables L' r) (TString b))
     \<and> t_values (L_tables L' r) = (t_values (L_tables L r))(TString c := TTable m)
     \<and> t_values (L_tables L' g) = (t_values (L_tables L g))(TString c := TTable lib)
     \<and> t_values (L_tables L' ld) = (t_values (L_tables L ld))(TString c := TTable lib)
     \<and> (\<forall>h < L_next L. h \<notin> {r, g, ld} \<longrightarrow> L_tables L' h = L_tables L h)
     \<and> L_users L' = L_users L \<and> L_next L \<le> L_next L' \<and> L_typemeta L' = L_typemeta L \<and> L_func L' = L_func L)"

lemma binder_Init_made:
  assumes ready: "lua_ready L r g ld" and free: "free_name L r g ld c" and run: "L_func L = Some f" "f < L_next L"
  shows "\<exists>L'. binder_Init c bname flist destroy L = Done L' \<and> class_made r g ld c bname L L'"
proof -
  define LA where "LA = weak_env f L"
  define lib where "lib = L_next LA"
  define LB where "LB = (opened g ld c LA)\<lparr>L_stack := L_stack L @ [TTable lib]\<rparr>"
  have A: "lua_ready LA r g ld" "free_name LA r g ld c" "L_stack LA = L_stack L" "L_next LA = Suc (L_next L)"
    "L_func LA = Some f" "L_users LA = L_users L" "L_typemeta LA = L_typemeta L"
    "\<forall>h < L_next L. L_tables LA h = L_tables L h"
    using ready free run by (auto simp: LA_def weak_env_def lua_ready_def free_name_def)
  have B: "L_stack LB = L_stack L @ [TTable lib]" "t_meta (L_tables LB lib) = None" "L_func LB = Some f"
    "L_users LB = L_users L" "L_typemeta LB = L_typemeta L" "L_next LB = Suc lib" "L_registry LB = L_registry LA"
    "L_globals LB = L_globals LA"
    using A(1,5-7) by (auto simp: LB_def opened_def lib_def lua_ready_def)
  have "getcurrenv LB = TTable (c_env (L_closures LB f))" by (simp add: getcurrenv_def B(3))
  from register_functions_frame [OF B(1,2) this, of flist] obtain vals cl n where
    C: "register_functions flist LB =
      Done (LB\<lparr>L_tables := (L_tables LB)(lib := (L_tables LB lib)\<lparr>t_values := vals\<rparr>), L_closures := cl, L_next := n\<rparr>)"
    "Suc lib \<le> n" unfolding B(6) by (elim exE conjE) (rule that)
  define LC where "LC = LB\<lparr>L_tables := (L_tables LB)(lib := (L_tables LB lib)\<lparr>t_values := vals\<rparr>), L_closures := cl, L_next := n\<rparr>"
  have lib: "lib = Suc (L_next L)" "lib \<noteq> r" "lib \<noteq> g" "lib \<noteq> ld"
    using A(1,4) ready by (auto simp: lib_def lua_ready_def)
  have reg: "luaL_register c flist LA = Done LC"
    using open_lib_table_free [OF A(1,2)] C(1) by (simp add: luaL_register_def A(3) LB_def [unfolded lib_def] lib_def [symmetric] LC_def)
  have T: "t_values (L_tables LC r) = t_values (L_tables L r)" "t_values (L_tables LC g) = (t_values (L_tables L g))(TString c := TTable lib)"
    "t_values (L_tables LC ld) = (t_values (L_tables L ld))(TString c := TTable lib)"
    "\<forall>h < L_next L. h \<notin> {r, g, ld} \<longrightarrow> L_tables LC h = L_tables L h"
    using lib ready A(8) by (auto simp: LC_def LB_def opened_def lib_def [symmetric] lua_ready_def set_value_def new_table_def)
  have D: "lua_ready LC r g ld" "t_values (L_tables LC r) (TString c) = TNil" "L_stack LC = L_stack L @ [TTable lib]"
    "L_func LC = Some f" "f < L_next LC" "L_next LC = n" "L_users LC = L_users L" "L_typemeta LC = L_typemeta L"
    "t_meta (L_tables LC lib) = None"
    using A(1,2) lib B C(2) run by (auto simp: LC_def LB_def opened_def lib_def [symmetric] lua_ready_def free_name_def)
  then obtain e where env: "getcurrenv LC = TTable e" by (simp add: getcurrenv_def)
  define LD where "LD = class_table r lib c destroy e LC"
  have E: "L_stack LD = L_stack L @ [TTable lib, TTable n]" "lua_ready LD r g ld" "L_func LD = Some f" "L_next LD = Suc (Suc n)"
    "L_users LD = L_users L" "L_typemeta LD = L_typemeta L" "t_meta (L_tables LD lib) = None" "t_meta (L_tables LD n) = None"
    "n \<noteq> g" "n \<noteq> lib" "n \<noteq> r" "n \<noteq> ld" "L_next L \<le> n" "lib < n"
    using D lib C(2) by (auto simp: LD_def class_table_def Let_def lua_ready_def)
  have F: "t_values (L_tables LD r) = (t_values (L_tables L r))(TString c := TTable n)"
    "t_values (L_tables LD g) = (t_values (L_tables L g))(TString c := TTable lib)"
    "t_values (L_tables LD ld) = (t_values (L_tables L ld))(TString c := TTable lib)"
    "t_values (L_tables LD n) (TString ''_base'') = TNil"
    "\<forall>h < L_next L. h \<notin> {r, g, ld} \<longrightarrow> L_tables LD h = L_tables L h"
    using T E(9-13) D(6) ready by (auto simp: LD_def class_table_def Let_def lua_ready_def set_value_def new_table_def)
  define L' where "L' = (case bname of None \<Rightarrow> LD | Some b \<Rightarrow> based r g lib n b LD)\<lparr>L_stack := L_stack L @ [TTable lib]\<rparr>"
  have "binder_Init c bname flist destroy L = Done L'"
    unfolding binder_Init_parts lua_do_append init_environment [OF run(1)]
    using reg class_head_done [OF D(1-3) env D(4,5)] class_tail_done [OF E(2,1,7,8,9,10) lib(3), of bname]
    by (simp add: LA_def LD_def L'_def)
  moreover have "class_made r g ld c bname L L'"
  proof -
    have old: "h \<noteq> lib" "h \<noteq> n" if "h < L_next L" for h using that lib(1) E(13) by simp_all
    have rgl: "r < L_next L" "g < L_next L" "ld < L_next L" using ready by (simp_all add: lua_ready_def)
    have same: "L_tables L' h = L_tables LD h" if "h < L_next L" for h
      using old [OF that] by (cases bname) (simp_all add: L'_def based_other)
    have fields: "L_users L' = L_users L" "L_next L' = Suc (Suc n)" "L_typemeta L' = L_typemeta L" "L_func L' = L_func L"
      "L_registry L' = L_registry LD" "L_globals L' = L_globals LD" "L_stack L' = L_stack L @ [TTable lib]"
      using E run by (cases bname; simp add: L'_def)+
    have new: "t_meta (L_tables L' n) = None"
      "t_values (L_tables L' n) (TString ''_base'') = (case bname of None \<Rightarrow> TNil | Some b \<Rightarrow> t_values (L_tables L' r) (TString b))"
      using E(8,10) F(4) same [OF rgl(1)] by (cases bname; simp add: L'_def based_meta based_base)+
    have ready': "lua_ready L' r g ld"
      using E(2,4) same [OF rgl(1)] same [OF rgl(2)] same [OF rgl(3)] fields by (simp add: lua_ready_def)
    show ?thesis
      unfolding class_made_def
      by (rule exI [of _ lib], rule exI [of _ n])
        (use E(13) F same rgl fields new ready' in simp)
  qed
  ultimately show ?thesis by blast
qed

section \<open>Pushing objects\<close>

lemma rawset_light:
  assumes "at_index L idx = Done (TTable h)" "L_stack L = s @ [TLight p, v]"
  shows "lua_rawset idx L = Done ((set_value h (TLight p) v L)\<lparr>L_stack := s\<rparr>)"
  using assms by (simp add: lua_rawset_def butlast_append)

lemma rawget_light:
  assumes "at_index L idx = Done (TTable h)" "L_stack L = s @ [TLight p]"
  shows "lua_rawget idx L = Done (L\<lparr>L_stack := s @ [t_values (L_tables L h) (TLight p)]\<rparr>)"
  using assms by (simp add: lua_rawget_def)

text \<open>The state with a new user datum for the object, on the stack and under its address.\<close>

definition registered :: "nat \<Rightarrow> nat \<Rightarrow> nat option \<Rightarrow> lua_state \<Rightarrow> lua_state" where
  "registered g p mt L = (set_value g (TLight p) (TUser (L_next L)) L)
     \<lparr>L_users := (L_users L)(L_next L := \<lparr>u_block = Some p, u_meta = mt\<rparr>), L_next := Suc (L_next L),
      L_stack := L_stack L @ [TUser (L_next L)]\<rparr>"

lemma user_updates [simp]:
  "set_value h k v (L\<lparr>L_users := us\<rparr>) = (set_value h k v L)\<lparr>L_users := us\<rparr>"
  by (simp_all add: set_value_def)

definition class_mt :: "lua_state \<Rightarrow> nat \<Rightarrow> string \<Rightarrow> nat option" where
  "class_mt L r c = (case t_values (L_tables L r) (TString c) of TTable m \<Rightarrow> Some m | _ \<Rightarrow> None)"

lemma register_object:
  assumes "lua_ready L r g ld" "t_values (L_tables L r) (TString c) = (case mt of None \<Rightarrow> TNil | Some m \<Rightarrow> TTable m)"
  shows "register_lua_object p c False L = Done (registered g p mt L)"
  using assms
  by (cases mt) (simp_all add: register_lua_object_def lua_ready_def lua_newuserdata_def luaL_getmetatable_def
      getfield_raw [where h = r] lua_setmetatable_def Let_def nth_append butlast_append lua_pushlightuserdata_def
      lua_pushvalue_def rawset_light [where h = g and s = "L_stack L @ [TUser (L_next L)]"] registered_def)

lemma register_object_pop:
  assumes "lua_ready L r g ld" "t_values (L_tables L r) (TString c) = (case mt of None \<Rightarrow> TNil | Some m \<Rightarrow> TTable m)"
  shows "register_lua_object p c True (L\<lparr>L_stack := L_stack L @ [v]\<rparr>) = Done (registered g p mt L)"
proof -
  have "register_lua_object p c True (L\<lparr>L_stack := L_stack L @ [v]\<rparr>) = register_lua_object p c False L"
    by (simp add: register_lua_object_def)
  thus ?thesis using register_object [OF assms] by simp
qed

lemma push_look:
  assumes "lua_ready L r g ld"
  shows "lua_do [lua_pushlightuserdata p, lua_rawget LUA_GLOBALSINDEX] L =
    Done (L\<lparr>L_stack := L_stack L @ [t_values (L_tables L g) (TLight p)]\<rparr>)"
  using assms by (simp add: lua_pushlightuserdata_def rawget_light [where h = g and s = "L_stack L"] lua_ready_def)

lemma push_new:
  assumes "lua_ready L r g ld" "t_values (L_tables L r) (TString c) = (case mt of None \<Rightarrow> TNil | Some m \<Rightarrow> TTable m)"
    "t_values (L_tables L g) (TLight p) = TNil"
  shows "PushUserType p c L = Done (registered g p mt L)"
  unfolding PushUserType_def push_look [OF assms(1)] lua_then.simps
  using register_object_pop [OF assms(1,2)] assms(3) by (simp add: isnil_top)

lemma rawequal_tables:
  assumes "L_stack L = s @ [a, b]"
  shows "lua_rawequal L (- 1) (- 2) = Done (luaO_rawequalObj b a)"
  using assms by (simp add: lua_rawequal_def nth_append)

lemma push_again:
  assumes "lua_ready L r g ld" "t_values (L_tables L r) (TString c) = TTable m"
    "t_values (L_tables L g) (TLight p) = TUser u" "u_meta (L_users L u) = Some m'"
  shows "PushUserType p c L = Done (if m' = m then L\<lparr>L_stack := L_stack L @ [TUser u]\<rparr> else registered g p (Some m) L)"
proof -
  have a: "L_registry L = TTable r" "t_meta (L_tables L r) = None" using assms(1) by (simp_all add: lua_ready_def)
  have v: "valid_userdata c (L\<lparr>L_stack := L_stack L @ [TUser u]\<rparr>) =
     Done (if m' = m then (True, L\<lparr>L_stack := L_stack L @ [TUser u]\<rparr>) else (False, L\<lparr>L_stack := L_stack L @ [TUser u, TTable m', TTable m]\<rparr>))"
    using a assms(2,4)
    by (simp add: valid_userdata_def lua_touserdata_def lua_getmetatable_def metatable_of_def getfield_raw [where h = r]
        rawequal_tables [where s = "L_stack L @ [TUser u]"] butlast_append)
  have l: "register_lua_object p c False L = Done (registered g p (Some m) L)"
    by (rule register_object [OF assms(1)]) (simp add: assms(2))
  show ?thesis
    unfolding PushUserType_def push_look [OF assms(1)] lua_then.simps
    using assms(3) v l by (simp add: isnil_top butlast_append)
qed

text \<open>An object whose class was not registered: the second time, values that belong to the caller are removed.\<close>

lemma push_unregistered:
  assumes "lua_ready L r g ld" "t_values (L_tables L r) (TString c) = TNil"
    "t_values (L_tables L g) (TLight p) = TUser u" "u_meta (L_users L u) = None"
  shows "PushUserType p c L =
    (if length (L_stack L) < 2 then Undefined
     else Done (registered g p None (L\<lparr>L_stack := take (length (L_stack L) - 2) (L_stack L)\<rparr>)))"
proof -
  have v: "valid_userdata c (L\<lparr>L_stack := L_stack L @ [TUser u]\<rparr>) = Done (False, L\<lparr>L_stack := L_stack L @ [TUser u]\<rparr>)"
    using assms(4) by (simp add: valid_userdata_def lua_touserdata_def lua_getmetatable_def metatable_of_def)
  have ready: "lua_ready (L\<lparr>L_stack := s\<rparr>) r g ld" for s using assms(1) by (simp add: lua_ready_def)
  have l: "register_lua_object p c False (L\<lparr>L_stack := s\<rparr>) = Done (registered g p None (L\<lparr>L_stack := s\<rparr>))" for s
    by (rule register_object [OF ready]) (simp add: assms(2))
  show ?thesis
  proof (cases "length (L_stack L) < 2")
    case True
    then show ?thesis
      unfolding PushUserType_def push_look [OF assms(1)] lua_then.simps
      using assms(3) v by (simp add: isnil_top lua_pop_def lua_settop_def)
  next
    case False
    have "butlast (butlast (butlast (L_stack L @ [TUser u]))) = take (length (L_stack L) - 2) (L_stack L)"
      by (simp add: butlast_conv_take numeral_2_eq_2)
    then show ?thesis
      unfolding PushUserType_def push_look [OF assms(1)] lua_then.simps
      using assms(3) v False l by (simp add: isnil_top)
  qed
qed

section \<open>Checking objects\<close>

text \<open>The metatables from one on, along \<open>_base\<close> to the first that has no table there.\<close>

inductive base_chain :: "lua_state \<Rightarrow> nat \<Rightarrow> nat list \<Rightarrow> bool" where
  last_class: "t_meta (L_tables L m) = None \<Longrightarrow> \<forall>m'. t_values (L_tables L m) (TString ''_base'') \<noteq> TTable m' \<Longrightarrow> base_chain L m [m]"
| next_class: "t_meta (L_tables L m) = None \<Longrightarrow> t_values (L_tables L m) (TString ''_base'') = TTable m' \<Longrightarrow> base_chain L m' ms
    \<Longrightarrow> base_chain L m (m # ms)"

lemma check_round_hit:
  assumes "L_stack L = s @ [TTable m, TTable m]" "0 < i" "nat i \<le> length s" "s ! (nat i - 1) = TUser u" "u_block (L_users L u) = Some p"
  shows "check_round i c L = Inl (Done (p, L\<lparr>L_stack := s\<rparr>))"
  using assms
  by (simp add: check_round_def istable_top rawequal_tables [where s = s] butlast_append lua_touserdata_def at_index_def
      index2adr_def nth_append read_box_def)

lemma check_round_next:
  assumes "L_stack L = s @ [v, TTable m]" "v \<noteq> TTable m" "t_meta (L_tables L m) = None"
  shows "check_round i c L = Inr (L\<lparr>L_stack := s @ [v, t_values (L_tables L m) (TString ''_base'')]\<rparr>)"
proof -
  have "\<not> luaO_rawequalObj (TTable m) v" using assms(2) by (cases v) auto
  thus ?thesis
    using assms
    by (simp add: check_round_def istable_top rawequal_tables [where s = s] getfield_raw [where h = m] nth_append
        lua_replace_def Let_def butlast_append list_update_append LUA_ENVIRONINDEX_def)
qed

lemma check_round_end:
  assumes "L_stack L = s @ [v, w]" "\<forall>m. w \<noteq> TTable m" "0 < i" "nat i \<le> length s"
  shows "check_round i c L = Inl (LuaError (ArgError i (c @ '' expected, got '' @ lua_typename (ttype (s ! (nat i - 1))))) L)"
proof -
  have "nat i - 1 < length s" using assms(3,4) by simp
  thus ?thesis
    using assms by (simp add: check_round_def istable_top luaL_typerror_def lua_type_def index2adr_def nth_append)
qed

lemma check_loop_Inl: "check_round i c L = Inl x \<Longrightarrow> check_loop i c L = Some x"
  and check_loop_Inr: "check_round i c L = Inr L1 \<Longrightarrow> check_loop i c L = check_loop i c L1"
  by (simp_all add: check_loop.simps)

lemma check_chain:
  assumes "base_chain L m ms" "0 < i" "nat i \<le> length s" "s ! (nat i - 1) = TUser u" "u_block (L_users L u) = Some p"
  shows "\<exists>L1. check_loop i c (L\<lparr>L_stack := s @ [v, TTable m]\<rparr>) =
     Some (if \<exists>m \<in> set ms. v = TTable m then Done (p, L\<lparr>L_stack := s\<rparr>)
           else LuaError (ArgError i (c @ '' expected, got userdata'')) L1)"
  using assms
proof (induction rule: base_chain.induct)
  case (last_class L m)
  let ?L = "L\<lparr>L_stack := s @ [v, t_values (L_tables L m) (TString ''_base'')]\<rparr>"
  show ?case
  proof (cases "v = TTable m")
    case True
    have "check_round i c (L\<lparr>L_stack := s @ [v, TTable m]\<rparr>) = Inl (Done (p, L\<lparr>L_stack := s\<rparr>))"
      using check_round_hit [where s = s and u = u and p = p and L = "L\<lparr>L_stack := s @ [v, TTable m]\<rparr>"] last_class True by simp
    then show ?thesis using True by (simp add: check_loop_Inl)
  next
    case False
    have "check_round i c (L\<lparr>L_stack := s @ [v, TTable m]\<rparr>) = Inr ?L"
      using check_round_next [where s = s and L = "L\<lparr>L_stack := s @ [v, TTable m]\<rparr>"] last_class(1) False by simp
    moreover have "check_round i c ?L = Inl (LuaError (ArgError i (c @ '' expected, got userdata'')) ?L)"
      using check_round_end [where s = s and L = ?L] last_class(2-5) by (simp add: lua_typename_def luaT_typenames_def)
    ultimately show ?thesis using False by (simp add: check_loop_Inl check_loop_Inr)
  qed
next
  case (next_class L m m' ms)
  show ?case
  proof (cases "v = TTable m")
    case True
    have "check_round i c (L\<lparr>L_stack := s @ [v, TTable m]\<rparr>) = Inl (Done (p, L\<lparr>L_stack := s\<rparr>))"
      using check_round_hit [where s = s and u = u and p = p and L = "L\<lparr>L_stack := s @ [v, TTable m]\<rparr>"] next_class True by simp
    then show ?thesis using True by (simp add: check_loop_Inl)
  next
    case False
    have "check_round i c (L\<lparr>L_stack := s @ [v, TTable m]\<rparr>) = Inr (L\<lparr>L_stack := s @ [v, TTable m']\<rparr>)"
      using check_round_next [where s = s and L = "L\<lparr>L_stack := s @ [v, TTable m]\<rparr>"] next_class(1,2) False by simp
    then show ?thesis using next_class.IH next_class.prems False by (simp add: check_loop_Inr)
  qed
qed

lemma check_user_chain:
  assumes "lua_ready L r g ld" "0 < i" "nat i \<le> length (L_stack L)" "L_stack L ! (nat i - 1) = TUser u"
    "u_block (L_users L u) = Some p" "u_meta (L_users L u) = Some m" "base_chain L m ms"
  shows "\<exists>L1. CheckUserType i c L =
     Some (if \<exists>m \<in> set ms. t_values (L_tables L r) (TString c) = TTable m then Done (p, L)
           else LuaError (ArgError i (c @ '' expected, got userdata'')) L1)"
proof -
  have "CheckUserType i c L = check_loop i c (L\<lparr>L_stack := L_stack L @ [t_values (L_tables L r) (TString c), TTable m]\<rparr>)"
  proof -
    have "lua_getfield LUA_REGISTRYINDEX c L = Done (push (t_values (L_tables L r) (TString c)) L)"
      using assms(1) by (simp add: getfield_raw [where h = r] lua_ready_def)
    moreover have "nat i - 1 < length (L_stack L)" using assms(2,3) by simp
    ultimately show ?thesis
      using assms(2-6) by (simp add: CheckUserType_def lua_getmetatable_def at_index_def index2adr_def nth_append metatable_of_def)
  qed
  moreover obtain L1 where "check_loop i c (L\<lparr>L_stack := L_stack L @ [t_values (L_tables L r) (TString c), TTable m]\<rparr>) =
     Some (if \<exists>m \<in> set ms. t_values (L_tables L r) (TString c) = TTable m then Done (p, L\<lparr>L_stack := L_stack L\<rparr>)
           else LuaError (ArgError i (c @ '' expected, got userdata'')) L1)"
    using check_chain [OF assms(7,2-5)] by blast
  moreover have "L\<lparr>L_stack := L_stack L\<rparr> = L" by simp
  ultimately show ?thesis by (intro exI [of _ L1]) simp
qed

section \<open>Classes and their objects as types\<close>

text \<open>
  The classes registered, each with its base class, and the class of each object known by its address.
\<close>

record binder_types =
  bt_base :: "string \<rightharpoonup> string option"
  bt_obj :: "nat \<rightharpoonup> string"

inductive class_chain :: "binder_types \<Rightarrow> string \<Rightarrow> string list \<Rightarrow> bool" where
  root_class: "bt_base T c = Some None \<Longrightarrow> class_chain T c [c]"
| derived_class: "bt_base T c = Some (Some b) \<Longrightarrow> class_chain T b cs \<Longrightarrow> class_chain T c (c # cs)"

text \<open>The names of the chain from a class on, for at most so many steps.\<close>

fun ancestors :: "nat \<Rightarrow> binder_types \<Rightarrow> string \<Rightarrow> string list" where
  "ancestors 0 T c = []"
| "ancestors (Suc n) T c =
     (case bt_base T c of None \<Rightarrow> [] | Some None \<Rightarrow> [c] | Some (Some b) \<Rightarrow> c # ancestors n T b)"

datatype binder_op = RegisterClass string "string option" "(string \<times> string) list" string | PushObject nat string

fun binder_step :: "(lua_error \<Rightarrow> string) \<Rightarrow> binder_op \<Rightarrow> lua_state \<Rightarrow> lua_state lua_out" where
  "binder_step message (RegisterClass c b l d) L =
     RegisterInitFunction message (''luaopen_'' @ c) (\<lambda>L. lua_then (binder_Init c b l d L) (\<lambda>L1. Done (1, L1))) L"
| "binder_step message (PushObject p c) L = PushUserType p c L"

fun type_step :: "binder_types \<Rightarrow> binder_op \<Rightarrow> binder_types" where
  "type_step T (RegisterClass c b l d) = T\<lparr>bt_base := (bt_base T)(c \<mapsto> b)\<rparr>"
| "type_step T (PushObject p c) = T\<lparr>bt_obj := (bt_obj T)(p \<mapsto> c)\<rparr>"

fun op_ok :: "string set \<Rightarrow> binder_types \<Rightarrow> binder_op \<Rightarrow> bool" where
  "op_ok N T (RegisterClass c b l d) \<longleftrightarrow> c \<in> N \<and> bt_base T c = None \<and> (case b of None \<Rightarrow> True | Some b \<Rightarrow> bt_base T b \<noteq> None)"
| "op_ok N T (PushObject p c) \<longleftrightarrow> bt_base T c \<noteq> None"

text \<open>Every class has its metatable, linked to that of the base class; every object known has its user datum.\<close>

definition class_typed :: "binder_types \<Rightarrow> lua_state \<Rightarrow> nat \<Rightarrow> nat \<Rightarrow> nat \<Rightarrow> (string \<Rightarrow> nat) \<Rightarrow> string \<Rightarrow> string option \<Rightarrow> bool" where
  "class_typed T L r g ld mt c b \<longleftrightarrow> t_values (L_tables L r) (TString c) = TTable (mt c) \<and> mt c < L_next L \<and> mt c \<notin> {r, g, ld}
     \<and> t_meta (L_tables L (mt c)) = None
     \<and> t_values (L_tables L (mt c)) (TString ''_base'') = (case b of None \<Rightarrow> TNil | Some b' \<Rightarrow> TTable (mt b'))
     \<and> (case b of None \<Rightarrow> True | Some b' \<Rightarrow> bt_base T b' \<noteq> None) \<and> (\<exists>cs. class_chain T c cs)"

definition object_typed :: "binder_types \<Rightarrow> lua_state \<Rightarrow> nat \<Rightarrow> (string \<Rightarrow> nat) \<Rightarrow> nat \<Rightarrow> bool" where
  "object_typed T L g mt p \<longleftrightarrow>
     (case bt_obj T p of
        None \<Rightarrow> t_values (L_tables L g) (TLight p) = TNil
      | Some c \<Rightarrow> bt_base T c \<noteq> None \<and>
          (\<exists>u. t_values (L_tables L g) (TLight p) = TUser u \<and> u < L_next L \<and> L_users L u = \<lparr>u_block = Some p, u_meta = Some (mt c)\<rparr>))"

definition binder_typed :: "string set \<Rightarrow> binder_types \<Rightarrow> lua_state \<Rightarrow> nat \<Rightarrow> nat \<Rightarrow> nat \<Rightarrow> (string \<Rightarrow> nat) \<Rightarrow> bool" where
  "binder_typed N T L r g ld mt \<longleftrightarrow> lua_ready L r g ld \<and> L_func L = None
     \<and> (\<forall>c \<in> N. bt_base T c = None \<longrightarrow> free_name L r g ld c)
     \<and> (\<forall>c b. bt_base T c = Some b \<longrightarrow> class_typed T L r g ld mt c b)
     \<and> inj_on mt (dom (bt_base T)) \<and> (\<forall>p. object_typed T L g mt p)"

lemma class_chain_extend:
  "class_chain T c cs \<Longrightarrow> bt_base T n = None \<Longrightarrow> class_chain (T\<lparr>bt_base := (bt_base T)(n \<mapsto> b)\<rparr>) c cs"
  by (induction rule: class_chain.induct) (auto intro!: class_chain.intros)

lemma class_chain_obj: "class_chain (T\<lparr>bt_obj := x\<rparr>) c cs = class_chain T c cs"
proof -
  have "class_chain T c cs \<Longrightarrow> class_chain (T\<lparr>bt_obj := x\<rparr>) c cs" for T x
    by (induction rule: class_chain.induct) (auto intro: class_chain.intros)
  from this [of T x] this [of "T\<lparr>bt_obj := x\<rparr>" "bt_obj T"] show ?thesis by auto
qed

lemma register_class_made:
  assumes "lua_ready L r g ld" "free_name L r g ld c" "L_func L = None"
  shows "\<exists>L1 L'. binder_step message (RegisterClass c b l d) L = Done (L1\<lparr>L_stack := L_stack L, L_func := None\<rparr>)
     \<and> class_made r g ld c b L' L1 \<and> L_next L \<le> L_next L' \<and> L_tables L' = L_tables L \<and> L_users L' = L_users L"
proof -
  define L0 where "L0 = L\<lparr>L_closures := (L_closures L)(L_next L := \<lparr>c_fun = ''luaopen_'' @ c, c_env = g\<rparr>), L_next := Suc (L_next L),
    L_stack := [], L_func := Some (L_next L)\<rparr>"
  have start: "lua_ready L0 r g ld" "free_name L0 r g ld c" "L_func L0 = Some (L_next L)" "L_next L < L_next L0"
    using assms by (simp_all add: L0_def lua_ready_def free_name_def)
  from binder_Init_made [OF start] obtain L1 where L1: "binder_Init c b l d L0 = Done L1" "class_made r g ld c b L0 L1"
    by blast
  have "binder_step message (RegisterClass c b l d) L = Done (L1\<lparr>L_stack := L_stack L, L_func := None\<rparr>)"
    using assms L1(1) [unfolded L0_def append.simps]
    by (simp add: RegisterInitFunction_def lua_pushcfunction_def getcurrenv_def lua_ready_def lua_pcall_0_def Let_def)
  with L1(2) show ?thesis by (intro exI [of _ L1] exI [of _ L0]) (simp add: L0_def)
qed

lemma register_typed:
  assumes "binder_typed N T L r g ld mt" "op_ok N T (RegisterClass c b l d)"
  shows "\<exists>L' mt'. binder_step message (RegisterClass c b l d) L = Done L' \<and> L_stack L' = L_stack L
     \<and> binder_typed N (type_step T (RegisterClass c b l d)) L' r g ld mt'"
proof -
  have ready: "lua_ready L r g ld" and free: "free_name L r g ld c" and fn: "L_func L = None" and new: "bt_base T c = None"
    using assms by (auto simp: binder_typed_def)
  from register_class_made [OF ready free fn] obtain L1 L0 where L1:
    "binder_step message (RegisterClass c b l d) L = Done (L1\<lparr>L_stack := L_stack L, L_func := None\<rparr>)"
    "class_made r g ld c b L0 L1" "L_next L \<le> L_next L0" "L_tables L0 = L_tables L" "L_users L0 = L_users L" by blast
  define L' where "L' = L1\<lparr>L_stack := L_stack L, L_func := None\<rparr>"
  define T' where "T' = type_step T (RegisterClass c b l d)"
  from L1(2) obtain lib m where made: "lua_ready L1 r g ld" "L_next L0 \<le> m" "m < L_next L1" "t_meta (L_tables L1 m) = None"
      "t_values (L_tables L1 m) (TString ''_base'') = (case b of None \<Rightarrow> TNil | Some b \<Rightarrow> t_values (L_tables L1 r) (TString b))"
      "t_values (L_tables L1 r) = (t_values (L_tables L r))(TString c := TTable m)"
      "t_values (L_tables L1 g) = (t_values (L_tables L g))(TString c := TTable lib)"
      "t_values (L_tables L1 ld) = (t_values (L_tables L ld))(TString c := TTable lib)"
      "\<And>h. h < L_next L \<Longrightarrow> h \<notin> {r, g, ld} \<Longrightarrow> L_tables L1 h = L_tables L h" "L_users L1 = L_users L" "L_next L \<le> L_next L1"
    using L1(3-5) unfolding class_made_def by fastforce
  define mt' where "mt' = mt(c := m)"
  have m: "L_next L \<le> m" "m \<notin> {r, g, ld}" using made(2) L1(3) ready by (auto simp: lua_ready_def)
  have old: "class_typed T L r g ld mt c' b'" if "bt_base T c' = Some b'" for c' b'
    using assms(1) that by (simp add: binder_typed_def)
  have base_known: "bt_base T b' \<noteq> None" if "b = Some b'" for b' using assms(2) that by simp
  have chain_old: "class_chain T c' cs \<Longrightarrow> class_chain T' c' cs" for c' cs
    by (simp add: T'_def class_chain_extend new)
  have "class_typed T' L' r g ld mt' c' b'" if "bt_base T' c' = Some b'" for c' b'
  proof (cases "c' = c")
    case True
    have b: "b' = b" using that by (simp add: T'_def True)
    have chain: "\<exists>cs. class_chain T' c cs"
    proof (cases b)
      case None
      then show ?thesis by (intro exI [of _ "[c]"] root_class) (simp add: T'_def)
    next
      case (Some b1)
      then obtain cs where "class_chain T b1 cs" using base_known old by (fastforce simp: class_typed_def)
      then show ?thesis using Some by (intro exI [of _ "c # cs"] derived_class [of _ _ b1] chain_old) (simp_all add: T'_def)
    qed
    have bv: "t_values (L_tables L r) (TString b1) = TTable (mt b1)" "b1 \<noteq> c" if "b = Some b1" for b1
      using base_known [OF that] old new by (fastforce simp: class_typed_def)+
    show ?thesis
      unfolding True b class_typed_def
      using made(3-6) m(2) chain bv base_known
      by (cases b) (auto simp: L'_def mt'_def T'_def)
  next
    case False
    have t: "class_typed T L r g ld mt c' b'" using that False old by (simp add: T'_def)
    have known: "bt_base T b1 \<noteq> None" "b1 \<noteq> c" if "b' = Some b1" for b1 using t that new by (auto simp: class_typed_def)
    have "L_tables L1 (mt c') = L_tables L (mt c')" using t made(9) by (simp add: class_typed_def)
    then show ?thesis
      using t False made(6,11) known chain_old by (cases b') (auto simp: class_typed_def L'_def mt'_def T'_def)
  qed
  moreover have "object_typed T' L' g mt' p" for p
  proof -
    have "object_typed T L g mt p" using assms(1) by (simp add: binder_typed_def)
    then show ?thesis
      using made(7,10,11) new by (auto simp: object_typed_def L'_def T'_def mt'_def split: option.splits)
  qed
  moreover have "inj_on mt' (dom (bt_base T'))"
  proof -
    have "mt c' < L_next L" if "c' \<in> dom (bt_base T)" for c' using old that by (auto simp: class_typed_def)
    then have "m \<notin> mt ` dom (bt_base T)" using m(1) by fastforce
    moreover have "inj_on mt (dom (bt_base T))" using assms(1) by (simp add: binder_typed_def)
    ultimately show ?thesis using new by (simp add: T'_def mt'_def inj_on_fun_updI domIff) (auto simp: inj_on_def domIff)
  qed
  moreover have "\<forall>c' \<in> N. bt_base T' c' = None \<longrightarrow> free_name L' r g ld c'"
  proof (intro ballI impI)
    fix c' assume "c' \<in> N" "bt_base T' c' = None"
    then have "free_name L r g ld c'" "c' \<noteq> c" using assms(1) by (auto simp: binder_typed_def T'_def split: if_splits)
    then show "free_name L' r g ld c'" using made(6-8) by (simp add: free_name_def L'_def)
  qed
  moreover have "lua_ready L' r g ld" using made(1) by (simp add: L'_def lua_ready_def)
  ultimately have "binder_typed N T' L' r g ld mt'" by (simp add: binder_typed_def L'_def)
  then show ?thesis using L1(1) by (intro exI [of _ L'] exI [of _ mt']) (simp add: L'_def T'_def)
qed

lemma typed_stack [simp]:
  "lua_ready (L\<lparr>L_stack := s\<rparr>) r g ld = lua_ready L r g ld" "free_name (L\<lparr>L_stack := s\<rparr>) r g ld c = free_name L r g ld c"
  "class_typed T (L\<lparr>L_stack := s\<rparr>) r g ld mt c b = class_typed T L r g ld mt c b"
  "object_typed T (L\<lparr>L_stack := s\<rparr>) g mt p = object_typed T L g mt p"
  by (simp_all add: lua_ready_def free_name_def class_typed_def object_typed_def split: option.split)

lemma push_typed:
  assumes "binder_typed N T L r g ld mt" "bt_base T c \<noteq> None"
  shows "\<exists>L' u. PushUserType p c L = Done L' \<and> L_stack L' = L_stack L @ [TUser u] \<and> u_block (L_users L' u) = Some p
     \<and> u_meta (L_users L' u) = Some (mt c) \<and> binder_typed N (T\<lparr>bt_obj := (bt_obj T)(p \<mapsto> c)\<rparr>) L' r g ld mt"
proof -
  let ?T = "T\<lparr>bt_obj := (bt_obj T)(p \<mapsto> c)\<rparr>"
  have ready: "lua_ready L r g ld" and objs: "object_typed T L g mt q" for q
    using assms(1) by (simp_all add: binder_typed_def)
  obtain b where b: "bt_base T c = Some b" using assms(2) by blast
  then have mc: "t_values (L_tables L r) (TString c) = TTable (mt c)"
    using assms(1) by (auto simp: binder_typed_def class_typed_def)
  have chains: "class_chain ?T d cs = class_chain T d cs" for d cs by (simp add: class_chain_obj)
  have rg: "r \<noteq> g" "ld \<noteq> g" "g < L_next L" using ready by (auto simp: lua_ready_def)
  have made: "binder_typed N ?T (registered g p (Some (mt c)) L) r g ld mt" (is "binder_typed N ?T ?L r g ld mt")
  proof -
    have ready': "lua_ready ?L r g ld" and free: "\<forall>d. free_name ?L r g ld d = free_name L r g ld d"
      using ready rg by (auto simp: registered_def lua_ready_def free_name_def)
    have cls: "class_typed ?T ?L r g ld mt d b" if "bt_base T d = Some b" for d b
    proof -
      have "class_typed T L r g ld mt d b" using assms(1) that by (simp add: binder_typed_def)
      then show ?thesis using rg by (cases b) (simp_all add: class_typed_def chains registered_def)
    qed
    have "object_typed ?T ?L g mt q" for q
    proof (cases "q = p")
      case True
      then show ?thesis using assms(2) rg by (simp add: object_typed_def registered_def)
    next
      case False
      show ?thesis
      proof (cases "bt_obj T q")
        case None
        then show ?thesis using objs [of q] False by (simp add: object_typed_def registered_def)
      next
        case (Some c')
        then obtain u where "t_values (L_tables L g) (TLight q) = TUser u" "u < L_next L"
          "L_users L u = \<lparr>u_block = Some q, u_meta = Some (mt c')\<rparr>" "bt_base T c' \<noteq> None"
          using objs [of q] by (auto simp: object_typed_def)
        then show ?thesis using Some False by (simp add: object_typed_def registered_def)
      qed
    qed
    then show ?thesis
      using assms(1) ready' free cls by (simp add: binder_typed_def) (simp add: registered_def)
  qed
  show ?thesis
  proof (cases "\<exists>c'. bt_obj T p = Some c' \<and> mt c' = mt c")
    case True
    then obtain c' where c': "bt_obj T p = Some c'" "mt c' = mt c" by blast
    then obtain u where u: "t_values (L_tables L g) (TLight p) = TUser u" "L_users L u = \<lparr>u_block = Some p, u_meta = Some (mt c)\<rparr>"
      "bt_base T c' \<noteq> None"
      using objs [of p] by (auto simp: object_typed_def)
    have "c' = c" using assms c'(2) u(3) by (auto simp: binder_typed_def inj_on_def dom_def)
    then have T: "?T = T" using c'(1) by (simp add: fun_upd_idem)
    have "PushUserType p c L = Done (L\<lparr>L_stack := L_stack L @ [TUser u]\<rparr>)"
      using push_again [OF ready mc u(1)] u(2) by simp
    moreover have "binder_typed N T (L\<lparr>L_stack := L_stack L @ [TUser u]\<rparr>) r g ld mt"
      using assms(1) by (simp add: binder_typed_def)
    ultimately show ?thesis using u(2) by (intro exI [of _ "L\<lparr>L_stack := L_stack L @ [TUser u]\<rparr>"] exI [of _ u]) (simp only: T, simp)
  next
    case False
    have "PushUserType p c L = Done (registered g p (Some (mt c)) L)"
    proof (cases "bt_obj T p")
      case None
      then have "t_values (L_tables L g) (TLight p) = TNil" using objs [of p] by (simp add: object_typed_def)
      then show ?thesis using push_new [OF ready, where c = c and mt = "Some (mt c)"] mc by simp
    next
      case (Some c')
      then obtain u where u: "t_values (L_tables L g) (TLight p) = TUser u" "u_meta (L_users L u) = Some (mt c')"
        using objs [of p] by (auto simp: object_typed_def)
      then show ?thesis using push_again [OF ready mc u] False Some by simp
    qed
    then show ?thesis using made
      by (intro exI [of _ "registered g p (Some (mt c)) L"] exI [of _ "L_next L"]) (simp add: registered_def)
  qed
qed

fun binder_run :: "(lua_error \<Rightarrow> string) \<Rightarrow> binder_op list \<Rightarrow> lua_state \<Rightarrow> lua_state lua_out" where
  "binder_run message [] L = Done L"
| "binder_run message (op1 # ops) L = lua_then (binder_step message op1 L) (binder_run message ops)"

fun ops_ok :: "string set \<Rightarrow> binder_types \<Rightarrow> binder_op list \<Rightarrow> bool" where
  "ops_ok N T [] = True"
| "ops_ok N T (op1 # ops) = (op_ok N T op1 \<and> ops_ok N (type_step T op1) ops)"

lemma step_typed:
  assumes "binder_typed N T L r g ld mt" "op_ok N T op1"
  shows "\<exists>L' mt'. binder_step message op1 L = Done L' \<and> binder_typed N (type_step T op1) L' r g ld mt'"
proof (cases op1)
  case (RegisterClass c b l d)
  then show ?thesis using register_typed [OF assms(1)] assms(2) by blast
next
  case (PushObject p c)
  then show ?thesis using push_typed [OF assms(1), of c p] assms(2) by auto
qed

lemma run_typed:
  assumes "binder_typed N T L r g ld mt" "ops_ok N T ops"
  shows "\<exists>L' mt'. binder_run message ops L = Done L' \<and> binder_typed N (fold (\<lambda>x T. type_step T x) ops T) L' r g ld mt'"
  using assms
proof (induction ops arbitrary: T L mt)
  case Nil
  then show ?case by auto
next
  case (Cons x xs)
  then obtain L1 mt1 where "binder_step message x L = Done L1" "binder_typed N (type_step T x) L1 r g ld mt1"
    using step_typed by (meson ops_ok.simps(2))
  then show ?case using Cons.IH [of "type_step T x" L1 mt1] Cons.prems(2) by simp
qed

lemma typed_chain:
  assumes "binder_typed N T L r g ld mt" "class_chain T c cs"
  shows "base_chain L (mt c) (map mt cs)"
  using assms(2,1)
proof (induction rule: class_chain.induct)
  case (root_class T c)
  then have "class_typed T L r g ld mt c None" by (simp add: binder_typed_def)
  then show ?case by (auto simp: class_typed_def intro: last_class)
next
  case (derived_class T c b cs)
  then have "class_typed T L r g ld mt c (Some b)" by (simp add: binder_typed_def)
  then show ?case using derived_class by (auto simp: class_typed_def intro: next_class)
qed

lemma typed_check:
  assumes "binder_typed N T L r g ld mt" "class_chain T c cs" "d \<in> N \<or> bt_base T d \<noteq> None"
    "0 < i" "nat i \<le> length (L_stack L)" "L_stack L ! (nat i - 1) = TUser u"
    "u_block (L_users L u) = Some p" "u_meta (L_users L u) = Some (mt c)"
  shows "\<exists>L1. CheckUserType i d L = Some (if d \<in> set cs then Done (p, L) else LuaError (ArgError i (d @ '' expected, got userdata'')) L1)"
proof -
  have in_dom: "\<forall>x \<in> set cs. bt_base T x \<noteq> None" using assms(2) by (induction rule: class_chain.induct) auto
  have eq: "(\<exists>m \<in> set (map mt cs). t_values (L_tables L r) (TString d) = TTable m) \<longleftrightarrow> d \<in> set cs"
  proof (cases "bt_base T d")
    case None
    then have "t_values (L_tables L r) (TString d) = TNil" using assms(1,3) by (auto simp: binder_typed_def free_name_def)
    then show ?thesis using None in_dom by auto
  next
    case (Some b)
    then have "t_values (L_tables L r) (TString d) = TTable (mt d)" using assms(1) by (auto simp: binder_typed_def class_typed_def)
    moreover have "mt d = mt x \<longleftrightarrow> d = x" if "x \<in> set cs" for x
      using assms(1) Some in_dom that by (auto simp: binder_typed_def inj_on_def dom_def)
    ultimately show ?thesis by auto
  qed
  have ready: "lua_ready L r g ld" using assms(1) by (simp add: binder_typed_def)
  from check_user_chain [OF ready assms(4-8) typed_chain [OF assms(1,2)], where c = d] show ?thesis unfolding eq .
qed

definition no_types :: binder_types where "no_types = \<lparr>bt_base = Map.empty, bt_obj = Map.empty\<rparr>"

lemma fresh_typed:
  assumes "lua_ready L r g ld" "L_func L = None" "\<forall>c \<in> N. free_name L r g ld c" "\<forall>p. t_values (L_tables L g) (TLight p) = TNil"
  shows "binder_typed N no_types L r g ld (\<lambda>_. 0)"
  using assms by (simp add: binder_typed_def no_types_def object_typed_def)

section \<open>Properties\<close>

text \<open>C15: the binder's classes are types. Whatever classes are registered, each after its base class, and
  whatever objects are pushed of classes registered, the calls succeed, and the check of the object pushed
  last gives back its own address exactly for its class and the classes above it; for any other class
  the check raises the argument error. The state is left as it was.\<close>

theorem binder_types:
  assumes "lua_ready L r g ld" "L_func L = None" "\<forall>c \<in> N. free_name L r g ld c" "\<forall>q. t_values (L_tables L g) (TLight q) = TNil"
    and "ops_ok N no_types (ops @ [PushObject p c])"
  shows "\<exists>L' cs. binder_run message (ops @ [PushObject p c]) L = Done L'
    \<and> class_chain (fold (\<lambda>x T. type_step T x) ops no_types) c cs
    \<and> (\<forall>d \<in> N. \<exists>L1. CheckUserType (lua_gettop L') d L' =
         Some (if d \<in> set cs then Done (p, L') else LuaError (ArgError (lua_gettop L') (d @ '' expected, got userdata'')) L1))"
proof -
  have split: "ops_ok N T (ops @ [PushObject p c]) = (ops_ok N T ops \<and> bt_base (fold (\<lambda>x T. type_step T x) ops T) c \<noteq> None)" for T
    by (induction ops arbitrary: T) auto
  have run_split: "binder_run message (ops @ [PushObject p c]) L = lua_then (binder_run message ops L) (PushUserType p c)" for L
  proof (induction ops arbitrary: L)
    case Nil
    show ?case by (cases "PushUserType p c L") simp_all
  next
    case (Cons x xs)
    then show ?case by (cases "binder_step message x L") simp_all
  qed
  let ?T = "fold (\<lambda>x T. type_step T x) ops no_types"
  from run_typed [OF fresh_typed [OF assms(1-4)]] assms(5) [unfolded split] obtain L1 mt where
    L1: "binder_run message ops L = Done L1" "binder_typed N ?T L1 r g ld mt" by blast
  have known: "bt_base ?T c \<noteq> None" using assms(5) split by blast
  then obtain cs where cs: "class_chain ?T c cs" using L1(2) by (fastforce simp: binder_typed_def class_typed_def)
  from push_typed [OF L1(2) known, of p] obtain L' u where L': "PushUserType p c L1 = Done L'" "L_stack L' = L_stack L1 @ [TUser u]"
    "u_block (L_users L' u) = Some p" "u_meta (L_users L' u) = Some (mt c)"
    "binder_typed N (?T\<lparr>bt_obj := (bt_obj ?T)(p \<mapsto> c)\<rparr>) L' r g ld mt" by blast
  have "\<exists>L1. CheckUserType (lua_gettop L') d L' =
         Some (if d \<in> set cs then Done (p, L') else LuaError (ArgError (lua_gettop L') (d @ '' expected, got userdata'')) L1)"
    if "d \<in> N" for d
    by (rule typed_check [OF L'(5)]) (use cs that L'(2-4) in \<open>simp_all add: class_chain_obj lua_gettop_def nat_add_distrib\<close>)
  then show ?thesis using L1(1) L'(1) cs by (intro exI [of _ L'] exI [of _ cs]) (simp add: run_split)
qed

text \<open>C16: two things the binder does not check. The metatable of a class given in place of an object, as
  a script gets it from \<open>getmetatable\<close>, passes for an object of the class, and the null pointer is read.
  And an object of a class that was never registered, pushed a second time, takes the last two values off
  the stack of the caller.\<close>

theorem binder_misuse:
  assumes "lua_ready L r g ld" "t_values (L_tables L r) (TString d) = TTable m" "t_meta (L_tables L m) = None"
    and "t_values (L_tables L r) (TString c) = TNil" "t_values (L_tables L g) (TLight p) = TNil"
  shows "CheckUserType 1 d (L\<lparr>L_stack := [TTable m]\<rparr>) = Some Undefined
    \<and> (\<exists>L1. PushUserType p c L = Done L1 \<and> L_stack L1 = L_stack L @ [TUser (L_next L)]
        \<and> (if L_stack L = [] then PushUserType p c L1 = Undefined
           else \<exists>L2. PushUserType p c L1 = Done L2 \<and> L_stack L2 = butlast (L_stack L) @ [TUser (L_next L1)]))"
proof
  let ?L = "L\<lparr>L_stack := [TTable m]\<rparr>"
  have "lua_getfield LUA_REGISTRYINDEX d ?L = Done (?L\<lparr>L_stack := [TTable m, TTable m]\<rparr>)"
    using assms(1,2) by (simp add: getfield_raw [where h = r] lua_ready_def)
  then have "CheckUserType 1 d ?L = check_loop 1 d (L\<lparr>L_stack := [TTable m, TTable m]\<rparr>)"
    using assms(3) by (simp add: CheckUserType_def lua_getmetatable_def at_index_def index2adr_def metatable_of_def)
  also have "\<dots> = Some Undefined"
    by (rule check_loop_Inl) (simp add: check_round_def istable_top rawequal_tables [where s = "[]"] lua_touserdata_def
        at_index_def index2adr_def read_box_def)
  finally show "CheckUserType 1 d ?L = Some Undefined" .
next
  define L1 where "L1 = registered g p None L"
  have one: "PushUserType p c L = Done L1" using push_new [OF assms(1), where mt = None] assms(4,5) by (simp add: L1_def)
  have g: "g \<noteq> r" "ld \<noteq> g" "g < L_next L" using assms(1) by (auto simp: lua_ready_def)
  have "lua_ready L1 r g ld" "t_values (L_tables L1 r) (TString c) = TNil"
    "t_values (L_tables L1 g) (TLight p) = TUser (L_next L)" "u_meta (L_users L1 (L_next L)) = None"
    "L_stack L1 = L_stack L @ [TUser (L_next L)]"
    using assms(1,4) g by (auto simp: L1_def registered_def lua_ready_def)
  then have "L_stack L1 = L_stack L @ [TUser (L_next L)]
      \<and> (if L_stack L = [] then PushUserType p c L1 = Undefined
         else \<exists>L2. PushUserType p c L1 = Done L2 \<and> L_stack L2 = butlast (L_stack L) @ [TUser (L_next L1)])"
    using push_unregistered [where L = L1 and c = c and p = p and u = "L_next L"]
    by (cases "L_stack L" rule: rev_cases) (auto simp: registered_def)
  with one show "\<exists>L1. PushUserType p c L = Done L1 \<and> L_stack L1 = L_stack L @ [TUser (L_next L)]
      \<and> (if L_stack L = [] then PushUserType p c L1 = Undefined
         else \<exists>L2. PushUserType p c L1 = Done L2 \<and> L_stack L2 = butlast (L_stack L) @ [TUser (L_next L1)])" by blast
qed

section \<open>Witnesses\<close>

text \<open>A state as the library sets it up: the registry with the table of loaded modules, and the globals.\<close>

definition demo_lua :: lua_state where
  "demo_lua = \<lparr>L_stack = [], L_tables = (\<lambda>_. empty_table)(0 := \<lparr>t_values = (\<lambda>_. TNil)(TString ''_LOADED'' := TTable 2), t_meta = None\<rparr>),
     L_users = (\<lambda>_. \<lparr>u_block = None, u_meta = None\<rparr>), L_closures = (\<lambda>_. \<lparr>c_fun = [], c_env = 1\<rparr>), L_next = 3,
     L_registry = TTable 0, L_globals = TTable 1, L_typemeta = (\<lambda>_. None), L_func = None\<rparr>"

lemma demo_lua_ready: "lua_ready demo_lua 0 1 2" "L_func demo_lua = None"
  "\<forall>q. t_values (L_tables demo_lua 1) (TLight q) = TNil"
  by (simp_all add: demo_lua_def lua_ready_def)

lemma demo_lua_free: "CHR ''.'' \<notin> set c \<Longrightarrow> c \<noteq> ''_LOADED'' \<Longrightarrow> free_name demo_lua 0 1 2 c"
  by (simp add: demo_lua_def free_name_def)

text \<open>A hero is a user; a user is no hero.\<close>

definition demo_classes :: "binder_op list" where
  "demo_classes = [RegisterClass ''ObjUser'' None lib_ObjUser ''bnd_LuaDestroy_ObjUser'',
     RegisterClass ''Hero'' (Some ''ObjUser'') [] ''bnd_LuaDestroy_Hero'', PushObject 77 ''ObjUser'']"

theorem binder_types_witness:
  "\<exists>L'. binder_run (\<lambda>e. []) (demo_classes @ [PushObject 78 ''Hero'']) demo_lua = Done L'
    \<and> CheckUserType (lua_gettop L') ''ObjUser'' L' = Some (Done (78, L'))
    \<and> (\<exists>L1. CheckUserType (lua_gettop L') ''Npc'' L' = Some (LuaError (ArgError (lua_gettop L') ''Npc expected, got userdata'') L1))"
proof -
  let ?N = "{''ObjUser'', ''Hero'', ''Npc''}"
  let ?T = "fold (\<lambda>x T. type_step T x) demo_classes no_types"
  have free: "\<forall>c \<in> ?N. free_name demo_lua 0 1 2 c" by (intro ballI demo_lua_free) auto
  have ok: "ops_ok ?N no_types (demo_classes @ [PushObject 78 ''Hero''])" by (simp add: demo_classes_def no_types_def)
  have T: "bt_base ?T ''Hero'' = Some (Some ''ObjUser'')" "bt_base ?T ''ObjUser'' = Some None"
    by (simp_all add: demo_classes_def no_types_def)
  have root: "cs = [''ObjUser'']" if "class_chain ?T ''ObjUser'' cs" for cs
    using that
  proof (cases rule: class_chain.cases)
    case (derived_class b cs')
    then show ?thesis using T(2) by simp
  qed simp
  have chain: "cs = [''Hero'', ''ObjUser'']" if "class_chain ?T ''Hero'' cs" for cs
    using that
  proof (cases rule: class_chain.cases)
    case root_class
    then show ?thesis using T(1) by simp
  next
    case (derived_class b cs')
    then show ?thesis using T(1) root by simp
  qed
  from binder_types [OF demo_lua_ready(1,2) free demo_lua_ready(3) ok, of "\<lambda>e. []"] obtain L' cs where
    L': "binder_run (\<lambda>e. []) (demo_classes @ [PushObject 78 ''Hero'']) demo_lua = Done L'" "class_chain ?T ''Hero'' cs"
    "\<forall>d \<in> ?N. \<exists>L1. CheckUserType (lua_gettop L') d L' =
         Some (if d \<in> set cs then Done (78, L') else LuaError (ArgError (lua_gettop L') (d @ '' expected, got userdata'')) L1)" by blast
  have "CheckUserType (lua_gettop L') ''ObjUser'' L' = Some (Done (78, L'))" using bspec [OF L'(3), of "''ObjUser''"] chain [OF L'(2)] by simp
  moreover have "\<exists>L1. CheckUserType (lua_gettop L') ''Npc'' L' = Some (LuaError (ArgError (lua_gettop L') ''Npc expected, got userdata'') L1)"
    using bspec [OF L'(3), of "''Npc''"] chain [OF L'(2)] by simp
  ultimately show ?thesis using L'(1) by blast
qed

theorem binder_misuse_witness:
  "CheckUserType 1 ''A'' (demo_lua\<lparr>L_tables := (L_tables demo_lua)(0 := \<lparr>t_values = (\<lambda>_. TNil)(TString ''_LOADED'' := TTable 2, TString ''A'' := TTable 5),
       t_meta = None\<rparr>), L_next := 6, L_stack := [TTable 5]\<rparr>) = Some Undefined"
proof -
  let ?L = "demo_lua\<lparr>L_tables := (L_tables demo_lua)(0 := \<lparr>t_values = (\<lambda>_. TNil)(TString ''_LOADED'' := TTable 2, TString ''A'' := TTable 5),
       t_meta = None\<rparr>), L_next := 6\<rparr>"
  have "lua_ready ?L 0 1 2" "t_values (L_tables ?L 0) (TString ''A'') = TTable 5" "t_meta (L_tables ?L 5) = None"
    "t_values (L_tables ?L 0) (TString ''B'') = TNil" "t_values (L_tables ?L 1) (TLight 9) = TNil"
    by (simp_all add: demo_lua_def lua_ready_def)
  from binder_misuse [OF this] show ?thesis by simp
qed

end
