(* ===== verification/DBService.thy ===== *)
theory DBService
  imports RedisHandler PacketCodec TimeEx
begin

text \<open>
  The database service: \<open>test/DBService.h\<close>, \<open>test/DBService.cpp\<close>, \<open>test/DBStruct.h\<close>. It stores and loads
  characters over the MySQL connection and keeps a Redis connection alive. The client libraries and
  protobuf are parameters; the two libraries have separate states. Results are those of the code:
  \<open>success\<close> is 0, \<open>fail\<close> is -1. The loop over the messages of its channel is in
  \<open>DBServiceTick\<close>, the start in \<open>ServiceStart\<close>.
\<close>

section \<open>Data\<close>

definition CHAR_NAME_LENGTH :: nat where "CHAR_NAME_LENGTH = 32"
definition MAX_BLOB_INFO_LENGTH :: nat where "MAX_BLOB_INFO_LENGTH = 0xFFFF"
definition ER_DUP_ENTRY :: tuint32 where "ER_DUP_ENTRY = 1062"

definition RE_LOGIN_NAME_ALREADY_USED :: tuint32 where "RE_LOGIN_NAME_ALREADY_USED = 2"
definition RE_LOGIN_CREATE_CHAR_FAIL :: tuint32 where "RE_LOGIN_CREATE_CHAR_FAIL = 3"
definition RE_LOGIN_CREATE_CHAR_SUCCESS :: tuint32 where "RE_LOGIN_CREATE_CHAR_SUCCESS = 4"

record 't char_data =
  cd_nID :: tuint32
  cd_szCharName :: string
  cd_TitleData :: 't

record 'c db_service =
  db_mysql :: mysql_handler
  db_szBlobBuff :: string
  db_szEscapedBlobBuff :: string
  db_redis :: "'c redis_handler"

text \<open>Bytes as characters: the buffers hold both.\<close>

definition chars_of :: "tbyte list \<Rightarrow> string" where "chars_of = map (\<lambda>b. char_of (unat b))"
definition bytes_of :: "string \<Rightarrow> tbyte list" where "bytes_of = map (\<lambda>c. word_of_nat (of_char c))"

text \<open>
  The blob in a buffer, its size, and whether it was written; \<open>None\<close> for a write outside of the buffer,
  as is the closing NUL of a blob that fills it.
\<close>

definition EncodeBlob :: "'t protobuf \<Rightarrow> 't \<Rightarrow> string \<Rightarrow> tint32 \<Rightarrow> (bool \<times> string \<times> tint32) option" where
  "EncodeBlob pb rkInfo pBuff usSize =
     (let (ok, bs) = SerializePartialToArray pb rkInfo usSize;
          written = chars_of bs @ drop (length bs) pBuff;
          sz = ByteSize pb rkInfo
      in if length pBuff < length bs then None
         else if \<not> ok then Some (False, written, usSize)
         else if 0 \<le> sint sz \<and> nat (sint sz) < length pBuff
         then Some (True, written[nat (sint sz) := CHR 0x00], sz)
         else None)"

definition DecodeBlob :: "'t protobuf \<Rightarrow> 't \<Rightarrow> string \<Rightarrow> tint32 \<Rightarrow> (bool \<times> 't) option" where
  "DecodeBlob pb rkInfo pBuff usSize =
     (if sint usSize < 0 \<or> length pBuff < nat (sint usSize) then None
      else Some (ParseFromArray pb rkInfo (bytes_of (take (nat (sint usSize)) pBuff))))"

text \<open>\<open>make_real_escape_string\<close> into a buffer: the text and its NUL must fit.\<close>

definition escape_into :: "('w, 'q) mysql_api \<Rightarrow> string \<Rightarrow> string \<Rightarrow> nat \<Rightarrow> 'w \<Rightarrow> string option" where
  "escape_into api to from len w =
     (let e = snd (mh_escape api from len w)
      in if length from < len \<or> length to < length e + 1 then None
         else Some (e @ CHR 0x00 # drop (length e + 1) to))"

section \<open>Statements\<close>

definition quote :: char where "quote = CHR 0x27"

definition quoted :: "string \<Rightarrow> string" where "quoted s = quote # s @ [quote]"

text \<open>
  The formats of the statements with their arguments. \<open>%lu\<close> stands for 64 bits, and three of them are given the 32 bits of a
  \<open>tuint32\<close>: what is printed is the number when the upper half of what the call passes is 0, as it is here.
\<close>

definition insert_char_sql :: "tuint32 \<Rightarrow> string \<Rightarrow> string \<Rightarrow> string" where
  "insert_char_sql uid name title =
     ''insert into t_char (charguid, accname, charname, hp, mp, title, isvalid) values ('' @ show_nat (unat uid)
       @ '', '' @ quoted name @ '', '' @ quoted name @ '', '' @ show_int 100 @ '', '' @ show_int 100
       @ '', '' @ quoted title @ '', 1)''"

definition insert_skill_sql :: "tuint32 \<Rightarrow> string" where
  "insert_skill_sql uid = ''insert into t_char_skill (charguid, isvalid) values ('' @ show_nat (unat uid) @ '', 1)''"

definition select_char_sql :: "tuint64 \<Rightarrow> string" where
  "select_char_sql guid = ''select charname,title from t_char where charguid='' @ show_nat (unat guid) @ '' and isvalid=1''"

definition update_char_sql :: "string \<Rightarrow> tuint32 \<Rightarrow> string" where
  "update_char_sql title uid = ''update t_char set title='' @ quoted title @ '' where charguid='' @ show_nat (unat uid)"

section \<open>Characters\<close>

text \<open>Serialising may fail; the code goes on with what the buffer holds and the size of the buffer.\<close>

definition CreateChar :: "('w, 'q) mysql_api \<Rightarrow> 't protobuf \<Rightarrow> 'c db_service \<Rightarrow> tuint32 \<Rightarrow> 't char_data \<Rightarrow> 'w
    \<Rightarrow> (tuint32 \<times> 'c db_service \<times> 'w) option" where
  "CreateChar api pb s uiUserID cd w =
     (case buffer_text (cd_szCharName cd) of
        None \<Rightarrow> None
      | Some name \<Rightarrow>
     (case escape_into api (replicate (2 * CHAR_NAME_LENGTH + 1) (CHR 0x00)) (cd_szCharName cd) (length name) w of
        None \<Rightarrow> None
      | Some szName \<Rightarrow>
     (case EncodeBlob pb (cd_TitleData cd) (db_szBlobBuff s) (word_of_nat MAX_BLOB_INFO_LENGTH) of
        None \<Rightarrow> None
      | Some (_, blob, usBlobSize) \<Rightarrow>
     (case escape_into api (db_szEscapedBlobBuff s) blob (nat (sint usBlobSize)) w of
        None \<Rightarrow> None
      | Some escaped \<Rightarrow>
     (let sql = insert_char_sql uiUserID (c_string szName) (c_string escaped);
          s1 = s\<lparr>db_szBlobBuff := blob, db_szEscapedBlobBuff := escaped, db_mysql := snd (make_sql_string (db_mysql s) sql)\<rparr>
      in case executeSQL_update api (db_mysql s1) 0 0 w of
           None \<Rightarrow> None
         | Some (iRet, h1, out1, w1) \<Rightarrow>
             if my_success \<noteq> iRet
             then (let Errno = mh_last_errno api w1
                   in Some (if ER_DUP_ENTRY = Errno then RE_LOGIN_NAME_ALREADY_USED else RE_LOGIN_CREATE_CHAR_FAIL,
                        s1\<lparr>db_mysql := h1\<rparr>, w1))
             else (case executeSQL_update api (snd (make_sql_string h1 (insert_skill_sql uiUserID)))
                          (the (numaffect out1)) (the (lastid out1)) w1 of
                     None \<Rightarrow> None
                   | Some (_, h2, _, w2) \<Rightarrow> Some (RE_LOGIN_CREATE_CHAR_SUCCESS, s1\<lparr>db_mysql := h2\<rparr>, w2)))))))"

text \<open>
  The row of the result: the name, then the blob, which is parsed when it has bytes. The answer is
  the return value, the blob buffer, the result object and the character.
\<close>

definition load_row :: "'t protobuf \<Rightarrow> string \<Rightarrow> 'q mysql_result \<Rightarrow> 't char_data
    \<Rightarrow> (int \<times> string \<times> 'q mysql_result \<times> 't char_data) option" where
  "load_row pb blobBuff r cd =
     (case mysql_get_string r (Some (cd_szCharName cd)) CHAR_NAME_LENGTH of
        Some (Some name, r1) \<Rightarrow>
          (let cd1 = cd\<lparr>cd_szCharName := name\<rparr>
           in case mysql_get_blob r1 (Some blobBuff) MAX_BLOB_INFO_LENGTH of
                Some (Some blob, tBlobSize, r2) \<Rightarrow>
                  if tBlobSize > 0
                  then (case DecodeBlob pb (cd_TitleData cd1) blob (word_of_nat tBlobSize) of
                          None \<Rightarrow> None
                        | Some (ok, title) \<Rightarrow>
                            Some (if \<not> ok then my_fail else my_success, blob, r2, cd1\<lparr>cd_TitleData := title\<rparr>))
                  else Some (my_success, blob, r2, cd1)
              | _ \<Rightarrow> None)
      | _ \<Rightarrow> None)"

text \<open>The destructor of the result object frees it when the function returns.\<close>

definition LoadCharInfo :: "('w, 'q) mysql_api \<Rightarrow> 't protobuf \<Rightarrow> 'c db_service \<Rightarrow> tuint64 \<Rightarrow> 't char_data \<Rightarrow> 'w
    \<Rightarrow> (int \<times> 't char_data \<times> 'c db_service \<times> 'w) option" where
  "LoadCharInfo api pb s uCharGuid cd w =
     (let s1 = s\<lparr>db_mysql := snd (make_sql_string (db_mysql s) (select_char_sql uCharGuid))\<rparr>
      in case executeSQL_store api (db_mysql s1) 0 Mysql_Result_new w of
           None \<Rightarrow> None
         | Some (iRet, h1, out, w1) \<Rightarrow>
             let s2 = s1\<lparr>db_mysql := h1\<rparr>; db = the (dbresult out);
                 end = (\<lambda>ret cd s r w. Some (ret, cd, s, mysql_destroy (res_api api) r w))
             in if my_success = iRet \<and> the (numaffect out) > 0
                then (case mysql_fetch_next_row (res_api api) db w1 of
                        (False, r, w2) \<Rightarrow> end my_fail cd s2 r w2
                      | (True, r, w2) \<Rightarrow>
                          (case load_row pb (db_szBlobBuff s2) r cd of
                             None \<Rightarrow> None
                           | Some (ret, blob, r1, cd1) \<Rightarrow> end ret cd1 (s2\<lparr>db_szBlobBuff := blob\<rparr>) r1 w2))
                else end my_fail cd s2 db w1)"

text \<open>The result of the statement is only logged; \<open>true\<close> as an integer is 1.\<close>

definition UpdateCharInfo :: "('w, 'q) mysql_api \<Rightarrow> 't protobuf \<Rightarrow> 'c db_service \<Rightarrow> 't char_data \<Rightarrow> 'w
    \<Rightarrow> (int \<times> 'c db_service \<times> 'w) option" where
  "UpdateCharInfo api pb s cd w =
     (case EncodeBlob pb (cd_TitleData cd) (db_szBlobBuff s) (word_of_nat MAX_BLOB_INFO_LENGTH) of
        None \<Rightarrow> None
      | Some (ok, blob, usBlobSize) \<Rightarrow>
          let s1 = s\<lparr>db_szBlobBuff := blob\<rparr>
          in if \<not> ok then Some (my_fail, s1, w)
             else (case escape_into api (db_szEscapedBlobBuff s1) blob (nat (sint usBlobSize)) w of
                     None \<Rightarrow> None
                   | Some escaped \<Rightarrow>
                       let h = snd (make_sql_string (db_mysql s1) (update_char_sql (c_string escaped) (cd_nID cd)));
                           s2 = s1\<lparr>db_szEscapedBlobBuff := escaped, db_mysql := h\<rparr>
                       in case executeSQL_update api h 0 0 w of
                            None \<Rightarrow> None
                          | Some (iRet, h1, _, w1) \<Rightarrow> Some (1, s2\<lparr>db_mysql := h1\<rparr>, w1)))"

section \<open>Connections\<close>

text \<open>\<open>TickConnect\<close>, the timer's callback: a command, and a new connection when it has no answer.\<close>

definition TickConnect :: "('v, 'c, 'r) redis_api \<Rightarrow> 'c db_service \<Rightarrow> 'v \<Rightarrow> ('c db_service \<times> 'v) option" where
  "TickConnect api s v =
     (case ExecuteCommand api (db_redis s) ''TIME'' v of
        None \<Rightarrow> None
      | Some (Some reply, v1) \<Rightarrow> Some (s, snd (FreeReply api (Some reply) v1))
      | Some (None, v1) \<Rightarrow>
          let (h1, v2) = Redis_Close api (db_redis s) v1;
              (_, h2, v3) = Redis_Open api h1 ''192.168.137.129'' 6379 v2
          in Some (s\<lparr>db_redis := h2\<rparr>, v3))"

definition DB_Shutdown :: "('w, 'q) mysql_api \<Rightarrow> ('v, 'c, 'r) redis_api \<Rightarrow> 'c db_service \<Rightarrow> 'w \<Rightarrow> 'v
    \<Rightarrow> 'c db_service \<times> 'w \<times> 'v" where
  "DB_Shutdown api rapi s w v =
     (let (_, h1, w1) = mh_fini api (db_mysql s) w; (rh, v1) = Redis_Close rapi (db_redis s) v
      in (s\<lparr>db_mysql := h1, db_redis := rh\<rparr>, w1, v1))"

end
