(* ===== verification/DBServiceProps.thy ===== *)
theory DBServiceProps
  imports DBService
begin

text \<open>
  What the statements of \<open>DBService\<close> say to the server: the texts between their quotation marks are read
  back by the server's rules, and a character that was updated is loaded with the title it was given.
\<close>

section \<open>Quoted texts\<close>

text \<open>
  The server's reading of a quoted text, from behind its opening mark: the value and what follows the
  closing mark. A backslash changes the next character, and two marks are one.
\<close>

definition backslash :: char where "backslash = CHR 0x5C"

definition escaped_char :: "char \<Rightarrow> char" where
  "escaped_char c =
     (if c = CHR ''0'' then CHR 0x00 else if c = CHR ''n'' then CHR 0x0A else if c = CHR ''r'' then CHR 0x0D
      else if c = CHR ''t'' then CHR 0x09 else if c = CHR ''b'' then CHR 0x08 else if c = CHR ''Z'' then CHR 0x1A else c)"

fun lex_quoted :: "string \<Rightarrow> (string \<times> string) option" where
  "lex_quoted [] = None"
| "lex_quoted [c] = (if c = quote then Some ([], []) else None)"
| "lex_quoted (c # d # s) =
     (if c = backslash then map_option (\<lambda>(t, r). (escaped_char d # t, r)) (lex_quoted s)
      else if c = quote then (if d = quote then map_option (\<lambda>(t, r). (quote # t, r)) (lex_quoted s) else Some ([], d # s))
      else map_option (\<lambda>(t, r). (c # t, r)) (lex_quoted (d # s)))"

lemma lex_quoted_shorter: "lex_quoted s = Some (t, r) \<Longrightarrow> length r < length s"
  by (induction s arbitrary: t r rule: lex_quoted.induct) (fastforce split: if_splits)+

text \<open>The values of all quoted texts of a statement.\<close>

function sql_literals :: "string \<Rightarrow> string list option" where
  "sql_literals [] = Some []"
| "sql_literals (c # s) =
     (if c = quote then (case lex_quoted s of None \<Rightarrow> None | Some (t, r) \<Rightarrow> map_option ((#) t) (sql_literals r))
      else sql_literals s)"
  by pat_completeness auto
termination
  by (relation "measure length") (auto dest!: lex_quoted_shorter)

text \<open>
  The documented behaviour of \<open>mysql_real_escape_string\<close>: its output, put between quotation marks, stands
  for the input, has no NUL, and is at most twice as long.
\<close>

definition escape_documented :: "('w, 'q) mysql_api \<Rightarrow> bool" where
  "escape_documented api \<longleftrightarrow> (\<forall>from n w rest. n \<le> length from \<and> (rest = [] \<or> hd rest \<noteq> quote) \<longrightarrow>
     (let e = fst (mysql_escape api from n w)
      in lex_quoted (e @ quote # rest) = Some (take n from, rest) \<and> CHR 0x00 \<notin> set e \<and> length e \<le> 2 * n))"

lemma no_quotes [simp]: "list_all (\<lambda>c. c \<noteq> quote) s \<Longrightarrow> sql_literals (s @ r) = sql_literals r"
  by (induction s) auto

lemma quoted_literal:
  assumes "lex_quoted (e @ quote # rest) = Some (t, rest)"
  shows "sql_literals (quoted e @ rest) = map_option ((#) t) (sql_literals rest)"
  using assms by (simp add: quoted_def)

lemma digits_no_quote: "list_all is_digit s \<Longrightarrow> list_all (\<lambda>c. c \<noteq> quote) s"
  by (erule list.pred_mono_strong) (auto simp: is_digit_def quote_def)

lemma show_nat_no_quote [simp]: "list_all (\<lambda>c. c \<noteq> quote) (show_nat n)"
  by (rule digits_no_quote [OF show_nat_digits(1)])

lemma show_int_no_quote [simp]: "list_all (\<lambda>c. c \<noteq> quote) (show_int i)"
  by (simp add: show_int_def quote_def [symmetric]) (simp add: quote_def)

section \<open>Buffers\<close>

lemma bytes_of_chars [simp]: "bytes_of (chars_of bs) = bs"
proof (induction bs)
  case (Cons b bs)
  have "unat b < 256" using unsigned_less [of b, where 'a = nat] by simp
  thus ?case using Cons by (simp add: bytes_of_def chars_of_def)
qed (simp add: bytes_of_def chars_of_def)

lemma length_chars_of [simp]: "length (chars_of bs) = length bs"
  by (simp add: chars_of_def)

lemma chars_of_empty [simp]: "chars_of bs = [] \<longleftrightarrow> bs = []"
  by (simp add: chars_of_def)

lemma escape_into_text:
  assumes "escape_documented api" "n \<le> length from" "2 * n < length to"
  obtains to' e where "escape_into api to from n w = Some to'" "c_string to' = e" "length e \<le> 2 * n" "length to' = length to"
    "\<And>rest. rest = [] \<or> hd rest \<noteq> quote \<Longrightarrow> lex_quoted (e @ quote # rest) = Some (take n from, rest)"
proof -
  let ?e = "fst (mysql_escape api from n w)"
  have doc: "rest = [] \<or> hd rest \<noteq> quote \<Longrightarrow>
      lex_quoted (?e @ quote # rest) = Some (take n from, rest) \<and> CHR 0x00 \<notin> set ?e \<and> length ?e \<le> 2 * n" for rest
    using assms(1,2) unfolding escape_documented_def Let_def by blast
  show thesis
  proof (rule that [of "?e @ CHR 0x00 # drop (length ?e + 1) to" ?e])
    show "\<And>rest. rest = [] \<or> hd rest \<noteq> quote \<Longrightarrow> lex_quoted (?e @ quote # rest) = Some (take n from, rest)"
      using doc by blast
    show "length ?e \<le> 2 * n" "length (?e @ CHR 0x00 # drop (length ?e + 1) to) = length to"
      using doc [of "[]"] assms(3) by auto
    show "escape_into api to from n w = Some (?e @ CHR 0x00 # drop (length ?e + 1) to)"
      using doc [of "[]"] assms(2,3) by (auto simp: escape_into_def mh_escape_def Let_def split: prod.splits)
    show "c_string (?e @ CHR 0x00 # drop (length ?e + 1) to) = ?e"
      using doc [of "[]"] by (auto simp: c_string_def takeWhile_append)
  qed
qed

lemma EncodeBlob_body:
  assumes "protobuf_writes pb t" "sint (ByteSize pb t) \<le> 65534" "length buff = MAX_BLOB_INFO_LENGTH"
  obtains blob where "EncodeBlob pb t buff (word_of_nat MAX_BLOB_INFO_LENGTH) = Some (True, blob, ByteSize pb t)"
    "length blob = MAX_BLOB_INFO_LENGTH" "nat (sint (ByteSize pb t)) \<le> 65534"
    "take (nat (sint (ByteSize pb t))) blob = chars_of (snd (SerializePartialToArray pb t 65535))"
proof -
  obtain ok bs where ser: "SerializePartialToArray pb t 65535 = (ok, bs)" by (cases "SerializePartialToArray pb t 65535")
  have "sint (65535 :: tint32) = 65535" by simp
  hence w: "0 \<le> sint (ByteSize pb t)" "ok" "int (length bs) = sint (ByteSize pb t)"
    using assms(1,2) ser unfolding protobuf_writes_def by (smt (verit) fst_conv snd_conv)+
  then have n: "nat (sint (ByteSize pb t)) = length bs" by simp
  show thesis
    by (rule that [of "(chars_of bs @ drop (length bs) buff)[length bs := CHR 0x00]"])
      (use assms w ser n in \<open>simp_all add: EncodeBlob_def MAX_BLOB_INFO_LENGTH_def\<close>)
qed

section \<open>Statements\<close>

lemma sql_literals_fixed:
  "list_all (\<lambda>c. c \<noteq> quote) s \<Longrightarrow> sql_literals s = Some []"
  using no_quotes [of s "[]"] by simp

lemma insert_literals:
  assumes "\<And>rest. hd rest \<noteq> quote \<Longrightarrow> lex_quoted (en @ quote # rest) = Some (name, rest)"
    and "\<And>rest. hd rest \<noteq> quote \<Longrightarrow> lex_quoted (eb @ quote # rest) = Some (blob, rest)"
  shows "sql_literals (insert_char_sql uid en eb) = Some [name, name, blob]"
proof -
  have comma: "sql_literals ('', '' @ r) = sql_literals r" for r by (simp add: quote_def)
  have lits: "sql_literals (quoted en @ '', '' @ r) = map_option ((#) name) (sql_literals r)"
    "sql_literals (quoted eb @ '', 1)'') = Some [blob]" for r
    using quoted_literal [OF assms(1), of "'', '' @ r"] quoted_literal [OF assms(2), of "'', 1)''"]
    by (simp_all add: quote_def)
  show ?thesis
    unfolding insert_char_sql_def
    by (subst no_quotes, simp add: quote_def, subst no_quotes, simp, subst comma, subst lits(1), subst lits(1),
        subst no_quotes, simp, subst comma, subst no_quotes, simp, subst comma, subst lits(2)) simp
qed

lemma sql_fits: "length sql < MAX_SQL_STRING_LENGTH \<Longrightarrow> make_sql_string h sql = (my_success, h\<lparr>m_szSQL := sql\<rparr>)"
  by (simp add: make_sql_string_def snprintf_text_def)

lemma show_uint32_length: "length (show_nat (unat (u :: tuint32))) \<le> 10"
proof -
  have "unat u < 10 ^ 10" using unsigned_less [of u, where 'a = nat] by simp
  thus ?thesis by (rule show_nat_length) simp
qed

lemma show_uint64_length: "length (show_nat (unat (u :: tuint64))) \<le> 20"
proof -
  have "unat u < 10 ^ 20" using unsigned_less [of u, where 'a = nat] by simp
  thus ?thesis by (rule show_nat_length) simp
qed

lemma buffer_text_short:
  assumes "buffer_text b = Some t"
  shows "t = c_string b" "length t < length b" "length t \<le> length b" "take (length t) b = t"
proof -
  have t: "t = takeWhile (\<lambda>c. c \<noteq> CHR 0x00) b" "CHR 0x00 \<in> set b"
    using assms by (simp_all add: buffer_text_def c_string_def split: if_splits)
  thus "t = c_string b" by (simp add: c_string_def)
  have "t \<noteq> b" using t by (auto dest: set_takeWhileD)
  thus "length t < length b" "length t \<le> length b"
    using t length_takeWhile_le [of "\<lambda>c. c \<noteq> CHR 0x00" b]
    by (metis le_neq_implies_less takeWhile_eq_take take_all_iff order_refl)+
  show "take (length t) b = t" by (simp add: t takeWhile_eq_take [symmetric])
qed

lemma show_100: "length (show_int 100) = 3"
  by (simp add: show_int_def show_nat_def digits_rev.simps)

section \<open>A server with the table of characters\<close>

text \<open>
  What the server and its client library are documented to do for two statements: an update sets the title
  of the row with the number to the value of the quoted text; a select has one row, the name and the title,
  with their lengths, when there is such a row, and none otherwise.
\<close>

definition char_server :: "('w, 'q) mysql_api \<Rightarrow> ('w \<Rightarrow> nat \<Rightarrow> (string \<times> string) option) \<Rightarrow> bool" where
  "char_server api table \<longleftrightarrow>
     (\<forall>w r w1. mysql_ping api w = (r, w1) \<longrightarrow> r = mysql_success \<and> table w1 = table w) \<and>
     (\<forall>w e v uid r w1. lex_quoted (e @ quote # '' where charguid='' @ show_nat (unat uid)) = Some (v, '' where charguid='' @ show_nat (unat uid)) \<and>
        mysql_real_query api (update_char_sql e uid) (length (update_char_sql e uid)) w = (r, w1) \<longrightarrow>
        r = mysql_success \<and> table w1 = (table w)(unat uid := map_option (\<lambda>(n, _). (n, v)) (table w (unat uid)))) \<and>
     (\<forall>w guid n v r w1 q w2. table w (unat guid) = Some (n, v) \<and>
        mysql_real_query api (select_char_sql guid) (length (select_char_sql guid)) w = (r, w1) \<and> mysql_store_result api w1 = (q, w2) \<longrightarrow>
        r = mysql_success \<and> mysql_affected_rows api w2 = 1 \<and>
        (\<exists>q1 w3. q = Some q1 \<and> mysql_num_fields api w2 q1 = 2 \<and> mysql_fetch_row api w2 q1 = (Some [Some n, Some v], w3) \<and>
           mysql_fetch_lengths api w3 q1 = Some [length n, length v]))"

lemma server_ping:
  assumes "char_server api table"
  obtains w1 where "mysql_ping api w = (mysql_success, w1)" "table w1 = table w"
  using assms that by (cases "mysql_ping api w") (auto simp: char_server_def)

lemma server_update:
  assumes "char_server api table"
    and "\<And>rest. rest = [] \<or> hd rest \<noteq> quote \<Longrightarrow> lex_quoted (e @ quote # rest) = Some (v, rest)"
  obtains w1 where "mysql_real_query api (update_char_sql e uid) (length (update_char_sql e uid)) w = (mysql_success, w1)"
    "table w1 = (table w)(unat uid := map_option (\<lambda>(n, _). (n, v)) (table w (unat uid)))"
proof -
  obtain r w1 where query: "mysql_real_query api (update_char_sql e uid) (length (update_char_sql e uid)) w = (r, w1)"
    by fastforce
  have "lex_quoted (e @ quote # '' where charguid='' @ show_nat (unat uid)) = Some (v, '' where charguid='' @ show_nat (unat uid))"
    by (rule assms(2)) (simp add: quote_def)
  with assms(1) query have "r = mysql_success \<and> table w1 = (table w)(unat uid := map_option (\<lambda>(n, _). (n, v)) (table w (unat uid)))"
    unfolding char_server_def by blast
  thus thesis using that query by blast
qed

lemma server_select:
  assumes "char_server api table" "table w (unat guid) = Some (n, v)"
  obtains w1 q w2 w3 where "mysql_real_query api (select_char_sql guid) (length (select_char_sql guid)) w = (mysql_success, w1)"
    "mysql_store_result api w1 = (Some q, w2)" "mysql_affected_rows api w2 = 1" "mysql_num_fields api w2 q = 2"
    "mysql_fetch_row api w2 q = (Some [Some n, Some v], w3)" "mysql_fetch_lengths api w3 q = Some [length n, length v]"
proof -
  obtain r w1 where query: "mysql_real_query api (select_char_sql guid) (length (select_char_sql guid)) w = (r, w1)"
    by fastforce
  obtain q w2 where "mysql_store_result api w1 = (q, w2)" by fastforce
  with query assms have "r = mysql_success \<and> mysql_affected_rows api w2 = 1 \<and>
        (\<exists>q1 w3. q = Some q1 \<and> mysql_num_fields api w2 q1 = 2 \<and> mysql_fetch_row api w2 q1 = (Some [Some n, Some v], w3) \<and>
           mysql_fetch_lengths api w3 q1 = Some [length n, length v])"
    unfolding char_server_def by blast
  thus thesis using that query \<open>mysql_store_result api w1 = (q, w2)\<close> by blast
qed

lemma executed:
  assumes "is_connected h" "mysql_ping api w = (mysql_success, w1)"
    and "mysql_real_query api (m_szSQL h) (length (m_szSQL h)) w1 = (mysql_success, w2)"
  shows "executeSQL_update api h a l w = Some (my_success, h,
      \<lparr>numaffect = Some (word_of_nat (mysql_affected_rows api w2)), lastid = Some (word_of_nat (mysql_insert_id api w2)),
       dbresult = None\<rparr>, w2)"
    and "mysql_store_result api w2 = (Some q, w3) \<Longrightarrow> executeSQL_store api h a Mysql_Result_new w = Some (my_success, h,
      \<lparr>numaffect = Some (word_of_nat (mysql_affected_rows api w3)), lastid = None,
       dbresult = Some (Mysql_Result_new\<lparr>my_result := Some q, my_row_count := word_of_nat (mysql_num_rows api w3 q),
         my_field_count := word_of_nat (mysql_num_fields api w3 q)\<rparr>)\<rparr>, w3)"
  using assms
  by (simp_all add: executeSQL_update_def executeSQL_store_def mh_execute_def mh_ready_def mysql_set_result_def
      Mysql_Result_new_def mysql_res_api.defs)

lemma load_row_values:
  assumes "my_row r = Some [Some n, Some v]" "my_lengths r = Some [length n, length v]" "my_field r = 0" "my_field_count r = 2"
    and "length n < CHAR_NAME_LENGTH" "length (cd_szCharName cd) = CHAR_NAME_LENGTH"
    and "length v \<le> MAX_BLOB_INFO_LENGTH" "length blobBuff = MAX_BLOB_INFO_LENGTH"
    and "if v = [] then t = cd_TitleData cd else ParseFromArray pb (cd_TitleData cd) (bytes_of v) = (True, t)"
  obtains blob r1 name where "load_row pb blobBuff r cd = Some (my_success, blob, r1, cd\<lparr>cd_szCharName := name, cd_TitleData := t\<rparr>)"
    "buffer_text name = Some (c_string n)"
proof -
  let ?name = "n @ CHR 0x00 # drop (length n + 1) (cd_szCharName cd)"
  have field: "my_field (mysql_advance r) = 1" using assms(3,4) by (simp add: mysql_advance_def)
  have string: "mysql_get_string r (Some (cd_szCharName cd)) CHAR_NAME_LENGTH = Some (Some ?name, mysql_advance r)"
    using assms(1-3,5,6) by (simp add: mysql_get_string_def mysql_cell_def mysql_length_def copy_field_def)
  have same: "my_row (mysql_advance r) = my_row r" "my_lengths (mysql_advance r) = my_lengths r"
    by (simp_all add: mysql_advance_def)
  have blob: "mysql_get_blob (mysql_advance r) (Some blobBuff) MAX_BLOB_INFO_LENGTH
      = Some (Some (v @ drop (length v) blobBuff), length v, mysql_advance (mysql_advance r))"
    using assms(1,2,7,8) by (simp add: mysql_get_blob_def mysql_cell_def mysql_length_def copy_field_def field same)
  have "sint (word_of_nat (length v) :: tint32) = int (length v)"
    using assms(7) by (intro sint_small) (simp add: MAX_BLOB_INFO_LENGTH_def)
  hence decode: "v \<noteq> [] \<Longrightarrow> DecodeBlob pb (cd_TitleData cd) (v @ drop (length v) blobBuff) (word_of_nat (length v)) = Some (True, t)"
    using assms(9) by (simp add: DecodeBlob_def)
  have kept: "v = [] \<Longrightarrow> cd\<lparr>cd_szCharName := x, cd_TitleData := t\<rparr> = cd\<lparr>cd_szCharName := x\<rparr>" for x
    using assms(9) by (cases cd) simp
  have loaded: "load_row pb blobBuff r cd = Some (my_success, v @ drop (length v) blobBuff, mysql_advance (mysql_advance r),
      cd\<lparr>cd_szCharName := ?name, cd_TitleData := t\<rparr>)"
    using decode kept by (cases "v = []") (simp_all add: load_row_def string blob)
  show thesis
    by (rule that [OF loaded]) (auto simp: buffer_text_def c_string_def takeWhile_append
        intro: takeWhile_eq_all_conv [THEN iffD2, symmetric])
qed

section \<open>Properties\<close>


text \<open>A character that is stored is loaded with what parsing gives for the bytes of its title, and with the title that was
  there when there are no bytes: what \<open>update_then_load\<close> rests on, over any message class.\<close>

lemma stored_title_loaded:
  assumes "char_server api table" "escape_documented api" "protobuf_writes pb (cd_TitleData cd)"
    and "if snd (SerializePartialToArray pb (cd_TitleData cd) 65535) = [] then t = cd_TitleData cd'
      else ParseFromArray pb (cd_TitleData cd') (snd (SerializePartialToArray pb (cd_TitleData cd) 65535)) = (True, t)"
    and "sint (ByteSize pb (cd_TitleData cd)) \<le> 65400"
    and "is_connected (db_mysql s)" "length (db_szBlobBuff s) = MAX_BLOB_INFO_LENGTH"
    and "length (db_szEscapedBlobBuff s) = 2 * MAX_BLOB_INFO_LENGTH + 1"
    and "table w (unat (cd_nID cd)) = Some (name, old)" "length name < CHAR_NAME_LENGTH"
    and "length (cd_szCharName cd') = CHAR_NAME_LENGTH"
  shows "\<exists>s1 w1 cd1 s2 w2. UpdateCharInfo api pb s cd w = Some (1, s1, w1) \<and>
    LoadCharInfo api pb s1 (ucast (cd_nID cd)) cd' w1 = Some (my_success, cd1, s2, w2) \<and>
    cd_TitleData cd1 = t \<and> buffer_text (cd_szCharName cd1) = Some (c_string name)"
proof -
  let ?body = "snd (SerializePartialToArray pb (cd_TitleData cd) 65535)"
  let ?n = "nat (sint (ByteSize pb (cd_TitleData cd)))"
  obtain blob where blob: "EncodeBlob pb (cd_TitleData cd) (db_szBlobBuff s) (word_of_nat MAX_BLOB_INFO_LENGTH)
      = Some (True, blob, ByteSize pb (cd_TitleData cd))"
    "length blob = MAX_BLOB_INFO_LENGTH" "take ?n blob = chars_of ?body"
    by (rule EncodeBlob_body [OF assms(3) _ assms(7)]) (use assms(5) in auto)
  obtain escaped eb where eb: "escape_into api (db_szEscapedBlobBuff s) blob ?n w = Some escaped"
    "c_string escaped = eb" "length eb \<le> 2 * ?n"
    "\<And>rest. rest = [] \<or> hd rest \<noteq> quote \<Longrightarrow> lex_quoted (eb @ quote # rest) = Some (chars_of ?body, rest)"
    by (rule escape_into_text [OF assms(2), of ?n blob "db_szEscapedBlobBuff s" w])
      (use blob(2,3) assms(5,8) in \<open>simp_all add: MAX_BLOB_INFO_LENGTH_def\<close>)
  have body: "length ?body \<le> MAX_BLOB_INFO_LENGTH"
  proof -
    have "length (chars_of ?body) = ?n" using blob(2) assms(5) by (simp add: blob(3) [symmetric] MAX_BLOB_INFO_LENGTH_def)
    thus "length ?body \<le> MAX_BLOB_INFO_LENGTH" using assms(5) by (auto simp: MAX_BLOB_INFO_LENGTH_def)
  qed
  let ?sql = "update_char_sql eb (cd_nID cd)"
  have "length ?sql < MAX_SQL_STRING_LENGTH"
    using show_uint32_length [of "cd_nID cd"] eb(3) assms(5)
    by (simp add: update_char_sql_def quoted_def MAX_SQL_STRING_LENGTH_def)
  note sql = sql_fits [OF this]
  obtain w0 where ping: "mysql_ping api w = (mysql_success, w0)" "table w0 = table w"
    by (rule server_ping [OF assms(1)])
  obtain wq where upd: "mysql_real_query api ?sql (length ?sql) w0 = (mysql_success, wq)"
    "table wq = (table w0)(unat (cd_nID cd) := map_option (\<lambda>(n, _). (n, chars_of ?body)) (table w0 (unat (cd_nID cd))))"
    by (rule server_update [OF assms(1) eb(4)])
  define s1 where "s1 = s\<lparr>db_szBlobBuff := blob, db_szEscapedBlobBuff := escaped, db_mysql := (db_mysql s)\<lparr>m_szSQL := ?sql\<rparr>\<rparr>"
  have update: "UpdateCharInfo api pb s cd w = Some (1, s1, wq)"
    using executed(1) [OF _ ping(1), of "(db_mysql s)\<lparr>m_szSQL := ?sql\<rparr>" wq 0 0] upd(1) assms(6)
    by (simp add: UpdateCharInfo_def blob(1) eb(1,2) sql s1_def Let_def)
  let ?guid = "ucast (cd_nID cd) :: tuint64"
  obtain wp where ping2: "mysql_ping api wq = (mysql_success, wp)" "table wp = table wq"
    by (rule server_ping [OF assms(1)])
  have "unat ?guid = unat (cd_nID cd)"
    using unsigned_less [of "cd_nID cd", where 'a = nat] by (simp add: unsigned_ucast_eq take_bit_nat_eq_self_iff)
  hence row: "table wp (unat ?guid) = Some (name, chars_of ?body)"
    using upd(2) ping(2) ping2(2) assms(9) by simp
  obtain wr q ws w3 where sel: "mysql_real_query api (select_char_sql ?guid) (length (select_char_sql ?guid)) wp = (mysql_success, wr)"
    "mysql_store_result api wr = (Some q, ws)" "mysql_affected_rows api ws = 1" "mysql_num_fields api ws q = 2"
    "mysql_fetch_row api ws q = (Some [Some name, Some (chars_of ?body)], w3)"
    "mysql_fetch_lengths api w3 q = Some [length name, length (chars_of ?body)]"
    by (rule server_select [OF assms(1) row])
  let ?db = "Mysql_Result_new\<lparr>my_result := Some q, my_row_count := word_of_nat (mysql_num_rows api ws q), my_field_count := 2\<rparr>"
  let ?r = "?db\<lparr>my_row := Some [Some name, Some (chars_of ?body)], my_lengths := Some [length name, length (chars_of ?body)], my_field := 0\<rparr>"
  have fetch: "mysql_fetch_next_row (res_api api) ?db ws = (True, ?r, w3)"
    by (simp add: mysql_fetch_next_row_def mysql_res_api.defs sel(5,6) [simplified])
  obtain blob' r1 name' where loaded: "load_row pb (db_szBlobBuff s1) ?r cd'
      = Some (my_success, blob', r1, cd'\<lparr>cd_szCharName := name', cd_TitleData := t\<rparr>)"
    "buffer_text name' = Some (c_string name)"
    by (rule load_row_values [where r = ?r and n = name and v = "chars_of ?body" and cd = cd' and blobBuff = "db_szBlobBuff s1" and pb = pb and t = t])
      (use assms(4,10,11) body blob(2) in \<open>simp_all add: Mysql_Result_new_def s1_def\<close>)
  let ?h = "(db_mysql s1)\<lparr>m_szSQL := select_char_sql ?guid\<rparr>"
  have "length (select_char_sql ?guid) < MAX_SQL_STRING_LENGTH"
    using show_uint64_length [of ?guid] by (simp add: select_char_sql_def MAX_SQL_STRING_LENGTH_def)
  note select = sql_fits [OF this]
  have store: "executeSQL_store api ?h 0 Mysql_Result_new wq = Some (my_success, ?h,
      \<lparr>numaffect = Some 1, lastid = None, dbresult = Some ?db\<rparr>, ws)"
    using executed(2) [OF _ ping2(1), of ?h wr q ws 0] sel assms(6) by (simp add: s1_def)
  have "LoadCharInfo api pb s1 ?guid cd' wq = Some (my_success, cd'\<lparr>cd_szCharName := name', cd_TitleData := t\<rparr>,
      s1\<lparr>db_mysql := ?h, db_szBlobBuff := blob'\<rparr>, mysql_destroy (res_api api) r1 w3)"
    by (simp add: LoadCharInfo_def select store fetch loaded(1) [unfolded length_chars_of] Let_def)
  with update loaded(2) show ?thesis by fastforce
qed

section \<open>Witnesses\<close>

text \<open>A server over a table, the rows of the last select and the row fetched last.\<close>

type_synonym demo_table = "(nat \<Rightarrow> (string \<times> string) option) \<times> (string \<times> string) list \<times> (string \<times> string)"

definition escape_char :: "char \<Rightarrow> string" where
  "escape_char c = (if c = CHR 0x00 then [backslash, CHR ''0''] else if c = quote \<or> c = backslash then [backslash, c] else [c])"

fun strip_prefix :: "string \<Rightarrow> string \<Rightarrow> string option" where
  "strip_prefix [] s = Some s"
| "strip_prefix (p # ps) [] = None"
| "strip_prefix (p # ps) (c # s) = (if p = c then strip_prefix ps s else None)"

definition demo_query :: "string \<Rightarrow> demo_table \<Rightarrow> int \<times> demo_table" where
  "demo_query sql w =
     (case strip_prefix (''update t_char set title='' @ [quote]) sql of
        Some s \<Rightarrow>
          (case lex_quoted s of
             Some (v, r) \<Rightarrow>
               (let uid = digits_nat (drop 16 r)
                in (0, (fst w)(uid := map_option (\<lambda>(n, _). (n, v)) (fst w uid)), snd w))
           | None \<Rightarrow> (1, w))
      | None \<Rightarrow>
          (case strip_prefix ''select charname,title from t_char where charguid='' sql of
             Some s \<Rightarrow> (0, fst w, (case fst w (digits_nat s) of None \<Rightarrow> [] | Some r \<Rightarrow> [r]), snd (snd w))
           | None \<Rightarrow> (1, w)))"

definition demo_char_api :: "(demo_table, unit) mysql_api" where
  "demo_char_api = \<lparr>mysql_num_rows = (\<lambda>w q. length (fst (snd w))), mysql_num_fields = (\<lambda>w q. 2),
     mysql_fetch_row = (\<lambda>w q. case fst (snd w) of [] \<Rightarrow> (None, w) | (a, b) # rs \<Rightarrow> (Some [Some a, Some b], fst w, rs, (a, b))),
     mysql_fetch_lengths = (\<lambda>w q. Some [length (fst (snd (snd w))), length (snd (snd (snd w)))]), mysql_free_result = (\<lambda>w q. w),
     mysql_init = id, mysql_opt_timeout = (\<lambda>t w. w), mysql_opt_reconnect = (\<lambda>b w. w),
     mysql_real_connect = (\<lambda>h u p d q w. (True, w)), mysql_close = id, mysql_ping = (\<lambda>w. (0, w)),
     mysql_select_db = (\<lambda>n w. (0, w)), mysql_real_query = (\<lambda>sql n w. demo_query (take n sql) w),
     mysql_store_result = (\<lambda>w. (Some (), w)), mysql_use_result = (\<lambda>w. (Some (), w)), mysql_field_count = (\<lambda>w. 2),
     mysql_affected_rows = (\<lambda>w. length (fst (snd w))), mysql_insert_id = (\<lambda>w. 0),
     mysql_escape = (\<lambda>from n w. let e = concat (map escape_char (take n from)) in (e, length e)),
     mysql_errno = (\<lambda>w. 0), mysql_error = (\<lambda>w. [])\<rparr>"

lemma strip_prefix_append [simp]: "strip_prefix p (p @ s) = Some s"
  by (induction p) simp_all

lemma lex_quoted_Cons:
  "xs \<noteq> [] \<Longrightarrow> c \<noteq> quote \<Longrightarrow> c \<noteq> backslash \<Longrightarrow> lex_quoted (c # xs) = map_option (\<lambda>(t, r). (c # t, r)) (lex_quoted xs)"
  by (cases xs) auto

lemma lex_escape_char:
  assumes "xs \<noteq> []"
  shows "lex_quoted (escape_char c @ xs) = map_option (\<lambda>(t, r). (c # t, r)) (lex_quoted xs)"
proof -
  have "lex_quoted (backslash # d # xs) = map_option (\<lambda>(t, r). (escaped_char d # t, r)) (lex_quoted xs)" for d
    by simp
  moreover have "escaped_char (CHR ''0'') = CHR 0x00" "escaped_char quote = quote" "escaped_char backslash = backslash"
    by (simp_all add: escaped_char_def quote_def backslash_def)
  ultimately show ?thesis
    using lex_quoted_Cons [OF assms, of c] by (auto simp: escape_char_def simp del: lex_quoted.simps)
qed

lemma lex_escaped:
  assumes "rest = [] \<or> hd rest \<noteq> quote"
  shows "lex_quoted (concat (map escape_char s) @ quote # rest) = Some (s, rest)"
proof (induction s)
  case Nil
  show ?case using assms by (cases rest) (auto simp: quote_def backslash_def)
next
  case (Cons c s)
  thus ?case by (simp add: lex_escape_char del: lex_quoted.simps)
qed

lemma demo_escape: "escape_documented demo_char_api"
proof -
  have "CHR 0x00 \<notin> set (concat (map escape_char s)) \<and> length (concat (map escape_char s)) \<le> 2 * length s" for s
    by (induction s) (auto simp: escape_char_def backslash_def quote_def)
  note esc = this
  have "mysql_escape demo_char_api from n w = (let e = concat (map escape_char (take n from)) in (e, length e))" for "from" n w
    by (simp add: demo_char_api_def)
  hence e: "fst (mysql_escape demo_char_api from n w) = concat (map escape_char (take n from))" for "from" n w
    by (simp add: Let_def)
  show ?thesis
    unfolding escape_documented_def Let_def e
  proof (intro allI impI conjI)
    fix "from" rest :: string and n :: nat
    assume n: "n \<le> length from \<and> (rest = [] \<or> hd rest \<noteq> quote)"
    show "lex_quoted (concat (map escape_char (take n from)) @ quote # rest) = Some (take n from, rest)"
      using n by (intro lex_escaped) blast
    show "CHR 0x00 \<notin> set (concat (map escape_char (take n from)))" using esc by blast
    show "length (concat (map escape_char (take n from))) \<le> 2 * n" using esc [of "take n from"] n by simp
  qed
qed

lemma digits_nat_append: "\<not> is_digit c \<Longrightarrow> digits_nat (show_nat n @ c # s) = n"
  using digits_nat_show [of n] show_nat_digits(1) [of n]
  by (simp add: digits_nat_def takeWhile_append list_all_iff takeWhile_list_all)

lemma demo_query_update:
  assumes "lex_quoted (e @ quote # '' where charguid='' @ show_nat (unat uid)) = Some (v, '' where charguid='' @ show_nat (unat uid))"
  shows "demo_query (update_char_sql e uid) w = (0, (fst w)(unat uid := map_option (\<lambda>(n, _). (n, v)) (fst w (unat uid))), snd w)"
proof -
  have sql: "update_char_sql e uid = (''update t_char set title='' @ [quote]) @ (e @ quote # '' where charguid='' @ show_nat (unat uid))"
    by (simp add: update_char_sql_def quoted_def)
  have tail: "drop 16 ('' where charguid='' @ show_nat (unat uid)) = show_nat (unat uid)" by simp
  show ?thesis
    unfolding demo_query_def sql strip_prefix_append option.case assms prod.case Let_def tail digits_nat_show ..
qed

lemma demo_query_select:
  "demo_query (select_char_sql guid) w = (0, fst w, (case fst w (unat guid) of None \<Rightarrow> [] | Some r \<Rightarrow> [r]), snd (snd w))"
proof -
  have sql: "select_char_sql guid = ''select charname,title from t_char where charguid='' @ (show_nat (unat guid) @ '' and isvalid=1'')"
    by (simp add: select_char_sql_def)
  have other: "strip_prefix (''update t_char set title='' @ [quote]) (select_char_sql guid) = None"
    by (simp add: select_char_sql_def)
  have "digits_nat (show_nat (unat guid) @ '' and isvalid=1'') = unat guid"
    by (rule digits_nat_append) (simp add: is_digit_def)
  thus ?thesis
    unfolding demo_query_def other option.case unfolding sql strip_prefix_append option.case by simp
qed

lemma demo_server: "char_server demo_char_api fst"
proof -
  have api: "mysql_ping demo_char_api w = (0, w)" "mysql_real_query demo_char_api q (length q) w = demo_query q w"
    "mysql_store_result demo_char_api w = (Some (), w)" "mysql_num_fields demo_char_api w u = 2"
    "mysql_affected_rows demo_char_api w = length (fst (snd w))"
    "mysql_fetch_row demo_char_api w u = (case fst (snd w) of [] \<Rightarrow> (None, w) | (a, b) # rs \<Rightarrow> (Some [Some a, Some b], fst w, rs, (a, b)))"
    "mysql_fetch_lengths demo_char_api w u = Some [length (fst (snd (snd w))), length (snd (snd (snd w)))]" for w q u
    by (simp_all add: demo_char_api_def)
  show ?thesis
    unfolding char_server_def api mysql_success_def
    by (intro conjI allI impI; (elim conjE)?) (simp_all add: demo_query_update demo_query_select)
qed

definition demo_db_service :: "unit db_service" where
  "demo_db_service = \<lparr>db_mysql = demo_handler, db_szBlobBuff = replicate MAX_BLOB_INFO_LENGTH (CHR 0x00),
     db_szEscapedBlobBuff = replicate (2 * MAX_BLOB_INFO_LENGTH + 1) (CHR 0x00), db_redis = Redis_Handler_new [] [] []\<rparr>"

text \<open>A character whose name has a quotation mark, and whose title is a mark, a backslash and a zero.\<close>

definition demo_char :: "tbyte list char_data" where
  "demo_char = \<lparr>cd_nID = 5, cd_szCharName = [CHR ''o'', quote] @ replicate 30 (CHR 0x00), cd_TitleData = [39, 92, 0]\<rparr>"

definition demo_world :: demo_table where
  "demo_world = (\<lambda>uid. if uid = 5 then Some (''ann'', []) else None, [], [], [])"

lemma demo_char_size: "sint (ByteSize demo_protobuf (cd_TitleData demo_char)) = 3"
  "snd (SerializePartialToArray demo_protobuf (cd_TitleData demo_char) 65535) = [39, 92, 0]"
  by (simp_all add: demo_protobuf_def demo_char_def)

text \<open>A server that refuses every statement as a duplicate.\<close>

definition demo_full_api :: "(demo_table, unit) mysql_api" where
  "demo_full_api = demo_char_api\<lparr>mysql_real_query := \<lambda>sql n w. (1, w), mysql_errno := \<lambda>w. 1062\<rparr>"


end
