(* ===== verification/DBServiceTick.thy ===== *)
theory DBServiceTick
  imports DBService NetServiceMessages MessageLoop
begin

text \<open>
  The database service among the other services: the rest of \<open>test/DBService.cpp\<close>. It takes the messages
  of its channel, prints the logins it is asked to verify, and can answer through the channel. \<open>Init\<close>
  stores and loads a title through Redis as a trial. The log is a list of what was logged or printed.
\<close>

section \<open>State\<close>

datatype db_log =
    DbUserVerification "tbyte list" "tbyte list"
  | DbUnhandled tuint16
  | DbUnknown tuint16
  | DbUndefined message_head
  | DbRedisError tuint32 string
  | DbRedisExecute tuint32
  | DbRedisType tuint32 int
  | DbMysqlError tuint32
  | DbOpenRedis

datatype db_handler = DbUserLogin | DbDefault

record 'c db_process =
  dp_db :: "'c db_service"
  dp_channel :: message_channel
  dp_mem :: memory
  dp_head :: message_head
  dp_encoder :: message_encoder
  dp_dispatcher :: "db_handler option list"
  dp_bFree :: bool
  dp_service_id :: tint32
  dp_log :: "db_log list"

definition ServiceType_DBSERVICE :: tint16 where "ServiceType_DBSERVICE = 5"

definition db_log :: "db_log \<Rightarrow> 'c db_process \<Rightarrow> 'c db_process" where
  "db_log l s = s\<lparr>dp_log := dp_log s @ [l]\<rparr>"

definition DB_Init_tables :: "'c db_process \<Rightarrow> 'c db_process" where
  "DB_Init_tables s = s\<lparr>
     dp_dispatcher := (replicate MESSAGE_ID_MAX (Some DbDefault))[unat MSG_NH_REQ_LOGIN := Some DbUserLogin], dp_bFree := True\<rparr>"

section \<open>Messages\<close>

text \<open>The texts are printed up to their first NUL.\<close>

definition HandleDbUserLogin :: "'d login_protos \<Rightarrow> message_head \<Rightarrow> tbyte list \<Rightarrow> 'c db_process \<Rightarrow> 'c db_process option" where
  "HandleDbUserLogin pb mh pBuff s =
     (let sz = unat (ucast (mh_nSize mh) :: tuint16)
      in if length pBuff < sz then None
         else case M_REQ_Login_Decode (pb_nh_req pb) (pb_new pb) (take sz pBuff) of
                (False, _) \<Rightarrow> Some s
              | (True, d) \<Rightarrow> Some (db_log (DbUserVerification (takeWhile (\<lambda>b. b \<noteq> 0) (req_account pb d))
                    (takeWhile (\<lambda>b. b \<noteq> 0) (req_validateinfo pb d))) s))"

definition run_db_handler :: "'d login_protos \<Rightarrow> db_handler \<Rightarrow> message_head \<Rightarrow> tbyte list \<Rightarrow> 'c db_process \<Rightarrow> 'c db_process option" where
  "run_db_handler pb h mh pBuff s =
     (case h of DbUserLogin \<Rightarrow> HandleDbUserLogin pb mh pBuff s | DbDefault \<Rightarrow> Some (db_log (DbUndefined mh) s))"

text \<open>A round of the loop of \<open>Tick\<close>; the loop, and \<open>Tick\<close> without the timers of the base class.\<close>

definition db_round :: "'d login_protos \<Rightarrow> tbyte list \<Rightarrow> tuint16 \<Rightarrow> 'c db_process
    \<Rightarrow> (tick_round \<times> tbyte list \<times> tuint16 \<times> 'c db_process) option" where
  "db_round pb buf bufSize s =
     (case RecvMessageOutput (dp_channel s) (dp_mem s) bufSize of
        (None, m1) \<Rightarrow> Some (TickEnd, buf, bufSize, s\<lparr>dp_mem := m1\<rparr>)
      | (Some (bytes, bufSize1), m1) \<Rightarrow>
          (case buf_write buf 0 bytes of
             None \<Rightarrow> None
           | Some buf1 \<Rightarrow>
               let s1 = s\<lparr>dp_mem := m1\<rparr>
               in case MessageHead_Decode MessageHead_new buf1 (ucast bufSize1) of
                    None \<Rightarrow> None
                  | Some (_, mh) \<Rightarrow>
                      if mh_nSize mh \<noteq> ucast bufSize1 - word_of_nat sizeof_MessageHead
                      then Some (TickReturn, buf1, bufSize1, s1)
                      else if unat (mh_usMessageID mh) < MESSAGE_ID_MAX
                      then (case dp_dispatcher s1 ! unat (mh_usMessageID mh) of
                              None \<Rightarrow> Some (TickNext, buf1, bufSize1, db_log (DbUnhandled (mh_usMessageID mh)) s1)
                            | Some h \<Rightarrow> map_option (\<lambda>s2. (TickNext, buf1, bufSize1, s2))
                                (run_db_handler pb h mh (drop sizeof_MessageHead buf1) s1))
                      else Some (TickNext, buf1, bufSize1, db_log (DbUnknown (mh_usMessageID mh)) s1)))"

partial_function (option) db_loop :: "'d login_protos \<Rightarrow> tbyte list \<Rightarrow> tuint16 \<Rightarrow> 'c db_process \<Rightarrow> 'c db_process option option" where
  "db_loop pb buf bufSize s =
     (case db_round pb buf bufSize s of
        None \<Rightarrow> Some None
      | Some r \<Rightarrow>
          (if fst r = TickNext then db_loop pb (fst (snd r)) (fst (snd (snd r))) (snd (snd (snd r)))
           else Some (Some (snd (snd (snd r))))))"

definition DB_Tick :: "'d login_protos \<Rightarrow> 'c db_process \<Rightarrow> 'c db_process option option" where
  "DB_Tick pb s = db_loop pb (replicate 2048 0) 2048 s"

text \<open>The ends of the channel.\<close>

definition DB_SendMsgToNetServer :: "'m message_class \<Rightarrow> 'm \<Rightarrow> 'c db_process \<Rightarrow> (bool \<times> 'c db_process) option" where
  "DB_SendMsgToNetServer cls pkMessage s =
     (let mh = (dp_head s)\<lparr>m_nSrcServiceType := ServiceType_DBSERVICE, m_nScrServiceID := ucast (dp_service_id s),
                 m_nDstServiceType := ServiceType_LOGIN, m_nDstServiceID := - 1\<rparr>
      in case MessageEncoder_Encode cls (dp_encoder s) (Some pkMessage) mh of
           None \<Rightarrow> None
         | Some (ok, en1, mh1) \<Rightarrow>
             let s1 = s\<lparr>dp_head := mh1, dp_encoder := en1\<rparr>
             in if \<not> ok then Some (False, s1)
                else Some (True, s1\<lparr>dp_mem := snd (SendMessageInput (dp_channel s1) (dp_mem s1)
                       (take (unat (MessageEncoder_GetSize en1)) (MessageEncoder_GetBuff en1)))\<rparr>))"

definition DB_RecvMessasgeInput :: "'c db_process \<Rightarrow> tuint16 \<Rightarrow> (tbyte list \<times> tuint16) option \<times> 'c db_process" where
  "DB_RecvMessasgeInput s usMsgSize =
     (let s1 = s\<lparr>dp_bFree := True\<rparr>; (res, m1) = RecvMessasgeInput (dp_channel s1) (dp_mem s1) usMsgSize
      in (res, s1\<lparr>dp_mem := m1\<rparr>))"

definition DB_SendMessageOutput :: "'c db_process \<Rightarrow> tbyte list \<Rightarrow> bool \<times> 'c db_process" where
  "DB_SendMessageOutput s msg =
     (let s1 = s\<lparr>dp_bFree := False\<rparr>; (ok, m1) = SendMessageOutput (dp_channel s1) (dp_mem s1) msg
      in (ok, s1\<lparr>dp_mem := m1\<rparr>))"

section \<open>The trial of Redis\<close>

text \<open>What a reply holds; its text is as long as \<open>len\<close> says.\<close>

record redis_reply =
  rr_type :: int
  rr_str :: string

definition REDIS_REPLY_STRING :: int where "REDIS_REPLY_STRING = 1"
definition REDIS_REPLY_ERROR :: int where "REDIS_REPLY_ERROR = 6"

text \<open>The title of a character is stored and loaded again; a reply that cannot be parsed is not freed.\<close>

definition DB_redis_load :: "('v, 'c, 'r) redis_api \<Rightarrow> ('r \<Rightarrow> redis_reply) \<Rightarrow> 't protobuf \<Rightarrow> 't \<Rightarrow> tuint32 \<Rightarrow> 'c db_service \<Rightarrow> 'v
    \<Rightarrow> (bool \<times> db_log list \<times> 'v) option" where
  "DB_redis_load api reply pb t0 nID s v =
     (case HGet api (db_redis s) ''USER'' (snprintf_text 32 (show_int (sint nID))) v of
        None \<Rightarrow> None
      | Some (None, v1) \<Rightarrow> Some (False, [DbRedisExecute nID], v1)
      | Some (Some r, v1) \<Rightarrow>
          if rr_type (reply r) \<noteq> REDIS_REPLY_STRING
          then Some (False, [DbRedisType nID (rr_type (reply r))], snd (FreeReply api (Some r) v1))
          else case DecodeBlob pb t0 (rr_str (reply r)) (word_of_nat (length (rr_str (reply r)))) of
                 None \<Rightarrow> None
               | Some (False, _) \<Rightarrow> Some (False, [], v1)
               | Some (True, t) \<Rightarrow> Some (True, [], snd (FreeReply api (Some r) v1)))"

definition DB_redis_trial :: "('v, 'c, 'r) redis_api \<Rightarrow> ('r \<Rightarrow> redis_reply) \<Rightarrow> 't protobuf \<Rightarrow> 't \<Rightarrow> 't char_data \<Rightarrow> 'c db_service \<Rightarrow> 'v
    \<Rightarrow> (bool \<times> db_log list \<times> 'c db_service \<times> 'v) option" where
  "DB_redis_trial api reply pb t0 cd s v =
     (case EncodeBlob pb (cd_TitleData cd) (db_szBlobBuff s) (word_of_nat MAX_BLOB_INFO_LENGTH) of
        None \<Rightarrow> None
      | Some (ok, blob, usBlobSize) \<Rightarrow>
          let s1 = s\<lparr>db_szBlobBuff := blob\<rparr>
          in if \<not> ok then Some (False, [], s1, v)
             else case HSet api (db_redis s1) ''USER'' (snprintf_text 32 (show_int (sint (cd_nID cd)))) blob (nat (sint usBlobSize)) v of
                    None \<Rightarrow> None
                  | Some (None, v1) \<Rightarrow> Some (False, [], s1, v1)
                  | Some (Some r, v1) \<Rightarrow>
                      let v2 = snd (FreeReply api (Some r) v1)
                      in if rr_type (reply r) = REDIS_REPLY_ERROR
                         then Some (False, [DbRedisError (cd_nID cd) (c_string (rr_str (reply r)))], s1, v2)
                         else map_option (\<lambda>(ok2, l, v3). (ok2, l, s1, v3)) (DB_redis_load api reply pb t0 (cd_nID cd) s1 v2))"

section \<open>What a tick does\<close>

text \<open>The process without its memory, and what a message does to it.\<close>

definition db_view :: "'c db_process \<Rightarrow> 'c db_process" where
  "db_view s = s\<lparr>dp_mem := \<lambda>_. 0\<rparr>"

text \<open>The entry a message leaves; the table is that of \<open>Init\<close>.\<close>

definition db_entry :: "'d login_protos \<Rightarrow> tbyte list \<Rightarrow> db_log list" where
  "db_entry pb x =
     (let mh = snd (the (MessageHead_Decode MessageHead_new x (word_of_nat (length x))))
      in if unat (mh_usMessageID mh) < MESSAGE_ID_MAX
         then if mh_usMessageID mh = MSG_NH_REQ_LOGIN
              then case M_REQ_Login_Decode (pb_nh_req pb) (pb_new pb) (drop sizeof_MessageHead x) of
                     (False, _) \<Rightarrow> []
                   | (True, d) \<Rightarrow> [DbUserVerification (takeWhile (\<lambda>b. b \<noteq> 0) (req_account pb d)) (takeWhile (\<lambda>b. b \<noteq> 0) (req_validateinfo pb d))]
              else [DbUndefined mh]
         else [DbUnknown (mh_usMessageID mh)])"

definition db_take :: "'d login_protos \<Rightarrow> tbyte list \<Rightarrow> 'c db_process \<Rightarrow> 'c db_process" where
  "db_take pb x s = s\<lparr>dp_log := dp_log s @ db_entry pb x\<rparr>"

definition db_waiting :: "nat \<Rightarrow> tbyte list list \<Rightarrow> 'c db_process \<Rightarrow> tbyte list list \<Rightarrow> bool" where
  "db_waiting qs ins s msgs \<longleftrightarrow> channel_inv (dp_channel s) qs (dp_mem s) ins msgs
     \<and> dp_dispatcher s = (replicate MESSAGE_ID_MAX (Some DbDefault))[unat MSG_NH_REQ_LOGIN := Some DbUserLogin]"

lemma db_round_takes:
  assumes "db_waiting qs ins s (x # xs)" "whole_message x" "length x \<le> unat bufSize" "length buf = 2048"
  shows "\<exists>buf1 s1. db_round pb buf bufSize s = Some (TickNext, buf1, word_of_nat (length x), s1) \<and> length buf1 = 2048
    \<and> db_waiting qs ins s1 xs \<and> db_view s1 = db_take pb x (db_view s)"
proof -
  have inv0: "channel_inv (dp_channel s) qs (dp_mem s) ins (x # xs)"
    and tab: "dp_dispatcher s = (replicate MESSAGE_ID_MAX (Some DbDefault))[unat MSG_NH_REQ_LOGIN := Some DbUserLogin]"
    using assms(1) by (simp_all add: db_waiting_def)
  have "x \<noteq> []" using assms(2) by (auto simp: whole_message_def)
  then obtain m1 where r: "RecvMessageOutput (dp_channel s) (dp_mem s) bufSize = (Some (x, word_of_nat (length x)), m1)"
      and inv: "channel_inv (dp_channel s) qs m1 ins xs" using recv_output_first [OF inv0 _ assms(3)] by blast
  obtain ok mh buf1 where w: "buf_write buf 0 x = Some buf1" "buf1 = x @ drop (length x) buf" "length buf1 = 2048"
    "MessageHead_Decode MessageHead_new buf1 (ucast (word_of_nat (length x) :: tuint16)) = Some (ok, mh)"
    "MessageHead_Decode MessageHead_new x (word_of_nat (length x)) = Some (ok, mh)"
    "mh_nSize mh = ucast (word_of_nat (length x) :: tuint16) - word_of_nat sizeof_MessageHead"
    "mh_nSize mh = word_of_nat (length x - 24)" "unat (word_of_nat (length x) :: tuint16) = length x"
    by (rule whole_received [OF assms(2,4)])
  have l: "24 \<le> length x" "length x \<le> 2048" using assms(2) by (simp_all add: whole_message_def)
  define s1 where "s1 = s\<lparr>dp_mem := m1\<rparr>"
  define s2 where "s2 = s1\<lparr>dp_log := dp_log s1 @ db_entry pb x\<rparr>"
  have sz: "unat (ucast (mh_nSize mh) :: tuint16) = length x - 24"
  proof -
    have "ucast (word_of_nat (length x - 24) :: tint32) = (word_of_nat (length x - 24) :: tuint16)"
      by (rule ucast16_of_nat)
    thus ?thesis unfolding w(7) using unat_of_nat_small [of "length x - 24", where 'a = 16] l by simp
  qed
  have body: "take (length x - 24) (drop sizeof_MessageHead buf1) = drop sizeof_MessageHead x" "length x - 24 \<le> length (drop sizeof_MessageHead buf1)"
    using l assms(4) by (simp_all add: w(2) sizeof_MessageHead_def)
  have head: "snd (the (MessageHead_Decode MessageHead_new x (word_of_nat (length x)))) = mh" by (simp add: w(5))
  have same: "s1\<lparr>dp_log := dp_log s1\<rparr> = s1" by simp
  consider (login) "mh_usMessageID mh = MSG_NH_REQ_LOGIN" | (default) "unat (mh_usMessageID mh) < MESSAGE_ID_MAX" "mh_usMessageID mh \<noteq> MSG_NH_REQ_LOGIN"
    | (unknown) "\<not> unat (mh_usMessageID mh) < MESSAGE_ID_MAX" by blast
  then have step: "db_round pb buf bufSize s = Some (TickNext, buf1, word_of_nat (length x), s2)"
  proof cases
    case login
    have id: "unat (mh_usMessageID mh) < MESSAGE_ID_MAX" "dp_dispatcher s ! unat (mh_usMessageID mh) = Some DbUserLogin"
      by (simp_all add: login tab MSG_NH_REQ_LOGIN_def MESSAGE_ID_MAX_def)
    have run: "run_db_handler pb DbUserLogin mh (drop sizeof_MessageHead buf1) s1 = Some s2"
      using body login id(1) by (auto simp: run_db_handler_def HandleDbUserLogin_def Let_def sz s2_def db_entry_def head db_log_def same split: prod.splits bool.splits)
    show ?thesis
      using w(6) id run unfolding s1_def by (simp add: db_round_def r w(1,4,8) Let_def)
  next
    case default
    have "unat (mh_usMessageID mh) \<noteq> unat MSG_NH_REQ_LOGIN" using default(2) by (simp add: word_unat_eq_iff)
    then have "dp_dispatcher s ! unat (mh_usMessageID mh) = Some DbDefault" using default(1) by (simp add: tab)
    then show ?thesis
      using w(6) default by (simp add: db_round_def r w(1,4,8) Let_def s1_def run_db_handler_def s2_def db_entry_def head db_log_def)
  next
    case unknown
    then show ?thesis
      using w(6) by (simp add: db_round_def r w(1,4,8) Let_def s1_def s2_def db_entry_def head db_log_def)
  qed
  have "db_waiting qs ins s2 xs" using inv tab by (simp add: db_waiting_def s2_def s1_def)
  moreover have "db_view s2 = db_take pb x (db_view s)" by (simp add: db_view_def s2_def s1_def db_take_def)
  ultimately show ?thesis using step w(3) by blast
qed

interpretation db_messages: message_loop "db_round pb" "db_loop pb" "\<lambda>r. snd (snd (snd r))" "db_waiting qs ins" db_view "db_take pb" for pb qs ins
proof
  show "db_loop pb buf n s = (case db_round pb buf n s of None \<Rightarrow> Some None | Some r \<Rightarrow>
      if fst r = TickNext then db_loop pb (fst (snd r)) (fst (snd (snd r))) (snd (snd (snd r))) else Some (Some (snd (snd (snd r)))))" for buf n s
    by (subst db_loop.simps) (rule refl)
  show "db_round pb buf n s = Some (TickEnd, buf, n, s)"
    if "db_waiting qs ins s msgs" "msgs = [] \<or> unat n < length (hd msgs)" for s msgs n buf
    using recv_output_refused [of "dp_channel s" qs "dp_mem s" ins msgs n] that by (simp add: db_round_def db_waiting_def)
qed (rule db_round_takes)

lemma db_take_all: "fold (db_take pb) msgs s = s\<lparr>dp_log := dp_log s @ concat (map (db_entry pb) msgs)\<rparr>"
  by (induction msgs arbitrary: s) (simp_all add: db_take_def)

text \<open>C19: a tick of the database service ends, when the messages in its channel are whole, each of the length its head
  says; it takes them from the front as long
  as each is no longer than the one before and leaves the others, and what it logs is, in order, one
  entry for each message taken, the account and validation of a login request that can be parsed; a login
  request that cannot be parsed leaves none.\<close>

theorem db_tick_takes:
  assumes "channel_inv (dp_channel s) qs (dp_mem s) ins msgs" "list_all whole_message msgs"
    and "dp_dispatcher s = (replicate MESSAGE_ID_MAX (Some DbDefault))[unat MSG_NH_REQ_LOGIN := Some DbUserLogin]"
  shows "\<exists>m'. DB_Tick pb s = Some (Some (s\<lparr>dp_mem := m', dp_log := dp_log s @ concat (map (db_entry pb) (taken 2048 msgs))\<rparr>))
    \<and> channel_inv (dp_channel s) qs m' ins (drop (length (taken 2048 msgs)) msgs)"
proof -
  let ?t = "taken 2048 msgs"
  have n: "unat (2048 :: tuint16) = 2048" by simp
  have "db_waiting qs ins s msgs" using assms(1,3) by (simp add: db_waiting_def)
  from db_messages.loop_takes [OF this assms(2), of "replicate 2048 0" pb 2048] obtain s' where
    l: "DB_Tick pb s = Some (Some s')" "db_waiting qs ins s' (drop (length ?t) msgs)" "db_view s' = fold (db_take pb) ?t (db_view s)"
    unfolding n DB_Tick_def by auto
  have "s' = (db_view s')\<lparr>dp_mem := dp_mem s'\<rparr>" by (simp add: db_view_def)
  also have "\<dots> = s\<lparr>dp_mem := dp_mem s', dp_log := dp_log s @ concat (map (db_entry pb) ?t)\<rparr>"
    unfolding l(3) db_take_all by (simp add: db_view_def)
  finally have eq: "s' = s\<lparr>dp_mem := dp_mem s', dp_log := dp_log s @ concat (map (db_entry pb) ?t)\<rparr>" .
  have "dp_channel s' = dp_channel s" using arg_cong [OF eq, of dp_channel] by simp
  moreover have "DB_Tick pb s = Some (Some (s\<lparr>dp_mem := dp_mem s', dp_log := dp_log s @ concat (map (db_entry pb) ?t)\<rparr>))"
    by (subst eq [symmetric]) (rule l(1))
  moreover have "channel_inv (dp_channel s') qs (dp_mem s') ins (drop (length ?t) msgs)" using l(2) by (simp add: db_waiting_def)
  ultimately show ?thesis by auto
qed

text \<open>A message that is no login request.\<close>

theorem db_tick_takes_witness:
  "\<exists>s :: unit db_process. \<exists>m' e. channel_inv (dp_channel s) 216 (dp_mem s) [] [zero_request] \<and>
     DB_Tick demo_pb s = Some (Some (s\<lparr>dp_mem := m', dp_log := [DbUndefined e]\<rparr>)) \<and> channel_inv (dp_channel s) 216 m' [] []"
proof -
  obtain ch m where c: "channel_inv ch 216 m [] []" "h_queue_size (m_kMsgOutput ch) m = 216" using demo_channel_200 by blast
  have lx: "length zero_request = 24" by (simp add: zero_request_def)
  have i: "mq_inv (m_kMsgOutput ch) m []" using c(1) by (simp add: channel_inv_def)
  obtain m1 where m1: "SendMessageOutput ch m zero_request = (True, m1)"
    using mq_append_ok [OF i, of zero_request] c(2) lx by (cases "mq_append (m_kMsgOutput ch) m zero_request") (simp add: SendMessageOutput_def)
  have c1: "channel_inv ch 216 m1 [] [zero_request]" using channel_send_output [OF c(1), of zero_request] m1 lx by simp
  define s :: "unit db_process" where "s = DB_Init_tables \<lparr>dp_db = undefined, dp_channel = ch, dp_mem = m1, dp_head = MessageHead_new,
     dp_encoder = MessageEncoder_new (replicate 65535 0), dp_dispatcher = [], dp_bFree = False, dp_service_id = 5, dp_log = []\<rparr>"
  have cs: "channel_inv (dp_channel s) 216 (dp_mem s) [] [zero_request]" using c1 by (simp add: s_def DB_Init_tables_def)
  have tab: "dp_dispatcher s = (replicate MESSAGE_ID_MAX (Some DbDefault))[unat MSG_NH_REQ_LOGIN := Some DbUserLogin]"
    by (simp add: s_def DB_Init_tables_def)
  have e: "db_entry demo_pb zero_request = [DbUndefined zero_head]"
    by (simp add: db_entry_def zero_request_decode zero_head_def MESSAGE_ID_MAX_def MSG_NH_REQ_LOGIN_def)
  have t: "taken 2048 [zero_request] = [zero_request]" using lx by simp
  have log: "dp_log s = []" by (simp add: s_def DB_Init_tables_def)
  show ?thesis
    using db_tick_takes [OF cs _ tab, of demo_pb] zero_request_whole cs unfolding t log by (auto simp: e)
qed

end
