(* ===== verification/ClientService.thy ===== *)
theory ClientService
  imports LuaObject TimeEx ClientSocket PacketCodec
begin

text \<open>
  The client for load tests: \<open>test/ClientService.h\<close>, \<open>test/ClientService.cpp\<close>. It connects to the server
  named in the configuration, sends a login packet every five seconds and reads the answers. The system,
  the clock, \<open>rand\<close>, the console and the log are functions over one world. The tick is that of the
  service itself, without the timers of the base class.
\<close>

section \<open>State\<close>

datatype client_print =
    LogOpenFailed
  | LogIpConfig
  | LogPortConfig
  | LogConnectFailed string tint16 int
  | LogConnected string tint16
  | PrintRandDisconnect tint32
  | PrintLoginRet tint32

record client_service =
  cl_socket :: client_socket
  cl_nLastTickTime :: tuint64
  cl_service_id :: tint32

text \<open>\<open>ce_login\<close> makes the login of an account; \<open>ce_result\<close> is the answer's result.\<close>

record ('d, 'n, 'w) client_env =
  ce_os :: "'w net_os"
  ce_clock :: "'w clock_os"
  ce_rand :: "'w \<Rightarrow> int \<times> 'w"
  ce_print :: "client_print \<Rightarrow> 'w \<Rightarrow> 'w"
  ce_inet :: "string \<Rightarrow> tuint32"
  ce_cg_login :: "'d protobuf"
  ce_gc_login :: "'d protobuf"
  ce_new :: 'd
  ce_login :: "string \<Rightarrow> string \<Rightarrow> tint32 \<Rightarrow> 'd"
  ce_result :: "'d \<Rightarrow> tint32"
  ce_numbers :: "'n lua_numbers"
  ce_ltm :: tm
  ce_pl :: place
  ce_recv_buffer :: "tbyte list"
  ce_send_buffer :: "tbyte list"
  ce_encoder :: "tbyte list"

text \<open>The size of the C++ object, with the pointer to its virtual functions and the padding.\<close>

definition sizeof_PacketHead :: nat where "sizeof_PacketHead = 16"

definition ClientService_new :: "client_service" where
  "ClientService_new = \<lparr>cl_socket = ClientSocket_new, cl_nLastTickTime = 0, cl_service_id = 0\<rparr>"

section \<open>Receiving\<close>

definition OnLoginRet :: "('d, 'n, 'w) client_env \<Rightarrow> packet_head \<Rightarrow> tbyte list \<Rightarrow> 'w \<Rightarrow> 'w option" where
  "OnLoginRet env ph pBuff w =
     (if length pBuff < unat (m_usPacketSize ph) then None
      else case P_LoginRet_Decode (ce_gc_login env) (ce_new env) pBuff (ucast (m_usPacketSize ph)) of
             (False, _) \<Rightarrow> Some w
           | (True, d) \<Rightarrow> Some (ce_print env (PrintLoginRet (ce_result env d)) w))"

definition client_PeekPacket :: "('d, 'n, 'w) client_env \<Rightarrow> tbyte list \<Rightarrow> 'w \<Rightarrow> (tuint32 \<times> 'w) option" where
  "client_PeekPacket env pInBuf w =
     (if length pInBuf < 2 + 2 then Some (0, w)
      else
        let nLeftBufLen = word_of_nat (length pInBuf) :: tint32
        in case PacketHead_Decode PacketHead_new pInBuf nLeftBufLen of
             None \<Rightarrow> None
           | Some (False, _) \<Rightarrow> Some (0, w)
           | Some (True, ph) \<Rightarrow>
               let pReadBuf = drop sizeof_PacketHead pInBuf;
                   nLeft = nLeftBufLen - word_of_nat sizeof_PacketHead;
                   nRead = word_of_nat sizeof_PacketHead + ucast (m_usPacketSize ph) :: tuint32
               in if int (unat (m_usPacketSize ph)) > sint nLeft then Some (0, w)
                  else if m_nPacketID ph = PACKET_GC_LOGIN
                  then map_option (Pair nRead) (OnLoginRet env ph pReadBuf w)
                  else Some (nRead, w))"

text \<open>The loop of \<open>OnRecvMessage\<close>; \<open>Some None\<close> stands for an access outside a buffer.\<close>

partial_function (option) client_packets ::
  "('d, 'n, 'w) client_env \<Rightarrow> tbyte list \<Rightarrow> tuint32 \<Rightarrow> 'w \<Rightarrow> (tuint32 \<times> 'w) option option" where
  "client_packets env buf nReadTotal w =
     (case client_PeekPacket env (drop (unat nReadTotal) buf) w of
        None \<Rightarrow> Some None
      | Some r \<Rightarrow>
          (if fst r > 0 then client_packets env buf (nReadTotal + fst r) (snd r)
           else Some (Some (nReadTotal, snd r))))"

definition client_OnRecvMessage :: "('d, 'n, 'w) client_env \<Rightarrow> tbyte list \<Rightarrow> 'w \<Rightarrow> (tint32 \<times> 'w) option option" where
  "client_OnRecvMessage env buf w = client_packets env buf 0 w"

text \<open>
  The socket's callbacks: \<open>OnDisConnect\<close> does nothing, \<open>OnRecvMessage\<close> leaves the socket alone. The loop
  always has a value, see \<open>ClientServiceProps\<close>.
\<close>

definition client_socket_env :: "('d, 'n, 'w) client_env \<Rightarrow> 'w socket_env" where
  "client_socket_env env = net_os.extend (ce_os env) (socket_env.fields (\<lambda>cs w. (cs, w))
     (\<lambda>cs bs w. case client_OnRecvMessage env bs w of Some (Some (n, w1)) \<Rightarrow> (sint n, cs, w1) | _ \<Rightarrow> (0, cs, w)))"

section \<open>Sending\<close>

definition sendMessage :: "('d, 'n, 'w) client_env \<Rightarrow> 'p packet_class \<Rightarrow> 'p \<Rightarrow> client_service \<Rightarrow> 'w
    \<Rightarrow> (bool \<times> client_service \<times> 'w) option" where
  "sendMessage env cls rkPacket c w =
     (case PacketEncoder_Encode cls (PacketEncoder_new (ce_encoder env)) rkPacket of
        None \<Rightarrow> None
      | Some (False, _) \<Rightarrow> Some (False, c, w)
      | Some (True, en) \<Rightarrow>
          (case send_data (client_socket_env env) (cl_socket c)
                  (Some (take (unat (PacketEncoder_GetSize en)) (PacketEncoder_GetBuff en))) w of
             None \<Rightarrow> None
           | Some (_, cs, w1) \<Rightarrow> Some (True, c\<lparr>cl_socket := cs\<rparr>, w1)))"

definition HeartBeat :: "('d, 'n, 'w) client_env \<Rightarrow> client_service \<Rightarrow> 'w \<Rightarrow> (client_service \<times> 'w) option" where
  "HeartBeat env c w =
     (let curTickCount = ticktime (ce_clock env) w;
          sent = (if curTickCount - cl_nLastTickTime c > 5000
                  then map_option snd (sendMessage env (P_Login (ce_cg_login env))
                         (ce_login env (show_int (sint (cl_service_id c))) ''222'' 123)
                         (c\<lparr>cl_nLastTickTime := curTickCount\<rparr>) w)
                  else Some (c, w))
      in case sent of
           None \<Rightarrow> None
         | Some (c1, w1) \<Rightarrow>
             let (r, w2) = ce_rand env w1
             in if r mod 1000 < 1
                then (let (cs, w3) = cs_close (client_socket_env env) (cl_socket c1)
                                       (ce_print env (PrintRandDisconnect (cl_service_id c1)) w2)
                      in Some (c1\<lparr>cl_socket := cs\<rparr>, w3))
                else Some (c1, w2))"

section \<open>Tick\<close>

text \<open>Opening and connecting: the address and the port from the configuration, which may throw.\<close>

definition client_connect :: "('d, 'n, 'w) client_env \<Rightarrow> 'n luaobject \<Rightarrow> 'n luaobject \<Rightarrow> client_service \<Rightarrow> 'w \<Rightarrow> assert_entry list
    \<Rightarrow> ((unit outcome \<times> assert_entry list) \<times> client_service \<times> 'w) option" where
  "client_connect env pIp pPort c w log =
     (case ToString (ce_ltm env) (ce_pl env) (ce_numbers env) pIp log of
        (Raised e, log1) \<Rightarrow> Some ((Raised e, log1), c, w)
      | (Ok ip, log1) \<Rightarrow>
     (case ToInt (ce_ltm env) (ce_pl env) (ce_numbers env) pPort log1 of
        (Raised e, log2) \<Rightarrow> Some ((Raised e, log2), c, w)
      | (Ok p, log2) \<Rightarrow>
          let port = ucast p :: tint16
          in case cs_connect_text (client_socket_env env) (cl_socket c) (ce_inet env) (Some (c_string ip)) port True 2 w of
               None \<Rightarrow> None
             | Some (False, cs, w1) \<Rightarrow>
                 Some ((Ok (), log2), c\<lparr>cl_socket := cs\<rparr>,
                   ce_print env (LogConnectFailed ip port (net_error_no (ce_os env) w1)) w1)
             | Some (True, cs, w1) \<Rightarrow>
                 let cs1 = snd (set_buf_size cs (ce_recv_buffer env) (ce_send_buffer env))
                 in Some ((Ok (), log2), c\<lparr>cl_socket := cs1\<lparr>m_funOnDisConnect := True, m_funOnRecvMessage := True\<rparr>\<rparr>,
                      ce_print env (LogConnected ip port) w1)))"

definition ClientService_Tick :: "('d, 'n, 'w) client_env \<Rightarrow> 'n config \<Rightarrow> client_service \<Rightarrow> 'w \<Rightarrow> assert_entry list
    \<Rightarrow> ((unit outcome \<times> assert_entry list) \<times> 'n config \<times> client_service \<times> 'w) option" where
  "ClientService_Tick env cfg c w log =
     (if \<not> cs_valid (cl_socket c)
      then
        let (opened, cs, w1) = (if get_fd (cl_socket c) = INVALID_SOCKET
                                then cs_open (client_socket_env env) (cl_socket c) None w else (True, cl_socket c, w));
            c1 = c\<lparr>cl_socket := cs\<rparr>;
            done = (\<lambda>cfg l w. Some ((Ok (), log), cfg, c1, ce_print env l w))
        in if \<not> opened then done cfg LogOpenFailed w1
           else case Config_GetLuaObject (ce_numbers env) cfg ''ServerSettings.Server1.Ip'' of
             None \<Rightarrow> None
           | Some (None, cfg1) \<Rightarrow> done cfg1 LogIpConfig w1
           | Some (Some pIp, cfg1) \<Rightarrow>
          (case Config_GetLuaObject (ce_numbers env) cfg1 ''ServerSettings.Server1.Port'' of
             None \<Rightarrow> None
           | Some (None, cfg2) \<Rightarrow> done cfg2 LogPortConfig w1
           | Some (Some pPort, cfg2) \<Rightarrow>
               map_option (\<lambda>(r, c2, w2). (r, cfg2, c2, w2)) (client_connect env pIp pPort c1 w1 log))
      else
        (case cs_recv (client_socket_env env) (cl_socket c) w of
           None \<Rightarrow> None
         | Some (_, cs, w1) \<Rightarrow>
             map_option (\<lambda>(c1, w2). ((Ok (), log), cfg, c1, w2)) (HeartBeat env (c\<lparr>cl_socket := cs\<rparr>) w1)))"

end
