(* ===== verification/ClientServiceProps.thy ===== *)
theory ClientServiceProps
  imports ClientService NetServiceProps
begin

text \<open>
  The client's reading of packets: its loop as a \<open>packet_reader\<close> that skips sixteen bytes for a head, and
  what becomes of the server's answers.
\<close>

section \<open>The loop\<close>

text \<open>What the client does with one frame.\<close>

definition client_answer :: "('d, 'n, 'w) client_env \<Rightarrow> packet_head \<times> tbyte list \<Rightarrow> 'w \<Rightarrow> 'w" where
  "client_answer env f w =
     (if m_nPacketID (fst f) = PACKET_GC_LOGIN
      then (case P_LoginRet_Decode (ce_gc_login env) (ce_new env) (snd f) (ucast (m_usPacketSize (fst f))) of
              (False, _) \<Rightarrow> w
            | (True, d) \<Rightarrow> ce_print env (PrintLoginRet (ce_result env d)) w)
      else w)"

lemma client_peek_frame:
  assumes "length b < 2 ^ 31"
  shows "client_PeekPacket env b w =
    (if complete_by 16 b
     then map_option (Pair (word_of_nat 16 + ucast (m_usPacketSize (head_of b)))) (Some (client_answer env (head_of b, drop 16 b) w))
     else Some (0, w))"
proof (cases "4 \<le> length b")
  case False
  thus ?thesis by (simp add: client_PeekPacket_def complete_by_def)
next
  case True
  let ?n = "unat (m_usPacketSize (head_of b))"
  have left: "sint (word_of_nat (length b) - word_of_nat sizeof_PacketHead :: tint32) = int (length b) - 16"
    using left_behind_head [OF assms, of 16] by (simp add: sizeof_PacketHead_def)
  have fits: "int ?n > int (length b) - 16 \<longleftrightarrow> \<not> complete_by 16 b"
    unfolding complete_by_def by linarith
  have login: "OnLoginRet env (head_of b) (drop 16 b) w = Some (client_answer env (head_of b, drop 16 b) w)"
    if "complete_by 16 b" "m_nPacketID (head_of b) = PACKET_GC_LOGIN"
    using that by (auto simp: OnLoginRet_def client_answer_def complete_by_def split: prod.split bool.split)
  have other: "client_answer env (head_of b, drop 16 b) w = w" if "m_nPacketID (head_of b) \<noteq> PACKET_GC_LOGIN"
    using that by (simp add: client_answer_def)
  have n: "(length b < 2 + 2) = False" using True by simp
  show ?thesis
    unfolding client_PeekPacket_def n if_False Let_def decode_head_of [OF True assms] option.case prod.case bool.case left fits
    by (cases "complete_by 16 b"; cases "m_nPacketID (head_of b) = PACKET_GC_LOGIN")
      (simp_all add: sizeof_PacketHead_def login other)
qed

interpretation client_reader: packet_reader 16 "client_PeekPacket env" "client_packets env" "\<lambda>f w. Some (client_answer env f w)" for env
proof
  show "client_packets env buf t w = (case client_PeekPacket env (drop (unat t) buf) w of
      None \<Rightarrow> Some None
    | Some r \<Rightarrow> (if fst r > 0 then client_packets env buf (t + fst r) (snd r) else Some (Some (t, snd r))))" for buf t w
    by (rule client_packets.simps)
qed (simp_all add: client_peek_frame)

lemma dispatch_total: "dispatch_all (\<lambda>f w. Some (g f w)) fs w = Some (fold g fs w)"
  by (induction fs arbitrary: w) simp_all

lemma client_recv:
  assumes "length buf < 2 ^ 31"
  shows "client_OnRecvMessage env buf w = Some (Some (word_of_nat (frames_size_by 16 (frames_by 16 buf)),
    fold (client_answer env) (frames_by 16 buf) w))"
  using client_reader.recv_all_frames [OF assms] by (simp add: client_OnRecvMessage_def dispatch_total)

section \<open>Properties\<close>

text \<open>C22: The client reads no answer of the server as it was sent. It skips the size of the C++ object, sixteen
  bytes, for a head that has four, and the server's size counts the head as well: an answer that arrives
  alone is left in the buffer, and once sixteen more bytes have arrived, what is parsed as the answer starts
  sixteen bytes into the packet and ends sixteen bytes into whatever follows it, which is consumed too. The
  loop always returns and reads nothing outside the buffer.\<close>

theorem client_misreads_answers:
  assumes "protobuf_writes pb d" "length (pe_szBuf en) = PACKET_BUF_SIZE" "sint (ByteSize pb d) \<le> 65531"
  shows "\<exists>en' sent. PacketEncoder_Encode (P_LoginRet pb) en d = Some (True, en') \<and>
    sent = take (unat (PacketEncoder_GetSize en')) (PacketEncoder_GetBuff en') \<and>
    client_OnRecvMessage env sent w = Some (Some (0, w)) \<and>
    (\<forall>rest. length rest = 16 \<and> \<not> bit (word_of_nat (length sent) :: tuint16) 7 \<longrightarrow>
       client_OnRecvMessage env (sent @ rest) w = Some (Some (word_of_nat (length sent + 16),
         case P_LoginRet_Decode (ce_gc_login env) (ce_new env) (drop 16 (sent @ rest)) (word_of_nat (length sent)) of
           (False, _) \<Rightarrow> w
         | (True, d') \<Rightarrow> ce_print env (PrintLoginRet (ce_result env d')) w)))"
proof -
  obtain en' body hb where e: "PacketEncoder_Encode (P_LoginRet pb) en d = Some (True, en')"
      "PacketHead_Encode \<lparr>m_usPacketSize = word_of_nat (4 + length body), m_nPacketID = PACKET_GC_LOGIN\<rparr> 4 = Some hb"
      "take (4 + length body) (PacketEncoder_GetBuff en') = hb @ body"
      "unat (PacketEncoder_GetSize en') = 4 + length body"
    using class_frame [OF assms(1,2) P_LoginRet_class(1,2)] assms(3) by (auto simp: P_LoginRet_class)
  define sent where "sent = hb @ body"
  have s: "sent = take (unat (PacketEncoder_GetSize en')) (PacketEncoder_GetBuff en')" by (simp add: sent_def e)
  have len: "length sent = 4 + length body" by (simp add: sent_def head_of_encoded(2) [OF e(2)])
  have small: "length sent < 2 ^ 16"
    unfolding len e(4) [symmetric] using unsigned_less [of "PacketEncoder_GetSize en'", where 'a = nat] by simp
  then have u: "unat (word_of_nat (length sent) :: tuint16) = length sent" by (intro unat_of_nat_small) simp
  have h: "head_of (sent @ r) = \<lparr>m_usPacketSize = on_the_wire (word_of_nat (length sent)), m_nPacketID = PACKET_GC_LOGIN\<rparr>" for r
  proof -
    have "on_the_wire PACKET_GC_LOGIN = PACKET_GC_LOGIN" by (simp add: on_the_wire_def PACKET_GC_LOGIN_def)
    thus ?thesis using head_of_encoded(1) [OF e(2), of "body @ r"] by (simp add: sent_def head_of_encoded(2) [OF e(2)])
  qed
  have "\<not> complete_by 16 sent"
    using h [of "[]"] on_the_wire_ge [of "word_of_nat (length sent)"] u len by (auto simp: complete_by_def)
  then have "frames_by 16 sent = []" by (subst frames_by.simps) simp
  then have lone: "client_OnRecvMessage env sent w = Some (Some (0, w))"
    using client_recv [of sent env w] small by (simp add: frames_size_by_def)
  have glued: "client_OnRecvMessage env (sent @ rest) w = Some (Some (word_of_nat (length sent + 16),
      client_answer env (\<lparr>m_usPacketSize = word_of_nat (length sent), m_nPacketID = PACKET_GC_LOGIN\<rparr>, drop 16 (sent @ rest)) w))"
    if "length rest = 16" "\<not> bit (word_of_nat (length sent) :: tuint16) 7" for rest
  proof -
    have hd1: "head_of (sent @ rest) = \<lparr>m_usPacketSize = word_of_nat (length sent), m_nPacketID = PACKET_GC_LOGIN\<rparr>"
      unfolding h using that by (simp add: on_the_wire_def)
    have "complete_by 16 (sent @ rest)" using that u by (simp add: complete_by_def hd1)
    moreover have "frames_by 16 [] = []" by (subst frames_by.simps) (simp add: complete_by_def)
    ultimately have "frames_by 16 (sent @ rest) = [(head_of (sent @ rest), drop 16 (sent @ rest))]"
      using that(1) u by (subst frames_by.simps) (simp add: hd1)
    thus ?thesis
      using client_recv [of "sent @ rest" env w] small that(1) u by (simp add: hd1 frames_size_by_def add.commute)
  qed
  have uc: "(ucast (word_of_nat (length sent) :: tuint16) :: tint32) = word_of_nat (length sent)"
    using u small by (simp only: word_unat_eq_iff unat_ucast_up16) (rule sym, rule unat_of_nat_small, simp)
  have answer: "client_answer env (\<lparr>m_usPacketSize = word_of_nat (length sent), m_nPacketID = PACKET_GC_LOGIN\<rparr>, bs) w =
      (case P_LoginRet_Decode (ce_gc_login env) (ce_new env) bs (word_of_nat (length sent)) of
         (False, _) \<Rightarrow> w | (True, d') \<Rightarrow> ce_print env (PrintLoginRet (ce_result env d')) w)" for bs
    by (simp only: client_answer_def fst_conv snd_conv packet_head.simps if_True refl uc)
  show ?thesis
    by (rule exI [of _ en'], rule exI [of _ sent]) (use e(1) s lone glued [unfolded answer] in blast)
qed

section \<open>Witness\<close>

text \<open>A client whose world is the list of what it printed.\<close>

definition demo_client_env :: "(tbyte list, int, client_print list) client_env" where
  "demo_client_env = \<lparr>
     ce_os = \<lparr>os_socket = (\<lambda>w a b c. (3, w)), os_listen = (\<lambda>w s n. (0, w)), os_bind = (\<lambda>w s a. (0, w)),
       os_accept = (\<lambda>w s. (- 1, \<lparr>sin_addr = 0, sin_port = 0\<rparr>, w)), os_close = (\<lambda>w s. (0, w)), os_getfl = (\<lambda>w s. 0),
       os_setfl = (\<lambda>w s f. (0, w)), os_setsockopt = (\<lambda>w s a b. (0, w)), os_getsockopt = (\<lambda>w s a. (0, 0)),
       os_connect = (\<lambda>w s a. (0, w)), os_select = (\<lambda>w n r v t. (1, r, v, w)), os_recv = (\<lambda>w s n. (RecvError, w)),
       os_send = (\<lambda>w s b. (SentBytes (length b), w)), os_errno = (\<lambda>w. EAGAIN)\<rparr>,
     ce_clock = \<lparr>os_time = (\<lambda>w. 0), os_gettimeofday = (\<lambda>w. (0, 0)),
       os_localtime = (\<lambda>w t. \<lparr>tm_year = 70, tm_mon = 0, tm_mday = 1, tm_hour = 0, tm_min = 0, tm_sec = 0, tm_wday = 4\<rparr>),
       os_usleep = (\<lambda>w n. w)\<rparr>,
     ce_rand = (\<lambda>w. (7, w)), ce_print = (\<lambda>l w. w @ [l]), ce_inet = (\<lambda>s. 0),
     ce_cg_login = demo_protobuf, ce_gc_login = demo_protobuf, ce_new = [], ce_login = (\<lambda>a d v. []),
     ce_result = (\<lambda>d. word_of_nat (length d)),
     ce_numbers = \<lparr>num_to_int = word_of_int, num_is_one = (\<lambda>n. n = 1), num_text = show_int\<rparr>,
     ce_ltm = \<lparr>tm_year = 126, tm_mon = 0, tm_mday = 1, tm_hour = 0, tm_min = 0, tm_sec = 0, tm_wday = 4\<rparr>,
     ce_pl = \<lparr>pl_file = ''ClientService.cpp'', pl_line = 60, pl_func = ''OnTick''\<rparr>,
     ce_recv_buffer = [], ce_send_buffer = [], ce_encoder = replicate 65535 0\<rparr>"

theorem client_misreads_answers_witness:
  "\<exists>en' sent. PacketEncoder_Encode (P_LoginRet demo_protobuf) (PacketEncoder_new (replicate 65535 0)) [8, 9] = Some (True, en') \<and>
     sent = take (unat (PacketEncoder_GetSize en')) (PacketEncoder_GetBuff en') \<and>
     client_OnRecvMessage demo_client_env sent [] = Some (Some (0, []))"
proof -
  have l: "length (pe_szBuf (PacketEncoder_new (replicate 65535 0))) = PACKET_BUF_SIZE"
    by (simp add: PacketEncoder_new_def PacketEncoder_Clear_def PACKET_BUF_SIZE_def)
  have s: "sint (ByteSize demo_protobuf [8, 9]) \<le> 65531" by (simp add: demo_protobuf_def)
  show ?thesis
    using client_misreads_answers [OF demo_protobuf_writes l s, of demo_client_env "[]"]
    by (elim exE conjE) (intro exI conjI)
qed

end
