(* ===== verification/CpuMemStat.thy ===== *)
theory CpuMemStat
  imports CNumbers Exceptions
begin

text \<open>
  Processor time and memory of the process: \<open>include/common/cpumemstat.h\<close>, \<open>src/common/cpumemstat.cpp\<close>, in
  the branch compiled on Linux, and the timer's callback of \<open>test/MonitorService.cpp\<close>. A file is its
  contents, none when it cannot be opened; the clock and the floating point quotient are parameters.
\<close>

section \<open>strtoul with base 0\<close>

definition xdigit_val :: "char \<Rightarrow> nat option" where
  "xdigit_val c =
     (let n = of_char c :: nat
      in if 48 \<le> n \<and> n \<le> 57 then Some (n - 48)
         else if 97 \<le> n \<and> n \<le> 102 then Some (n - 87)
         else if 65 \<le> n \<and> n \<le> 70 then Some (n - 55)
         else None)"

text \<open>The digits of a base at the start of a text.\<close>

fun base_nat :: "nat \<Rightarrow> nat \<Rightarrow> string \<Rightarrow> nat" where
  "base_nat b v [] = v"
| "base_nat b v (c # s) =
     (case xdigit_val c of None \<Rightarrow> v | Some d \<Rightarrow> if d < b then base_nat b (b * v + d) s else v)"

fun base_0 :: "string \<Rightarrow> nat" where
  "base_0 (z # x # h # s) =
     (if z = CHR ''0''
      then (if (x = CHR ''x'' \<or> x = CHR ''X'') \<and> xdigit_val h \<noteq> None then base_nat 16 0 (h # s)
            else base_nat 8 0 (x # h # s))
      else base_nat 10 0 (z # x # h # s))"
| "base_0 s = (case s of z # r \<Rightarrow> base_nat (if z = CHR ''0'' then 8 else 10) 0 s | [] \<Rightarrow> 0)"

definition strtoul_0 :: "string \<Rightarrow> 64 word" where
  "strtoul_0 s =
     (let (neg, digits) = sign_split (c_string s); n = base_0 digits
      in if n \<ge> 2 ^ 64 then - 1 else if neg then - word_of_nat n else word_of_nat n)"

section \<open>State\<close>

definition STAT_UTIME :: nat where "STAT_UTIME = 13"
definition STAT_KTIME :: nat where "STAT_KTIME = 14"
definition STAT_WCUTIME :: nat where "STAT_WCUTIME = 15"
definition STAT_WCKTIME :: nat where "STAT_WCKTIME = 16"
definition STAT_COUNT :: nat where "STAT_COUNT = 17"

record cpu_mem_stat =
  m_pid :: tuint32
  m_utime :: tuint64
  m_ktime :: tuint64
  m_wcutime :: tuint64
  m_wcktime :: tuint64
  m_vmsize :: tuint64
  m_vmrss :: tuint64
  m_lastcputime :: tuint64
  m_lastcalltime :: int

definition CpuMemStat_new :: "tuint32 \<Rightarrow> int \<Rightarrow> cpu_mem_stat" where
  "CpuMemStat_new pid now = \<lparr>m_pid = pid, m_utime = 0, m_ktime = 0, m_wcutime = 0, m_wcktime = 0, m_vmsize = 0,
     m_vmrss = 0, m_lastcputime = 0, m_lastcalltime = now\<rparr>"

text \<open>\<open>__LEAVE_PROJECT\<close> behind a block: an exception is logged and the code goes on.\<close>

definition leave_project :: "tm \<Rightarrow> place \<Rightarrow> unit outcome \<times> assert_entry list \<times> 's \<Rightarrow> assert_entry list \<times> 's" where
  "leave_project ltm pl r =
     (case r of
        (Ok _, log, s) \<Rightarrow> (log, s)
      | (Raised e, log, s) \<Rightarrow> (snd (VerifyEx ltm pl False ''false'' (exn_text pl e) log), s))"

section \<open>Processor time\<close>

text \<open>The \<open>switch\<close>: \<open>s\<close> is the text from \<open>szBuff [nIndex]\<close> on.\<close>

definition stat_store :: "nat \<Rightarrow> string \<Rightarrow> cpu_mem_stat \<Rightarrow> cpu_mem_stat" where
  "stat_store nFileldIndex s st =
     (if nFileldIndex = STAT_UTIME then st\<lparr>m_utime := strtoul_0 s\<rparr>
      else if nFileldIndex = STAT_KTIME then st\<lparr>m_ktime := strtoul_0 s\<rparr>
      else if nFileldIndex = STAT_WCUTIME then st\<lparr>m_wcutime := strtoul_0 s\<rparr>
      else if nFileldIndex = STAT_WCKTIME then st\<lparr>m_wcktime := strtoul_0 s\<rparr>
      else st)"

text \<open>The first inner loop, over blanks, each of which counts as a field.\<close>

fun stat_blanks :: "string \<Rightarrow> nat \<Rightarrow> cpu_mem_stat \<Rightarrow> string \<times> nat \<times> cpu_mem_stat" where
  "stat_blanks [] fld st = ([], fld, st)"
| "stat_blanks (c # s) fld st =
     (if is_space c then stat_blanks s (fld + 1) (stat_store fld (c # s) st) else (c # s, fld, st))"

lemma stat_blanks_length: "length (fst (stat_blanks s fld st)) \<le> length s"
  by (induction s fld st rule: stat_blanks.induct) auto

lemma stat_blanks_progress:
  assumes "s \<noteq> []"
  shows "length (dropWhile (\<lambda>c. \<not> is_space c) (fst (stat_blanks s fld st))) < length s"
proof (cases s)
  case (Cons c r)
  have "length (dropWhile (\<lambda>c. \<not> is_space c) x) \<le> length x" for x by (rule length_dropWhile_le)
  thus ?thesis
    using stat_blanks_length [of r "fld + 1" "stat_store fld (c # r) st"]
    by (cases "is_space c") (auto simp: Cons intro: le_less_trans less_Suc_eq_le [THEN iffD2] order_trans)
qed (use assms in simp)

function stat_loop :: "string \<Rightarrow> nat \<Rightarrow> cpu_mem_stat \<Rightarrow> cpu_mem_stat" where
  "stat_loop s fld st =
     (if s = [] \<or> STAT_COUNT \<le> fld then st
      else let r = stat_blanks s fld st
           in stat_loop (dropWhile (\<lambda>c. \<not> is_space c) (fst r)) (fst (snd r)) (snd (snd r)))"
  by pat_completeness auto
termination
  by (relation "measure (\<lambda>(s, fld, st). length s)") (auto intro: stat_blanks_progress)

declare stat_loop.simps [simp del]

text \<open>The buffer holds 4095 characters of the file.\<close>

definition stat_file :: "tuint32 \<Rightarrow> string" where
  "stat_file pid = snprintf_text 128 (''proc/'' @ show_int (sint pid) @ ''/stat'')"

definition ReBuildCpu :: "tm \<Rightarrow> place \<Rightarrow> (string \<Rightarrow> string option) \<Rightarrow> cpu_mem_stat \<Rightarrow> assert_entry list
    \<Rightarrow> assert_entry list \<times> cpu_mem_stat" where
  "ReBuildCpu ltm pl files st log =
     (let szFileName = stat_file (m_pid st); fp = files szFileName
      in leave_project ltm pl
           (case AssertEx ltm pl (fp \<noteq> None) ''fp != null_ptr'' szFileName log of
              (Raised e, log1) \<Rightarrow> (Raised e, log1, st)
            | (Ok _, log1) \<Rightarrow>
                let szBuff = take 4095 (the fp); nReadLength = length szBuff
                in case AssertEx ltm pl (nReadLength > 0 \<and> nReadLength < 4096)
                          ''nReadLength > 0 && nReadLength < (tint32)sizeof(szBuff)'' [] log1 of
                     (Raised e, log2) \<Rightarrow> (Raised e, log2, st)
                   | (Ok _, log2) \<Rightarrow> (Ok (), log2, stat_loop szBuff 0 st)))"

text \<open>\<open>per_second\<close>: the first argument as a float over \<open>HZ\<close>, divided by the second; \<open>zero\<close> is 0.\<close>

definition GetCpuRate :: "(tuint64 \<Rightarrow> tint32 \<Rightarrow> 'f) \<Rightarrow> 'f \<Rightarrow> int \<Rightarrow> cpu_mem_stat \<Rightarrow> 'f \<times> cpu_mem_stat" where
  "GetCpuRate per_second zero now st =
     (let uCpuTime = m_utime st + m_ktime st + m_wcutime st + m_wcktime st;
          nTimeInterval = word_of_int (now - m_lastcalltime st) :: tint32;
          fRet = (if 0 < sint nTimeInterval then per_second (uCpuTime - m_lastcputime st) nTimeInterval else zero)
      in (fRet, st\<lparr>m_lastcputime := uCpuTime, m_lastcalltime := now\<rparr>))"

section \<open>Memory\<close>

text \<open>\<open>strstr\<close>: the text from the first place on where the other one stands.\<close>

fun find_text :: "string \<Rightarrow> string \<Rightarrow> string option" where
  "find_text t [] = (if t = [] then Some [] else None)"
| "find_text t (c # s) = (if take (length t) (c # s) = t then Some (c # s) else find_text t s)"

text \<open>The number behind a title; a pointer at the end of a full buffer is not read.\<close>

definition status_number :: "string \<Rightarrow> string \<Rightarrow> tuint64 \<Rightarrow> tuint64" where
  "status_number title szBuff old =
     (case find_text title (c_string szBuff) of
        None \<Rightarrow> old
      | Some p \<Rightarrow>
          let rest = dropWhile is_space (drop (length title) p)
          in if rest = [] \<and> length (c_string szBuff) = 4095 then old else strtoul_0 rest)"

definition status_file :: "tuint32 \<Rightarrow> string" where
  "status_file pid = snprintf_text 128 (''/proc/'' @ show_int (sint pid) @ ''/status'')"

definition ReBuildMem :: "tm \<Rightarrow> place \<Rightarrow> (string \<Rightarrow> string option) \<Rightarrow> cpu_mem_stat \<Rightarrow> assert_entry list
    \<Rightarrow> assert_entry list \<times> cpu_mem_stat" where
  "ReBuildMem ltm pl files st log =
     (let szFileName = status_file (m_pid st); fp = files szFileName
      in leave_project ltm pl
           (case AssertEx ltm pl (fp \<noteq> None) ''fp != null_ptr'' szFileName log of
              (Raised e, log1) \<Rightarrow> (Raised e, log1, st)
            | (Ok _, log1) \<Rightarrow>
                let szBuff = take 4095 (the fp); nReadLength = length szBuff
                in case AssertEx ltm pl (nReadLength \<ge> 0 \<and> nReadLength < 4096)
                          ''nReadLength >= 0 && nReadLength < (tint32)sizeof(szBuff)'' [] log1 of
                     (Raised e, log2) \<Rightarrow> (Raised e, log2, st)
                   | (Ok _, log2) \<Rightarrow>
                       (Ok (), log2, st\<lparr>m_vmsize := status_number ''VmSize:'' szBuff (m_vmsize st),
                          m_vmrss := status_number ''VmRSS:'' szBuff (m_vmrss st)\<rparr>)))"

definition GetVmSize :: "cpu_mem_stat \<Rightarrow> tuint64" where "GetVmSize st = m_vmsize st"
definition GetVmRSS :: "cpu_mem_stat \<Rightarrow> tuint64" where "GetVmRSS st = m_vmrss st"

section \<open>The monitor\<close>

text \<open>\<open>MonitorService::Log\<close>: the rate that is logged.\<close>

definition Monitor_Log :: "tm \<Rightarrow> place \<Rightarrow> (string \<Rightarrow> string option) \<Rightarrow> (tuint64 \<Rightarrow> tint32 \<Rightarrow> 'f) \<Rightarrow> 'f \<Rightarrow> int \<Rightarrow> cpu_mem_stat
    \<Rightarrow> assert_entry list \<Rightarrow> 'f \<times> assert_entry list \<times> cpu_mem_stat" where
  "Monitor_Log ltm pl files per_second zero now st log =
     (let (log1, st1) = ReBuildCpu ltm pl files st log; (fCpuRate, st2) = GetCpuRate per_second zero now st1
      in (fCpuRate, log1, st2))"

text \<open>\<open>MonitorService::NeedSchedule\<close>: the base class is asked only every three seconds.\<close>

definition Monitor_NeedSchedule :: "tuint64 \<Rightarrow> tuint64 \<Rightarrow> bool \<Rightarrow> bool \<times> tuint64" where
  "Monitor_NeedSchedule curTickCount m_nLastTickTime base =
     (if curTickCount - m_nLastTickTime > 3000 then (base, curTickCount) else (False, m_nLastTickTime))"

section \<open>Reading back decimal text\<close>

lemma xdigit_digit: "is_digit c \<Longrightarrow> xdigit_val c = Some (digit_val c) \<and> digit_val c < 10"
  by (auto simp: xdigit_val_def is_digit_def digit_val_def)

lemma base_nat_digits:
  assumes "list_all is_digit ds" "xdigit_val c = None"
  shows "base_nat 10 v (ds @ c # s) = foldl (\<lambda>v c. digit_val c + 10 * v) v ds"
  using assms(1)
proof (induction ds arbitrary: v)
  case Nil
  thus ?case using assms(2) by simp
next
  case (Cons d ds)
  thus ?case using xdigit_digit [of d] by (simp add: add.commute)
qed

lemma digits_rev_last: "0 < n \<Longrightarrow> last (digits_rev 10 n) \<noteq> 0"
proof (induction n rule: less_induct)
  case (less n)
  have rec: "digits_rev 10 n = (if n < 10 then [n] else (n mod 10) # digits_rev 10 (n div 10))"
    by (subst digits_rev.simps) simp
  have "digits_rev 10 m \<noteq> []" for m by (subst digits_rev.simps) simp
  thus ?case using less.IH [of "n div 10"] less.prems rec by auto
qed

lemma show_nat_hd:
  assumes "0 < n"
  obtains c ds where "show_nat n = c # ds" "c \<noteq> CHR ''0''"
proof -
  have ne: "digits_rev 10 n \<noteq> []" by (subst digits_rev.simps) simp
  hence "hd (show_nat n) = digit_char (last (digits_rev 10 n))"
    by (simp add: show_nat_def hd_map hd_rev)
  moreover have "last (digits_rev 10 n) < 10" using digits_rev_bound [OF _ last_in_set [OF ne]] by simp
  hence "digit_char (last (digits_rev 10 n)) \<noteq> CHR ''0''"
    using digits_rev_last [OF assms] digit_char_value [of "last (digits_rev 10 n)"] by (auto simp: digit_val_def)
  ultimately show thesis using that ne by (cases "show_nat n") (auto simp: show_nat_def)
qed

lemma base_0_decimal: "c \<noteq> CHR ''0'' \<Longrightarrow> base_0 (c # s) = base_nat 10 0 (c # s)"
  by (cases s rule: list.exhaust [case_product list.exhaust]; cases "tl s") auto

lemma base_0_show: "base_0 (show_nat n @ CHR '' '' # s) = n"
proof (cases "n = 0")
  case True
  have "show_nat 0 = ''0''" by code_simp
  thus ?thesis using True by (cases s) (simp_all add: xdigit_val_def)
next
  case False
  then obtain c ds where "show_nat n = c # ds" "c \<noteq> CHR ''0''" using show_nat_hd by auto
  hence "base_0 (show_nat n @ CHR '' '' # s) = base_nat 10 0 (show_nat n @ CHR '' '' # s)"
    using base_0_decimal by simp
  also have "\<dots> = foldl (\<lambda>v c. digit_val c + 10 * v) 0 (show_nat n)"
    by (rule base_nat_digits) (simp_all add: show_nat_digits xdigit_val_def)
  also have "\<dots> = n"
    using digits_nat_show [of n] by (simp add: digits_nat_def takeWhile_list_all show_nat_digits)
  finally show ?thesis .
qed

lemma strtoul_show:
  assumes "n < 2 ^ 64"
  shows "strtoul_0 (CHR '' '' # show_nat n @ CHR '' '' # s) = word_of_nat n"
proof -
  have nul: "\<forall>c \<in> set (show_nat n). c \<noteq> CHR 0x00"
    using show_nat_digits(1) [of n] digit_props by (auto simp: list_all_iff)
  hence "c_string (CHR '' '' # show_nat n @ CHR '' '' # s) = CHR '' '' # show_nat n @ CHR '' '' # c_string s"
    by (simp add: c_string_def)
  moreover obtain d ds where "show_nat n = d # ds" "is_digit d"
    using show_nat_digits [of n] by (cases "show_nat n") auto
  hence "sign_split (CHR '' '' # show_nat n @ CHR '' '' # c_string s) = (False, show_nat n @ CHR '' '' # c_string s)"
    using digit_props [of d] by (simp add: sign_split_def is_space_def [of "CHR '' ''"])
  ultimately show ?thesis using assms by (simp add: strtoul_0_def base_0_show)
qed

section \<open>Properties\<close>

text \<open>A line of fields, the first one without its blank.\<close>

definition blank_fields :: "string list \<Rightarrow> string" where
  "blank_fields fs = concat (map (\<lambda>f. CHR '' '' # f) fs)"

definition plain_field :: "string \<Rightarrow> bool" where
  "plain_field f \<longleftrightarrow> f \<noteq> [] \<and> list_all (\<lambda>c. \<not> is_space c) f"

lemma blank_fields_simps [simp]: "blank_fields [] = []" "blank_fields (f # fs) = CHR '' '' # f @ blank_fields fs"
  by (simp_all add: blank_fields_def)

text \<open>\<open>tail\<close> is what follows the fields: more of them, or the newline.\<close>

definition field_end :: "string \<Rightarrow> bool" where
  "field_end s \<longleftrightarrow> s = [] \<or> is_space (hd s)"

lemma drop_field:
  "plain_field f \<Longrightarrow> field_end s \<Longrightarrow> dropWhile (\<lambda>c. \<not> is_space c) (f @ s) = s"
  by (cases s) (auto simp: plain_field_def list_all_iff dropWhile_append field_end_def)

lemma blank_end [simp]: "field_end (CHR '' '' # s)"
  by (simp add: field_end_def is_space_def)

lemma fields_end: "fs \<noteq> [] \<Longrightarrow> field_end (blank_fields fs @ tail)"
  by (cases fs) simp_all

lemma stat_loop_field:
  assumes "plain_field f" "k < STAT_COUNT" "field_end s"
  shows "stat_loop (CHR '' '' # f @ s) k st = stat_loop s (k + 1) (stat_store k (CHR '' '' # f @ s) st)"
proof -
  obtain c r where f: "f = c # r" "\<not> is_space c" using assms(1) by (cases f) (auto simp: plain_field_def)
  have "stat_blanks (CHR '' '' # f @ s) k st = (f @ s, k + 1, stat_store k (CHR '' '' # f @ s) st)"
    using f(2) by (simp add: f is_space_def [of "CHR '' ''"])
  thus ?thesis using assms drop_field [OF assms(1,3)]
    by (subst stat_loop.simps) (simp add: Let_def)
qed

lemma stat_loop_fields:
  assumes "list_all plain_field fs" "k + length fs \<le> STAT_COUNT" "gs \<noteq> []"
  shows "stat_loop (blank_fields (fs @ gs) @ tail) k st =
    stat_loop (blank_fields gs @ tail) (k + length fs)
      (fold (\<lambda>j. stat_store (k + j) (blank_fields (drop j (fs @ gs)) @ tail)) [0..<length fs] st)"
  using assms
proof (induction fs arbitrary: k st)
  case (Cons f fs)
  have up: "[0..<length (f # fs)] = 0 # map Suc [0..<length fs]" by (simp add: upt_conv_Cons map_Suc_upt del: upt_Suc)
  have "fold (\<lambda>j. stat_store (k + j) (blank_fields (drop j ((f # fs) @ gs)) @ tail)) [0..<length (f # fs)] st
      = fold (\<lambda>j. stat_store (k + 1 + j) (blank_fields (drop j (fs @ gs)) @ tail)) [0..<length fs]
          (stat_store k (blank_fields (f # fs @ gs) @ tail) st)"
    unfolding up by (simp add: fold_map comp_def)
  moreover have "stat_loop (blank_fields (f # fs @ gs) @ tail) k st
      = stat_loop (blank_fields (fs @ gs) @ tail) (k + 1) (stat_store k (blank_fields (f # fs @ gs) @ tail) st)"
    using stat_loop_field [of f k "blank_fields (fs @ gs) @ tail" st] fields_end [of "fs @ gs" tail] Cons.prems by simp
  ultimately show ?case
    using Cons.prems Cons.IH [of "k + 1" "stat_store k (blank_fields (f # fs @ gs) @ tail) st"] by (simp del: blank_fields_simps upt_Suc)
qed simp

text \<open>C24: \<open>ReBuildCpu\<close> reads the wrong columns. From a file that starts with the number of the process and at least 18 fields,
  each behind one blank, whatever follows them, as the rest of the line and its newline, it stores, counting these fields from 0,
  column 14 where its constants say that column 13 belongs, and so on: the system's time as the user's, the
  two times of the children one column late, and the priority, column 17, as the last of the four. A name of the program that holds a
  blank is two fields and makes it read one column less. The file
  it opens has a relative name, \<open>proc\<close> without the leading slash.\<close>

theorem stat_fields_shifted:
  assumes "files (stat_file (m_pid st)) = Some (pid @ blank_fields fs @ tail)"
    and "plain_field pid" "list_all plain_field fs" "17 < length fs" "length (pid @ blank_fields fs) \<le> 4095"
    and "take 4 (drop 13 fs) = map show_nat [stime, cutime, cstime, priority]"
    and "stime < 2 ^ 64" "cutime < 2 ^ 64" "cstime < 2 ^ 64" "priority < 2 ^ 64"
  shows "ReBuildCpu ltm pl files st log = (log, st\<lparr>m_utime := word_of_nat stime, m_ktime := word_of_nat cutime,
      m_wcutime := word_of_nat cstime, m_wcktime := word_of_nat priority\<rparr>) \<and> hd (stat_file (m_pid st)) = CHR ''p''"
proof -
  define rest where "rest = take (4095 - length (pid @ blank_fields fs)) tail"
  let ?buf = "pid @ blank_fields fs @ rest"
  obtain whole where whole: "whole = pid @ blank_fields fs @ tail" by blast
  have cut: "take 4095 whole = ?buf" using assms(5) by (simp add: whole rest_def take_append)
  have read: "ReBuildCpu ltm pl files st log = (log, stat_loop ?buf 0 st)"
  proof -
    have "?buf \<noteq> []" "length ?buf < 4096" using assms(2,5) by (simp_all add: plain_field_def rest_def)
    thus ?thesis using assms(1) [folded whole]
      by (simp add: ReBuildCpu_def Let_def AssertEx_def leave_project_def cut del: append_assoc append_is_Nil_conv length_append)
  qed
  have first: "stat_loop ?buf 0 st = stat_loop (blank_fields fs @ rest) 0 st"
  proof -
    obtain c r where pid: "pid = c # r" "\<not> is_space c" using assms(2) by (cases pid) (auto simp: plain_field_def)
    hence "stat_blanks ?buf 0 st = (?buf, 0, st)" by simp
    moreover have "dropWhile (\<lambda>c. \<not> is_space c) ?buf = blank_fields fs @ rest"
      by (rule drop_field [OF assms(2) fields_end]) (use assms(4) in auto)
    ultimately show ?thesis using pid(1) by (subst stat_loop.simps) (simp add: Let_def STAT_COUNT_def)
  qed
  let ?s = "\<lambda>j. blank_fields (drop j fs) @ rest"
  have all: "stat_loop (blank_fields fs @ rest) 0 st = fold (\<lambda>j. stat_store j (?s j)) [0..<17] st"
  proof -
    have "stat_loop (blank_fields fs @ rest) 0 st = stat_loop (?s 17) 17 (fold (\<lambda>j. stat_store j (?s j)) [0..<17] st)"
      using stat_loop_fields [of "take 17 fs" 0 "drop 17 fs" rest st] assms(3,4) set_take_subset [of 17 fs]
      by (auto simp: list_all_iff STAT_COUNT_def)
    thus ?thesis by (subst (asm) (2) stat_loop.simps) (simp add: STAT_COUNT_def)
  qed
  have column: "strtoul_0 (?s (13 + i)) = word_of_nat n" if "i < 4" "fs ! (13 + i) = show_nat n" "n < 2 ^ 64" for i n
  proof -
    have "drop (13 + i) fs = fs ! (13 + i) # drop (Suc (13 + i)) fs"
      using that(1) assms(4) by (intro Cons_nth_drop_Suc [symmetric]) simp
    moreover have "drop (Suc (13 + i)) fs \<noteq> []" using that(1) assms(4) by simp
    then obtain g gs where "drop (Suc (13 + i)) fs = g # gs" by (meson neq_Nil_conv)
    ultimately show ?thesis using strtoul_show [OF that(3)] that(2) by simp
  qed
  have "fs ! (13 + i) = map show_nat [stime, cutime, cstime, priority] ! i" if "i < 4" for i
    using that assms(4) unfolding assms(6) [symmetric] by simp
  from this [of 0] this [of 1] this [of 2] this [of 3]
  have four: "strtoul_0 (?s 13) = word_of_nat stime" "strtoul_0 (?s 14) = word_of_nat cutime"
    "strtoul_0 (?s 15) = word_of_nat cstime" "strtoul_0 (?s 16) = word_of_nat priority"
    using column [of 0 stime] column [of 1 cutime] column [of 2 cstime] column [of 3 priority] assms(7-10) by simp_all
  have "[0..<17] = [0, 1, 2, 3, 4, 5, 6, 7, 8, 9, 10, 11, 12, 13, 14, 15, 16]" by (simp add: upt_rec)
  hence "fold (\<lambda>j. stat_store j (?s j)) [0..<17] st = st\<lparr>m_utime := word_of_nat stime, m_ktime := word_of_nat cutime,
      m_wcutime := word_of_nat cstime, m_wcktime := word_of_nat priority\<rparr>"
    using four by (simp add: stat_store_def STAT_UTIME_def STAT_KTIME_def STAT_WCUTIME_def STAT_WCKTIME_def)
  thus ?thesis using read first all by (simp add: stat_file_def snprintf_text_def)
qed

text \<open>The start of a line as the kernel writes it, of a process with 7 ticks of its own and 5 in the kernel, and the rest of the line.\<close>

definition demo_stat_fields :: "string list" where
  "demo_stat_fields = [''(mm)'', ''S'', ''1'', ''9'', ''9'', ''0'', ''-1'', ''64'', ''12'', ''0'', ''0'', ''0'',
     show_nat 7, show_nat 5, show_nat 3, show_nat 2, show_nat 20, ''0'']"

definition demo_stat_file :: "string \<Rightarrow> string option" where
  "demo_stat_file f = (if f = stat_file 9 then Some (''9'' @ blank_fields demo_stat_fields @ '' 1 0 4410 2347008'' @ newline) else None)"

definition demo_stat_tm :: tm where
  "demo_stat_tm = \<lparr>tm_year = 126, tm_mon = 0, tm_mday = 1, tm_hour = 0, tm_min = 0, tm_sec = 0, tm_wday = 4\<rparr>"

definition demo_stat_place :: place where
  "demo_stat_place = \<lparr>pl_file = ''cpumemstat.cpp'', pl_line = 80, pl_func = ''ReBuildCpu''\<rparr>"

theorem stat_fields_shifted_witness:
  "ReBuildCpu demo_stat_tm demo_stat_place demo_stat_file (CpuMemStat_new 9 0) [] =
     ([], (CpuMemStat_new 9 0)\<lparr>m_utime := 5, m_ktime := 3, m_wcutime := 2, m_wcktime := 20\<rparr>)"
proof -
  have digits: "show_nat 7 = ''7''" "show_nat 5 = ''5''" "show_nat 3 = ''3''" "show_nat 2 = ''2''" "show_nat 20 = ''20''"
    by code_simp+
  have "list_all plain_field demo_stat_fields" "length (''9'' @ blank_fields demo_stat_fields) \<le> 4095" "plain_field ''9''"
    by (simp_all add: demo_stat_fields_def digits plain_field_def is_space_def)
  moreover have "take 4 (drop 13 demo_stat_fields) = map show_nat [5, 3, 2, 20]" "17 < length demo_stat_fields"
    by (simp_all add: demo_stat_fields_def)
  moreover have "demo_stat_file (stat_file (m_pid (CpuMemStat_new 9 0))) =
      Some (''9'' @ blank_fields demo_stat_fields @ '' 1 0 4410 2347008'' @ newline)"
    by (simp add: demo_stat_file_def CpuMemStat_new_def)
  ultimately show ?thesis
    using stat_fields_shifted [of demo_stat_file "CpuMemStat_new 9 0" "''9''" demo_stat_fields "'' 1 0 4410 2347008'' @ newline"
        5 3 2 20 demo_stat_tm demo_stat_place "[]"]
    by (simp add: CpuMemStat_new_def)
qed

end
