(* ===== verification/LogEngine.thy ===== *)
theory LogEngine
  imports TimeEx CNumbers
begin

text \<open>
  The logger and its output: \<open>include/common/log.h\<close>, \<open>src/common/log.cpp\<close>, \<open>include/common/outputstream.h\<close>,
  \<open>src/common/outputstream.cpp\<close>. Files are a record of functions over a state of any type; the text a
  format gives with its arguments is a parameter. Writing through the null pointer of a closed file is
  \<open>None\<close>.
\<close>

section \<open>Files\<close>

text \<open>\<open>fopen\<close> in mode \<open>a+\<close>, \<open>stat\<close> with the size, and the rest of what is used.\<close>

record ('w, 'h) file_os = "'w clock_os" +
  f_open :: "string \<Rightarrow> 'w \<Rightarrow> 'h option \<times> 'w"
  f_close :: "'h \<Rightarrow> 'w \<Rightarrow> 'w"
  f_puts :: "string \<Rightarrow> 'h \<Rightarrow> 'w \<Rightarrow> 'w"
  f_flush :: "'h \<Rightarrow> 'w \<Rightarrow> 'w"
  f_stat :: "string \<Rightarrow> 'w \<Rightarrow> int option"
  f_access :: "string \<Rightarrow> 'w \<Rightarrow> bool"
  f_remove :: "string \<Rightarrow> 'w \<Rightarrow> int \<times> 'w"
  f_rename :: "string \<Rightarrow> string \<Rightarrow> 'w \<Rightarrow> 'w"

definition print_message :: "string \<Rightarrow> string" where "print_message text = c_string (snprintf_text 800 text)"

section \<open>Output streams\<close>

definition OutputStreamFile_Close :: "('w, 'h) file_os \<Rightarrow> 'h option \<Rightarrow> 'w \<Rightarrow> 'h option \<times> 'w" where
  "OutputStreamFile_Close os m_file w = (case m_file of Some h \<Rightarrow> (None, f_close os h w) | None \<Rightarrow> (None, w))"

definition OutputStreamFile_Open :: "('w, 'h) file_os \<Rightarrow> 'h option \<Rightarrow> string \<Rightarrow> 'w \<Rightarrow> bool \<times> 'h option \<times> 'w" where
  "OutputStreamFile_Open os m_file fileName w =
     (let (_, w1) = OutputStreamFile_Close os m_file w; (f, w2) = f_open os fileName w1 in (f \<noteq> None, f, w2))"

definition OutputStreamFile_PrintArg :: "('w, 'h) file_os \<Rightarrow> 'h option \<Rightarrow> string \<Rightarrow> 'w \<Rightarrow> 'w option" where
  "OutputStreamFile_PrintArg os m_file text w = map_option (\<lambda>h. f_puts os (print_message text) h w) m_file"

definition OutputStreamFile_IsOpen :: "'h option \<Rightarrow> bool" where "OutputStreamFile_IsOpen m_file = (m_file \<noteq> None)"

definition OutputStreamFile_Flush :: "('w, 'h) file_os \<Rightarrow> 'h option \<Rightarrow> 'w \<Rightarrow> 'w option" where
  "OutputStreamFile_Flush os m_file w = map_option (\<lambda>h. f_flush os h w) m_file"

text \<open>The stream into a text, whose \<open>GetBuffer\<close> goes through a C string.\<close>

definition OutputStreamBuffer_PrintArg :: "string \<Rightarrow> string \<Rightarrow> string" where
  "OutputStreamBuffer_PrintArg m_stream text = m_stream @ print_message text"

definition OutputStreamBuffer_GetBuffer :: "string \<Rightarrow> string" where
  "OutputStreamBuffer_GetBuffer m_stream = c_string m_stream"

section \<open>The logger\<close>

definition log_mask_none :: tint32 where "log_mask_none = 0"
definition log_mask_info :: tint32 where "log_mask_info = 1"
definition log_mask_error :: tint32 where "log_mask_error = 2"
definition log_mask_warning :: tint32 where "log_mask_warning = 4"
definition log_mask_detail :: tint32 where "log_mask_detail = 8"
definition log_mask_package :: tint32 where "log_mask_package = 0x10"

definition max_log_file_size :: int where "max_log_file_size = 0x40000000"
definition max_log_file_count :: "8 word" where "max_log_file_count = 8"
definition max_dump_info_size :: nat where "max_dump_info_size = 0x400"
definition max_dump_line_size :: nat where "max_dump_line_size = 0x10"
definition MAX_FILE_NAME_LENGTH :: nat where "MAX_FILE_NAME_LENGTH = 256"
definition MAX_TIME_STRING_LENGTH :: nat where "MAX_TIME_STRING_LENGTH = 32"

record 'h log_engine =
  lg_file :: "'h option"
  m_file_name :: string
  m_file_prefix :: string
  m_log_mask :: tint32
  m_file_count :: "8 word"

definition Log_Engine_new :: "'h log_engine" where
  "Log_Engine_new = \<lparr>lg_file = None, m_file_name = [], m_file_prefix = [], m_log_mask = - 1, m_file_count = 1\<rparr>"

definition log_date :: "('w, 'h) file_os \<Rightarrow> 'w \<Rightarrow> string" where
  "log_date os w = the (get_string_current_date (clock_os.truncate os) w False MAX_TIME_STRING_LENGTH)"

definition log_time :: "('w, 'h) file_os \<Rightarrow> 'w \<Rightarrow> string" where
  "log_time os w = the (get_string_current_date_time (clock_os.truncate os) w False MAX_TIME_STRING_LENGTH)"

definition log_file_name :: "string \<Rightarrow> string \<Rightarrow> string" where
  "log_file_name prefix date = snprintf_text MAX_FILE_NAME_LENGTH (prefix @ ''-'' @ date @ ''.log'')"

definition archive_name :: "string \<Rightarrow> string \<Rightarrow> 8 word \<Rightarrow> string" where
  "archive_name prefix date n =
     snprintf_text MAX_FILE_NAME_LENGTH (''./log/'' @ prefix @ ''-'' @ date @ ''-'' @ show_int (sint n) @ ''.log'')"

definition log_init :: "('w, 'h) file_os \<Rightarrow> 'h log_engine \<Rightarrow> tint32 \<Rightarrow> string option \<Rightarrow> 'w \<Rightarrow> bool \<times> 'h log_engine \<times> 'w" where
  "log_init os lg log_mask file_prefix w =
     (let prefix = snprintf_text MAX_FILE_NAME_LENGTH (case file_prefix of None \<Rightarrow> ''server_log_name'' | Some p \<Rightarrow> c_string p);
          name = log_file_name prefix (log_date os w);
          (re, f, w1) = OutputStreamFile_Open os (lg_file lg) name w
      in (re, lg\<lparr>m_log_mask := log_mask, m_file_prefix := prefix, m_file_name := name, lg_file := f\<rparr>, w1))"

definition set_log_mask :: "tint32 \<Rightarrow> 'h log_engine \<Rightarrow> 'h log_engine" where
  "set_log_mask log_mask lg = lg\<lparr>m_log_mask := log_mask\<rparr>"

definition whether_do_log :: "'h log_engine \<Rightarrow> tint32 \<Rightarrow> bool" where
  "whether_do_log lg log_level \<longleftrightarrow> m_log_mask lg AND log_level \<noteq> 0"

definition g_astTitleSet :: "(tint32 \<times> string) list" where
  "g_astTitleSet = [(log_mask_none, ''default''), (log_mask_info, ''info''), (log_mask_error, ''error''),
     (log_mask_warning, ''warning''), (log_mask_detail, ''detail''), (log_mask_package, ''package'')]"

definition get_log_level_title :: "tint32 \<Rightarrow> string" where
  "get_log_level_title log_level =
     (if sint log_level \<le> sint log_mask_none then ''default''
      else case map_of g_astTitleSet log_level of Some t \<Rightarrow> t | None \<Rightarrow> ''default'')"

text \<open>\<open>check_file\<close>: the reopening of a file, then its four steps.\<close>

definition reopen :: "('w, 'h) file_os \<Rightarrow> 'h log_engine \<Rightarrow> 'w \<Rightarrow> bool \<times> 'h log_engine \<times> 'w" where
  "reopen os lg w =
     (let (ok, f, w1) = OutputStreamFile_Open os (lg_file lg) (m_file_name lg) w in (ok, lg\<lparr>lg_file := f\<rparr>, w1))"

definition check_size :: "('w, 'h) file_os \<Rightarrow> 'h log_engine \<Rightarrow> string \<Rightarrow> 'w \<Rightarrow> bool \<times> 'h log_engine \<times> 'w" where
  "check_size os lg date w =
     (let (ok, lg1, w1) =
        (case f_stat os (m_file_name lg) w of
           Some n \<Rightarrow> (True, lg, w)
         | None \<Rightarrow>
             (case reopen os lg w of
                (False, lg1, w1) \<Rightarrow> (False, lg1, w1)
              | (True, lg1, w1) \<Rightarrow> (f_stat os (m_file_name lg1) w1 \<noteq> None, lg1, w1)))
      in if \<not> ok then (False, lg1, w1)
         else if the (f_stat os (m_file_name lg1) w1) < max_log_file_size then (True, lg1, w1)
         else
           let target = archive_name (m_file_prefix lg1) date (m_file_count lg1);
               (removed, w2) = (if f_access os target w1 then f_remove os target w1 else (0, w1))
           in if removed < 0 then (False, lg1, w2)
              else
                let (f, w3) = OutputStreamFile_Close os (lg_file lg1) w2;
                    w4 = f_rename os (m_file_name lg1) target w3
                in reopen os (lg1\<lparr>lg_file := f, m_file_count := m_file_count lg1 + 1\<rparr>) w4)"

definition check_file :: "('w, 'h) file_os \<Rightarrow> 'h log_engine \<Rightarrow> 'w \<Rightarrow> bool \<times> 'h log_engine \<times> 'w" where
  "check_file os lg w =
     (let (ok, lg1, w1) = (if \<not> OutputStreamFile_IsOpen (lg_file lg) then reopen os lg w else (True, lg, w))
      in if \<not> ok then (False, lg1, w1)
         else
           let date = log_date os w1; tmp_file_name = log_file_name (m_file_prefix lg1) date
           in if m_file_name lg1 \<noteq> tmp_file_name
              then (let (f, w2) = OutputStreamFile_Close os (lg_file lg1) w1
                    in reopen os (lg1\<lparr>lg_file := f, m_file_name := tmp_file_name\<rparr>) w2)
              else if max_log_file_count = m_file_count lg1 then (True, lg1, w1)
              else check_size os lg1 date w1)"

text \<open>\<open>log\<close>: the title and the message; \<open>text\<close> is what the format gives.\<close>

definition write_log :: "('w, 'h) file_os \<Rightarrow> 'h log_engine \<Rightarrow> tint32 \<Rightarrow> string \<Rightarrow> 'w \<Rightarrow> (bool \<times> 'h log_engine \<times> 'w) option" where
  "write_log os lg log_level text w =
     (if \<not> whether_do_log lg log_level then Some (False, lg, w)
      else case check_file os lg w of
        (False, lg1, w1) \<Rightarrow> Some (False, lg1, w1)
      | (True, lg1, w1) \<Rightarrow>
          (let title = ''['' @ log_time os w1 @ ''][''  @ get_log_level_title log_level @ '']''
           in case OutputStreamFile_PrintArg os (lg_file lg1) title w1 of
                None \<Rightarrow> None
              | Some w2 \<Rightarrow>
             (case OutputStreamFile_PrintArg os (lg_file lg1) text w2 of
                None \<Rightarrow> None
              | Some w3 \<Rightarrow>
                  map_option (\<lambda>w4. (True, lg1, w4)) (OutputStreamFile_Flush os (lg_file lg1) w3))))"

section \<open>Dumps\<close>

definition show_HEX2 :: "tbyte \<Rightarrow> string" where
  "show_HEX2 b = map (\<lambda>d. if d < 10 then char_of (48 + d) else char_of (55 + d)) [unat b div 16, unat b mod 16]"

definition blank_pad :: "nat \<Rightarrow> string \<Rightarrow> string" where
  "blank_pad n s = replicate (n - length s) (CHR '' '') @ s"

definition dump_texts :: "string \<Rightarrow> tbyte list \<Rightarrow> string list" where
  "dump_texts date_time buff =
     concat (map (\<lambda>i.
       (if i mod max_dump_line_size = 0
        then [newline @ ''['' @ date_time @ ''] '' @ zero_pad 4 (show_nat (i div max_dump_line_size + 1)) @ ''>'' @ [CHR 0x09]]
        else []) @ [show_HEX2 (buff ! i) @ '' ''])
       [0..<min (length buff) max_dump_info_size])"

fun print_all :: "('w, 'h) file_os \<Rightarrow> 'h option \<Rightarrow> string list \<Rightarrow> 'w \<Rightarrow> 'w option" where
  "print_all os f [] w = Some w"
| "print_all os f (t # ts) w = Option.bind (OutputStreamFile_PrintArg os f t w) (print_all os f ts)"

definition dump_bin :: "('w, 'h) file_os \<Rightarrow> 'h log_engine \<Rightarrow> tint32 \<Rightarrow> tbyte list \<Rightarrow> 'w \<Rightarrow> (bool \<times> 'h log_engine \<times> 'w) option" where
  "dump_bin os lg log_level buff w =
     (if \<not> whether_do_log lg log_level then Some (False, lg, w)
      else case check_file os lg w of
        (False, lg1, w1) \<Rightarrow> Some (False, lg1, w1)
      | (True, lg1, w1) \<Rightarrow>
          (let date_time = log_time os w1;
               title = ''['' @ date_time @ ''][''  @ get_log_level_title log_level @ ''][buffer size:''
                 @ blank_pad 4 (show_nat (length buff)) @ '']''
           in Option.bind (print_all os (lg_file lg1) (title # dump_texts date_time buff @ [newline]) w1)
                (\<lambda>w2. map_option (\<lambda>w3. (True, lg1, w3)) (OutputStreamFile_Flush os (lg_file lg1) w2))))"

section \<open>Properties\<close>

text \<open>
  The documented behaviour of files opened for appending: \<open>files\<close> is what is on disk, \<open>name_of\<close> the file of a
  handle. Opening creates the file, writing adds to its end, flushing changes nothing that is read back.
\<close>

definition content :: "('w \<Rightarrow> string \<Rightarrow> string option) \<Rightarrow> 'w \<Rightarrow> string \<Rightarrow> string" where
  "content files w n = (case files w n of None \<Rightarrow> [] | Some s \<Rightarrow> s)"

definition files_documented :: "('w, 'h) file_os \<Rightarrow> ('w \<Rightarrow> string \<Rightarrow> string option) \<Rightarrow> ('w \<Rightarrow> 'h \<Rightarrow> string) \<Rightarrow> bool" where
  "files_documented os files name_of \<longleftrightarrow>
     (\<forall>n w h w1. f_open os n w = (Some h, w1) \<longrightarrow> files w1 = (files w)(n \<mapsto> content files w n) \<and> name_of w1 h = n) \<and>
     (\<forall>h w. files (f_close os h w) = files w) \<and>
     (\<forall>t h w. files (f_puts os t h w) = (files w)(name_of w h \<mapsto> content files w (name_of w h) @ t) \<and>
        name_of (f_puts os t h w) = name_of w) \<and>
     (\<forall>h w. files (f_flush os h w) = files w \<and> name_of (f_flush os h w) = name_of w)"

lemma print_line:
  assumes "files_documented os files name_of" "OutputStreamFile_PrintArg os (Some h) t w = Some w1"
  shows "files w1 = (files w)(name_of w h \<mapsto> content files w (name_of w h) @ print_message t)" "name_of w1 = name_of w"
  using assms by (auto simp: files_documented_def OutputStreamFile_PrintArg_def)

text \<open>A line of the log: the time, the title of the level, and at most 799 characters of the message.\<close>

definition log_line :: "('w, 'h) file_os \<Rightarrow> 'w \<Rightarrow> tint32 \<Rightarrow> string \<Rightarrow> string" where
  "log_line os w log_level text =
     print_message (''['' @ log_time os w @ ''][''  @ get_log_level_title log_level @ '']'') @ print_message text"

lemma write_opened:
  assumes "files_documented os files name_of" "whether_do_log lg log_level"
    and "check_file os lg w = (True, lg1, w1)" "lg_file lg1 = Some h" "name_of w1 h = n"
  shows "\<exists>w2. write_log os lg log_level text w = Some (True, lg1, w2) \<and>
    files w2 = (files w1)(n \<mapsto> content files w1 n @ log_line os w1 log_level text)"
proof -
  let ?title = "''['' @ log_time os w1 @ ''][''  @ get_log_level_title log_level @ '']''"
  let ?w2 = "f_puts os (print_message ?title) h w1"
  let ?w3 = "f_puts os (print_message text) h ?w2"
  have p: "OutputStreamFile_PrintArg os (Some h) t v = Some (f_puts os (print_message t) h v)" for t v
    by (simp add: OutputStreamFile_PrintArg_def)
  note first = print_line [OF assms(1) p [of ?title w1]] and second = print_line [OF assms(1) p [of "text" ?w2]]
  have flush: "files (f_flush os h v) = files v" for v using assms(1) by (simp add: files_documented_def)
  have "write_log os lg log_level text w = Some (True, lg1, f_flush os h ?w3)"
    using assms(2-4) by (simp add: write_log_def p OutputStreamFile_Flush_def del: append_Cons append_assoc)
  moreover have "files (f_flush os h ?w3) = (files w1)(n \<mapsto> content files w1 n @ log_line os w1 log_level text)"
    unfolding flush using first second assms(5) by (simp add: content_def log_line_def)
  ultimately show ?thesis by blast
qed

text \<open>C35: A message whose level is in the mask becomes one line at the end of the file of the current day: the
  open file when its name is still that of the day (and it is below the size limit, or the eight files are
  used up, when the limit no longer counts), a file opened under the new name when the day has changed and
  the file can be opened; no other file changes, and a message whose level is not in the mask changes none.\<close>

theorem log_line_written:
  assumes "files_documented os files name_of" "lg_file lg = Some h" "name_of w h = m_file_name lg"
    and "day = log_file_name (m_file_prefix lg) (log_date os w)"
    and "m_file_name lg = day \<Longrightarrow>
      m_file_count lg = max_log_file_count \<or> (\<exists>size. f_stat os day w = Some size \<and> size < max_log_file_size)"
    and "m_file_name lg \<noteq> day \<Longrightarrow> f_open os day (f_close os h w) = (Some h', w')"
  shows "\<exists>lg1 w1 w2. write_log os lg log_level text w = Some (whether_do_log lg log_level, lg1, w2) \<and>
    w1 = (if m_file_name lg = day then w else w') \<and>
    (if whether_do_log lg log_level
     then m_file_name lg1 = day \<and>
       files w2 = (files w)(day \<mapsto> content files w day @ log_line os w1 log_level text)
     else w2 = w)"
proof (cases "whether_do_log lg log_level")
  case False
  thus ?thesis by (simp add: write_log_def)
next
  case True
  show ?thesis
  proof (cases "m_file_name lg = day")
    case same: True
    have "check_file os lg w = (True, lg, w)"
      using assms(2,4) assms(5) [OF same] same
      by (auto simp: check_file_def check_size_def OutputStreamFile_IsOpen_def Let_def)
    from write_opened [OF assms(1) True this assms(2,3), of "text"] show ?thesis using True same by auto
  next
    case other: False
    let ?lg1 = "lg\<lparr>m_file_name := day, lg_file := Some h'\<rparr>"
    have "check_file os lg w = (True, ?lg1, w')"
      using assms(2,4) assms(6) [OF other] other
      by (simp add: check_file_def reopen_def OutputStreamFile_IsOpen_def OutputStreamFile_Open_def
          OutputStreamFile_Close_def Let_def)
    moreover have opened: "files w' = (files w)(day \<mapsto> content files w day)" "name_of w' h' = day"
    proof -
      have "files (f_close os h w) = files w" using assms(1) by (simp add: files_documented_def)
      thus "files w' = (files w)(day \<mapsto> content files w day)" "name_of w' h' = day"
        using assms(1) assms(6) [OF other] by (auto simp: files_documented_def content_def)
    qed
    ultimately obtain w2 where "write_log os lg log_level text w = Some (True, ?lg1, w2)"
      "files w2 = (files w')(day \<mapsto> content files w' day @ log_line os w' log_level text)"
      using write_opened [OF assms(1) True, of w ?lg1 w' h' day "text"] by auto
    thus ?thesis using True other opened by (auto simp: content_def)
  qed
qed

text \<open>Files in a map; a handle is the name.\<close>

definition demo_files :: "(string \<Rightarrow> string option, string) file_os" where
  "demo_files = \<lparr>os_time = (\<lambda>w. 0), os_gettimeofday = (\<lambda>w. (0, 0)),
     os_localtime = (\<lambda>w t. \<lparr>tm_year = 126, tm_mon = 0, tm_mday = 2, tm_hour = 3, tm_min = 4, tm_sec = 5, tm_wday = 5\<rparr>),
     os_usleep = (\<lambda>w n. w), f_open = (\<lambda>n w. (Some n, w(n \<mapsto> content id w n))), f_close = (\<lambda>h w. w),
     f_puts = (\<lambda>t h w. w(h \<mapsto> content id w h @ t)), f_flush = (\<lambda>h w. w),
     f_stat = (\<lambda>n w. map_option (\<lambda>s. int (length s)) (w n)), f_access = (\<lambda>n w. w n \<noteq> None),
     f_remove = (\<lambda>n w. (0, w(n := None))), f_rename = (\<lambda>a b w. (w(b := w a))(a := None))\<rparr>"

lemma demo_files_documented: "files_documented demo_files id (\<lambda>w h. h)"
  by (simp add: files_documented_def demo_files_def)

theorem log_line_written_witness:
  "\<exists>lg1 w2. write_log demo_files \<lparr>lg_file = Some ''old'', m_file_name = ''old'', m_file_prefix = ''net'', m_log_mask = 0xFF,
       m_file_count = 8\<rparr> log_mask_info ''hello'' (Map.empty(''old'' \<mapsto> ''x'')) = Some (True, lg1, w2) \<and>
     w2 ''old'' = Some ''x'' \<and> w2 ''net-2026-01-02.log'' = Some ''[2026-01-02 03:04:05][info]hello''"
proof -
  let ?lg = "\<lparr>lg_file = Some ''old'', m_file_name = ''old'', m_file_prefix = ''net'', m_log_mask = 0xFF, m_file_count = 8\<rparr>"
  let ?w = "Map.empty(''old'' \<mapsto> ''x'') :: string \<Rightarrow> string option"
  let ?day = "''net-2026-01-02.log''"
  have date: "log_date demo_files v = ''2026-01-02''" "log_time demo_files v = ''2026-01-02 03:04:05''" for v
    unfolding log_date_def log_time_def get_string_current_date_def get_string_current_date_time_def get_string_date_time_def
    by (simp_all add: demo_files_def clock_os.defs localtime_of_def ansitime_def date_text_def MAX_TIME_STRING_LENGTH_def Let_def)
       code_simp+
  have day: "log_file_name ''net'' ''2026-01-02'' = ?day"
    by (simp add: log_file_name_def snprintf_text_def MAX_FILE_NAME_LENGTH_def)
  have wanted: "whether_do_log ?lg log_mask_info" by (simp add: whether_do_log_def log_mask_info_def)
  have opened: "f_open demo_files ?day (f_close demo_files ''old'' ?w) = (Some ?day, ?w(?day \<mapsto> []))"
    by (simp add: demo_files_def content_def)
  have title: "get_log_level_title log_mask_info = ''info''"
    by (simp add: get_log_level_title_def g_astTitleSet_def log_mask_info_def log_mask_none_def)
  have line: "log_line demo_files v log_mask_info ''hello'' = ''[2026-01-02 03:04:05][info]hello''" for v
    by (simp add: log_line_def date title print_message_def c_string_def snprintf_text_def)
  have "\<exists>lg1 w1 w2. write_log demo_files ?lg log_mask_info ''hello'' ?w = Some (whether_do_log ?lg log_mask_info, lg1, w2) \<and>
      w1 = (if m_file_name ?lg = ?day then ?w else ?w(?day \<mapsto> [])) \<and>
      (if whether_do_log ?lg log_mask_info
       then m_file_name lg1 = ?day \<and> id w2 = (id ?w)(?day \<mapsto> content id ?w ?day @ log_line demo_files w1 log_mask_info ''hello'')
       else w2 = ?w)"
    by (rule log_line_written [OF demo_files_documented _ _ _ _ opened]) (simp_all add: date day)
  thus ?thesis by (auto simp: wanted line content_def)
qed

end
