(* ===== verification/WireFormat.thy ===== *)
theory WireFormat
  imports Prelude
begin

text \<open>
  Protocol buffers on the wire: what the generated classes of \<open>test/*.pb.cc\<close> use of
  \<open>lib/google/protobuf\<close>, that is \<open>io/coded_stream\<close> and \<open>wire_format_lite\<close>. A \<open>CodedInputStream\<close> is over one
  array, of fewer bytes than \<open>INT_MAX\<close>, without further limits, so \<open>Refresh\<close> never brings more; it is the
  bytes from \<open>buffer_\<close> to \<open>buffer_end_\<close> and the fields that change. Writing gives the bytes written.
  A function that would read behind the array gives \<open>None\<close>. Reading decides between a loop that checks
  every byte and one that does not, by a test on the length and the last byte of the buffer.
\<close>

unbundle bit_operations_syntax

section \<open>Writing\<close>

lemma unat_drop_bit_7: "unat (drop_bit 7 w) = unat w div 128"
  by (simp only: unat_drop_bit_eq) (simp add: drop_bit_eq_div)

text \<open>The two functions for 32 and 64 bits have the same text.\<close>

function WriteVarintToArray :: "'a::len word \<Rightarrow> tbyte list" where
  "WriteVarintToArray value =
     (if 0x80 \<le> unat value then (ucast value OR 0x80) # WriteVarintToArray (drop_bit 7 value) else [ucast value])"
  by pat_completeness auto
termination
  proof (relation "measure unat")
  fix v :: "'a::len word"
  assume "0x80 \<le> unat v"
  then have "unat (drop_bit 7 v) < unat v" unfolding unat_drop_bit_7 by simp
  then show "(drop_bit 7 v, v) \<in> measure unat" by (simp only: in_measure)
qed simp

declare WriteVarintToArray.simps [simp del]

definition WriteVarint32SignExtendedToArray :: "tint32 \<Rightarrow> tbyte list" where
  "WriteVarint32SignExtendedToArray value = WriteVarintToArray (scast value :: tuint64)"

text \<open>The portable version of the compiler's intrinsic.\<close>

definition Log2FloorNonZero :: "tuint32 \<Rightarrow> nat" where
  "Log2FloorNonZero n = snd (fold (\<lambda>i (value, log).
       let shift = 2 ^ i; x = drop_bit shift value in if x \<noteq> 0 then (x, log + shift) else (value, log)) [4, 3, 2, 1, 0] (n, 0))"

definition VarintSize32 :: "tuint32 \<Rightarrow> nat" where
  "VarintSize32 value = (let log2value = Log2FloorNonZero (value OR 1) in (log2value * 9 + 73) div 64)"

definition VarintSize32SignExtended :: "tint32 \<Rightarrow> nat" where
  "VarintSize32SignExtended value = (if sint value < 0 then 10 else VarintSize32 value)"

definition WIRETYPE_VARINT :: tuint32 where "WIRETYPE_VARINT = 0"
definition WIRETYPE_FIXED64 :: tuint32 where "WIRETYPE_FIXED64 = 1"
definition WIRETYPE_LENGTH_DELIMITED :: tuint32 where "WIRETYPE_LENGTH_DELIMITED = 2"
definition WIRETYPE_START_GROUP :: tuint32 where "WIRETYPE_START_GROUP = 3"
definition WIRETYPE_END_GROUP :: tuint32 where "WIRETYPE_END_GROUP = 4"
definition WIRETYPE_FIXED32 :: tuint32 where "WIRETYPE_FIXED32 = 5"

lemmas wire_types = WIRETYPE_VARINT_def WIRETYPE_FIXED64_def WIRETYPE_LENGTH_DELIMITED_def
  WIRETYPE_START_GROUP_def WIRETYPE_END_GROUP_def WIRETYPE_FIXED32_def

definition MakeTag :: "nat \<Rightarrow> tuint32 \<Rightarrow> tuint32" where
  "MakeTag field_number type = push_bit 3 (word_of_nat field_number) OR type"

definition GetTagWireType :: "tuint32 \<Rightarrow> tuint32" where
  "GetTagWireType tag = tag AND 7"

definition GetTagFieldNumber :: "tuint32 \<Rightarrow> nat" where
  "GetTagFieldNumber tag = unat (drop_bit 3 tag)"

definition WriteTagToArray :: "nat \<Rightarrow> tuint32 \<Rightarrow> tbyte list" where
  "WriteTagToArray field_number type = WriteVarintToArray (MakeTag field_number type)"

definition WriteUInt32ToArray :: "nat \<Rightarrow> tuint32 \<Rightarrow> tbyte list" where
  "WriteUInt32ToArray field_number value = WriteTagToArray field_number WIRETYPE_VARINT @ WriteVarintToArray value"

definition WriteInt32ToArray :: "nat \<Rightarrow> tint32 \<Rightarrow> tbyte list" where
  "WriteInt32ToArray field_number value =
     WriteTagToArray field_number WIRETYPE_VARINT @ WriteVarint32SignExtendedToArray value"

definition WriteStringToArray :: "nat \<Rightarrow> tbyte list \<Rightarrow> tbyte list" where
  "WriteStringToArray field_number value = WriteTagToArray field_number WIRETYPE_LENGTH_DELIMITED
     @ WriteVarintToArray (word_of_nat (length value) :: tuint32) @ value"

definition LengthDelimitedSize :: "nat \<Rightarrow> nat" where
  "LengthDelimitedSize len = len + VarintSize32 (word_of_nat len)"

section \<open>Reading numbers\<close>

definition kMaxVarintBytes :: nat where "kMaxVarintBytes = 10"
definition kMaxVarint32Bytes :: nat where "kMaxVarint32Bytes = 5"

text \<open>The unrolled steps \<open>b = *(ptr++); part += b << sh; if (!(b & 0x80)) goto done; part -= 0x80 << sh\<close>, and
  those that discard bytes.\<close>

fun varint_part :: "nat list \<Rightarrow> tuint32 \<Rightarrow> tbyte list \<Rightarrow> (bool \<times> tuint32 \<times> tbyte list) option" where
  "varint_part [] part bs = Some (False, part, bs)"
| "varint_part (sh # shs) part [] = None"
| "varint_part (sh # shs) part (b # bs) =
     (let part1 = part + push_bit sh (ucast b)
      in if b AND 0x80 = 0 then Some (True, part1, bs) else varint_part shs (part1 - push_bit sh 0x80) bs)"

fun varint_discard :: "nat \<Rightarrow> tuint32 \<Rightarrow> tbyte list \<Rightarrow> (tuint32 option \<times> tbyte list) option" where
  "varint_discard 0 result bs = Some (None, bs)"
| "varint_discard (Suc n) result [] = None"
| "varint_discard (Suc n) result (b # bs) =
     (if b AND 0x80 = 0 then Some (Some result, bs) else varint_discard n result bs)"

definition ReadVarint32FromArray :: "tuint32 \<Rightarrow> tbyte list \<Rightarrow> (tuint32 option \<times> tbyte list) option" where
  "ReadVarint32FromArray first_byte buffer =
     (case varint_part [7, 14, 21, 28] (first_byte - 0x80) (drop 1 buffer) of
        None \<Rightarrow> None
      | Some (True, result, ptr) \<Rightarrow> Some (Some result, ptr)
      | Some (False, result, ptr) \<Rightarrow> varint_discard (kMaxVarintBytes - kMaxVarint32Bytes) result ptr)"

definition join_parts :: "tuint32 \<Rightarrow> tuint32 \<Rightarrow> tuint32 \<Rightarrow> tuint64" where
  "join_parts part0 part1 part2 = ucast part0 OR push_bit 28 (ucast part1) OR push_bit 56 (ucast part2)"

definition ReadVarint64FromArray :: "tbyte list \<Rightarrow> (tuint64 option \<times> tbyte list) option" where
  "ReadVarint64FromArray buffer =
     (case varint_part [0, 7, 14, 21] 0 buffer of
        None \<Rightarrow> None
      | Some (True, part0, ptr) \<Rightarrow> Some (Some (join_parts part0 0 0), ptr)
      | Some (False, part0, ptr) \<Rightarrow>
          (case varint_part [0, 7, 14, 21] 0 ptr of
             None \<Rightarrow> None
           | Some (True, part1, ptr1) \<Rightarrow> Some (Some (join_parts part0 part1 0), ptr1)
           | Some (False, part1, ptr1) \<Rightarrow>
               (case varint_part [0, 7] 0 ptr1 of
                  None \<Rightarrow> None
                | Some (True, part2, ptr2) \<Rightarrow> Some (Some (join_parts part0 part1 part2), ptr2)
                | Some (False, part2, ptr2) \<Rightarrow> Some (None, ptr2))))"

fun ReadVarint64Slow :: "nat \<Rightarrow> tuint64 \<Rightarrow> tbyte list \<Rightarrow> tuint64 option \<times> tbyte list" where
  "ReadVarint64Slow count result [] = (None, [])"
| "ReadVarint64Slow count result (b # bs) =
     (if count = kMaxVarintBytes then (None, b # bs)
      else let result1 = result OR push_bit (7 * count) (ucast (b AND 0x7F))
           in if b AND 0x80 \<noteq> 0 then ReadVarint64Slow (count + 1) result1 bs else (Some result1, bs))"

definition varint_safe :: "tbyte list \<Rightarrow> bool" where
  "varint_safe buffer \<longleftrightarrow> kMaxVarintBytes \<le> length buffer \<or> (buffer \<noteq> [] \<and> last buffer AND 0x80 = 0)"

definition ReadVarint64Fallback :: "tbyte list \<Rightarrow> (tuint64 option \<times> tbyte list) option" where
  "ReadVarint64Fallback buffer =
     (if varint_safe buffer
      then (case ReadVarint64FromArray buffer of
              None \<Rightarrow> None
            | Some (None, _) \<Rightarrow> Some (None, buffer)
            | Some (Some temp, ptr) \<Rightarrow> Some (Some temp, ptr))
      else Some (ReadVarint64Slow 0 0 buffer))"

definition ReadVarint64 :: "tbyte list \<Rightarrow> (tuint64 option \<times> tbyte list) option" where
  "ReadVarint64 buffer =
     (if buffer \<noteq> [] \<and> unat (hd buffer) < 0x80 then Some (Some (ucast (hd buffer)), tl buffer)
      else ReadVarint64Fallback buffer)"

definition ReadVarint32Fallback :: "tuint32 \<Rightarrow> tbyte list \<Rightarrow> (tuint32 option \<times> tbyte list) option" where
  "ReadVarint32Fallback first_byte_or_zero buffer =
     (if varint_safe buffer
      then (case ReadVarint32FromArray first_byte_or_zero buffer of
              None \<Rightarrow> None
            | Some (None, _) \<Rightarrow> Some (None, buffer)
            | Some (Some temp, ptr) \<Rightarrow> Some (Some temp, ptr))
      else map_option (\<lambda>(p, rest). (map_option ucast p, rest)) (ReadVarint64Fallback buffer))"

definition ReadVarint32 :: "tbyte list \<Rightarrow> (tuint32 option \<times> tbyte list) option" where
  "ReadVarint32 buffer =
     (if buffer \<noteq> [] \<and> unat (hd buffer) < 0x80 then Some (Some (ucast (hd buffer)), tl buffer)
      else ReadVarint32Fallback (if buffer = [] then 0 else ucast (hd buffer)) buffer)"

section \<open>The stream\<close>

record coded_input =
  ci_buffer :: "tbyte list"
  last_tag :: tuint32
  legitimate_message_end :: bool
  recursion_budget :: int

definition recursion_limit :: int where "recursion_limit = 100"

definition CodedInputStream_new :: "tbyte list \<Rightarrow> coded_input" where
  "CodedInputStream_new buffer =
     \<lparr>ci_buffer = buffer, last_tag = 0, legitimate_message_end = False, recursion_budget = recursion_limit\<rparr>"

text \<open>At the end of the array the end of the message is legitimate.\<close>

definition ReadTagSlow :: "coded_input \<Rightarrow> (tuint32 \<times> coded_input) option" where
  "ReadTagSlow s =
     (case ReadVarint64 (ci_buffer s) of
        None \<Rightarrow> None
      | Some (None, rest) \<Rightarrow> Some (0, s\<lparr>ci_buffer := rest\<rparr>)
      | Some (Some result, rest) \<Rightarrow> Some (ucast result, s\<lparr>ci_buffer := rest\<rparr>))"

definition ReadTagFallback :: "tuint32 \<Rightarrow> coded_input \<Rightarrow> (tuint32 \<times> coded_input) option" where
  "ReadTagFallback first_byte_or_zero s =
     (let buffer = ci_buffer s
      in if varint_safe buffer
         then if first_byte_or_zero = 0 then Some (0, s\<lparr>ci_buffer := drop 1 buffer\<rparr>)
              else (case ReadVarint32FromArray first_byte_or_zero buffer of
                      None \<Rightarrow> None
                    | Some (None, _) \<Rightarrow> Some (0, s)
                    | Some (Some tag, ptr) \<Rightarrow> Some (tag, s\<lparr>ci_buffer := ptr\<rparr>))
         else if buffer = [] then Some (0, s\<lparr>legitimate_message_end := True\<rparr>)
         else ReadTagSlow s)"

definition ReadTag :: "coded_input \<Rightarrow> (tuint32 \<times> coded_input) option" where
  "ReadTag s =
     (case ci_buffer s of
        [] \<Rightarrow> map_option (\<lambda>(v, s1). (v, s1\<lparr>last_tag := v\<rparr>)) (ReadTagFallback 0 s)
      | b # rest \<Rightarrow>
          if unat b < 0x80 then Some (ucast b, s\<lparr>last_tag := ucast b, ci_buffer := rest\<rparr>)
          else map_option (\<lambda>(v, s1). (v, s1\<lparr>last_tag := v\<rparr>)) (ReadTagFallback (ucast b) s))"

definition ReadTagWithCutoffNoLastTag :: "tuint32 \<Rightarrow> coded_input \<Rightarrow> ((tuint32 \<times> bool) \<times> coded_input) option" where
  "ReadTagWithCutoffNoLastTag cutoff s =
     (let buffer = ci_buffer s;
          first_byte_or_zero = (if buffer = [] then 0 else ucast (hd buffer));
          slow = map_option (\<lambda>(tag, s1). ((tag, tag - 1 < cutoff), s1)) (ReadTagFallback first_byte_or_zero s)
      in case buffer of
           [] \<Rightarrow> slow
         | b # rest \<Rightarrow>
             if 0 < sint b
             then let tag = ucast b in Some ((tag, 0x7F \<le> cutoff \<or> tag \<le> cutoff), s\<lparr>ci_buffer := rest\<rparr>)
             else if 0x80 \<le> cutoff \<and> rest \<noteq> [] \<and> 0x80 \<le> unat (b AND NOT (hd rest))
             then let tag = push_bit 7 1 * ucast (hd rest) + (ucast b - 0x80)
                  in Some ((tag, 0x3FFF \<le> cutoff \<or> tag \<le> cutoff), s\<lparr>ci_buffer := tl rest\<rparr>)
             else slow)"

text \<open>Numbers and text. A text longer than the rest of the array is what is left of it, and reading fails.\<close>

definition ReadUInt32 :: "coded_input \<Rightarrow> (tuint32 option \<times> coded_input) option" where
  "ReadUInt32 s = map_option (\<lambda>(v, rest). (v, s\<lparr>ci_buffer := rest\<rparr>)) (ReadVarint32 (ci_buffer s))"

definition InternalReadStringInline :: "tbyte list \<Rightarrow> tint32 \<Rightarrow> coded_input \<Rightarrow> bool \<times> tbyte list \<times> coded_input" where
  "InternalReadStringInline buffer sz s =
     (if sint sz < 0 then (False, buffer, s)
      else if sint sz \<le> int (length (ci_buffer s))
      then (True, take (nat (sint sz)) (ci_buffer s), s\<lparr>ci_buffer := drop (nat (sint sz)) (ci_buffer s)\<rparr>)
      else (False, ci_buffer s, s\<lparr>ci_buffer := []\<rparr>))"

definition ReadString :: "tbyte list \<Rightarrow> coded_input \<Rightarrow> (bool \<times> tbyte list \<times> coded_input) option" where
  "ReadString value s =
     (case ReadUInt32 s of
        None \<Rightarrow> None
      | Some (None, s1) \<Rightarrow> Some (False, value, s1)
      | Some (Some len, s1) \<Rightarrow> Some (InternalReadStringInline value len s1))"

definition Skip :: "tint32 \<Rightarrow> coded_input \<Rightarrow> bool \<times> coded_input" where
  "Skip count s =
     (if sint count < 0 then (False, s)
      else if sint count \<le> int (length (ci_buffer s)) then (True, s\<lparr>ci_buffer := drop (nat (sint count)) (ci_buffer s)\<rparr>)
      else (False, s\<lparr>ci_buffer := []\<rparr>))"

text \<open>A number of fixed width.\<close>

definition ReadLittleEndian :: "nat \<Rightarrow> coded_input \<Rightarrow> bool \<times> coded_input" where
  "ReadLittleEndian width s =
     (if width \<le> length (ci_buffer s) then (True, s\<lparr>ci_buffer := drop width (ci_buffer s)\<rparr>)
      else (False, s\<lparr>ci_buffer := []\<rparr>))"

section \<open>Skipping unknown fields\<close>

text \<open>\<open>SkipField\<close>, over the function that skips the fields of a group.\<close>

definition SkipField_over :: "(coded_input \<Rightarrow> (bool \<times> coded_input) option) \<Rightarrow> tuint32 \<Rightarrow> coded_input \<Rightarrow> (bool \<times> coded_input) option" where
  "SkipField_over skip_message tag s =
     (if GetTagFieldNumber tag = 0 then Some (False, s)
      else if GetTagWireType tag = WIRETYPE_VARINT
      then map_option (\<lambda>(v, rest). (v \<noteq> None, s\<lparr>ci_buffer := rest\<rparr>)) (ReadVarint64 (ci_buffer s))
      else if GetTagWireType tag = WIRETYPE_FIXED64 then Some (ReadLittleEndian 8 s)
      else if GetTagWireType tag = WIRETYPE_LENGTH_DELIMITED
      then (case ReadUInt32 s of
              None \<Rightarrow> None
            | Some (None, s1) \<Rightarrow> Some (False, s1)
            | Some (Some len, s1) \<Rightarrow> Some (Skip len s1))
      else if GetTagWireType tag = WIRETYPE_START_GROUP
      then let s1 = s\<lparr>recursion_budget := recursion_budget s - 1\<rparr>
           in if recursion_budget s1 < 0 then Some (False, s1)
              else (case skip_message s1 of
                      None \<Rightarrow> None
                    | Some (False, s2) \<Rightarrow> Some (False, s2)
                    | Some (True, s2) \<Rightarrow>
                        let s3 = s2\<lparr>recursion_budget := recursion_budget s2 + (if recursion_budget s2 < recursion_limit then 1 else 0)\<rparr>
                        in Some (last_tag s3 = MakeTag (GetTagFieldNumber tag) WIRETYPE_END_GROUP, s3))
      else if GetTagWireType tag = WIRETYPE_FIXED32 then Some (ReadLittleEndian 4 s)
      else Some (False, s))"

text \<open>Every round takes a byte at least, so as many rounds as there are bytes, and one, are enough.\<close>

fun SkipMessage :: "nat \<Rightarrow> coded_input \<Rightarrow> (bool \<times> coded_input) option" where
  "SkipMessage 0 s = None"
| "SkipMessage (Suc fuel) s =
     (case ReadTag s of
        None \<Rightarrow> None
      | Some (tag, s1) \<Rightarrow>
          if tag = 0 \<or> GetTagWireType tag = WIRETYPE_END_GROUP then Some (True, s1)
          else (case SkipField_over (SkipMessage fuel) tag s1 of
                  None \<Rightarrow> None
                | Some (False, s2) \<Rightarrow> Some (False, s2)
                | Some (True, s2) \<Rightarrow> SkipMessage fuel s2))"

definition SkipField :: "tuint32 \<Rightarrow> coded_input \<Rightarrow> (bool \<times> coded_input) option" where
  "SkipField tag s = SkipField_over (SkipMessage (Suc (length (ci_buffer s)))) tag s"

section \<open>Messages\<close>

text \<open>
  The loop of \<open>MergePartialFromCodedStream\<close>, which every generated class has, with the largest tag of the
  class and its \<open>switch\<close>: what a field does with the message, or nothing if it goes to \<open>handle_unusual\<close>.
\<close>

type_synonym 'd field_switch = "tuint32 \<Rightarrow> 'd \<Rightarrow> coded_input \<Rightarrow> (bool \<times> 'd \<times> coded_input) option option"

fun MergePartialFromCodedStream :: "nat \<Rightarrow> tuint32 \<Rightarrow> 'd field_switch \<Rightarrow> 'd \<Rightarrow> coded_input \<Rightarrow> (bool \<times> 'd \<times> coded_input) option" where
  "MergePartialFromCodedStream 0 cutoff switch d s = None"
| "MergePartialFromCodedStream (Suc fuel) cutoff switch d s =
     (case ReadTagWithCutoffNoLastTag cutoff s of
        None \<Rightarrow> None
      | Some ((tag, known), s1) \<Rightarrow>
          (case (if known then switch tag d s1 else None) of
             Some None \<Rightarrow> None
           | Some (Some (False, d1, s2)) \<Rightarrow> Some (False, d1, s2)
           | Some (Some (True, d1, s2)) \<Rightarrow> MergePartialFromCodedStream fuel cutoff switch d1 s2
           | None \<Rightarrow>
               if tag = 0 \<or> GetTagWireType tag = WIRETYPE_END_GROUP then Some (True, d, s1)
               else (case SkipField tag s1 of
                       None \<Rightarrow> None
                     | Some (False, s2) \<Rightarrow> Some (False, d, s2)
                     | Some (True, s2) \<Rightarrow> MergePartialFromCodedStream fuel cutoff switch d s2)))"

text \<open>Parsing an array into a message that was cleared.\<close>

definition ParseFromArray_over :: "tuint32 \<Rightarrow> 'd field_switch \<Rightarrow> 'd \<Rightarrow> tbyte list \<Rightarrow> (bool \<times> 'd) option" where
  "ParseFromArray_over cutoff switch cleared data =
     map_option (\<lambda>(ok, d, s). (ok \<and> legitimate_message_end s, d))
       (MergePartialFromCodedStream (Suc (length data)) cutoff switch cleared (CodedInputStream_new data))"

text \<open>Writing a message with the bytes its class makes into an array of so many.\<close>

definition SerializePartialToArray_over :: "nat \<Rightarrow> tbyte list \<Rightarrow> tint32 \<Rightarrow> bool \<times> tbyte list" where
  "SerializePartialToArray_over byte_size bytes sz =
     (if sint sz < sint (word_of_nat byte_size :: tint32) then (False, []) else (True, bytes))"

text \<open>Two cases of a \<open>switch\<close>: a number, and a text that must be valid.\<close>

definition uint32_case :: "(tuint32 \<Rightarrow> 'd) \<Rightarrow> 'd \<Rightarrow> coded_input \<Rightarrow> (bool \<times> 'd \<times> coded_input) option" where
  "uint32_case put d s =
     map_option (\<lambda>(v, s1). case v of None \<Rightarrow> (False, d, s1) | Some x \<Rightarrow> (True, put x, s1)) (ReadUInt32 s)"

definition string_case :: "(tbyte list \<Rightarrow> bool) \<Rightarrow> (tbyte list \<Rightarrow> 'd) \<Rightarrow> tbyte list \<Rightarrow> coded_input \<Rightarrow> (bool \<times> 'd \<times> coded_input) option" where
  "string_case VerifyUtf8 put old s =
     map_option (\<lambda>(ok, value, s1). (ok \<and> VerifyUtf8 value, put value, s1)) (ReadString old s)"

end
