(* ===== verification/WireFacts.thy ===== *)
theory WireFacts
  imports WireFormat
begin

text \<open>
  Facts about the wire format: a reference for variable-length numbers on natural numbers, what writing
  and the two ways of reading do in its terms, and that no input makes a reader leave its array.
\<close>

unbundle bit_operations_syntax

section \<open>Bytes\<close>

lemma and_80: "b AND 0x80 = 0 \<longleftrightarrow> unat (b :: tbyte) < 128"
  by (rule all_bytes) code_simp

lemma and_7F: "unat (b AND 0x7F :: tbyte) = unat b mod 128"
  by (rule all_bytes) code_simp

lemma or_80: "unat (b OR 0x80 :: tbyte) = unat b mod 128 + 128"
  by (rule all_bytes) code_simp

lemma ucast_byte: "(ucast (b :: tbyte) :: 'a::len word) = word_of_nat (unat b)"
  by simp

lemma push_byte: "push_bit n (ucast (b :: tbyte) :: 'a::len word) = word_of_nat (unat b * 2 ^ n)"
  by (simp add: push_bit_eq_mult)

section \<open>The reference\<close>

text \<open>A number of at most so many bytes, the low seven bits of each, the least first; and the bytes.\<close>

fun varint_value :: "nat \<Rightarrow> tbyte list \<Rightarrow> (nat \<times> tbyte list) option" where
  "varint_value 0 bs = None"
| "varint_value (Suc n) [] = None"
| "varint_value (Suc n) (b # bs) =
     (if unat b < 128 then Some (unat b, bs)
      else map_option (\<lambda>(v, rest). (unat b - 128 + 128 * v, rest)) (varint_value n bs))"

function varint_bytes :: "nat \<Rightarrow> tbyte list" where
  "varint_bytes v = (if v < 128 then [word_of_nat v] else word_of_nat (v mod 128 + 128) # varint_bytes (v div 128))"
  by pat_completeness auto
termination by (relation "measure id") auto

declare varint_bytes.simps [simp del]

lemma unat_cont: "unat (word_of_nat (v mod 128) + 128 :: tbyte) = v mod 128 + 128"
  using unat_byte_of_nat [of "v mod 128 + 128"] by simp

lemma varint_bytes_small: "v < 128 \<Longrightarrow> varint_bytes v = [word_of_nat v]"
  by (subst varint_bytes.simps) simp

lemma varint_bytes_ne [simp]: "varint_bytes v \<noteq> []"
  by (subst varint_bytes.simps) simp

lemma WriteVarint_bytes: "WriteVarintToArray w = varint_bytes (unat w)"
proof (induction w rule: WriteVarintToArray.induct)
  case (1 w)
  have "unat (ucast w :: tbyte) = unat w mod 256" using unat_byte_of_nat [of "unat w"] by simp
  then have "ucast w OR 0x80 = (word_of_nat (unat w mod 128 + 128) :: tbyte)"
    by (intro word_unat_eq_iff [THEN iffD2]) (simp add: or_80 unat_cont mod_mod_cancel)
  moreover have "128 \<le> unat w \<Longrightarrow> WriteVarintToArray (drop_bit 7 w) = varint_bytes (unat w div 128)"
    using 1 by (simp only: unat_drop_bit_7)
  ultimately show ?case
    by (subst WriteVarintToArray.simps, subst varint_bytes.simps) (simp add: not_le)
qed

lemma varint_bytes_value: "v < 128 ^ n \<Longrightarrow> 0 < n \<Longrightarrow> varint_value n (varint_bytes v @ rest) = Some (v, rest)"
proof (induction n arbitrary: v)
  case (Suc n)
  show ?case
  proof (cases "v < 128")
    case True
    then show ?thesis by (simp add: varint_bytes_small unat_byte_of_nat)
  next
    case False
    then have n: "0 < n" using Suc.prems(1) by (cases n) simp_all
    have "v div 128 < 128 ^ n" using Suc.prems by (simp add: div_less_iff_less_mult mult.commute)
    from Suc.IH [OF this n] show ?thesis
      using False by (subst varint_bytes.simps) (simp add: unat_cont)
  qed
qed simp

lemma varint_bytes_last: "last (varint_bytes v) AND 0x80 = 0"
proof (induction v rule: varint_bytes.induct)
  case (1 v)
  then show ?case
    by (subst varint_bytes.simps) (auto simp: and_80 unat_byte_of_nat)
qed

lemma varint_value_longer: "varint_value n bs = Some x \<Longrightarrow> n \<le> m \<Longrightarrow> varint_value m bs = Some x"
proof (induction n bs arbitrary: m x rule: varint_value.induct)
  case (3 n b bs)
  obtain k where k: "m = Suc k" "n \<le> k" using 3(3) by (cases m) auto
  show ?case
  proof (cases "unat b < 128")
    case False
    obtain y where y: "varint_value n bs = Some y" using 3(2) False by (auto split: option.splits)
    show ?thesis using 3(1) [OF False y k(2)] y 3(2) k(1) False by simp
  qed (use 3(2) k in simp)
qed simp_all

lemma varint_value_shorter: "varint_value n bs = Some (v, rest) \<Longrightarrow> length rest < length bs"
proof (induction n bs arbitrary: v rule: varint_value.induct)
  case (3 n b bs)
  show ?case
  proof (cases "unat b < 128")
    case False
    obtain w where "varint_value n bs = Some (w, rest)" using 3(2) False by (auto split: option.splits)
    then show ?thesis using 3(1) [OF False] by fastforce
  qed (use 3(2) in simp)
qed simp_all

section \<open>The loop that checks every byte\<close>

lemma or_disjoint:
  assumes "res < 2 ^ m"
  shows "(word_of_nat res :: 'a::len word) OR push_bit m x = word_of_nat res + push_bit m x"
proof -
  have "take_bit m (word_of_nat res :: 'a word) = word_of_nat res"
    using assms by (simp add: take_bit_of_nat take_bit_nat_eq_self)
  moreover have "take_bit m (word_of_nat res :: 'a word) AND push_bit m x = 0"
    by (rule bit_eqI) (simp add: bit_simps)
  ultimately have "(word_of_nat res :: 'a word) AND push_bit m x = 0" by simp
  then show ?thesis by (rule disjunctive_add_eq_or [symmetric])
qed

lemma ReadVarint64Slow_value:
  assumes "count \<le> 10" "res < 2 ^ (7 * count)"
  shows "case varint_value (10 - count) bs of
      None \<Rightarrow> fst (ReadVarint64Slow count (word_of_nat res) bs) = None
    | Some (v, rest) \<Rightarrow> ReadVarint64Slow count (word_of_nat res) bs = (Some (word_of_nat (res + v * 2 ^ (7 * count))), rest)"
  using assms
proof (induction bs arbitrary: count res)
  case Nil
  then show ?case by (cases "10 - count") simp_all
next
  case (Cons b bs)
  show ?case
  proof (cases "count = 10")
    case False
    let ?x = "unat b mod 128"
    have c: "10 - count = Suc (9 - count)" "7 * count \<le> 64" using Cons.prems(1) False by auto
    have o: "word_of_nat res OR push_bit (7 * count) (ucast (b AND 0x7F)) = (word_of_nat (res + ?x * 2 ^ (7 * count)) :: tuint64)"
      using or_disjoint [OF Cons.prems(2), of "ucast (b AND 0x7F)"] unfolding push_byte and_7F by simp
    show ?thesis
    proof (cases "unat b < 128")
      case True
      then show ?thesis using False c(1) o by (simp add: kMaxVarintBytes_def Let_def and_80)
    next
      case False': False
      define x where "x = unat b - 128"
      have x: "unat b mod 128 = x" using False' unat_byte_less [of b] by (simp add: x_def le_mod_geq)
      have "res + x * 2 ^ (7 * count) < 2 ^ (7 * count) + x * 2 ^ (7 * count)" using Cons.prems(2) by simp
      also have "\<dots> = Suc x * 2 ^ (7 * count)" by simp
      also have "\<dots> \<le> 128 * 2 ^ (7 * count)"
        using unat_byte_less [of b] by (intro mult_le_mono1) (simp add: x_def)
      finally have r: "res + x * 2 ^ (7 * count) < 2 ^ (7 * Suc count)" by (simp add: power_add)
      have step: "ReadVarint64Slow count (word_of_nat res) (b # bs) = ReadVarint64Slow (Suc count) (word_of_nat (res + x * 2 ^ (7 * count))) bs"
        using False False' o unfolding x by (simp add: kMaxVarintBytes_def Let_def and_80)
      have ref: "varint_value (10 - count) (b # bs) = map_option (\<lambda>(v, rest). (x + 128 * v, rest)) (varint_value (10 - Suc count) bs)"
        using False' c(1) by (simp add: x_def)
      have add: "res + (x + 128 * v) * 2 ^ (7 * count) = (res + x * 2 ^ (7 * count)) + v * 2 ^ (7 * Suc count)" for v
        by (simp add: algebra_simps power_add)
      have "Suc count \<le> 10" using False Cons.prems(1) by simp
      from Cons.IH [OF this r] show ?thesis
        unfolding step ref by (cases "varint_value (10 - Suc count) bs") (auto simp only: option.simps option.map prod.case add)
    qed
  qed (simp add: kMaxVarintBytes_def)
qed

section \<open>The loops that do not\<close>

fun shifts :: "nat \<Rightarrow> nat \<Rightarrow> nat list" where
  "shifts a 0 = []"
| "shifts a (Suc n) = a # shifts (a + 7) n"

text \<open>What so many bytes that are not the last give.\<close>

fun conts :: "nat \<Rightarrow> tbyte list \<Rightarrow> nat" where
  "conts 0 bs = 0"
| "conts (Suc n) [] = 0"
| "conts (Suc n) (b # bs) = unat b - 128 + 128 * conts n bs"

lemma digits_bound: "unat (b :: tbyte) - 128 + 128 * v < 128 * m" if "v < m"
proof -
  have "unat b - 128 < 128" using unat_byte_less [of b] by arith
  moreover have "128 * Suc v \<le> 128 * m" using that by (intro mult_le_mono2) simp
  ultimately show ?thesis by simp
qed

lemma conts_bound: "conts n bs < 128 ^ n"
  by (induction n bs rule: conts.induct) (simp_all add: digits_bound)

lemma varint_value_bound: "varint_value n bs = Some (v, rest) \<Longrightarrow> v < 128 ^ n"
proof (induction n bs arbitrary: v rule: varint_value.induct)
  case (3 n b bs)
  show ?case
  proof (cases "unat b < 128")
    case True
    then have "v < 128" using 3(2) by simp
    also have "128 \<le> (128 :: nat) ^ Suc n" by simp
    finally show ?thesis .
  next
    case False
    obtain w where w: "varint_value n bs = Some (w, rest)" "v = unat b - 128 + 128 * w" using 3(2) False by (auto split: option.splits)
    then show ?thesis using 3(1) [OF False w(1)] digits_bound by simp
  qed
qed simp_all

lemma varint_part_value:
  "varint_part (shifts a n) (word_of_nat p) bs = (case varint_value n bs of
      Some (v, rest) \<Rightarrow> Some (True, word_of_nat (p + v * 2 ^ a), rest)
    | None \<Rightarrow> if n \<le> length bs then Some (False, word_of_nat (p + conts n bs * 2 ^ a), drop n bs) else None)"
proof (induction n arbitrary: a p bs)
  case (Suc n)
  show ?case
  proof (cases bs)
    case (Cons b cs)
    have add: "(word_of_nat p :: tuint32) + push_bit a (ucast b) = word_of_nat (p + unat b * 2 ^ a)"
      unfolding push_byte by simp
    show ?thesis
    proof (cases "unat b < 128")
      case False
      define x where "x = unat b - 128"
      have b: "unat b = x + 128" using False by (simp add: x_def)
      have "(word_of_nat p :: tuint32) + push_bit a (ucast b) - push_bit a 0x80 = word_of_nat (p + x * 2 ^ a)"
        unfolding add b by (simp add: push_bit_eq_mult algebra_simps)
      then have "varint_part (shifts a (Suc n)) (word_of_nat p) bs = varint_part (shifts (a + 7) n) (word_of_nat (p + x * 2 ^ a)) cs"
        using False unfolding Cons varint_part.simps shifts.simps Let_def and_80 by (simp only: if_False)
      moreover have "varint_value (Suc n) bs = map_option (\<lambda>(v, rest). (x + 128 * v, rest)) (varint_value n cs)"
        "conts (Suc n) bs = x + 128 * conts n cs"
        using False by (simp_all add: Cons x_def)
      moreover have "p + (x + 128 * v) * 2 ^ a = (p + x * 2 ^ a) + v * 2 ^ (a + 7)" for v
        by (simp add: algebra_simps power_add)
      ultimately show ?thesis
        unfolding Suc.IH by (cases "varint_value n cs") (auto simp only: option.simps option.map prod.case Cons length_Cons drop_Suc_Cons Suc_le_mono)
    qed (use add in \<open>simp add: Cons Let_def and_80\<close>)
  qed simp
qed simp

lemma varint_discard_value:
  "varint_discard n r bs = (case varint_value n bs of
      Some (v, rest) \<Rightarrow> Some (Some r, rest) | None \<Rightarrow> if n \<le> length bs then Some (None, drop n bs) else None)"
  by (induction n r bs rule: varint_discard.induct) (auto simp: and_80 split: option.splits)

lemma varint_value_add:
  "varint_value (n + m) bs = (case varint_value n bs of
      Some x \<Rightarrow> Some x
    | None \<Rightarrow> if n \<le> length bs then map_option (\<lambda>(v, rest). (conts n bs + 128 ^ n * v, rest)) (varint_value m (drop n bs)) else None)"
proof (induction n bs rule: conts.induct)
  case (1 bs)
  show ?case by (cases "varint_value m bs") simp_all
next
  case (3 n b bs)
  then show ?case
    by (cases "varint_value n bs"; cases "varint_value m (drop n bs)") (auto simp: case_prod_unfold algebra_simps)
qed simp

text \<open>Both agree with the reference wherever there are bytes enough, and read behind the array elsewhere.\<close>

lemma ReadVarint32FromArray_value:
  assumes "\<not> unat b < 128"
  shows "ReadVarint32FromArray (ucast b) (b # bs) = (case varint_value 10 (b # bs) of
      Some (v, rest) \<Rightarrow> Some (Some (word_of_nat v), rest)
    | None \<Rightarrow> if 10 \<le> length (b # bs) then Some (None, drop 10 (b # bs)) else None)"
proof -
  define x where "x = unat b - 128"
  have b: "unat b = x + 128" using assms by (simp add: x_def)
  have first: "(ucast b :: tuint32) - 0x80 = word_of_nat x" unfolding ucast_byte b by simp
  have sh: "[7, 14, 21, 28] = shifts 7 4" by (simp add: eval_nat_numeral)
  have ten: "varint_value 10 (b # bs) = map_option (\<lambda>(v, rest). (x + 128 * v, rest)) (varint_value (4 + 5) bs)"
    using assms varint_value.simps(3) [of 9 b bs] by (simp add: x_def)
  have high: "(word_of_nat (x + 128 * (c + 128 ^ 4 * v)) :: tuint32) = word_of_nat (x + c * 2 ^ 7)" for c v
  proof -
    have "x + 128 * (c + 128 ^ 4 * v) = (x + c * 2 ^ 7) + 2 ^ 32 * (8 * v)" by simp
    then show ?thesis
      using mod_mult_self2 [of "x + c * 2 ^ 7" "2 ^ 32" "8 * v"] by (simp only: word_of_nat_eq_iff take_bit_nat_def) simp
  qed
  have z: "(34359738368 :: tuint32) = 0" by code_simp
  show ?thesis
    unfolding ten varint_value_add ReadVarint32FromArray_def sh first
    by (cases "varint_value 4 bs"; cases "varint_value 5 (drop 4 bs)")
      (auto simp: z varint_part_value varint_discard_value kMaxVarintBytes_def kMaxVarint32Bytes_def high mult.commute)
qed

lemma join_parts_value:
  assumes "a < 2 ^ 28" "b < 2 ^ 28" "c < 2 ^ 28"
  shows "join_parts (word_of_nat a) (word_of_nat b) (word_of_nat c) = word_of_nat (a + b * 2 ^ 28 + c * 2 ^ 56)"
proof -
  have u: "ucast (word_of_nat n :: tuint32) = (word_of_nat n :: tuint64)" if "n < 2 ^ 28" for n
  proof -
    have "unat (word_of_nat n :: tuint32) = n" by (rule unat_of_nat_small) (use that in simp)
    then show ?thesis using of_nat_unat [of "word_of_nat n :: tuint32", where 'a = "64 word"] by simp
  qed
  have p: "push_bit k (word_of_nat n) = (word_of_nat (n * 2 ^ k) :: tuint64)" for k n by (simp add: push_bit_eq_mult)
  have "(word_of_nat a :: tuint64) OR push_bit 28 (word_of_nat b) = word_of_nat (a + b * 2 ^ 28)"
    using or_disjoint [where 'a = 64, OF assms(1), of "word_of_nat b"] unfolding p by simp
  moreover have "(word_of_nat (a + b * 2 ^ 28) :: tuint64) OR push_bit 56 (word_of_nat c) = word_of_nat (a + b * 2 ^ 28 + c * 2 ^ 56)"
  proof -
    have "a + b * 2 ^ 28 < 2 ^ 56" using assms(1,2) by simp
    from or_disjoint [where 'a = 64, OF this, of "word_of_nat c"] show ?thesis unfolding p by simp
  qed
  ultimately show ?thesis
    unfolding join_parts_def u [OF assms(1)] u [OF assms(2)] u [OF assms(3)] or.assoc [symmetric] by simp
qed

lemma ReadVarint64FromArray_value:
  "ReadVarint64FromArray bs = (case varint_value 10 bs of
      Some (v, rest) \<Rightarrow> Some (Some (word_of_nat v), rest)
    | None \<Rightarrow> if 10 \<le> length bs then Some (None, drop 10 bs) else None)"
proof -
  have sh: "[0, 7, 14, 21] = shifts 0 4" "[0, 7] = shifts 0 2" by (simp_all add: eval_nat_numeral)
  have part: "varint_part (shifts 0 n) 0 cs = (case varint_value n cs of
      Some (v, rest) \<Rightarrow> Some (True, word_of_nat v, rest)
    | None \<Rightarrow> if n \<le> length cs then Some (False, word_of_nat (conts n cs), drop n cs) else None)" for n cs
    using varint_part_value [of 0 n 0 cs] by (cases "varint_value n cs") auto
  have ten: "(10 :: nat) = 4 + (4 + 2)" by simp
  have b: "conts 4 cs < 2 ^ 28" "varint_value 4 cs = Some (v, rest) \<Longrightarrow> v < 2 ^ 28" "varint_value 2 cs = Some (v, rest) \<Longrightarrow> v < 2 ^ 28" for cs v rest
    using conts_bound [of 4 cs] varint_value_bound [of 4 cs v rest] varint_value_bound [of 2 cs v rest] by simp_all
  have j0: "join_parts (word_of_nat v) 0 0 = word_of_nat v" if "v < 2 ^ 28" for v
    using join_parts_value [OF that, of 0 0] by simp
  have j1: "join_parts (word_of_nat a) (word_of_nat v) 0 = word_of_nat (a + v * 2 ^ 28)" if "a < 2 ^ 28" "v < 2 ^ 28" for a v
    using join_parts_value [OF that, of 0] by simp
  show ?thesis
  proof (cases "varint_value 4 bs")
    case (Some x)
    obtain v rest where x: "x = (v, rest)" by (cases x)
    show ?thesis
      unfolding ten varint_value_add ReadVarint64FromArray_def sh part
      using Some j0 [OF b(2) [OF Some [unfolded x]]] by (simp add: x)
  next
    case N0: None
    show ?thesis
    proof (cases "4 \<le> length bs")
      case L0: True
      let ?c = "drop 4 bs"
      show ?thesis
      proof (cases "varint_value 4 ?c")
        case (Some x)
        obtain v rest where x: "x = (v, rest)" by (cases x)
        show ?thesis
          unfolding ten varint_value_add ReadVarint64FromArray_def sh part
          using N0 L0 Some j1 [OF b(1) b(2) [OF Some [unfolded x]], of bs] by (simp add: x mult.commute)
      next
        case N1: None
        show ?thesis
        proof (cases "varint_value 2 (drop 4 ?c)")
          case (Some x)
          obtain v rest where x: "x = (v, rest)" by (cases x)
          have "join_parts (word_of_nat (conts 4 bs)) (word_of_nat (conts 4 ?c)) (word_of_nat v)
              = word_of_nat (conts 4 bs + 128 ^ 4 * (conts 4 ?c + 128 ^ 4 * v))"
            using join_parts_value [OF b(1) b(1) b(3) [OF Some [unfolded x]]] by (simp add: algebra_simps)
          then show ?thesis
            unfolding ten varint_value_add ReadVarint64FromArray_def sh part using N0 N1 L0 Some x by auto
        next
          case N2: None
          show ?thesis
            unfolding ten varint_value_add ReadVarint64FromArray_def sh part using N0 N1 N2 L0 by auto
        qed
      qed
    next
      case False
      show ?thesis
        unfolding ten varint_value_add ReadVarint64FromArray_def sh part using N0 False by auto
    qed
  qed
qed

section \<open>Reading agrees with the reference\<close>

lemma last_ends: "bs \<noteq> [] \<Longrightarrow> unat (last bs) < 128 \<Longrightarrow> length bs \<le> n \<Longrightarrow> varint_value n bs \<noteq> None"
  by (induction n bs rule: varint_value.induct) (auto split: if_splits)

lemma varint_safe_reads: "varint_safe bs \<Longrightarrow> varint_value 10 bs \<noteq> None \<or> 10 \<le> length bs"
  using last_ends [of bs 10] by (auto simp: varint_safe_def kMaxVarintBytes_def and_80)

definition read_result :: "tbyte list \<Rightarrow> tbyte list \<Rightarrow> 'a::len word option \<times> tbyte list" where
  "read_result rest0 bs = (case varint_value 10 bs of Some (v, rest) \<Rightarrow> (Some (word_of_nat v), rest) | None \<Rightarrow> (None, rest0))"

lemma Slow_rest: "length (snd (ReadVarint64Slow count res bs)) \<le> length bs"
  by (induction count res bs rule: ReadVarint64Slow.induct) (auto simp: Let_def)

lemma ReadVarint64Fallback_value:
  "\<exists>rest0. ReadVarint64Fallback bs = Some (read_result rest0 bs) \<and> length rest0 \<le> length bs"
proof (cases "varint_safe bs")
  case True
  then have "ReadVarint64Fallback bs = Some (read_result bs bs)"
    using varint_safe_reads [OF True]
    by (cases "varint_value 10 bs") (auto simp: ReadVarint64Fallback_def read_result_def ReadVarint64FromArray_value)
  then show ?thesis by blast
next
  case False
  have "ReadVarint64Slow 0 0 bs = read_result (snd (ReadVarint64Slow 0 0 bs)) bs"
    using ReadVarint64Slow_value [of 0 0 bs]
    by (cases "varint_value 10 bs"; cases "ReadVarint64Slow 0 0 bs") (auto simp: read_result_def)
  then have "ReadVarint64Fallback bs = Some (read_result (snd (ReadVarint64Slow 0 0 bs)) bs)"
    using False by (simp add: ReadVarint64Fallback_def)
  then show ?thesis using Slow_rest by blast
qed

lemma varint_value_first: "bs \<noteq> [] \<Longrightarrow> unat (hd bs) < 128 \<Longrightarrow> varint_value (Suc n) bs = Some (unat (hd bs), tl bs)"
  by (cases bs) simp_all

lemma ReadVarint64_value: "\<exists>rest0. ReadVarint64 bs = Some (read_result rest0 bs) \<and> length rest0 \<le> length bs"
proof (cases "bs \<noteq> [] \<and> unat (hd bs) < 128")
  case True
  then have "varint_value 10 bs = Some (unat (hd bs), tl bs)" using varint_value_first [of bs 9] by simp
  then have "ReadVarint64 bs = Some (read_result [] bs)" using True by (simp add: ReadVarint64_def read_result_def)
  then show ?thesis by (intro exI [of _ "[]"]) simp
next
  case False
  then have "ReadVarint64 bs = ReadVarint64Fallback bs" by (auto simp: ReadVarint64_def)
  then show ?thesis using ReadVarint64Fallback_value [of bs] by simp
qed

lemma read_result_ucast: "(\<lambda>(p, rest). (map_option ucast p, rest)) (read_result rest0 bs :: tuint64 option \<times> _) = (read_result rest0 bs :: tuint32 option \<times> _)"
proof -
  have "ucast (word_of_nat v :: tuint64) = (word_of_nat v :: tuint32)" for v
    by (rule word_unat_eq_iff [THEN iffD2]) (simp add: unsigned_ucast_eq unsigned_of_nat take_bit_take_bit)
  then show ?thesis by (simp add: read_result_def split: option.splits prod.splits)
qed

lemma ReadVarint32_value: "\<exists>rest0. ReadVarint32 bs = Some (read_result rest0 bs) \<and> length rest0 \<le> length bs"
proof (cases "bs \<noteq> [] \<and> unat (hd bs) < 128")
  case True
  then have "varint_value 10 bs = Some (unat (hd bs), tl bs)" using varint_value_first [of bs 9] by simp
  then have "ReadVarint32 bs = Some (read_result [] bs)" using True by (simp add: ReadVarint32_def read_result_def)
  then show ?thesis by (intro exI [of _ "[]"]) simp
next
  case F: False
  show ?thesis
  proof (cases "varint_safe bs")
    case True
    then obtain b cs where b: "bs = b # cs" "\<not> unat b < 128"
      using F by (cases bs) (auto simp: varint_safe_def kMaxVarintBytes_def)
    then have "ReadVarint32 bs = Some (read_result bs bs)"
      using varint_safe_reads [OF True] True ReadVarint32FromArray_value [OF b(2), of cs]
      by (cases "varint_value 10 bs") (auto simp: ReadVarint32_def ReadVarint32Fallback_def read_result_def)
    then show ?thesis by blast
  next
    case False
    obtain rest0 where r: "ReadVarint64Fallback bs = Some (read_result rest0 bs)" "length rest0 \<le> length bs"
      using ReadVarint64Fallback_value by blast
    have "ReadVarint32 bs = Some (read_result rest0 bs)"
      using F False read_result_ucast [of rest0 bs] by (auto simp: ReadVarint32_def ReadVarint32Fallback_def r(1))
    then show ?thesis using r(2) by blast
  qed
qed

section \<open>Sizes\<close>

lemma length_varint_bytes:
  assumes "128 ^ k \<le> v \<or> k = 0" "v < 128 ^ Suc k"
  shows "length (varint_bytes v) = Suc k"
  using assms
proof (induction k arbitrary: v)
  case 0
  then show ?case by (simp add: varint_bytes_small)
next
  case (Suc k)
  then have v: "128 * 128 ^ k \<le> v" by simp
  then have "128 \<le> v" using one_le_power [of "128 :: nat" k] by linarith
  moreover have "128 ^ k \<le> v div 128" using div_le_mono [OF v, of 128] by simp
  moreover have "v div 128 < 128 ^ Suc k" using Suc.prems(2) by (simp add: div_less_iff_less_mult mult.commute)
  ultimately show ?case using Suc.IH [of "v div 128"] by (subst varint_bytes.simps) simp
qed

text \<open>The search for the highest bit: \<open>v\<close> is \<open>n\<close> without its low \<open>log\<close> bits and has at most \<open>w\<close> bits.\<close>

definition log_inv :: "nat \<Rightarrow> nat \<Rightarrow> tuint32 \<times> nat \<Rightarrow> bool" where
  "log_inv n w x \<longleftrightarrow> unat (fst x) = n div 2 ^ snd x \<and> fst x \<noteq> 0 \<and> unat (fst x) < 2 ^ w"

lemma log_step:
  assumes "log_inv n (2 * 2 ^ i) x"
  shows "log_inv n (2 ^ i) (case x of (v, log) \<Rightarrow> let shift = 2 ^ i; y = drop_bit shift v in if y \<noteq> 0 then (y, log + shift) else (v, log))"
proof -
  obtain v log where x: "x = (v, log)" by (cases x)
  have d: "unat (drop_bit k v) = unat v div 2 ^ k" for k by (simp only: unat_drop_bit_eq) (simp add: drop_bit_eq_div)
  have z: "drop_bit k v = 0 \<longleftrightarrow> unat v < 2 ^ k" for k
    using d [of k] by (metis div_eq_0_iff unat_eq_zero power_not_zero zero_neq_numeral)
  have "unat v < 2 ^ (2 ^ i) * 2 ^ (2 ^ i)" using assms by (simp add: log_inv_def x flip: power_add mult_2)
  then have "unat v div 2 ^ (2 ^ i) < 2 ^ (2 ^ i)" by (simp add: div_less_iff_less_mult)
  then show ?thesis
    using assms d [of "2 ^ i"] z [of "2 ^ i"] by (simp add: log_inv_def x Let_def div_mult2_eq power_add)
qed

lemma Log2FloorNonZero_bounds:
  assumes "n \<noteq> 0"
  shows "2 ^ Log2FloorNonZero n \<le> unat n" "unat n < 2 * 2 ^ Log2FloorNonZero n" "Log2FloorNonZero n < 32"
proof -
  let ?f = "\<lambda>i (value, log). let shift = 2 ^ i; x = drop_bit shift value in if x \<noteq> (0 :: tuint32) then (x, log + shift) else (value, log)"
  have "unat n < 2 ^ 32" using unsigned_less [of n, where 'a = nat] by simp
  then have "log_inv (unat n) (2 * 2 ^ 4) (n, 0)" using assms by (simp add: log_inv_def)
  from log_step [OF this] have 3: "log_inv (unat n) (2 * 2 ^ 3) (?f 4 (n, 0))" by (simp add: numeral_eq_Suc)
  from log_step [OF this] have 2: "log_inv (unat n) (2 * 2 ^ 2) (?f 3 (?f 4 (n, 0)))" by (simp add: numeral_eq_Suc)
  from log_step [OF this] have 1: "log_inv (unat n) (2 * 2 ^ 1) (?f 2 (?f 3 (?f 4 (n, 0))))" by (simp add: numeral_eq_Suc)
  from log_step [OF this] have 0: "log_inv (unat n) (2 * 2 ^ 0) (?f 1 (?f 2 (?f 3 (?f 4 (n, 0)))))" by simp
  from log_step [OF this] have e: "log_inv (unat n) (2 ^ 0) (?f 0 (?f 1 (?f 2 (?f 3 (?f 4 (n, 0))))))" .
  define r where "r = ?f 0 (?f 1 (?f 2 (?f 3 (?f 4 (n, 0)))))"
  have L: "Log2FloorNonZero n = snd r" by (simp add: Log2FloorNonZero_def r_def)
  have "log_inv (unat n) 1 r" using e by (simp add: r_def)
  then have d: "unat n div 2 ^ snd r = 1"
    using unat_eq_zero [of "fst r"] by (auto simp: log_inv_def)
  have "unat n div 2 ^ snd r * 2 ^ snd r \<le> unat n" by simp
  then show lo: "2 ^ Log2FloorNonZero n \<le> unat n" using d by (simp add: L)
  have "unat n < 2 ^ snd r + unat n div 2 ^ snd r * 2 ^ snd r" using dividend_less_div_times [of "2 ^ snd r" "unat n"] by simp
  then show "unat n < 2 * 2 ^ Log2FloorNonZero n" using d by (simp add: L)
  have "(2 :: nat) ^ Log2FloorNonZero n < 2 ^ 32" using lo \<open>unat n < 2 ^ 32\<close> by (rule le_less_trans)
  then show "Log2FloorNonZero n < 32" by (rule power_less_imp_less_exp [rotated]) simp
qed

lemma or_1: "unat (v OR 1 :: tuint32) = (if even (unat v) then unat v + 1 else unat v)"
proof -
  have "unat (v OR 1) = unat v OR 1" by (simp add: unsigned_or_eq)
  then show ?thesis using or_one_eq [of "unat v"] by simp
qed

lemma VarintSize32_length: "VarintSize32 v = length (WriteVarintToArray v)"
proof -
  define L where "L = Log2FloorNonZero (v OR 1)"
  define k where "k = L div 7"
  have nz: "v OR 1 \<noteq> 0" using or_1 [of v] by (metis add_is_0 even_zero one_neq_zero unat_eq_zero)
  note b = Log2FloorNonZero_bounds [OF nz, folded L_def]
  have "(L * 9 + 73) div 64 = Suc (L div 7)"
  proof -
    have "\<forall>l \<in> set [0..<32]. (l * 9 + 73) div 64 = Suc (l div 7)" by code_simp
    moreover have "L \<in> set [0..<32]" using b(3) by simp
    ultimately show ?thesis by blast
  qed
  then have s: "VarintSize32 v = Suc k" by (simp add: VarintSize32_def L_def k_def Let_def)
  have "unat v \<le> unat (v OR 1)" by (simp add: or_1)
  moreover have "2 ^ Suc L \<le> (2 :: nat) ^ (7 * Suc k)" by (intro power_increasing) (simp_all add: k_def)
  moreover have "(2 :: nat) ^ (7 * Suc k) = 128 ^ Suc k" unfolding power_mult by simp
  ultimately have up: "unat v < 128 ^ Suc k" using b(2) by simp
  have lo: "128 ^ k \<le> unat v \<or> k = 0"
  proof (cases "k = 0")
    case False
    have "(2 :: nat) ^ (7 * k) \<le> 2 ^ L" by (intro power_increasing) (simp_all add: k_def)
    then have "128 ^ k \<le> unat (v OR 1)" using b(1) by (simp add: power_mult)
    moreover have "even ((128 :: nat) ^ k)" using False by simp
    moreover have "128 ^ k \<noteq> Suc (unat v)" if "even (unat v)"
      using that \<open>even ((128 :: nat) ^ k)\<close> by (metis even_Suc)
    ultimately show ?thesis by (auto simp: or_1 split: if_splits)
  qed simp
  show ?thesis unfolding s WriteVarint_bytes length_varint_bytes [OF lo up] ..
qed

lemma uint_scast: "uint (scast (v :: 32 word) :: tuint64) = sint v mod 2 ^ 64"
proof -
  have "(scast v :: tuint64) = word_of_int (sint v)" by (simp only: of_int_sint)
  then show ?thesis by (simp only: uint_word_of_int) simp
qed

lemma unat_scast_pos: "0 \<le> sint (v :: 32 word) \<Longrightarrow> unat (scast v :: tuint64) = unat v"
proof -
  assume v: "0 \<le> sint v"
  have "sint v < 2 ^ 31" using sint_less [of v] by simp
  then have "uint (scast v :: tuint64) = sint v" using v by (simp add: uint_scast)
  then show ?thesis using uint32_sint [OF v] by (simp add: unat_eq_nat_uint)
qed

lemma unat_scast_neg:
  assumes "sint (v :: 32 word) < 0"
  shows "2 ^ 63 \<le> unat (scast v :: tuint64)"
proof -
  have "- (2 ^ 31) \<le> sint v" using sint_greater_eq [of v] by simp
  then have "(sint v + 2 ^ 64) mod 2 ^ 64 = sint v + 2 ^ 64" using assms by (intro mod_pos_pos_trivial) simp_all
  then have "sint v mod 2 ^ 64 = sint v + 2 ^ 64" by (simp only: mod_add_self2)
  then have "2 ^ 63 \<le> uint (scast v :: tuint64)" using \<open>- (2 ^ 31) \<le> sint v\<close> by (simp add: uint_scast)
  from nat_mono [OF this] show ?thesis unfolding unat_eq_nat_uint by (simp only: nat_power_eq) simp
qed

lemma VarintSize32SignExtended_length: "VarintSize32SignExtended v = length (WriteVarint32SignExtendedToArray v)"
proof (cases "sint v < 0")
  case True
  have "unat (scast v :: tuint64) < 2 ^ 64" using unsigned_less [of "scast v :: tuint64", where 'a = nat] by simp
  then have "length (varint_bytes (unat (scast v :: tuint64))) = Suc 9"
    using unat_scast_neg [OF True] by (intro length_varint_bytes) simp_all
  then show ?thesis using True by (simp add: VarintSize32SignExtended_def WriteVarint32SignExtendedToArray_def WriteVarint_bytes)
next
  case False
  then show ?thesis
    using unat_scast_pos [of v] by (simp add: VarintSize32SignExtended_def WriteVarint32SignExtendedToArray_def WriteVarint_bytes VarintSize32_length)
qed

section \<open>Reading what was written\<close>

lemma read_written: "v < 128 ^ 10 \<Longrightarrow> read_result rest0 (varint_bytes v @ rest) = (Some (word_of_nat v), rest)"
  by (simp add: read_result_def varint_bytes_value)

lemma ReadUInt32_written:
  assumes "ci_buffer s = WriteVarintToArray (v :: tuint32) @ rest"
  shows "ReadUInt32 s = Some (Some v, s\<lparr>ci_buffer := rest\<rparr>)"
proof -
  have "unat v < 2 ^ 32" using unsigned_less [of v, where 'a = nat] by simp
  then have "unat v < 128 ^ 10" by simp
  from read_written [OF this, where 'a = 32] show ?thesis
    using ReadVarint32_value [of "ci_buffer s"] unfolding assms WriteVarint_bytes by (auto simp: ReadUInt32_def assms WriteVarint_bytes)
qed

lemma ReadUInt32_written_signed:
  assumes "ci_buffer s = WriteVarint32SignExtendedToArray v @ rest"
  shows "ReadUInt32 s = Some (Some v, s\<lparr>ci_buffer := rest\<rparr>)"
proof -
  have "unat (scast v :: tuint64) < 2 ^ 64" using unsigned_less [of "scast v :: tuint64", where 'a = nat] by simp
  then have "unat (scast v :: tuint64) < 128 ^ 10" by simp
  note r = read_written [OF this]
  have "word_of_nat (unat (scast v :: tuint64)) = (ucast (scast v :: tuint64) :: tuint32)" by simp
  also have "ucast (scast v :: tuint64) = v" by (rule bit_word_eqI) (auto simp: bit_simps)
  finally show ?thesis
    using ReadVarint32_value [of "ci_buffer s"] r [where 'a = 32]
    unfolding assms WriteVarint32SignExtendedToArray_def WriteVarint_bytes
    by (auto simp: ReadUInt32_def assms WriteVarint32SignExtendedToArray_def WriteVarint_bytes)
qed

lemma ReadString_written:
  assumes "ci_buffer s = WriteVarintToArray (word_of_nat (length v) :: tuint32) @ v @ rest" "length v < 2 ^ 31"
  shows "ReadString old s = Some (True, v, s\<lparr>ci_buffer := rest\<rparr>)"
  using ReadUInt32_written [OF assms(1)] sint_small [OF assms(2)]
  by (simp add: ReadString_def InternalReadStringInline_def)

end
