(* ===== verification/WireMessages.thy ===== *)
theory WireMessages
  imports WireFacts
begin

text \<open>
  Messages on the wire: the loop of the generated classes never leaves its array and always ends, whatever
  the bytes; \<open>wire_class\<close> is what a class does with its fields, and from it follows that a message is
  parsed back as it was written.
\<close>

unbundle bit_operations_syntax

section \<open>Reading stays inside\<close>

text \<open>A call that ends, with a buffer not longer than before.\<close>

definition inside :: "coded_input \<Rightarrow> coded_input \<Rightarrow> bool" where
  "inside s s1 \<longleftrightarrow> length (ci_buffer s1) \<le> length (ci_buffer s)"

lemma inside_trans: "inside s s1 \<Longrightarrow> inside s1 s2 \<Longrightarrow> inside s s2"
  by (simp add: inside_def)

lemma read_result_shorter: "read_result rest0 bs = (Some v, rest) \<Longrightarrow> length rest < length bs"
  using varint_value_shorter by (fastforce simp: read_result_def split: option.splits)

lemma read_result_not_longer: "length rest0 \<le> length bs \<Longrightarrow> length (snd (read_result rest0 bs)) \<le> length bs"
  using varint_value_shorter [of 10 bs] by (fastforce simp: read_result_def split: option.splits)

lemma ReadVarint64_inside: "\<exists>p rest. ReadVarint64 bs = Some (p, rest) \<and> length rest \<le> length bs \<and> (p \<noteq> None \<longrightarrow> length rest < length bs)"
proof -
  obtain rest0 where r: "ReadVarint64 bs = Some (read_result rest0 bs)" "length rest0 \<le> length bs" using ReadVarint64_value by blast
  obtain p :: "tuint64 option" and rest where "read_result rest0 bs = (p, rest)" by fastforce
  then show ?thesis using r read_result_not_longer [OF r(2), where 'a = 64] read_result_shorter [of rest0 bs _ rest] by auto
qed

lemma ReadUInt32_inside: "\<exists>p s1. ReadUInt32 s = Some (p, s1) \<and> inside s s1"
proof -
  obtain rest0 where r: "ReadVarint32 (ci_buffer s) = Some (read_result rest0 (ci_buffer s))" "length rest0 \<le> length (ci_buffer s)"
    using ReadVarint32_value by blast
  then show ?thesis
    using read_result_not_longer [OF r(2), where 'a = 32] by (simp add: ReadUInt32_def inside_def case_prod_unfold)
qed

lemma ReadTagFallback_inside:
  assumes "first = (if ci_buffer s = [] then 0 else ucast (hd (ci_buffer s)))"
    and "ci_buffer s \<noteq> [] \<longrightarrow> unat (hd (ci_buffer s)) = 0 \<or> 128 \<le> unat (hd (ci_buffer s))"
  shows "\<exists>tag s1. ReadTagFallback first s = Some (tag, s1) \<and> inside s s1 \<and>
    (tag \<noteq> 0 \<longrightarrow> length (ci_buffer s1) < length (ci_buffer s))"
proof (cases "varint_safe (ci_buffer s)")
  case True
  then obtain b cs where b: "ci_buffer s = b # cs" by (cases "ci_buffer s") (auto simp: varint_safe_def kMaxVarintBytes_def)
  have f: "first = ucast b" using assms(1) b by simp
  show ?thesis
  proof (cases "unat b = 0")
    case True
    then have "first = 0" unfolding f ucast_byte by simp
    then show ?thesis using \<open>varint_safe (ci_buffer s)\<close> by (simp add: ReadTagFallback_def inside_def Let_def)
  next
    case False
    then have b128: "\<not> unat b < 128" using assms(2) b by auto
    have "unat first = unat b" unfolding f using unat_byte_less [of b] by (simp add: unsigned_ucast_eq take_bit_nat_eq_self)
    then have "first \<noteq> 0" using b128 by auto
    moreover note ReadVarint32FromArray_value [OF b128, of cs] varint_safe_reads [OF True]
    ultimately show ?thesis
      using True varint_value_shorter [of 10 "ci_buffer s"] unfolding f
      by (cases "varint_value 10 (ci_buffer s)") (auto simp: ReadTagFallback_def inside_def Let_def b)
  qed
next
  case False
  show ?thesis
  proof (cases "ci_buffer s = []")
    case True
    then show ?thesis using False by (simp add: ReadTagFallback_def inside_def Let_def)
  next
    case ne: False
    obtain p rest where "ReadVarint64 (ci_buffer s) = Some (p, rest)" "length rest \<le> length (ci_buffer s)"
      "p \<noteq> None \<longrightarrow> length rest < length (ci_buffer s)" using ReadVarint64_inside by blast
    then show ?thesis using False ne by (cases p) (auto simp: ReadTagFallback_def ReadTagSlow_def inside_def Let_def)
  qed
qed

lemma ReadTag_inside:
  "\<exists>tag s1. ReadTag s = Some (tag, s1) \<and> inside s s1 \<and> (tag \<noteq> 0 \<longrightarrow> length (ci_buffer s1) < length (ci_buffer s))"
proof (cases "ci_buffer s")
  case Nil
  then show ?thesis using ReadTagFallback_inside [of 0 s] by (auto simp: ReadTag_def inside_def)
next
  case (Cons b rest)
  then show ?thesis
    using ReadTagFallback_inside [of "ucast b" s] by (auto simp: ReadTag_def inside_def not_less)
qed

lemma sint_byte: "0 < sint (b :: tbyte) \<longleftrightarrow> 0 < unat b \<and> unat b < 128"
  by (rule all_bytes) code_simp

lemma ReadTagWithCutoff_inside:
  "\<exists>tag known s1. ReadTagWithCutoffNoLastTag cutoff s = Some ((tag, known), s1) \<and> inside s s1 \<and>
    (tag \<noteq> 0 \<longrightarrow> length (ci_buffer s1) < length (ci_buffer s))"
proof (cases "ci_buffer s")
  case Nil
  then show ?thesis using ReadTagFallback_inside [of 0 s] by (auto simp: ReadTagWithCutoffNoLastTag_def Let_def inside_def)
next
  case (Cons b rest)
  show ?thesis
  proof (cases "0 < sint b")
    case True
    then show ?thesis using Cons by (simp add: ReadTagWithCutoffNoLastTag_def Let_def inside_def)
  next
    case False
    then have "unat b = 0 \<or> 128 \<le> unat b" by (simp add: sint_byte) linarith
    then obtain tag s1 where "ReadTagFallback (ucast b) s = Some (tag, s1)" "inside s s1" "tag \<noteq> 0 \<longrightarrow> length (ci_buffer s1) < length (ci_buffer s)"
      using ReadTagFallback_inside [of "ucast b" s] Cons by auto
    then show ?thesis
      using False Cons by (cases rest) (auto simp: ReadTagWithCutoffNoLastTag_def Let_def inside_def)
  qed
qed

lemma SkipField_over_inside:
  assumes "\<And>s. length (ci_buffer s) < n \<Longrightarrow> \<exists>ok s1. skip s = Some (ok, s1) \<and> inside s s1" "length (ci_buffer s) < n"
  shows "\<exists>ok s1. SkipField_over skip tag s = Some (ok, s1) \<and> inside s s1"
proof -
  obtain p rest where v: "ReadVarint64 (ci_buffer s) = Some (p, rest)" "length rest \<le> length (ci_buffer s)" using ReadVarint64_inside by blast
  obtain q s1 where u: "ReadUInt32 s = Some (q, s1)" "inside s s1" using ReadUInt32_inside by blast
  define s2 where "s2 = s\<lparr>recursion_budget := recursion_budget s - 1\<rparr>"
  have "length (ci_buffer s2) < n" using assms(2) by (simp add: s2_def)
  from assms(1) [OF this] obtain ok s3 where g: "skip s2 = Some (ok, s3)" "inside s2 s3" by blast
  have w: "inside s s3" using g(2) by (simp add: inside_def s2_def)
  have fixed: "inside s (snd (ReadLittleEndian k s))" for k by (simp add: ReadLittleEndian_def inside_def)
  have skipped: "inside s (snd (Skip len s1))" for len using u(2) by (auto simp: Skip_def inside_def)
  consider "GetTagFieldNumber tag = 0" | "GetTagFieldNumber tag \<noteq> 0" "GetTagWireType tag = WIRETYPE_VARINT"
    | "GetTagFieldNumber tag \<noteq> 0" "GetTagWireType tag = WIRETYPE_FIXED64" | "GetTagFieldNumber tag \<noteq> 0" "GetTagWireType tag = WIRETYPE_LENGTH_DELIMITED"
    | "GetTagFieldNumber tag \<noteq> 0" "GetTagWireType tag = WIRETYPE_START_GROUP" | "GetTagFieldNumber tag \<noteq> 0" "GetTagWireType tag = WIRETYPE_FIXED32"
    | "GetTagFieldNumber tag \<noteq> 0" "GetTagWireType tag \<notin> {WIRETYPE_VARINT, WIRETYPE_FIXED64, WIRETYPE_LENGTH_DELIMITED, WIRETYPE_START_GROUP, WIRETYPE_FIXED32}"
    by blast
  then show ?thesis
  proof cases
    case 2
    then show ?thesis using v by (simp add: SkipField_over_def inside_def)
  next
    case 3
    then show ?thesis using fixed [of 8] by (cases "ReadLittleEndian 8 s") (simp add: SkipField_over_def wire_types)
  next
    case 4
    then show ?thesis
      using u skipped [of "the q"] by (cases q; cases "Skip (the q) s1") (auto simp: SkipField_over_def wire_types)
  next
    case 5
    then show ?thesis
      using g(1) w by (cases ok) (auto simp: SkipField_over_def wire_types Let_def s2_def [symmetric] inside_def, auto simp: s2_def)
  next
    case 6
    then show ?thesis using fixed [of 4] by (cases "ReadLittleEndian 4 s") (simp add: SkipField_over_def wire_types)
  qed (auto simp: SkipField_over_def inside_def)
qed

lemma SkipMessage_inside: "length (ci_buffer s) < fuel \<Longrightarrow> \<exists>ok s1. SkipMessage fuel s = Some (ok, s1) \<and> inside s s1"
proof (induction fuel arbitrary: s)
  case (Suc fuel)
  obtain tag s1 where t: "ReadTag s = Some (tag, s1)" "inside s s1" "tag \<noteq> 0 \<longrightarrow> length (ci_buffer s1) < length (ci_buffer s)"
    using ReadTag_inside by blast
  show ?case
  proof (cases "tag = 0 \<or> GetTagWireType tag = WIRETYPE_END_GROUP")
    case True
    then show ?thesis using t by auto
  next
    case False
    then have l: "length (ci_buffer s1) < fuel" using t(3) Suc.prems by simp
    obtain ok s2 where f: "SkipField_over (SkipMessage fuel) tag s1 = Some (ok, s2)" "inside s1 s2"
      using SkipField_over_inside [OF Suc.IH l] by blast
    show ?thesis
    proof (cases ok)
      case True
      have "length (ci_buffer s2) < fuel" using l f(2) by (simp add: inside_def)
      from Suc.IH [OF this] obtain ok' s3 where "SkipMessage fuel s2 = Some (ok', s3)" "inside s2 s3" by blast
      then show ?thesis using t f False True by (auto intro: inside_trans)
    qed (use t f False inside_trans in auto)
  qed
qed simp

lemma SkipField_inside: "\<exists>ok s1. SkipField tag s = Some (ok, s1) \<and> inside s s1"
  unfolding SkipField_def by (rule SkipField_over_inside [OF SkipMessage_inside]) auto

text \<open>A \<open>switch\<close> whose cases stay inside, none of them for the tag 0.\<close>

definition switch_inside :: "'d field_switch \<Rightarrow> bool" where
  "switch_inside switch \<longleftrightarrow> (\<forall>d s. switch 0 d s = None) \<and> (\<forall>tag d s. case switch tag d s of
      None \<Rightarrow> True | Some None \<Rightarrow> False | Some (Some (ok, d1, s1)) \<Rightarrow> inside s s1)"

lemma Merge_inside:
  assumes "switch_inside switch"
  shows "length (ci_buffer s) < fuel \<Longrightarrow> MergePartialFromCodedStream fuel cutoff switch d s \<noteq> None"
proof (induction fuel arbitrary: d s)
  case (Suc fuel)
  obtain tag known s1 where t: "ReadTagWithCutoffNoLastTag cutoff s = Some ((tag, known), s1)" "inside s s1"
      "tag \<noteq> 0 \<longrightarrow> length (ci_buffer s1) < length (ci_buffer s)" using ReadTagWithCutoff_inside by blast
  have sw: "case switch tag d s1 of None \<Rightarrow> True | Some None \<Rightarrow> False | Some (Some (ok, d1, s2)) \<Rightarrow> inside s1 s2"
    using assms unfolding switch_inside_def by blast
  obtain ok s2 where f: "SkipField tag s1 = Some (ok, s2)" "inside s1 s2" using SkipField_inside by blast
  show ?case
  proof (cases "tag = 0")
    case True
    moreover have "switch 0 d s1 = None" using assms by (simp add: switch_inside_def)
    ultimately show ?thesis using t(1) by auto
  next
    case False
    then have l: "length (ci_buffer s1) < fuel" using t(3) Suc.prems by simp
    then have more: "MergePartialFromCodedStream fuel cutoff switch d' s' \<noteq> None" if "inside s1 s'" for d' s'
      using that Suc.IH by (simp add: inside_def)
    show ?thesis
      using t(1) sw f more False by (auto split: option.splits bool.splits)
  qed
qed simp

section \<open>Reading what was written\<close>

lemma two_byte_test: "128 \<le> unat (b :: tbyte) \<Longrightarrow> unat c < 128 \<Longrightarrow> 128 \<le> unat (b AND NOT c)"
  by (simp add: bit7 [symmetric] bit_simps not_le [symmetric])

text \<open>A tag of at most 14 bits.\<close>

lemma ReadTagWithCutoff_written:
  assumes "ci_buffer s = WriteVarintToArray tag @ rest" "0 < unat tag" "unat tag < 2 ^ 14"
    and "cutoff = 0x7F \<or> cutoff = 0x3FFF" "tag \<le> cutoff"
  shows "ReadTagWithCutoffNoLastTag cutoff s = Some ((tag, True), s\<lparr>ci_buffer := rest\<rparr>)"
proof (cases "unat tag < 128")
  case True
  define b where "b = (word_of_nat (unat tag) :: tbyte)"
  have b: "unat b = unat tag" using True by (simp add: b_def unat_byte_of_nat del: of_nat_unat)
  then have "(ucast b :: tuint32) = tag" unfolding ucast_byte by simp
  moreover have "ci_buffer s = b # rest" using assms(1) True by (simp add: WriteVarint_bytes varint_bytes_small b_def)
  ultimately show ?thesis
    using assms(2,4,5) True b by (auto simp: ReadTagWithCutoffNoLastTag_def Let_def sint_byte)
next
  case False
  define b c where "b = (word_of_nat (unat tag mod 128 + 128) :: tbyte)" and "c = (word_of_nat (unat tag div 128) :: tbyte)"
  have d: "unat tag div 128 < 128" using assms(3) by (simp add: div_less_iff_less_mult)
  have b: "unat b = unat tag mod 128 + 128" unfolding b_def by (rule unat_byte_of_nat [THEN trans]) simp
  have c: "unat c = unat tag div 128" using d unfolding c_def unat_byte_of_nat by (intro mod_less) simp
  have buf: "ci_buffer s = b # c # rest"
    unfolding assms(1) WriteVarint_bytes b_def c_def
    using False varint_bytes_small [OF d] by (subst varint_bytes.simps) simp
  have "push_bit 7 1 * word_of_nat x + (word_of_nat (y + 128) - 0x80) = (word_of_nat (128 * x + y) :: tuint32)" for x y
    by (simp add: push_bit_eq_mult)
  then have "(push_bit 7 1 * ucast c + (ucast b - 0x80) :: tuint32) = word_of_nat (128 * (unat tag div 128) + unat tag mod 128)"
    unfolding ucast_byte b c .
  also have "\<dots> = tag" by (simp only: mult_div_mod_eq of_nat_unat ucast_id)
  finally have v: "(push_bit 7 1 * ucast c + (ucast b - 0x80) :: tuint32) = tag" .
  have "\<not> 0 < sint b" "128 \<le> unat (b AND NOT c)" using two_byte_test [of b c] d by (simp_all add: sint_byte b c)
  moreover have "cutoff = 0x3FFF"
    using assms(4,5) False by (auto simp: word_le_nat_alt)
  ultimately show ?thesis
    using v by (simp add: ReadTagWithCutoffNoLastTag_def Let_def buf)
qed

lemma ReadTagWithCutoff_end:
  "ci_buffer s = [] \<Longrightarrow> ReadTagWithCutoffNoLastTag cutoff s = Some ((0, False), s\<lparr>legitimate_message_end := True\<rparr>)"
  by (simp add: ReadTagWithCutoffNoLastTag_def ReadTagFallback_def varint_safe_def kMaxVarintBytes_def Let_def)

section \<open>The contract of a generated class\<close>

text \<open>
  A message is written in pieces: the bytes of a field, nothing if it has its default, and what its case
  stores. \<open>good\<close> are the messages whose texts can be read back, \<open>view\<close> is what a message shows of its fields.
\<close>

type_synonym 'd piece = "tbyte list \<times> ('d \<Rightarrow> 'd)"

definition read_piece :: "'d piece \<Rightarrow> 'd \<Rightarrow> 'd" where
  "read_piece x a = (if fst x = [] then a else snd x a)"

locale wire_class =
  fixes cutoff :: tuint32
    and switch :: "'d field_switch"
    and clear :: "'d \<Rightarrow> 'd"
    and pieces :: "'d \<Rightarrow> 'd piece list"
    and serialize :: "'d \<Rightarrow> tbyte list"
    and byte_size :: "'d \<Rightarrow> nat"
    and good :: "'d \<Rightarrow> bool"
    and view :: "'d \<Rightarrow> 'v"
  assumes inside: "switch_inside switch"
    and piece_read: "x \<in> set (pieces d) \<Longrightarrow> good d \<Longrightarrow> fst x \<noteq> [] \<Longrightarrow> ci_buffer s = fst x @ rest \<Longrightarrow>
      \<not> legitimate_message_end s \<Longrightarrow> \<exists>tag s1. ReadTagWithCutoffNoLastTag cutoff s = Some ((tag, True), s1)
        \<and> switch tag a s1 = Some (Some (True, snd x a, s\<lparr>ci_buffer := rest\<rparr>))"
    and pieces_all: "view (fold read_piece (pieces d) (clear d0)) = view d"
    and pieces_written: "serialize d = concat (map fst (pieces d))"
    and pieces_counted: "good d \<Longrightarrow> byte_size d = sum_list (map (length \<circ> fst) (pieces d))"
begin

lemma parse_ends: "ParseFromArray_over cutoff switch (clear d0) data \<noteq> None"
  using Merge_inside [OF inside, of "CodedInputStream_new data" "Suc (length data)"]
  by (simp add: ParseFromArray_over_def CodedInputStream_new_def)

lemma size_written: "good d \<Longrightarrow> byte_size d = length (serialize d)"
  by (simp add: pieces_counted pieces_written length_concat)

lemma merge_pieces:
  assumes "\<forall>x \<in> set xs. \<exists>d. good d \<and> x \<in> set (pieces d)" "ci_buffer s = concat (map fst xs)" "length (ci_buffer s) < fuel"
    "\<not> legitimate_message_end s"
  shows "MergePartialFromCodedStream fuel cutoff switch a s
    = Some (True, fold read_piece xs a, s\<lparr>ci_buffer := [], legitimate_message_end := True\<rparr>)"
  using assms
proof (induction xs arbitrary: s a fuel)
  case Nil
  then obtain f where "fuel = Suc f" by (cases fuel) auto
  then show ?case using ReadTagWithCutoff_end [of s] Nil(2) by simp
next
  case (Cons x xs)
  show ?case
  proof (cases "fst x = []")
    case True
    then show ?thesis using Cons.IH [of s fuel a] Cons.prems by (simp add: read_piece_def)
  next
    case False
    obtain f where f: "fuel = Suc f" using Cons.prems(3) by (cases fuel) auto
    let ?s = "s\<lparr>ci_buffer := concat (map fst xs)\<rparr>"
    obtain d where m: "x \<in> set (pieces d)" and g: "good d" using Cons.prems(1) by auto
    have b: "ci_buffer s = fst x @ concat (map fst xs)" using Cons.prems(2) by simp
    obtain tag s1 where t: "ReadTagWithCutoffNoLastTag cutoff s = Some ((tag, True), s1)"
        "switch tag a s1 = Some (Some (True, snd x a, ?s))"
      using piece_read [of x d s _ a, OF m g False b Cons.prems(4)] by blast
    have "length (concat (map fst xs)) < f"
      using Cons.prems(2,3) False by (cases "fst x") (simp_all add: f)
    then show ?thesis
      using t Cons.IH [of ?s f "snd x a"] Cons.prems(1,4) False by (simp add: read_piece_def f)
  qed
qed

lemma parse_pieces:
  assumes "\<forall>x \<in> set xs. \<exists>d. good d \<and> x \<in> set (pieces d)"
  shows "ParseFromArray_over cutoff switch (clear d0) (concat (map fst xs)) = Some (True, fold read_piece xs (clear d0))"
  using merge_pieces [of xs "CodedInputStream_new (concat (map fst xs))" "Suc (length (concat (map fst xs)))" "clear d0"] assms
  by (simp add: ParseFromArray_over_def CodedInputStream_new_def)

lemma parse_serialize:
  assumes "good d"
  shows "\<exists>d1. ParseFromArray_over cutoff switch (clear d0) (serialize d) = Some (True, d1) \<and> view d1 = view d"
  using assms parse_pieces [of "pieces d" d0] pieces_all [of d d0] by (auto simp: pieces_written)

end

text \<open>The bytes of two messages one after the other are those of the second merged into the first.\<close>

locale wire_merge = wire_class +
  fixes merge_from :: "'a \<Rightarrow> 'a \<Rightarrow> 'a"
  assumes pieces_merged: "view (fold read_piece (pieces d) (fold read_piece (pieces a) (clear d0))) = view (merge_from d a)"
begin

lemma parse_merges:
  assumes "good a" "good d"
  shows "\<exists>d1. ParseFromArray_over cutoff switch (clear d0) (serialize a @ serialize d) = Some (True, d1) \<and> view d1 = view (merge_from d a)"
  using assms parse_pieces [of "pieces a @ pieces d" d0] pieces_merged [of d a d0] by (auto simp: pieces_written)

end

end
