(* ===== verification/Utf8.thy ===== *)
theory Utf8
  imports Prelude
begin

text \<open>
  The check of texts in protocol buffers, \<open>lib/google/protobuf/stubs/structurally_valid.cc\<close>: an automaton
  over a table of states, and two loops before it that pass over ASCII. The loops depend on the address
  of the text, which is an argument. The static initialisation of the file is over. The table has no
  entry \<open>kExitDoAgain\<close>, so the loops around both functions run once.
\<close>

unbundle bit_operations_syntax

section \<open>The table\<close>

definition kExitIllegalStructure :: nat where "kExitIllegalStructure = 240"
definition kExitOK :: nat where "kExitOK = 241"
definition kExitReject :: nat where "kExitReject = 242"

text \<open>The nine states of \<open>utf8acceptnonsurrogates\<close>, by runs of equal entries.\<close>

definition utf8_states :: "nat list list" where
  "utf8_states = (let X = kExitIllegalStructure; RJ = kExitReject in
     [replicate 128 0 @ replicate 66 X @ replicate 30 1 @ [2] @ replicate 12 3 @ [7] @ replicate 2 3 @ [4] @ replicate 3 5 @ [6] @ replicate 11 X,
      replicate 128 X @ replicate 64 0 @ replicate 64 X,
      replicate 160 X @ replicate 32 1 @ replicate 64 X,
      replicate 128 X @ replicate 64 1 @ replicate 64 X,
      replicate 144 X @ replicate 48 3 @ replicate 64 X,
      replicate 128 X @ replicate 64 3 @ replicate 64 X,
      replicate 128 X @ replicate 16 3 @ replicate 112 X,
      replicate 128 X @ replicate 32 1 @ replicate 32 8 @ replicate 64 X,
      replicate 128 X @ replicate 64 RJ @ replicate 64 X])"

definition utf8acceptnonsurrogates :: "nat list" where
  "utf8acceptnonsurrogates = concat utf8_states"

definition utf8acceptnonsurrogates_fast :: "nat list" where
  "utf8acceptnonsurrogates_fast = replicate 128 0 @ replicate 128 1"

section \<open>Scanning\<close>

text \<open>The loops until the address is a multiple of 8, and over groups of 8 bytes; each gives how many bytes it passes.\<close>

fun fast_prefix :: "nat \<Rightarrow> tbyte list \<Rightarrow> nat" where
  "fast_prefix addr [] = 0"
| "fast_prefix addr (b # bs) =
     (if addr mod 8 \<noteq> 0 \<and> utf8acceptnonsurrogates_fast ! unat b = 0 then Suc (fast_prefix (addr + 1) bs) else 0)"

definition utf8acceptnonsurrogates_LOSUB :: tuint32 where "utf8acceptnonsurrogates_LOSUB = 0x20202020"
definition utf8acceptnonsurrogates_HIADD :: tuint32 where "utf8acceptnonsurrogates_HIADD = 0"

function fast_groups :: "tbyte list \<Rightarrow> nat" where
  "fast_groups bs =
     (if length bs < 8 then 0
      else let s0123 = word32_at bs 0; s4567 = word32_at bs 4;
               temp = (s0123 - utf8acceptnonsurrogates_LOSUB) OR (s0123 + utf8acceptnonsurrogates_HIADD)
                 OR (s4567 - utf8acceptnonsurrogates_LOSUB) OR (s4567 + utf8acceptnonsurrogates_HIADD)
           in if temp AND 0x80808080 \<noteq> 0
              then if \<exists>i \<in> set [0, 1, 2, 3]. utf8acceptnonsurrogates_fast ! unat (bs ! i) \<noteq> 0 then 0
                   else if \<exists>i \<in> set [4, 5, 6, 7]. utf8acceptnonsurrogates_fast ! unat (bs ! i) \<noteq> 0 then 4
                   else 8 + fast_groups (drop 8 bs)
              else 8 + fast_groups (drop 8 bs))"
  by pat_completeness auto
termination by (relation "measure length") auto

declare fast_groups.simps [simp del]

text \<open>The automaton: the last entry read, the state it was read in, and the bytes taken.\<close>

fun scan_bytes :: "nat \<Rightarrow> nat \<Rightarrow> tbyte list \<Rightarrow> nat \<times> nat \<times> nat" where
  "scan_bytes state e [] = (e, state, 0)"
| "scan_bytes state e (c # bs) =
     (let e1 = utf8acceptnonsurrogates ! (state * 256 + unat c)
      in if kExitIllegalStructure \<le> e1 then (e1, state, 1)
         else case scan_bytes e1 e1 bs of (e2, state2, n) \<Rightarrow> (e2, state2, Suc n))"

text \<open>Back to the first byte of a character.\<close>

fun back_up :: "tbyte list \<Rightarrow> nat \<Rightarrow> nat" where
  "back_up bs 0 = 0"
| "back_up bs (Suc src) = (if 0 < src \<and> bs ! src AND 0xC0 = 0x80 then back_up bs src else src)"

definition UTF8GenericScan :: "nat \<Rightarrow> tbyte list \<Rightarrow> nat \<times> nat" where
  "UTF8GenericScan addr bs =
     (if bs = [] then (kExitOK, 0)
      else let n = fast_prefix addr bs;
               m = n + (if (addr + n) mod 8 = 0 then fast_groups (drop n bs) else 0)
           in case scan_bytes 0 0 (drop m bs) of
                (e, state, k) \<Rightarrow>
                  let src = m + k
                  in if kExitIllegalStructure \<le> e then (e, if state = 0 then src - 1 else back_up bs (src - 1))
                     else if state \<noteq> 0 then (kExitIllegalStructure, back_up bs src)
                     else (kExitOK, src))"

fun ascii_prefix :: "nat \<Rightarrow> tbyte list \<Rightarrow> nat" where
  "ascii_prefix addr [] = 0"
| "ascii_prefix addr (b # bs) = (if addr mod 8 \<noteq> 0 \<and> unat b < 0x80 then Suc (ascii_prefix (addr + 1) bs) else 0)"

function ascii_groups :: "tbyte list \<Rightarrow> nat" where
  "ascii_groups bs =
     (if 8 \<le> length bs \<and> (word32_at bs 0 OR word32_at bs 4) AND 0x80808080 = 0 then 8 + ascii_groups (drop 8 bs) else 0)"
  by pat_completeness auto
termination by (relation "measure length") auto

declare ascii_groups.simps [simp del]

definition UTF8GenericScanFastAscii :: "nat \<Rightarrow> tbyte list \<Rightarrow> nat \<times> nat" where
  "UTF8GenericScanFastAscii addr bs =
     (if bs = [] then (kExitOK, 0)
      else let n = ascii_prefix addr bs;
               m = n + (if (addr + n) mod 8 = 0 then ascii_groups (drop n bs) else 0);
               src = m + length (takeWhile (\<lambda>b. unat b < 0x80) (drop m bs))
           in case UTF8GenericScan (addr + src) (drop src bs) of
                (exit_reason, rest_consumed) \<Rightarrow> (exit_reason, src + rest_consumed))"

definition IsStructurallyValidUTF8 :: "nat \<Rightarrow> tbyte list \<Rightarrow> bool" where
  "IsStructurallyValidUTF8 addr buf = (snd (UTF8GenericScanFastAscii addr buf) = length buf)"

section \<open>The reference\<close>

text \<open>A text is the code points of Unicode but the surrogates, each in one to four bytes.\<close>

definition scalar_value :: "nat \<Rightarrow> bool" where
  "scalar_value u \<longleftrightarrow> u < 0xD800 \<or> (0xE000 \<le> u \<and> u < 0x110000)"

definition utf8_encode :: "nat \<Rightarrow> tbyte list" where
  "utf8_encode u = map word_of_nat
     (if u < 0x80 then [u]
      else if u < 0x800 then [0xC0 + u div 64, 0x80 + u mod 64]
      else if u < 0x10000 then [0xE0 + u div 64 div 64, 0x80 + u div 64 mod 64, 0x80 + u mod 64]
      else [0xF0 + u div 64 div 64 div 64, 0x80 + u div 64 div 64 mod 64, 0x80 + u div 64 mod 64, 0x80 + u mod 64])"

definition utf8_text :: "tbyte list \<Rightarrow> bool" where
  "utf8_text bs \<longleftrightarrow> (\<exists>us. list_all scalar_value us \<and> bs = concat (map utf8_encode us))"

section \<open>The automaton\<close>

lemma concat_blocks: "\<forall>r \<in> set rows. length r = k \<Longrightarrow> i < length rows \<Longrightarrow> c < k \<Longrightarrow> concat rows ! (i * k + c) = rows ! i ! c"
proof (induction rows arbitrary: i)
  case (Cons r rows)
  then show ?case by (cases i) (auto simp: nth_append)
qed simp

definition entry :: "nat \<Rightarrow> nat \<Rightarrow> nat" where
  "entry i c = utf8acceptnonsurrogates ! (i * 256 + c)"

lemma entry_states: "i < 9 \<Longrightarrow> c < 256 \<Longrightarrow> entry i c = utf8_states ! i ! c"
  unfolding entry_def utf8acceptnonsurrogates_def
  by (rule concat_blocks) (simp_all add: utf8_states_def Let_def)

lemma minus_less: "0 < b \<Longrightarrow> c - a < b \<longleftrightarrow> c < a + (b :: nat)"
  by arith

lemma nth_one: "[x] ! (c - a) = x" if "c < Suc a" for a c :: nat
proof -
  have "c - a = 0" using that by simp
  thus ?thesis by simp
qed

lemmas table_simps = entry_states utf8_states_def Let_def kExitIllegalStructure_def kExitReject_def nth_append minus_less nth_one

lemma entry_0: "c < 256 \<Longrightarrow> entry 0 c = (if c < 128 then 0 else if c < 194 then 240 else if c < 224 then 1 else if c < 225 then 2
    else if c < 237 then 3 else if c < 238 then 7 else if c < 240 then 3 else if c < 241 then 4 else if c < 244 then 5 else if c < 245 then 6 else 240)"
  by (simp add: table_simps)

lemma entry_1: "c < 256 \<Longrightarrow> entry 1 c = (if 128 \<le> c \<and> c < 192 then 0 else 240)"
  by (auto simp: table_simps)

lemma entry_2: "c < 256 \<Longrightarrow> entry 2 c = (if 160 \<le> c \<and> c < 192 then 1 else 240)"
  by (auto simp: table_simps)

lemma entry_3: "c < 256 \<Longrightarrow> entry 3 c = (if 128 \<le> c \<and> c < 192 then 1 else 240)"
  by (auto simp: table_simps)

lemma entry_4: "c < 256 \<Longrightarrow> entry 4 c = (if 144 \<le> c \<and> c < 192 then 3 else 240)"
  by (auto simp: table_simps)

lemma entry_5: "c < 256 \<Longrightarrow> entry 5 c = (if 128 \<le> c \<and> c < 192 then 3 else 240)"
  by (auto simp: table_simps)

lemma entry_6: "c < 256 \<Longrightarrow> entry 6 c = (if 128 \<le> c \<and> c < 144 then 3 else 240)"
  by (auto simp: table_simps)

lemma entry_7: "c < 256 \<Longrightarrow> entry 7 c = (if 128 \<le> c \<and> c < 160 then 1 else if 160 \<le> c \<and> c < 192 then 8 else 240)"
  by (auto simp: table_simps)

lemma entry_8: "c < 256 \<Longrightarrow> entry 8 c = (if 128 \<le> c \<and> c < 192 then 242 else 240)"
  by (auto simp: table_simps)

lemmas entry_simps = entry_0 entry_1 [unfolded One_nat_def] entry_2 entry_3 entry_4 entry_5 entry_6 entry_7 entry_8

text \<open>Acceptance: the bytes end in the first state, without an exit.\<close>

fun accepts :: "nat \<Rightarrow> tbyte list \<Rightarrow> bool" where
  "accepts i [] \<longleftrightarrow> i = 0"
| "accepts i (c # bs) \<longleftrightarrow> entry i (unat c) < 240 \<and> accepts (entry i (unat c)) bs"

lemma scan_accepts:
  assumes "e < 240" "scan_bytes i e bs = (e', i', n)"
  shows "(accepts i bs \<longleftrightarrow> e' < 240 \<and> i' = 0) \<and> n \<le> length bs \<and> (e' < 240 \<longrightarrow> n = length bs) \<and> (240 \<le> e' \<longrightarrow> 0 < n)"
  using assms
proof (induction bs arbitrary: i e e' i' n)
  case (Cons c bs)
  let ?e = "entry i (unat c)"
  obtain e2 i2 k where s: "scan_bytes ?e ?e bs = (e2, i2, k)" by (cases "scan_bytes ?e ?e bs") auto
  show ?case
  proof (cases "?e < 240")
    case True
    have "scan_bytes i e (c # bs) = (e2, i2, Suc k)"
      using True s by (simp add: Let_def kExitIllegalStructure_def entry_def not_le)
    then show ?thesis using Cons.IH [OF True s] Cons.prems(2) True by auto
  next
    case False
    then have "scan_bytes i e (c # bs) = (?e, i, 1)" by (simp add: Let_def kExitIllegalStructure_def entry_def)
    then show ?thesis using Cons.prems(2) False by auto
  qed
qed simp_all

declare accepts.simps(2) [simp del]

section \<open>Acceptance is the reference\<close>

lemma accepts_cont:
  "accepts 1 (c # bs) \<longleftrightarrow> 128 \<le> unat c \<and> unat c < 192 \<and> accepts 0 bs" "accepts 3 (c # bs) \<longleftrightarrow> 128 \<le> unat c \<and> unat c < 192 \<and> accepts 1 bs"
  "accepts 5 (c # bs) \<longleftrightarrow> 128 \<le> unat c \<and> unat c < 192 \<and> accepts 3 bs" "accepts 2 (c # bs) \<longleftrightarrow> 160 \<le> unat c \<and> unat c < 192 \<and> accepts 1 bs"
  "accepts 4 (c # bs) \<longleftrightarrow> 144 \<le> unat c \<and> unat c < 192 \<and> accepts 3 bs" "accepts 6 (c # bs) \<longleftrightarrow> 128 \<le> unat c \<and> unat c < 144 \<and> accepts 3 bs"
  "accepts 7 (c # bs) \<longleftrightarrow> 128 \<le> unat c \<and> unat c < 160 \<and> accepts 1 bs"
proof -
  have 8: "\<not> accepts 8 bs" for bs
    by (cases bs) (simp_all add: entry_8 accepts.simps(2) unat_byte_less [simplified])
  show "accepts 1 (c # bs) \<longleftrightarrow> 128 \<le> unat c \<and> unat c < 192 \<and> accepts 0 bs" "accepts 3 (c # bs) \<longleftrightarrow> 128 \<le> unat c \<and> unat c < 192 \<and> accepts 1 bs"
    "accepts 5 (c # bs) \<longleftrightarrow> 128 \<le> unat c \<and> unat c < 192 \<and> accepts 3 bs" "accepts 2 (c # bs) \<longleftrightarrow> 160 \<le> unat c \<and> unat c < 192 \<and> accepts 1 bs"
    "accepts 4 (c # bs) \<longleftrightarrow> 144 \<le> unat c \<and> unat c < 192 \<and> accepts 3 bs" "accepts 6 (c # bs) \<longleftrightarrow> 128 \<le> unat c \<and> unat c < 144 \<and> accepts 3 bs"
    "accepts 7 (c # bs) \<longleftrightarrow> 128 \<le> unat c \<and> unat c < 160 \<and> accepts 1 bs"
    using unat_byte_less [of c] by (auto simp: entry_simps accepts.simps(2) 8)
qed

lemma accepts_0:
  "accepts 0 (b # bs) \<longleftrightarrow> (if unat b < 128 then accepts 0 bs else if unat b < 194 then False else if unat b < 224 then accepts 1 bs
    else if unat b < 225 then accepts 2 bs else if unat b < 237 then accepts 3 bs else if unat b < 238 then accepts 7 bs
    else if unat b < 240 then accepts 3 bs else if unat b < 241 then accepts 4 bs else if unat b < 244 then accepts 5 bs
    else if unat b < 245 then accepts 6 bs else False)"
  using unat_byte_less [of b] by (simp add: entry_0 accepts.simps(2))

text \<open>A byte given as a number.\<close>

lemma accepts_0_nat: "n < 256 \<Longrightarrow> accepts 0 (word_of_nat n # bs) \<longleftrightarrow> (if n < 128 then accepts 0 bs else if n < 194 then False
    else if n < 224 then accepts 1 bs else if n < 225 then accepts 2 bs else if n < 237 then accepts 3 bs else if n < 238 then accepts 7 bs
    else if n < 240 then accepts 3 bs else if n < 241 then accepts 4 bs else if n < 244 then accepts 5 bs else if n < 245 then accepts 6 bs else False)"
  by (simp only: accepts_0 unat_byte_of_nat) simp

lemma byte_nat: "n < 256 \<Longrightarrow> unat (word_of_nat n :: tbyte) = n"
  by (simp only: unat_byte_of_nat) simp

lemma cont_byte: "n < 64 \<Longrightarrow> unat (word_of_nat (0x80 + n) :: tbyte) = 0x80 + n"
  by (rule byte_nat) simp

lemma accepts_char:
  assumes "scalar_value u"
  shows "accepts 0 (utf8_encode u @ bs) \<longleftrightarrow> accepts 0 bs"
proof -
  define p q r x y z where "p = u div 64" and "q = p div 64" and "r = q div 64" and "x = u mod 64" and "y = p mod 64" and "z = q mod 64"
  have u: "u = 64 * p + x" "p = 64 * q + y" "q = 64 * r + z" "x < 64" "y < 64" "z < 64"
    by (simp_all add: p_def q_def r_def x_def y_def z_def)
  have s: "u < 0xD800 \<or> (0xE000 \<le> u \<and> u < 0x110000)" using assms by (simp add: scalar_value_def)
  have enc: "utf8_encode u = map word_of_nat (if u < 0x80 then [u] else if u < 0x800 then [0xC0 + p, 0x80 + x]
      else if u < 0x10000 then [0xE0 + q, 0x80 + y, 0x80 + x] else [0xF0 + r, 0x80 + z, 0x80 + y, 0x80 + x])"
    by (simp only: utf8_encode_def p_def q_def r_def x_def y_def z_def)
  have cx: "accepts 1 (word_of_nat (0x80 + x) # bs) \<longleftrightarrow> accepts 0 bs" for bs
    unfolding accepts_cont cont_byte [OF u(4)] using u(4) by simp
  have cy: "accepts 3 (word_of_nat (0x80 + y) # bs) \<longleftrightarrow> accepts 1 bs" for bs
    unfolding accepts_cont cont_byte [OF u(5)] using u(5) by simp
  have cz: "accepts 5 (word_of_nat (0x80 + z) # bs) \<longleftrightarrow> accepts 3 bs" for bs
    unfolding accepts_cont cont_byte [OF u(6)] using u(6) by simp
  consider "u < 0x80" | "0x80 \<le> u" "u < 0x800" | "0x800 \<le> u" "u < 0x10000" | "0x10000 \<le> u" by linarith
  then show ?thesis
  proof cases
    case 1
    then show ?thesis by (simp add: enc accepts_0_nat)
  next
    case 2
    then have "2 \<le> p" "p < 32" using u by linarith+
    then have "accepts 0 (word_of_nat (0xC0 + p) # cs) \<longleftrightarrow> accepts 1 cs" for cs by (subst accepts_0_nat) auto
    then show ?thesis using 2 cx by (simp only: enc) simp
  next
    case 3
    have q: "q < 16" using 3 u by linarith
    have lead: "accepts 0 (word_of_nat (0xE0 + q) # ds) \<longleftrightarrow> (if q = 0 then accepts 2 ds else if q = 13 then accepts 7 ds else accepts 3 ds)" for ds
      using q by (subst accepts_0_nat) auto
    have "accepts 0 (word_of_nat (0xE0 + q) # word_of_nat (0x80 + y) # cs) \<longleftrightarrow> accepts 1 cs" for cs
    proof -
      consider "q = 0" "32 \<le> y" | "q = 13" "y < 32" | "q \<noteq> 0" "q \<noteq> 13" using 3 u s by linarith
      then show ?thesis
        unfolding lead using cont_byte [OF u(5)] cy u(5) by cases (simp_all add: accepts_cont del: of_nat_add)
    qed
    then show ?thesis using 3 cx by (simp only: enc) simp
  next
    case 4
    have r: "r < 5" using u s by linarith
    have lead: "accepts 0 (word_of_nat (0xF0 + r) # ds) \<longleftrightarrow> (if r = 0 then accepts 4 ds else if r = 4 then accepts 6 ds else accepts 5 ds)" for ds
      using r by (subst accepts_0_nat) auto
    have "accepts 0 (word_of_nat (0xF0 + r) # word_of_nat (0x80 + z) # cs) \<longleftrightarrow> accepts 3 cs" for cs
    proof -
      consider "r = 0" "16 \<le> z" | "r = 4" "z < 16" | "r \<noteq> 0" "r \<noteq> 4" using 4 u s by linarith
      then show ?thesis
        unfolding lead using cont_byte [OF u(6)] cz u(6) by cases (simp_all add: accepts_cont del: of_nat_add)
    qed
    then show ?thesis using 4 cx cy by (simp only: enc) simp
  qed
qed

text \<open>The other way round: what is accepted begins with a character.\<close>

lemma encode_digits:
  assumes "x < 64" "y < 64" "z < 64"
  shows "2 \<le> p \<Longrightarrow> p < 32 \<Longrightarrow> utf8_encode (64 * p + x) = [word_of_nat (0xC0 + p), word_of_nat (0x80 + x)]"
    "q < 16 \<Longrightarrow> 32 \<le> 64 * q + y \<Longrightarrow> utf8_encode (64 * (64 * q + y) + x) = [word_of_nat (0xE0 + q), word_of_nat (0x80 + y), word_of_nat (0x80 + x)]"
    "16 \<le> 64 * r + z \<Longrightarrow> utf8_encode (64 * (64 * (64 * r + z) + y) + x)
      = [word_of_nat (0xF0 + r), word_of_nat (0x80 + z), word_of_nat (0x80 + y), word_of_nat (0x80 + x)]"
proof -
  have d: "(64 * p + x) div 64 = p" "(64 * p + x) mod 64 = x" if "x < 64" for p x :: nat using that by simp_all
  show "2 \<le> p \<Longrightarrow> p < 32 \<Longrightarrow> utf8_encode (64 * p + x) = [word_of_nat (0xC0 + p), word_of_nat (0x80 + x)]"
    unfolding utf8_encode_def d [OF assms(1)] using assms(1) by simp
  show "q < 16 \<Longrightarrow> 32 \<le> 64 * q + y \<Longrightarrow> utf8_encode (64 * (64 * q + y) + x) = [word_of_nat (0xE0 + q), word_of_nat (0x80 + y), word_of_nat (0x80 + x)]"
    unfolding utf8_encode_def d [OF assms(1)] d [OF assms(2)] using assms by simp
  show "16 \<le> 64 * r + z \<Longrightarrow> utf8_encode (64 * (64 * (64 * r + z) + y) + x)
      = [word_of_nat (0xF0 + r), word_of_nat (0x80 + z), word_of_nat (0x80 + y), word_of_nat (0x80 + x)]"
    unfolding utf8_encode_def d [OF assms(1)] d [OF assms(2)] d [OF assms(3)] using assms by simp
qed

lemma accepts_tail:
  "accepts 1 cs \<Longrightarrow> \<exists>x rest. x < 64 \<and> cs = word_of_nat (0x80 + x) # rest \<and> accepts 0 rest"
  "accepts 2 cs \<Longrightarrow> \<exists>y rest. 32 \<le> y \<and> y < 64 \<and> cs = word_of_nat (0x80 + y) # rest \<and> accepts 1 rest"
  "accepts 3 cs \<Longrightarrow> \<exists>y rest. y < 64 \<and> cs = word_of_nat (0x80 + y) # rest \<and> accepts 1 rest"
  "accepts 4 cs \<Longrightarrow> \<exists>z rest. 16 \<le> z \<and> z < 64 \<and> cs = word_of_nat (0x80 + z) # rest \<and> accepts 3 rest"
  "accepts 5 cs \<Longrightarrow> \<exists>z rest. z < 64 \<and> cs = word_of_nat (0x80 + z) # rest \<and> accepts 3 rest"
  "accepts 6 cs \<Longrightarrow> \<exists>z rest. z < 16 \<and> cs = word_of_nat (0x80 + z) # rest \<and> accepts 3 rest"
  "accepts 7 cs \<Longrightarrow> \<exists>y rest. y < 32 \<and> cs = word_of_nat (0x80 + y) # rest \<and> accepts 1 rest"
proof -
  have b: "(word_of_nat (0x80 + (unat c - 128)) :: tbyte) = c" if "128 \<le> unat c" for c
    using that by (simp only: le_add_diff_inverse of_nat_unat ucast_id)
  have *: "\<exists>n rest. lo \<le> n \<and> n < hi \<and> cs = word_of_nat (0x80 + n) # rest \<and> accepts j rest"
    if a: "accepts i cs" "i \<noteq> 0" and c: "\<And>c bs. accepts i (c # bs) \<Longrightarrow> 128 + lo \<le> unat c \<and> unat c < 128 + hi \<and> accepts j bs" for i lo hi j
  proof -
    obtain c bs where cs: "cs = c # bs" using a by (cases cs) auto
    from c [OF a(1) [unfolded cs]] show ?thesis
      using b [of c] unfolding cs by (intro exI [of _ "unat c - 128"] exI [of _ bs]) auto
  qed
  show "accepts 1 cs \<Longrightarrow> \<exists>x rest. x < 64 \<and> cs = word_of_nat (0x80 + x) # rest \<and> accepts 0 rest"
    using * [of 1 0 64 0] accepts_cont(1) by simp
  show "accepts 2 cs \<Longrightarrow> \<exists>y rest. 32 \<le> y \<and> y < 64 \<and> cs = word_of_nat (0x80 + y) # rest \<and> accepts 1 rest"
    using * [of 2 32 64 1] accepts_cont(4) by simp
  show "accepts 3 cs \<Longrightarrow> \<exists>y rest. y < 64 \<and> cs = word_of_nat (0x80 + y) # rest \<and> accepts 1 rest"
    using * [of 3 0 64 1] accepts_cont(2) by simp
  show "accepts 4 cs \<Longrightarrow> \<exists>z rest. 16 \<le> z \<and> z < 64 \<and> cs = word_of_nat (0x80 + z) # rest \<and> accepts 3 rest"
    using * [of 4 16 64 3] accepts_cont(5) by simp
  show "accepts 5 cs \<Longrightarrow> \<exists>z rest. z < 64 \<and> cs = word_of_nat (0x80 + z) # rest \<and> accepts 3 rest"
    using * [of 5 0 64 3] accepts_cont(3) by simp
  show "accepts 6 cs \<Longrightarrow> \<exists>z rest. z < 16 \<and> cs = word_of_nat (0x80 + z) # rest \<and> accepts 3 rest"
    using * [of 6 0 16 3] accepts_cont(6) by simp
  show "accepts 7 cs \<Longrightarrow> \<exists>y rest. y < 32 \<and> cs = word_of_nat (0x80 + y) # rest \<and> accepts 1 rest"
    using * [of 7 0 32 1] accepts_cont(7) by simp
qed

lemma accepts_first:
  assumes "accepts 0 (b # bs)"
  shows "\<exists>u rest. scalar_value u \<and> b # bs = utf8_encode u @ rest \<and> accepts 0 rest"
proof -
  have b: "(word_of_nat (k + (unat b - k)) :: tbyte) = b" if "k \<le> unat b" for k
    using that by (simp only: le_add_diff_inverse of_nat_unat ucast_id)
  have done3: "\<exists>u rest. scalar_value u \<and> b # bs = utf8_encode u @ rest \<and> accepts 0 rest"
    if q: "224 \<le> unat b" "unat b < 240" and y: "y < 64" "bs = word_of_nat (0x80 + y) # cs" "accepts 1 cs"
      and ok: "32 \<le> 64 * (unat b - 224) + y" "unat b = 237 \<longrightarrow> y < 32" for y cs
  proof -
    define q where "q = unat b - 224"
    obtain x rest where x: "x < 64" "cs = word_of_nat (0x80 + x) # rest" "accepts 0 rest" using accepts_tail(1) [OF y(3)] by blast
    have q': "q < 16" "32 \<le> 64 * q + y" "b = word_of_nat (0xE0 + q)" "q = 13 \<longrightarrow> y < 32" using q ok b [OF q(1)] by (auto simp: q_def)
    have "q \<le> 12 \<or> q = 13 \<or> 14 \<le> q" by linarith
    then have "scalar_value (64 * (64 * q + y) + x)" using q' x(1) y(1) by (auto simp: scalar_value_def)
    then show ?thesis
      using encode_digits(2) [OF x(1) y(1) y(1) q'(1,2)] q'(3) x(2,3) y(2) by (intro exI [of _ "64 * (64 * q + y) + x"] exI [of _ rest]) simp
  qed
  have done4: "\<exists>u rest. scalar_value u \<and> b # bs = utf8_encode u @ rest \<and> accepts 0 rest"
    if r: "240 \<le> unat b" "unat b < 245" and z: "z < 64" "bs = word_of_nat (0x80 + z) # cs" "accepts 3 cs"
      and ok: "16 \<le> 64 * (unat b - 240) + z" "unat b = 244 \<longrightarrow> z < 16" for z cs
  proof -
    define r where "r = unat b - 240"
    obtain y ds where y: "y < 64" "cs = word_of_nat (0x80 + y) # ds" "accepts 1 ds" using accepts_tail(3) [OF z(3)] by blast
    obtain x rest where x: "x < 64" "ds = word_of_nat (0x80 + x) # rest" "accepts 0 rest" using accepts_tail(1) [OF y(3)] by blast
    have r': "16 \<le> 64 * r + z" "b = word_of_nat (0xF0 + r)" "r < 5" "r = 4 \<longrightarrow> z < 16" using r ok b [OF r(1)] by (auto simp: r_def)
    have "r \<le> 3 \<or> r = 4" using r' by linarith
    then have "scalar_value (64 * (64 * (64 * r + z) + y) + x)" using r' x(1) y(1) z(1) by (auto simp: scalar_value_def)
    then show ?thesis
      using encode_digits(3) [OF x(1) y(1) z(1) r'(1)] r'(2) x(2,3) y(2) z(2)
      by (intro exI [of _ "64 * (64 * (64 * r + z) + y) + x"] exI [of _ rest]) simp
  qed
  have a: "if unat b < 128 then accepts 0 bs else if unat b < 194 then False else if unat b < 224 then accepts 1 bs
    else if unat b < 225 then accepts 2 bs else if unat b < 237 then accepts 3 bs else if unat b < 238 then accepts 7 bs
    else if unat b < 240 then accepts 3 bs else if unat b < 241 then accepts 4 bs else if unat b < 244 then accepts 5 bs
    else if unat b < 245 then accepts 6 bs else False"
    using assms unfolding accepts_0 .
  consider (1) "unat b < 128" "accepts 0 bs" | (2) "194 \<le> unat b" "unat b < 224" "accepts 1 bs"
    | (E0) "unat b = 224" "accepts 2 bs" | (E) "225 \<le> unat b" "unat b < 240" "unat b \<noteq> 237" "accepts 3 bs" | (ED) "unat b = 237" "accepts 7 bs"
    | (F0) "unat b = 240" "accepts 4 bs" | (F) "241 \<le> unat b" "unat b < 244" "accepts 5 bs" | (F4) "unat b = 244" "accepts 6 bs"
    using a by (simp split: if_splits)
  then show ?thesis
  proof cases
    case 1
    then show ?thesis by (intro exI [of _ "unat b"] exI [of _ bs]) (simp add: scalar_value_def utf8_encode_def)
  next
    case 2
    define p where "p = unat b - 192"
    obtain x rest where x: "x < 64" "bs = word_of_nat (0x80 + x) # rest" "accepts 0 rest" using accepts_tail(1) [OF 2(3)] by blast
    have p: "2 \<le> p" "p < 32" "b = word_of_nat (0xC0 + p)" using 2 b [of 192] by (simp_all add: p_def)
    then have "scalar_value (64 * p + x)" using x(1) by (simp add: scalar_value_def)
    then show ?thesis
      using encode_digits(1) [OF x(1) x(1) x(1) p(1,2)] p(3) x(2,3) by (intro exI [of _ "64 * p + x"] exI [of _ rest]) simp
  next
    case E0
    then show ?thesis using accepts_tail(2) [OF E0(2)] done3 by auto
  next
    case E
    then show ?thesis using accepts_tail(3) [OF E(4)] done3 by auto
  next
    case ED
    then show ?thesis using accepts_tail(7) [OF ED(2)] done3 by auto
  next
    case F0
    then show ?thesis using accepts_tail(4) [OF F0(2)] done4 by auto
  next
    case F
    then show ?thesis using accepts_tail(5) [OF F(3)] done4 by auto
  next
    case F4
    then show ?thesis using accepts_tail(6) [OF F4(2)] done4 by auto
  qed
qed

lemma accepts_text: "accepts 0 bs \<longleftrightarrow> utf8_text bs"
proof
  show "accepts 0 bs \<Longrightarrow> utf8_text bs"
  proof (induction "length bs" arbitrary: bs rule: less_induct)
    case less
    show ?case
    proof (cases bs)
      case Nil
      then show ?thesis unfolding utf8_text_def by (intro exI [of _ "[]"]) simp
    next
      case (Cons b cs)
      obtain u rest where u: "scalar_value u" "bs = utf8_encode u @ rest" "accepts 0 rest"
        using accepts_first [OF less(2) [unfolded Cons]] Cons by blast
      have "length rest < length bs" unfolding u(2) by (simp add: utf8_encode_def)
      from less(1) [OF this u(3)] obtain us where "list_all scalar_value us" "rest = concat (map utf8_encode us)"
        by (auto simp: utf8_text_def)
      then show ?thesis using u unfolding utf8_text_def by (intro exI [of _ "u # us"]) simp
    qed
  qed
  have "accepts 0 (concat (map utf8_encode us))" if "list_all scalar_value us" for us
    using that by (induction us) (simp_all add: accepts_char)
  then show "utf8_text bs \<Longrightarrow> accepts 0 bs" by (auto simp: utf8_text_def)
qed

section \<open>The loops over ASCII\<close>

abbreviation ascii :: "tbyte list \<Rightarrow> bool" where
  "ascii bs \<equiv> list_all (\<lambda>b. unat b < 128) bs"

lemma accepts_ascii: "ascii xs \<Longrightarrow> accepts 0 (xs @ bs) \<longleftrightarrow> accepts 0 bs"
  by (induction xs) (simp_all add: accepts_0)

lemma accepts_drop: "ascii (take m bs) \<Longrightarrow> accepts 0 (drop m bs) \<longleftrightarrow> accepts 0 bs"
  using accepts_ascii [of "take m bs" "drop m bs"] by simp

lemma fast_entry: "utf8acceptnonsurrogates_fast ! unat (b :: tbyte) = 0 \<longleftrightarrow> unat b < 128"
  using unat_byte_less [of b] by (simp add: utf8acceptnonsurrogates_fast_def nth_append minus_less)

lemma fast_prefix_ascii: "fast_prefix addr bs \<le> length bs \<and> ascii (take (fast_prefix addr bs) bs)"
  by (induction addr bs rule: fast_prefix.induct) (simp_all add: fast_entry)

lemma ascii_prefix_ascii: "ascii_prefix addr bs \<le> length bs \<and> ascii (take (ascii_prefix addr bs) bs)"
  by (induction addr bs rule: ascii_prefix.induct) simp_all

lemma bit_le_val: "i < length bs \<Longrightarrow> j < 8 \<Longrightarrow> bit (le_val bs) (8 * i + j) \<longleftrightarrow> bit (bs ! i) j"
proof (induction bs arbitrary: i)
  case (Cons b bs)
  have "unat b AND push_bit 8 (le_val bs) = 0"
  proof -
    have "take_bit 8 (unat b) = unat b" using unat_byte_less [of b] by (simp add: take_bit_nat_eq_self)
    moreover have "take_bit 8 (unat b) AND push_bit 8 (le_val bs) = 0" by (rule bit_eqI) (simp add: bit_simps)
    ultimately show ?thesis by simp
  qed
  then have "le_val (b # bs) = unat b OR push_bit 8 (le_val bs)"
    using disjunctive_add_eq_or by (fastforce simp: push_bit_nat_def)
  moreover have "\<not> bit b n" if "8 \<le> n" for n using bit_imp_le_length [of b n] that by auto
  ultimately show ?case using Cons by (cases i) (auto simp: bit_simps)
qed simp

lemma word_ascii:
  assumes "word32_at bs i AND 0x80808080 = 0" "i + 4 \<le> length bs" "j < 4"
  shows "unat (bs ! (i + j)) < 128"
proof -
  have m: "bit (0x80808080 :: tuint32) (8 * j + 7)"
  proof -
    have "list_all (\<lambda>j. bit (0x80808080 :: tuint32) (8 * j + 7)) [0, 1, 2, 3]" by code_simp
    moreover have "j \<in> set [0, 1, 2, 3]" using assms(3) by auto
    ultimately show ?thesis by (auto simp: list_all_iff)
  qed
  have "\<not> bit (word32_at bs i AND 0x80808080) (8 * j + 7)" unfolding assms(1) by simp
  then have "\<not> bit (word32_at bs i) (8 * j + 7)" using m by (simp add: bit_simps)
  then have "\<not> bit (le_val (take 4 (drop i bs))) (8 * j + 7)" using assms(3) by (simp add: word32_at_def bit_simps)
  then have "\<not> bit (take 4 (drop i bs) ! j) 7" using bit_le_val [of j "take 4 (drop i bs)" 7] assms(2,3) by simp
  then show ?thesis using assms(2,3) by (simp add: bit7)
qed

lemma ascii_take:
  assumes "\<And>j. j < k \<Longrightarrow> unat (bs ! j) < 128" "k \<le> length bs"
  shows "ascii (take k bs)"
  using assms by (simp add: list_all_length)

lemma ascii_take_add: "ascii (take k bs) \<Longrightarrow> ascii (take m (drop k bs)) \<Longrightarrow> ascii (take (k + m) bs)"
  by (simp add: take_add)

lemma eight_ascii:
  assumes "(word32_at bs 0 OR word32_at bs 4) AND 0x80808080 = 0" "8 \<le> length bs"
  shows "ascii (take 8 bs)"
proof (rule ascii_take [OF _ assms(2)])
  fix j :: nat assume "j < 8"
  have "word32_at bs 0 AND 0x80808080 = 0" "word32_at bs 4 AND 0x80808080 = 0"
    using assms(1) by (simp_all add: bit.conj_disj_distrib2 or_eq_0_iff)
  then show "unat (bs ! j) < 128"
    using word_ascii [of bs 0 j] word_ascii [of bs 4 "j - 4"] \<open>j < 8\<close> assms(2) by (cases "j < 4") auto
qed

lemma fast_groups_ascii: "fast_groups bs \<le> length bs \<and> ascii (take (fast_groups bs) bs)"
proof (induction bs rule: fast_groups.induct)
  case (1 bs)
  show ?case
  proof (cases "length bs < 8")
    case True
    then show ?thesis by (subst (1 2) fast_groups.simps) simp
  next
    case False
    let ?a = "word32_at bs 0" and ?b = "word32_at bs 4"
    define temp where "temp = (?a - utf8acceptnonsurrogates_LOSUB) OR (?a + utf8acceptnonsurrogates_HIADD)
      OR (?b - utf8acceptnonsurrogates_LOSUB) OR (?b + utf8acceptnonsurrogates_HIADD)"
    define low high where "low = (\<exists>i \<in> set [0, 1, 2, 3]. utf8acceptnonsurrogates_fast ! unat (bs ! i) \<noteq> 0)"
      and "high = (\<exists>i \<in> set [4, 5, 6, 7]. utf8acceptnonsurrogates_fast ! unat (bs ! i) \<noteq> 0)"
    have groups: "fast_groups bs = (if temp AND 0x80808080 \<noteq> 0 then if low then 0 else if high then 4 else 8 + fast_groups (drop 8 bs)
        else 8 + fast_groups (drop 8 bs))"
      unfolding temp_def low_def high_def using False by (subst fast_groups.simps) (simp only: Let_def if_False)
    have IH: "fast_groups (drop 8 bs) \<le> length (drop 8 bs) \<and> ascii (take (fast_groups (drop 8 bs)) (drop 8 bs))"
      if "temp AND 0x80808080 = 0 \<or> (\<not> low \<and> \<not> high)"
      using that 1 False unfolding temp_def low_def high_def by blast
    have low: "unat (bs ! j) < 128" if "\<not> low" "j < 4" for j
    proof -
      have "j = 0 \<or> j = 1 \<or> j = 2 \<or> j = 3" using that(2) by linarith
      then show ?thesis using that(1) by (auto simp: low_def fast_entry)
    qed
    have high: "unat (bs ! j) < 128" if "\<not> high" "4 \<le> j" "j < 8" for j
    proof -
      have "j = 4 \<or> j = 5 \<or> j = 6 \<or> j = 7" using that(2,3) by linarith
      then show ?thesis using that(1) by (auto simp: high_def fast_entry)
    qed
    have four: "ascii (take 4 bs)" if "\<not> low"
      using low [OF that] False by (intro ascii_take) auto
    have eight: "ascii (take 8 bs)" if "temp AND 0x80808080 = 0 \<or> (\<not> low \<and> \<not> high)"
      using that
    proof
      assume "temp AND 0x80808080 = 0"
      then have "(?a OR ?b) AND 0x80808080 = 0"
        by (simp add: temp_def utf8acceptnonsurrogates_HIADD_def bit.conj_disj_distrib2 or_eq_0_iff)
      then show ?thesis using eight_ascii False by simp
    next
      assume "\<not> low \<and> \<not> high"
      then show ?thesis
        using low high False by (intro ascii_take) (meson not_le, simp)
    qed
    show ?thesis
      unfolding groups using False IH four eight ascii_take_add [of 8 bs "fast_groups (drop 8 bs)"] by auto
  qed
qed

lemma ascii_groups_ascii: "ascii_groups bs \<le> length bs \<and> ascii (take (ascii_groups bs) bs)"
proof (induction bs rule: ascii_groups.induct)
  case (1 bs)
  show ?case
  proof (cases "8 \<le> length bs \<and> (word32_at bs 0 OR word32_at bs 4) AND 0x80808080 = 0")
    case True
    then have "ascii_groups bs = 8 + ascii_groups (drop 8 bs)" by (subst ascii_groups.simps) simp
    then show ?thesis
      using 1 True eight_ascii [of bs] ascii_take_add [of 8 bs "ascii_groups (drop 8 bs)"] by auto
  next
    case False
    then have "ascii_groups bs = 0" by (subst ascii_groups.simps) simp
    then show ?thesis by simp
  qed
qed

section \<open>The check\<close>

lemma back_up_le: "back_up bs n \<le> n - 1"
proof (induction n)
  case (Suc n)
  then have "back_up bs n \<le> n" by simp
  then show ?case by simp
qed simp

lemma UTF8GenericScan_whole: "snd (UTF8GenericScan addr bs) = length bs \<longleftrightarrow> accepts 0 bs"
proof (cases "bs = []")
  case False
  define n where "n = fast_prefix addr bs"
  define m where "m = n + (if (addr + n) mod 8 = 0 then fast_groups (drop n bs) else 0)"
  have n: "n \<le> length bs" "ascii (take n bs)" using fast_prefix_ascii by (simp_all add: n_def)
  have m: "m \<le> length bs" "ascii (take m bs)"
    using n fast_groups_ascii [of "drop n bs"] ascii_take_add [of n bs "fast_groups (drop n bs)"] by (auto simp: m_def)
  obtain e i k where s: "scan_bytes 0 0 (drop m bs) = (e, i, k)" by (cases "scan_bytes 0 0 (drop m bs)") auto
  note acc = scan_accepts [OF _ s, simplified]
  have eq: "UTF8GenericScan addr bs = (if kExitIllegalStructure \<le> e then (e, if i = 0 then m + k - 1 else back_up bs (m + k - 1))
      else if i \<noteq> 0 then (kExitIllegalStructure, back_up bs (m + k)) else (kExitOK, m + k))"
    using False unfolding UTF8GenericScan_def Let_def n_def [symmetric] m_def [symmetric] s by simp
  have A: "accepts 0 bs \<longleftrightarrow> e < 240 \<and> i = 0" using acc accepts_drop [OF m(2)] by simp
  show ?thesis
  proof (cases "240 \<le> e")
    case True
    then have k: "0 < k" "m + k \<le> length bs" using acc m(1) by auto
    show ?thesis using True k A back_up_le [of bs "m + k - 1"] by (auto simp: eq kExitIllegalStructure_def)
  next
    case lt: False
    then have k: "m + k = length bs" using acc m(1) by auto
    moreover have "back_up bs (length bs) < length bs"
      using back_up_le [of bs "length bs"] False by (cases bs) auto
    ultimately show ?thesis using lt A by (auto simp: eq kExitIllegalStructure_def)
  qed
qed (simp add: UTF8GenericScan_def)

lemma ascii_takeWhile: "ascii (takeWhile (\<lambda>b. unat b < 128) bs)"
  by (induction bs) simp_all

text \<open>The address does not matter.\<close>

lemma IsStructurallyValidUTF8_text: "IsStructurallyValidUTF8 addr bs \<longleftrightarrow> utf8_text bs"
proof (cases "bs = []")
  case True
  then show ?thesis using accepts_text [of "[]"] by (simp add: IsStructurallyValidUTF8_def UTF8GenericScanFastAscii_def)
next
  case False
  define n where "n = ascii_prefix addr bs"
  define m where "m = n + (if (addr + n) mod 8 = 0 then ascii_groups (drop n bs) else 0)"
  define src where "src = m + length (takeWhile (\<lambda>b. unat b < 0x80) (drop m bs))"
  have n: "n \<le> length bs" "ascii (take n bs)" using ascii_prefix_ascii by (simp_all add: n_def)
  have m: "m \<le> length bs" "ascii (take m bs)"
    using n ascii_groups_ascii [of "drop n bs"] ascii_take_add [of n bs "ascii_groups (drop n bs)"] by (auto simp: m_def)
  have "take (length (takeWhile (\<lambda>b. unat b < 0x80) (drop m bs))) (drop m bs) = takeWhile (\<lambda>b. unat b < 0x80) (drop m bs)"
    by (metis takeWhile_eq_take)
  then have src: "src \<le> length bs" "ascii (take src bs)"
    using m ascii_take_add [of m bs] ascii_takeWhile [of "drop m bs"] length_takeWhile_le [of "\<lambda>b. unat b < 0x80" "drop m bs"]
    by (auto simp: src_def)
  obtain e k where s: "UTF8GenericScan (addr + src) (drop src bs) = (e, k)" by fastforce
  have "IsStructurallyValidUTF8 addr bs \<longleftrightarrow> src + k = length bs"
    using False unfolding IsStructurallyValidUTF8_def UTF8GenericScanFastAscii_def Let_def
      n_def [symmetric] m_def [symmetric] src_def [symmetric] s by simp
  also have "\<dots> \<longleftrightarrow> k = length (drop src bs)" using src(1) by auto
  also have "\<dots> \<longleftrightarrow> accepts 0 (drop src bs)" using UTF8GenericScan_whole [of "addr + src" "drop src bs"] by (simp add: s)
  also have "\<dots> \<longleftrightarrow> utf8_text bs" using accepts_drop [OF src(2)] accepts_text by simp
  finally show ?thesis .
qed

end
