(* ===== verification/WireFields.thy ===== *)
theory WireFields
  imports WireMessages Utf8
begin

text \<open>
  The fields of the generated classes: the test of the tag in their \<open>switch\<close>, the check of a text, and for
  a number and a text the piece that is written and the case that reads it back.
\<close>

section \<open>Tags and texts\<close>

text \<open>The case \<open>n\<close> of the \<open>switch\<close> and the comparison of the tag's low byte in it.\<close>

definition tag_case :: "nat \<Rightarrow> tbyte \<Rightarrow> tuint32 \<Rightarrow> bool" where
  "tag_case n low tag \<longleftrightarrow> GetTagFieldNumber tag = n \<and> ucast tag = low"

text \<open>The bytes of a \<open>std::string\<close> begin at a multiple of 8.\<close>

definition VerifyUtf8String :: "tbyte list \<Rightarrow> bool" where
  "VerifyUtf8String data = IsStructurallyValidUTF8 0 data"

text \<open>The texts that are read back: valid, and of a length that is an \<open>int\<close>.\<close>

definition text_field :: "tbyte list \<Rightarrow> bool" where
  "text_field v \<longleftrightarrow> utf8_text v \<and> length v < 2 ^ 31"

lemma ascii_text_field: "list_all (\<lambda>b. unat b < 128) v \<Longrightarrow> length v < 2 ^ 31 \<Longrightarrow> text_field v"
proof -
  assume a: "list_all (\<lambda>b. unat b < 128) v" and l: "length v < 2 ^ 31"
  have "list_all scalar_value (map unat v)" using a by (auto simp: list_all_iff scalar_value_def)
  moreover have "v = concat (map utf8_encode (map unat v))" using a by (induction v) (simp_all add: utf8_encode_def)
  ultimately show ?thesis using l unfolding text_field_def utf8_text_def by blast
qed

lemma two_byte_text_field: "text_field [0xC3, 0xA9]"
  unfolding text_field_def utf8_text_def
  by (intro conjI exI [of _ "[233]"]) (simp_all add: utf8_encode_def scalar_value_def)

section \<open>Cases stay inside\<close>

definition case_inside :: "coded_input \<Rightarrow> (bool \<times> 'd \<times> coded_input) option option \<Rightarrow> bool" where
  "case_inside s r \<longleftrightarrow> (case r of None \<Rightarrow> True | Some None \<Rightarrow> False | Some (Some (ok, d1, s1)) \<Rightarrow> inside s s1)"

lemma case_inside_None [simp]: "case_inside s None" by (simp add: case_inside_def)

lemma case_inside_if [simp]: "case_inside s (if c then x else y) \<longleftrightarrow> (c \<longrightarrow> case_inside s x) \<and> (\<not> c \<longrightarrow> case_inside s y)"
  by simp

lemma switch_insideI:
  assumes "\<And>d s. switch 0 d s = None" "\<And>tag d s. case_inside s (switch tag d s)"
  shows "switch_inside switch"
  using assms by (simp add: switch_inside_def case_inside_def)

lemma uint32_case_inside [simp]: "case_inside s (Some (uint32_case put d s))"
  using ReadUInt32_inside [of s] by (auto simp: case_inside_def uint32_case_def split: option.splits)

lemma InternalReadStringInline_inside: "inside s (snd (snd (InternalReadStringInline old n s)))"
  by (simp add: InternalReadStringInline_def inside_def)

lemma ReadString_inside: "\<exists>ok v s1. ReadString old s = Some (ok, v, s1) \<and> inside s s1"
proof -
  obtain p s1 where u: "ReadUInt32 s = Some (p, s1)" "inside s s1" using ReadUInt32_inside by blast
  show ?thesis
  proof (cases p)
    case (Some n)
    then show ?thesis
      using u inside_trans [OF u(2) InternalReadStringInline_inside [of s1 old n]]
      by (cases "InternalReadStringInline old n s1") (simp add: ReadString_def)
  qed (use u in \<open>auto simp: ReadString_def\<close>)
qed

lemma string_case_inside [simp]: "case_inside s (Some (string_case verify put old s))"
  using ReadString_inside [of old s] by (auto simp: case_inside_def string_case_def)

section \<open>Pieces\<close>

definition uint32_piece :: "nat \<Rightarrow> tuint32 \<Rightarrow> (tuint32 \<Rightarrow> 'd \<Rightarrow> 'd) \<Rightarrow> 'd piece" where
  "uint32_piece field v put = (if v \<noteq> 0 then WriteUInt32ToArray field v else [], put v)"

definition int32_piece :: "nat \<Rightarrow> tint32 \<Rightarrow> (tint32 \<Rightarrow> 'd \<Rightarrow> 'd) \<Rightarrow> 'd piece" where
  "int32_piece field v put = (if v \<noteq> 0 then WriteInt32ToArray field v else [], put v)"

definition string_piece :: "nat \<Rightarrow> tbyte list \<Rightarrow> (tbyte list \<Rightarrow> 'd \<Rightarrow> 'd) \<Rightarrow> 'd piece" where
  "string_piece field v put = (if v \<noteq> [] then WriteStringToArray field v else [], put v)"

text \<open>A field's tag and its bytes: the tag is one the fast test of \<open>ReadTagWithCutoffNoLastTag\<close> takes.\<close>

definition tag_ok :: "tuint32 \<Rightarrow> tuint32 \<Rightarrow> bool" where
  "tag_ok cutoff tag \<longleftrightarrow> 0 < unat tag \<and> unat tag < 2 ^ 14 \<and> (cutoff = 0x7F \<or> cutoff = 0x3FFF) \<and> tag \<le> cutoff"

lemma read_tag:
  assumes "tag_ok cutoff (MakeTag field type)" "ci_buffer s = WriteTagToArray field type @ rest"
  shows "ReadTagWithCutoffNoLastTag cutoff s = Some ((MakeTag field type, True), s\<lparr>ci_buffer := rest\<rparr>)"
  using ReadTagWithCutoff_written assms by (simp add: tag_ok_def WriteTagToArray_def)

text \<open>Tags of fields below 2048.\<close>

lemma MakeTag_varint: "MakeTag f WIRETYPE_VARINT = word_of_nat (8 * f)"
  by (simp add: MakeTag_def WIRETYPE_VARINT_def push_bit_eq_mult)

lemma MakeTag_text: "MakeTag f WIRETYPE_LENGTH_DELIMITED = word_of_nat (8 * f + 2)"
  using or_disjoint [where 'a = 32, of 2 3 "word_of_nat f"]
  by (simp add: MakeTag_def WIRETYPE_LENGTH_DELIMITED_def push_bit_eq_mult or.commute add.commute)

lemma unat_tag: "k < 8 \<Longrightarrow> f < 2048 \<Longrightarrow> unat (word_of_nat (8 * f + k) :: tuint32) = 8 * f + k"
  by (rule unat_of_nat_small) simp

lemma tag_fields:
  assumes "f < 2048" "k < 8"
  shows "GetTagFieldNumber (word_of_nat (8 * f + k)) = f"
    "(ucast (word_of_nat (8 * f + k) :: tuint32) :: tbyte) = word_of_nat (8 * f + k)"
    "0 < f \<Longrightarrow> tag_ok 0x3FFF (word_of_nat (8 * f + k))"
    "0 < f \<Longrightarrow> f < 16 \<Longrightarrow> tag_ok 0x7F (word_of_nat (8 * f + k))"
    "length (WriteVarintToArray (word_of_nat (8 * f + k) :: tuint32)) = (if f < 16 then 1 else 2)"
proof -
  note u = unat_tag [OF assms(2,1)]
  show "GetTagFieldNumber (word_of_nat (8 * f + k)) = f"
    using assms(2) by (simp only: GetTagFieldNumber_def unat_drop_bit_eq u) (simp add: drop_bit_eq_div)
  show "(ucast (word_of_nat (8 * f + k) :: tuint32) :: tbyte) = word_of_nat (8 * f + k)"
    by (rule word_unat_eq_iff [THEN iffD2]) (simp add: unsigned_ucast_eq unsigned_of_nat take_bit_take_bit del: of_nat_add of_nat_mult)
  show "0 < f \<Longrightarrow> tag_ok 0x3FFF (word_of_nat (8 * f + k))"
    using assms by (simp only: tag_ok_def word_le_nat_alt u) simp
  show "0 < f \<Longrightarrow> f < 16 \<Longrightarrow> tag_ok 0x7F (word_of_nat (8 * f + k))"
    using assms by (simp only: tag_ok_def word_le_nat_alt u) simp
  show "length (WriteVarintToArray (word_of_nat (8 * f + k) :: tuint32)) = (if f < 16 then 1 else 2)"
  proof (cases "f < 16")
    case True
    then have "length (varint_bytes (8 * f + k)) = Suc 0" using assms by (intro length_varint_bytes) simp_all
    then show ?thesis using True unfolding WriteVarint_bytes u by simp
  next
    case False
    then have "length (varint_bytes (8 * f + k)) = Suc 1" using assms by (intro length_varint_bytes) simp_all
    then show ?thesis using False unfolding WriteVarint_bytes u by simp
  qed
qed

lemma tag_case_field:
  assumes "f < 2048"
  shows "tag_case n low (MakeTag f WIRETYPE_VARINT) \<longleftrightarrow> n = f \<and> low = word_of_nat (8 * f)"
    "tag_case n low (MakeTag f WIRETYPE_LENGTH_DELIMITED) \<longleftrightarrow> n = f \<and> low = word_of_nat (8 * f + 2)"
  using tag_fields(1,2) [OF assms, of 0] tag_fields(1,2) [OF assms, of 2]
  unfolding tag_case_def MakeTag_varint MakeTag_text by auto

lemma tag_ok_field:
  assumes "0 < f"
  shows "f < 2048 \<Longrightarrow> tag_ok 0x3FFF (MakeTag f WIRETYPE_VARINT)" "f < 2048 \<Longrightarrow> tag_ok 0x3FFF (MakeTag f WIRETYPE_LENGTH_DELIMITED)"
    "f < 16 \<Longrightarrow> tag_ok 0x7F (MakeTag f WIRETYPE_VARINT)" "f < 16 \<Longrightarrow> tag_ok 0x7F (MakeTag f WIRETYPE_LENGTH_DELIMITED)"
  using tag_fields(3,4) [of f 0] tag_fields(3,4) [of f 2] assms unfolding MakeTag_varint MakeTag_text by simp_all

lemma tag_size:
  "f < 2048 \<Longrightarrow> length (WriteTagToArray f WIRETYPE_VARINT) = (if f < 16 then 1 else 2)"
  "f < 2048 \<Longrightarrow> length (WriteTagToArray f WIRETYPE_LENGTH_DELIMITED) = (if f < 16 then 1 else 2)"
  using tag_fields(5) [of f 0] tag_fields(5) [of f 2] unfolding WriteTagToArray_def MakeTag_varint MakeTag_text by simp_all

lemma no_tag_case: "0 < n \<Longrightarrow> \<not> tag_case n low 0"
  by (simp add: tag_case_def GetTagFieldNumber_def)

text \<open>What \<open>wire_class\<close> asks of a piece.\<close>

definition piece_reads :: "tuint32 \<Rightarrow> 'd field_switch \<Rightarrow> 'd piece \<Rightarrow> bool" where
  "piece_reads cutoff switch x \<longleftrightarrow> (\<forall>s rest a. fst x \<noteq> [] \<longrightarrow> ci_buffer s = fst x @ rest \<longrightarrow>
     \<not> legitimate_message_end s \<longrightarrow> (\<exists>tag s1. ReadTagWithCutoffNoLastTag cutoff s = Some ((tag, True), s1)
        \<and> switch tag a s1 = Some (Some (True, snd x a, s\<lparr>ci_buffer := rest\<rparr>))))"

lemma piece_readsI:
  assumes "fst x = [] \<or> fst x = WriteTagToArray field type @ bytes" "tag_ok cutoff (MakeTag field type)"
    and "\<And>s rest a. ci_buffer s = bytes @ rest \<Longrightarrow> \<not> legitimate_message_end s \<Longrightarrow>
      switch (MakeTag field type) a s = Some (Some (True, snd x a, s\<lparr>ci_buffer := rest\<rparr>))"
  shows "piece_reads cutoff switch x"
  unfolding piece_reads_def
proof (intro allI impI)
  fix s :: coded_input and rest a
  assume ne: "fst x \<noteq> []" and b: "ci_buffer s = fst x @ rest" and l: "\<not> legitimate_message_end s"
  have "fst x = WriteTagToArray field type @ bytes" using assms(1) ne by blast
  then have b2: "ci_buffer s = WriteTagToArray field type @ (bytes @ rest)" using b by simp
  have "switch (MakeTag field type) a (s\<lparr>ci_buffer := bytes @ rest\<rparr>) = Some (Some (True, snd x a, s\<lparr>ci_buffer := rest\<rparr>))"
    using assms(3) [of "s\<lparr>ci_buffer := bytes @ rest\<rparr>" rest a] l by simp
  then show "\<exists>tag s1. ReadTagWithCutoffNoLastTag cutoff s = Some ((tag, True), s1) \<and>
      switch tag a s1 = Some (Some (True, snd x a, s\<lparr>ci_buffer := rest\<rparr>))"
    using read_tag [OF assms(2) b2] by blast
qed

lemma uint32_piece_reads:
  assumes "tag_ok cutoff (MakeTag field WIRETYPE_VARINT)"
    and "\<And>a s. switch (MakeTag field WIRETYPE_VARINT) a s = Some (uint32_case (\<lambda>v. put v a) a s)"
  shows "piece_reads cutoff switch (uint32_piece field v put)"
  by (rule piece_readsI [where bytes = "WriteVarintToArray v", OF _ assms(1)])
    (simp_all add: uint32_piece_def WriteUInt32ToArray_def assms(2) uint32_case_def ReadUInt32_written)

lemma int32_piece_reads:
  assumes "tag_ok cutoff (MakeTag field WIRETYPE_VARINT)"
    and "\<And>a s. switch (MakeTag field WIRETYPE_VARINT) a s = Some (uint32_case (\<lambda>v. put v a) a s)"
  shows "piece_reads cutoff switch (int32_piece field v put)"
  by (rule piece_readsI [where bytes = "WriteVarint32SignExtendedToArray v", OF _ assms(1)])
    (simp_all add: int32_piece_def WriteInt32ToArray_def assms(2) uint32_case_def ReadUInt32_written_signed)

lemma string_piece_reads:
  assumes "tag_ok cutoff (MakeTag field WIRETYPE_LENGTH_DELIMITED)"
    and "\<And>a s. switch (MakeTag field WIRETYPE_LENGTH_DELIMITED) a s = Some (string_case VerifyUtf8String (\<lambda>v. put v a) (get a) s)"
    and "text_field v"
  shows "piece_reads cutoff switch (string_piece field v put)"
proof (rule piece_readsI [where bytes = "WriteVarintToArray (word_of_nat (length v) :: tuint32) @ v", OF _ assms(1)])
  fix s :: coded_input and rest a
  assume "ci_buffer s = (WriteVarintToArray (word_of_nat (length v) :: tuint32) @ v) @ rest"
  then have "ReadString (get a) s = Some (True, v, s\<lparr>ci_buffer := rest\<rparr>)"
    using assms(3) by (intro ReadString_written) (simp_all add: text_field_def)
  then show "switch (MakeTag field WIRETYPE_LENGTH_DELIMITED) a s =
      Some (Some (True, snd (string_piece field v put) a, s\<lparr>ci_buffer := rest\<rparr>))"
    using assms(3) by (simp add: assms(2) string_case_def string_piece_def VerifyUtf8String_def IsStructurallyValidUTF8_text text_field_def)
qed (simp add: string_piece_def WriteStringToArray_def)

text \<open>Pieces put their value, or leave the default.\<close>

lemma read_uint32_piece: "put 0 a = a \<Longrightarrow> read_piece (uint32_piece field v put) a = put v a"
  by (simp add: read_piece_def uint32_piece_def WriteUInt32ToArray_def WriteTagToArray_def WriteVarint_bytes)

lemma read_int32_piece: "put 0 a = a \<Longrightarrow> read_piece (int32_piece field v put) a = put v a"
  by (simp add: read_piece_def int32_piece_def WriteInt32ToArray_def WriteTagToArray_def WriteVarint_bytes)

lemma read_string_piece: "put [] a = a \<Longrightarrow> read_piece (string_piece field v put) a = put v a"
  by (simp add: read_piece_def string_piece_def WriteStringToArray_def WriteTagToArray_def WriteVarint_bytes)

lemmas read_pieces = read_uint32_piece read_int32_piece read_string_piece

lemma fst_uint32_piece: "fst (uint32_piece field v put) = (if v \<noteq> 0 then WriteUInt32ToArray field v else [])"
  and fst_int32_piece: "fst (int32_piece field v put) = (if v \<noteq> 0 then WriteInt32ToArray field v else [])"
  and fst_string_piece: "fst (string_piece field u put') = (if u \<noteq> [] then WriteStringToArray field u else [])"
  by (simp_all add: uint32_piece_def int32_piece_def string_piece_def)

lemmas fst_pieces = fst_uint32_piece fst_int32_piece fst_string_piece

text \<open>Sizes.\<close>

lemma piece_sizes:
  "length (WriteUInt32ToArray field v) = length (WriteTagToArray field WIRETYPE_VARINT) + VarintSize32 v"
  "length (WriteInt32ToArray field v) = length (WriteTagToArray field WIRETYPE_VARINT) + VarintSize32SignExtended v"
  "length (WriteStringToArray field u) = length (WriteTagToArray field WIRETYPE_LENGTH_DELIMITED) + LengthDelimitedSize (length u)"
  by (simp_all add: WriteUInt32ToArray_def WriteInt32ToArray_def WriteStringToArray_def
    VarintSize32_length VarintSize32SignExtended_length LengthDelimitedSize_def)

lemma piece_lengths:
  "f < 16 \<Longrightarrow> length (fst (uint32_piece f v put)) = (if v \<noteq> 0 then 1 + VarintSize32 v else 0)"
  "f < 16 \<Longrightarrow> length (fst (int32_piece f v put)) = (if v \<noteq> 0 then 1 + VarintSize32SignExtended v else 0)"
  "f < 16 \<Longrightarrow> length (fst (string_piece f u put')) = (if u \<noteq> [] then 1 + LengthDelimitedSize (length u) else 0)"
  "16 \<le> f \<Longrightarrow> f < 2048 \<Longrightarrow> length (fst (uint32_piece f v put)) = (if v \<noteq> 0 then 2 + VarintSize32 v else 0)"
  "16 \<le> f \<Longrightarrow> f < 2048 \<Longrightarrow> length (fst (int32_piece f v put)) = (if v \<noteq> 0 then 2 + VarintSize32SignExtended v else 0)"
  "16 \<le> f \<Longrightarrow> f < 2048 \<Longrightarrow> length (fst (string_piece f u put')) = (if u \<noteq> [] then 2 + LengthDelimitedSize (length u) else 0)"
  by (simp_all add: fst_pieces piece_sizes tag_size)

text \<open>A piece as an assignment under a condition.\<close>

lemma read_piece_ifs:
  "read_piece (uint32_piece f v put) a = (if v \<noteq> 0 then put v a else a)"
  "read_piece (int32_piece f v put) a = (if v \<noteq> 0 then put v a else a)"
  "read_piece (string_piece f u put') b = (if u \<noteq> [] then put' u b else b)"
  by (simp_all add: read_piece_def uint32_piece_def int32_piece_def string_piece_def WriteUInt32ToArray_def WriteInt32ToArray_def
    WriteStringToArray_def WriteTagToArray_def WriteVarint_bytes)

end
