(* ===== verification/LoginProtos.thy ===== *)
theory LoginProtos
  imports WireFields MessageCodec
begin

text \<open>
  The generated classes of the login: \<open>NH_REQ_LOGIN\<close> and \<open>HN_RET_LOGIN\<close> of \<open>test/Message.pb.cc\<close>,
  \<open>CG_LOGIN\<close> and \<open>GC_LOGIN\<close> of \<open>test/Packet.pb.cc\<close>. A class is the record of its fields, a string the list
  of its bytes; \<open>Clear\<close>, the \<open>switch\<close> of \<open>MergePartialFromCodedStream\<close>, the bytes of
  \<open>InternalSerializeWithCachedSizesToArray\<close> (where a text that is not UTF-8 is only logged) and
  \<open>ByteSizeLong\<close>. What \<open>message_lite.cc\<close> makes of them is the class as the sources use it.
\<close>

section \<open>What every message does\<close>

text \<open>\<open>ByteSize\<close> is the size as an \<open>int\<close>; \<open>ParseFromArray\<close> merges into a cleared message, and its reading
  always ends.\<close>

definition MessageLite_over :: "tuint32 \<Rightarrow> 'd field_switch \<Rightarrow> ('d \<Rightarrow> 'd) \<Rightarrow> ('d \<Rightarrow> tbyte list) \<Rightarrow> ('d \<Rightarrow> nat) \<Rightarrow> 'd protobuf" where
  "MessageLite_over cutoff switch clear serialize byte_size =
     \<lparr>ByteSize = (\<lambda>d. word_of_nat (byte_size d)),
      SerializePartialToArray = (\<lambda>d sz. SerializePartialToArray_over (byte_size d) (serialize d) sz),
      ParseFromArray = (\<lambda>d data. the (ParseFromArray_over cutoff switch (clear d) data))\<rparr>"

section \<open>\<open>NH_REQ_LOGIN\<close>\<close>

record nh_req_login =
  nhl_uid :: tuint32
  nhl_account :: "tbyte list"
  nhl_validateinfo :: "tbyte list"

definition NH_REQ_LOGIN_new :: nh_req_login where
  "NH_REQ_LOGIN_new = \<lparr>nhl_uid = 0, nhl_account = [], nhl_validateinfo = []\<rparr>"

definition NH_REQ_LOGIN_Clear :: "nh_req_login \<Rightarrow> nh_req_login" where
  "NH_REQ_LOGIN_Clear d = \<lparr>nhl_uid = 0, nhl_account = [], nhl_validateinfo = []\<rparr>"

definition NH_REQ_LOGIN_MergeFrom :: "nh_req_login \<Rightarrow> nh_req_login \<Rightarrow> nh_req_login" where
  "NH_REQ_LOGIN_MergeFrom src d = d\<lparr>
     nhl_account := (if nhl_account src \<noteq> [] then nhl_account src else nhl_account d),
     nhl_validateinfo := (if nhl_validateinfo src \<noteq> [] then nhl_validateinfo src else nhl_validateinfo d),
     nhl_uid := (if nhl_uid src \<noteq> 0 then nhl_uid src else nhl_uid d)\<rparr>"

definition NH_REQ_LOGIN_switch :: "nh_req_login field_switch" where
  "NH_REQ_LOGIN_switch tag d s =
     (if tag_case 1 8 tag then Some (uint32_case (\<lambda>v. d\<lparr>nhl_uid := v\<rparr>) d s)
      else if tag_case 2 18 tag then Some (string_case VerifyUtf8String (\<lambda>v. d\<lparr>nhl_account := v\<rparr>) (nhl_account d) s)
      else if tag_case 3 26 tag then Some (string_case VerifyUtf8String (\<lambda>v. d\<lparr>nhl_validateinfo := v\<rparr>) (nhl_validateinfo d) s)
      else None)"

definition NH_REQ_LOGIN_SerializeToArray :: "nh_req_login \<Rightarrow> tbyte list" where
  "NH_REQ_LOGIN_SerializeToArray d =
     (if nhl_uid d \<noteq> 0 then WriteUInt32ToArray 1 (nhl_uid d) else []) @
     (if nhl_account d \<noteq> [] then WriteStringToArray 2 (nhl_account d) else []) @
     (if nhl_validateinfo d \<noteq> [] then WriteStringToArray 3 (nhl_validateinfo d) else [])"

definition NH_REQ_LOGIN_ByteSizeLong :: "nh_req_login \<Rightarrow> nat" where
  "NH_REQ_LOGIN_ByteSizeLong d =
     (if nhl_account d \<noteq> [] then 1 + LengthDelimitedSize (length (nhl_account d)) else 0) +
     (if nhl_validateinfo d \<noteq> [] then 1 + LengthDelimitedSize (length (nhl_validateinfo d)) else 0) +
     (if nhl_uid d \<noteq> 0 then 1 + VarintSize32 (nhl_uid d) else 0)"

definition NH_REQ_LOGIN_protobuf :: "nh_req_login protobuf" where
  "NH_REQ_LOGIN_protobuf =
     MessageLite_over 0x7F NH_REQ_LOGIN_switch NH_REQ_LOGIN_Clear NH_REQ_LOGIN_SerializeToArray NH_REQ_LOGIN_ByteSizeLong"

section \<open>\<open>HN_RET_LOGIN\<close>\<close>

record hn_ret_login =
  hnl_uid :: tuint32
  hnl_account :: "tbyte list"
  hnl_result :: tint32

definition HN_RET_LOGIN_new :: hn_ret_login where
  "HN_RET_LOGIN_new = \<lparr>hnl_uid = 0, hnl_account = [], hnl_result = 0\<rparr>"

definition HN_RET_LOGIN_Clear :: "hn_ret_login \<Rightarrow> hn_ret_login" where
  "HN_RET_LOGIN_Clear d = \<lparr>hnl_uid = 0, hnl_account = [], hnl_result = 0\<rparr>"

definition HN_RET_LOGIN_MergeFrom :: "hn_ret_login \<Rightarrow> hn_ret_login \<Rightarrow> hn_ret_login" where
  "HN_RET_LOGIN_MergeFrom src d = d\<lparr>
     hnl_account := (if hnl_account src \<noteq> [] then hnl_account src else hnl_account d),
     hnl_uid := (if hnl_uid src \<noteq> 0 then hnl_uid src else hnl_uid d),
     hnl_result := (if hnl_result src \<noteq> 0 then hnl_result src else hnl_result d)\<rparr>"

definition HN_RET_LOGIN_switch :: "hn_ret_login field_switch" where
  "HN_RET_LOGIN_switch tag d s =
     (if tag_case 1 8 tag then Some (uint32_case (\<lambda>v. d\<lparr>hnl_uid := v\<rparr>) d s)
      else if tag_case 2 18 tag then Some (string_case VerifyUtf8String (\<lambda>v. d\<lparr>hnl_account := v\<rparr>) (hnl_account d) s)
      else if tag_case 3 24 tag then Some (uint32_case (\<lambda>v. d\<lparr>hnl_result := v\<rparr>) d s)
      else None)"

definition HN_RET_LOGIN_SerializeToArray :: "hn_ret_login \<Rightarrow> tbyte list" where
  "HN_RET_LOGIN_SerializeToArray d =
     (if hnl_uid d \<noteq> 0 then WriteUInt32ToArray 1 (hnl_uid d) else []) @
     (if hnl_account d \<noteq> [] then WriteStringToArray 2 (hnl_account d) else []) @
     (if hnl_result d \<noteq> 0 then WriteInt32ToArray 3 (hnl_result d) else [])"

definition HN_RET_LOGIN_ByteSizeLong :: "hn_ret_login \<Rightarrow> nat" where
  "HN_RET_LOGIN_ByteSizeLong d =
     (if hnl_account d \<noteq> [] then 1 + LengthDelimitedSize (length (hnl_account d)) else 0) +
     (if hnl_uid d \<noteq> 0 then 1 + VarintSize32 (hnl_uid d) else 0) +
     (if hnl_result d \<noteq> 0 then 1 + VarintSize32SignExtended (hnl_result d) else 0)"

definition HN_RET_LOGIN_protobuf :: "hn_ret_login protobuf" where
  "HN_RET_LOGIN_protobuf =
     MessageLite_over 0x7F HN_RET_LOGIN_switch HN_RET_LOGIN_Clear HN_RET_LOGIN_SerializeToArray HN_RET_LOGIN_ByteSizeLong"

section \<open>\<open>CG_LOGIN\<close>\<close>

record cg_login =
  cgl_vtype :: tint32
  cgl_gameversion :: tint32
  cgl_programversion :: tint32
  cgl_publicresourceversion :: tint32
  cgl_maxpacketid :: tint32
  cgl_forceenter :: tint32
  cgl_deviceid :: "tbyte list"
  cgl_devicetype :: "tbyte list"
  cgl_deviceversion :: "tbyte list"
  cgl_account :: "tbyte list"
  cgl_validateinfo :: "tbyte list"
  cgl_channelid :: "tbyte list"
  cgl_mediachannel :: "tbyte list"
  cgl_rapidvalidatecode :: tint32
  cgl_reservedint1 :: tint32
  cgl_reservedint2 :: tint32
  cgl_reservedint3 :: tint32
  cgl_reservedint4 :: tint32
  cgl_reservedstring1 :: "tbyte list"
  cgl_reservedstring2 :: "tbyte list"
  cgl_reservedstring3 :: "tbyte list"
  cgl_reservedstring4 :: "tbyte list"

definition CG_LOGIN_new :: cg_login where
  "CG_LOGIN_new = \<lparr>cgl_vtype = 0, cgl_gameversion = 0, cgl_programversion = 0, cgl_publicresourceversion = 0, cgl_maxpacketid = 0, cgl_forceenter = 0, cgl_deviceid = [], cgl_devicetype = [], cgl_deviceversion = [], cgl_account = [], cgl_validateinfo = [], cgl_channelid = [], cgl_mediachannel = [], cgl_rapidvalidatecode = 0, cgl_reservedint1 = 0, cgl_reservedint2 = 0, cgl_reservedint3 = 0, cgl_reservedint4 = 0, cgl_reservedstring1 = [], cgl_reservedstring2 = [], cgl_reservedstring3 = [], cgl_reservedstring4 = []\<rparr>"

definition CG_LOGIN_Clear :: "cg_login \<Rightarrow> cg_login" where
  "CG_LOGIN_Clear d = \<lparr>cgl_vtype = 0, cgl_gameversion = 0, cgl_programversion = 0, cgl_publicresourceversion = 0, cgl_maxpacketid = 0, cgl_forceenter = 0, cgl_deviceid = [], cgl_devicetype = [], cgl_deviceversion = [], cgl_account = [], cgl_validateinfo = [], cgl_channelid = [], cgl_mediachannel = [], cgl_rapidvalidatecode = 0, cgl_reservedint1 = 0, cgl_reservedint2 = 0, cgl_reservedint3 = 0, cgl_reservedint4 = 0, cgl_reservedstring1 = [], cgl_reservedstring2 = [], cgl_reservedstring3 = [], cgl_reservedstring4 = []\<rparr>"

definition CG_LOGIN_MergeFrom :: "cg_login \<Rightarrow> cg_login \<Rightarrow> cg_login" where
  "CG_LOGIN_MergeFrom src d = d\<lparr>
     cgl_deviceid := (if cgl_deviceid src \<noteq> [] then cgl_deviceid src else cgl_deviceid d),
     cgl_devicetype := (if cgl_devicetype src \<noteq> [] then cgl_devicetype src else cgl_devicetype d),
     cgl_deviceversion := (if cgl_deviceversion src \<noteq> [] then cgl_deviceversion src else cgl_deviceversion d),
     cgl_account := (if cgl_account src \<noteq> [] then cgl_account src else cgl_account d),
     cgl_validateinfo := (if cgl_validateinfo src \<noteq> [] then cgl_validateinfo src else cgl_validateinfo d),
     cgl_channelid := (if cgl_channelid src \<noteq> [] then cgl_channelid src else cgl_channelid d),
     cgl_mediachannel := (if cgl_mediachannel src \<noteq> [] then cgl_mediachannel src else cgl_mediachannel d),
     cgl_reservedstring1 := (if cgl_reservedstring1 src \<noteq> [] then cgl_reservedstring1 src else cgl_reservedstring1 d),
     cgl_reservedstring2 := (if cgl_reservedstring2 src \<noteq> [] then cgl_reservedstring2 src else cgl_reservedstring2 d),
     cgl_reservedstring3 := (if cgl_reservedstring3 src \<noteq> [] then cgl_reservedstring3 src else cgl_reservedstring3 d),
     cgl_reservedstring4 := (if cgl_reservedstring4 src \<noteq> [] then cgl_reservedstring4 src else cgl_reservedstring4 d),
     cgl_vtype := (if cgl_vtype src \<noteq> 0 then cgl_vtype src else cgl_vtype d),
     cgl_gameversion := (if cgl_gameversion src \<noteq> 0 then cgl_gameversion src else cgl_gameversion d),
     cgl_programversion := (if cgl_programversion src \<noteq> 0 then cgl_programversion src else cgl_programversion d),
     cgl_publicresourceversion := (if cgl_publicresourceversion src \<noteq> 0 then cgl_publicresourceversion src else cgl_publicresourceversion d),
     cgl_maxpacketid := (if cgl_maxpacketid src \<noteq> 0 then cgl_maxpacketid src else cgl_maxpacketid d),
     cgl_forceenter := (if cgl_forceenter src \<noteq> 0 then cgl_forceenter src else cgl_forceenter d),
     cgl_rapidvalidatecode := (if cgl_rapidvalidatecode src \<noteq> 0 then cgl_rapidvalidatecode src else cgl_rapidvalidatecode d),
     cgl_reservedint1 := (if cgl_reservedint1 src \<noteq> 0 then cgl_reservedint1 src else cgl_reservedint1 d),
     cgl_reservedint2 := (if cgl_reservedint2 src \<noteq> 0 then cgl_reservedint2 src else cgl_reservedint2 d),
     cgl_reservedint3 := (if cgl_reservedint3 src \<noteq> 0 then cgl_reservedint3 src else cgl_reservedint3 d),
     cgl_reservedint4 := (if cgl_reservedint4 src \<noteq> 0 then cgl_reservedint4 src else cgl_reservedint4 d)\<rparr>"

definition CG_LOGIN_switch :: "cg_login field_switch" where
  "CG_LOGIN_switch tag d s =
     (if tag_case 1 8 tag then Some (uint32_case (\<lambda>v. d\<lparr>cgl_vtype := v\<rparr>) d s)
      else if tag_case 2 16 tag then Some (uint32_case (\<lambda>v. d\<lparr>cgl_gameversion := v\<rparr>) d s)
      else if tag_case 3 24 tag then Some (uint32_case (\<lambda>v. d\<lparr>cgl_programversion := v\<rparr>) d s)
      else if tag_case 4 32 tag then Some (uint32_case (\<lambda>v. d\<lparr>cgl_publicresourceversion := v\<rparr>) d s)
      else if tag_case 5 40 tag then Some (uint32_case (\<lambda>v. d\<lparr>cgl_maxpacketid := v\<rparr>) d s)
      else if tag_case 6 48 tag then Some (uint32_case (\<lambda>v. d\<lparr>cgl_forceenter := v\<rparr>) d s)
      else if tag_case 7 58 tag then Some (string_case VerifyUtf8String (\<lambda>v. d\<lparr>cgl_deviceid := v\<rparr>) (cgl_deviceid d) s)
      else if tag_case 8 66 tag then Some (string_case VerifyUtf8String (\<lambda>v. d\<lparr>cgl_devicetype := v\<rparr>) (cgl_devicetype d) s)
      else if tag_case 9 74 tag then Some (string_case VerifyUtf8String (\<lambda>v. d\<lparr>cgl_deviceversion := v\<rparr>) (cgl_deviceversion d) s)
      else if tag_case 10 82 tag then Some (string_case VerifyUtf8String (\<lambda>v. d\<lparr>cgl_account := v\<rparr>) (cgl_account d) s)
      else if tag_case 11 90 tag then Some (string_case VerifyUtf8String (\<lambda>v. d\<lparr>cgl_validateinfo := v\<rparr>) (cgl_validateinfo d) s)
      else if tag_case 12 98 tag then Some (string_case VerifyUtf8String (\<lambda>v. d\<lparr>cgl_channelid := v\<rparr>) (cgl_channelid d) s)
      else if tag_case 13 106 tag then Some (string_case VerifyUtf8String (\<lambda>v. d\<lparr>cgl_mediachannel := v\<rparr>) (cgl_mediachannel d) s)
      else if tag_case 14 112 tag then Some (uint32_case (\<lambda>v. d\<lparr>cgl_rapidvalidatecode := v\<rparr>) d s)
      else if tag_case 15 120 tag then Some (uint32_case (\<lambda>v. d\<lparr>cgl_reservedint1 := v\<rparr>) d s)
      else if tag_case 16 128 tag then Some (uint32_case (\<lambda>v. d\<lparr>cgl_reservedint2 := v\<rparr>) d s)
      else if tag_case 17 136 tag then Some (uint32_case (\<lambda>v. d\<lparr>cgl_reservedint3 := v\<rparr>) d s)
      else if tag_case 18 144 tag then Some (uint32_case (\<lambda>v. d\<lparr>cgl_reservedint4 := v\<rparr>) d s)
      else if tag_case 19 154 tag then Some (string_case VerifyUtf8String (\<lambda>v. d\<lparr>cgl_reservedstring1 := v\<rparr>) (cgl_reservedstring1 d) s)
      else if tag_case 20 162 tag then Some (string_case VerifyUtf8String (\<lambda>v. d\<lparr>cgl_reservedstring2 := v\<rparr>) (cgl_reservedstring2 d) s)
      else if tag_case 21 170 tag then Some (string_case VerifyUtf8String (\<lambda>v. d\<lparr>cgl_reservedstring3 := v\<rparr>) (cgl_reservedstring3 d) s)
      else if tag_case 22 178 tag then Some (string_case VerifyUtf8String (\<lambda>v. d\<lparr>cgl_reservedstring4 := v\<rparr>) (cgl_reservedstring4 d) s)
      else None)"

definition CG_LOGIN_SerializeToArray :: "cg_login \<Rightarrow> tbyte list" where
  "CG_LOGIN_SerializeToArray d =
     (if cgl_vtype d \<noteq> 0 then WriteInt32ToArray 1 (cgl_vtype d) else []) @
     (if cgl_gameversion d \<noteq> 0 then WriteInt32ToArray 2 (cgl_gameversion d) else []) @
     (if cgl_programversion d \<noteq> 0 then WriteInt32ToArray 3 (cgl_programversion d) else []) @
     (if cgl_publicresourceversion d \<noteq> 0 then WriteInt32ToArray 4 (cgl_publicresourceversion d) else []) @
     (if cgl_maxpacketid d \<noteq> 0 then WriteInt32ToArray 5 (cgl_maxpacketid d) else []) @
     (if cgl_forceenter d \<noteq> 0 then WriteInt32ToArray 6 (cgl_forceenter d) else []) @
     (if cgl_deviceid d \<noteq> [] then WriteStringToArray 7 (cgl_deviceid d) else []) @
     (if cgl_devicetype d \<noteq> [] then WriteStringToArray 8 (cgl_devicetype d) else []) @
     (if cgl_deviceversion d \<noteq> [] then WriteStringToArray 9 (cgl_deviceversion d) else []) @
     (if cgl_account d \<noteq> [] then WriteStringToArray 10 (cgl_account d) else []) @
     (if cgl_validateinfo d \<noteq> [] then WriteStringToArray 11 (cgl_validateinfo d) else []) @
     (if cgl_channelid d \<noteq> [] then WriteStringToArray 12 (cgl_channelid d) else []) @
     (if cgl_mediachannel d \<noteq> [] then WriteStringToArray 13 (cgl_mediachannel d) else []) @
     (if cgl_rapidvalidatecode d \<noteq> 0 then WriteInt32ToArray 14 (cgl_rapidvalidatecode d) else []) @
     (if cgl_reservedint1 d \<noteq> 0 then WriteInt32ToArray 15 (cgl_reservedint1 d) else []) @
     (if cgl_reservedint2 d \<noteq> 0 then WriteInt32ToArray 16 (cgl_reservedint2 d) else []) @
     (if cgl_reservedint3 d \<noteq> 0 then WriteInt32ToArray 17 (cgl_reservedint3 d) else []) @
     (if cgl_reservedint4 d \<noteq> 0 then WriteInt32ToArray 18 (cgl_reservedint4 d) else []) @
     (if cgl_reservedstring1 d \<noteq> [] then WriteStringToArray 19 (cgl_reservedstring1 d) else []) @
     (if cgl_reservedstring2 d \<noteq> [] then WriteStringToArray 20 (cgl_reservedstring2 d) else []) @
     (if cgl_reservedstring3 d \<noteq> [] then WriteStringToArray 21 (cgl_reservedstring3 d) else []) @
     (if cgl_reservedstring4 d \<noteq> [] then WriteStringToArray 22 (cgl_reservedstring4 d) else [])"

definition CG_LOGIN_ByteSizeLong :: "cg_login \<Rightarrow> nat" where
  "CG_LOGIN_ByteSizeLong d =
     (if cgl_deviceid d \<noteq> [] then 1 + LengthDelimitedSize (length (cgl_deviceid d)) else 0) +
     (if cgl_devicetype d \<noteq> [] then 1 + LengthDelimitedSize (length (cgl_devicetype d)) else 0) +
     (if cgl_deviceversion d \<noteq> [] then 1 + LengthDelimitedSize (length (cgl_deviceversion d)) else 0) +
     (if cgl_account d \<noteq> [] then 1 + LengthDelimitedSize (length (cgl_account d)) else 0) +
     (if cgl_validateinfo d \<noteq> [] then 1 + LengthDelimitedSize (length (cgl_validateinfo d)) else 0) +
     (if cgl_channelid d \<noteq> [] then 1 + LengthDelimitedSize (length (cgl_channelid d)) else 0) +
     (if cgl_mediachannel d \<noteq> [] then 1 + LengthDelimitedSize (length (cgl_mediachannel d)) else 0) +
     (if cgl_reservedstring1 d \<noteq> [] then 2 + LengthDelimitedSize (length (cgl_reservedstring1 d)) else 0) +
     (if cgl_reservedstring2 d \<noteq> [] then 2 + LengthDelimitedSize (length (cgl_reservedstring2 d)) else 0) +
     (if cgl_reservedstring3 d \<noteq> [] then 2 + LengthDelimitedSize (length (cgl_reservedstring3 d)) else 0) +
     (if cgl_reservedstring4 d \<noteq> [] then 2 + LengthDelimitedSize (length (cgl_reservedstring4 d)) else 0) +
     (if cgl_vtype d \<noteq> 0 then 1 + VarintSize32SignExtended (cgl_vtype d) else 0) +
     (if cgl_gameversion d \<noteq> 0 then 1 + VarintSize32SignExtended (cgl_gameversion d) else 0) +
     (if cgl_programversion d \<noteq> 0 then 1 + VarintSize32SignExtended (cgl_programversion d) else 0) +
     (if cgl_publicresourceversion d \<noteq> 0 then 1 + VarintSize32SignExtended (cgl_publicresourceversion d) else 0) +
     (if cgl_maxpacketid d \<noteq> 0 then 1 + VarintSize32SignExtended (cgl_maxpacketid d) else 0) +
     (if cgl_forceenter d \<noteq> 0 then 1 + VarintSize32SignExtended (cgl_forceenter d) else 0) +
     (if cgl_rapidvalidatecode d \<noteq> 0 then 1 + VarintSize32SignExtended (cgl_rapidvalidatecode d) else 0) +
     (if cgl_reservedint1 d \<noteq> 0 then 1 + VarintSize32SignExtended (cgl_reservedint1 d) else 0) +
     (if cgl_reservedint2 d \<noteq> 0 then 2 + VarintSize32SignExtended (cgl_reservedint2 d) else 0) +
     (if cgl_reservedint3 d \<noteq> 0 then 2 + VarintSize32SignExtended (cgl_reservedint3 d) else 0) +
     (if cgl_reservedint4 d \<noteq> 0 then 2 + VarintSize32SignExtended (cgl_reservedint4 d) else 0)"

definition CG_LOGIN_protobuf :: "cg_login protobuf" where
  "CG_LOGIN_protobuf =
     MessageLite_over 0x3FFF CG_LOGIN_switch CG_LOGIN_Clear CG_LOGIN_SerializeToArray CG_LOGIN_ByteSizeLong"

section \<open>\<open>GC_LOGIN\<close>\<close>

record gc_login =
  gcl_result :: tint32

definition GC_LOGIN_new :: gc_login where
  "GC_LOGIN_new = \<lparr>gcl_result = 0\<rparr>"

definition GC_LOGIN_Clear :: "gc_login \<Rightarrow> gc_login" where
  "GC_LOGIN_Clear d = \<lparr>gcl_result = 0\<rparr>"

definition GC_LOGIN_MergeFrom :: "gc_login \<Rightarrow> gc_login \<Rightarrow> gc_login" where
  "GC_LOGIN_MergeFrom src d = d\<lparr>
     gcl_result := (if gcl_result src \<noteq> 0 then gcl_result src else gcl_result d)\<rparr>"

definition GC_LOGIN_switch :: "gc_login field_switch" where
  "GC_LOGIN_switch tag d s =
     (if tag_case 1 8 tag then Some (uint32_case (\<lambda>v. d\<lparr>gcl_result := v\<rparr>) d s)
      else None)"

definition GC_LOGIN_SerializeToArray :: "gc_login \<Rightarrow> tbyte list" where
  "GC_LOGIN_SerializeToArray d =
     (if gcl_result d \<noteq> 0 then WriteInt32ToArray 1 (gcl_result d) else [])"

definition GC_LOGIN_ByteSizeLong :: "gc_login \<Rightarrow> nat" where
  "GC_LOGIN_ByteSizeLong d =
     (if gcl_result d \<noteq> 0 then 1 + VarintSize32SignExtended (gcl_result d) else 0)"

definition GC_LOGIN_protobuf :: "gc_login protobuf" where
  "GC_LOGIN_protobuf =
     MessageLite_over 0x7F GC_LOGIN_switch GC_LOGIN_Clear GC_LOGIN_SerializeToArray GC_LOGIN_ByteSizeLong"

end
