(* ===== verification/LoginProtosFacts.thy ===== *)
theory LoginProtosFacts
  imports LoginProtos
begin

text \<open>
  The generated classes meet the contract \<open>wire_class\<close>: their pieces, the messages whose texts are valid,
  and what follows for the functions the sources call.
\<close>

section \<open>The pieces\<close>

definition NH_REQ_LOGIN_pieces :: "nh_req_login \<Rightarrow> nh_req_login piece list" where
  "NH_REQ_LOGIN_pieces d = [
     uint32_piece 1 (nhl_uid d) (\<lambda>v d. d\<lparr>nhl_uid := v\<rparr>),
     string_piece 2 (nhl_account d) (\<lambda>v d. d\<lparr>nhl_account := v\<rparr>),
     string_piece 3 (nhl_validateinfo d) (\<lambda>v d. d\<lparr>nhl_validateinfo := v\<rparr>)]"

definition NH_REQ_LOGIN_good :: "nh_req_login \<Rightarrow> bool" where
  "NH_REQ_LOGIN_good d \<longleftrightarrow> text_field (nhl_account d) \<and> text_field (nhl_validateinfo d)"

definition HN_RET_LOGIN_pieces :: "hn_ret_login \<Rightarrow> hn_ret_login piece list" where
  "HN_RET_LOGIN_pieces d = [
     uint32_piece 1 (hnl_uid d) (\<lambda>v d. d\<lparr>hnl_uid := v\<rparr>),
     string_piece 2 (hnl_account d) (\<lambda>v d. d\<lparr>hnl_account := v\<rparr>),
     int32_piece 3 (hnl_result d) (\<lambda>v d. d\<lparr>hnl_result := v\<rparr>)]"

definition HN_RET_LOGIN_good :: "hn_ret_login \<Rightarrow> bool" where
  "HN_RET_LOGIN_good d \<longleftrightarrow> text_field (hnl_account d)"

definition CG_LOGIN_pieces :: "cg_login \<Rightarrow> cg_login piece list" where
  "CG_LOGIN_pieces d = [
     int32_piece 1 (cgl_vtype d) (\<lambda>v d. d\<lparr>cgl_vtype := v\<rparr>),
     int32_piece 2 (cgl_gameversion d) (\<lambda>v d. d\<lparr>cgl_gameversion := v\<rparr>),
     int32_piece 3 (cgl_programversion d) (\<lambda>v d. d\<lparr>cgl_programversion := v\<rparr>),
     int32_piece 4 (cgl_publicresourceversion d) (\<lambda>v d. d\<lparr>cgl_publicresourceversion := v\<rparr>),
     int32_piece 5 (cgl_maxpacketid d) (\<lambda>v d. d\<lparr>cgl_maxpacketid := v\<rparr>),
     int32_piece 6 (cgl_forceenter d) (\<lambda>v d. d\<lparr>cgl_forceenter := v\<rparr>),
     string_piece 7 (cgl_deviceid d) (\<lambda>v d. d\<lparr>cgl_deviceid := v\<rparr>),
     string_piece 8 (cgl_devicetype d) (\<lambda>v d. d\<lparr>cgl_devicetype := v\<rparr>),
     string_piece 9 (cgl_deviceversion d) (\<lambda>v d. d\<lparr>cgl_deviceversion := v\<rparr>),
     string_piece 10 (cgl_account d) (\<lambda>v d. d\<lparr>cgl_account := v\<rparr>),
     string_piece 11 (cgl_validateinfo d) (\<lambda>v d. d\<lparr>cgl_validateinfo := v\<rparr>),
     string_piece 12 (cgl_channelid d) (\<lambda>v d. d\<lparr>cgl_channelid := v\<rparr>),
     string_piece 13 (cgl_mediachannel d) (\<lambda>v d. d\<lparr>cgl_mediachannel := v\<rparr>),
     int32_piece 14 (cgl_rapidvalidatecode d) (\<lambda>v d. d\<lparr>cgl_rapidvalidatecode := v\<rparr>),
     int32_piece 15 (cgl_reservedint1 d) (\<lambda>v d. d\<lparr>cgl_reservedint1 := v\<rparr>),
     int32_piece 16 (cgl_reservedint2 d) (\<lambda>v d. d\<lparr>cgl_reservedint2 := v\<rparr>),
     int32_piece 17 (cgl_reservedint3 d) (\<lambda>v d. d\<lparr>cgl_reservedint3 := v\<rparr>),
     int32_piece 18 (cgl_reservedint4 d) (\<lambda>v d. d\<lparr>cgl_reservedint4 := v\<rparr>),
     string_piece 19 (cgl_reservedstring1 d) (\<lambda>v d. d\<lparr>cgl_reservedstring1 := v\<rparr>),
     string_piece 20 (cgl_reservedstring2 d) (\<lambda>v d. d\<lparr>cgl_reservedstring2 := v\<rparr>),
     string_piece 21 (cgl_reservedstring3 d) (\<lambda>v d. d\<lparr>cgl_reservedstring3 := v\<rparr>),
     string_piece 22 (cgl_reservedstring4 d) (\<lambda>v d. d\<lparr>cgl_reservedstring4 := v\<rparr>)]"

definition CG_LOGIN_good :: "cg_login \<Rightarrow> bool" where
  "CG_LOGIN_good d \<longleftrightarrow> text_field (cgl_deviceid d) \<and> text_field (cgl_devicetype d) \<and> text_field (cgl_deviceversion d) \<and> text_field (cgl_account d) \<and> text_field (cgl_validateinfo d) \<and> text_field (cgl_channelid d) \<and> text_field (cgl_mediachannel d) \<and> text_field (cgl_reservedstring1 d) \<and> text_field (cgl_reservedstring2 d) \<and> text_field (cgl_reservedstring3 d) \<and> text_field (cgl_reservedstring4 d)"

definition GC_LOGIN_pieces :: "gc_login \<Rightarrow> gc_login piece list" where
  "GC_LOGIN_pieces d = [
     int32_piece 1 (gcl_result d) (\<lambda>v d. d\<lparr>gcl_result := v\<rparr>)]"

definition GC_LOGIN_good :: "gc_login \<Rightarrow> bool" where
  "GC_LOGIN_good d \<longleftrightarrow> True"

section \<open>The contract\<close>

lemma NH_REQ_LOGIN_inside: "switch_inside NH_REQ_LOGIN_switch"
  by (rule switch_insideI) (simp_all add: NH_REQ_LOGIN_switch_def no_tag_case)

lemma NH_REQ_LOGIN_pieces_read: "NH_REQ_LOGIN_good d \<Longrightarrow> x \<in> set (NH_REQ_LOGIN_pieces d) \<Longrightarrow> piece_reads 0x7F NH_REQ_LOGIN_switch x"
  by (auto simp: NH_REQ_LOGIN_pieces_def NH_REQ_LOGIN_good_def NH_REQ_LOGIN_switch_def tag_case_field tag_ok_field
    intro!: uint32_piece_reads int32_piece_reads string_piece_reads)

lemma NH_REQ_LOGIN_pieces_all: "fold read_piece (NH_REQ_LOGIN_pieces d) (NH_REQ_LOGIN_Clear d0) = d"
  by (simp add: NH_REQ_LOGIN_pieces_def NH_REQ_LOGIN_Clear_def read_pieces)

lemma NH_REQ_LOGIN_written: "NH_REQ_LOGIN_SerializeToArray d = concat (map fst (NH_REQ_LOGIN_pieces d))"
  by (simp only: NH_REQ_LOGIN_pieces_def NH_REQ_LOGIN_SerializeToArray_def fst_pieces list.map concat.simps append_Nil2)

lemma NH_REQ_LOGIN_counted: "NH_REQ_LOGIN_ByteSizeLong d = sum_list (map (length \<circ> fst) (NH_REQ_LOGIN_pieces d))"
  by (simp add: NH_REQ_LOGIN_pieces_def NH_REQ_LOGIN_ByteSizeLong_def piece_lengths ac_simps split del: if_split)

interpretation nhl: wire_class "0x7F" NH_REQ_LOGIN_switch NH_REQ_LOGIN_Clear NH_REQ_LOGIN_pieces NH_REQ_LOGIN_SerializeToArray NH_REQ_LOGIN_ByteSizeLong NH_REQ_LOGIN_good "\<lambda>d. d"
proof
  show "x \<in> set (NH_REQ_LOGIN_pieces d) \<Longrightarrow> NH_REQ_LOGIN_good d \<Longrightarrow> fst x \<noteq> [] \<Longrightarrow> ci_buffer s = fst x @ rest \<Longrightarrow>
      \<not> legitimate_message_end s \<Longrightarrow> \<exists>tag s1. ReadTagWithCutoffNoLastTag 0x7F s = Some ((tag, True), s1)
        \<and> NH_REQ_LOGIN_switch tag a s1 = Some (Some (True, snd x a, s\<lparr>ci_buffer := rest\<rparr>))" for x d s rest a
    using NH_REQ_LOGIN_pieces_read [of d x] unfolding piece_reads_def by blast
qed (simp_all only: NH_REQ_LOGIN_inside NH_REQ_LOGIN_pieces_all NH_REQ_LOGIN_written NH_REQ_LOGIN_counted)

lemma NH_REQ_LOGIN_merged: "fold read_piece (NH_REQ_LOGIN_pieces d) a = NH_REQ_LOGIN_MergeFrom d a"
proof -
  have assign: "read_piece (uint32_piece f v1 (\<lambda>v d. d\<lparr>nhl_uid := v\<rparr>)) a = a\<lparr>nhl_uid := (if v1 \<noteq> 0 then v1 else nhl_uid a)\<rparr>"
    "read_piece (string_piece f v2 (\<lambda>v d. d\<lparr>nhl_account := v\<rparr>)) a = a\<lparr>nhl_account := (if v2 \<noteq> [] then v2 else nhl_account a)\<rparr>"
    "read_piece (string_piece f v3 (\<lambda>v d. d\<lparr>nhl_validateinfo := v\<rparr>)) a = a\<lparr>nhl_validateinfo := (if v3 \<noteq> [] then v3 else nhl_validateinfo a)\<rparr>"
    for f v1 v2 v3 and a :: nh_req_login by (simp_all add: read_piece_ifs)
  show ?thesis
    by (cases a) (simp add: NH_REQ_LOGIN_pieces_def NH_REQ_LOGIN_MergeFrom_def assign split del: if_split cong: if_cong)
qed

interpretation nhl_merge: wire_merge "0x7F" NH_REQ_LOGIN_switch NH_REQ_LOGIN_Clear NH_REQ_LOGIN_pieces NH_REQ_LOGIN_SerializeToArray NH_REQ_LOGIN_ByteSizeLong NH_REQ_LOGIN_good "\<lambda>d. d" NH_REQ_LOGIN_MergeFrom
  by unfold_locales (simp only: NH_REQ_LOGIN_pieces_all, simp only: NH_REQ_LOGIN_merged)

lemma HN_RET_LOGIN_inside: "switch_inside HN_RET_LOGIN_switch"
  by (rule switch_insideI) (simp_all add: HN_RET_LOGIN_switch_def no_tag_case)

lemma HN_RET_LOGIN_pieces_read: "HN_RET_LOGIN_good d \<Longrightarrow> x \<in> set (HN_RET_LOGIN_pieces d) \<Longrightarrow> piece_reads 0x7F HN_RET_LOGIN_switch x"
  by (auto simp: HN_RET_LOGIN_pieces_def HN_RET_LOGIN_good_def HN_RET_LOGIN_switch_def tag_case_field tag_ok_field
    intro!: uint32_piece_reads int32_piece_reads string_piece_reads)

lemma HN_RET_LOGIN_pieces_all: "fold read_piece (HN_RET_LOGIN_pieces d) (HN_RET_LOGIN_Clear d0) = d"
  by (simp add: HN_RET_LOGIN_pieces_def HN_RET_LOGIN_Clear_def read_pieces)

lemma HN_RET_LOGIN_written: "HN_RET_LOGIN_SerializeToArray d = concat (map fst (HN_RET_LOGIN_pieces d))"
  by (simp only: HN_RET_LOGIN_pieces_def HN_RET_LOGIN_SerializeToArray_def fst_pieces list.map concat.simps append_Nil2)

lemma HN_RET_LOGIN_counted: "HN_RET_LOGIN_ByteSizeLong d = sum_list (map (length \<circ> fst) (HN_RET_LOGIN_pieces d))"
  by (simp add: HN_RET_LOGIN_pieces_def HN_RET_LOGIN_ByteSizeLong_def piece_lengths ac_simps split del: if_split)

interpretation hnl: wire_class "0x7F" HN_RET_LOGIN_switch HN_RET_LOGIN_Clear HN_RET_LOGIN_pieces HN_RET_LOGIN_SerializeToArray HN_RET_LOGIN_ByteSizeLong HN_RET_LOGIN_good "\<lambda>d. d"
proof
  show "x \<in> set (HN_RET_LOGIN_pieces d) \<Longrightarrow> HN_RET_LOGIN_good d \<Longrightarrow> fst x \<noteq> [] \<Longrightarrow> ci_buffer s = fst x @ rest \<Longrightarrow>
      \<not> legitimate_message_end s \<Longrightarrow> \<exists>tag s1. ReadTagWithCutoffNoLastTag 0x7F s = Some ((tag, True), s1)
        \<and> HN_RET_LOGIN_switch tag a s1 = Some (Some (True, snd x a, s\<lparr>ci_buffer := rest\<rparr>))" for x d s rest a
    using HN_RET_LOGIN_pieces_read [of d x] unfolding piece_reads_def by blast
qed (simp_all only: HN_RET_LOGIN_inside HN_RET_LOGIN_pieces_all HN_RET_LOGIN_written HN_RET_LOGIN_counted)

lemma HN_RET_LOGIN_merged: "fold read_piece (HN_RET_LOGIN_pieces d) a = HN_RET_LOGIN_MergeFrom d a"
proof -
  have assign: "read_piece (uint32_piece f v1 (\<lambda>v d. d\<lparr>hnl_uid := v\<rparr>)) a = a\<lparr>hnl_uid := (if v1 \<noteq> 0 then v1 else hnl_uid a)\<rparr>"
    "read_piece (string_piece f v2 (\<lambda>v d. d\<lparr>hnl_account := v\<rparr>)) a = a\<lparr>hnl_account := (if v2 \<noteq> [] then v2 else hnl_account a)\<rparr>"
    "read_piece (int32_piece f v3 (\<lambda>v d. d\<lparr>hnl_result := v\<rparr>)) a = a\<lparr>hnl_result := (if v3 \<noteq> 0 then v3 else hnl_result a)\<rparr>"
    for f v1 v2 v3 and a :: hn_ret_login by (simp_all add: read_piece_ifs)
  show ?thesis
    by (cases a) (simp add: HN_RET_LOGIN_pieces_def HN_RET_LOGIN_MergeFrom_def assign split del: if_split cong: if_cong)
qed

interpretation hnl_merge: wire_merge "0x7F" HN_RET_LOGIN_switch HN_RET_LOGIN_Clear HN_RET_LOGIN_pieces HN_RET_LOGIN_SerializeToArray HN_RET_LOGIN_ByteSizeLong HN_RET_LOGIN_good "\<lambda>d. d" HN_RET_LOGIN_MergeFrom
  by unfold_locales (simp only: HN_RET_LOGIN_pieces_all, simp only: HN_RET_LOGIN_merged)

lemma GC_LOGIN_inside: "switch_inside GC_LOGIN_switch"
  by (rule switch_insideI) (simp_all add: GC_LOGIN_switch_def no_tag_case)

lemma GC_LOGIN_pieces_read: "GC_LOGIN_good d \<Longrightarrow> x \<in> set (GC_LOGIN_pieces d) \<Longrightarrow> piece_reads 0x7F GC_LOGIN_switch x"
  by (auto simp: GC_LOGIN_pieces_def GC_LOGIN_good_def GC_LOGIN_switch_def tag_case_field tag_ok_field
    intro!: uint32_piece_reads int32_piece_reads string_piece_reads)

lemma GC_LOGIN_pieces_all: "fold read_piece (GC_LOGIN_pieces d) (GC_LOGIN_Clear d0) = d"
  by (simp add: GC_LOGIN_pieces_def GC_LOGIN_Clear_def read_pieces)

lemma GC_LOGIN_written: "GC_LOGIN_SerializeToArray d = concat (map fst (GC_LOGIN_pieces d))"
  by (simp only: GC_LOGIN_pieces_def GC_LOGIN_SerializeToArray_def fst_pieces list.map concat.simps append_Nil2)

lemma GC_LOGIN_counted: "GC_LOGIN_ByteSizeLong d = sum_list (map (length \<circ> fst) (GC_LOGIN_pieces d))"
  by (simp add: GC_LOGIN_pieces_def GC_LOGIN_ByteSizeLong_def piece_lengths ac_simps split del: if_split)

interpretation gcl: wire_class "0x7F" GC_LOGIN_switch GC_LOGIN_Clear GC_LOGIN_pieces GC_LOGIN_SerializeToArray GC_LOGIN_ByteSizeLong GC_LOGIN_good "\<lambda>d. d"
proof
  show "x \<in> set (GC_LOGIN_pieces d) \<Longrightarrow> GC_LOGIN_good d \<Longrightarrow> fst x \<noteq> [] \<Longrightarrow> ci_buffer s = fst x @ rest \<Longrightarrow>
      \<not> legitimate_message_end s \<Longrightarrow> \<exists>tag s1. ReadTagWithCutoffNoLastTag 0x7F s = Some ((tag, True), s1)
        \<and> GC_LOGIN_switch tag a s1 = Some (Some (True, snd x a, s\<lparr>ci_buffer := rest\<rparr>))" for x d s rest a
    using GC_LOGIN_pieces_read [of d x] unfolding piece_reads_def by blast
qed (simp_all only: GC_LOGIN_inside GC_LOGIN_pieces_all GC_LOGIN_written GC_LOGIN_counted)

lemma GC_LOGIN_merged: "fold read_piece (GC_LOGIN_pieces d) a = GC_LOGIN_MergeFrom d a"
proof -
  have assign: "read_piece (int32_piece f v1 (\<lambda>v d. d\<lparr>gcl_result := v\<rparr>)) a = a\<lparr>gcl_result := (if v1 \<noteq> 0 then v1 else gcl_result a)\<rparr>"
    for f v1 and a :: gc_login by (simp_all add: read_piece_ifs)
  show ?thesis
    by (cases a) (simp add: GC_LOGIN_pieces_def GC_LOGIN_MergeFrom_def assign split del: if_split cong: if_cong)
qed

interpretation gcl_merge: wire_merge "0x7F" GC_LOGIN_switch GC_LOGIN_Clear GC_LOGIN_pieces GC_LOGIN_SerializeToArray GC_LOGIN_ByteSizeLong GC_LOGIN_good "\<lambda>d. d" GC_LOGIN_MergeFrom
  by unfold_locales (simp only: GC_LOGIN_pieces_all, simp only: GC_LOGIN_merged)

lemma CG_LOGIN_inside: "switch_inside CG_LOGIN_switch"
  by (rule switch_insideI) (simp_all add: CG_LOGIN_switch_def no_tag_case)

lemma CG_LOGIN_pieces_read: "CG_LOGIN_good d \<Longrightarrow> x \<in> set (CG_LOGIN_pieces d) \<Longrightarrow> piece_reads 0x3FFF CG_LOGIN_switch x"
  by (auto simp: CG_LOGIN_pieces_def CG_LOGIN_good_def CG_LOGIN_switch_def tag_case_field tag_ok_field
    intro!: uint32_piece_reads int32_piece_reads string_piece_reads)

lemma CG_LOGIN_pieces_all: "fold read_piece (CG_LOGIN_pieces d) (CG_LOGIN_Clear d0) = d"
  by (simp add: CG_LOGIN_pieces_def CG_LOGIN_Clear_def read_pieces)

lemma CG_LOGIN_written: "CG_LOGIN_SerializeToArray d = concat (map fst (CG_LOGIN_pieces d))"
  by (simp only: CG_LOGIN_pieces_def CG_LOGIN_SerializeToArray_def fst_pieces list.map concat.simps append_Nil2)

lemma CG_LOGIN_counted: "CG_LOGIN_ByteSizeLong d = sum_list (map (length \<circ> fst) (CG_LOGIN_pieces d))"
  by (simp add: CG_LOGIN_pieces_def CG_LOGIN_ByteSizeLong_def piece_lengths ac_simps split del: if_split)

interpretation cgl: wire_class "0x3FFF" CG_LOGIN_switch CG_LOGIN_Clear CG_LOGIN_pieces CG_LOGIN_SerializeToArray CG_LOGIN_ByteSizeLong CG_LOGIN_good "\<lambda>d. d"
proof
  show "x \<in> set (CG_LOGIN_pieces d) \<Longrightarrow> CG_LOGIN_good d \<Longrightarrow> fst x \<noteq> [] \<Longrightarrow> ci_buffer s = fst x @ rest \<Longrightarrow>
      \<not> legitimate_message_end s \<Longrightarrow> \<exists>tag s1. ReadTagWithCutoffNoLastTag 0x3FFF s = Some ((tag, True), s1)
        \<and> CG_LOGIN_switch tag a s1 = Some (Some (True, snd x a, s\<lparr>ci_buffer := rest\<rparr>))" for x d s rest a
    using CG_LOGIN_pieces_read [of d x] unfolding piece_reads_def by blast
qed (simp_all only: CG_LOGIN_inside CG_LOGIN_pieces_all CG_LOGIN_written CG_LOGIN_counted)

lemma CG_LOGIN_merged: "fold read_piece (CG_LOGIN_pieces d) a = CG_LOGIN_MergeFrom d a"
proof -
  have assign: "read_piece (int32_piece f v1 (\<lambda>v d. d\<lparr>cgl_vtype := v\<rparr>)) a = a\<lparr>cgl_vtype := (if v1 \<noteq> 0 then v1 else cgl_vtype a)\<rparr>"
    "read_piece (int32_piece f v2 (\<lambda>v d. d\<lparr>cgl_gameversion := v\<rparr>)) a = a\<lparr>cgl_gameversion := (if v2 \<noteq> 0 then v2 else cgl_gameversion a)\<rparr>"
    "read_piece (int32_piece f v3 (\<lambda>v d. d\<lparr>cgl_programversion := v\<rparr>)) a = a\<lparr>cgl_programversion := (if v3 \<noteq> 0 then v3 else cgl_programversion a)\<rparr>"
    "read_piece (int32_piece f v4 (\<lambda>v d. d\<lparr>cgl_publicresourceversion := v\<rparr>)) a = a\<lparr>cgl_publicresourceversion := (if v4 \<noteq> 0 then v4 else cgl_publicresourceversion a)\<rparr>"
    "read_piece (int32_piece f v5 (\<lambda>v d. d\<lparr>cgl_maxpacketid := v\<rparr>)) a = a\<lparr>cgl_maxpacketid := (if v5 \<noteq> 0 then v5 else cgl_maxpacketid a)\<rparr>"
    "read_piece (int32_piece f v6 (\<lambda>v d. d\<lparr>cgl_forceenter := v\<rparr>)) a = a\<lparr>cgl_forceenter := (if v6 \<noteq> 0 then v6 else cgl_forceenter a)\<rparr>"
    "read_piece (string_piece f v7 (\<lambda>v d. d\<lparr>cgl_deviceid := v\<rparr>)) a = a\<lparr>cgl_deviceid := (if v7 \<noteq> [] then v7 else cgl_deviceid a)\<rparr>"
    "read_piece (string_piece f v8 (\<lambda>v d. d\<lparr>cgl_devicetype := v\<rparr>)) a = a\<lparr>cgl_devicetype := (if v8 \<noteq> [] then v8 else cgl_devicetype a)\<rparr>"
    "read_piece (string_piece f v9 (\<lambda>v d. d\<lparr>cgl_deviceversion := v\<rparr>)) a = a\<lparr>cgl_deviceversion := (if v9 \<noteq> [] then v9 else cgl_deviceversion a)\<rparr>"
    "read_piece (string_piece f v10 (\<lambda>v d. d\<lparr>cgl_account := v\<rparr>)) a = a\<lparr>cgl_account := (if v10 \<noteq> [] then v10 else cgl_account a)\<rparr>"
    "read_piece (string_piece f v11 (\<lambda>v d. d\<lparr>cgl_validateinfo := v\<rparr>)) a = a\<lparr>cgl_validateinfo := (if v11 \<noteq> [] then v11 else cgl_validateinfo a)\<rparr>"
    "read_piece (string_piece f v12 (\<lambda>v d. d\<lparr>cgl_channelid := v\<rparr>)) a = a\<lparr>cgl_channelid := (if v12 \<noteq> [] then v12 else cgl_channelid a)\<rparr>"
    "read_piece (string_piece f v13 (\<lambda>v d. d\<lparr>cgl_mediachannel := v\<rparr>)) a = a\<lparr>cgl_mediachannel := (if v13 \<noteq> [] then v13 else cgl_mediachannel a)\<rparr>"
    "read_piece (int32_piece f v14 (\<lambda>v d. d\<lparr>cgl_rapidvalidatecode := v\<rparr>)) a = a\<lparr>cgl_rapidvalidatecode := (if v14 \<noteq> 0 then v14 else cgl_rapidvalidatecode a)\<rparr>"
    "read_piece (int32_piece f v15 (\<lambda>v d. d\<lparr>cgl_reservedint1 := v\<rparr>)) a = a\<lparr>cgl_reservedint1 := (if v15 \<noteq> 0 then v15 else cgl_reservedint1 a)\<rparr>"
    "read_piece (int32_piece f v16 (\<lambda>v d. d\<lparr>cgl_reservedint2 := v\<rparr>)) a = a\<lparr>cgl_reservedint2 := (if v16 \<noteq> 0 then v16 else cgl_reservedint2 a)\<rparr>"
    "read_piece (int32_piece f v17 (\<lambda>v d. d\<lparr>cgl_reservedint3 := v\<rparr>)) a = a\<lparr>cgl_reservedint3 := (if v17 \<noteq> 0 then v17 else cgl_reservedint3 a)\<rparr>"
    "read_piece (int32_piece f v18 (\<lambda>v d. d\<lparr>cgl_reservedint4 := v\<rparr>)) a = a\<lparr>cgl_reservedint4 := (if v18 \<noteq> 0 then v18 else cgl_reservedint4 a)\<rparr>"
    "read_piece (string_piece f v19 (\<lambda>v d. d\<lparr>cgl_reservedstring1 := v\<rparr>)) a = a\<lparr>cgl_reservedstring1 := (if v19 \<noteq> [] then v19 else cgl_reservedstring1 a)\<rparr>"
    "read_piece (string_piece f v20 (\<lambda>v d. d\<lparr>cgl_reservedstring2 := v\<rparr>)) a = a\<lparr>cgl_reservedstring2 := (if v20 \<noteq> [] then v20 else cgl_reservedstring2 a)\<rparr>"
    "read_piece (string_piece f v21 (\<lambda>v d. d\<lparr>cgl_reservedstring3 := v\<rparr>)) a = a\<lparr>cgl_reservedstring3 := (if v21 \<noteq> [] then v21 else cgl_reservedstring3 a)\<rparr>"
    "read_piece (string_piece f v22 (\<lambda>v d. d\<lparr>cgl_reservedstring4 := v\<rparr>)) a = a\<lparr>cgl_reservedstring4 := (if v22 \<noteq> [] then v22 else cgl_reservedstring4 a)\<rparr>"
    for f v1 v2 v3 v4 v5 v6 v7 v8 v9 v10 v11 v12 v13 v14 v15 v16 v17 v18 v19 v20 v21 v22 and a :: cg_login by (simp_all add: read_piece_ifs)
  show ?thesis
    by (cases a) (simp add: CG_LOGIN_pieces_def CG_LOGIN_MergeFrom_def assign split del: if_split cong: if_cong)
qed

interpretation cgl_merge: wire_merge "0x3FFF" CG_LOGIN_switch CG_LOGIN_Clear CG_LOGIN_pieces CG_LOGIN_SerializeToArray CG_LOGIN_ByteSizeLong CG_LOGIN_good "\<lambda>d. d" CG_LOGIN_MergeFrom
  by unfold_locales (simp only: CG_LOGIN_pieces_all, simp only: CG_LOGIN_merged)

section \<open>The generated classes write what they say\<close>

lemma MessageLite_writes:
  assumes "byte_size d = length (serialize d)" "byte_size d < 2 ^ 31"
  shows "protobuf_writes (MessageLite_over cutoff switch clear serialize byte_size) d"
    "sint (ByteSize (MessageLite_over cutoff switch clear serialize byte_size) d) = int (byte_size d)"
    "byte_size d < 2 ^ 16 \<Longrightarrow> snd (SerializePartialToArray (MessageLite_over cutoff switch clear serialize byte_size) d 65535) = serialize d"
    "byte_size d \<le> 65511 \<Longrightarrow> snd (SerializePartialToArray (MessageLite_over cutoff switch clear serialize byte_size) d 65511) = serialize d"
  using assms sint_small [OF assms(2)]
  by (simp_all add: protobuf_writes_def MessageLite_over_def SerializePartialToArray_over_def not_less [symmetric])

end
