(* ===== verification/WirePacked.thy ===== *)
theory WirePacked
  imports WireFields
begin

text \<open>
  Repeated numbers: \<open>RepeatedField\<close> of \<open>lib/google/protobuf/repeated_field.h\<close> with its capacity, on which
  the reading of a field that is not packed depends, and the two ways to read such a field of
  \<open>wire_format_lite_inl.h\<close>.
\<close>

section \<open>The container\<close>

record 'a repeated_field =
  rf_elements :: "'a list"
  rf_total_size :: nat

definition RepeatedField_new :: "'a repeated_field" where
  "RepeatedField_new = \<lparr>rf_elements = [], rf_total_size = 0\<rparr>"

definition kMinRepeatedFieldAllocationSize :: nat where
  "kMinRepeatedFieldAllocationSize = 4"

definition RepeatedField_Reserve :: "nat \<Rightarrow> 'a repeated_field \<Rightarrow> 'a repeated_field" where
  "RepeatedField_Reserve new_size r =
     (if new_size \<le> rf_total_size r then r
      else r\<lparr>rf_total_size := max kMinRepeatedFieldAllocationSize (max (rf_total_size r * 2) new_size)\<rparr>)"

definition RepeatedField_Add :: "'a \<Rightarrow> 'a repeated_field \<Rightarrow> 'a repeated_field" where
  "RepeatedField_Add value r =
     (let r1 = (if length (rf_elements r) = rf_total_size r then RepeatedField_Reserve (rf_total_size r + 1) r else r)
      in r1\<lparr>rf_elements := rf_elements r1 @ [value]\<rparr>)"

definition RepeatedField_AddAlreadyReserved :: "'a \<Rightarrow> 'a repeated_field \<Rightarrow> 'a repeated_field" where
  "RepeatedField_AddAlreadyReserved value r = r\<lparr>rf_elements := rf_elements r @ [value]\<rparr>"

definition RepeatedField_MergeFrom :: "'a repeated_field \<Rightarrow> 'a repeated_field \<Rightarrow> 'a repeated_field" where
  "RepeatedField_MergeFrom other r =
     (if rf_elements other = [] then r
      else let r1 = RepeatedField_Reserve (length (rf_elements r) + length (rf_elements other)) r
           in r1\<lparr>rf_elements := rf_elements r1 @ rf_elements other\<rparr>)"

section \<open>Writing\<close>

definition WriteUInt32NoTagToArray :: "tuint32 list \<Rightarrow> tbyte list" where
  "WriteUInt32NoTagToArray vals = concat (map WriteVarintToArray vals)"

definition UInt32Size_repeated :: "tuint32 list \<Rightarrow> nat" where
  "UInt32Size_repeated vals = fold (\<lambda>v out. out + VarintSize32 v) vals 0"

section \<open>Reading\<close>

definition INT_MAX :: nat where "INT_MAX = 2147483647"

definition ReadVarintSizeAsInt :: "tbyte list \<Rightarrow> (nat option \<times> tbyte list) option" where
  "ReadVarintSizeAsInt buffer =
     (if buffer \<noteq> [] \<and> unat (hd buffer) < 0x80 then Some (Some (unat (hd buffer)), tl buffer)
      else if varint_safe buffer
      then (case ReadVarint64FromArray buffer of
              None \<Rightarrow> None
            | Some (None, _) \<Rightarrow> Some (None, buffer)
            | Some (Some temp, ptr) \<Rightarrow> if INT_MAX < unat temp then Some (None, buffer) else Some (Some (unat temp), ptr))
      else (case ReadVarint64Fallback buffer of
              None \<Rightarrow> None
            | Some (None, rest) \<Rightarrow> Some (None, rest)
            | Some (Some p, rest) \<Rightarrow> if INT_MAX < unat p then Some (None, rest) else Some (Some (unat p), rest)))"

text \<open>
  A limit that is pushed cuts the buffer, unless it lies behind the array's end. Every round takes a byte
  at least.
\<close>

fun read_until_limit :: "nat \<Rightarrow> tuint32 repeated_field \<Rightarrow> coded_input \<Rightarrow> (bool \<times> tuint32 repeated_field \<times> coded_input) option" where
  "read_until_limit 0 vals s = None"
| "read_until_limit (Suc fuel) vals s =
     (if ci_buffer s = [] then Some (True, vals, s)
      else case ReadUInt32 s of
             None \<Rightarrow> None
           | Some (None, s1) \<Rightarrow> Some (False, vals, s1)
           | Some (Some v, s1) \<Rightarrow> read_until_limit fuel (RepeatedField_Add v vals) s1)"

definition ReadPackedPrimitive :: "tuint32 repeated_field \<Rightarrow> coded_input \<Rightarrow> (bool \<times> tuint32 repeated_field \<times> coded_input) option" where
  "ReadPackedPrimitive vals s =
     (case ReadVarintSizeAsInt (ci_buffer s) of
        None \<Rightarrow> None
      | Some (None, rest) \<Rightarrow> Some (False, vals, s\<lparr>ci_buffer := rest\<rparr>)
      | Some (Some len, rest) \<Rightarrow>
          let limit = (if len < length rest then len else length rest)
          in case read_until_limit (Suc limit) vals (s\<lparr>ci_buffer := take limit rest\<rparr>) of
               None \<Rightarrow> None
             | Some (False, vals1, s1) \<Rightarrow> Some (False, vals1, s1)
             | Some (True, vals1, s1) \<Rightarrow>
                 Some (True, vals1, s1\<lparr>ci_buffer := ci_buffer s1 @ drop limit rest, legitimate_message_end := False\<rparr>))"

text \<open>A tag of one byte.\<close>

definition ExpectTag :: "tuint32 \<Rightarrow> coded_input \<Rightarrow> bool \<times> coded_input" where
  "ExpectTag expected s =
     (case ci_buffer s of
        [] \<Rightarrow> (False, s)
      | b # rest \<Rightarrow> if ucast b = expected then (True, s\<lparr>ci_buffer := rest\<rparr>) else (False, s))"

text \<open>The values that follow while there is room: as many rounds as elements are reserved.\<close>

fun read_reserved :: "nat \<Rightarrow> tuint32 \<Rightarrow> tuint32 repeated_field \<Rightarrow> coded_input \<Rightarrow> (bool \<times> tuint32 repeated_field \<times> coded_input) option" where
  "read_reserved 0 tag vals s = Some (True, vals, s)"
| "read_reserved (Suc elements_already_reserved) tag vals s =
     (let (found, s1) = ExpectTag tag s
      in if \<not> found then Some (True, vals, s1)
         else case ReadUInt32 s1 of
                None \<Rightarrow> None
              | Some (None, s2) \<Rightarrow> Some (False, vals, s2)
              | Some (Some v, s2) \<Rightarrow> read_reserved elements_already_reserved tag (RepeatedField_AddAlreadyReserved v vals) s2)"

definition ReadRepeatedPrimitive :: "tuint32 \<Rightarrow> tuint32 repeated_field \<Rightarrow> coded_input \<Rightarrow> (bool \<times> tuint32 repeated_field \<times> coded_input) option" where
  "ReadRepeatedPrimitive tag vals s =
     (case ReadUInt32 s of
        None \<Rightarrow> None
      | Some (None, s1) \<Rightarrow> Some (False, vals, s1)
      | Some (Some v, s1) \<Rightarrow>
          let vals1 = RepeatedField_Add v vals
          in read_reserved (rf_total_size vals1 - length (rf_elements vals1)) tag vals1 s1)"

section \<open>Reading stays inside\<close>

lemma ReadVarint64Fallback_inside: "\<exists>p rest. ReadVarint64Fallback bs = Some (p, rest) \<and> length rest \<le> length bs"
proof -
  obtain rest0 where r: "ReadVarint64Fallback bs = Some (read_result rest0 bs)" "length rest0 \<le> length bs"
    using ReadVarint64Fallback_value by blast
  then show ?thesis
    using read_result_not_longer [OF r(2), where 'a = 64] by (cases "read_result rest0 bs :: tuint64 option \<times> _") auto
qed

lemma ReadVarintSizeAsInt_inside: "\<exists>p rest. ReadVarintSizeAsInt bs = Some (p, rest) \<and> length rest \<le> length bs"
proof (cases "bs \<noteq> [] \<and> unat (hd bs) < 0x80")
  case True
  then show ?thesis by (simp add: ReadVarintSizeAsInt_def)
next
  case slow: False
  show ?thesis
  proof (cases "varint_safe bs")
    case True
    then show ?thesis
      using slow varint_safe_reads [OF True] varint_value_shorter [of 10 bs]
      by (cases "varint_value 10 bs") (auto simp: ReadVarintSizeAsInt_def ReadVarint64FromArray_value less_imp_le)
  next
    case False
    then show ?thesis
      using slow ReadVarint64Fallback_inside [of bs] by (auto simp: ReadVarintSizeAsInt_def split: option.splits)
  qed
qed

lemma ReadUInt32_shorter:
  "\<exists>p s1. ReadUInt32 s = Some (p, s1) \<and> inside s s1 \<and> (p \<noteq> None \<longrightarrow> length (ci_buffer s1) < length (ci_buffer s))"
proof -
  obtain rest0 where r: "ReadVarint32 (ci_buffer s) = Some (read_result rest0 (ci_buffer s))" "length rest0 \<le> length (ci_buffer s)"
    using ReadVarint32_value by blast
  obtain p :: "tuint32 option" and rest where "read_result rest0 (ci_buffer s) = (p, rest)" by fastforce
  then show ?thesis
    using r read_result_not_longer [OF r(2), where 'a = 32] read_result_shorter [of rest0 "ci_buffer s" _ rest]
    by (auto simp: ReadUInt32_def inside_def)
qed

lemma read_until_limit_inside:
  "length (ci_buffer s) < fuel \<Longrightarrow> \<exists>ok vs s1. read_until_limit fuel vals s = Some (ok, vs, s1) \<and> inside s s1"
proof (induction fuel arbitrary: vals s)
  case (Suc fuel)
  obtain p s1 where u: "ReadUInt32 s = Some (p, s1)" "inside s s1" "p \<noteq> None \<longrightarrow> length (ci_buffer s1) < length (ci_buffer s)"
    using ReadUInt32_shorter by blast
  show ?case
  proof (cases p)
    case None
    then show ?thesis using u by (auto simp: inside_def)
  next
    case (Some v)
    then have "length (ci_buffer s1) < fuel" using u(3) Suc.prems by simp
    from Suc.IH [OF this, of "RepeatedField_Add v vals"] show ?thesis
      using u Some inside_trans [OF u(2)] by (auto simp: inside_def)
  qed
qed simp

lemma ReadPackedPrimitive_inside: "\<exists>ok vs s1. ReadPackedPrimitive vals s = Some (ok, vs, s1) \<and> inside s s1"
proof -
  obtain p rest where r: "ReadVarintSizeAsInt (ci_buffer s) = Some (p, rest)" "length rest \<le> length (ci_buffer s)"
    using ReadVarintSizeAsInt_inside by blast
  show ?thesis
  proof (cases p)
    case None
    then show ?thesis using r by (auto simp: ReadPackedPrimitive_def inside_def)
  next
    case (Some len)
    define limit where "limit = (if len < length rest then len else length rest)"
    have l: "limit \<le> length rest" by (simp add: limit_def)
    define s0 where "s0 = s\<lparr>ci_buffer := take limit rest\<rparr>"
    have s0: "length (ci_buffer s0) = limit" using l by (simp add: s0_def)
    have "length (ci_buffer s0) < Suc limit" using s0 by simp
    from read_until_limit_inside [OF this, of vals] obtain ok vs s1
      where m: "read_until_limit (Suc limit) vals s0 = Some (ok, vs, s1)" "inside s0 s1" by blast
    have "length (ci_buffer s1) \<le> limit" using m(2) s0 by (simp add: inside_def)
    then have "length (ci_buffer s1) + length rest - limit \<le> length (ci_buffer s)" using r(2) l by arith
    then show ?thesis
      using r l m(1) unfolding s0_def
      by (cases ok) (auto simp: ReadPackedPrimitive_def Some Let_def limit_def [symmetric] inside_def simp del: read_until_limit.simps)
  qed
qed

lemma ExpectTag_inside: "inside s (snd (ExpectTag tag s))"
  by (simp add: ExpectTag_def inside_def split: list.splits)

lemma read_reserved_inside: "\<exists>ok vs s1. read_reserved n tag vals s = Some (ok, vs, s1) \<and> inside s s1"
proof (induction n arbitrary: vals s)
  case (Suc n)
  obtain found s1 where e: "ExpectTag tag s = (found, s1)" "inside s s1"
    using ExpectTag_inside [of s tag] by (cases "ExpectTag tag s") simp
  obtain p s2 where u: "ReadUInt32 s1 = Some (p, s2)" "inside s1 s2" using ReadUInt32_inside by blast
  have "inside s s2" using e(2) u(2) by (rule inside_trans)
  then show ?case
    using Suc.IH [of _ s2] e u inside_trans [of s s2] by (cases p) (fastforce simp: Let_def)+
qed (auto simp: inside_def)

lemma ReadRepeatedPrimitive_inside: "\<exists>ok vs s1. ReadRepeatedPrimitive tag vals s = Some (ok, vs, s1) \<and> inside s s1"
proof -
  obtain p s1 where u: "ReadUInt32 s = Some (p, s1)" "inside s s1" using ReadUInt32_inside by blast
  show ?thesis
  proof (cases p)
    case (Some v)
    define vals1 where "vals1 = RepeatedField_Add v vals"
    obtain ok vs s2 where "read_reserved (rf_total_size vals1 - length (rf_elements vals1)) tag vals1 s1 = Some (ok, vs, s2)"
      "inside s1 s2" using read_reserved_inside by blast
    then show ?thesis
      using u Some inside_trans [OF u(2)] by (simp add: ReadRepeatedPrimitive_def Let_def vals1_def [symmetric])
  qed (use u in \<open>auto simp: ReadRepeatedPrimitive_def\<close>)
qed

section \<open>Reading what was written\<close>

lemma ReadVarintSizeAsInt_written:
  assumes "n \<le> INT_MAX"
  shows "ReadVarintSizeAsInt (WriteVarintToArray (word_of_nat n :: tuint32) @ rest) = Some (Some n, rest)"
proof -
  have n: "unat (word_of_nat n :: tuint32) = n" using assms by (intro unat_of_nat_small) (simp add: INT_MAX_def)
  have n64: "unat (word_of_nat n :: tuint64) = n" using assms by (intro unat_of_nat_small) (simp add: INT_MAX_def)
  define bs where "bs = varint_bytes n @ rest"
  have v: "varint_value 10 bs = Some (n, rest)" unfolding bs_def
    using assms by (intro varint_bytes_value) (simp_all add: INT_MAX_def)
  have "ReadVarint64Fallback bs = Some (Some (word_of_nat n), rest)"
    using ReadVarint64Fallback_value [of bs] v by (auto simp: read_result_def)
  moreover have "varint_safe bs \<Longrightarrow> ReadVarint64FromArray bs = Some (Some (word_of_nat n), rest)"
    using v by (simp add: ReadVarint64FromArray_value)
  moreover have "bs \<noteq> [] \<and> unat (hd bs) < 128 \<Longrightarrow> unat (hd bs) = n \<and> tl bs = rest"
    using varint_value_first [of bs 9] v by simp
  ultimately have "ReadVarintSizeAsInt bs = Some (Some n, rest)"
    using assms n64 unfolding ReadVarintSizeAsInt_def by auto
  then show ?thesis unfolding bs_def WriteVarint_bytes n .
qed

lemma read_until_limit_written:
  "ci_buffer s = WriteUInt32NoTagToArray vs \<Longrightarrow> length (ci_buffer s) < fuel \<Longrightarrow>
    read_until_limit fuel vals s = Some (True, fold RepeatedField_Add vs vals, s\<lparr>ci_buffer := []\<rparr>)"
proof (induction vs arbitrary: s fuel vals)
  case Nil
  then show ?case by (cases fuel) (simp_all add: WriteUInt32NoTagToArray_def)
next
  case (Cons v vs)
  obtain f where f: "fuel = Suc f" using Cons.prems(2) by (cases fuel) auto
  let ?s = "s\<lparr>ci_buffer := WriteUInt32NoTagToArray vs\<rparr>"
  have b: "ci_buffer s = WriteVarintToArray v @ WriteUInt32NoTagToArray vs"
    using Cons.prems(1) by (simp add: WriteUInt32NoTagToArray_def)
  have ne: "WriteVarintToArray v \<noteq> []" by (simp add: WriteVarint_bytes)
  have "length (ci_buffer ?s) < f" using Cons.prems(2) ne unfolding b f by (cases "WriteVarintToArray v") simp_all
  with Cons.IH [of ?s f "RepeatedField_Add v vals"] show ?case
    using ne by (simp add: f ReadUInt32_written [OF b]) (simp add: b)
qed

lemma ReadPackedPrimitive_written:
  assumes "ci_buffer s = WriteVarintToArray (word_of_nat (length bytes) :: tuint32) @ bytes @ rest"
    and "bytes = WriteUInt32NoTagToArray vs" "length bytes \<le> INT_MAX" "\<not> legitimate_message_end s"
  shows "ReadPackedPrimitive vals s = Some (True, fold RepeatedField_Add vs vals, s\<lparr>ci_buffer := rest\<rparr>)"
proof -
  have l: "(if length bytes < length (bytes @ rest) then length bytes else length (bytes @ rest)) = length bytes" by simp
  have "read_until_limit (Suc (length bytes)) vals (s\<lparr>ci_buffer := bytes\<rparr>) =
      Some (True, fold RepeatedField_Add vs vals, s\<lparr>ci_buffer := []\<rparr>)"
    using read_until_limit_written [of "s\<lparr>ci_buffer := bytes\<rparr>" vs] assms(2) by (simp del: read_until_limit.simps)
  then show ?thesis
    using assms(4) unfolding ReadPackedPrimitive_def assms(1) ReadVarintSizeAsInt_written [OF assms(3)]
    by (simp add: l del: read_until_limit.simps)
qed

end
