(* ===== verification/TitleProto.thy ===== *)
theory TitleProto
  imports WirePacked LoginProtos
begin

text \<open>
  \<open>DBCharTitle\<close> of \<open>test/DBStruct.pb.cc\<close>, the message stored as the title of a character: a number, a
  packed list of numbers and a list of texts. The list of numbers may also come unpacked; the values that
  follow the first are then looked for with the tag of the packed field.
\<close>

section \<open>\<open>DBCharTitle\<close>\<close>

record db_char_title =
  dct_version :: tint32
  dct_uid :: "tuint32 repeated_field"
  dct_title :: "tbyte list list"

definition DBCharTitle_new :: db_char_title where
  "DBCharTitle_new = \<lparr>dct_version = 0, dct_uid = RepeatedField_new, dct_title = []\<rparr>"

definition DBCharTitle_Clear :: "db_char_title \<Rightarrow> db_char_title" where
  "DBCharTitle_Clear d = d\<lparr>dct_uid := (dct_uid d)\<lparr>rf_elements := []\<rparr>, dct_title := [], dct_version := 0\<rparr>"

definition DBCharTitle_MergeFrom :: "db_char_title \<Rightarrow> db_char_title \<Rightarrow> db_char_title" where
  "DBCharTitle_MergeFrom src d = d\<lparr>
     dct_uid := RepeatedField_MergeFrom (dct_uid src) (dct_uid d),
     dct_title := dct_title d @ dct_title src,
     dct_version := (if dct_version src \<noteq> 0 then dct_version src else dct_version d)\<rparr>"

text \<open>What a reader of a repeated field gives, stored; and a text, which is added before it is read.\<close>

definition repeated_case :: "('r \<Rightarrow> 'd) \<Rightarrow> (bool \<times> 'r \<times> coded_input) option \<Rightarrow> (bool \<times> 'd \<times> coded_input) option" where
  "repeated_case put r = map_option (\<lambda>(ok, vals, s1). (ok, put vals, s1)) r"

definition DBCharTitle_switch :: "db_char_title field_switch" where
  "DBCharTitle_switch tag d s =
     (if tag_case 1 8 tag then Some (uint32_case (\<lambda>v. d\<lparr>dct_version := v\<rparr>) d s)
      else if tag_case 2 18 tag then Some (repeated_case (\<lambda>r. d\<lparr>dct_uid := r\<rparr>) (ReadPackedPrimitive (dct_uid d) s))
      else if tag_case 2 16 tag then Some (repeated_case (\<lambda>r. d\<lparr>dct_uid := r\<rparr>) (ReadRepeatedPrimitive 18 (dct_uid d) s))
      else if tag_case 3 26 tag then Some (string_case VerifyUtf8String (\<lambda>v. d\<lparr>dct_title := dct_title d @ [v]\<rparr>) [] s)
      else None)"

text \<open>The bytes of the numbers are counted by \<open>ByteSizeLong\<close>, which runs before.\<close>

definition DBCharTitle_SerializeToArray :: "db_char_title \<Rightarrow> tbyte list" where
  "DBCharTitle_SerializeToArray d =
     (let uid_cached_byte_size = word_of_nat (UInt32Size_repeated (rf_elements (dct_uid d))) :: tuint32
      in (if dct_version d \<noteq> 0 then WriteInt32ToArray 1 (dct_version d) else []) @
         (if 0 < length (rf_elements (dct_uid d))
          then WriteTagToArray 2 WIRETYPE_LENGTH_DELIMITED @ WriteVarintToArray uid_cached_byte_size
            @ WriteUInt32NoTagToArray (rf_elements (dct_uid d))
          else []) @
         concat (map (WriteStringToArray 3) (dct_title d)))"

definition DBCharTitle_ByteSizeLong :: "db_char_title \<Rightarrow> nat" where
  "DBCharTitle_ByteSizeLong d =
     (let data_size = UInt32Size_repeated (rf_elements (dct_uid d));
          total_size = (if 0 < data_size then 1 + VarintSize32SignExtended (word_of_nat data_size) else 0) + data_size;
          total_size = total_size + length (dct_title d);
          total_size = fold (\<lambda>t total. total + LengthDelimitedSize (length t)) (dct_title d) total_size
      in total_size + (if dct_version d \<noteq> 0 then 1 + VarintSize32SignExtended (dct_version d) else 0))"

definition DBCharTitle_protobuf :: "db_char_title protobuf" where
  "DBCharTitle_protobuf =
     MessageLite_over 0x7F DBCharTitle_switch DBCharTitle_Clear DBCharTitle_SerializeToArray DBCharTitle_ByteSizeLong"

section \<open>The pieces\<close>

definition packed_piece :: "nat \<Rightarrow> tuint32 list \<Rightarrow> (tuint32 list \<Rightarrow> 'd \<Rightarrow> 'd) \<Rightarrow> 'd piece" where
  "packed_piece field vs put =
     (if vs \<noteq> [] then WriteTagToArray field WIRETYPE_LENGTH_DELIMITED
        @ WriteVarintToArray (word_of_nat (UInt32Size_repeated vs) :: tuint32) @ WriteUInt32NoTagToArray vs
      else [], put vs)"

definition DBCharTitle_pieces :: "db_char_title \<Rightarrow> db_char_title piece list" where
  "DBCharTitle_pieces d =
     int32_piece 1 (dct_version d) (\<lambda>v d. d\<lparr>dct_version := v\<rparr>)
     # packed_piece 2 (rf_elements (dct_uid d)) (\<lambda>vs d. d\<lparr>dct_uid := fold RepeatedField_Add vs (dct_uid d)\<rparr>)
     # map (\<lambda>t. (WriteStringToArray 3 t, \<lambda>d. d\<lparr>dct_title := dct_title d @ [t]\<rparr>)) (dct_title d)"

definition DBCharTitle_good :: "db_char_title \<Rightarrow> bool" where
  "DBCharTitle_good d \<longleftrightarrow> UInt32Size_repeated (rf_elements (dct_uid d)) \<le> INT_MAX \<and> list_all text_field (dct_title d)"

definition DBCharTitle_view :: "db_char_title \<Rightarrow> tint32 \<times> tuint32 list \<times> tbyte list list" where
  "DBCharTitle_view d = (dct_version d, rf_elements (dct_uid d), dct_title d)"

lemma UInt32Size_repeated_length: "UInt32Size_repeated vs = length (WriteUInt32NoTagToArray vs)"
proof -
  have "fold (\<lambda>v out. out + VarintSize32 v) vs n = n + length (WriteUInt32NoTagToArray vs)" for n
    by (induction vs arbitrary: n) (simp_all add: WriteUInt32NoTagToArray_def VarintSize32_length)
  then show ?thesis by (simp add: UInt32Size_repeated_def)
qed

lemma WriteUInt32NoTagToArray_Nil [simp]: "WriteUInt32NoTagToArray vs = [] \<longleftrightarrow> vs = []"
  by (cases vs) (simp_all add: WriteUInt32NoTagToArray_def WriteVarint_bytes)

lemma rf_elements_fold_Add [simp]: "rf_elements (fold RepeatedField_Add vs r) = rf_elements r @ vs"
  by (induction vs arbitrary: r) (simp_all add: RepeatedField_Add_def RepeatedField_Reserve_def Let_def)

lemma packed_piece_reads:
  assumes "tag_ok cutoff (MakeTag field WIRETYPE_LENGTH_DELIMITED)" "UInt32Size_repeated vs \<le> INT_MAX"
    and "\<And>a s. switch (MakeTag field WIRETYPE_LENGTH_DELIMITED) a s = Some (repeated_case (\<lambda>r. put r a) (ReadPackedPrimitive (get a) s))"
  shows "piece_reads cutoff switch (packed_piece field vs (\<lambda>vs a. put (fold RepeatedField_Add vs (get a)) a))"
proof (rule piece_readsI [OF _ assms(1)])
  fix s :: coded_input and rest a
  let ?bytes = "WriteUInt32NoTagToArray vs"
  assume "ci_buffer s = (WriteVarintToArray (word_of_nat (UInt32Size_repeated vs) :: tuint32) @ ?bytes) @ rest"
    and l: "\<not> legitimate_message_end s"
  then have "ci_buffer s = WriteVarintToArray (word_of_nat (length ?bytes) :: tuint32) @ ?bytes @ rest"
    by (simp add: UInt32Size_repeated_length)
  from ReadPackedPrimitive_written [OF this refl _ l] assms(2)
  show "switch (MakeTag field WIRETYPE_LENGTH_DELIMITED) a s =
      Some (Some (True, snd (packed_piece field vs (\<lambda>vs a. put (fold RepeatedField_Add vs (get a)) a)) a, s\<lparr>ci_buffer := rest\<rparr>))"
    by (simp add: assms(3) repeated_case_def packed_piece_def UInt32Size_repeated_length)
qed (simp add: packed_piece_def)

lemma repeated_case_inside:
  "\<exists>ok r s1. x = Some (ok, r, s1) \<and> inside s s1 \<Longrightarrow> case_inside s (Some (repeated_case put x))"
  by (auto simp: case_inside_def repeated_case_def)

lemma DBCharTitle_inside: "switch_inside DBCharTitle_switch"
  by (rule switch_insideI)
    (simp_all add: DBCharTitle_switch_def no_tag_case repeated_case_inside ReadPackedPrimitive_inside ReadRepeatedPrimitive_inside)

lemma title_piece_reads:
  assumes "text_field t"
  shows "piece_reads 0x7F DBCharTitle_switch (WriteStringToArray 3 t, \<lambda>d. d\<lparr>dct_title := dct_title d @ [t]\<rparr>)"
proof (rule piece_readsI [where field = 3 and type = WIRETYPE_LENGTH_DELIMITED
    and bytes = "WriteVarintToArray (word_of_nat (length t) :: tuint32) @ t"])
  fix s :: coded_input and rest a
  assume "ci_buffer s = (WriteVarintToArray (word_of_nat (length t) :: tuint32) @ t) @ rest"
  then have "ReadString [] s = Some (True, t, s\<lparr>ci_buffer := rest\<rparr>)"
    using assms by (intro ReadString_written) (simp_all add: text_field_def)
  then show "DBCharTitle_switch (MakeTag 3 WIRETYPE_LENGTH_DELIMITED) a s =
      Some (Some (True, snd (WriteStringToArray 3 t, \<lambda>d. d\<lparr>dct_title := dct_title d @ [t]\<rparr>) a, s\<lparr>ci_buffer := rest\<rparr>))"
    using assms by (simp add: DBCharTitle_switch_def tag_case_field string_case_def VerifyUtf8String_def IsStructurallyValidUTF8_text text_field_def)
qed (simp_all add: WriteStringToArray_def tag_ok_field)

lemma DBCharTitle_pieces_read: "DBCharTitle_good d \<Longrightarrow> x \<in> set (DBCharTitle_pieces d) \<Longrightarrow> piece_reads 0x7F DBCharTitle_switch x"
  by (auto simp: DBCharTitle_pieces_def DBCharTitle_good_def list_all_iff DBCharTitle_switch_def tag_case_field tag_ok_field
    intro!: int32_piece_reads packed_piece_reads title_piece_reads)

lemma DBCharTitle_merged: "DBCharTitle_view (fold read_piece (DBCharTitle_pieces d) a) = DBCharTitle_view (DBCharTitle_MergeFrom d a)"
proof -
  have titles: "fold read_piece (map (\<lambda>t. (WriteStringToArray 3 t, \<lambda>d. d\<lparr>dct_title := dct_title d @ [t]\<rparr>)) ts) a
      = a\<lparr>dct_title := dct_title a @ ts\<rparr>" for ts and a :: db_char_title
    by (induction ts arbitrary: a) (simp_all add: read_piece_def WriteStringToArray_def WriteTagToArray_def WriteVarint_bytes)
  have packed: "read_piece (packed_piece f vs (\<lambda>vs d. d\<lparr>dct_uid := fold RepeatedField_Add vs (dct_uid d)\<rparr>)) a
      = a\<lparr>dct_uid := fold RepeatedField_Add vs (dct_uid a)\<rparr>" for f vs and a :: db_char_title
    by (simp add: read_piece_def packed_piece_def WriteTagToArray_def WriteVarint_bytes)
  show ?thesis
    by (simp add: DBCharTitle_pieces_def titles packed read_piece_ifs DBCharTitle_MergeFrom_def DBCharTitle_view_def
      RepeatedField_MergeFrom_def RepeatedField_Reserve_def Let_def)
qed

lemma DBCharTitle_pieces_all: "DBCharTitle_view (fold read_piece (DBCharTitle_pieces d) (DBCharTitle_Clear d0)) = DBCharTitle_view d"
  by (simp add: DBCharTitle_merged)
    (simp add: DBCharTitle_Clear_def DBCharTitle_MergeFrom_def DBCharTitle_view_def RepeatedField_MergeFrom_def RepeatedField_Reserve_def Let_def)

lemma DBCharTitle_pieces_merged:
  "DBCharTitle_view (fold read_piece (DBCharTitle_pieces d) (fold read_piece (DBCharTitle_pieces a) (DBCharTitle_Clear d0)))
    = DBCharTitle_view (DBCharTitle_MergeFrom d a)"
proof -
  have eq: "DBCharTitle_view (DBCharTitle_MergeFrom d x) = DBCharTitle_view (DBCharTitle_MergeFrom d y)"
    if "DBCharTitle_view x = DBCharTitle_view y" for x y
    using that by (simp add: DBCharTitle_MergeFrom_def DBCharTitle_view_def RepeatedField_MergeFrom_def RepeatedField_Reserve_def Let_def)
  show ?thesis unfolding DBCharTitle_merged by (rule eq [OF DBCharTitle_pieces_all])
qed

lemma DBCharTitle_written: "DBCharTitle_SerializeToArray d = concat (map fst (DBCharTitle_pieces d))"
  by (simp add: DBCharTitle_pieces_def DBCharTitle_SerializeToArray_def fst_pieces packed_piece_def Let_def comp_def)

lemma DBCharTitle_counted:
  assumes "DBCharTitle_good d"
  shows "DBCharTitle_ByteSizeLong d = sum_list (map (length \<circ> fst) (DBCharTitle_pieces d))"
proof -
  let ?vs = "rf_elements (dct_uid d)"
  have "UInt32Size_repeated ?vs < 2 ^ 31" using assms by (simp add: DBCharTitle_good_def INT_MAX_def)
  then have "\<not> sint (word_of_nat (UInt32Size_repeated ?vs) :: tint32) < 0" by (simp add: sint_small)
  then have sz: "VarintSize32SignExtended (word_of_nat (UInt32Size_repeated ?vs)) = VarintSize32 (word_of_nat (UInt32Size_repeated ?vs))"
    by (simp add: VarintSize32SignExtended_def)
  have titles: "length ts + fold (\<lambda>t total. total + LengthDelimitedSize (length t)) ts n
      = n + sum_list (map (length \<circ> (\<lambda>t. WriteStringToArray 3 t)) ts)" for ts and n :: nat
    by (induction ts arbitrary: n) (simp_all add: piece_sizes tag_size)
  have shift: "fold (\<lambda>t total. total + LengthDelimitedSize (length t)) ts (n + m)
      = n + fold (\<lambda>t total. total + LengthDelimitedSize (length t)) ts m" for ts and n m :: nat
    by (induction ts arbitrary: m) (simp_all add: add.assoc)
  have packed: "length (fst (packed_piece 2 ?vs put))
      = (if 0 < UInt32Size_repeated ?vs then 1 + VarintSize32 (word_of_nat (UInt32Size_repeated ?vs)) else 0) + UInt32Size_repeated ?vs" for put :: "_ \<Rightarrow> db_char_title \<Rightarrow> _"
    by (simp add: packed_piece_def tag_size VarintSize32_length UInt32Size_repeated_length)
  show ?thesis
    unfolding DBCharTitle_ByteSizeLong_def DBCharTitle_pieces_def Let_def sz
    using titles [of "dct_title d" 0] shift [of "dct_title d" "length (dct_title d)" 0]
    by (simp add: packed piece_lengths shift comp_def split del: if_split)
qed

interpretation dct: wire_class "0x7F" DBCharTitle_switch DBCharTitle_Clear DBCharTitle_pieces DBCharTitle_SerializeToArray
  DBCharTitle_ByteSizeLong DBCharTitle_good DBCharTitle_view
proof
  show "x \<in> set (DBCharTitle_pieces d) \<Longrightarrow> DBCharTitle_good d \<Longrightarrow> fst x \<noteq> [] \<Longrightarrow> ci_buffer s = fst x @ rest \<Longrightarrow>
      \<not> legitimate_message_end s \<Longrightarrow> \<exists>tag s1. ReadTagWithCutoffNoLastTag 0x7F s = Some ((tag, True), s1)
        \<and> DBCharTitle_switch tag a s1 = Some (Some (True, snd x a, s\<lparr>ci_buffer := rest\<rparr>))" for x d s rest a
    using DBCharTitle_pieces_read [of d x] unfolding piece_reads_def by blast
qed (simp_all only: DBCharTitle_inside DBCharTitle_pieces_all DBCharTitle_written DBCharTitle_counted)

interpretation dct_merge: wire_merge "0x7F" DBCharTitle_switch DBCharTitle_Clear DBCharTitle_pieces DBCharTitle_SerializeToArray
  DBCharTitle_ByteSizeLong DBCharTitle_good DBCharTitle_view DBCharTitle_MergeFrom
  by unfold_locales (rule DBCharTitle_pieces_merged)

end
