(* ===== verification/ProtoProps.thy ===== *)
theory ProtoProps
  imports LoginProtosFacts TitleProto
begin

text \<open>
  What is promised of protocol buffers: the readers of numbers and the check of texts against their
  references, the round trip of the generated classes, reading any bytes, and where the reader of
  \<open>DBCharTitle\<close> takes other values than were written.
\<close>

section \<open>Readers against their references\<close>

text \<open>C12: the readers of variable length numbers, with their unrolled fast paths that do not check the end
  of the array and the slow path that checks every byte, give on any bytes what the reference gives: the
  number of the first at most ten bytes modulo the width and the bytes behind it, or no number, and never
  read behind the array. So do the reader of a size, for sizes that are an \<open>int\<close>, and the writers' sizes.\<close>

theorem varint_readers_agree:
  "(\<exists>rest0. length rest0 \<le> length bs \<and> ReadVarint64 bs = Some (case varint_value 10 bs of
      Some (v, rest) \<Rightarrow> (Some (word_of_nat v), rest) | None \<Rightarrow> (None, rest0)))
    \<and> (\<exists>rest0. length rest0 \<le> length bs \<and> ReadVarint32 bs = Some (case varint_value 10 bs of
      Some (v, rest) \<Rightarrow> (Some (word_of_nat v), rest) | None \<Rightarrow> (None, rest0)))
    \<and> varint_value 10 (WriteVarintToArray (w :: tuint64) @ bs) = Some (unat w, bs)
    \<and> VarintSize32 v32 = length (WriteVarintToArray v32)
    \<and> VarintSize32SignExtended v32 = length (WriteVarint32SignExtendedToArray v32)"
proof (intro conjI)
  have "unat w < 2 ^ 64" using unsigned_less [of w, where 'a = nat] by simp
  then have "unat w < 128 ^ 10" by simp
  then show "varint_value 10 (WriteVarintToArray w @ bs) = Some (unat w, bs)"
    unfolding WriteVarint_bytes by (rule varint_bytes_value) simp
qed (use ReadVarint64_value [of bs] ReadVarint32_value [of bs] in
  \<open>auto simp: read_result_def VarintSize32_length VarintSize32SignExtended_length\<close>)

text \<open>C13: the check of a text with its table of states, its runs of eight bytes at a time and its steps back
  accepts exactly the texts that are the encoding of a list of code points without surrogates, wherever the
  bytes are in memory.\<close>

theorem utf8_check_exact: "IsStructurallyValidUTF8 addr bs \<longleftrightarrow> utf8_text bs"
  by (rule IsStructurallyValidUTF8_text)

section \<open>The generated classes\<close>

lemmas protobufs = NH_REQ_LOGIN_protobuf_def HN_RET_LOGIN_protobuf_def CG_LOGIN_protobuf_def GC_LOGIN_protobuf_def DBCharTitle_protobuf_def

text \<open>C10: a message of any generated class whose texts are valid is parsed from its own bytes with every
  field as it was, whatever the object held before, and its size is the number of the bytes.\<close>

theorem protos_round_trip:
  assumes "text_field (nhl_account r)" "text_field (nhl_validateinfo r)" "text_field (hnl_account a)"
    and "CG_LOGIN_good l" "DBCharTitle_good t"
  shows "(ParseFromArray NH_REQ_LOGIN_protobuf r0 (NH_REQ_LOGIN_SerializeToArray r) = (True, r)
      \<and> NH_REQ_LOGIN_ByteSizeLong r = length (NH_REQ_LOGIN_SerializeToArray r))
    \<and> (ParseFromArray HN_RET_LOGIN_protobuf a0 (HN_RET_LOGIN_SerializeToArray a) = (True, a)
      \<and> HN_RET_LOGIN_ByteSizeLong a = length (HN_RET_LOGIN_SerializeToArray a))
    \<and> (ParseFromArray CG_LOGIN_protobuf l0 (CG_LOGIN_SerializeToArray l) = (True, l)
      \<and> CG_LOGIN_ByteSizeLong l = length (CG_LOGIN_SerializeToArray l))
    \<and> (ParseFromArray GC_LOGIN_protobuf g0 (GC_LOGIN_SerializeToArray g) = (True, g)
      \<and> GC_LOGIN_ByteSizeLong g = length (GC_LOGIN_SerializeToArray g))
    \<and> ((case ParseFromArray DBCharTitle_protobuf t0 (DBCharTitle_SerializeToArray t) of (ok, t1) \<Rightarrow>
        ok \<and> dct_version t1 = dct_version t \<and> rf_elements (dct_uid t1) = rf_elements (dct_uid t) \<and> dct_title t1 = dct_title t)
      \<and> DBCharTitle_ByteSizeLong t = length (DBCharTitle_SerializeToArray t))"
proof -
  have r: "NH_REQ_LOGIN_good r" and a: "HN_RET_LOGIN_good a" and g: "GC_LOGIN_good g"
    using assms by (simp_all add: NH_REQ_LOGIN_good_def HN_RET_LOGIN_good_def GC_LOGIN_good_def)
  note parse = nhl.parse_serialize [OF r, of r0] hnl.parse_serialize [OF a, of a0] cgl.parse_serialize [OF assms(4), of l0]
    gcl.parse_serialize [OF g, of g0] dct.parse_serialize [OF assms(5), of t0]
  note sizes = nhl.size_written [OF r] hnl.size_written [OF a] cgl.size_written [OF assms(4)] gcl.size_written [OF g]
    dct.size_written [OF assms(5)]
  show ?thesis
    unfolding sizes using parse by (auto simp: protobufs MessageLite_over_def DBCharTitle_view_def)
qed

lemma text_fields: "text_field []" "text_field [0x41]" "text_field [0xC3, 0xA9]"
  by (simp_all add: ascii_text_field two_byte_text_field)

theorem protos_round_trip_witness:
  "ParseFromArray NH_REQ_LOGIN_protobuf \<lparr>nhl_uid = 1, nhl_account = [2], nhl_validateinfo = [3]\<rparr>
      (NH_REQ_LOGIN_SerializeToArray \<lparr>nhl_uid = 300, nhl_account = [0xC3, 0xA9], nhl_validateinfo = [0x41]\<rparr>)
    = (True, \<lparr>nhl_uid = 300, nhl_account = [0xC3, 0xA9], nhl_validateinfo = [0x41]\<rparr>)
    \<and> DBCharTitle_ByteSizeLong (DBCharTitle_new\<lparr>dct_title := [[0x41], []]\<rparr>)
      = length (DBCharTitle_SerializeToArray (DBCharTitle_new\<lparr>dct_title := [[0x41], []]\<rparr>))"
proof -
  let ?r = "\<lparr>nhl_uid = 300, nhl_account = [0xC3, 0xA9], nhl_validateinfo = [0x41]\<rparr> :: nh_req_login"
  let ?a = "\<lparr>hnl_uid = 0, hnl_account = [], hnl_result = - 1\<rparr> :: hn_ret_login"
  let ?t = "DBCharTitle_new\<lparr>dct_title := [[0x41], []]\<rparr>"
  have "CG_LOGIN_good CG_LOGIN_new" by (simp add: CG_LOGIN_good_def CG_LOGIN_new_def text_fields)
  moreover have "DBCharTitle_good ?t"
    by (simp add: DBCharTitle_good_def DBCharTitle_new_def RepeatedField_new_def UInt32Size_repeated_def INT_MAX_def text_fields)
  ultimately show ?thesis
    using protos_round_trip [of ?r ?a CG_LOGIN_new ?t "\<lparr>nhl_uid = 1, nhl_account = [2], nhl_validateinfo = [3]\<rparr>"]
    by (simp add: text_fields)
qed

text \<open>C11: parsing ends on any bytes and reads none behind the array, for every class.\<close>

theorem protos_parse_any_bytes:
  "ParseFromArray_over 0x7F NH_REQ_LOGIN_switch (NH_REQ_LOGIN_Clear r0) data \<noteq> None
    \<and> ParseFromArray_over 0x7F HN_RET_LOGIN_switch (HN_RET_LOGIN_Clear a0) data \<noteq> None
    \<and> ParseFromArray_over 0x3FFF CG_LOGIN_switch (CG_LOGIN_Clear l0) data \<noteq> None
    \<and> ParseFromArray_over 0x7F GC_LOGIN_switch (GC_LOGIN_Clear g0) data \<noteq> None
    \<and> ParseFromArray_over 0x7F DBCharTitle_switch (DBCharTitle_Clear t0) data \<noteq> None"
  using nhl.parse_ends hnl.parse_ends cgl.parse_ends gcl.parse_ends dct.parse_ends by blast

text \<open>C14: the bytes of two messages of a class, one after the other, are parsed as the second merged into the
  first: its fields that are not the default, and its lists behind those of the first.\<close>

theorem protos_concatenate:
  assumes "NH_REQ_LOGIN_good r" "NH_REQ_LOGIN_good r'" "HN_RET_LOGIN_good a" "HN_RET_LOGIN_good a'"
    and "CG_LOGIN_good l" "CG_LOGIN_good l'" "DBCharTitle_good t" "DBCharTitle_good t'"
  shows "ParseFromArray NH_REQ_LOGIN_protobuf r0 (NH_REQ_LOGIN_SerializeToArray r @ NH_REQ_LOGIN_SerializeToArray r')
      = (True, NH_REQ_LOGIN_MergeFrom r' r)
    \<and> ParseFromArray HN_RET_LOGIN_protobuf a0 (HN_RET_LOGIN_SerializeToArray a @ HN_RET_LOGIN_SerializeToArray a')
      = (True, HN_RET_LOGIN_MergeFrom a' a)
    \<and> ParseFromArray CG_LOGIN_protobuf l0 (CG_LOGIN_SerializeToArray l @ CG_LOGIN_SerializeToArray l')
      = (True, CG_LOGIN_MergeFrom l' l)
    \<and> ParseFromArray GC_LOGIN_protobuf g0 (GC_LOGIN_SerializeToArray g @ GC_LOGIN_SerializeToArray g')
      = (True, GC_LOGIN_MergeFrom g' g)
    \<and> (case ParseFromArray DBCharTitle_protobuf t0 (DBCharTitle_SerializeToArray t @ DBCharTitle_SerializeToArray t') of (ok, t1) \<Rightarrow>
        ok \<and> dct_version t1 = (if dct_version t' \<noteq> 0 then dct_version t' else dct_version t)
          \<and> rf_elements (dct_uid t1) = rf_elements (dct_uid t) @ rf_elements (dct_uid t')
          \<and> dct_title t1 = dct_title t @ dct_title t')"
proof -
  have g: "GC_LOGIN_good g" "GC_LOGIN_good g'" by (simp_all add: GC_LOGIN_good_def)
  have t: "DBCharTitle_view (DBCharTitle_MergeFrom t' t) = ((if dct_version t' \<noteq> 0 then dct_version t' else dct_version t),
      rf_elements (dct_uid t) @ rf_elements (dct_uid t'), dct_title t @ dct_title t')"
    by (simp add: DBCharTitle_MergeFrom_def DBCharTitle_view_def RepeatedField_MergeFrom_def RepeatedField_Reserve_def Let_def)
  note parse = nhl_merge.parse_merges [OF assms(1,2), of r0] hnl_merge.parse_merges [OF assms(3,4), of a0]
    cgl_merge.parse_merges [OF assms(5,6), of l0] gcl_merge.parse_merges [OF g, of g0]
    dct_merge.parse_merges [OF assms(7,8), of t0, unfolded t]
  show ?thesis
    using parse by (auto simp: protobufs MessageLite_over_def DBCharTitle_view_def split del: if_split)
qed

theorem protos_concatenate_witness:
  "ParseFromArray NH_REQ_LOGIN_protobuf NH_REQ_LOGIN_new
      (NH_REQ_LOGIN_SerializeToArray (NH_REQ_LOGIN_new\<lparr>nhl_uid := 5, nhl_account := [0x41]\<rparr>)
        @ NH_REQ_LOGIN_SerializeToArray (NH_REQ_LOGIN_new\<lparr>nhl_account := [0xC3, 0xA9]\<rparr>))
    = (True, NH_REQ_LOGIN_new\<lparr>nhl_uid := 5, nhl_account := [0xC3, 0xA9]\<rparr>)"
proof -
  let ?r = "NH_REQ_LOGIN_new\<lparr>nhl_uid := 5, nhl_account := [0x41]\<rparr>" and ?r' = "NH_REQ_LOGIN_new\<lparr>nhl_account := [0xC3, 0xA9]\<rparr>"
  have "NH_REQ_LOGIN_good ?r" "NH_REQ_LOGIN_good ?r'" "HN_RET_LOGIN_good HN_RET_LOGIN_new" "CG_LOGIN_good CG_LOGIN_new" "DBCharTitle_good DBCharTitle_new"
    by (simp_all add: NH_REQ_LOGIN_good_def NH_REQ_LOGIN_new_def HN_RET_LOGIN_good_def HN_RET_LOGIN_new_def CG_LOGIN_good_def CG_LOGIN_new_def
      DBCharTitle_good_def DBCharTitle_new_def RepeatedField_new_def UInt32Size_repeated_def INT_MAX_def text_fields)
  from protos_concatenate [OF this(1,2,3,3,4,4,5,5), of NH_REQ_LOGIN_new] show ?thesis
    by (simp add: NH_REQ_LOGIN_MergeFrom_def NH_REQ_LOGIN_new_def)
qed

section \<open>Lists that are not packed\<close>

lemma read_reserved_3: "read_reserved 3 tag vals s = read_reserved (Suc (Suc (Suc 0))) tag vals s"
  by (simp add: numeral_3_eq_3 del: read_reserved.simps)

lemma read_until_limit_2: "read_until_limit 2 vals s = read_until_limit (Suc (Suc 0)) vals s"
  by (simp add: numeral_2_eq_2 del: read_until_limit.simps)

lemmas title_reading = DBCharTitle_new_def DBCharTitle_Clear_def CodedInputStream_new_def
  ReadTagWithCutoffNoLastTag_def sint_byte Let_def DBCharTitle_switch_def tag_case_def GetTagFieldNumber_def repeated_case_def
  ReadRepeatedPrimitive_def ReadPackedPrimitive_def ReadVarintSizeAsInt_def ReadUInt32_def ReadVarint32_def uint32_case_def ExpectTag_def
  RepeatedField_AddAlreadyReserved_def RepeatedField_Add_def RepeatedField_new_def RepeatedField_Reserve_def
  kMinRepeatedFieldAllocationSize_def read_reserved_3 read_until_limit_2 ReadTagFallback_def varint_safe_def kMaxVarintBytes_def

lemma title_merges:
  assumes "unat b < 128" "unat c < 128"
  shows "MergePartialFromCodedStream (Suc (Suc (Suc fuel))) 0x7F DBCharTitle_switch (DBCharTitle_Clear DBCharTitle_new)
      (CodedInputStream_new [0x10, b, 0x12, 2, 8, c])
    = Some (True, \<lparr>dct_version = ucast c, dct_uid = \<lparr>rf_elements = [ucast b, 2], rf_total_size = 4\<rparr>, dct_title = []\<rparr>,
        (CodedInputStream_new [])\<lparr>legitimate_message_end := True\<rparr>)"
    and "MergePartialFromCodedStream (Suc (Suc (Suc fuel))) 0x7F DBCharTitle_switch (DBCharTitle_Clear DBCharTitle_new)
      (CodedInputStream_new [0x12, 2, 8, c, 0x10, b])
    = Some (True, \<lparr>dct_version = 0, dct_uid = \<lparr>rf_elements = [8, ucast c, ucast b], rf_total_size = 4\<rparr>, dct_title = []\<rparr>,
        (CodedInputStream_new [])\<lparr>legitimate_message_end := True\<rparr>)"
    and "MergePartialFromCodedStream (Suc (Suc fuel)) 0x7F DBCharTitle_switch (DBCharTitle_Clear DBCharTitle_new)
      (CodedInputStream_new [0x12, 5, b])
    = Some (True, \<lparr>dct_version = 0, dct_uid = \<lparr>rf_elements = [ucast b], rf_total_size = 4\<rparr>, dct_title = []\<rparr>,
        (CodedInputStream_new [])\<lparr>legitimate_message_end := True\<rparr>)"
  using assms by (simp_all add: title_reading)

text \<open>C23: a list of numbers of which the first comes alone and the rest packed, which the format allows, is
  misread without an error: the reader looks for the tag of the packed field behind the single number and
  takes the length for a number and the packed numbers for fields; packed first, both are read. A
  packed field that says it is longer than the rest of the array is taken as it is.\<close>

theorem uid_misread:
  assumes "unat b < 128" "unat c < 128"
  shows "(case ParseFromArray DBCharTitle_protobuf DBCharTitle_new [0x10, b, 0x12, 2, 8, c] of (ok, t) \<Rightarrow>
      ok \<and> rf_elements (dct_uid t) = [ucast b, 2] \<and> dct_version t = ucast c)
    \<and> (case ParseFromArray DBCharTitle_protobuf DBCharTitle_new [0x12, 2, 8, c, 0x10, b] of (ok, t) \<Rightarrow>
      ok \<and> rf_elements (dct_uid t) = [8, ucast c, ucast b] \<and> dct_version t = 0)
    \<and> (case ParseFromArray DBCharTitle_protobuf DBCharTitle_new [0x12, 5, b] of (ok, t) \<Rightarrow>
      ok \<and> rf_elements (dct_uid t) = [ucast b])"
proof (intro conjI)
  have six: "length [x, y, z, u, v, w] = Suc (Suc (Suc (Suc (Suc (Suc 0)))))" and three: "length [x, y, z] = Suc (Suc (Suc 0))"
    for x y z u v w :: tbyte by simp_all
  show "case ParseFromArray DBCharTitle_protobuf DBCharTitle_new [0x10, b, 0x12, 2, 8, c] of (ok, t) \<Rightarrow>
      ok \<and> rf_elements (dct_uid t) = [ucast b, 2] \<and> dct_version t = ucast c"
    by (simp add: protobufs MessageLite_over_def ParseFromArray_over_def six title_merges [OF assms]
      del: MergePartialFromCodedStream.simps list.size)
  show "case ParseFromArray DBCharTitle_protobuf DBCharTitle_new [0x12, 2, 8, c, 0x10, b] of (ok, t) \<Rightarrow>
      ok \<and> rf_elements (dct_uid t) = [8, ucast c, ucast b] \<and> dct_version t = 0"
    by (simp add: protobufs MessageLite_over_def ParseFromArray_over_def six title_merges [OF assms]
      del: MergePartialFromCodedStream.simps list.size)
  show "case ParseFromArray DBCharTitle_protobuf DBCharTitle_new [0x12, 5, b] of (ok, t) \<Rightarrow>
      ok \<and> rf_elements (dct_uid t) = [ucast b]"
    by (simp add: protobufs MessageLite_over_def ParseFromArray_over_def three title_merges [OF assms]
      del: MergePartialFromCodedStream.simps list.size)
qed

theorem uid_misread_witness:
  "(case ParseFromArray DBCharTitle_protobuf DBCharTitle_new [0x10, 9, 0x12, 2, 8, 7] of (ok, t) \<Rightarrow>
      ok \<and> rf_elements (dct_uid t) = [9, 2] \<and> dct_version t = 7)"
  using uid_misread [of 9 7] by simp

end
