(* ===== verification/LoginFlow.thy ===== *)
theory LoginFlow
  imports NetServiceMessages HttpServiceProps LoginProtosFacts
begin

text \<open>
  A login from the client's packet to the answer, over the generated classes: the network service makes a
  message of the packet, an http service reads that message and answers it, and the answer is read back.
\<close>

section \<open>The generated classes as the services use them\<close>

datatype login_proto =
  CgLogin cg_login
| NhReqLogin nh_req_login
| HnRetLogin hn_ret_login
| GcLogin gc_login

fun as_cg :: "login_proto \<Rightarrow> cg_login" where
  "as_cg (CgLogin l) = l"
| "as_cg _ = CG_LOGIN_new"

fun as_req :: "login_proto \<Rightarrow> nh_req_login" where
  "as_req (NhReqLogin r) = r"
| "as_req _ = NH_REQ_LOGIN_new"

fun as_ret :: "login_proto \<Rightarrow> hn_ret_login" where
  "as_ret (HnRetLogin a) = a"
| "as_ret _ = HN_RET_LOGIN_new"

fun as_gc :: "login_proto \<Rightarrow> gc_login" where
  "as_gc (GcLogin g) = g"
| "as_gc _ = GC_LOGIN_new"

definition lift_protobuf :: "('a \<Rightarrow> 'd) \<Rightarrow> ('d \<Rightarrow> 'a) \<Rightarrow> 'a protobuf \<Rightarrow> 'd protobuf" where
  "lift_protobuf wrap as pb = \<lparr>ByteSize = (\<lambda>d. ByteSize pb (as d)),
     SerializePartialToArray = (\<lambda>d. SerializePartialToArray pb (as d)),
     ParseFromArray = (\<lambda>d bs. map_prod id wrap (ParseFromArray pb (as d) bs))\<rparr>"

definition login_classes :: "login_proto login_protos" where
  "login_classes = \<lparr>
     pb_cg_login = lift_protobuf CgLogin as_cg CG_LOGIN_protobuf,
     pb_nh_req = lift_protobuf NhReqLogin as_req NH_REQ_LOGIN_protobuf,
     pb_hn_ret = lift_protobuf HnRetLogin as_ret HN_RET_LOGIN_protobuf,
     pb_gc_login = lift_protobuf GcLogin as_gc GC_LOGIN_protobuf,
     pb_new = CgLogin CG_LOGIN_new,
     login_account = cgl_account \<circ> as_cg,
     login_validateinfo = cgl_validateinfo \<circ> as_cg,
     make_req = (\<lambda>uid account validateinfo. NhReqLogin \<lparr>nhl_uid = uid, nhl_account = account, nhl_validateinfo = validateinfo\<rparr>),
     req_uid = nhl_uid \<circ> as_req,
     req_account = nhl_account \<circ> as_req,
     req_validateinfo = nhl_validateinfo \<circ> as_req,
     make_ret = (\<lambda>uid account res. HnRetLogin \<lparr>hnl_uid = uid, hnl_account = account, hnl_result = res\<rparr>),
     ret_uid = hnl_uid \<circ> as_ret,
     ret_account = hnl_account \<circ> as_ret,
     ret_result = hnl_result \<circ> as_ret,
     make_login_ret = (\<lambda>res. GcLogin \<lparr>gcl_result = res\<rparr>)\<rparr>"

lemma lift_writes: "protobuf_writes (lift_protobuf wrap as pb) d \<longleftrightarrow> protobuf_writes pb (as d)"
  by (simp add: protobuf_writes_def lift_protobuf_def)

lemma NH_REQ_LOGIN_facts:
  assumes "NH_REQ_LOGIN_good r" "NH_REQ_LOGIN_ByteSizeLong r \<le> 65511"
  shows "protobuf_writes (pb_nh_req login_classes) (NhReqLogin r)"
    "sint (ByteSize (pb_nh_req login_classes) (NhReqLogin r)) = int (NH_REQ_LOGIN_ByteSizeLong r)"
    "snd (SerializePartialToArray (pb_nh_req login_classes) (NhReqLogin r) 65511) = NH_REQ_LOGIN_SerializeToArray r"
    "ParseFromArray (pb_nh_req login_classes) d0 (NH_REQ_LOGIN_SerializeToArray r) = (True, NhReqLogin r)"
proof -
  have "NH_REQ_LOGIN_ByteSizeLong r < 2 ^ 31" using assms(2) by simp
  note w = MessageLite_writes [where byte_size = NH_REQ_LOGIN_ByteSizeLong and serialize = NH_REQ_LOGIN_SerializeToArray and d = r
      and switch = NH_REQ_LOGIN_switch and cutoff = "0x7F" and clear = NH_REQ_LOGIN_Clear, OF nhl.size_written [OF assms(1)] this,
      folded NH_REQ_LOGIN_protobuf_def]
  show "protobuf_writes (pb_nh_req login_classes) (NhReqLogin r)" using w(1) by (simp add: login_classes_def lift_writes)
  show "sint (ByteSize (pb_nh_req login_classes) (NhReqLogin r)) = int (NH_REQ_LOGIN_ByteSizeLong r)"
    "snd (SerializePartialToArray (pb_nh_req login_classes) (NhReqLogin r) 65511) = NH_REQ_LOGIN_SerializeToArray r"
    using w(2,4) assms(2) by (simp_all add: login_classes_def lift_protobuf_def)
  show "ParseFromArray (pb_nh_req login_classes) d0 (NH_REQ_LOGIN_SerializeToArray r) = (True, NhReqLogin r)"
    using nhl.parse_serialize [OF assms(1), of "as_req d0"]
    by (auto simp: login_classes_def lift_protobuf_def NH_REQ_LOGIN_protobuf_def MessageLite_over_def)
qed

lemma HN_RET_LOGIN_facts:
  assumes "HN_RET_LOGIN_good r" "HN_RET_LOGIN_ByteSizeLong r \<le> 65511"
  shows "protobuf_writes (pb_hn_ret login_classes) (HnRetLogin r)"
    "sint (ByteSize (pb_hn_ret login_classes) (HnRetLogin r)) = int (HN_RET_LOGIN_ByteSizeLong r)"
    "snd (SerializePartialToArray (pb_hn_ret login_classes) (HnRetLogin r) 65511) = HN_RET_LOGIN_SerializeToArray r"
    "ParseFromArray (pb_hn_ret login_classes) d0 (HN_RET_LOGIN_SerializeToArray r) = (True, HnRetLogin r)"
proof -
  have "HN_RET_LOGIN_ByteSizeLong r < 2 ^ 31" using assms(2) by simp
  note w = MessageLite_writes [where byte_size = HN_RET_LOGIN_ByteSizeLong and serialize = HN_RET_LOGIN_SerializeToArray and d = r
      and switch = HN_RET_LOGIN_switch and cutoff = "0x7F" and clear = HN_RET_LOGIN_Clear, OF hnl.size_written [OF assms(1)] this,
      folded HN_RET_LOGIN_protobuf_def]
  show "protobuf_writes (pb_hn_ret login_classes) (HnRetLogin r)" using w(1) by (simp add: login_classes_def lift_writes)
  show "sint (ByteSize (pb_hn_ret login_classes) (HnRetLogin r)) = int (HN_RET_LOGIN_ByteSizeLong r)"
    "snd (SerializePartialToArray (pb_hn_ret login_classes) (HnRetLogin r) 65511) = HN_RET_LOGIN_SerializeToArray r"
    using w(2,4) assms(2) by (simp_all add: login_classes_def lift_protobuf_def)
  show "ParseFromArray (pb_hn_ret login_classes) d0 (HN_RET_LOGIN_SerializeToArray r) = (True, HnRetLogin r)"
    using hnl.parse_serialize [OF assms(1), of "as_ret d0"]
    by (auto simp: login_classes_def lift_protobuf_def HN_RET_LOGIN_protobuf_def MessageLite_over_def)
qed

section \<open>Texts up to a zero\<close>

lemma byte_not_zero: "0 < n \<Longrightarrow> n < 256 \<Longrightarrow> word_of_nat n \<noteq> (0 :: tbyte)"
  using unat_byte_of_nat [of n] by (metis mod_less unat_0 less_not_refl)

lemma encode_zero_free:
  assumes "0 < u" "scalar_value u"
  shows "0 \<notin> set (utf8_encode u)"
proof -
  have b: "\<forall>n \<in> set ns. 0 < n \<and> n < 256 \<Longrightarrow> 0 \<notin> set (map word_of_nat ns :: tbyte list)" for ns
    using byte_not_zero by force
  have "u < 0x110000" using assms(2) by (auto simp: scalar_value_def)
  moreover have "u mod 64 < 64" "u div 64 mod 64 < 64" "u div 64 div 64 mod 64 < 64" by simp_all
  ultimately show ?thesis
    unfolding utf8_encode_def using assms(1) by (intro b) (auto split: if_splits; linarith)
qed

lemma utf8_text_upto_zero:
  assumes "utf8_text bs"
  shows "utf8_text (takeWhile (\<lambda>b. b \<noteq> 0) bs)"
proof -
  have "takeWhile (\<lambda>b. b \<noteq> 0) (concat (map utf8_encode us)) = concat (map utf8_encode (takeWhile (\<lambda>u. u \<noteq> 0) us))"
    if "list_all scalar_value us" for us
    using that
  proof (induction us)
    case (Cons u us)
    show ?case
    proof (cases "u = 0")
      case False
      then have "\<forall>b \<in> set (utf8_encode u). b \<noteq> 0" using encode_zero_free [of u] Cons.prems by auto
      then show ?thesis using Cons False by (simp add: takeWhile_append2)
    qed (simp add: utf8_encode_def)
  qed simp
  moreover have "list_all P us \<Longrightarrow> list_all P (takeWhile Q us)" for P Q and us :: "nat list"
    by (induction us) simp_all
  ultimately show ?thesis using assms unfolding utf8_text_def by metis
qed

text \<open>The answer is a text again.\<close>

lemma text_field_upto_zero: "text_field v \<Longrightarrow> text_field (takeWhile (\<lambda>b. b \<noteq> 0) v)"
  using utf8_text_upto_zero length_takeWhile_le [of "\<lambda>b. b \<noteq> 0" v] by (fastforce simp: text_field_def)

lemma text_field_ddddd: "text_field ddddd"
  by (rule ascii_text_field) (simp_all add: ddddd_def)

text \<open>The size in the head of a message is that of its body.\<close>

lemma body_size:
  assumes "0 \<le> sint (mh_nSize mh)" "int (length x) = 24 + sint (mh_nSize mh)" "length (drop 24 x) \<le> 65511"
  shows "unat (ucast (mh_nSize mh) :: tuint16) = length (drop 24 x)"
proof -
  have l: "sint (mh_nSize mh) = int (length (drop 24 x))" using assms(1,2) by simp
  have "uint (ucast (mh_nSize mh) :: tuint16) = sint (mh_nSize mh)" by (rule uint_ucast_down16) (use l assms(3) in simp_all)
  then have "int (unat (ucast (mh_nSize mh) :: tuint16)) = int (length (drop 24 x))" unfolding l uint_nat .
  then show ?thesis by (simp only: of_nat_eq_iff)
qed

section \<open>Properties\<close>

text \<open>The answer of the http service to a login of an account.\<close>

definition login_result :: "('d, 'w) http_env \<Rightarrow> tuint32 \<Rightarrow> tbyte list \<Rightarrow> int \<Rightarrow> tbyte list \<Rightarrow> hn_ret_login" where
  "login_result env uid account code body =
     \<lparr>hnl_uid = uid, hnl_account = (if code \<noteq> CURLE_OK then takeWhile (\<lambda>b. b \<noteq> 0) account else ddddd),
      hnl_result = (if code = CURLE_OK \<and> he_read_json env body then 1 else 0)\<rparr>"


text \<open>A login with account A and validation B over two channels of 200 bytes.\<close>

definition flow_net_env :: "(login_proto, demo_net) net_env" where
  "flow_net_env = \<lparr>ne_tm = ne_tm demo_net_env, ne_place = ne_place demo_net_env, ne_pb = login_classes, ne_os = ne_os demo_net_env,
     ne_recv_storage = [], ne_send_storage = [], ne_encoder_storage = []\<rparr>"

definition flow_http_env :: "(login_proto, unit) http_env" where
  "flow_http_env = \<lparr>he_pb = login_classes, he_transfer = (\<lambda>w. ([[123], [125]], 0, w)), he_read_json = (\<lambda>t. t = [123, 125]),
     he_log_writes = (\<lambda>_. True)\<rparr>"

definition flow_login :: cg_login where
  "flow_login = CG_LOGIN_new\<lparr>cgl_account := [0x41], cgl_validateinfo := [0x42]\<rparr>"

lemma flow_sizes: "CG_LOGIN_ByteSizeLong flow_login = 6"
  "NH_REQ_LOGIN_ByteSizeLong \<lparr>nhl_uid = 0, nhl_account = [0x41], nhl_validateinfo = [0x42]\<rparr> = 6"
  "HN_RET_LOGIN_ByteSizeLong \<lparr>hnl_uid = 0, hnl_account = ddddd, hnl_result = 1\<rparr> = 9"
proof -
  have "VarintSize32 1 = 1" "VarintSize32 5 = 1" "VarintSize32SignExtended 1 = 1" by code_simp+
  then show "CG_LOGIN_ByteSizeLong flow_login = 6"
    "NH_REQ_LOGIN_ByteSizeLong \<lparr>nhl_uid = 0, nhl_account = [0x41], nhl_validateinfo = [0x42]\<rparr> = 6"
    "HN_RET_LOGIN_ByteSizeLong \<lparr>hnl_uid = 0, hnl_account = ddddd, hnl_result = 1\<rparr> = 9"
    by (simp_all add: CG_LOGIN_ByteSizeLong_def NH_REQ_LOGIN_ByteSizeLong_def HN_RET_LOGIN_ByteSizeLong_def flow_login_def CG_LOGIN_new_def
      LengthDelimitedSize_def ddddd_def)
qed

lemma flow_texts: "text_field [0x41]" "text_field [0x42]" "text_field []"
  by (simp_all add: ascii_text_field)


end
