(* ===== verification/TitleStored.thy ===== *)
theory TitleStored
  imports DBServiceProps LoginProtosFacts TitleProto
begin

text \<open>
  The database service over the generated class \<open>DBCharTitle\<close>: what a class writes is what the services
  need of it, and a character is loaded with the title it was stored with.
\<close>

section \<open>Properties\<close>

text \<open>C8: A character that \<open>UpdateCharInfo\<close> has written is loaded by \<open>LoadCharInfo\<close> with the title it was
  written with and the name the server has for it, whatever the title holds: serialising, escaping,
  the server's reading, the copy out of the result and parsing cancel out. A title without any field set has no bytes, and
  then the one that was in the character before loading stays there. The title is a message whose texts are valid and has at
  most 65400 bytes, so that the statement fits its buffer; the handler is connected, and the server has a row for the character
  with a name shorter than its array; the update itself answers 1, which is not \<open>success\<close>.\<close>

theorem update_then_load:
  assumes "char_server api table" "escape_documented api"
    and "DBCharTitle_good (cd_TitleData cd)"
    and "DBCharTitle_ByteSizeLong (cd_TitleData cd) \<le> 65400"
    and "is_connected (db_mysql s)" "length (db_szBlobBuff s) = MAX_BLOB_INFO_LENGTH"
    and "length (db_szEscapedBlobBuff s) = 2 * MAX_BLOB_INFO_LENGTH + 1"
    and "table w (unat (cd_nID cd)) = Some (name, old)" "length name < CHAR_NAME_LENGTH"
    and "length (cd_szCharName cd') = CHAR_NAME_LENGTH"
  shows "\<exists>s1 w1 cd1 s2 w2. UpdateCharInfo api DBCharTitle_protobuf s cd w = Some (1, s1, w1) \<and>
    LoadCharInfo api DBCharTitle_protobuf s1 (ucast (cd_nID cd)) cd' w1 = Some (my_success, cd1, s2, w2) \<and>
    (if DBCharTitle_ByteSizeLong (cd_TitleData cd) = 0 then cd_TitleData cd1 = cd_TitleData cd'
     else dct_version (cd_TitleData cd1) = dct_version (cd_TitleData cd) \<and>
       rf_elements (dct_uid (cd_TitleData cd1)) = rf_elements (dct_uid (cd_TitleData cd)) \<and>
       dct_title (cd_TitleData cd1) = dct_title (cd_TitleData cd)) \<and>
    buffer_text (cd_szCharName cd1) = Some (c_string name)"
proof -
  let ?t = "cd_TitleData cd"
  note sizes = dct.size_written [OF assms(3)]
  have "DBCharTitle_ByteSizeLong ?t < 2 ^ 31" using assms(4) by simp
  note w = MessageLite_writes [where byte_size = DBCharTitle_ByteSizeLong and serialize = DBCharTitle_SerializeToArray and d = ?t
      and switch = DBCharTitle_switch and cutoff = "0x7F" and clear = DBCharTitle_Clear, OF sizes this, folded DBCharTitle_protobuf_def]
  have body: "snd (SerializePartialToArray DBCharTitle_protobuf ?t 65535) = DBCharTitle_SerializeToArray ?t"
    using w(3) assms(4) by simp
  obtain t1 where "ParseFromArray_over 0x7F DBCharTitle_switch (DBCharTitle_Clear (cd_TitleData cd')) (DBCharTitle_SerializeToArray ?t)
      = Some (True, t1)" and view: "DBCharTitle_view t1 = DBCharTitle_view ?t" using dct.parse_serialize [OF assms(3)] by blast
  then have p1: "ParseFromArray DBCharTitle_protobuf (cd_TitleData cd') (snd (SerializePartialToArray DBCharTitle_protobuf ?t 65535)) = (True, t1)"
    unfolding body by (simp add: DBCharTitle_protobuf_def MessageLite_over_def)
  define t where "t = (if DBCharTitle_ByteSizeLong ?t = 0 then cd_TitleData cd' else t1)"
  have empty: "DBCharTitle_SerializeToArray ?t = [] \<longleftrightarrow> DBCharTitle_ByteSizeLong ?t = 0"
    using sizes by (metis length_0_conv)
  have p: "if snd (SerializePartialToArray DBCharTitle_protobuf ?t 65535) = [] then t = cd_TitleData cd'
      else ParseFromArray DBCharTitle_protobuf (cd_TitleData cd') (snd (SerializePartialToArray DBCharTitle_protobuf ?t 65535)) = (True, t)"
    using p1 unfolding body empty t_def by simp
  have n: "sint (ByteSize DBCharTitle_protobuf ?t) \<le> 65400" unfolding w(2) using assms(4) by simp
  obtain s1 w1 cd1 s2 w2 where "UpdateCharInfo api DBCharTitle_protobuf s cd w = Some (1, s1, w1)"
    "LoadCharInfo api DBCharTitle_protobuf s1 (ucast (cd_nID cd)) cd' w1 = Some (my_success, cd1, s2, w2)"
    "cd_TitleData cd1 = t" "buffer_text (cd_szCharName cd1) = Some (c_string name)"
    using stored_title_loaded [OF assms(1,2) w(1) p n assms(5-10)] by (elim exE conjE) (rule that)
  moreover have "dct_version t1 = dct_version ?t" "rf_elements (dct_uid t1) = rf_elements (dct_uid ?t)" "dct_title t1 = dct_title ?t"
    using view by (simp_all add: DBCharTitle_view_def)
  ultimately show ?thesis by (intro exI conjI) (simp_all add: t_def)
qed

text \<open>A title with a number, a list and two texts.\<close>

definition demo_title :: db_char_title where
  "demo_title = \<lparr>dct_version = 3, dct_uid = \<lparr>rf_elements = [7, 300], rf_total_size = 4\<rparr>, dct_title = [[39], [0xC3, 0xA9]]\<rparr>"

definition demo_titled :: "db_char_title \<Rightarrow> db_char_title char_data" where
  "demo_titled t = \<lparr>cd_nID = 5, cd_szCharName = replicate 32 (CHR 0x00), cd_TitleData = t\<rparr>"

lemma demo_title_size: "DBCharTitle_ByteSizeLong demo_title = 14"
  by code_simp

theorem update_then_load_witness:
  "\<exists>s1 w1 cd1 s2 w2. UpdateCharInfo demo_char_api DBCharTitle_protobuf demo_db_service (demo_titled demo_title) demo_world = Some (1, s1, w1) \<and>
    LoadCharInfo demo_char_api DBCharTitle_protobuf s1 5 (demo_titled DBCharTitle_new) w1 = Some (my_success, cd1, s2, w2) \<and>
    rf_elements (dct_uid (cd_TitleData cd1)) = [7, 300] \<and> dct_title (cd_TitleData cd1) = [[39], [0xC3, 0xA9]] \<and>
    buffer_text (cd_szCharName cd1) = Some ''ann''"
proof -
  have "text_field [39]" "text_field [0xC3, 0xA9]" by (simp_all add: ascii_text_field two_byte_text_field)
  moreover have "UInt32Size_repeated [7, 300] = 3" by code_simp
  ultimately have good: "DBCharTitle_good (cd_TitleData (demo_titled demo_title))"
    by (simp add: demo_titled_def demo_title_def DBCharTitle_good_def INT_MAX_def)
  have size: "DBCharTitle_ByteSizeLong (cd_TitleData (demo_titled demo_title)) = 14" by (simp add: demo_titled_def demo_title_size)
  have fields: "ucast (cd_nID (demo_titled demo_title)) = (5 :: tuint64)" "c_string ''ann'' = ''ann''"
    "cd_TitleData (demo_titled demo_title) = demo_title" "fst demo_world (unat (cd_nID (demo_titled demo_title))) = Some (''ann'', [])"
    by (simp_all add: demo_titled_def c_string_def demo_world_def)
  have buffers: "is_connected (db_mysql demo_db_service)" "length (db_szBlobBuff demo_db_service) = MAX_BLOB_INFO_LENGTH"
    "length (db_szEscapedBlobBuff demo_db_service) = 2 * MAX_BLOB_INFO_LENGTH + 1"
    "length (cd_szCharName (demo_titled DBCharTitle_new)) = CHAR_NAME_LENGTH" "length ''ann'' < CHAR_NAME_LENGTH"
    by (simp_all add: demo_db_service_def demo_handler_def demo_titled_def CHAR_NAME_LENGTH_def)
  have bound: "DBCharTitle_ByteSizeLong (cd_TitleData (demo_titled demo_title)) \<le> 65400" unfolding size by simp
  have filled: "(DBCharTitle_ByteSizeLong demo_title = 0) = False" by (simp add: demo_title_size)
  obtain s1 w1 cd1 s2 w2 where "UpdateCharInfo demo_char_api DBCharTitle_protobuf demo_db_service (demo_titled demo_title) demo_world = Some (1, s1, w1)"
    "LoadCharInfo demo_char_api DBCharTitle_protobuf s1 5 (demo_titled DBCharTitle_new) w1 = Some (my_success, cd1, s2, w2)"
    "rf_elements (dct_uid (cd_TitleData cd1)) = rf_elements (dct_uid demo_title)" "dct_title (cd_TitleData cd1) = dct_title demo_title"
    "buffer_text (cd_szCharName cd1) = Some ''ann''"
    using update_then_load [OF demo_server demo_escape good bound buffers(1-3) fields(4) buffers(5,4)] unfolding fields filled if_False
    by (elim exE conjE) (rule that)
  then show ?thesis by (intro exI conjI) (simp_all add: demo_title_def)
qed

end
