(* ===== verification/ConfigScripts.thy ===== *)
theory ConfigScripts
  imports LuaObjectProps
begin

text \<open>
  The configuration of the repository: the globals that \<open>Script/config.lua\<close> and \<open>Script/service.lua\<close> leave, and
  what the lookups of the services find in them. Numbers are integers, a table is in the order of its text.
\<close>

definition whole_numbers :: "int lua_numbers" where
  "whole_numbers = \<lparr>num_to_int = word_of_int, num_is_one = (\<lambda>n. n = 1), num_text = show_int\<rparr>"

definition text_entries :: "(string \<times> int lua_value) list \<Rightarrow> int lua_entries" where
  "text_entries kvs = map (\<lambda>(k, v). (KString k, v)) kvs"

definition channel_entries :: "int \<Rightarrow> int \<Rightarrow> int lua_entries" where
  "channel_entries key room = text_entries [(''key'', LNumber key), (''input'', LNumber room), (''output'', LNumber room)]"

text \<open>The table of a service, with the table 0 of the server and the table of its channels.\<close>

definition service_entries :: "int \<Rightarrow> nat \<Rightarrow> int lua_entries" where
  "service_entries ty t = text_entries [(''type'', LNumber ty), (''count'', LNumber 1), (''server'', LTable 0), (''msgchannel'', LTable t)]"

text \<open>The tables in the order of their addresses; 15 is the table of the globals.\<close>

definition script_tables :: "nat \<Rightarrow> int lua_entries" where
  "script_tables t =
     (if t = 0 then text_entries [(''ID'', LNumber 1), (''Ip'', LString ''127.0.0.1''), (''Port'', LNumber 6666)]
      else if t = 1 then text_entries [(''Server1'', LTable 0)]
      else if t = 2 then channel_entries 123 16777216
      else if t = 3 then text_entries [(''LOGIN_HTTP'', LTable 2)]
      else if t = 4 then text_entries [(''INVALID'', LNumber (- 1)), (''LOGIN'', LNumber 0), (''HTTP'', LNumber 1), (''HTTPMANAGER'', LNumber 2),
        (''MONITOR'', LNumber 3), (''CLIENT'', LNumber 4), (''DBSERVICE'', LNumber 5), (''MAX'', LNumber 20)]
      else if t = 5 then text_entries [(''Login'', LTable 6), (''HttpManager'', LTable 8), (''Http'', LTable 9), (''DBService'', LTable 10)]
      else if t = 6 then text_entries [(''type'', LNumber 0), (''count'', LNumber 1), (''server'', LTable 0), (''channel'', LTable 7)]
      else if t = 7 then [(KNumber 1, LTable 2)]
      else if t = 8 then service_entries 2 11
      else if t = 9 then service_entries 1 12
      else if t = 10 then service_entries 5 13
      else if t = 11 then text_entries [(''channel1'', LTable 14)]
      else if t = 12 then text_entries [(''channel1'', LTable 16)]
      else if t = 13 then text_entries [(''channel1'', LTable 17)]
      else if t = 14 then channel_entries 200 1048576
      else if t = 15 then text_entries [(''_G'', LTable 15), (''LogFilePath'', LString ''./Log''), (''ServerSettings'', LTable 1),
        (''MessageChannel'', LTable 3), (''ThreadCount'', LNumber 2), (''ServiceType'', LTable 4), (''Service'', LTable 5)]
      else if t = 16 then channel_entries 100 65536
      else if t = 17 then channel_entries 500 1048576
      else [])"

definition config_globals :: "int lua_globals" where
  "config_globals = \<lparr>lg_value = (\<lambda>n.
      if n = ''_G'' then LTable 15 else if n = ''LogFilePath'' then LString ''./Log'' else if n = ''ServerSettings'' then LTable 1
      else if n = ''MessageChannel'' then LTable 3 else LNil), lg_tables = script_tables\<rparr>"

definition service_globals :: "int lua_globals" where
  "service_globals = \<lparr>lg_value = (\<lambda>n.
      if n = ''ThreadCount'' then LNumber 2 else if n = ''ServiceType'' then LTable 4 else if n = ''Service'' then LTable 5
      else lg_value config_globals n), lg_tables = script_tables\<rparr>"

text \<open>A table with texts as keys: the entry a name leads to, of several the last.\<close>

fun last_entry :: "int lua_numbers \<Rightarrow> (nat \<Rightarrow> int lua_entries) \<Rightarrow> string \<Rightarrow> (string \<times> int lua_value) list \<Rightarrow> int lua_value option" where
  "last_entry ops tb n [] = None"
| "last_entry ops tb n ((k, v) # kvs) =
     (case last_entry ops tb n kvs of
        Some u \<Rightarrow> Some u
      | None \<Rightarrow> if take 255 (c_string k) = n \<and> is_readable ops tb v then Some v else None)"

lemma texts_no_array [simp]: "\<not> is_array ops (text_entries kvs)"
  by (auto simp: is_array_def text_entries_def)

lemma followed_texts [simp]: "followed ops (text_entries kvs) = text_entries kvs"
  by (induction kvs) (auto simp: text_entries_def)

lemma value_at_texts:
  assumes "tb t = text_entries kvs"
  shows "value_at ops tb (LTable t) (n # ns) = (case last_entry ops tb n kvs of None \<Rightarrow> None | Some v \<Rightarrow> value_at ops tb v ns)"
proof -
  have "named_entries ops tb n (text_entries kvs) = [] \<longleftrightarrow> last_entry ops tb n kvs = None"
    "named_entries ops tb n (text_entries kvs) \<noteq> [] \<Longrightarrow>
      last_entry ops tb n kvs = Some (snd (last (named_entries ops tb n (text_entries kvs))))"
    unfolding text_entries_def by (induction kvs) (auto simp: named_entries_Cons split: option.splits if_splits)
  then show ?thesis using assms by auto
qed

lemma ends_leaf [simp]: "ends ops tb (LNumber n)" "ends ops tb (LString x)"
  by (rule ends.ends; simp)+

lemma ends_texts:
  assumes "tb t = text_entries kvs" "list_all (\<lambda>(k, v). ends ops tb v) kvs"
  shows "ends ops tb (LTable t)"
proof (rule ends.ends)
  fix t' k w
  assume "LTable t = LTable t'" "(k, w) \<in> set (followed ops (tb t'))"
  then have "(k, w) \<in> set (text_entries kvs)" using assms(1) by simp
  then show "ends ops tb w" using assms(2) by (auto simp: text_entries_def list_all_iff)
qed

lemma ends_array: "is_array ops (tb t) \<Longrightarrow> ends ops tb (LTable t)"
  by (rule ends.ends) simp

lemmas entries_texts = text_entries_def [symmetric] channel_entries_def service_entries_def

lemma table_texts:
  "script_tables 0 = text_entries [(''ID'', LNumber 1), (''Ip'', LString ''127.0.0.1''), (''Port'', LNumber 6666)]"
  "script_tables 1 = text_entries [(''Server1'', LTable 0)]"
  "script_tables 5 = text_entries [(''Login'', LTable 6), (''HttpManager'', LTable 8), (''Http'', LTable 9), (''DBService'', LTable 10)]"
  "script_tables 6 = text_entries [(''type'', LNumber 0), (''count'', LNumber 1), (''server'', LTable 0), (''channel'', LTable 7)]"
  "script_tables 7 = [(KNumber 1, LTable 2)]"
  "script_tables 8 = text_entries [(''type'', LNumber 2), (''count'', LNumber 1), (''server'', LTable 0), (''msgchannel'', LTable 11)]"
  "script_tables 9 = text_entries [(''type'', LNumber 1), (''count'', LNumber 1), (''server'', LTable 0), (''msgchannel'', LTable 12)]"
  "script_tables 10 = text_entries [(''type'', LNumber 5), (''count'', LNumber 1), (''server'', LTable 0), (''msgchannel'', LTable 13)]"
  "script_tables 11 = text_entries [(''channel1'', LTable 14)]"
  "script_tables 12 = text_entries [(''channel1'', LTable 16)]"
  "script_tables 13 = text_entries [(''channel1'', LTable 17)]"
  "script_tables 14 = text_entries [(''key'', LNumber 200), (''input'', LNumber 1048576), (''output'', LNumber 1048576)]"
  "script_tables 16 = text_entries [(''key'', LNumber 100), (''input'', LNumber 65536), (''output'', LNumber 65536)]"
  "script_tables 17 = text_entries [(''key'', LNumber 500), (''input'', LNumber 1048576), (''output'', LNumber 1048576)]"
  by (simp_all add: script_tables_def channel_entries_def service_entries_def)

lemma array_7: "is_array whole_numbers (script_tables 7)"
  by (simp add: is_array_def table_texts whole_numbers_def)

lemma script_values_end:
  "ends whole_numbers script_tables (LTable 1)" "ends whole_numbers script_tables (LTable 5)"
proof -
  note t = ends_texts [where tb = script_tables and t = 0, OF table_texts(1)] ends_texts [where tb = script_tables and t = 1, OF table_texts(2)] ends_texts [where tb = script_tables and t = 5, OF table_texts(3)] ends_texts [where tb = script_tables and t = 6, OF table_texts(4)]
    ends_array [of whole_numbers script_tables 7, OF array_7] ends_texts [where tb = script_tables and t = 8, OF table_texts(6)] ends_texts [where tb = script_tables and t = 9, OF table_texts(7)] ends_texts [where tb = script_tables and t = 10, OF table_texts(8)]
    ends_texts [where tb = script_tables and t = 11, OF table_texts(9)] ends_texts [where tb = script_tables and t = 12, OF table_texts(10)] ends_texts [where tb = script_tables and t = 13, OF table_texts(11)] ends_texts [where tb = script_tables and t = 14, OF table_texts(12)]
    ends_texts [where tb = script_tables and t = 16, OF table_texts(13)] ends_texts [where tb = script_tables and t = 17, OF table_texts(14)]
  show "ends whole_numbers script_tables (LTable 1)" "ends whole_numbers script_tables (LTable 5)"
    by (simp_all add: t del: One_nat_def)
qed

lemma pieces_once: "pieces c (x # xs) = (case pieces c xs of [] \<Rightarrow> [] | p # ps \<Rightarrow> if x = c then [] # p # ps else (x # p) # ps)"
  using pieces_not_empty [of c xs] by (cases "pieces c xs") auto

lemma script_names_split:
  "drop_empty_last (pieces (CHR ''.'') ''LogFilePath'') = [''LogFilePath'']"
  "drop_empty_last (pieces (CHR ''.'') ''ThreadCount'') = [''ThreadCount'']"
  "drop_empty_last (pieces (CHR ''.'') ''Service'') = [''Service'']"
  "drop_empty_last (pieces (CHR ''.'') ''ServerSettings.Server1.Ip'') = [''ServerSettings'', ''Server1'', ''Ip'']"
  "drop_empty_last (pieces (CHR ''.'') ''ServerSettings.Server1.Port'') = [''ServerSettings'', ''Server1'', ''Port'']"
  "drop_empty_last (pieces (CHR ''.'') ''Service.HttpManager.count'') = [''Service'', ''HttpManager'', ''count'']"
  "drop_empty_last (pieces (CHR ''.'') ''Service.HttpManager.msgchannel.channel1.key'') = [''Service'', ''HttpManager'', ''msgchannel'', ''channel1'', ''key'']"
  "drop_empty_last (pieces (CHR ''.'') ''Service.Http.msgchannel.channel1.key'') = [''Service'', ''Http'', ''msgchannel'', ''channel1'', ''key'']"
  "drop_empty_last (pieces (CHR ''.'') ''Service.DBService.msgchannel.channel1.key'') = [''Service'', ''DBService'', ''msgchannel'', ''channel1'', ''key'']"
  by (simp_all add: drop_empty_last_def pieces_once del: pieces.simps(2))

lemma last_entry_readable: "last_entry ops tb n kvs = Some v \<Longrightarrow> is_readable ops tb v"
  by (induction kvs) (auto split: option.splits if_splits)

lemmas value_steps = value_at_texts [where tb = script_tables and t = 0, OF table_texts(1)] value_at_texts [where tb = script_tables and t = 1, OF table_texts(2)] value_at_texts [where tb = script_tables and t = 5, OF table_texts(3)]
  value_at_texts [where tb = script_tables and t = 8, OF table_texts(6)] value_at_texts [where tb = script_tables and t = 9, OF table_texts(7)] value_at_texts [where tb = script_tables and t = 10, OF table_texts(8)]
  value_at_texts [where tb = script_tables and t = 11, OF table_texts(9)] value_at_texts [where tb = script_tables and t = 12, OF table_texts(10)] value_at_texts [where tb = script_tables and t = 13, OF table_texts(11)]
  value_at_texts [where tb = script_tables and t = 14, OF table_texts(12)] value_at_texts [where tb = script_tables and t = 16, OF table_texts(13)] value_at_texts [where tb = script_tables and t = 17, OF table_texts(14)]

lemma leaf_objects [simp]:
  "GetLuaObjectFromStack ops tb (LNumber n) = Some (Some (luanumber n))"
  "GetLuaObjectFromStack ops tb (LString x) = Some (Some (luastring (c_string x)))"
  by (simp_all add: GetLuaObjectFromStack_def)

lemma service_readable: "\<exists>ob. value_at whole_numbers script_tables (LTable 5) [] = Some ob"
proof -
  obtain ob where ob: "GetLuaObjectFromStack whole_numbers script_tables (LTable 5) = Some ob" using script_values_end(2) object_ends by blast
  have "is_readable whole_numbers script_tables (LTable 5)" by (simp add: is_readable_def table_texts)
  then have "ob \<noteq> None" using readable_object [OF ob] by simp
  then show ?thesis by (auto simp: ob)
qed

lemma script_lookups:
  "global_at whole_numbers service_globals ''LogFilePath'' = Some (luastring ''./Log'')"
  "global_at whole_numbers service_globals ''ThreadCount'' = Some (luanumber 2)"
  "\<exists>ob. global_at whole_numbers service_globals ''Service'' = Some ob"
  "global_at whole_numbers service_globals ''ServerSettings.Server1.Ip'' = Some (luastring ''127.0.0.1'')"
  "global_at whole_numbers service_globals ''ServerSettings.Server1.Port'' = Some (luanumber 6666)"
  "global_at whole_numbers service_globals ''Service.HttpManager.count'' = Some (luanumber 1)"
  "global_at whole_numbers service_globals ''Service.HttpManager.msgchannel.channel1.key'' = Some (luanumber 200)"
  "global_at whole_numbers service_globals ''Service.Http.msgchannel.channel1.key'' = Some (luanumber 100)"
  "global_at whole_numbers service_globals ''Service.DBService.msgchannel.channel1.key'' = Some (luanumber 500)"
  using service_readable
  by (simp_all add: global_at_def script_names_split service_globals_def config_globals_def value_steps is_readable_def table_texts
      c_string_def del: pieces.simps value_at.simps(2) One_nat_def)

lemma script_names_end:
  "list_all (name_ends whole_numbers service_globals) [''LogFilePath'', ''ThreadCount'', ''Service'', ''ServerSettings.Server1.Ip'',
     ''ServerSettings.Server1.Port'', ''Service.HttpManager.count'', ''Service.HttpManager.msgchannel.channel1.key'',
     ''Service.Http.msgchannel.channel1.key'', ''Service.DBService.msgchannel.channel1.key'']"
  using script_values_end
  by (simp add: name_ends_def script_names_split service_globals_def config_globals_def c_string_def del: pieces.simps)

section \<open>A configuration that has been read\<close>

definition config_reads :: "'n lua_numbers \<Rightarrow> 'n lua_globals \<Rightarrow> 'n config \<Rightarrow> bool" where
  "config_reads ops globals c \<longleftrightarrow> (\<exists>ls. cfg_state c = Some ls \<and> ls_globals ls = globals \<and> cache_true ops ls)"

lemma config_lookup:
  assumes "config_reads ops globals c" "name_ends ops globals n"
  shows "\<exists>c1. Config_GetLuaObject ops c n = Some (global_at ops globals n, c1) \<and> config_reads ops globals c1 \<and>
    m_strLogPath c1 = m_strLogPath c"
proof -
  obtain ls where ls: "cfg_state c = Some ls" "ls_globals ls = globals" "cache_true ops ls"
    using assms(1) unfolding config_reads_def by blast
  obtain ls1 where "GetLuaObjectFromCache ops ls n = Some (global_at ops globals n, ls1)" "cache_true ops ls1" "ls_globals ls1 = globals"
    using cached_lookup [OF ls(3), of n] ls(2) assms(2) by auto
  then show ?thesis using ls(1) by (auto simp: Config_GetLuaObject_def config_reads_def)
qed

lemma config_never: "config_reads ops globals c \<Longrightarrow> \<not> name_ends ops globals n \<Longrightarrow> Config_GetLuaObject ops c n = None"
  using cached_lookup_never by (auto simp: config_reads_def Config_GetLuaObject_def)

lemma Config_Init_reads:
  "Config_Init ltm pl ops run globals log = Some (r, log1, c) \<Longrightarrow> config_reads ops (script_globals run globals) c"
  using Config_Init_state [where ltm = ltm and pl = pl and ops = ops and run = run and globals = globals and log = log]
  by (simp add: config_reads_def)

text \<open>Running the two scripts, and the configuration after that.\<close>

definition run_script :: "int lua_run" where
  "run_script n globals =
     (if n = ''./Script/config.lua'' then (None, config_globals) else if n = ''./Script/service.lua'' then (None, service_globals)
      else (Some ''cannot open'', globals))"

lemma run_script_globals: "script_globals run_script globals = service_globals"
  by (simp add: script_globals_def run_script_def)

definition read_config :: "int config" where
  "read_config = \<lparr>cfg_state = Some \<lparr>ls_globals = service_globals, m_CacheObjs = Map.empty\<rparr>, m_strLogPath = ''./Log''\<rparr>"

lemma read_config_reads: "config_reads whole_numbers service_globals read_config"
  by (simp add: config_reads_def read_config_def cache_true_def)

lemma shipped_config:
  "\<exists>c. Config_Init ltm pl whole_numbers run_script globals log = Some (Ok True, log, c) \<and> config_reads whole_numbers service_globals c \<and>
    m_strLogPath c = ''./Log''"
proof -
  let ?ls = "\<lparr>ls_globals = service_globals, m_CacheObjs = Map.empty\<rparr> :: int luastate"
  obtain ls1 where ls1: "GetLuaObjectFromCache whole_numbers ?ls ''LogFilePath'' = Some (Some (luastring ''./Log''), ls1)"
      "cache_true whole_numbers ls1" "ls_globals ls1 = service_globals"
    using cached_lookup [of whole_numbers ?ls "''LogFilePath''"] script_names_end by (auto simp: cache_true_def script_lookups(1))
  then show ?thesis
    by (simp add: Config_Init_def DoFile_def run_script_def lookup_string_def config_reads_def)
qed

end
