(* ===== verification/NetListen.thy ===== *)
theory NetListen
  imports ServerSocketProps ConfigScripts
begin

text \<open>
  The listening socket of the network service: \<open>TickNetwork\<close> of \<open>test/NetService.cpp\<close>. Every tick either
  opens the socket, at the address and the port of the configuration, or accepts and receives. The
  connections are those of \<open>ServerSocket\<close>; the callback that makes them is a function. \<open>None\<close> stands
  for a descriptor outside an \<open>fd_set\<close>.
\<close>

section \<open>TickNetwork\<close>

datatype listen_log =
    ListenIpConfig
  | ListenPortConfig
  | ListenFailed string tint16 int
  | ListenSuccess string tint16

record ('n, 'w) listen_env =
  le_server :: "'w server_env"
  le_inet :: "string \<Rightarrow> tuint32"
  le_numbers :: "'n lua_numbers"
  le_ltm :: tm
  le_place :: place

text \<open>What a tick leaves: its outcome with the failed checks, the configuration, the socket, the connections,
  the lines of its log, and the system.\<close>

record ('n, 'w) listen_state =
  ll_config :: "'n config"
  ll_socket :: server_socket
  ll_store :: cs_store
  ll_asserts :: "assert_entry list"
  ll_log :: "listen_log list"
  ll_world :: 'w

definition listen_print :: "listen_log \<Rightarrow> ('n, 'w) listen_state \<Rightarrow> ('n, 'w) listen_state" where
  "listen_print l s = s\<lparr>ll_log := ll_log s @ [l]\<rparr>"

definition listen_open :: "('n, 'w) listen_env \<Rightarrow> 'n luaobject \<Rightarrow> 'n luaobject \<Rightarrow> ('n, 'w) listen_state
    \<Rightarrow> unit outcome \<times> ('n, 'w) listen_state" where
  "listen_open env pIp pPort s =
     (case ToString (le_ltm env) (le_place env) (le_numbers env) pIp (ll_asserts s) of
        (Raised e, log1) \<Rightarrow> (Raised e, s\<lparr>ll_asserts := log1\<rparr>)
      | (Ok ip, log1) \<Rightarrow>
     (case ToInt (le_ltm env) (le_place env) (le_numbers env) pPort log1 of
        (Raised e, log2) \<Rightarrow> (Raised e, s\<lparr>ll_asserts := log2\<rparr>)
      | (Ok p, log2) \<Rightarrow>
          let port = ucast p :: tint16;
              (opened, ss, w1) = server_open (le_server env) (ll_socket s) port (Some (le_inet env (c_string ip))) (ll_world s);
              s1 = s\<lparr>ll_asserts := log2, ll_socket := ss, ll_world := w1\<rparr>
          in (Ok (), listen_print (if \<not> opened then ListenFailed ip port (net_error_no (os_of (le_server env)) w1)
                                   else ListenSuccess ip port) s1)))"

definition TickNetwork :: "('n, 'w) listen_env \<Rightarrow> ('n, 'w) listen_state \<Rightarrow> (unit outcome \<times> ('n, 'w) listen_state) option" where
  "TickNetwork env s =
     (if \<not> server_valid (ll_socket s)
      then
        case Config_GetLuaObject (le_numbers env) (ll_config s) ''ServerSettings.Server1.Ip'' of
          None \<Rightarrow> None
        | Some (None, cfg1) \<Rightarrow> Some (Ok (), listen_print ListenIpConfig (s\<lparr>ll_config := cfg1\<rparr>))
        | Some (Some pIp, cfg1) \<Rightarrow>
       (case Config_GetLuaObject (le_numbers env) cfg1 ''ServerSettings.Server1.Port'' of
          None \<Rightarrow> None
        | Some (None, cfg2) \<Rightarrow> Some (Ok (), listen_print ListenPortConfig (s\<lparr>ll_config := cfg2\<rparr>))
        | Some (Some pPort, cfg2) \<Rightarrow> Some (listen_open env pIp pPort (s\<lparr>ll_config := cfg2\<rparr>)))
      else
        case server_accept_ex (le_server env) 10 (ll_socket s) (ll_store s) (ll_world s) of
          None \<Rightarrow> None
        | Some (_, ss1, st1, w1) \<Rightarrow>
            (case server_recv (le_server env) ss1 st1 w1 of
               None \<Rightarrow> None
             | Some (_, ss2, st2, w2) \<Rightarrow> Some (Ok (), s\<lparr>ll_socket := ss2, ll_store := st2, ll_world := w2\<rparr>)))"

text \<open>The service's ticks one after the other, each in the system as it is by then; \<open>drift\<close> is what happens to it in between.\<close>

fun network_ticks :: "('n, 'w) listen_env \<Rightarrow> ('w \<Rightarrow> 'w) list \<Rightarrow> ('n, 'w) listen_state \<Rightarrow> ('n, 'w) listen_state option" where
  "network_ticks env [] s = Some s"
| "network_ticks env (drift # ds) s =
     (case TickNetwork env (s\<lparr>ll_world := drift (ll_world s)\<rparr>) of
        None \<Rightarrow> None
      | Some (r, s1) \<Rightarrow> network_ticks env ds s1)"

section \<open>A socket without its callback\<close>

definition deaf :: "nat option set \<Rightarrow> server_socket \<Rightarrow> bool" where
  "deaf C ss \<longleftrightarrow> \<not> m_funOnConnect ss \<and> set (m_ClientContainer ss) \<subseteq> C"

lemma recv_scan_subset: "recv_scan st cs fds m = Some (kept, fds', m') \<Longrightarrow> set kept \<subseteq> set cs"
  by (induction cs arbitrary: fds m kept fds' m') (force split: option.splits if_splits)+

lemma deaf_close: "deaf C ss \<Longrightarrow> deaf C (fst (server_close env ss w))"
  by (simp add: deaf_def server_close_def case_prod_unfold Let_def)

lemma deaf_open:
  assumes "deaf C ss" "server_open env ss port ip w = (ok, ss', w')"
  shows "deaf C ss'"
proof -
  have fd: "deaf C (ss\<lparr>m_socket_fd := fd\<rparr>)" for fd using assms(1) by (simp add: deaf_def)
  have failed: "open_failed env (ss\<lparr>m_socket_fd := fd\<rparr>) v = (ok, ss', w') \<Longrightarrow> deaf C ss'" for fd v
    using deaf_close [OF fd, of env fd v] by (auto simp: open_failed_def split: prod.splits)
  show ?thesis using assms(2) fd failed unfolding server_open_def Let_def
    by (auto split: prod.splits if_splits)
qed

text \<open>Opening again after a failure that came later than \<open>socket\<close>: the callback is gone.\<close>

lemma failed_open_clears:
  assumes "server_open env ss port ip w = (False, ss', w')" "fst (socket_ex (os_of env) w 2 1 0) \<noteq> INVALID_SOCKET"
  shows "\<not> m_funOnConnect ss' \<and> m_ClientContainer ss' = m_ClientContainer ss"
  using assms unfolding server_open_def Let_def
  by (auto simp: open_failed_def server_close_def split: prod.splits if_splits)

lemma deaf_accept:
  assumes "deaf C ss"
  shows "server_accept_ex env n ss st w = Some (0, ss, st, w)"
  using assms by (cases "nat n") (simp_all add: server_accept_ex_def deaf_def server_accept_def)

lemma deaf_recv:
  assumes "deaf C ss" "server_recv env ss st w = Some (r, ss', st', w')"
  shows "deaf C ss'"
proof (cases "recv_scan st (m_ClientContainer ss) [] INVALID_SOCKET")
  case None
  then show ?thesis using assms(2) by (simp add: server_recv_def)
next
  case (Some x)
  obtain kept fds m where x: "x = (kept, fds, m)" by (rule prod_cases3)
  have "set kept \<subseteq> set (m_ClientContainer ss)" using recv_scan_subset Some unfolding x by blast
  then have kept: "deaf C (ss\<lparr>m_ClientContainer := kept\<rparr>)" using assms(1) by (auto simp: deaf_def)
  have "ss' = ss\<lparr>m_ClientContainer := kept\<rparr>"
    using assms(2) by (simp add: server_recv_def Some x Let_def split: option.splits prod.splits if_splits)
  then show ?thesis using kept by simp
qed

lemma deaf_listen_open: "deaf C (ll_socket s) \<Longrightarrow> listen_open env pIp pPort s = (r, s') \<Longrightarrow> deaf C (ll_socket s')"
  by (auto simp: listen_open_def listen_print_def Let_def dest: deaf_open split: prod.splits outcome.splits)

lemma deaf_tick:
  assumes "deaf C (ll_socket s)" "TickNetwork env s = Some (r, s')"
  shows "deaf C (ll_socket s')"
proof (cases "server_valid (ll_socket s)")
  case True
  then show ?thesis using assms(2) deaf_recv [OF assms(1)]
    by (auto simp: TickNetwork_def deaf_accept [OF assms(1)] split: option.splits prod.splits)
next
  case False
  then show ?thesis using assms
    by (auto simp: TickNetwork_def listen_print_def dest: deaf_listen_open [rotated] split: option.splits prod.splits)
qed

lemma deaf_ticks: "deaf C (ll_socket s) \<Longrightarrow> network_ticks env ds s = Some s' \<Longrightarrow> deaf C (ll_socket s')"
  by (induction ds arbitrary: s) (auto dest: deaf_tick [rotated] split: option.splits)

text \<open>A tick that opens the socket with what the configuration holds.\<close>

lemma TickNetwork_open:
  assumes "\<not> server_valid (ll_socket s)" "config_reads (le_numbers env) globals (ll_config s)"
    and "name_ends (le_numbers env) globals ''ServerSettings.Server1.Ip''" "name_ends (le_numbers env) globals ''ServerSettings.Server1.Port''"
    and "global_at (le_numbers env) globals ''ServerSettings.Server1.Ip'' = Some pIp"
    and "global_at (le_numbers env) globals ''ServerSettings.Server1.Port'' = Some pPort"
  shows "\<exists>cfg. config_reads (le_numbers env) globals cfg \<and> TickNetwork env s = Some (listen_open env pIp pPort (s\<lparr>ll_config := cfg\<rparr>))"
proof -
  obtain c1 where c1: "Config_GetLuaObject (le_numbers env) (ll_config s) ''ServerSettings.Server1.Ip'' = Some (Some pIp, c1)"
      "config_reads (le_numbers env) globals c1"
    using config_lookup [OF assms(2,3)] assms(5) by auto
  obtain c2 where c2: "Config_GetLuaObject (le_numbers env) c1 ''ServerSettings.Server1.Port'' = Some (Some pPort, c2)"
      "config_reads (le_numbers env) globals c2"
    using config_lookup [OF c1(2) assms(4)] assms(6) by auto
  show ?thesis using c1 c2 assms(1) by (auto simp: TickNetwork_def)
qed

section \<open>Properties\<close>

text \<open>When a tick fails to open the listening socket at a step after \<open>socket\<close>, for instance because the port is
  still in use, the service stays deaf: the failed attempt closes the socket and with it forgets the callback that
  only \<open>Init\<close> sets, so that whatever the later ticks do, even when one of them opens the socket, no connection is
  ever accepted, and the connections are at most those of before.\<close>

theorem failed_open_deafens:
  assumes "TickNetwork env s = Some (Ok (), s1)" "ll_log s1 = ll_log s @ [ListenFailed ip port err]"
    and "fst (socket_ex (os_of (le_server env)) (ll_world s) 2 1 0) \<noteq> INVALID_SOCKET"
    and "network_ticks env ds s1 = Some s2"
  shows "server_accept_ex (le_server env) n (ll_socket s2) st w = Some (0, ll_socket s2, st, w) \<and>
    set (m_ClientContainer (ll_socket s2)) \<subseteq> set (m_ClientContainer (ll_socket s))"
proof -
  let ?C = "set (m_ClientContainer (ll_socket s))"
  have "deaf ?C (ll_socket s1)" using assms(1-3) failed_open_clears [of "le_server env"]
    by (auto simp: TickNetwork_def listen_open_def listen_print_def deaf_def Let_def
        split: option.splits prod.splits outcome.splits if_splits)
  then have "deaf ?C (ll_socket s2)" using assms(4) by (rule deaf_ticks)
  then show ?thesis using deaf_accept by (simp add: deaf_def)
qed

text \<open>A system in which the port is in use at the first \<open>bind\<close>; a client waits to be accepted.\<close>

definition busy_port :: "nat server_env" where
  "busy_port = \<lparr>os_socket = (\<lambda>w a b c. (5, w)), os_listen = (\<lambda>w s n. (0, w)), os_bind = (\<lambda>w s a. (if w = 0 then - 1 else 0, w + 1)),
     os_accept = (\<lambda>w s. (6, \<lparr>sin_addr = 1, sin_port = 80\<rparr>, w)), os_close = (\<lambda>w s. (0, w)),
     os_getfl = (\<lambda>w s. 0), os_setfl = (\<lambda>w s f. (0, w)), os_setsockopt = (\<lambda>w s a b. (0, w)), os_getsockopt = (\<lambda>w s a. (0, 0)),
     os_connect = (\<lambda>w s a. (0, w)), os_select = (\<lambda>w n r v t. (1, r, v, w)), os_recv = (\<lambda>w s n. (RecvError, w)),
     os_send = (\<lambda>w s b. (SendError, w)), os_errno = (\<lambda>w. 98), on_disconnect = (\<lambda>c w. (c, w)),
     on_recv_message = (\<lambda>c b w. (0, c, w)), on_connect = (\<lambda>ip port st w. (Some 1, st, w))\<rparr>"

definition busy_env :: "(int, nat) listen_env" where
  "busy_env = \<lparr>le_server = busy_port, le_inet = (\<lambda>t. 0x7F000001), le_numbers = whole_numbers,
     le_ltm = \<lparr>tm_year = 0, tm_mon = 0, tm_mday = 1, tm_hour = 0, tm_min = 0, tm_sec = 0, tm_wday = 0\<rparr>,
     le_place = \<lparr>pl_file = [], pl_line = 0, pl_func = []\<rparr>\<rparr>"

definition busy_start :: "(int, nat) listen_state" where
  "busy_start = \<lparr>ll_config = read_config, ll_socket = ServerSocket_new\<lparr>m_funOnConnect := True\<rparr>, ll_store = (\<lambda>_. ClientSocket_new),
     ll_asserts = [], ll_log = [], ll_world = 0\<rparr>"

lemmas open_steps = server_open_def socket_ex_def setsockopt_ex_def bind_ex_def listen_ex_def set_non_block_def
  open_failed_def server_close_def closesocket_ex_def INVALID_SOCKET_def SOCKET_ERROR_def

lemma busy_open:
  "server_open busy_port ss port ip 0 = (False, ss\<lparr>m_socket_fd := - 1, m_funOnConnect := False\<rparr>, 1)"
  "server_open busy_port ss port ip 1 = (True, ss\<lparr>m_socket_fd := 5\<rparr>, 2)"
  by (simp_all add: open_steps busy_port_def)

lemma busy_lookups:
  "name_ends (le_numbers busy_env) service_globals ''ServerSettings.Server1.Ip''"
  "name_ends (le_numbers busy_env) service_globals ''ServerSettings.Server1.Port''"
  "global_at (le_numbers busy_env) service_globals ''ServerSettings.Server1.Ip'' = Some (luastring ''127.0.0.1'')"
  "global_at (le_numbers busy_env) service_globals ''ServerSettings.Server1.Port'' = Some (luanumber 6666)"
  using script_names_end by (simp_all add: busy_env_def script_lookups)

theorem failed_open_deafens_witness:
  "\<exists>s1 s2 s3. TickNetwork busy_env busy_start = Some (Ok (), s1) \<and> ll_log s1 = [ListenFailed ''127.0.0.1'' 6666 98] \<and>
     network_ticks busy_env [id] s1 = Some s2 \<and> ll_log s2 = ll_log s1 @ [ListenSuccess ''127.0.0.1'' 6666] \<and>
     server_valid (ll_socket s2) \<and>
     server_accept_ex busy_port 10 (ll_socket s2) (ll_store s2) (ll_world s2) = Some (0, ll_socket s2, ll_store s2, ll_world s2)"
proof -
  have ops: "le_numbers busy_env = whole_numbers" "le_server busy_env = busy_port" by (simp_all add: busy_env_def)
  have v0: "\<not> server_valid (ll_socket busy_start)" by (simp add: busy_start_def ServerSocket_new_def server_valid_def)
  have r0: "config_reads (le_numbers busy_env) service_globals (ll_config busy_start)"
    by (simp add: ops busy_start_def read_config_reads)
  obtain c1 where c1: "config_reads (le_numbers busy_env) service_globals c1" "TickNetwork busy_env busy_start =
      Some (listen_open busy_env (luastring ''127.0.0.1'') (luanumber 6666) (busy_start\<lparr>ll_config := c1\<rparr>))"
    using TickNetwork_open [OF v0 r0 busy_lookups] by blast
  define s1 where "s1 = snd (listen_open busy_env (luastring ''127.0.0.1'') (luanumber 6666) (busy_start\<lparr>ll_config := c1\<rparr>))"
  have err: "net_error_no (os_of busy_port) w = 98" for w by (simp add: net_error_no_def busy_port_def net_os.truncate_def)
  have t1: "TickNetwork busy_env busy_start = Some (Ok (), s1)" "ll_log s1 = [ListenFailed ''127.0.0.1'' 6666 98]"
      "ll_socket s1 = ServerSocket_new" "ll_world s1 = 1" "ll_config s1 = c1"
    using c1(2) unfolding s1_def
    by (simp_all add: listen_open_def ops busy_start_def busy_open listen_print_def err whole_numbers_def ServerSocket_new_def INVALID_SOCKET_def)
  have v1: "\<not> server_valid (ll_socket (s1\<lparr>ll_world := id (ll_world s1)\<rparr>))" by (simp add: t1 ServerSocket_new_def server_valid_def)
  have r1: "config_reads (le_numbers busy_env) service_globals (ll_config (s1\<lparr>ll_world := id (ll_world s1)\<rparr>))" by (simp add: t1 c1(1))
  obtain c2 where c2: "TickNetwork busy_env (s1\<lparr>ll_world := id (ll_world s1)\<rparr>) =
      Some (listen_open busy_env (luastring ''127.0.0.1'') (luanumber 6666) (s1\<lparr>ll_world := id (ll_world s1)\<rparr>\<lparr>ll_config := c2\<rparr>))"
    using TickNetwork_open [OF v1 r1 busy_lookups] by blast
  define s2 where "s2 = snd (listen_open busy_env (luastring ''127.0.0.1'') (luanumber 6666) (s1\<lparr>ll_world := id (ll_world s1)\<rparr>\<lparr>ll_config := c2\<rparr>))"
  have t2: "network_ticks busy_env [id] s1 = Some s2" "ll_log s2 = ll_log s1 @ [ListenSuccess ''127.0.0.1'' 6666]" "server_valid (ll_socket s2)"
    using c2 unfolding s2_def
    by (simp_all add: listen_open_def ops t1 busy_open(2) [unfolded One_nat_def] listen_print_def whole_numbers_def server_valid_def INVALID_SOCKET_def)
  have log: "ll_log s1 = ll_log busy_start @ [ListenFailed ''127.0.0.1'' 6666 98]" by (simp add: t1 busy_start_def)
  have got: "fst (socket_ex (os_of (le_server busy_env)) (ll_world busy_start) 2 1 0) \<noteq> INVALID_SOCKET"
    by (simp add: ops socket_ex_def busy_port_def INVALID_SOCKET_def)
  have "server_accept_ex busy_port 10 (ll_socket s2) (ll_store s2) (ll_world s2) = Some (0, ll_socket s2, ll_store s2, ll_world s2)"
    using failed_open_deafens [OF t1(1) log got t2(1)] by (simp add: ops)
  then show ?thesis using t1 t2 by blast
qed

end
