(* ===== verification/ServiceStart.thy ===== *)
theory ServiceStart
  imports NetListen HttpService DBServiceTick ClientService ServiceManager LogEngine TitleProto
begin

text \<open>
  How the program starts: \<open>Init\<close> of the services in \<open>test/NetService.cpp\<close>, \<open>test/HttpService.cpp\<close>,
  \<open>test/HttpManagerService.cpp\<close>, \<open>test/ClientService.cpp\<close>, \<open>test/DBService.cpp\<close> and
  \<open>test/MonitorService.cpp\<close>. \<open>Service::Init\<close>, which each calls first, returns true and does nothing. The lines that are
  logged on the way are left out but for those of the database service; \<open>None\<close> stands for an access outside a buffer, as of a
  channel that could not be attached.
\<close>

section \<open>What every Init does\<close>

text \<open>
  The configuration, the log of the service, the memory of its channel's block, the system, and the failed checks. A service
  whose model holds that memory itself gets it when its channel is set up.
\<close>

record ('n, 'h, 'w) start_env =
  se_numbers :: "'n lua_numbers"
  se_ltm :: tm
  se_place :: place
  se_files :: "('w, 'h) file_os"
  se_shm :: "'w shm_os"

record ('n, 'h, 'w) start_state =
  ss_config :: "'n config"
  ss_logger :: "'h log_engine"
  ss_mem :: memory
  ss_world :: 'w
  ss_asserts :: "assert_entry list"

definition MSG_QUEUE_SIZE_DEFAULT :: tint32 where "MSG_QUEUE_SIZE_DEFAULT = 0x1000000"

text \<open>The name of the log file; the result of \<open>init\<close> is not looked at.\<close>

definition log_prefix :: "string \<Rightarrow> string \<Rightarrow> tint32 \<Rightarrow> string" where
  "log_prefix path name nServiceID =
     snprintf_text MAX_FILE_NAME_LENGTH (c_string path @ ''/'' @ name @ ''_'' @ show_int (sint nServiceID))"

definition start_log :: "('n, 'h, 'w) start_env \<Rightarrow> string \<Rightarrow> tint32 \<Rightarrow> ('n, 'h, 'w) start_state \<Rightarrow> ('n, 'h, 'w) start_state" where
  "start_log env name nServiceID s =
     (let (_, lg, w) = log_init (se_files env) (ss_logger s) 0xFF (Some (log_prefix (m_strLogPath (ss_config s)) name nServiceID)) (ss_world s)
      in s\<lparr>ss_logger := lg, ss_world := w\<rparr>)"

text \<open>The channel: the number at a place of the configuration, and the key made of it.\<close>

definition start_channel :: "('n, 'h, 'w) start_env \<Rightarrow> string \<Rightarrow> (tint32 \<Rightarrow> tuint32) \<Rightarrow> message_channel \<Rightarrow> ('n, 'h, 'w) start_state
    \<Rightarrow> (bool outcome \<times> message_channel \<times> ('n, 'h, 'w) start_state) option" where
  "start_channel env strName to_key ch s =
     (case Config_GetLuaObject (se_numbers env) (ss_config s) strName of
        None \<Rightarrow> None
      | Some (None, cfg1) \<Rightarrow> Some (Ok False, ch, s\<lparr>ss_config := cfg1\<rparr>)
      | Some (Some pChannelKey, cfg1) \<Rightarrow>
          (case ToInt (se_ltm env) (se_place env) (se_numbers env) pChannelKey (ss_asserts s) of
             (Raised e, log1) \<Rightarrow> Some (Raised e, ch, s\<lparr>ss_config := cfg1, ss_asserts := log1\<rparr>)
           | (Ok k, log1) \<Rightarrow>
               (case InitMessageQueue (se_shm env) (ss_world s) ch (ss_mem s) (to_key k) MSG_QUEUE_SIZE_DEFAULT MSG_QUEUE_SIZE_DEFAULT of
                  None \<Rightarrow> None
                | Some (_, ch1, m1, w1) \<Rightarrow>
                    Some (Ok True, ch1, s\<lparr>ss_config := cfg1, ss_asserts := log1, ss_mem := m1, ss_world := w1\<rparr>))))"

section \<open>The services\<close>

definition NetService_Init :: "('n, 'h, 'w) start_env \<Rightarrow> tint32 \<Rightarrow> net_service \<Rightarrow> server_socket \<Rightarrow> ('n, 'h, 'w) start_state
    \<Rightarrow> (bool outcome \<times> net_service \<times> server_socket \<times> ('n, 'h, 'w) start_state) option" where
  "NetService_Init env nServiceID ns ss s =
     map_option (\<lambda>(r, ch, s1).
         let ns1 = ns\<lparr>m_kMCLogin2Http := ch\<rparr>
         in if r = Ok True then (r, net_Init_tables ns1, ss\<lparr>m_funOnConnect := True\<rparr>, s1) else (r, ns1, ss, s1))
       (start_channel env ''Service.HttpManager.msgchannel.channel1.key'' (\<lambda>k. k) (m_kMCLogin2Http ns)
          (start_log env ''NetService'' nServiceID s))"

text \<open>The handle of libcurl as the options set on it; \<open>None\<close> is the null pointer.\<close>

datatype curl_option =
    CURLOPT_NOSIGNAL int
  | CURLOPT_CONNECTTIMEOUT int
  | CURLOPT_TIMEOUT int
  | CURLOPT_WRITEFUNCTION
  | CURLOPT_WRITEDATA

record 'w curl_api =
  curl_easy_init :: "'w \<Rightarrow> bool \<times> 'w"
  curl_version_info :: "'w \<Rightarrow> string option option"

text \<open>A failed check is logged where it fails and where \<open>__LEAVE_FUNCTION\<close> catches it.\<close>

definition raise_in_function :: "('n, 'h, 'w) start_env \<Rightarrow> string \<Rightarrow> assert_entry list \<Rightarrow> 'a outcome \<times> assert_entry list" where
  "raise_in_function env expr log =
     (case AssertEx (se_ltm env) (se_place env) False expr [] log of
        (_, log1) \<Rightarrow> (Raised OtherException, snd (AssertEx (se_ltm env) (se_place env) False ''false'' (exn_text (se_place env) OtherException) log1)))"

definition InitCurl :: "('n, 'h, 'w) start_env \<Rightarrow> 'w curl_api \<Rightarrow> curl_option list option \<Rightarrow> ('n, 'h, 'w) start_state
    \<Rightarrow> bool outcome \<times> curl_option list option \<times> ('n, 'h, 'w) start_state" where
  "InitCurl env api pCurl s =
     (let fail = (\<lambda>expr h s. let (r, log1) = raise_in_function env expr (ss_asserts s) in (r, h, s\<lparr>ss_asserts := log1\<rparr>))
      in if pCurl \<noteq> None then fail ''m_pCurl == null_ptr'' pCurl s
         else
           let (made, w1) = curl_easy_init api (ss_world s); s1 = s\<lparr>ss_world := w1\<rparr>
           in if \<not> made then fail ''m_pCurl != null_ptr'' None s1
              else case curl_version_info api w1 of
                     None \<Rightarrow> fail ''pCurlVersion != null_ptr'' (Some []) s1
                   | Some None \<Rightarrow> fail ''pCurlVersion->version != null_ptr'' (Some []) s1
                   | Some (Some version) \<Rightarrow>
                       (Ok True, Some [CURLOPT_NOSIGNAL 1, CURLOPT_CONNECTTIMEOUT 10, CURLOPT_TIMEOUT 60, CURLOPT_WRITEFUNCTION,
                          CURLOPT_WRITEDATA], s1))"

definition HttpService_Init :: "('n, 'h, 'w) start_env \<Rightarrow> 'w curl_api \<Rightarrow> tint32 \<Rightarrow> http_service \<Rightarrow> curl_option list option
    \<Rightarrow> ('n, 'h, 'w) start_state \<Rightarrow> (bool outcome \<times> http_service \<times> curl_option list option \<times> ('n, 'h, 'w) start_state) option" where
  "HttpService_Init env api nServiceID hs pCurl s =
     map_option (\<lambda>(r, ch, s1).
         let hs1 = hs\<lparr>hs_channel := ch, hs_mem := ss_mem s1\<rparr>
         in if r = Ok True
            then (let (r2, curl1, s2) = InitCurl env api pCurl s1
                  in (r2, if r2 = Ok True then http_Init_tables hs1 else hs1, curl1, s2))
            else (r, hs1, pCurl, s1))
       (start_channel env ''Service.Http.msgchannel.channel1.key'' (\<lambda>k. nServiceID * 10000 + k) (hs_channel hs)
          (start_log env ''HttpService'' nServiceID s))"

definition HttpManager_Init :: "('n, 'h, 'w) start_env \<Rightarrow> tint32 \<Rightarrow> http_manager \<Rightarrow> ('n, 'h, 'w) start_state
    \<Rightarrow> (bool outcome \<times> http_manager \<times> ('n, 'h, 'w) start_state) option" where
  "HttpManager_Init env nServiceID M s =
     map_option (\<lambda>(r, ch, s1).
         let M1 = M\<lparr>hm_channel := ch, hm_mem := ss_mem s1\<rparr>
         in (r, if r = Ok True then M1\<lparr>m_nInputMsgCount := 0, m_nOutputMsgCount := 0\<rparr> else M1, s1))
       (start_channel env ''Service.HttpManager.msgchannel.channel1.key'' (\<lambda>k. k) (hm_channel M)
          (start_log env ''HttpManagerService'' nServiceID s))"

definition ClientService_Init :: "('n, 'h, 'w) start_env \<Rightarrow> tint32 \<Rightarrow> client_service \<Rightarrow> ('n, 'h, 'w) start_state
    \<Rightarrow> bool outcome \<times> client_service \<times> ('n, 'h, 'w) start_state" where
  "ClientService_Init env nServiceID c s = (Ok True, c\<lparr>cl_nLastTickTime := 0\<rparr>, start_log env ''ClientService'' nServiceID s)"

text \<open>The monitor's log is called at 19:07 every day; \<open>cb\<close> is \<open>MonitorService::Log\<close>.\<close>

definition Monitor_Init :: "('n, 'h, 'w) start_env \<Rightarrow> tint32 \<Rightarrow> (time_data \<Rightarrow> 'x \<Rightarrow> unit outcome \<times> 'x) \<Rightarrow> 'x service
    \<Rightarrow> ('n, 'h, 'w) start_state \<Rightarrow> bool outcome \<times> tuint64 \<times> 'x service \<times> ('n, 'h, 'w) start_state" where
  "Monitor_Init env nServiceID cb sv s =
     (let s1 = start_log env ''MonitorService'' nServiceID s;
          clock = clock_os.truncate (se_files env);
          t = SetCallBack cb (SetAlarmMinute 7 (SetAlarmHour 19 (TimerEx_new clock (ss_world s1))))
      in (Ok True, ticktime clock (ss_world s1), AddTimer t sv, s1))"

section \<open>The database service\<close>

text \<open>The character of the trial; \<open>stack\<close> is what the name's buffer held before.\<close>

definition trial_char :: "string \<Rightarrow> db_char_title char_data" where
  "trial_char stack =
     \<lparr>cd_nID = 1, cd_szCharName = ''dadada'' @ CHR 0x00 # drop 7 stack,
      cd_TitleData = \<lparr>dct_version = 1, dct_uid = RepeatedField_Add 2 (RepeatedField_Add 1 RepeatedField_new),
        dct_title = [replicate 5 0x61, replicate 5 0x62]\<rparr>\<rparr>"

text \<open>The trial of the first character, whose results nobody looks at.\<close>

definition DB_mysql_trial :: "('w, 'q) mysql_api \<Rightarrow> string \<Rightarrow> 'c db_service \<Rightarrow> 'w \<Rightarrow> (db_char_title char_data \<times> 'c db_service \<times> 'w) option" where
  "DB_mysql_trial api stack s w =
     (case CreateChar api DBCharTitle_protobuf s 1 (trial_char stack) w of
        None \<Rightarrow> None
      | Some (_, s1, w1) \<Rightarrow>
     (case LoadCharInfo api DBCharTitle_protobuf s1 1 (trial_char stack) w1 of
        None \<Rightarrow> None
      | Some (_, cd, s2, w2) \<Rightarrow>
          map_option (\<lambda>(_, s3, w3). (cd, s3, w3)) (UpdateCharInfo api DBCharTitle_protobuf s2 cd w2)))"

text \<open>Both connections, with what is logged when one cannot be opened.\<close>

definition DB_open :: "('w, 'q) mysql_api \<Rightarrow> ('v, 'c, 'r) redis_api \<Rightarrow> 'c db_process \<Rightarrow> 'w \<Rightarrow> 'v
    \<Rightarrow> (bool \<times> 'c db_process \<times> 'w \<times> 'v) option" where
  "DB_open api rapi p w v =
     (case mh_init api (db_mysql (dp_db p)) (Some ''192.168.137.129'') (Some ''test'') (Some ''123456'') (Some ''mm_test'')
             mysql_default_port w of
        None \<Rightarrow> None
      | Some (r, h1, w1) \<Rightarrow>
          let p1 = p\<lparr>dp_db := (dp_db p)\<lparr>db_mysql := h1\<rparr>\<rparr>
          in if r \<noteq> my_success then Some (False, db_log (DbMysqlError (mh_last_errno api w1)) p1, w1, v)
             else let (r2, rh, v1) = Redis_Open rapi (db_redis (dp_db p1)) ''192.168.137.129'' 6379 v;
                      p2 = p1\<lparr>dp_db := (dp_db p1)\<lparr>db_redis := rh\<rparr>\<rparr>
                  in if r2 \<noteq> redis_success then Some (False, db_log DbOpenRedis p2, w1, v1) else Some (True, p2, w1, v1))"

text \<open>The channel of the service, and the table of its messages.\<close>

definition DB_start :: "('n, 'h, 'u) start_env \<Rightarrow> tint32 \<Rightarrow> 'c db_process \<Rightarrow> ('n, 'h, 'u) start_state
    \<Rightarrow> (bool outcome \<times> 'c db_process \<times> ('n, 'h, 'u) start_state) option" where
  "DB_start env nServiceID p s =
     map_option (\<lambda>(r, ch, s1). let p1 = p\<lparr>dp_channel := ch, dp_mem := ss_mem s1\<rparr> in (r, if r = Ok True then DB_Init_tables p1 else p1, s1))
       (start_channel env ''Service.DBService.msgchannel.channel1.key'' (\<lambda>k. nServiceID * 10000 + k) (dp_channel p) s)"

text \<open>\<open>cb\<close> is \<open>TickConnect\<close>, called every minute.\<close>

definition DB_Init :: "('n, 'h, 'u) start_env \<Rightarrow> ('w, 'q) mysql_api \<Rightarrow> ('v, 'c, 'r) redis_api \<Rightarrow> ('r \<Rightarrow> redis_reply) \<Rightarrow> string
    \<Rightarrow> tint32 \<Rightarrow> (time_data \<Rightarrow> 'x \<Rightarrow> unit outcome \<times> 'x) \<Rightarrow> 'x service \<Rightarrow> 'c db_process \<Rightarrow> ('n, 'h, 'u) start_state \<Rightarrow> 'w \<Rightarrow> 'v
    \<Rightarrow> (bool outcome \<times> 'x service \<times> 'c db_process \<times> ('n, 'h, 'u) start_state \<times> 'w \<times> 'v) option" where
  "DB_Init env api rapi reply stack nServiceID cb sv p s w v =
     (let s1 = start_log env ''DBService'' nServiceID s
      in case DB_open api rapi p w v of
           None \<Rightarrow> None
         | Some (False, p1, w1, v1) \<Rightarrow> Some (Ok False, sv, p1, s1, w1, v1)
         | Some (True, p1, w1, v1) \<Rightarrow>
     (let t = SetCallBack cb (SetInterval 60000 (TimerEx_new (clock_os.truncate (se_files env)) (ss_world s1)));
          sv1 = AddTimer t sv
      in case DB_mysql_trial api stack (dp_db p1) w1 of
           None \<Rightarrow> None
         | Some (cd, db2, w2) \<Rightarrow>
     (case DB_redis_trial rapi reply DBCharTitle_protobuf DBCharTitle_new cd db2 v1 of
        None \<Rightarrow> None
      | Some (ok, logged, db3, v2) \<Rightarrow>
          let p2 = p1\<lparr>dp_db := db3, dp_log := dp_log p1 @ logged\<rparr>
          in if \<not> ok then Some (Ok False, sv1, p2, s1, w2, v2)
             else map_option (\<lambda>(r, p3, s2). (r, sv1, p3, s2, w2, v2)) (DB_start env nServiceID p2 s1))))"

section \<open>The channels\<close>

text \<open>Documented behaviour of a system that has room: a block is found or created, and mapped somewhere.\<close>

definition shm_available :: "'w shm_os \<Rightarrow> bool" where
  "shm_available os \<longleftrightarrow> (\<forall>w k n f. fst (shmget os w k n f) \<noteq> INVALID_SM_HANDLE) \<and> (\<forall>w h. fst (shmat os w h) \<noteq> 0)"

lemma attach_available:
  assumes "shm_available os" "0 < n" "n + 48 < size_max"
  shows "\<exists>sm w'. attach_share_memory os w Share_Memory_new key n = (True, sm, w') \<and> get_mode sm = ESM_INIT \<and> m_uiKey sm = key"
proof -
  obtain h w1 where h: "OpenShareMem os w key (sz_add n sizeof_Share_Memory) = (h, w1)" by fastforce
  obtain base w2 where base: "MapShareMem os w1 h = (base, w2)" by fastforce
  have "h \<noteq> INVALID_SM_HANDLE"
    using assms(1) h unfolding shm_available_def OpenShareMem_def by (metis fst_conv)
  moreover have "base \<noteq> 0"
    using assms(1) base unfolding shm_available_def MapShareMem_def by (metis fst_conv)
  ultimately have "fst (attach_share_memory os w Share_Memory_new key n)"
    using assms(2) by (auto simp: attach_share_memory_def Let_def h base)
  then obtain sm w' where sm: "attach_share_memory os w Share_Memory_new key n = (True, sm, w')"
    by (cases "attach_share_memory os w Share_Memory_new key n") auto
  then show ?thesis using attach_fresh_mode [OF sm assms(3,2)] attach_attached(4) [OF sm assms(3)] by blast
qed

lemma create_segment_key [simp]: "m_uiKey (snd (create_segment sm n)) = m_uiKey sm"
  by (simp add: create_segment_def)

lemma InitMessageQueue_key:
  assumes "InitMessageQueue os w ch m key ni no = Some (ok, ch1, m1, w1)"
    and "attach_share_memory os w (m_kShareMemory ch) key (sz_add (alloc_size (size_of_tint32 ni)) (alloc_size (size_of_tint32 no)))
      = (a, sm, w2)"
  shows "m_uiKey (m_kShareMemory ch1) = m_uiKey sm"
proof -
  obtain p2 sm2 where c2: "create_segment sm (alloc_size (size_of_tint32 ni)) = (p2, sm2)" by fastforce
  obtain p3 sm3 where c3: "create_segment sm2 (alloc_size (size_of_tint32 no)) = (p3, sm3)" by fastforce
  have "m_uiKey sm2 = m_uiKey sm" "m_uiKey sm3 = m_uiKey sm2"
    using create_segment_key [of sm "alloc_size (size_of_tint32 ni)"] create_segment_key [of sm2 "alloc_size (size_of_tint32 no)"]
    unfolding c2 c3 by simp_all
  then show ?thesis using assms by (auto simp: InitMessageQueue_def Let_def c2 c3 split: option.splits if_splits)
qed

lemma queue_sizes: "size_of_tint32 MSG_QUEUE_SIZE_DEFAULT = 0x1000000" "alloc_size 0x1000000 = 0x1000030"
  by (simp_all add: MSG_QUEUE_SIZE_DEFAULT_def size_of_tint32_def alloc_size_def sz_simps)

text \<open>A started channel: both queues empty, and the key of its block.\<close>

definition channel_started :: "message_channel \<Rightarrow> memory \<Rightarrow> tuint32 \<Rightarrow> bool" where
  "channel_started ch m key \<longleftrightarrow> channel_inv ch 0x1000010 m [] [] \<and> mq_size (m_kMsgOutput ch) m = 0x1000000 \<and>
     m_uiKey (m_kShareMemory ch) = key"

lemma start_channel_ok:
  assumes "config_reads (se_numbers env) globals (ss_config s)" "global_at (se_numbers env) globals strName = Some (luanumber k)"
    and "shm_available (se_shm env)" "m_kShareMemory ch = Share_Memory_new" "name_ends (se_numbers env) globals strName"
  shows "\<exists>ch1 s1. start_channel env strName to_key ch s = Some (Ok True, ch1, s1) \<and>
    channel_started ch1 (ss_mem s1) (to_key (num_to_int (se_numbers env) k)) \<and> config_reads (se_numbers env) globals (ss_config s1)"
proof -
  let ?key = "to_key (num_to_int (se_numbers env) k)" and ?d = "MSG_QUEUE_SIZE_DEFAULT"
  obtain c1 where c1: "Config_GetLuaObject (se_numbers env) (ss_config s) strName = Some (Some (luanumber k), c1)"
      "config_reads (se_numbers env) globals c1"
    using config_lookup [OF assms(1,5)] assms(2) by auto
  have "0 < sz_add (alloc_size (size_of_tint32 ?d)) (alloc_size (size_of_tint32 ?d))"
    "sz_add (alloc_size (size_of_tint32 ?d)) (alloc_size (size_of_tint32 ?d)) + 48 < size_max"
    by (simp_all add: queue_sizes sz_simps)
  from attach_available [OF assms(3) this, of "ss_world s" ?key]
  obtain sm w1 where sm: "attach_share_memory (se_shm env) (ss_world s) (m_kShareMemory ch) ?key
      (sz_add (alloc_size (size_of_tint32 ?d)) (alloc_size (size_of_tint32 ?d))) = (True, sm, w1)" "get_mode sm = ESM_INIT" "m_uiKey sm = ?key"
    unfolding assms(4) by blast
  have "0 \<le> sint ?d" by (simp add: MSG_QUEUE_SIZE_DEFAULT_def)
  from InitMessageQueue_fresh [OF sm(1,2) this this, of "ss_mem s"]
  obtain ch1 m1 where q: "InitMessageQueue (se_shm env) (ss_world s) ch (ss_mem s) ?key ?d ?d = Some (True, ch1, m1, w1)"
      "channel_inv ch1 0x1000010 m1 [] []" "mq_size (m_kMsgOutput ch1) m1 = 0x1000000"
    by (auto simp: queue_sizes)
  have "m_uiKey (m_kShareMemory ch1) = ?key" using InitMessageQueue_key [OF q(1) sm(1)] sm(3) by simp
  then show ?thesis using q c1 by (auto simp: start_channel_def channel_started_def)
qed

lemma start_log_config [simp]: "ss_config (start_log env name i s) = ss_config s"
  by (simp add: start_log_def case_prod_unfold Let_def)

end
