(* ===== verification/ProcessStart.thy ===== *)
theory ProcessStart
  imports ServiceStart
begin

text \<open>
  The start of the process: \<open>RunServiceManager\<close> of \<open>test/main.cpp\<close> up to the call of \<open>ServiceManager::Run\<close>, which is the
  step relation of \<open>ServiceManager\<close>, and what is deleted after it, by \<open>main.cpp\<close>, by the destructor of the manager of the
  http services, and by the shared pointers of \<open>gServiceManager\<close>. An object is a number, in the order they are made.
\<close>

section \<open>Making the services\<close>

datatype service_kind = MonitorS | HttpManagerS | HttpS | NetS | ClientS | DBS

text \<open>\<open>ServiceType\<close> of \<open>test/ServiceDefine.h\<close>, as \<open>GetServiceType\<close> of each class answers it.\<close>

fun kind_type :: "service_kind \<Rightarrow> tint32" where
  "kind_type NetS = 0"
| "kind_type HttpS = 1"
| "kind_type HttpManagerS = 2"
| "kind_type MonitorS = 3"
| "kind_type ClientS = 4"
| "kind_type DBS = 5"

text \<open>The manager of the services, the number of objects made so far, and the services of the http manager.\<close>

record 'w making =
  mk_mgr :: "'w manager"
  mk_count :: nat
  mk_pool :: "nat list"

text \<open>Each service is registered as soon as it is made; \<open>vt\<close> holds the virtual functions of the classes.\<close>

definition new_service :: "(service_kind \<Rightarrow> 'w service_class) \<Rightarrow> service_kind \<Rightarrow> 'w making \<Rightarrow> nat \<times> 'w making" where
  "new_service vt k mk =
     (mk_count mk, mk\<lparr>mk_mgr := snd (Register (Some ((vt k)\<lparr>GetServiceType := kind_type k\<rparr>, Service_new)) (mk_mgr mk)),
        mk_count := Suc (mk_count mk)\<rparr>)"

fun new_https :: "(service_kind \<Rightarrow> 'w service_class) \<Rightarrow> nat \<Rightarrow> 'w making \<Rightarrow> 'w making" where
  "new_https vt 0 mk = mk"
| "new_https vt (Suc n) mk =
     (let (p, mk1) = new_service vt HttpS mk in new_https vt n (mk1\<lparr>mk_pool := mk_pool mk1 @ [p]\<rparr>))"

record run_objects =
  ro_monitor :: nat
  ro_http_manager :: nat
  ro_net :: nat
  ro_client1 :: nat
  ro_client2 :: nat
  ro_db :: nat

text \<open>From the first service on; \<open>count\<close> is asked for its number in every turn of the loop, which does not change it.\<close>

definition make_services :: "tm \<Rightarrow> place \<Rightarrow> 'n lua_numbers \<Rightarrow> (service_kind \<Rightarrow> 'w service_class) \<Rightarrow> 'n luaobject \<Rightarrow> 'w making \<Rightarrow> assert_entry list
    \<Rightarrow> run_objects outcome \<times> assert_entry list \<times> 'w making" where
  "make_services ltm pl ops vt pHttpServiceCount mk log =
     (let (mon, mk1) = new_service vt MonitorS mk;
          (man, mk2) = new_service vt HttpManagerS mk1
      in case ToInt ltm pl ops pHttpServiceCount log of
           (Raised e, log1) \<Rightarrow> (Raised e, log1, mk2)
         | (Ok c, log1) \<Rightarrow>
             let mk3 = new_https vt (nat (sint c)) mk2;
                 (net, mk4) = new_service vt NetS mk3;
                 (c1, mk5) = new_service vt ClientS mk4;
                 (c2, mk6) = new_service vt ClientS mk5;
                 (db, mk7) = new_service vt DBS mk6
             in (Ok \<lparr>ro_monitor = mon, ro_http_manager = man, ro_net = net, ro_client1 = c1, ro_client2 = c2, ro_db = db\<rparr>, log1, mk7))"

text \<open>
  Up to \<open>Run\<close>: the objects made when it is reached, \<open>Ok None\<close> for the early return. \<open>log_ok\<close> is the result of
  \<open>Log_Engine::init\<close> in \<open>Create\<close>, whose own result is not looked at.
\<close>

definition RunServiceManager :: "tm \<Rightarrow> place \<Rightarrow> 'n lua_numbers \<Rightarrow> 'n lua_run \<Rightarrow> 'n lua_globals \<Rightarrow> bool \<Rightarrow> (service_kind \<Rightarrow> 'w service_class)
    \<Rightarrow> 'w making \<Rightarrow> assert_entry list \<Rightarrow> (run_objects option outcome \<times> assert_entry list \<times> 'n config \<times> 'w making) option" where
  "RunServiceManager ltm pl ops run globals log_ok vt mk log =
     (case Config_Init ltm pl ops run globals log of
        None \<Rightarrow> None
      | Some (Raised e, log1, cfg) \<Rightarrow> Some (Raised e, log1, cfg, mk)
      | Some (Ok _, log1, cfg) \<Rightarrow>
     (case Config_GetLuaObject ops cfg ''Service'' of
        None \<Rightarrow> None
      | Some (None, cfg1) \<Rightarrow>
          (let (_, log2) = AssertEx ltm pl False ''false'' ''load service config failed'' log1 in Some (Raised OtherException, log2, cfg1, mk))
      | Some (Some _, cfg1) \<Rightarrow>
     (case Config_GetLuaObject ops cfg1 ''ThreadCount'' of
        None \<Rightarrow> None
      | Some (None, cfg2) \<Rightarrow>
          (let (_, log2) = AssertEx ltm pl False ''false'' ''load thread info failed'' log1 in Some (Raised OtherException, log2, cfg2, mk))
      | Some (Some pLuaThreadObj, cfg2) \<Rightarrow>
     (case Config_GetLuaObject ops cfg2 ''Service.HttpManager.count'' of
        None \<Rightarrow> None
      | Some (None, cfg3) \<Rightarrow> Some (Ok None, log1, cfg3, mk)
      | Some (Some pHttpServiceCount, cfg3) \<Rightarrow>
     (case ToInt ltm pl ops pLuaThreadObj log1 of
        (Raised e, log2) \<Rightarrow> Some (Raised e, log2, cfg3, mk)
      | (Ok nThreadCount, log2) \<Rightarrow>
     (case Create log_ok nThreadCount (mk_mgr mk) of
        (Raised e, mgr1) \<Rightarrow> Some (Raised e, log2, cfg3, mk\<lparr>mk_mgr := mgr1\<rparr>)
      | (Ok _, mgr1) \<Rightarrow>
          (case make_services ltm pl ops vt pHttpServiceCount (mk\<lparr>mk_mgr := mgr1\<rparr>) log2 of
             (Raised e, log3, mk1) \<Rightarrow> Some (Raised e, log3, cfg3, mk1)
           | (Ok objs, log3, mk1) \<Rightarrow> Some (Ok (Some objs), log3, cfg3, mk1))))))))"

section \<open>The end of the process\<close>

text \<open>The manager of the http services deletes those it has made, in its destructor.\<close>

definition deleted_by_main :: "run_objects \<Rightarrow> nat list \<Rightarrow> nat list" where
  "deleted_by_main objs pool =
     [ro_db objs, ro_client2 objs, ro_client1 objs, ro_net objs] @ pool @ [ro_http_manager objs, ro_monitor objs]"

text \<open>\<open>Register\<close> makes a shared pointer of its own for each service, the only one; \<open>m_ServicePtrVec.clear ()\<close>
  in the destructor of the static \<open>gServiceManager\<close> lets go of them. The pointers are in the order of the objects.\<close>

definition deleted_at_exit :: "'w manager \<Rightarrow> nat list" where
  "deleted_at_exit mgr = [0..<length (m_ServicePtrVec mgr)]"

section \<open>What has been made\<close>

definition nothing_made :: "'w making" where
  "nothing_made = \<lparr>mk_mgr = ServiceManager_new, mk_count = 0, mk_pool = []\<rparr>"

definition registrations :: "'w making \<Rightarrow> (tint32 \<times> tint32) list" where
  "registrations mk = map (\<lambda>(cls, sv). (GetServiceType cls, GetServiceID sv)) (m_ServicePtrVec (mk_mgr mk))"

definition numbered :: "service_kind list \<Rightarrow> (tint32 \<times> tint32) list" where
  "numbered ks = map (\<lambda>(i, k). (kind_type k, word_of_nat i + 1)) (enumerate 0 ks)"

text \<open>The services made are \<open>ks\<close>, in this order.\<close>

definition made :: "'w making \<Rightarrow> service_kind list \<Rightarrow> bool" where
  "made mk ks \<longleftrightarrow> registrations mk = numbered ks \<and> mk_count mk = length ks \<and> length (m_ServicePtrVec (mk_mgr mk)) = length ks"

lemma numbered_snoc: "numbered (ks @ [k]) = numbered ks @ [(kind_type k, word_of_nat (length ks) + 1)]"
  by (simp add: numbered_def enumerate_append_eq)

lemma made_new:
  assumes "made mk ks" "new_service vt k mk = (p, mk1)"
  shows "p = length ks" "made mk1 (ks @ [k])" "mk_pool mk1 = mk_pool mk"
  using assms by (auto simp: made_def new_service_def Register_def registrations_def numbered_snoc)

lemma made_https: "made mk ks \<Longrightarrow> made (new_https vt n mk) (ks @ replicate n HttpS) \<and>
    mk_pool (new_https vt n mk) = mk_pool mk @ [length ks..<length ks + n]"
proof (induction n arbitrary: mk ks)
  case (Suc n)
  obtain p mk1 where new: "new_service vt HttpS mk = (p, mk1)" by fastforce
  note m = made_new [OF Suc.prems new]
  have "made (mk1\<lparr>mk_pool := mk_pool mk1 @ [p]\<rparr>) (ks @ [HttpS])" using m(2) by (simp add: made_def registrations_def)
  from Suc.IH [OF this] show ?case using m by (simp add: new upt_conv_Cons)
qed simp

lemma new_thread_pool: "new_service vt k mk = (p, mk1) \<Longrightarrow> m_pkThreadPool (mk_mgr mk1) = m_pkThreadPool (mk_mgr mk)"
  by (auto simp: new_service_def Register_def)

lemma https_thread_pool: "m_pkThreadPool (mk_mgr (new_https vt n mk)) = m_pkThreadPool (mk_mgr mk)"
  by (induction n arbitrary: mk) (auto simp: new_thread_pool split: prod.splits)

definition services_of :: "nat \<Rightarrow> service_kind list" where
  "services_of n = [MonitorS, HttpManagerS] @ replicate n HttpS @ [NetS, ClientS, ClientS, DBS]"

lemma make_services_made:
  assumes "made mk []" "make_services ltm pl ops vt ob mk log = (Ok objs, log1, mk')"
  shows "\<exists>k n. ob = luanumber k \<and> n = nat (sint (num_to_int ops k)) \<and> made mk' (services_of n) \<and>
    mk_pool mk' = mk_pool mk @ [2..<n + 2] \<and> m_pkThreadPool (mk_mgr mk') = m_pkThreadPool (mk_mgr mk) \<and>
    objs = \<lparr>ro_monitor = 0, ro_http_manager = 1, ro_net = n + 2, ro_client1 = n + 3, ro_client2 = n + 4, ro_db = n + 5\<rparr>"
proof -
  obtain mon mk1 where 1: "new_service vt MonitorS mk = (mon, mk1)" by fastforce
  obtain man mk2 where 2: "new_service vt HttpManagerS mk1 = (man, mk2)" by fastforce
  obtain k where ob: "ob = luanumber k"
    using assms(2) by (cases ob) (auto simp: make_services_def 1 2 AssertEx_def do_assert_def)
  define n where "n = nat (sint (num_to_int ops k))"
  define mk3 where "mk3 = new_https vt n mk2"
  obtain net mk4 where 4: "new_service vt NetS mk3 = (net, mk4)" by fastforce
  obtain c1 mk5 where 5: "new_service vt ClientS mk4 = (c1, mk5)" by fastforce
  obtain c2 mk6 where 6: "new_service vt ClientS mk5 = (c2, mk6)" by fastforce
  obtain db mk7 where 7: "new_service vt DBS mk6 = (db, mk7)" by fastforce
  have r: "mk' = mk7" "objs = \<lparr>ro_monitor = mon, ro_http_manager = man, ro_net = net, ro_client1 = c1, ro_client2 = c2, ro_db = db\<rparr>"
    using assms(2) by (auto simp: make_services_def 1 2 ob n_def [symmetric] mk3_def [symmetric] 4 5 6 7)
  note m1 = made_new [OF assms(1) 1, simplified]
  note m2 = made_new [OF m1(2) 2, simplified]
  note m3 = made_https [OF m2(2), of vt n, folded mk3_def]
  note m4 = made_new [OF conjunct1 [OF m3] 4]
  note m5 = made_new [OF m4(2) 5]
  note m6 = made_new [OF m5(2) 6]
  note m7 = made_new [OF m6(2) 7]
  have "m_pkThreadPool (mk_mgr mk7) = m_pkThreadPool (mk_mgr mk)"
    using new_thread_pool [OF 1] new_thread_pool [OF 2] https_thread_pool [of vt n mk2, folded mk3_def]
      new_thread_pool [OF 4] new_thread_pool [OF 5] new_thread_pool [OF 6] new_thread_pool [OF 7] by simp
  then show ?thesis
    using m1 m2 m3 m4 m5 m6 m7 unfolding r by (auto simp: ob n_def [symmetric] services_of_def add.commute numeral_2_eq_2)
qed

lemma Create_made: "Create log_ok n mgr = (Ok b, mgr1) \<Longrightarrow> m_ServicePtrVec mgr1 = m_ServicePtrVec mgr \<and>
    (m_pkThreadPool mgr = None \<longrightarrow> (m_pkThreadPool mgr1 = None \<longleftrightarrow> \<not> log_ok))"
  by (auto simp: Create_def split: if_splits)

section \<open>Properties\<close>

text \<open>When the start of the process reaches \<open>Run\<close>, the services are registered with the numbers 1, 2, 3 and so on in the order in
  which they are made, as many http services as the configuration's count asks for between the first two and the last four, and the
  http manager holds just those; there is a thread pool exactly when the manager's log could be opened. When
  \<open>Run\<close> comes back and the process ends, each of the services is deleted twice, by \<open>main\<close> or the http manager and by the
  shared pointer of \<open>Register\<close>.\<close>

theorem services_registered:
  assumes "RunServiceManager ltm pl ops run globals log_ok vt nothing_made log = Some (Ok (Some objs), log1, cfg, mk)"
  shows "\<exists>k n. global_at ops (script_globals run globals) ''Service.HttpManager.count'' = Some (luanumber k) \<and>
    n = nat (sint (num_to_int ops k)) \<and> registrations mk = numbered (services_of n) \<and> mk_pool mk = [2..<n + 2] \<and>
    (m_pkThreadPool (mk_mgr mk) = None \<longleftrightarrow> \<not> log_ok) \<and>
    (\<forall>i. i < n + 6 \<longrightarrow> count_list (deleted_by_main objs (mk_pool mk) @ deleted_at_exit (mk_mgr mk)) i = 2)"
proof -
  let ?g = "script_globals run globals"
  obtain r log0 cfg0 where c0: "Config_Init ltm pl ops run globals log = Some (r, log0, cfg0)"
    using assms by (cases "Config_Init ltm pl ops run globals log") (auto simp: RunServiceManager_def)
  have look: "\<exists>c1. Config_GetLuaObject ops c nm = Some (global_at ops ?g nm, c1) \<and> config_reads ops ?g c1"
    if "config_reads ops ?g c" "Config_GetLuaObject ops c nm \<noteq> None" for c nm
    using config_lookup [OF that(1), of nm] config_never [OF that(1), of nm] that(2) by blast
  note init = c0 Config_Init_reads [OF c0]
  obtain b where r: "r = Ok b" using assms init(1) by (cases r) (auto simp: RunServiceManager_def)
  have "Config_GetLuaObject ops cfg0 ''Service'' \<noteq> None" using assms
    by (cases "Config_GetLuaObject ops cfg0 ''Service''") (simp_all add: RunServiceManager_def init r)
  then obtain cfg1 where 1: "Config_GetLuaObject ops cfg0 ''Service'' = Some (global_at ops ?g ''Service'', cfg1)"
      "config_reads ops ?g cfg1" using look [OF init(2)] by blast
  have "Config_GetLuaObject ops cfg1 ''ThreadCount'' \<noteq> None" using assms
    by (cases "Config_GetLuaObject ops cfg1 ''ThreadCount''"; cases "global_at ops ?g ''Service''")
      (simp_all add: RunServiceManager_def init r 1 case_prod_unfold Let_def)
  then obtain cfg2 where 2: "Config_GetLuaObject ops cfg1 ''ThreadCount'' = Some (global_at ops ?g ''ThreadCount'', cfg2)"
      "config_reads ops ?g cfg2" using look [OF 1(2)] by blast
  have "Config_GetLuaObject ops cfg2 ''Service.HttpManager.count'' \<noteq> None" using assms
    by (cases "Config_GetLuaObject ops cfg2 ''Service.HttpManager.count''"; cases "global_at ops ?g ''Service''";
        cases "global_at ops ?g ''ThreadCount''") (simp_all add: RunServiceManager_def init r 1 2 case_prod_unfold Let_def)
  then obtain cfg3 where 3: "Config_GetLuaObject ops cfg2 ''Service.HttpManager.count'' =
      Some (global_at ops ?g ''Service.HttpManager.count'', cfg3)" using look [OF 2(2)] by blast
  obtain ob mgr1 b' nThread log2 where ob: "global_at ops ?g ''Service.HttpManager.count'' = Some ob"
      and cr: "Create log_ok nThread ServiceManager_new = (Ok b', mgr1)"
      and mk: "make_services ltm pl ops vt ob (nothing_made\<lparr>mk_mgr := mgr1\<rparr>) log2 = (Ok objs, log1, mk)"
    using assms by (auto simp: RunServiceManager_def init r 1 2 3 nothing_made_def split: option.splits outcome.splits prod.splits)
  note c = Create_made [OF cr]
  have "made (nothing_made\<lparr>mk_mgr := mgr1\<rparr>) []"
    using c by (simp add: made_def nothing_made_def registrations_def numbered_def ServiceManager_new_def)
  from make_services_made [OF this mk] obtain k n where n: "ob = luanumber k" "n = nat (sint (num_to_int ops k))" "made mk (services_of n)"
      "mk_pool mk = [2..<n + 2]" "m_pkThreadPool (mk_mgr mk) = m_pkThreadPool mgr1"
      "objs = \<lparr>ro_monitor = 0, ro_http_manager = 1, ro_net = n + 2, ro_client1 = n + 3, ro_client2 = n + 4, ro_db = n + 5\<rparr>"
    by (auto simp: nothing_made_def)
  have len: "length (m_ServicePtrVec (mk_mgr mk)) = n + 6" using n(3) by (simp add: made_def services_of_def)
  have upt: "count_list [a..<b] i = (if a \<le> i \<and> i < b then 1 else 0)" for a b i :: nat
    by (simp add: count_list_eq_length_filter distinct_length_filter)
  have "count_list (deleted_by_main objs (mk_pool mk) @ deleted_at_exit (mk_mgr mk)) i = 2" if "i < n + 6" for i
    using that by (auto simp: deleted_by_main_def deleted_at_exit_def len n(4,6) upt)
  then show ?thesis using ob n c by (auto simp: made_def ServiceManager_new_def)
qed

lemma count_int: "num_to_int whole_numbers n = word_of_int n"
  by (simp add: whole_numbers_def)

theorem services_registered_witness:
  "\<exists>objs log1 cfg mk. RunServiceManager (le_ltm busy_env) (le_place busy_env) whole_numbers run_script config_globals True
      (\<lambda>k. Service_class 0 :: unit service_class) nothing_made [] = Some (Ok (Some objs), log1, cfg, mk) \<and>
    registrations mk = [(3, 1), (2, 2), (1, 3), (0, 4), (4, 5), (4, 6), (5, 7)] \<and>
    count_list (deleted_by_main objs (mk_pool mk) @ deleted_at_exit (mk_mgr mk)) 2 = 2"
proof -
  let ?ltm = "le_ltm busy_env" and ?pl = "le_place busy_env" and ?vt = "\<lambda>k. Service_class 0 :: unit service_class"
  have e: "name_ends whole_numbers service_globals ''Service''" "name_ends whole_numbers service_globals ''ThreadCount''"
    "name_ends whole_numbers service_globals ''Service.HttpManager.count''" using script_names_end by simp_all
  obtain cfg0 where init: "Config_Init ?ltm ?pl whole_numbers run_script config_globals [] = Some (Ok True, [], cfg0)"
      "config_reads whole_numbers service_globals cfg0" using shipped_config by blast
  obtain ob where ob: "global_at whole_numbers service_globals ''Service'' = Some ob" using script_lookups(3) by blast
  obtain cfg1 where 1: "Config_GetLuaObject whole_numbers cfg0 ''Service'' = Some (Some ob, cfg1)" "config_reads whole_numbers service_globals cfg1"
    using config_lookup [OF init(2) e(1)] unfolding ob by blast
  obtain cfg2 where 2: "Config_GetLuaObject whole_numbers cfg1 ''ThreadCount'' = Some (Some (luanumber 2), cfg2)"
      "config_reads whole_numbers service_globals cfg2"
    using config_lookup [OF 1(2) e(2)] unfolding script_lookups(2) by blast
  obtain cfg3 where 3: "Config_GetLuaObject whole_numbers cfg2 ''Service.HttpManager.count'' = Some (Some (luanumber 1), cfg3)"
    using config_lookup [OF 2(2) e(3)] unfolding script_lookups(6) by blast
  obtain mgr1 where cr: "Create True 2 (ServiceManager_new :: unit manager) = (Ok True, mgr1)"
    by (simp add: Create_def ServiceManager_new_def)
  have "\<exists>objs mk. make_services ?ltm ?pl whole_numbers ?vt (luanumber 1) (nothing_made\<lparr>mk_mgr := mgr1\<rparr>) [] = (Ok objs, [], mk)"
    by (simp add: make_services_def case_prod_unfold Let_def)
  then obtain objs mk where mk: "make_services ?ltm ?pl whole_numbers ?vt (luanumber 1) (nothing_made\<lparr>mk_mgr := mgr1\<rparr>) [] = (Ok objs, [], mk)"
    by blast
  have run: "RunServiceManager ?ltm ?pl whole_numbers run_script config_globals True ?vt nothing_made [] = Some (Ok (Some objs), [], cfg3, mk)"
    using mk by (simp add: RunServiceManager_def init 1 2 3 nothing_made_def count_int cr)
  obtain n where n: "n = nat (sint (num_to_int whole_numbers (1 :: int)))" "registrations mk = numbered (services_of n)"
      "\<forall>i. i < n + 6 \<longrightarrow> count_list (deleted_by_main objs (mk_pool mk) @ deleted_at_exit (mk_mgr mk)) i = 2"
    using services_registered [OF run] by (auto simp: run_script_globals script_lookups(6))
  have n1: "n = 1" unfolding n(1) by (simp add: count_int)
  have reg: "registrations mk = [(3, 1), (2, 2), (1, 3), (0, 4), (4, 5), (4, 6), (5, 7)]"
    unfolding n(2) n1 by (simp add: numbered_def services_of_def)
  have "count_list (deleted_by_main objs (mk_pool mk) @ deleted_at_exit (mk_mgr mk)) 2 = 2" using n(3) n1 by simp
  then show ?thesis using run reg by blast
qed

end
