(* ===== verification/Spec2Isabelle.thy ===== *)
theory Spec2Isabelle
  imports MsgQueueProps MsgChannel MessageCodec PacketCodec ServiceSafety ServerSocketProps
    SqliteHandler RedisHandler StringUtility Base64 Pool NetServiceMessages HttpServiceProps
    LuaObjectProps LuaBinderProps DBServiceProps DBServiceTick ClientServiceProps CpuMemStat LogEngine ProtoProps
    LoginFlow TitleStored ConfigScripts NetListen ServiceStart ProcessStart
begin

text \<open>
  A verification library for mmdriver, a framework for game and message servers in C++. The
  definitions are translations of the sources under \<open>src/\<close> and \<open>include/\<close>; every theorem is about those
  definitions.

  The program. A process runs services (\<open>service/\<close>): a manager ticks once per loop, hands the services
  that are due to a thread pool, and drives all of them through start, run and shutdown. Services
  keep timers (\<open>common/timer_ex\<close>) and handlers for messages (\<open>common/message\<close>). Processes on one machine
  exchange messages through two ring buffers in a block of shared memory (\<open>common/msg_queue\<close>,
  \<open>share_memory\<close>, \<open>msg_channel\<close>); clients are reached over TCP (\<open>network/\<close>) with packets of their own
  format; results are stored in SQLite, MySQL and Redis (\<open>db/\<close>). The services under \<open>test/\<close> put these
  together: a network service accepts clients and forwards their logins through a channel to an http
  manager, which spreads them over http services that ask a web server, and hands the answers back.

  How the library is laid out:

  \<^item> \<open>Prelude\<close>: scalar types, the wrap-around arithmetic of \<open>size_t\<close>, little-endian images, reading and
    writing byte lists with bounds; \<open>Text\<close> and \<open>CNumbers\<close>: what the sources use of \<open>snprintf\<close>, \<open>atoi\<close>,
    \<open>atoll\<close> and \<open>sscanf\<close>.
  \<^item> \<open>MsgQueue\<close>: the header fields and operations of \<open>Msg_Queue\<close> over one byte memory (a function from
    addresses to bytes), so that writes behind a buffer are visible. \<open>MsgQueueRefine\<close> relates it to a
    list of messages; \<open>MsgFifo\<close> states what a user of a bounded queue relies on as locales, proves
    the user's facts once, and interprets them on \<open>Msg_Queue\<close>; \<open>MsgQueueProps\<close> holds the properties.
  \<^item> \<open>ShareMemory\<close>, \<open>MsgChannel\<close>: attaching a block, giving out segments, the two queues of a channel.
  \<^item> \<open>MessageCodec\<close>, \<open>PacketCodec\<close>: message and packet heads, the encoders, the login messages.
  \<^item> \<open>Exceptions\<close>: the checked vector and the blocks \<open>__ENTER_FUNCTION\<close> and its relatives; a statement
    is a result (a value or a raised exception) with a log.
  \<^item> \<open>TimeEx\<close>, \<open>Timer\<close>, \<open>TimerFacts\<close>: the clock, alarm words at 32 bits and the timer's tick.
  \<^item> \<open>Service\<close>, \<open>ServiceManager\<close>: a service, its virtual functions as a record, and the manager; the
    interleaving of the manager and the worker threads is the step relation \<open>sys_step\<close>, whose steps
    are the manager's tick, a worker taking a job, and a worker finishing it. \<open>ServiceSafety\<close> proves
    invariants of the reachable states by rule induction.
  \<^item> \<open>SocketApi\<close>, \<open>ClientSocket\<close>, \<open>ServerSocket\<close>: the system calls are a record of functions over a state
    of any type, the sockets are translated on top of it; \<open>ClientSocketProps\<close>, \<open>ServerSocketProps\<close>.
  \<^item> \<open>SqlCursor\<close>: what a program that reads a query's result relies on, as a locale, interpreted by
    \<open>SqliteResult\<close> and \<open>MysqlResult\<close>; \<open>SqliteHandler\<close>, \<open>MysqlHandler\<close>, \<open>RedisHandler\<close>: the connections, over
    the client libraries as records of functions.
  \<^item> \<open>StringUtility\<close>, \<open>Base64\<close>: splitting text, and base 64 over the boost iterators of \<open>lib/boost\<close>, with
    reference definitions.
  \<^item> \<open>ObjectPool\<close>: taking objects from a pool and giving them back, as a locale; interpreted by \<open>Pool\<close>
    (\<open>common/pool\<close>) and \<open>ConnectionPool\<close> (\<open>test/ConnectionPool\<close>).
  \<^item> \<open>NetService\<close>: \<open>test/NetService\<close>, with its connections, users, packets and its channel in one world;
    \<open>NetServiceProps\<close> (packets), \<open>NetServiceUsers\<close> (an invariant of the states reached by any sequence of
    connects, packets, ticks and disconnects), \<open>NetServiceMessages\<close> (logins, from the packet to the
    message in shared memory).
  \<^item> \<open>MessageLoop\<close>: the loop by which the services take messages out of a channel into one buffer, as a
    locale; interpreted by the http manager and the database service.
  \<^item> \<open>HttpService\<close>, \<open>HttpServiceProps\<close>: \<open>test/HttpService\<close> and \<open>test/HttpManagerService\<close>; libcurl delivers
    chunks and a code, the JSON reader is a predicate.
  \<^item> \<open>PacketFrames\<close>: loops that cut received bytes into packets, as a locale; interpreted by the network
    service and by \<open>ClientService\<close> (\<open>test/ClientService\<close>), whose properties are in \<open>ClientServiceProps\<close>.
  \<^item> \<open>DBService\<close>, \<open>DBServiceProps\<close>: \<open>test/DBService\<close>, storing characters over \<open>MysqlHandler\<close>, and what the
    server makes of its statements; \<open>DBServiceTick\<close>: its messages and its trial of Redis.
  \<^item> \<open>LogEngine\<close>, \<open>CpuMemStat\<close>: \<open>common/log\<close> with \<open>outputstream\<close>, \<open>common/cpumemstat\<close> with \<open>test/MonitorService\<close>.
  \<^item> \<open>LuaObject\<close>, \<open>LuaObjectProps\<close>: the objects read from a Lua state and their cache, and \<open>test/Config\<close>; the
    tables of Lua are addresses in a heap and may contain themselves. \<open>ConfigScripts\<close>: the repository's two scripts.
  \<^item> \<open>NetListen\<close>: the listening socket of the network service (\<open>TickNetwork\<close>), opened from the configuration.
    \<open>ServiceStart\<close>: \<open>Init\<close> of the services; \<open>ProcessStart\<close>: \<open>test/main.cpp\<close> up to the manager's loop, and what is deleted
    at the end.
  \<^item> \<open>LuaApi\<close>, \<open>LuaFacts\<close>: the stack, the tables and the metatables of Lua as the binder uses them, translated
    from \<open>lib/lua\<close>; \<open>LuaBinder\<close>, \<open>LuaBinderProps\<close>: registering classes and checking objects at a call
    (\<open>common/luabinder\<close>).
  \<^item> \<open>WireFormat\<close>, \<open>WirePacked\<close>: protocol buffers on the wire, translated from \<open>lib/google/protobuf\<close> as far as
    the generated classes use it; \<open>WireFacts\<close>: its readers of numbers against a reference; \<open>WireMessages\<close>,
    \<open>WireFields\<close>: the contract of a generated class as the locales \<open>wire_class\<close> and \<open>wire_merge\<close>, and the
    fields from which a class meets it; \<open>Utf8\<close>: the check of texts. \<open>LoginProtos\<close>, \<open>TitleProto\<close>: the generated
    classes of \<open>test/Message.pb.cc\<close>, \<open>test/Packet.pb.cc\<close> and \<open>test/DBStruct.pb.cc\<close>, which interpret the locales
    (\<open>LoginProtosFacts\<close>, \<open>TitleProto\<close>); \<open>ProtoProps\<close> holds the properties. \<open>LoginFlow\<close>, \<open>TitleStored\<close>: what
    the services promise over these classes, a login from packet to answer and a stored title.

  Conventions. An operation whose C++ code would read or write outside its storage, through a null
  pointer, or through freed storage, gives \<open>None\<close> (or, over the byte memory, shows the bytes it
  overwrites). Exceptions are values. Integers have the width of their type where it matters;
  counts that cannot reach their limit are natural numbers. System calls, the boost libraries,
  the functions of a protobuf class, the database clients and the functions of derived classes are arguments; what a property
  needs of them is a named predicate (\<open>recv_documented\<close>, \<open>descriptors_documented\<close>,
  \<open>mysql_documented\<close>, ...) that its witness instantiates with a concrete function. Loops are
  structural or have a termination proof; \<open>cursor_rows\<close> takes a bound on the number of fetches, and
  its facts ask for one fetch more than there are rows. Parsing a message and skipping a group take as
  bound one round more than there are bytes, which is proved to be enough.

  What the properties show, by group:

  \<^item> Queue and channel: first in first out over every sequence of operations and both directions,
    refinement of a bounded list on every branch, start and resume, and the two places where the
    code leaves its bounds.
  \<^item> Messages and packets: round trips of encoders and decoders, and the packets they damage.
  \<^item> Services: no service is run twice at a time under any interleaving; why shutdown does not end
    and why a service whose start fails is never run again.
  \<^item> Timers: the alarm fields are independent, and an alarm fires at the first due tick of a minute.
  \<^item> Connections: the byte stream is kept across partial sends and receives, descriptors are neither
    lost nor closed by mistake, and a receiving pass of the server is safe.
  \<^item> Databases: reading loops give exactly the rows, numbers are read back, open handles are accounted for, and
    failing statements leave their outputs alone.
  \<^item> Services of \<open>test/\<close>: the map of the users and the connections in use agree in every reachable state,
    a login is forwarded and answered with one message each, a character is loaded as it was stored and
    its statements mean what they should; where packets get out of step and requests are lost.
  \<^item> Pools, text, configuration, log: no block or connection is given out twice, splitting and base 64
    agree with their references, the configuration's cache does not show, an object is
    accepted from Lua exactly for its class and the classes above it, log lines reach the file of
    the day; the processor times are taken from the wrong columns.
  \<^item> Protocol buffers: numbers are read as their reference on the fast and the slow path, texts are checked
    exactly, parsing ends on any bytes, messages are parsed as they were written, two messages in a row
    are one merged into the other; and a list of numbers in two forms that is misread.

  Not modelled: the templates that wrap a function for Lua by its argument types, random numbers, the texts of most
  log lines, the constant headers of the http requests, the parts of the generated classes
  that no service calls (swapping, reflection, writing to a stream), the vendored libraries apart from the
  boost iterators of \<open>Base64\<close>, the part of Lua's API in \<open>LuaApi\<close> and the wire format, and
  the classes of \<open>test/\<close> without behaviour of their own (script service, items, users).
\<close>

end
